(* ===== verification/Prelude.thy ===== *)
theory Prelude
  imports Main "HOL-Library.Word" "HOL-Library.AList"
begin

text \<open>
  The shared layer of the development.

  \<^item> The collections \<open>branch_defs\<close> (definitions a branch-by-branch proof unfolds) and
    \<open>store_simps\<close> (lookup equations of the in-memory stores).
  \<^item> Names for Rust's machine integers, and the result type \<open>'e + 'a\<close> (\<open>Inl\<close> is
    \<open>Err\<close>, \<open>Inr\<close> is \<open>Ok\<close>).
  \<^item> \<open>retain\<close>, \<open>HashMap::retain\<close> on a finite map read as \<open>'k \<rightharpoonup> 'v\<close>.
  \<^item> The string operations the sources use (\<open>str::split\<close>, \<open>split_whitespace\<close>,
    \<open>split_once\<close>, \<open>join\<close>, \<open>trim\<close>, decimal parsing), on ASCII text: a \<open>string\<close>
    is the byte sequence, and white space is the ASCII white space of
    \<open>char::is_whitespace\<close>.
\<close>

named_theorems branch_defs \<open>definitions unfolded by a branch-by-branch proof\<close>
named_theorems store_simps \<open>lookup equations of the in-memory stores\<close>

type_synonym u8 = "8 word"
type_synonym u16 = "16 word"
type_synonym u32 = "32 word"
type_synonym u64 = "64 word"
type_synonym bytes = "u8 list"

section \<open>Results\<close>

definition is_ok :: "'e + 'a \<Rightarrow> bool" where
  "is_ok r = (case r of Inl _ \<Rightarrow> False | Inr _ \<Rightarrow> True)"

lemma is_ok_simps [simp]: "is_ok (Inr x)" "\<not> is_ok (Inl e)"
  by (simp_all add: is_ok_def)

text \<open>\<open>Option::ok_or\<close>.\<close>

definition ok_or :: "'e \<Rightarrow> 'a option \<Rightarrow> 'e + 'a" where
  "ok_or e v = (case v of None \<Rightarrow> Inl e | Some x \<Rightarrow> Inr x)"

lemma ok_or_simps [simp]: "ok_or e None = Inl e" "ok_or e (Some x) = Inr x"
  by (simp_all add: ok_or_def)

lemma ok_or_eq_Inr [simp]: "ok_or e v = Inr x \<longleftrightarrow> v = Some x"
  by (cases v) auto

section \<open>Maps\<close>

definition retain :: "('k \<Rightarrow> 'v \<Rightarrow> bool) \<Rightarrow> ('k \<rightharpoonup> 'v) \<Rightarrow> ('k \<rightharpoonup> 'v)" where
  "retain P m = (\<lambda>k. case m k of None \<Rightarrow> None | Some v \<Rightarrow> if P k v then Some v else None)"

lemma retain_Some [simp]: "retain P m k = Some v \<longleftrightarrow> m k = Some v \<and> P k v"
  by (auto simp: retain_def split: option.splits)

lemma retain_None: "retain P m k = None \<longleftrightarrow> (\<forall>v. m k = Some v \<longrightarrow> \<not> P k v)"
  by (auto simp: retain_def split: option.splits)

lemma dom_retain_subset: "dom (retain P m) \<subseteq> dom m"
  by (auto simp: dom_def)

section \<open>Strings\<close>

definition is_ws :: "char \<Rightarrow> bool" where
  "is_ws c = (of_char c = (32 :: nat) \<or> 9 \<le> (of_char c :: nat) \<and> (of_char c :: nat) \<le> 13)"

text \<open>\<open>str::split\<close> with a predicate: always at least one piece, empty pieces kept.\<close>

fun split_by :: "('a \<Rightarrow> bool) \<Rightarrow> 'a list \<Rightarrow> 'a list list" where
  "split_by P [] = [[]]"
| "split_by P (c # cs) =
     (if P c then [] # split_by P cs
      else (case split_by P cs of [] \<Rightarrow> [[c]] | w # ws \<Rightarrow> (c # w) # ws))"

definition str_split :: "char \<Rightarrow> string \<Rightarrow> string list" where
  "str_split d s = split_by (\<lambda>c. c = d) s"

definition split_whitespace :: "string \<Rightarrow> string list" where
  "split_whitespace s = filter (\<lambda>w. w \<noteq> []) (split_by is_ws s)"

text \<open>\<open>[T]::join\<close>.\<close>

fun str_join :: "'a list \<Rightarrow> 'a list list \<Rightarrow> 'a list" where
  "str_join sep [] = []"
| "str_join sep [w] = w"
| "str_join sep (w # v # ws) = w @ sep @ str_join sep (v # ws)"

text \<open>\<open>str::split_once\<close>: the part before the first occurrence of the delimiter and the part
  after it.\<close>

fun split_once :: "'a \<Rightarrow> 'a list \<Rightarrow> ('a list \<times> 'a list) option" where
  "split_once d [] = None"
| "split_once d (c # cs) =
     (if c = d then Some ([], cs)
      else (case split_once d cs of None \<Rightarrow> None | Some (a, b) \<Rightarrow> Some (c # a, b)))"

definition str_trim :: "string \<Rightarrow> string" where
  "str_trim s = rev (dropWhile is_ws (rev (dropWhile is_ws s)))"

text \<open>ASCII case mapping (\<open>to_lowercase\<close>, \<open>to_uppercase\<close> on ASCII text).\<close>

definition lower_char :: "char \<Rightarrow> char" where
  "lower_char c = (if 65 \<le> (of_char c :: nat) \<and> (of_char c :: nat) \<le> 90 then char_of (of_char c + 32 :: nat) else c)"

definition upper_char :: "char \<Rightarrow> char" where
  "upper_char c = (if 97 \<le> (of_char c :: nat) \<and> (of_char c :: nat) \<le> 122 then char_of (of_char c - 32 :: nat) else c)"

definition to_lowercase :: "string \<Rightarrow> string" where
  "to_lowercase s = map lower_char s"

definition to_uppercase :: "string \<Rightarrow> string" where
  "to_uppercase s = map upper_char s"

lemma split_by_not_Nil [simp]: "split_by P s \<noteq> []"
  by (cases s) (auto split: list.splits)

lemma split_by_pieces: "w \<in> set (split_by P s) \<Longrightarrow> c \<in> set w \<Longrightarrow> \<not> P c"
proof (induction s arbitrary: w)
  case Nil
  then show ?case by simp
next
  case (Cons a s)
  then show ?case
    by (cases "split_by P s") (force split: if_splits)+
qed

lemma split_by_no_sep: "(\<And>c. c \<in> set w \<Longrightarrow> \<not> P c) \<Longrightarrow> split_by P w = [w]"
  by (induction w) auto

lemma split_by_append: "P d \<Longrightarrow> split_by P (a @ d # b) = split_by P a @ split_by P b"
proof (induction a)
  case (Cons c a)
  then show ?case by (cases "split_by P a") auto
qed simp

lemma split_by_append_sep:
  assumes "\<And>c. c \<in> set w \<Longrightarrow> \<not> P c" and "P d"
  shows "split_by P (w @ d # s) = w # split_by P s"
  using assms by (induction w) auto

lemma split_by_join:
  assumes "ws \<noteq> []" and "P d" and "\<And>w c. w \<in> set ws \<Longrightarrow> c \<in> set w \<Longrightarrow> \<not> P c"
  shows "split_by P (str_join [d] ws) = ws"
  using assms
proof (induction "[d]" ws rule: str_join.induct)
  case 1
  then show ?case by simp
next
  case (2 w)
  then show ?case by (simp add: split_by_no_sep)
next
  case (3 w v ws)
  have "split_by P (str_join [d] (v # ws)) = v # ws"
    by (rule 3(1)) (use 3(3,4) in auto)
  moreover have "split_by P (w @ d # str_join [d] (v # ws)) = w # split_by P (str_join [d] (v # ws))"
    by (rule split_by_append_sep) (use 3(3,4) in auto)
  ultimately show ?case by simp
qed

text \<open>A list of words as \<open>split_whitespace\<close> returns it: no empty word, no white space.\<close>

definition words_ok :: "string list \<Rightarrow> bool" where
  "words_ok ws = (\<forall>w \<in> set ws. w \<noteq> [] \<and> (\<forall>c \<in> set w. \<not> is_ws c))"

lemma is_ws_space [simp]: "is_ws (CHR '' '')"
  by (simp add: is_ws_def)

lemma words_ok_split_whitespace [simp]: "words_ok (split_whitespace s)"
  by (auto simp: words_ok_def split_whitespace_def dest: split_by_pieces)

lemma words_ok_Nil [simp]: "words_ok []"
  by (simp add: words_ok_def)

lemma words_ok_subset: "words_ok ws \<Longrightarrow> set vs \<subseteq> set ws \<Longrightarrow> words_ok vs"
  by (auto simp: words_ok_def)

lemma split_whitespace_join:
  assumes "words_ok ws"
  shows "split_whitespace (str_join '' '' ws) = ws"
proof (cases "ws = []")
  case True
  then show ?thesis by (simp add: split_whitespace_def)
next
  case False
  have "split_by is_ws (str_join [CHR '' ''] ws) = ws"
    by (rule split_by_join) (use assms False in \<open>auto simp: words_ok_def\<close>)
  moreover have "filter (\<lambda>w. w \<noteq> []) ws = ws"
    using assms by (auto simp: words_ok_def filter_id_conv)
  ultimately show ?thesis by (simp add: split_whitespace_def)
qed

lemma split_once_Some_append: "split_once d s = Some (a, b) \<Longrightarrow> s = a @ d # b \<and> d \<notin> set a"
  by (induction s arbitrary: a) (auto split: if_splits option.splits)

lemma split_once_append: "d \<notin> set a \<Longrightarrow> split_once d (a @ d # b) = Some (a, b)"
  by (induction a) auto

end
