(* ===== verification/ErrorKernel.thy ===== *)
theory ErrorKernel
  imports Prelude
begin

text \<open>
  The error kernel (\<open>klauthed-error\<close>): \<open>ErrorCategory\<close> with its HTTP status, retryability and
  label, and the two domain error types the modelled components return
  (\<open>klauthed-security\<close>'s \<open>SecurityError\<close> and \<open>klauthed-data\<close>'s \<open>DataError\<close>), each with
  its category. Payload strings that only carry a library's message are kept as strings.
\<close>

section \<open>Categories\<close>

datatype error_category =
    BadRequest | Unauthorized | Forbidden | NotFound | UnprocessableEntity
  | Conflict | RateLimited | Timeout | Unavailable | Internal

fun http_status :: "error_category \<Rightarrow> nat" where
  "http_status BadRequest = 400"
| "http_status Unauthorized = 401"
| "http_status Forbidden = 403"
| "http_status NotFound = 404"
| "http_status UnprocessableEntity = 422"
| "http_status Conflict = 409"
| "http_status RateLimited = 429"
| "http_status Timeout = 504"
| "http_status Unavailable = 503"
| "http_status Internal = 500"

definition is_retryable :: "error_category \<Rightarrow> bool" where
  "is_retryable c = (case c of RateLimited \<Rightarrow> True | Timeout \<Rightarrow> True | Unavailable \<Rightarrow> True | _ \<Rightarrow> False)"

definition is_client_error :: "error_category \<Rightarrow> bool" where
  "is_client_error c = (let status = http_status c in 400 \<le> status \<and> status < 500)"

fun category_as_str :: "error_category \<Rightarrow> string" where
  "category_as_str BadRequest = ''bad_request''"
| "category_as_str Unauthorized = ''unauthorized''"
| "category_as_str Forbidden = ''forbidden''"
| "category_as_str NotFound = ''not_found''"
| "category_as_str UnprocessableEntity = ''unprocessable_entity''"
| "category_as_str Conflict = ''conflict''"
| "category_as_str RateLimited = ''rate_limited''"
| "category_as_str Timeout = ''timeout''"
| "category_as_str Unavailable = ''unavailable''"
| "category_as_str Internal = ''internal''"


section \<open>Configuration errors\<close>

text \<open>\<open>ConfigError\<close>; a wrapped library error is kept as its message.\<close>

datatype config_error =
    CE_FileNotFound string
  | CE_UnsupportedFormat string
  | CE_ParseError string string
  | CE_MissingRequired string
  | CE_VaultRequired string string
  | CE_InvalidProviderChain string string
  | CE_Deserialization string string
  | CE_VaultAuth string string
  | CE_VaultRequest string string
  | CE_VaultSecretNotFound string
  | CE_MissingEnv string
  | CE_Io string
  | CE_Toml string
  | CE_Json string
  | CE_Http string
  | CE_ConfigServer string string

fun config_error_classify :: "config_error \<Rightarrow> error_category \<times> string" where
  "config_error_classify (CE_FileNotFound _) = (Internal, ''config.file_not_found'')"
| "config_error_classify (CE_UnsupportedFormat _) = (Internal, ''config.unsupported_format'')"
| "config_error_classify (CE_ParseError _ _) = (Internal, ''config.parse_error'')"
| "config_error_classify (CE_MissingRequired _) = (Internal, ''config.missing_required'')"
| "config_error_classify (CE_VaultRequired _ _) = (Internal, ''config.vault_required'')"
| "config_error_classify (CE_InvalidProviderChain _ _) = (Internal, ''config.invalid_provider_chain'')"
| "config_error_classify (CE_Deserialization _ _) = (Internal, ''config.deserialization'')"
| "config_error_classify (CE_VaultAuth _ _) = (Internal, ''config.vault_auth'')"
| "config_error_classify (CE_VaultRequest _ _) = (Unavailable, ''config.vault_request'')"
| "config_error_classify (CE_VaultSecretNotFound _) = (Internal, ''config.vault_secret_not_found'')"
| "config_error_classify (CE_MissingEnv _) = (Internal, ''config.missing_env'')"
| "config_error_classify (CE_Io _) = (Internal, ''config.io'')"
| "config_error_classify (CE_Toml _) = (Internal, ''config.toml'')"
| "config_error_classify (CE_Json _) = (Internal, ''config.json'')"
| "config_error_classify (CE_ConfigServer _ _) = (Unavailable, ''config.config_server'')"
| "config_error_classify (CE_Http _) = (Unavailable, ''config.http'')"

section \<open>Security errors\<close>

datatype security_error =
    SE_Hash string
  | SE_InvalidHash string
  | SE_Key string
  | SE_Encode string
  | SE_MalformedToken string
  | SE_InvalidToken string
  | SE_ExpiredToken
  | SE_TokenTtlOverflow string
  | SE_Rng
  | SE_SessionNotFound
  | SE_SessionExpired
  | SE_Forbidden
  | SE_MfaConfig string
  | SE_InvalidMfaCode
  | SE_Encryption
  | SE_Decryption
  | SE_KeyDerivation
  | SE_WebauthnConfig string
  | SE_Webauthn string
  | SE_Hibp string

text \<open>The category and the \<open>security.<code>\<close> the derive attributes give each variant.\<close>

fun security_error_classify :: "security_error \<Rightarrow> error_category \<times> string" where
  "security_error_classify (SE_Hash _) = (Internal, ''security.hash'')"
| "security_error_classify (SE_InvalidHash _) = (BadRequest, ''security.invalid_hash'')"
| "security_error_classify (SE_Key _) = (Internal, ''security.key'')"
| "security_error_classify (SE_Encode _) = (Internal, ''security.encode'')"
| "security_error_classify (SE_MalformedToken _) = (BadRequest, ''security.malformed_token'')"
| "security_error_classify (SE_InvalidToken _) = (Unauthorized, ''security.invalid_token'')"
| "security_error_classify SE_ExpiredToken = (Unauthorized, ''security.expired_token'')"
| "security_error_classify (SE_TokenTtlOverflow _) = (Internal, ''security.token_ttl_overflow'')"
| "security_error_classify SE_Rng = (Internal, ''security.rng'')"
| "security_error_classify SE_SessionNotFound = (NotFound, ''security.session_not_found'')"
| "security_error_classify SE_SessionExpired = (Unauthorized, ''security.session_expired'')"
| "security_error_classify SE_Forbidden = (Forbidden, ''security.forbidden'')"
| "security_error_classify (SE_MfaConfig _) = (Internal, ''security.mfa_config'')"
| "security_error_classify SE_InvalidMfaCode = (Unauthorized, ''security.invalid_mfa_code'')"
| "security_error_classify SE_Encryption = (Internal, ''security.encryption'')"
| "security_error_classify SE_Decryption = (BadRequest, ''security.decryption'')"
| "security_error_classify SE_KeyDerivation = (Internal, ''security.key_derivation'')"
| "security_error_classify (SE_WebauthnConfig _) = (Internal, ''security.webauthn_config'')"
| "security_error_classify (SE_Webauthn _) = (Unauthorized, ''security.webauthn'')"
| "security_error_classify (SE_Hibp _) = (Unavailable, ''security.hibp'')"

section \<open>Data errors\<close>

datatype data_error =
    DE_Config config_error
  | DE_UnsupportedSystem string
  | DE_UnsupportedCacheBackend string
  | DE_UnsupportedMessagingBackend string
  | DE_MissingUrl string
  | DE_Messaging string
  | DE_Outbox string
  | DE_Transaction string
  | DE_Idempotency string
  | DE_Migration string
  | DE_LockHeld string
  | DE_FeatureDisabled string
  | DE_Io string
  | DE_Sqlx string
  | DE_Redis string
  | DE_Nats string
  | DE_RabbitMq string
  | DE_Kafka string
  | DE_Storage string
  | DE_InvalidPage string
  | DE_InvalidCursor string

fun data_error_classify :: "data_error \<Rightarrow> error_category \<times> string" where
  "data_error_classify (DE_Config e) = config_error_classify e"
| "data_error_classify (DE_UnsupportedSystem _) = (Internal, ''data.unsupported_system'')"
| "data_error_classify (DE_UnsupportedCacheBackend _) = (Internal, ''data.unsupported_cache_backend'')"
| "data_error_classify (DE_UnsupportedMessagingBackend _) = (Internal, ''data.unsupported_messaging_backend'')"
| "data_error_classify (DE_MissingUrl _) = (Internal, ''data.missing_url'')"
| "data_error_classify (DE_Messaging _) = (Internal, ''data.messaging'')"
| "data_error_classify (DE_Outbox _) = (Internal, ''data.outbox'')"
| "data_error_classify (DE_Transaction _) = (Internal, ''data.transaction'')"
| "data_error_classify (DE_Idempotency _) = (Internal, ''data.idempotency'')"
| "data_error_classify (DE_Migration _) = (Internal, ''data.migration'')"
| "data_error_classify (DE_LockHeld _) = (Conflict, ''data.lock_held'')"
| "data_error_classify (DE_FeatureDisabled _) = (Internal, ''data.feature_disabled'')"
| "data_error_classify (DE_Io _) = (Internal, ''data.io'')"
| "data_error_classify (DE_Sqlx _) = (Unavailable, ''data.database'')"
| "data_error_classify (DE_Redis _) = (Unavailable, ''data.redis'')"
| "data_error_classify (DE_Nats _) = (Unavailable, ''data.nats'')"
| "data_error_classify (DE_RabbitMq _) = (Unavailable, ''data.rabbitmq'')"
| "data_error_classify (DE_Kafka _) = (Unavailable, ''data.kafka'')"
| "data_error_classify (DE_Storage _) = (Internal, ''data.storage'')"
| "data_error_classify (DE_InvalidPage _) = (BadRequest, ''data.invalid_page'')"
| "data_error_classify (DE_InvalidCursor _) = (BadRequest, ''data.invalid_cursor'')"

section \<open>Platform errors\<close>

datatype platform_error =
    PE_TenantNotFound string
  | PE_TenantSuspended string
  | PE_InvalidTenantSlug string
  | PE_JobNotFound string
  | PE_WebhookSigning string
  | PE_WebhookDelivery string
  | PE_Backend string

fun platform_error_category :: "platform_error \<Rightarrow> error_category" where
  "platform_error_category (PE_TenantNotFound _) = NotFound"
| "platform_error_category (PE_TenantSuspended _) = Forbidden"
| "platform_error_category (PE_InvalidTenantSlug _) = BadRequest"
| "platform_error_category (PE_JobNotFound _) = NotFound"
| "platform_error_category (PE_WebhookSigning _) = Internal"
| "platform_error_category (PE_WebhookDelivery _) = Unavailable"
| "platform_error_category (PE_Backend _) = Internal"

section \<open>Facts\<close>

lemma category_status_inj: "http_status c = http_status d \<longleftrightarrow> c = d"
  by (cases c; cases d) simp_all

lemma category_label_inj: "category_as_str c = category_as_str d \<longleftrightarrow> c = d"
  by (cases c; cases d) simp_all

text \<open>The status, the label and the category determine each other, and the policy read off a
  category is consistent with its status: the retryable categories are exactly 429, 503 and 504,
  every category is either a 4xx caller error or a 5xx fault, and the only caller error worth
  retrying is the rate limit.\<close>

theorem category_policy:
  "(http_status c = http_status d) = (c = d)
   \<and> (category_as_str c = category_as_str d) = (c = d)
   \<and> is_retryable c = (http_status c \<in> {429, 503, 504})
   \<and> is_client_error c = (\<not> 500 \<le> http_status c)
   \<and> (is_retryable c \<and> is_client_error c) = (c = RateLimited)"
  using category_status_inj [of c d] category_label_inj [of c d]
  by (cases c) (simp_all add: is_retryable_def is_client_error_def)

end
