(* ===== verification/Instants.thy ===== *)
theory Instants
  imports Prelude
begin

text \<open>
  Instants and durations (\<open>klauthed-core/src/time\<close>).

  A \<open>Timestamp\<close> wraps an \<open>OffsetDateTime\<close> that is always UTC: the model is its number of
  nanoseconds since the Unix epoch, and a \<open>Duration\<close> is a number of nanoseconds. The
  representable range of the \<open>time\<close> crate is a parameter (\<open>time_range\<close>): its conversions and
  \<open>checked_add\<close> answer \<open>None\<close> outside it. \<open>range_ok\<close> is what the crate documents of it: the
  epoch is representable and every representable instant, in milliseconds, fits an \<open>i64\<close>.
\<close>

type_synonym timestamp = int
type_synonym duration = int

record time_range =
  dt_min :: int
  dt_max :: int

definition range_ok :: "time_range \<Rightarrow> bool" where
  "range_ok R = (- (2 ^ 63) * 1000000 \<le> dt_min R \<and> dt_min R \<le> 0 \<and>
                 0 \<le> dt_max R \<and> dt_max R < 2 ^ 63 * 1000000)"

definition in_range :: "time_range \<Rightarrow> int \<Rightarrow> bool" where
  "in_range R t = (dt_min R \<le> t \<and> t \<le> dt_max R)"

text \<open>\<open>as i64\<close> on a wider integer keeps the low 64 bits, read as two's complement.\<close>

definition as_i64 :: "int \<Rightarrow> int" where
  "as_i64 n = (n + 2 ^ 63) mod 2 ^ 64 - 2 ^ 63"

text \<open>Rust's integer division truncates towards zero.\<close>

definition trunc_div :: "int \<Rightarrow> int \<Rightarrow> int" where
  "trunc_div a b = sgn a * sgn b * (\<bar>a\<bar> div \<bar>b\<bar>)"

definition from_unix_millis_opt :: "time_range \<Rightarrow> int \<Rightarrow> timestamp option" where
  "from_unix_millis_opt R millis =
     (let nanos = millis * 1000000 in if in_range R nanos then Some nanos else None)"

definition saturated :: "time_range \<Rightarrow> bool \<Rightarrow> timestamp" where
  "saturated R non_negative = (if non_negative then dt_max R else dt_min R)"

definition from_unix_millis :: "time_range \<Rightarrow> int \<Rightarrow> timestamp" where
  "from_unix_millis R millis =
     (case from_unix_millis_opt R millis of None \<Rightarrow> saturated R (0 \<le> millis) | Some t \<Rightarrow> t)"

definition from_unix_seconds_opt :: "time_range \<Rightarrow> int \<Rightarrow> timestamp option" where
  "from_unix_seconds_opt R secs =
     (let nanos = secs * 1000000000 in if in_range R nanos then Some nanos else None)"

definition from_unix_seconds :: "time_range \<Rightarrow> int \<Rightarrow> timestamp" where
  "from_unix_seconds R secs =
     (case from_unix_seconds_opt R secs of None \<Rightarrow> saturated R (0 \<le> secs) | Some t \<Rightarrow> t)"

definition unix_millis :: "timestamp \<Rightarrow> int" where
  "unix_millis t = as_i64 (trunc_div t 1000000)"

text \<open>\<open>OffsetDateTime::unix_timestamp\<close> is the whole second the instant lies in.\<close>

definition unix_seconds :: "timestamp \<Rightarrow> int" where
  "unix_seconds t = t div 1000000000"

definition duration_since :: "timestamp \<Rightarrow> timestamp \<Rightarrow> duration" where
  "duration_since t earlier = t - earlier"

definition checked_add :: "time_range \<Rightarrow> timestamp \<Rightarrow> duration \<Rightarrow> timestamp option" where
  "checked_add R t delta = (if in_range R (t + delta) then Some (t + delta) else None)"

text \<open>\<open>Duration::seconds\<close>, \<open>Duration::milliseconds\<close>, \<open>whole_seconds\<close> and
  \<open>whole_milliseconds\<close>.\<close>

definition seconds :: "int \<Rightarrow> duration" where
  "seconds n = n * 1000000000"

definition milliseconds :: "int \<Rightarrow> duration" where
  "milliseconds n = n * 1000000"

definition whole_seconds :: "duration \<Rightarrow> int" where
  "whole_seconds d = trunc_div d 1000000000"

definition whole_milliseconds :: "duration \<Rightarrow> int" where
  "whole_milliseconds d = trunc_div d 1000000"

section \<open>The fixed clock\<close>

text \<open>\<open>FixedClock\<close> holds one instant; \<open>advance\<close> panics past the representable range, which
  is \<open>None\<close> here.\<close>

record fixed_clock =
  fc_now :: timestamp

definition fixed_clock_new :: "timestamp \<Rightarrow> fixed_clock" where
  "fixed_clock_new at = \<lparr>fc_now = at\<rparr>"

definition fixed_clock_at_unix_millis :: "time_range \<Rightarrow> int \<Rightarrow> fixed_clock" where
  "fixed_clock_at_unix_millis R millis = fixed_clock_new (from_unix_millis R millis)"

definition fixed_clock_set :: "fixed_clock \<Rightarrow> timestamp \<Rightarrow> fixed_clock" where
  "fixed_clock_set c at = c\<lparr>fc_now := at\<rparr>"

definition fixed_clock_advance :: "time_range \<Rightarrow> fixed_clock \<Rightarrow> duration \<Rightarrow> fixed_clock option" where
  "fixed_clock_advance R c delta =
     (case checked_add R (fc_now c) delta of None \<Rightarrow> None | Some t \<Rightarrow> Some (c\<lparr>fc_now := t\<rparr>))"

section \<open>Facts\<close>

lemma checked_add_Some [simp]:
  "checked_add R t d = Some u \<longleftrightarrow> u = t + d \<and> in_range R u"
  by (auto simp: checked_add_def)

lemma checked_add_None: "checked_add R t d = None \<longleftrightarrow> \<not> in_range R (t + d)"
  by (auto simp: checked_add_def)

lemma trunc_div_mult [simp]: "0 < b \<Longrightarrow> trunc_div (a * b) b = a"
  by (simp add: trunc_div_def abs_mult sgn_mult abs_mult_sgn mult.commute [of "sgn a"])

lemma trunc_div_nonneg: "0 \<le> a \<Longrightarrow> 0 < b \<Longrightarrow> trunc_div a b = a div b"
  by (auto simp: trunc_div_def sgn_if)

lemma trunc_div_neg: "a < 0 \<Longrightarrow> 0 < b \<Longrightarrow> trunc_div a b = - ((- a) div b)"
  by (auto simp: trunc_div_def sgn_if)

lemma trunc_div_mono:
  assumes "a \<le> a'" and "0 < b"
  shows "trunc_div a b \<le> trunc_div a' b"
proof -
  consider "0 \<le> a" | "a < 0" "0 \<le> a'" | "a' < 0" using assms by linarith
  then show ?thesis
  proof cases
    case 1
    with assms show ?thesis by (simp add: trunc_div_nonneg zdiv_mono1)
  next
    case 2
    then have "0 \<le> (- a) div b" "0 \<le> a' div b"
      using assms(2) by (simp_all add: pos_imp_zdiv_nonneg_iff)
    with 2 assms(2) show ?thesis by (simp add: trunc_div_nonneg trunc_div_neg)
  next
    case 3
    with assms have "(- a') div b \<le> (- a) div b" by (intro zdiv_mono1) auto
    with 3 assms show ?thesis by (simp add: trunc_div_neg)
  qed
qed

lemma as_i64_id: "- (2 ^ 63) \<le> n \<Longrightarrow> n < 2 ^ 63 \<Longrightarrow> as_i64 n = n"
  by (simp add: as_i64_def)

lemma in_range_millis:
  "range_ok R \<Longrightarrow> in_range R (m * 1000000) \<Longrightarrow> - (2 ^ 63) \<le> m \<and> m < 2 ^ 63"
  by (auto simp: range_ok_def in_range_def)

lemma from_unix_millis_in_range: "range_ok R \<Longrightarrow> in_range R (from_unix_millis R m)"
  by (auto simp: from_unix_millis_def from_unix_millis_opt_def saturated_def range_ok_def
      in_range_def Let_def)

text \<open>\<open>from_unix_millis\<close> saturates and preserves the order of its argument, and on a
  representable value it is inverted by \<open>unix_millis\<close>.\<close>

theorem from_unix_millis_order:
  assumes "range_ok R"
  shows "(m \<le> m' \<longrightarrow> from_unix_millis R m \<le> from_unix_millis R m')
     \<and> in_range R (from_unix_millis R m)
     \<and> (from_unix_millis_opt R m \<noteq> None \<longrightarrow> unix_millis (from_unix_millis R m) = m)"
proof (intro conjI impI)
  assume "m \<le> m'"
  then show "from_unix_millis R m \<le> from_unix_millis R m'"
    using assms
    by (auto simp: from_unix_millis_def from_unix_millis_opt_def saturated_def range_ok_def
        in_range_def Let_def split: if_splits)
next
  show "in_range R (from_unix_millis R m)"
    using assms by (rule from_unix_millis_in_range)
next
  assume "from_unix_millis_opt R m \<noteq> None"
  then have "in_range R (m * 1000000)"
    by (auto simp: from_unix_millis_opt_def Let_def split: if_splits)
  then show "unix_millis (from_unix_millis R m) = m"
    using in_range_millis [OF assms]
    by (simp add: from_unix_millis_def from_unix_millis_opt_def unix_millis_def as_i64_id)
qed

text \<open>The range of the \<open>time\<close> crate without its \<open>large-dates\<close> feature: years -9999 to 9999.\<close>

definition demo_range :: time_range where
  "demo_range = \<lparr>dt_min = - 377705116800000000000, dt_max = 253402300799999999999\<rparr>"

lemma range_ok_demo [simp]: "range_ok demo_range"
  by (simp add: range_ok_def demo_range_def)

theorem from_unix_millis_order_witness:
  "range_ok demo_range \<and> in_range demo_range (from_unix_millis demo_range (2 ^ 62))
   \<and> from_unix_millis demo_range 1500 \<le> from_unix_millis demo_range 2500"
  using from_unix_millis_order [OF range_ok_demo, of "2 ^ 62" "2 ^ 62"]
    from_unix_millis_order [OF range_ok_demo, of 1500 2500] by simp

end
