(* ===== verification/Tokens.thy ===== *)
theory Tokens
  imports ErrorKernel Instants
begin

text \<open>
  Random tokens and secret comparison (\<open>klauthed-security/src/token\<close>, \<open>src/compare\<close>,
  \<open>src/password\<close>).

  The cryptographic crates are parameters, the fields of \<open>crypto\<close>: the outcome of the \<open>i\<close>-th
  call of the operating system's generator (\<open>fill\<close>, \<open>None\<close> when it fails), the base64url and
  hex encoders, SHA-256, HMAC-SHA-256, the byte comparison of the \<open>subtle\<close> crate and the Argon2
  verifier. A component that draws randomness threads the number of draws made so far.
  \<open>crypto_ok\<close> is the documented behaviour the development uses: \<open>ct_eq\<close> is equality on slices
  of one length.
\<close>

datatype argon2_outcome = Argon2_Match | Argon2_Mismatch | Argon2_Error string

record crypto =
  fill :: "nat \<Rightarrow> nat \<Rightarrow> bytes option"
  base64url :: "bytes \<Rightarrow> string"
  hex_encode :: "bytes \<Rightarrow> string"
  sha256 :: "bytes \<Rightarrow> bytes"
  ct_eq :: "bytes \<Rightarrow> bytes \<Rightarrow> bool"
  phc_parse :: "string \<Rightarrow> string option"
  argon2_verify :: "bytes \<Rightarrow> string \<Rightarrow> argon2_outcome"

definition crypto_ok :: "crypto \<Rightarrow> bool" where
  "crypto_ok C = (\<forall>a b. length a = length b \<longrightarrow> ct_eq C a b = (a = b))"

text \<open>\<open>str::as_bytes\<close>.\<close>

definition as_bytes :: "string \<Rightarrow> bytes" where
  "as_bytes s = map (\<lambda>c. word_of_nat (of_char c)) s"

definition random_bytes :: "crypto \<Rightarrow> nat \<Rightarrow> nat \<Rightarrow> (security_error + bytes) \<times> nat" where
  "random_bytes C n i = (ok_or SE_Rng (fill C i n), Suc i)"

definition random_token :: "crypto \<Rightarrow> nat \<Rightarrow> nat \<Rightarrow> (security_error + string) \<times> nat" where
  "random_token C byte_len i =
     (case random_bytes C byte_len i of
        (Inl e, i') \<Rightarrow> (Inl e, i')
      | (Inr bs, i') \<Rightarrow> (Inr (base64url C bs), i'))"

definition constant_time_eq :: "crypto \<Rightarrow> bytes \<Rightarrow> bytes \<Rightarrow> bool" where
  "constant_time_eq C a b = (if length a \<noteq> length b then False else ct_eq C a b)"

text \<open>\<open>verify_password\<close>: the PHC string is parsed first (\<open>phc_parse\<close>: the parser's error
  message, or \<open>None\<close> when it parses), then verified.\<close>

definition verify_password :: "crypto \<Rightarrow> string \<Rightarrow> string \<Rightarrow> security_error + bool" where
  "verify_password C password phc_hash =
     (case phc_parse C phc_hash of
        Some msg \<Rightarrow> Inl (SE_InvalidHash msg)
      | None \<Rightarrow>
          (case argon2_verify C (as_bytes password) phc_hash of
             Argon2_Match \<Rightarrow> Inr True
           | Argon2_Mismatch \<Rightarrow> Inr False
           | Argon2_Error msg \<Rightarrow> Inl (SE_Hash msg)))"

section \<open>Facts\<close>

lemma char_byte_inj: "(word_of_nat (of_char c) :: u8) = word_of_nat (of_char d) \<longleftrightarrow> c = d"
proof
  assume "(word_of_nat (of_char c) :: u8) = word_of_nat (of_char d)"
  then have "unat (word_of_nat (of_char c) :: u8) = unat (word_of_nat (of_char d) :: u8)"
    by simp
  then have "(of_char c :: nat) = of_char d"
    by (simp add: unat_of_nat)
  then show "c = d" by simp
qed simp

lemma as_bytes_inj [simp]: "as_bytes s = as_bytes t \<longleftrightarrow> s = t"
proof
  assume "as_bytes s = as_bytes t"
  then have "map (\<lambda>c. word_of_nat (of_char c) :: u8) s = map (\<lambda>c. word_of_nat (of_char c)) t"
    by (simp add: as_bytes_def)
  moreover have "inj_on (\<lambda>c. word_of_nat (of_char c) :: u8) (set s \<union> set t)"
    by (rule inj_onI) (simp add: char_byte_inj)
  ultimately show "s = t"
    by (rule map_inj_on)
qed simp

lemma constant_time_eq_iff: "crypto_ok C \<Longrightarrow> constant_time_eq C a b \<longleftrightarrow> a = b"
  by (auto simp: constant_time_eq_def crypto_ok_def)

lemma random_token_ok:
  "random_token C n i = (Inr s, i') \<longleftrightarrow> (\<exists>bs. fill C i n = Some bs \<and> s = base64url C bs \<and> i' = Suc i)"
  by (cases "fill C i n") (auto simp: random_token_def random_bytes_def)

lemma random_token_err:
  "random_token C n i = (Inl e, i') \<longleftrightarrow> fill C i n = None \<and> e = SE_Rng \<and> i' = Suc i"
  by (cases "fill C i n") (auto simp: random_token_def random_bytes_def)

lemmas random_token_iffs = random_token_ok random_token_err

text \<open>A concrete instance of the parameters, for the witnesses: the \<open>i\<close>-th draw repeats the byte
  \<open>i\<close>, and the encoder writes its first byte in unary.\<close>

definition demo_token :: "nat \<Rightarrow> string" where
  "demo_token i = CHR ''k'' # replicate i (CHR ''i'')"

definition HEX_DIGITS :: string where
  "HEX_DIGITS = ''0123456789abcdef''"

definition hex_lower :: "bytes \<Rightarrow> string" where
  "hex_lower bs = concat (map (\<lambda>b. [HEX_DIGITS ! (unat b div 16), HEX_DIGITS ! (unat b mod 16)]) bs)"

definition demo_crypto :: crypto where
  "demo_crypto =
     \<lparr>fill = (\<lambda>i n. Some (replicate n (word_of_nat i))),
      base64url = (\<lambda>bs. case bs of [] \<Rightarrow> [] | b # _ \<Rightarrow> demo_token (unat b)),
      hex_encode = hex_lower,
      sha256 = (\<lambda>bs. bs), ct_eq = (\<lambda>a b. a = b),
      phc_parse = (\<lambda>_. None),
      argon2_verify = (\<lambda>p h. if p = as_bytes h then Argon2_Match else Argon2_Mismatch)\<rparr>"

lemma crypto_ok_demo [simp]: "crypto_ok demo_crypto"
  by (simp add: crypto_ok_def demo_crypto_def)

lemma demo_random_token [simp]:
  assumes "0 < n" and "i < 256"
  shows "random_token demo_crypto n i = (Inr (demo_token i), Suc i)"
proof -
  have "unat (word_of_nat i :: u8) = i"
    using assms(2) by (simp add: unat_of_nat)
  moreover obtain m where "n = Suc m" using assms(1) by (cases n) auto
  ultimately show ?thesis
    by (simp add: random_token_def random_bytes_def demo_crypto_def)
qed

lemma demo_minted [simp]:
  "0 < n \<Longrightarrow> i < 256 \<Longrightarrow> map_option (base64url demo_crypto) (fill demo_crypto i n) = Some (demo_token i)"
  using demo_random_token [of n i]
  by (auto simp: random_token_def random_bytes_def split: option.splits sum.splits)

lemma demo_token_inj [simp]: "demo_token i = demo_token j \<longleftrightarrow> i = j"
  by (auto simp: demo_token_def)

end
