(* ===== verification/SingleUse.thy ===== *)
theory SingleUse
  imports Prelude
begin

text \<open>
  The interface of a single-use credential store: what \<open>AuthCodeStore\<close>, \<open>RefreshTokenStore\<close>
  and the recovery-code set promise alike. \<open>put\<close> makes a credential available under its key,
  \<open>redeem\<close> hands it out and takes it away, \<open>prune\<close> stands for every other operation of the
  store, which may only withdraw credentials. From the three laws follows, for every
  interleaving of operations, that a key is redeemed at most as often as it was put.
\<close>

datatype ('v, 't, 'k, 'd) vault_op = Put 'v | Redeem 't 'k | Prune 'd

text \<open>The redemptions of \<open>k\<close> that succeed along a sequence of operations, and the puts of
  \<open>k\<close> in it.\<close>

fun wins ::
  "('v \<Rightarrow> 's \<Rightarrow> 's) \<Rightarrow> ('t \<Rightarrow> 'k \<Rightarrow> 's \<Rightarrow> 'v option \<times> 's) \<Rightarrow> ('d \<Rightarrow> 's \<Rightarrow> 's) \<Rightarrow>
   'k \<Rightarrow> ('v, 't, 'k, 'd) vault_op list \<Rightarrow> 's \<Rightarrow> nat" where
  "wins put redeem prune k [] s = 0"
| "wins put redeem prune k (Put v # ops) s = wins put redeem prune k ops (put v s)"
| "wins put redeem prune k (Redeem t j # ops) s =
     (case redeem t j s of
        (r, s') \<Rightarrow> (if j = k \<and> r \<noteq> None then 1 else 0) + wins put redeem prune k ops s')"
| "wins put redeem prune k (Prune d # ops) s = wins put redeem prune k ops (prune d s)"

fun puts :: "('v \<Rightarrow> 'k) \<Rightarrow> 'k \<Rightarrow> ('v, 't, 'k, 'd) vault_op list \<Rightarrow> nat" where
  "puts key k [] = 0"
| "puts key k (Put v # ops) = (if key v = k then 1 else 0) + puts key k ops"
| "puts key k (Redeem t j # ops) = puts key k ops"
| "puts key k (Prune d # ops) = puts key k ops"

locale single_use =
  fixes put :: "'v \<Rightarrow> 's \<Rightarrow> 's"
    and redeem :: "'t \<Rightarrow> 'k \<Rightarrow> 's \<Rightarrow> 'v option \<times> 's"
    and prune :: "'d \<Rightarrow> 's \<Rightarrow> 's"
    and content :: "'s \<Rightarrow> 'k \<Rightarrow> 'v option"
    and key :: "'v \<Rightarrow> 'k"
  assumes put_law: "k \<noteq> key v \<Longrightarrow> content (put v s) k = None \<longleftrightarrow> content s k = None"
    and redeem_win: "redeem t k s = (Some v, s') \<Longrightarrow> content s k = Some v \<and> content s' k = None"
    and redeem_shrinks: "redeem t k s = (r, s') \<Longrightarrow> content s j = None \<Longrightarrow> content s' j = None"
    and prune_shrinks: "content s j = None \<Longrightarrow> content (prune d s) j = None"
begin

definition held :: "'s \<Rightarrow> 'k \<Rightarrow> nat" where
  "held s k = (if content s k = None then 0 else 1)"

lemma redeem_absent: "content s k = None \<Longrightarrow> redeem t k s = (r, s') \<Longrightarrow> r = None"
  by (cases r) (auto dest: redeem_win)

lemma redeem_held: "redeem t j s = (r, s') \<Longrightarrow> (if j = k \<and> r \<noteq> None then 1 else 0) + held s' k \<le> held s k"
  by (auto simp: held_def dest: redeem_win redeem_shrinks redeem_absent)

lemma put_held: "held (put v s) k \<le> held s k + (if key v = k then 1 else 0)"
  using put_law [of k v s] by (auto simp: held_def)

lemma prune_held: "held (prune d s) k \<le> held s k"
  using prune_shrinks by (auto simp: held_def)

theorem wins_bounded: "wins put redeem prune k ops s \<le> held s k + puts key k ops"
proof (induction ops arbitrary: s)
  case Nil
  then show ?case by simp
next
  case (Cons oper ops)
  show ?case
  proof (cases oper)
    case (Put v)
    then show ?thesis
      using Cons.IH [of "put v s"] put_held [of v s k] by simp
  next
    case (Redeem t j)
    obtain r s' where "redeem t j s = (r, s')" by fastforce
    then show ?thesis
      using Redeem Cons.IH [of s'] redeem_held [of t j s r s' k] by simp
  next
    case (Prune d)
    then show ?thesis
      using Cons.IH [of "prune d s"] prune_held [of d s k] by simp
  qed
qed

text \<open>Redeemed once and not put again, a key is never redeemed again.\<close>

lemma replay_fails:
  assumes "redeem t k s = (Some v, s')" and "puts key k ops = 0"
  shows "wins put redeem prune k ops s' = 0"
  using wins_bounded [of k ops s'] redeem_win [OF assms(1)] assms(2) by (simp add: held_def)

end

end
