(* ===== verification/AuthCode.thy ===== *)
theory AuthCode
  imports Tokens SingleUse
begin

text \<open>
  Authorization codes (\<open>klauthed-security/src/authz_code\<close>): the \<open>AuthCode\<close> record and its
  builder, PKCE verification, and the in-memory \<open>AuthCodeStore\<close>, whose \<open>HashMap\<close> is a map from
  the code string. Every operation of the store takes the clock reading it makes. The store is
  an instance of the single-use interface.
\<close>

definition AUTH_CODE_BYTES :: nat where
  "AUTH_CODE_BYTES = 32"

datatype pkce_method = Plain | S256

record auth_code =
  ac_code :: string
  ac_client_id :: string
  ac_subject :: string
  ac_redirect_uri :: "string option"
  ac_scope :: "string list"
  ac_nonce :: "string option"
  ac_pkce_challenge :: "string option"
  ac_pkce_method :: "pkce_method option"
  ac_issued_at :: timestamp
  ac_expires_at :: timestamp

definition ac_is_expired :: "auth_code \<Rightarrow> timestamp \<Rightarrow> bool" where
  "ac_is_expired c now = (ac_expires_at c \<le> now)"

section \<open>Builder\<close>

record auth_code_builder =
  acb_client_id :: string
  acb_subject :: string
  acb_redirect_uri :: "string option"
  acb_scope :: "string list"
  acb_nonce :: "string option"
  acb_pkce_challenge :: "string option"
  acb_pkce_method :: "pkce_method option"

definition acb_new :: "string \<Rightarrow> string \<Rightarrow> auth_code_builder" where
  "acb_new client_id subject =
     \<lparr>acb_client_id = client_id, acb_subject = subject, acb_redirect_uri = None, acb_scope = [],
      acb_nonce = None, acb_pkce_challenge = None, acb_pkce_method = None\<rparr>"

definition acb_set_redirect_uri :: "string \<Rightarrow> auth_code_builder \<Rightarrow> auth_code_builder" where
  "acb_set_redirect_uri uri b = b\<lparr>acb_redirect_uri := Some uri\<rparr>"

definition acb_set_scope :: "string list \<Rightarrow> auth_code_builder \<Rightarrow> auth_code_builder" where
  "acb_set_scope sc b = b\<lparr>acb_scope := sc\<rparr>"

definition acb_set_nonce :: "string \<Rightarrow> auth_code_builder \<Rightarrow> auth_code_builder" where
  "acb_set_nonce n b = b\<lparr>acb_nonce := Some n\<rparr>"

definition acb_pkce :: "string \<Rightarrow> pkce_method \<Rightarrow> auth_code_builder \<Rightarrow> auth_code_builder" where
  "acb_pkce challenge m b = b\<lparr>acb_pkce_challenge := Some challenge, acb_pkce_method := Some m\<rparr>"

text \<open>\<open>build\<close>: one draw, then one clock reading \<open>now\<close>, then the expiry.\<close>

definition acb_build ::
  "crypto \<Rightarrow> time_range \<Rightarrow> timestamp \<Rightarrow> duration \<Rightarrow> auth_code_builder \<Rightarrow> nat
   \<Rightarrow> (security_error + auth_code) \<times> nat" where
  "acb_build C R now ttl b i =
     (case random_token C AUTH_CODE_BYTES i of
        (Inl e, i') \<Rightarrow> (Inl e, i')
      | (Inr code, i') \<Rightarrow>
          (case checked_add R now ttl of
             None \<Rightarrow> (Inl (SE_TokenTtlOverflow ''auth code''), i')
           | Some expires_at \<Rightarrow>
               (Inr \<lparr>ac_code = code, ac_client_id = acb_client_id b, ac_subject = acb_subject b,
                     ac_redirect_uri = acb_redirect_uri b, ac_scope = acb_scope b,
                     ac_nonce = acb_nonce b, ac_pkce_challenge = acb_pkce_challenge b,
                     ac_pkce_method = acb_pkce_method b, ac_issued_at = now,
                     ac_expires_at = expires_at\<rparr>, i')))"

lemmas acb_defs = acb_new_def acb_set_redirect_uri_def acb_set_scope_def acb_set_nonce_def acb_pkce_def

section \<open>PKCE\<close>

definition verify_pkce :: "crypto \<Rightarrow> string \<Rightarrow> string \<Rightarrow> pkce_method \<Rightarrow> bool" where
  "verify_pkce C verifier challenge m =
     (let computed = (case m of
                        Plain \<Rightarrow> verifier
                      | S256 \<Rightarrow> base64url C (sha256 C (as_bytes verifier)))
      in constant_time_eq C (as_bytes computed) (as_bytes challenge))"

section \<open>In-memory store\<close>

type_synonym auth_code_store = "string \<rightharpoonup> auth_code"

definition acs_new :: auth_code_store where
  "acs_new = Map.empty"

definition acs_store :: "auth_code \<Rightarrow> auth_code_store \<Rightarrow> (security_error + unit) \<times> auth_code_store" where
  "acs_store c m = (Inr (), m(ac_code c \<mapsto> c))"

definition acs_consume ::
  "timestamp \<Rightarrow> string \<Rightarrow> auth_code_store \<Rightarrow> (security_error + auth_code option) \<times> auth_code_store" where
  "acs_consume now code m =
     (case m code of
        Some c \<Rightarrow> if ac_is_expired c now then (Inr None, m(code := None))
                  else (Inr (Some c), m(code := None))
      | None \<Rightarrow> (Inr None, m(code := None)))"

section \<open>Facts\<close>

lemma verify_pkce_iff:
  "crypto_ok C \<Longrightarrow>
   verify_pkce C v ch m \<longleftrightarrow>
   (case m of Plain \<Rightarrow> v = ch | S256 \<Rightarrow> base64url C (sha256 C (as_bytes v)) = ch)"
  by (cases m) (auto simp: verify_pkce_def constant_time_eq_iff)

lemma acb_build_ok:
  assumes "acb_build C R now ttl b i = (Inr c, i')"
  shows "ac_client_id c = acb_client_id b \<and> ac_subject c = acb_subject b \<and>
         ac_redirect_uri c = acb_redirect_uri b \<and> ac_scope c = acb_scope b \<and>
         ac_nonce c = acb_nonce b \<and> ac_pkce_challenge c = acb_pkce_challenge b \<and>
         ac_pkce_method c = acb_pkce_method b \<and> ac_issued_at c = now \<and>
         ac_expires_at c = now + ttl \<and> i' = Suc i \<and>
         (\<exists>bs. fill C i AUTH_CODE_BYTES = Some bs \<and> ac_code c = base64url C bs)"
  using assms
  by (auto simp: acb_build_def random_token_iffs split: prod.splits sum.splits option.splits)

lemma acs_consume_win:
  "acs_consume now k m = (Inr (Some c), m') \<longleftrightarrow>
   m k = Some c \<and> now < ac_expires_at c \<and> m' = m(k := None)"
  by (auto simp: acs_consume_def ac_is_expired_def split: option.splits)

lemma acs_consume_content [store_simps]: "snd (acs_consume now k m) = m(k := None)"
  by (simp add: acs_consume_def split: option.splits)

lemma acs_store_content [store_simps]: "snd (acs_store c m) = m(ac_code c \<mapsto> c)"
  by (simp add: acs_store_def)

text \<open>The store seen through the single-use interface.\<close>

definition acs_put :: "auth_code \<Rightarrow> auth_code_store \<Rightarrow> auth_code_store" where
  "acs_put c m = snd (acs_store c m)"

definition acs_redeem :: "timestamp \<Rightarrow> string \<Rightarrow> auth_code_store \<Rightarrow> auth_code option \<times> auth_code_store" where
  "acs_redeem now k m =
     (case acs_consume now k m of (r, m') \<Rightarrow> (case r of Inr v \<Rightarrow> v | Inl _ \<Rightarrow> None, m'))"

definition acs_prune :: "unit \<Rightarrow> auth_code_store \<Rightarrow> auth_code_store" where
  "acs_prune _ m = m"

interpretation auth_codes: single_use acs_put acs_redeem acs_prune "\<lambda>m. m" ac_code
proof
  show "\<And>k v s. k \<noteq> ac_code v \<Longrightarrow> (acs_put v s k = None) = (s k = None)"
    by (simp add: acs_put_def acs_store_def)
  show "\<And>t k s v s'. acs_redeem t k s = (Some v, s') \<Longrightarrow> s k = Some v \<and> s' k = None"
    by (auto simp: acs_redeem_def acs_consume_def split: prod.splits option.splits if_splits)
  show "\<And>t k s r s' j. acs_redeem t k s = (r, s') \<Longrightarrow> s j = None \<Longrightarrow> s' j = None"
    by (auto simp: acs_redeem_def acs_consume_def split: prod.splits option.splits if_splits)
  show "\<And>s j d. s j = None \<Longrightarrow> acs_prune d s j = None"
    by (simp add: acs_prune_def)
qed

text \<open>C8: single use of authorization codes. Along any sequence of \<open>store\<close> and \<open>consume\<close> calls
  on a fresh in-memory store, a code is handed out at most as many times as it was stored, so a
  replayed code is refused.\<close>

theorem auth_code_single_use:
  "wins acs_put acs_redeem acs_prune k ops acs_new \<le> puts ac_code k ops"
  using auth_codes.wins_bounded [of k ops acs_new] by (simp add: auth_codes.held_def acs_new_def)

text \<open>What \<open>consume\<close> hands out. It returns a code exactly when that code is stored and
  the clock has not reached its expiry; an unknown, already consumed or expired code gives
  \<open>None\<close>; and in every case the entry is gone afterwards and no other entry is touched.\<close>

theorem auth_code_consume_spec:
  "fst (acs_consume now k m) =
     Inr (case m k of Some c \<Rightarrow> if now < ac_expires_at c then Some c else None | None \<Rightarrow> None)
   \<and> snd (acs_consume now k m) = m(k := None)"
  by (auto simp: acs_consume_def ac_is_expired_def split: option.splits)

text \<open>A code minted by the builder carries the builder's binding (client, subject,
  redirect URI, scope, nonce, PKCE) and can be redeemed exactly during the \<open>ttl\<close> after the
  instant it was minted.\<close>

theorem auth_code_lifetime:
  assumes "acb_build C R now ttl b i = (Inr c, i')"
  shows "ac_client_id c = acb_client_id b \<and> ac_redirect_uri c = acb_redirect_uri b
     \<and> ac_scope c = acb_scope b \<and> ac_pkce_challenge c = acb_pkce_challenge b
     \<and> ac_pkce_method c = acb_pkce_method b
     \<and> fst (acs_consume t (ac_code c) (snd (acs_store c m)))
         = Inr (if t < now + ttl then Some c else None)"
  using acb_build_ok [OF assms] by (auto simp: acs_consume_def acs_store_def ac_is_expired_def)

definition demo_code :: auth_code where
  "demo_code =
     \<lparr>ac_code = demo_token 0, ac_client_id = ''app'', ac_subject = ''u1'',
      ac_redirect_uri = Some ''https://app/cb'', ac_scope = [''openid''], ac_nonce = None,
      ac_pkce_challenge = None, ac_pkce_method = None, ac_issued_at = 0,
      ac_expires_at = 300000000000\<rparr>"

definition demo_builder :: auth_code_builder where
  "demo_builder = acb_set_scope [''openid''] (acb_set_redirect_uri ''https://app/cb'' (acb_new ''app'' ''u1''))"

lemma demo_build: "acb_build demo_crypto demo_range 0 (seconds 300) demo_builder 0 = (Inr demo_code, 1)"
  by (simp add: acb_build_def  demo_range_def
      demo_builder_def demo_code_def acb_defs AUTH_CODE_BYTES_def seconds_def checked_add_def in_range_def)

theorem auth_code_lifetime_witness:
  "acb_build demo_crypto demo_range 0 (seconds 300) demo_builder 0 = (Inr demo_code, 1)
   \<and> fst (acs_consume 299 (ac_code demo_code) (snd (acs_store demo_code Map.empty)))
       = Inr (if 299 < 0 + seconds 300 then Some demo_code else None)"
  using demo_build auth_code_lifetime [OF demo_build, of 299 Map.empty] by blast

end
