(* ===== verification/RefreshToken.thy ===== *)
theory RefreshToken
  imports Tokens SingleUse
begin

text \<open>
  Refresh tokens (\<open>klauthed-security/src/refresh_token\<close>): the \<open>RefreshToken\<close> record and its
  builder, and the in-memory store with token-family replay detection. The store keeps the live
  tokens, the consumed ones with their family and natural expiry, and the revoked families. It
  is an instance of the single-use interface, and of the family-revocation interface below.
\<close>

definition REFRESH_TOKEN_BYTES :: nat where
  "REFRESH_TOKEN_BYTES = 32"

record refresh_token =
  rt_token :: string
  rt_family_id :: string
  rt_client_id :: string
  rt_subject :: string
  rt_scope :: "string list"
  rt_issued_at :: timestamp
  rt_expires_at :: timestamp

definition rt_is_expired :: "refresh_token \<Rightarrow> timestamp \<Rightarrow> bool" where
  "rt_is_expired t now = (rt_expires_at t \<le> now)"

section \<open>Builder\<close>

record refresh_token_builder =
  rtb_client_id :: string
  rtb_subject :: string
  rtb_scope :: "string list"
  rtb_family_id :: "string option"

definition rtb_new :: "string \<Rightarrow> string \<Rightarrow> refresh_token_builder" where
  "rtb_new client_id subject =
     \<lparr>rtb_client_id = client_id, rtb_subject = subject, rtb_scope = [], rtb_family_id = None\<rparr>"

definition rtb_set_scope :: "string list \<Rightarrow> refresh_token_builder \<Rightarrow> refresh_token_builder" where
  "rtb_set_scope sc b = b\<lparr>rtb_scope := sc\<rparr>"

definition rtb_set_family_id :: "string \<Rightarrow> refresh_token_builder \<Rightarrow> refresh_token_builder" where
  "rtb_set_family_id f b = b\<lparr>rtb_family_id := Some f\<rparr>"

lemmas rtb_defs = rtb_new_def rtb_set_scope_def rtb_set_family_id_def

text \<open>\<open>build\<close>: the bearer value is drawn first, then a family when none is inherited, then the
  clock is read.\<close>

definition rtb_family :: "crypto \<Rightarrow> refresh_token_builder \<Rightarrow> nat \<Rightarrow> (security_error + string) \<times> nat" where
  "rtb_family C b i =
     (case rtb_family_id b of
        Some f \<Rightarrow> (Inr f, i)
      | None \<Rightarrow> random_token C REFRESH_TOKEN_BYTES i)"

definition rtb_build ::
  "crypto \<Rightarrow> time_range \<Rightarrow> timestamp \<Rightarrow> duration \<Rightarrow> refresh_token_builder \<Rightarrow> nat
   \<Rightarrow> (security_error + refresh_token) \<times> nat" where
  "rtb_build C R now ttl b i =
     (case random_token C REFRESH_TOKEN_BYTES i of
        (Inl e, i1) \<Rightarrow> (Inl e, i1)
      | (Inr tok, i1) \<Rightarrow>
          (case rtb_family C b i1 of
             (Inl e, i2) \<Rightarrow> (Inl e, i2)
           | (Inr fam, i2) \<Rightarrow>
               (case checked_add R now ttl of
                  None \<Rightarrow> (Inl (SE_TokenTtlOverflow ''refresh token''), i2)
                | Some expires_at \<Rightarrow>
                    (Inr \<lparr>rt_token = tok, rt_family_id = fam, rt_client_id = rtb_client_id b,
                          rt_subject = rtb_subject b, rt_scope = rtb_scope b, rt_issued_at = now,
                          rt_expires_at = expires_at\<rparr>, i2))))"

section \<open>In-memory store\<close>

datatype consume_result =
  Valid refresh_token | Expired refresh_token | Compromised string | CR_NotFound

record store_state =
  active :: "string \<rightharpoonup> refresh_token"
  consumed :: "string \<rightharpoonup> string \<times> timestamp"
  revoked_families :: "string set"

definition rts_new :: store_state where
  "rts_new = \<lparr>active = Map.empty, consumed = Map.empty, revoked_families = {}\<rparr>"

definition evict_expired_consumed :: "timestamp \<Rightarrow> store_state \<Rightarrow> store_state" where
  "evict_expired_consumed now s = s\<lparr>consumed := retain (\<lambda>_ (_, expiry). now < expiry) (consumed s)\<rparr>"

definition rts_store :: "refresh_token \<Rightarrow> store_state \<Rightarrow> (security_error + unit) \<times> store_state" where
  "rts_store t s = (Inr (), s\<lparr>active := (active s)(rt_token t \<mapsto> t)\<rparr>)"

definition rts_consume ::
  "timestamp \<Rightarrow> string \<Rightarrow> store_state \<Rightarrow> (security_error + consume_result) \<times> store_state" where
  "rts_consume now tok s =
     (case active s tok of
        Some rt \<Rightarrow>
          if rt_family_id rt \<in> revoked_families s
          then (Inr CR_NotFound, s\<lparr>active := (active s)(tok := None)\<rparr>)
          else
            (let s' = s\<lparr>active := (active s)(tok := None),
                        consumed := (consumed s)(tok \<mapsto> (rt_family_id rt, rt_expires_at rt))\<rparr>
             in if rt_is_expired rt now then (Inr (Expired rt), s') else (Inr (Valid rt), s'))
      | None \<Rightarrow>
          (let s' = evict_expired_consumed now s in
           case consumed s' tok of
             Some (family, _) \<Rightarrow>
               (Inr (Compromised family),
                s'\<lparr>revoked_families := insert family (revoked_families s'),
                   active := retain (\<lambda>_ rt. rt_family_id rt \<noteq> family) (active s'),
                   consumed := (consumed s')(tok := None)\<rparr>)
           | None \<Rightarrow> (Inr CR_NotFound, s')))"

definition rts_revoke_family :: "string \<Rightarrow> store_state \<Rightarrow> (security_error + unit) \<times> store_state" where
  "rts_revoke_family family s =
     (Inr (), s\<lparr>revoked_families := insert family (revoked_families s),
                active := retain (\<lambda>_ rt. rt_family_id rt \<noteq> family) (active s)\<rparr>)"

section \<open>Facts\<close>

lemmas rts_defs = rts_store_def rts_consume_def rts_revoke_family_def evict_expired_consumed_def

lemma rtb_family_ok:
  "rtb_family C b i = (Inr f, i') \<Longrightarrow>
   (case rtb_family_id b of Some g \<Rightarrow> f = g \<and> i' = i | None \<Rightarrow> i' = Suc i)"
  by (auto simp: rtb_family_def random_token_iffs split: option.splits)

lemma rtb_build_ok:
  assumes "rtb_build C R now ttl b i = (Inr t, i')"
  shows "rt_client_id t = rtb_client_id b \<and> rt_subject t = rtb_subject b \<and>
         rt_scope t = rtb_scope b \<and> rt_issued_at t = now \<and> rt_expires_at t = now + ttl \<and>
         (\<forall>f. rtb_family_id b = Some f \<longrightarrow> rt_family_id t = f)"
  using assms
  by (auto simp: rtb_build_def rtb_family_def random_token_iffs split: prod.splits sum.splits option.splits)

lemma rts_consume_no_error: "\<exists>r. fst (rts_consume now tok s) = Inr r"
  by (auto simp: rts_consume_def Let_def split: option.splits)

lemma rts_consume_Valid:
  "rts_consume now tok s = (Inr (Valid rt), s') \<longleftrightarrow>
   active s tok = Some rt \<and> rt_family_id rt \<notin> revoked_families s \<and> now < rt_expires_at rt \<and>
   s' = s\<lparr>active := (active s)(tok := None),
          consumed := (consumed s)(tok \<mapsto> (rt_family_id rt, rt_expires_at rt))\<rparr>"
  by (auto simp: rts_consume_def rt_is_expired_def Let_def split: option.splits if_splits)

lemma rts_consume_revoked_mono: "revoked_families s \<subseteq> revoked_families (snd (rts_consume now tok s))"
  by (auto simp: rts_defs Let_def split: option.splits)

lemma rts_consume_active_sub: "active (snd (rts_consume now tok s)) \<subseteq>\<^sub>m active s"
  by (auto simp: rts_defs Let_def map_le_def dom_def retain_def split: option.splits if_splits)

lemma rts_store_revoked [store_simps]: "revoked_families (snd (rts_store t s)) = revoked_families s"
  by (simp add: rts_store_def)

lemma rts_store_active [store_simps]: "active (snd (rts_store t s)) = (active s)(rt_token t \<mapsto> t)"
  by (simp add: rts_store_def)

lemma rts_revoke_family_revoked [store_simps]:
  "revoked_families (snd (rts_revoke_family f s)) = insert f (revoked_families s)"
  by (simp add: rts_revoke_family_def)

section \<open>Single use\<close>

definition rts_put :: "refresh_token \<Rightarrow> store_state \<Rightarrow> store_state" where
  "rts_put t s = snd (rts_store t s)"

definition rts_redeem :: "timestamp \<Rightarrow> string \<Rightarrow> store_state \<Rightarrow> refresh_token option \<times> store_state" where
  "rts_redeem now tok s =
     (case rts_consume now tok s of
        (r, s') \<Rightarrow> (case r of Inr (Valid rt) \<Rightarrow> Some rt | _ \<Rightarrow> None, s'))"

definition rts_prune :: "string \<Rightarrow> store_state \<Rightarrow> store_state" where
  "rts_prune family s = snd (rts_revoke_family family s)"

lemma rts_redeem_Some:
  "rts_redeem now tok s = (Some rt, s') \<longleftrightarrow> rts_consume now tok s = (Inr (Valid rt), s')"
  by (auto simp: rts_redeem_def split: prod.splits sum.splits consume_result.splits)

interpretation refresh_tokens: single_use rts_put rts_redeem rts_prune active rt_token
proof
  show "\<And>k v s. k \<noteq> rt_token v \<Longrightarrow> (active (rts_put v s) k = None) = (active s k = None)"
    by (simp add: rts_put_def store_simps)
  show "\<And>t k s v s'. rts_redeem t k s = (Some v, s') \<Longrightarrow> active s k = Some v \<and> active s' k = None"
    by (auto simp: rts_redeem_Some rts_consume_Valid)
  show "\<And>t k s r s' j. rts_redeem t k s = (r, s') \<Longrightarrow> active s j = None \<Longrightarrow> active s' j = None"
  proof -
    fix t k s r s' j
    assume "rts_redeem t k s = (r, s')" and "active s j = None"
    moreover from this(1) have "s' = snd (rts_consume t k s)"
      by (auto simp: rts_redeem_def split: prod.splits)
    ultimately show "active s' j = None"
      using rts_consume_active_sub [of t k s] by (force simp: map_le_def dom_def)
  qed
  show "\<And>s j d. active s j = None \<Longrightarrow> active (rts_prune d s) j = None"
    by (simp add: rts_prune_def rts_revoke_family_def retain_def)
qed

text \<open>Single use of refresh tokens. Along any sequence of \<open>store\<close>, \<open>consume\<close> and
  \<open>revoke_family\<close> calls on a fresh in-memory store, the redemptions of a bearer value that
  report \<open>Valid\<close> are at most as many as the times it was stored.\<close>

theorem refresh_token_single_use:
  "wins rts_put rts_redeem rts_prune k ops rts_new \<le> puts rt_token k ops"
  using refresh_tokens.wins_bounded [of k ops rts_new]
  by (simp add: refresh_tokens.held_def rts_new_def)

section \<open>Family revocation\<close>

text \<open>The steps of the store and what each reports.\<close>

datatype rts_event =
    Stored refresh_token
  | Consumed timestamp string consume_result
  | FamilyRevoked string

inductive rts_step :: "store_state \<Rightarrow> rts_event \<Rightarrow> store_state \<Rightarrow> bool" where
  step_store: "rts_store t s = (Inr (), s') \<Longrightarrow> rts_step s (Stored t) s'"
| step_consume: "rts_consume now tok s = (Inr r, s') \<Longrightarrow> rts_step s (Consumed now tok r) s'"
| step_revoke: "rts_revoke_family f s = (Inr (), s') \<Longrightarrow> rts_step s (FamilyRevoked f) s'"

inductive_cases rts_step_StoredE: "rts_step s (Stored t) s'"
inductive_cases rts_step_ConsumedE: "rts_step s (Consumed now tok r) s'"
inductive_cases rts_step_FamilyRevokedE: "rts_step s (FamilyRevoked f) s'"

inductive rts_trace :: "store_state \<Rightarrow> rts_event list \<Rightarrow> store_state \<Rightarrow> bool" where
  trace_nil: "rts_trace s [] s"
| trace_cons: "rts_step s e s' \<Longrightarrow> rts_trace s' es s'' \<Longrightarrow> rts_trace s (e # es) s''"

lemma rts_step_revoked_mono: "rts_step s e s' \<Longrightarrow> revoked_families s \<subseteq> revoked_families s'"
proof (induction rule: rts_step.induct)
  case (step_consume now tok s r s')
  then show ?case using rts_consume_revoked_mono [of s now tok] by simp
qed (auto simp: rts_store_def rts_revoke_family_def)

lemma rts_step_valid_not_revoked:
  "rts_step s (Consumed now tok (Valid rt)) s' \<Longrightarrow> rt_family_id rt \<notin> revoked_families s"
  by (elim rts_step_ConsumedE) (simp add: rts_consume_Valid)

lemma rts_trace_revoked_dead:
  "rts_trace s es s' \<Longrightarrow> f \<in> revoked_families s \<Longrightarrow>
   Consumed now tok (Valid rt) \<in> set es \<Longrightarrow> rt_family_id rt \<noteq> f"
proof (induction rule: rts_trace.induct)
  case (trace_cons s e s' es s'')
  then show ?case
    using rts_step_revoked_mono [OF trace_cons(1)] rts_step_valid_not_revoked by auto
qed simp

lemma rts_compromise:
  assumes "rts_consume now tok s = (Inr (Compromised f), s')"
  shows "f \<in> revoked_families s' \<and> (\<forall>k rt. active s' k = Some rt \<longrightarrow> rt_family_id rt \<noteq> f)"
  using assms by (auto simp: rts_consume_def Let_def split: option.splits if_splits)

text \<open>An event that leaves the memory of a consumed bearer value in place: it is about another
  bearer value and no clock reading in it has reached the value's natural expiry.\<close>

fun leaves_memory :: "string \<Rightarrow> timestamp \<Rightarrow> rts_event \<Rightarrow> bool" where
  "leaves_memory tok expiry (Stored t) = (rt_token t \<noteq> tok)"
| "leaves_memory tok expiry (Consumed now k r) = (k \<noteq> tok \<and> now < expiry)"
| "leaves_memory tok expiry (FamilyRevoked f) = True"

definition remembers :: "string \<Rightarrow> string \<Rightarrow> timestamp \<Rightarrow> store_state \<Rightarrow> bool" where
  "remembers tok family expiry s = (active s tok = None \<and> consumed s tok = Some (family, expiry))"

lemma rts_consume_remembers:
  assumes "remembers tok family expiry s" and "k \<noteq> tok" and "now < expiry"
  shows "remembers tok family expiry (snd (rts_consume now k s))"
proof (cases "active s k")
  case None
  then show ?thesis
    using assms by (auto simp: remembers_def rts_defs Let_def retain_def split: option.splits)
next
  case (Some rt)
  then show ?thesis
    using assms by (auto simp: remembers_def rts_defs Let_def)
qed

lemma rts_step_remembers:
  "rts_step s e s' \<Longrightarrow> remembers tok family expiry s \<Longrightarrow> leaves_memory tok expiry e \<Longrightarrow>
   remembers tok family expiry s'"
proof (induction rule: rts_step.induct)
  case (step_consume now k s r s')
  then show ?case using rts_consume_remembers [of tok family expiry s k now] by simp
qed (auto simp: remembers_def rts_store_def rts_revoke_family_def retain_def)

lemma rts_trace_remembers:
  "rts_trace s es s' \<Longrightarrow> remembers tok family expiry s \<Longrightarrow> \<forall>e \<in> set es. leaves_memory tok expiry e \<Longrightarrow>
   remembers tok family expiry s'"
  by (induction rule: rts_trace.induct) (auto intro: rts_step_remembers)

lemma rts_consume_replay:
  assumes "remembers tok family expiry s" and "now < expiry"
  shows "fst (rts_consume now tok s) = Inr (Compromised family)"
  using assms by (auto simp: remembers_def rts_consume_def evict_expired_consumed_def Let_def retain_def)

text \<open>C4: replay detection. A refresh token redeemed once and presented again before its natural expiry
  is reported \<open>Compromised\<close> with its own family, after any other activity of the store in between that
  neither stores nor presents the token itself and redeems nothing at or past that expiry (a redemption
  then forgets the token); from then on the family is revoked, none of its tokens is live, and no redemption
  in any later history of the store reports \<open>Valid\<close> for a token of that family, even for one
  stored after the revocation.\<close>

theorem refresh_replay_kills_family:
  assumes first: "rts_consume now1 tok s = (Inr (Valid rt), s1)"
    and between: "rts_trace s1 es s2" "\<forall>e \<in> set es. leaves_memory tok (rt_expires_at rt) e"
    and replay: "now2 < rt_expires_at rt" "rts_consume now2 tok s2 = (res, s3)"
  shows "res = Inr (Compromised (rt_family_id rt))
     \<and> rt_family_id rt \<in> revoked_families s3
     \<and> (\<forall>k t. active s3 k = Some t \<longrightarrow> rt_family_id t \<noteq> rt_family_id rt)
     \<and> (\<forall>es' s4 now k t. rts_trace s3 es' s4 \<longrightarrow> Consumed now k (Valid t) \<in> set es' \<longrightarrow>
          rt_family_id t \<noteq> rt_family_id rt)"
proof -
  have "remembers tok (rt_family_id rt) (rt_expires_at rt) s1"
    using first by (auto simp: rts_consume_Valid remembers_def)
  then have "remembers tok (rt_family_id rt) (rt_expires_at rt) s2"
    using between rts_trace_remembers by blast
  then have "res = Inr (Compromised (rt_family_id rt))"
    using replay rts_consume_replay by fastforce
  then show ?thesis
    using replay rts_compromise [of now2 tok s2 "rt_family_id rt" s3] rts_trace_revoked_dead by blast
qed

definition demo_rt :: refresh_token where
  "demo_rt = \<lparr>rt_token = ''t1'', rt_family_id = ''f'', rt_client_id = ''app'', rt_subject = ''u1'',
              rt_scope = [''openid''], rt_issued_at = 0, rt_expires_at = 100\<rparr>"

definition demo_rts1 :: store_state where
  "demo_rts1 = snd (rts_consume 1 ''t1'' (snd (rts_store demo_rt rts_new)))"

definition demo_rts2 :: store_state where
  "demo_rts2 = snd (rts_store (demo_rt\<lparr>rt_token := ''t2''\<rparr>) demo_rts1)"

lemma demo_rts_first:
  "rts_consume 1 ''t1'' (snd (rts_store demo_rt rts_new)) = (Inr (Valid demo_rt), demo_rts1)"
  by (simp add: demo_rts1_def demo_rt_def rts_defs rts_new_def rt_is_expired_def Let_def)

lemma demo_rts_between: "rts_trace demo_rts1 [Stored (demo_rt\<lparr>rt_token := ''t2''\<rparr>)] demo_rts2"
  by (rule trace_cons [OF step_store trace_nil]) (simp add: demo_rts2_def rts_store_def)

theorem refresh_replay_kills_family_witness:
  "rts_consume 1 ''t1'' (snd (rts_store demo_rt rts_new)) = (Inr (Valid demo_rt), demo_rts1)
   \<and> fst (rts_consume 50 ''t1'' demo_rts2) = Inr (Compromised ''f'')
   \<and> ''f'' \<in> revoked_families (snd (rts_consume 50 ''t1'' demo_rts2))"
proof -
  have "\<forall>e \<in> set [Stored (demo_rt\<lparr>rt_token := ''t2''\<rparr>)]. leaves_memory ''t1'' (rt_expires_at demo_rt) e"
    and "(50 :: int) < rt_expires_at demo_rt" and "rt_family_id demo_rt = ''f''"
    by (simp_all add: demo_rt_def)
  then show ?thesis
    using demo_rts_first
      refresh_replay_kills_family [OF demo_rts_first demo_rts_between, of 50
        "fst (rts_consume 50 ''t1'' demo_rts2)" "snd (rts_consume 50 ''t1'' demo_rts2)"]
    by simp
qed

end
