(* ===== verification/OAuthClient.thy ===== *)
theory OAuthClient
  imports ErrorKernel Instants
begin

text \<open>
  Registered OAuth 2.0 clients (\<open>klauthed-security/src/oauth2_client\<close>): the client record with
  its three admission checks, and the in-memory client store.
\<close>

datatype client_type = Confidential | Public

datatype client_grant_type = CG_AuthorizationCode | CG_RefreshToken | CG_ClientCredentials

datatype token_endpoint_auth_method = ClientSecretBasic | ClientSecretPost | AuthNone

record oauth2_client =
  cl_client_id :: string
  cl_client_type :: client_type
  cl_client_secret_hash :: "string option"
  cl_redirect_uris :: "string list"
  cl_allowed_grant_types :: "client_grant_type set"
  cl_allowed_scopes :: "string set"
  cl_token_endpoint_auth_method :: token_endpoint_auth_method
  cl_client_name :: "string option"
  cl_created_at :: timestamp

definition allows_redirect_uri :: "oauth2_client \<Rightarrow> string \<Rightarrow> bool" where
  "allows_redirect_uri c uri = list_ex (\<lambda>u. u = uri) (cl_redirect_uris c)"

definition allows_grant :: "oauth2_client \<Rightarrow> client_grant_type \<Rightarrow> bool" where
  "allows_grant c g = (g \<in> cl_allowed_grant_types c)"

definition allows_scopes :: "oauth2_client \<Rightarrow> string list \<Rightarrow> bool" where
  "allows_scopes c requested = list_all (\<lambda>s. s \<in> cl_allowed_scopes c) requested"

lemma allows_redirect_uri_iff [simp]: "allows_redirect_uri c uri \<longleftrightarrow> uri \<in> set (cl_redirect_uris c)"
  by (auto simp: allows_redirect_uri_def list_ex_iff)

lemma allows_scopes_iff [simp]: "allows_scopes c sc \<longleftrightarrow> set sc \<subseteq> cl_allowed_scopes c"
  by (auto simp: allows_scopes_def list_all_iff)

section \<open>In-memory store\<close>

type_synonym client_store = "string \<rightharpoonup> oauth2_client"

definition clients_new :: client_store where
  "clients_new = Map.empty"

definition clients_get :: "string \<Rightarrow> client_store \<Rightarrow> (security_error + oauth2_client option) \<times> client_store" where
  "clients_get cid m = (Inr (m cid), m)"

definition clients_register :: "oauth2_client \<Rightarrow> client_store \<Rightarrow> (security_error + unit) \<times> client_store" where
  "clients_register c m = (Inr (), m(cl_client_id c \<mapsto> c))"

definition clients_delete :: "string \<Rightarrow> client_store \<Rightarrow> (security_error + unit) \<times> client_store" where
  "clients_delete cid m = (Inr (), m(cid := None))"

text \<open>Every client is stored under its own identifier.\<close>

definition clients_ok :: "client_store \<Rightarrow> bool" where
  "clients_ok m = (\<forall>k c. m k = Some c \<longrightarrow> cl_client_id c = k)"

lemma clients_ok_steps [simp]:
  "clients_ok clients_new"
  "clients_ok m \<Longrightarrow> clients_ok (snd (clients_get cid m))"
  "clients_ok m \<Longrightarrow> clients_ok (snd (clients_register c m))"
  "clients_ok m \<Longrightarrow> clients_ok (snd (clients_delete cid m))"
  by (simp_all add: clients_ok_def clients_new_def clients_get_def clients_register_def clients_delete_def)

end
