(* ===== verification/Expiring.thy ===== *)
theory Expiring
  imports Instants
begin

text \<open>
  The interface of a store whose entries expire: what the token denylist and the session store
  promise alike. \<open>put\<close> inserts or replaces an entry, \<open>look\<close> reads one at a clock reading (and
  may evict what has expired), \<open>drop\<close> removes one. The client lemmas hold for every sequence of
  operations: an entry is visible exactly until its expiry, and a dropped entry stays away until
  it is put again.
\<close>

datatype ('k, 'v) exp_op = EPut 'k 'v | ELook timestamp 'k | EDrop 'k

fun exp_run ::
  "('k \<Rightarrow> 'v \<Rightarrow> 's \<Rightarrow> 's) \<Rightarrow> (timestamp \<Rightarrow> 'k \<Rightarrow> 's \<Rightarrow> 'v option \<times> 's) \<Rightarrow> ('k \<Rightarrow> 's \<Rightarrow> 's) \<Rightarrow>
   ('k, 'v) exp_op list \<Rightarrow> 's \<Rightarrow> 's" where
  "exp_run put look drp [] s = s"
| "exp_run put look drp (EPut k v # ops) s = exp_run put look drp ops (put k v s)"
| "exp_run put look drp (ELook t k # ops) s = exp_run put look drp ops (snd (look t k s))"
| "exp_run put look drp (EDrop k # ops) s = exp_run put look drp ops (drp k s)"

text \<open>The operation does not put \<open>k\<close> again; it does not remove it either and reads the clock
  before \<open>e\<close>.\<close>

fun no_put :: "'k \<Rightarrow> ('k, 'v) exp_op \<Rightarrow> bool" where
  "no_put k (EPut j v) = (j \<noteq> k)"
| "no_put k (ELook t j) = True"
| "no_put k (EDrop j) = True"

fun spares :: "'k \<Rightarrow> timestamp \<Rightarrow> ('k, 'v) exp_op \<Rightarrow> bool" where
  "spares k e (EPut j v) = (j \<noteq> k)"
| "spares k e (ELook t j) = (t < e)"
| "spares k e (EDrop j) = (j \<noteq> k)"

lemma spares_no_put: "\<forall>p \<in> set ops. spares k e p \<Longrightarrow> \<forall>p \<in> set ops. no_put k p"
proof
  fix p assume "\<forall>p \<in> set ops. spares k e p" and "p \<in> set ops"
  then have "spares k e p" by blast
  then show "no_put k p" by (cases p) simp_all
qed

locale expiring_store =
  fixes put :: "'k \<Rightarrow> 'v \<Rightarrow> 's \<Rightarrow> 's"
    and look :: "timestamp \<Rightarrow> 'k \<Rightarrow> 's \<Rightarrow> 'v option \<times> 's"
    and drp :: "'k \<Rightarrow> 's \<Rightarrow> 's"
    and content :: "'s \<Rightarrow> 'k \<Rightarrow> 'v option"
    and expiry :: "'v \<Rightarrow> timestamp"
  assumes put_law: "content (put k v s) = (content s)(k \<mapsto> v)"
    and drop_law: "content (drp k s) = (content s)(k := None)"
    and look_result: "fst (look t k s) =
          (case content s k of None \<Rightarrow> None | Some v \<Rightarrow> if t < expiry v then Some v else None)"
    and look_shrinks: "content (snd (look t k s)) \<subseteq>\<^sub>m content s"
    and look_keeps: "content s j = Some v \<Longrightarrow> t < expiry v \<Longrightarrow> content (snd (look t k s)) j = Some v"
begin

lemma look_none: "content s j = None \<Longrightarrow> content (snd (look t k s)) j = None"
  using look_shrinks [of t k s] by (force simp: map_le_def dom_def)

lemma look_some: "content s j = Some v \<Longrightarrow> content (snd (look t k s)) j \<in> {None, Some v}"
  using look_shrinks [of t k s] by (force simp: map_le_def dom_def)

lemma run_spared:
  "content s k = Some v \<Longrightarrow> \<forall>p \<in> set ops. spares k (expiry v) p \<Longrightarrow>
   content (exp_run put look drp ops s) k = Some v"
proof (induction ops arbitrary: s)
  case (Cons p ops)
  then show ?case by (cases p) (auto simp: put_law drop_law look_keeps)
qed simp

lemma run_no_put:
  "content s k \<in> {None, Some v} \<Longrightarrow> \<forall>p \<in> set ops. no_put k p \<Longrightarrow>
   content (exp_run put look drp ops s) k \<in> {None, Some v}"
proof (induction ops arbitrary: s)
  case (Cons p ops)
  have "content (snd (look t j s)) k \<in> {None, Some v}" for t j
    using Cons.prems(1) look_none [of s k t j] look_some [of s k v t j] by auto
  then have look: "content (exp_run put look drp ops (snd (look t j s))) k \<in> {None, Some v}" for t j
    using Cons.IH Cons.prems(2) by simp
  show ?case
  proof (cases p)
    case (EPut j w)
    then show ?thesis using Cons.IH [of "put j w s"] Cons.prems by (auto simp: put_law)
  next
    case (ELook t j)
    then show ?thesis using look by simp
  next
    case (EDrop j)
    then show ?thesis using Cons.IH [of "drp j s"] Cons.prems by (auto simp: drop_law)
  qed
qed simp

lemma run_absent:
  "content s k = None \<Longrightarrow> \<forall>p \<in> set ops. no_put k p \<Longrightarrow> content (exp_run put look drp ops s) k = None"
proof (induction ops arbitrary: s)
  case (Cons p ops)
  then show ?case by (cases p) (auto simp: put_law drop_law look_none)
qed simp

lemma visible_until_expiry:
  assumes "\<forall>p \<in> set ops. spares k (expiry v) p" and "t < expiry v"
  shows "fst (look t k (exp_run put look drp ops (put k v s))) = Some v"
  using run_spared [of "put k v s" k v ops] assms by (simp add: look_result put_law)

lemma invisible_from_expiry:
  assumes "\<forall>p \<in> set ops. no_put k p" and "expiry v \<le> t"
  shows "fst (look t k (exp_run put look drp ops (put k v s))) = None"
  using run_no_put [of "put k v s" k v ops] assms by (auto simp: look_result put_law)

lemma dropped_stays_away:
  assumes "\<forall>p \<in> set ops. no_put k p"
  shows "fst (look t k (exp_run put look drp ops (drp k s))) = None"
  using run_absent [of "drp k s" k ops] assms by (simp add: look_result drop_law)

end

end
