(* ===== verification/Denylist.thy ===== *)
theory Denylist
  imports ErrorKernel Expiring
begin

text \<open>
  The in-memory token denylist (\<open>klauthed-security/src/revocation\<close>): revoked \<open>jti\<close>s with the
  instant their entry expires. An instance of the expiring store.
\<close>

type_synonym denylist = "string \<rightharpoonup> timestamp"

definition denylist_new :: denylist where
  "denylist_new = Map.empty"

definition denylist_revoke :: "string \<Rightarrow> timestamp \<Rightarrow> denylist \<Rightarrow> (security_error + unit) \<times> denylist" where
  "denylist_revoke jti expires_at m = (Inr (), m(jti \<mapsto> expires_at))"

definition denylist_is_revoked :: "timestamp \<Rightarrow> string \<Rightarrow> denylist \<Rightarrow> (security_error + bool) \<times> denylist" where
  "denylist_is_revoked now jti m =
     (case m jti of
        Some expires_at \<Rightarrow>
          if expires_at \<le> now then (Inr False, m(jti := None)) else (Inr True, m)
      | None \<Rightarrow> (Inr False, m))"

text \<open>The denylist through the expiring-store interface; it has no operation that removes an
  entry, so \<open>drop\<close> is used by no history.\<close>

definition denylist_put :: "string \<Rightarrow> timestamp \<Rightarrow> denylist \<Rightarrow> denylist" where
  "denylist_put jti e m = snd (denylist_revoke jti e m)"

definition denylist_look :: "timestamp \<Rightarrow> string \<Rightarrow> denylist \<Rightarrow> timestamp option \<times> denylist" where
  "denylist_look now jti m =
     (case denylist_is_revoked now jti m of
        (r, m') \<Rightarrow> (if r = Inr True then m jti else None, m'))"

definition denylist_drop :: "string \<Rightarrow> denylist \<Rightarrow> denylist" where
  "denylist_drop jti m = m(jti := None)"

lemma denylist_look_iff:
  "fst (denylist_look t k m) \<noteq> None \<longleftrightarrow> fst (denylist_is_revoked t k m) = Inr True"
  by (auto simp: denylist_look_def denylist_is_revoked_def split: option.splits if_splits)

lemma denylist_no_error: "\<exists>b. fst (denylist_is_revoked t k m) = Inr b"
  by (auto simp: denylist_is_revoked_def split: option.splits)

interpretation denylist: expiring_store denylist_put denylist_look denylist_drop "\<lambda>m. m" "\<lambda>e. e"
  by unfold_locales
    (auto simp: denylist_put_def denylist_revoke_def denylist_drop_def denylist_look_def
      denylist_is_revoked_def map_le_def split: option.splits if_splits)

lemma is_revoked_after:
  assumes "\<forall>p \<in> set ops. spares jti e p" and "t < e"
  shows "fst (denylist_is_revoked t jti
           (exp_run denylist_put denylist_look denylist_drop ops (denylist_put jti e m))) = Inr True"
  using denylist.visible_until_expiry [OF assms, of m] by (simp add: denylist_look_iff [symmetric])

lemma not_revoked_after_expiry:
  assumes "\<forall>p \<in> set ops. no_put jti p" and "e \<le> t"
  shows "fst (denylist_is_revoked t jti
           (exp_run denylist_put denylist_look denylist_drop ops (denylist_put jti e m))) = Inr False"
proof -
  let ?m = "exp_run denylist_put denylist_look denylist_drop ops (denylist_put jti e m)"
  have "fst (denylist_look t jti ?m) = None"
    by (rule denylist.invisible_from_expiry [OF assms])
  then have "fst (denylist_is_revoked t jti ?m) \<noteq> Inr True"
    using denylist_look_iff [of t jti ?m] by auto
  then show ?thesis
    using denylist_no_error [of t jti ?m] by (metis (full_types))
qed

text \<open>A revoked \<open>jti\<close> stays revoked. After \<open>revoke(jti, e)\<close> and any further activity that
  does not revoke the same \<open>jti\<close> again, the denylist answers "revoked" at every instant before
  \<open>e\<close>, as long as no reading of the clock in between has reached \<open>e\<close>, and "not revoked" from \<open>e\<close> on.\<close>

theorem denylist_holds_until_expiry:
  assumes "\<forall>p \<in> set ops. spares jti e p"
  shows "fst (denylist_is_revoked t jti
           (exp_run denylist_put denylist_look denylist_drop ops (denylist_put jti e m))) = Inr (t < e)"
proof (cases "t < e")
  case True
  then show ?thesis using is_revoked_after [OF assms] by simp
next
  case False
  with not_revoked_after_expiry [OF spares_no_put [OF assms]] show ?thesis by simp
qed

theorem denylist_holds_until_expiry_witness:
  "fst (denylist_is_revoked 9 ''j1''
     (exp_run denylist_put denylist_look denylist_drop [EPut ''j2'' 3, ELook 5 ''j2'', ELook 6 ''j1'']
       (denylist_put ''j1'' 10 Map.empty))) = Inr True"
  using denylist_holds_until_expiry [of "[EPut ''j2'' 3, ELook 5 ''j2'', ELook 6 ''j1'']" "''j1''" 10 9 Map.empty]
  by simp

end
