(* ===== verification/Http.thy ===== *)
theory Http
  imports ErrorKernel
begin

text \<open>
  The HTTP error layer (\<open>klauthed-web/src/error\<close>): \<open>AppError\<close>, its constructors, the
  conversions from the domain errors and the response it renders. JSON values are
  \<open>serde_json::Value\<close>; a body is kept as the value the handler serializes, so the type of a
  response is parametric in the bodies of the endpoint.
\<close>

section \<open>JSON values\<close>

datatype json =
    JNull | JBool bool | JInt int | JFloat string | JString string | JArray "json list" | JObject "(string \<times> json) list"

text \<open>\<open>Value::as_str\<close>.\<close>

definition json_as_str :: "json \<Rightarrow> string option" where
  "json_as_str v = (case v of JString s \<Rightarrow> Some s | _ \<Rightarrow> None)"

section \<open>Application errors\<close>

record app_error =
  ae_category :: error_category
  ae_code :: string
  ae_message :: string

fun default_code :: "error_category \<Rightarrow> string" where
  "default_code BadRequest = ''request.bad_request''"
| "default_code Unauthorized = ''request.unauthorized''"
| "default_code Forbidden = ''request.forbidden''"
| "default_code NotFound = ''request.not_found''"
| "default_code UnprocessableEntity = ''request.unprocessable_entity''"
| "default_code Conflict = ''request.conflict''"
| "default_code RateLimited = ''request.rate_limited''"
| "default_code Timeout = ''request.timeout''"
| "default_code Unavailable = ''request.unavailable''"
| "default_code Internal = ''request.internal''"

definition app_error_new :: "error_category \<Rightarrow> string \<Rightarrow> app_error" where
  "app_error_new category message =
     \<lparr>ae_category = category, ae_code = default_code category, ae_message = message\<rparr>"

definition with_code :: "string \<Rightarrow> app_error \<Rightarrow> app_error" where
  "with_code code e = e\<lparr>ae_code := code\<rparr>"

text \<open>\<open>from_domain\<close>: the classification of the error and its display text.\<close>

definition from_domain :: "error_category \<times> string \<Rightarrow> string \<Rightarrow> app_error" where
  "from_domain classification display =
     \<lparr>ae_category = fst classification, ae_code = snd classification, ae_message = display\<rparr>"

definition bad_request :: "string \<Rightarrow> app_error" where
  "bad_request = app_error_new BadRequest"

definition unauthorized :: "string \<Rightarrow> app_error" where
  "unauthorized = app_error_new Unauthorized"

definition forbidden :: "string \<Rightarrow> app_error" where
  "forbidden = app_error_new Forbidden"

definition not_found :: "string \<Rightarrow> app_error" where
  "not_found = app_error_new NotFound"

definition unprocessable_entity :: "string \<Rightarrow> app_error" where
  "unprocessable_entity = app_error_new UnprocessableEntity"

definition conflict :: "string \<Rightarrow> app_error" where
  "conflict = app_error_new Conflict"

definition too_many_requests :: "string \<Rightarrow> app_error" where
  "too_many_requests = app_error_new RateLimited"

definition internal :: "string \<Rightarrow> app_error" where
  "internal = app_error_new Internal"

lemmas app_error_defs = app_error_new_def bad_request_def unauthorized_def forbidden_def not_found_def
  unprocessable_entity_def conflict_def too_many_requests_def internal_def

section \<open>Responses\<close>

text \<open>A response: its status, its \<open>Location\<close> header and its body; \<open>ErrorBody\<close> carries the
  code, the category and the message of \<open>ErrorDetail\<close>.\<close>

datatype 'b http_body = NoBody | ErrorBody string string string | Body 'b

record 'b http_response =
  resp_status :: nat
  resp_location :: "string option"
  resp_body :: "'b http_body"

definition json_response :: "nat \<Rightarrow> 'b \<Rightarrow> 'b http_response" where
  "json_response status b = \<lparr>resp_status = status, resp_location = None, resp_body = Body b\<rparr>"

definition finish_response :: "nat \<Rightarrow> 'b http_response" where
  "finish_response status = \<lparr>resp_status = status, resp_location = None, resp_body = NoBody\<rparr>"

definition status_code :: "app_error \<Rightarrow> nat" where
  "status_code e = http_status (ae_category e)"

definition error_response :: "app_error \<Rightarrow> 'b http_response" where
  "error_response e =
     (let category = ae_category e;
          client_facing = is_client_error category;
          message = (if client_facing then ae_message e else ''internal server error'')
      in \<lparr>resp_status = status_code e, resp_location = None,
          resp_body = ErrorBody (ae_code e) (category_as_str category) message\<rparr>)"

lemma error_response_status [simp]: "resp_status (error_response e) = http_status (ae_category e)"
  by (simp add: error_response_def status_code_def Let_def)

lemma error_response_location [simp]: "resp_location (error_response e) = None"
  by (simp add: error_response_def Let_def)

lemma error_response_body_not_Body [simp]: "resp_body (error_response e) \<noteq> Body b"
  by (simp add: error_response_def Let_def)

lemma status_ge_400: "400 \<le> http_status c"
  by (cases c) simp_all

lemma http_status_not_ok [simp]: "http_status c \<noteq> 200" "http_status c \<noteq> 204" "http_status c \<noteq> 302"
  using status_ge_400 [of c] by simp_all

lemma json_response_simps [simp]:
  "resp_status (json_response st b) = st" "resp_location (json_response st b) = None"
  "resp_body (json_response st b) = Body b"
  by (simp_all add: json_response_def)

lemma json_response_inject [simp]:
  "json_response st b = json_response st' b' \<longleftrightarrow> st = st' \<and> b = b'"
  by (simp add: json_response_def)

text \<open>No server-side detail reaches the client. For a fault (a category that is not a caller
  error) the rendered response is the same whatever the error's message; for a caller error the
  message is passed on; and in both cases the status is the category's, never a success.\<close>

theorem error_response_no_leak:
  "(\<not> is_client_error (ae_category e) \<longrightarrow>
      error_response (e\<lparr>ae_message := m\<rparr>) = error_response e)
   \<and> (is_client_error (ae_category e) \<longrightarrow>
      resp_body (error_response e) = ErrorBody (ae_code e) (category_as_str (ae_category e)) (ae_message e))
   \<and> resp_status (error_response e) = http_status (ae_category e)
   \<and> 400 \<le> resp_status (error_response e)"
  using status_ge_400 [of "ae_category e"] by (simp add: error_response_def status_code_def Let_def)

theorem error_response_no_leak_witness:
  "error_response (internal ''db password wrong'') = error_response (internal ''x'')
   \<and> resp_body (error_response (forbidden ''no'')) = ErrorBody ''request.forbidden'' ''forbidden'' ''no''"
  using error_response_no_leak [of "internal ''x''" "''db password wrong''"]
    error_response_no_leak [of "forbidden ''no''" "''''"]
  by (simp add: app_error_defs is_client_error_def)

end
