(* ===== verification/Jwt.thy ===== *)
theory Jwt
  imports Tokens Http
begin

text \<open>
  JWT claims and their builder (\<open>klauthed-security/src/jwt\<close>). Signing and verification are the
  \<open>jsonwebtoken\<close> crate's: a signer is the function from claims to the crate's result, a verifier
  the crate's \<open>decode\<close> applied to its key and validation options at the instant of the call; what
  the sources add is the translation of the crate's errors.
\<close>

record claims =
  c_sub :: "string option"
  c_iss :: "string option"
  c_aud :: "string option"
  c_exp :: "int option"
  c_iat :: "int option"
  c_nbf :: "int option"
  c_jti :: "string option"
  c_custom :: "string \<rightharpoonup> json"

text \<open>\<open>i64::checked_add\<close>.\<close>

definition i64_checked_add :: "int \<Rightarrow> int \<Rightarrow> int option" where
  "i64_checked_add a b =
     (if - (2 ^ 63) \<le> a + b \<and> a + b < 2 ^ 63 then Some (a + b) else None)"

definition claims_builder :: "string \<Rightarrow> timestamp \<Rightarrow> duration \<Rightarrow> claims" where
  "claims_builder subject clock_now ttl =
     (let now = unix_seconds clock_now
      in \<lparr>c_sub = Some subject, c_iss = None, c_aud = None,
          c_exp = i64_checked_add now (whole_seconds ttl),
          c_iat = Some now, c_nbf = Some now, c_jti = None, c_custom = Map.empty\<rparr>)"

definition cb_issuer :: "string \<Rightarrow> claims \<Rightarrow> claims" where
  "cb_issuer iss c = c\<lparr>c_iss := Some iss\<rparr>"

definition cb_audience :: "string \<Rightarrow> claims \<Rightarrow> claims" where
  "cb_audience aud c = c\<lparr>c_aud := Some aud\<rparr>"

definition cb_jwt_id :: "string \<Rightarrow> claims \<Rightarrow> claims" where
  "cb_jwt_id jti c = c\<lparr>c_jti := Some jti\<rparr>"

definition cb_random_jwt_id :: "crypto \<Rightarrow> claims \<Rightarrow> nat \<Rightarrow> (security_error + claims) \<times> nat" where
  "cb_random_jwt_id C c i =
     (case random_token C 16 i of
        (Inl e, i') \<Rightarrow> (Inl e, i')
      | (Inr jti, i') \<Rightarrow> (Inr (c\<lparr>c_jti := Some jti\<rparr>), i'))"

definition cb_claim :: "string \<Rightarrow> json \<Rightarrow> claims \<Rightarrow> claims" where
  "cb_claim k v c = c\<lparr>c_custom := (c_custom c)(k \<mapsto> v)\<rparr>"

lemmas cb_defs = claims_builder_def cb_issuer_def cb_audience_def cb_jwt_id_def cb_claim_def

section \<open>Signer and verifier\<close>

datatype jwt_error_kind =
    ExpiredSignature | InvalidSignature | InvalidIssuer | InvalidAudience | InvalidSubject
  | ImmatureSignature | OtherJwtError

type_synonym jwt_signer = "claims \<Rightarrow> string + string"
type_synonym jwt_verifier = "timestamp \<Rightarrow> string \<Rightarrow> (jwt_error_kind \<times> string) + claims"

definition signer_encode :: "jwt_signer \<Rightarrow> claims \<Rightarrow> security_error + string" where
  "signer_encode enc c = (case enc c of Inl msg \<Rightarrow> Inl (SE_Encode msg) | Inr tok \<Rightarrow> Inr tok)"

fun map_jwt_error :: "jwt_error_kind \<times> string \<Rightarrow> security_error" where
  "map_jwt_error (ExpiredSignature, msg) = SE_ExpiredToken"
| "map_jwt_error (InvalidSignature, msg) = SE_InvalidToken msg"
| "map_jwt_error (InvalidIssuer, msg) = SE_InvalidToken msg"
| "map_jwt_error (InvalidAudience, msg) = SE_InvalidToken msg"
| "map_jwt_error (InvalidSubject, msg) = SE_InvalidToken msg"
| "map_jwt_error (ImmatureSignature, msg) = SE_InvalidToken msg"
| "map_jwt_error (OtherJwtError, msg) = SE_MalformedToken msg"

definition verifier_decode :: "jwt_verifier \<Rightarrow> timestamp \<Rightarrow> string \<Rightarrow> security_error + claims" where
  "verifier_decode dec now token =
     (case dec now token of Inl e \<Rightarrow> Inl (map_jwt_error e) | Inr c \<Rightarrow> Inr c)"

text \<open>A rejected token is the caller's error, never a 5xx.\<close>

lemma map_jwt_error_client: "is_client_error (fst (security_error_classify (map_jwt_error e)))"
  by (cases e rule: map_jwt_error.cases) (simp_all add: is_client_error_def)

end
