(* ===== verification/OAuthMessages.thy ===== *)
theory OAuthMessages
  imports Http
begin

text \<open>
  The OAuth 2.0 wire types (\<open>klauthed-protocol/src/oauth2\<close>, \<open>src/oidc/metadata.rs\<close>): the
  requests and responses of the authorization, token, revocation and introspection endpoints, the
  value enumerations, and the space-delimited scope list.
\<close>

datatype response_type =
    RT_Code | RT_IdToken | RT_IdTokenToken | RT_CodeIdToken | RT_CodeToken | RT_CodeIdTokenToken | RT_None

datatype grant_type =
    GT_AuthorizationCode | GT_Implicit | GT_RefreshToken | GT_ClientCredentials | GT_Password
  | GT_DeviceCode | GT_JwtBearer | GT_TokenExchange

datatype code_challenge_method = CCM_Plain | CCM_S256

datatype known_token_type = Bearer | DPoP

datatype token_type = KnownType known_token_type | OtherType string

definition token_type_default :: token_type where
  "token_type_default = KnownType Bearer"

datatype token_type_hint = HintAccessToken | HintRefreshToken

record authorization_request =
  ar_response_type :: response_type
  ar_client_id :: string
  ar_redirect_uri :: "string option"
  ar_scope :: "string option"
  ar_state :: "string option"
  ar_nonce :: "string option"
  ar_code_challenge :: "string option"
  ar_code_challenge_method :: "code_challenge_method option"
  ar_response_mode :: "string option"
  ar_prompt :: "string option"
  ar_max_age :: "int option"
  ar_acr_values :: "string option"
  ar_login_hint :: "string option"
  ar_ui_locales :: "string option"

record token_request =
  tr_grant_type :: grant_type
  tr_code :: "string option"
  tr_redirect_uri :: "string option"
  tr_client_id :: "string option"
  tr_client_secret :: "string option"
  tr_refresh_token :: "string option"
  tr_code_verifier :: "string option"
  tr_scope :: "string option"
  tr_username :: "string option"
  tr_password :: "string option"

record token_response =
  ts_access_token :: string
  ts_token_type :: token_type
  ts_expires_in :: "int option"
  ts_refresh_token :: "string option"
  ts_id_token :: "string option"
  ts_scope :: "string option"

datatype oauth2_error_code =
    InvalidRequest | InvalidClient | InvalidGrant | UnauthorizedClient | UnsupportedGrantType
  | InvalidScope | AccessDenied | UnsupportedResponseType | ServerError | TemporarilyUnavailable

text \<open>The wire string of an error code (\<open>rename_all = "snake_case"\<close>).\<close>

fun oauth2_error_code_str :: "oauth2_error_code \<Rightarrow> string" where
  "oauth2_error_code_str InvalidRequest = ''invalid_request''"
| "oauth2_error_code_str InvalidClient = ''invalid_client''"
| "oauth2_error_code_str InvalidGrant = ''invalid_grant''"
| "oauth2_error_code_str UnauthorizedClient = ''unauthorized_client''"
| "oauth2_error_code_str UnsupportedGrantType = ''unsupported_grant_type''"
| "oauth2_error_code_str InvalidScope = ''invalid_scope''"
| "oauth2_error_code_str AccessDenied = ''access_denied''"
| "oauth2_error_code_str UnsupportedResponseType = ''unsupported_response_type''"
| "oauth2_error_code_str ServerError = ''server_error''"
| "oauth2_error_code_str TemporarilyUnavailable = ''temporarily_unavailable''"

record token_error_response =
  te_error :: oauth2_error_code
  te_error_description :: "string option"
  te_error_uri :: "string option"

definition token_error_new :: "oauth2_error_code \<Rightarrow> token_error_response" where
  "token_error_new e = \<lparr>te_error = e, te_error_description = None, te_error_uri = None\<rparr>"

definition token_error_with_description :: "oauth2_error_code \<Rightarrow> string \<Rightarrow> token_error_response" where
  "token_error_with_description e d = \<lparr>te_error = e, te_error_description = Some d, te_error_uri = None\<rparr>"

record revocation_request =
  rr_token :: string
  rr_token_type_hint :: "token_type_hint option"
  rr_client_id :: "string option"
  rr_client_secret :: "string option"

record introspection_request =
  ir_token :: string
  ir_token_type_hint :: "token_type_hint option"
  ir_client_id :: "string option"
  ir_client_secret :: "string option"

record introspection_response =
  is_active :: bool
  is_scope :: "string option"
  is_client_id :: "string option"
  is_sub :: "string option"
  is_token_type :: "token_type option"
  is_exp :: "int option"
  is_iat :: "int option"
  is_iss :: "string option"
  is_jti :: "string option"

definition introspection_inactive :: introspection_response where
  "introspection_inactive =
     \<lparr>is_active = False, is_scope = None, is_client_id = None, is_sub = None, is_token_type = None,
      is_exp = None, is_iat = None, is_iss = None, is_jti = None\<rparr>"

section \<open>Scope strings\<close>

definition scope_to_string :: "string list \<Rightarrow> string" where
  "scope_to_string scopes =
     foldl (\<lambda>out s. (if out \<noteq> [] then out @ '' '' else out) @ s) [] scopes"

definition scope_from_str :: "string \<Rightarrow> string list" where
  "scope_from_str scope = filter (\<lambda>s. s \<noteq> []) (str_split (CHR '' '') scope)"

lemma scope_from_str_append: "scope_from_str (a @ '' '' @ b) = scope_from_str a @ scope_from_str b"
  using split_by_append [of "\<lambda>c. c = CHR '' ''" "CHR '' ''" a b]
  by (simp add: scope_from_str_def str_split_def)

lemma scope_from_str_token:
  "CHR '' '' \<notin> set s \<Longrightarrow> scope_from_str s = filter (\<lambda>s. s \<noteq> []) [s]"
proof -
  assume "CHR '' '' \<notin> set s"
  then have "split_by (\<lambda>c. c = CHR '' '') s = [s]"
    by (intro split_by_no_sep) auto
  then show ?thesis by (simp add: scope_from_str_def str_split_def)
qed

lemma scope_from_str_Nil [simp]: "scope_from_str [] = []"
  by (simp add: scope_from_str_def str_split_def)

lemma scope_from_str_fold:
  "\<forall>s \<in> set xs. CHR '' '' \<notin> set s \<Longrightarrow>
   scope_from_str (foldl (\<lambda>out s. (if out \<noteq> [] then out @ '' '' else out) @ s) out xs)
   = scope_from_str out @ filter (\<lambda>s. s \<noteq> []) xs"
proof (induction xs arbitrary: out)
  case (Cons x xs)
  have "scope_from_str ((if out \<noteq> [] then out @ '' '' else out) @ x)
        = scope_from_str out @ filter (\<lambda>s. s \<noteq> []) [x]"
    using Cons.prems scope_from_str_token [of x] scope_from_str_append [of out x] by auto
  with Cons show ?case by simp
qed simp

lemma scope_from_str_no_space: "s \<in> set (scope_from_str sc) \<Longrightarrow> CHR '' '' \<notin> set s \<and> s \<noteq> []"
  by (auto simp: scope_from_str_def str_split_def dest: split_by_pieces)

text \<open>The scope wire form round-trips. A list of scope tokens (no spaces in a token) survives
  \<open>scope_to_string\<close> followed by \<open>scope_from_str\<close> with its order and its duplicates, the empty
  tokens dropped; and any wire string, whatever its spacing, is parsed to the same tokens again
  after it is printed.\<close>

theorem scope_roundtrip:
  "((\<forall>s \<in> set xs. CHR '' '' \<notin> set s) \<longrightarrow>
      scope_from_str (scope_to_string xs) = filter (\<lambda>s. s \<noteq> []) xs)
   \<and> scope_from_str (scope_to_string (scope_from_str w)) = scope_from_str w"
proof (intro conjI impI)
  assume "\<forall>s \<in> set xs. CHR '' '' \<notin> set s"
  then show "scope_from_str (scope_to_string xs) = filter (\<lambda>s. s \<noteq> []) xs"
    using scope_from_str_fold [of xs "[]"] by (simp add: scope_to_string_def)
next
  have "\<forall>s \<in> set (scope_from_str w). CHR '' '' \<notin> set s"
    and "filter (\<lambda>s. s \<noteq> []) (scope_from_str w) = scope_from_str w"
    using scope_from_str_no_space by (auto simp: filter_id_conv)
  then show "scope_from_str (scope_to_string (scope_from_str w)) = scope_from_str w"
    using scope_from_str_fold [of "scope_from_str w" "[]"] by (simp add: scope_to_string_def)
qed

theorem scope_roundtrip_witness:
  "scope_from_str (scope_to_string [''openid'', '''', ''email'']) = [''openid'', ''email'']"
  using scope_roundtrip [of "[''openid'', '''', ''email'']" "''''"] by simp

end
