(* ===== verification/OAuthServer.thy ===== *)
theory OAuthServer
  imports AuthCode RefreshToken OAuthClient Denylist Jwt OAuthMessages
begin

text \<open>
  The OAuth 2.0 authorization server (\<open>klauthed-web/src/oauth\<close>): the configuration with its
  \<open>Arc<dyn ...>\<close> stores, the \<open>/oauth/authorize\<close>, \<open>/oauth/token\<close>, \<open>/oauth/revoke\<close> and
  \<open>/oauth/introspect\<close> handlers, and the redirect helpers.

  A trait object is the record of its methods over a store state \<open>'s\<close>, so the backend-failure
  branches of the handlers are there; a method that reads the store's clock takes the reading as
  its first argument. The \<open>world\<close> threads the store state, the number of random draws and the
  number of clock readings made so far.
\<close>

section \<open>Configuration and world\<close>

record env =
  env_crypto :: crypto
  env_range :: time_range
  env_clock :: "nat \<Rightarrow> timestamp"

record 's world =
  w_store :: 's
  w_draws :: nat
  w_ticks :: nat

record 's refresh_ops =
  ro_store :: "refresh_token \<Rightarrow> 's \<Rightarrow> (security_error + unit) \<times> 's"
  ro_consume :: "timestamp \<Rightarrow> string \<Rightarrow> 's \<Rightarrow> (security_error + consume_result) \<times> 's"
  ro_revoke_family :: "string \<Rightarrow> 's \<Rightarrow> (security_error + unit) \<times> 's"

record 's denylist_ops =
  do_revoke :: "string \<Rightarrow> timestamp \<Rightarrow> 's \<Rightarrow> (security_error + unit) \<times> 's"
  do_is_revoked :: "timestamp \<Rightarrow> string \<Rightarrow> 's \<Rightarrow> (security_error + bool) \<times> 's"

record 's oauth_config =
  cfg_client_get :: "string \<Rightarrow> 's \<Rightarrow> (security_error + oauth2_client option) \<times> 's"
  cfg_code_store :: "auth_code \<Rightarrow> 's \<Rightarrow> (security_error + unit) \<times> 's"
  cfg_code_consume :: "timestamp \<Rightarrow> string \<Rightarrow> 's \<Rightarrow> (security_error + auth_code option) \<times> 's"
  cfg_refresh_token_store :: "'s refresh_ops option"
  cfg_signer :: jwt_signer
  cfg_verifier :: "jwt_verifier option"
  cfg_token_denylist :: "'s denylist_ops option"
  cfg_issuer :: string
  cfg_access_token_ttl :: duration
  cfg_code_ttl :: duration
  cfg_refresh_token_ttl :: duration

text \<open>Calling a method of a store, without and with a reading of the store's clock, and reading
  the configuration's clock.\<close>

definition on_store :: "('s \<Rightarrow> 'r \<times> 's) \<Rightarrow> 's world \<Rightarrow> 'r \<times> 's world" where
  "on_store f w = (case f (w_store w) of (r, s) \<Rightarrow> (r, w\<lparr>w_store := s\<rparr>))"

definition on_store_clocked :: "env \<Rightarrow> (timestamp \<Rightarrow> 's \<Rightarrow> 'r \<times> 's) \<Rightarrow> 's world \<Rightarrow> 'r \<times> 's world" where
  "on_store_clocked E f w =
     (case f (env_clock E (w_ticks w)) (w_store w) of
        (r, s) \<Rightarrow> (r, w\<lparr>w_store := s, w_ticks := Suc (w_ticks w)\<rparr>))"

definition clock_now :: "env \<Rightarrow> 's world \<Rightarrow> timestamp \<times> 's world" where
  "clock_now E w = (env_clock E (w_ticks w), w\<lparr>w_ticks := Suc (w_ticks w)\<rparr>)"

definition on_draws :: "(nat \<Rightarrow> 'r \<times> nat) \<Rightarrow> 's world \<Rightarrow> 'r \<times> 's world" where
  "on_draws f w = (case f (w_draws w) of (r, i) \<Rightarrow> (r, w\<lparr>w_draws := i\<rparr>))"

section \<open>Redirects and errors\<close>

datatype oauth_body =
    TokenBody token_response | TokenErrorBody token_error_response | IntrospectionBody introspection_response

type_synonym oauth_http = "oauth_body http_response"

text \<open>\<open>{b:02X}\<close>.\<close>

definition hex_digit :: "nat \<Rightarrow> char" where
  "hex_digit n = (if n < 10 then char_of (48 + n) else char_of (55 + n))"

definition is_unreserved :: "char \<Rightarrow> bool" where
  "is_unreserved c =
     (let b = (of_char c :: nat)
      in 48 \<le> b \<and> b \<le> 57 \<or> 65 \<le> b \<and> b \<le> 90 \<or> 97 \<le> b \<and> b \<le> 122 \<or> b = 45 \<or> b = 95 \<or> b = 46 \<or> b = 126)"

fun percent_encode :: "string \<Rightarrow> string" where
  "percent_encode [] = []"
| "percent_encode (c # cs) =
     (if is_unreserved c then [c]
      else [CHR ''%'', hex_digit (of_char c div 16), hex_digit (of_char c mod 16)]) @ percent_encode cs"

definition redirect_url :: "string \<Rightarrow> (string \<times> string) list \<Rightarrow> string" where
  "redirect_url base params =
     base @ concat (map (\<lambda>(i, k, v). (if i = 0 then ''?'' else ''&'') @ k @ ''='' @ percent_encode v)
                        (List.enumerate 0 params))"

definition redirect :: "string \<Rightarrow> oauth_http" where
  "redirect location = \<lparr>resp_status = 302, resp_location = Some location, resp_body = NoBody\<rparr>"

definition state_params :: "string option \<Rightarrow> (string \<times> string) list" where
  "state_params st = (case st of None \<Rightarrow> [] | Some s \<Rightarrow> [(''state'', s)])"

definition error_redirect :: "string \<Rightarrow> oauth2_error_code \<Rightarrow> string \<Rightarrow> string option \<Rightarrow> oauth_http" where
  "error_redirect uri e description st =
     redirect (redirect_url uri
       ([(''error'', oauth2_error_code_str e), (''error_description'', description)] @ state_params st))"

definition token_error :: "oauth2_error_code \<Rightarrow> string \<Rightarrow> oauth_http" where
  "token_error code description = json_response 400 (TokenErrorBody (token_error_with_description code description))"

section \<open>Shared helpers of the token endpoint\<close>

definition authenticate_client ::
  "env \<Rightarrow> 's oauth_config \<Rightarrow> string \<Rightarrow> string option \<Rightarrow> 's world \<Rightarrow> (oauth_http + oauth2_client) \<times> 's world" where
  "authenticate_client E cfg client_id client_secret w =
     (case on_store (cfg_client_get cfg client_id) w of
        (Inr None, w1) \<Rightarrow> (Inl (token_error InvalidClient ''unknown client_id''), w1)
      | (Inl e, w1) \<Rightarrow> (Inl (error_response (internal ''client store unavailable'')), w1)
      | (Inr (Some client), w1) \<Rightarrow>
          (case cl_client_secret_hash client of
             None \<Rightarrow> (Inr client, w1)
           | Some secret_hash \<Rightarrow>
               (case client_secret of
                  None \<Rightarrow> (Inl (token_error InvalidClient ''client_secret is required for confidential clients''), w1)
                | Some submitted \<Rightarrow>
                    (case verify_password (env_crypto E) submitted secret_hash of
                       Inr True \<Rightarrow> (Inr client, w1)
                     | Inr False \<Rightarrow> (Inl (token_error InvalidClient ''invalid client_secret''), w1)
                     | Inl e \<Rightarrow> (Inl (error_response (internal ''could not verify client credentials'')), w1)))))"

definition mint_access_token ::
  "env \<Rightarrow> 's oauth_config \<Rightarrow> string \<Rightarrow> string \<Rightarrow> string \<Rightarrow> 's world \<Rightarrow> (oauth_http + string) \<times> 's world" where
  "mint_access_token E cfg subject scope client_id w =
     (case clock_now E w of (now, w1) \<Rightarrow>
        (let builder = cb_claim ''client_id'' (JString client_id) (cb_claim ''scope'' (JString scope)
                         (cb_issuer (cfg_issuer cfg) (claims_builder subject now (cfg_access_token_ttl cfg))))
         in case on_draws (cb_random_jwt_id (env_crypto E) builder) w1 of
              (Inl e, w2) \<Rightarrow> (Inl (error_response (internal ''could not generate access token'')), w2)
            | (Inr claims, w2) \<Rightarrow>
                (case signer_encode (cfg_signer cfg) claims of
                   Inl e \<Rightarrow> (Inl (error_response (internal ''could not sign access token'')), w2)
                 | Inr t \<Rightarrow> (Inr t, w2))))"

definition has_openid_scope :: "string list \<Rightarrow> bool" where
  "has_openid_scope scope = list_ex (\<lambda>s. s = ''openid'') scope"

definition mint_id_token ::
  "env \<Rightarrow> 's oauth_config \<Rightarrow> string \<Rightarrow> string \<Rightarrow> string option \<Rightarrow> 's world \<Rightarrow> (oauth_http + string) \<times> 's world" where
  "mint_id_token E cfg subject client_id nonce w =
     (case clock_now E w of (now, w1) \<Rightarrow>
        (let builder = cb_audience client_id
                         (cb_issuer (cfg_issuer cfg) (claims_builder subject now (cfg_access_token_ttl cfg)));
             builder = (case nonce of None \<Rightarrow> builder | Some n \<Rightarrow> cb_claim ''nonce'' (JString n) builder)
         in case signer_encode (cfg_signer cfg) builder of
              Inl e \<Rightarrow> (Inl (error_response (internal ''could not sign id token'')), w1)
            | Inr t \<Rightarrow> (Inr t, w1)))"

definition issue_refresh_token ::
  "env \<Rightarrow> 's oauth_config \<Rightarrow> string \<Rightarrow> string \<Rightarrow> string list \<Rightarrow> string option \<Rightarrow> 's world
   \<Rightarrow> string option \<times> 's world" where
  "issue_refresh_token E cfg client_id subject scope family_id w =
     (case cfg_refresh_token_store cfg of
        None \<Rightarrow> (None, w)
      | Some store \<Rightarrow>
          (let builder = rtb_set_scope scope (rtb_new client_id subject);
               builder = (case family_id of None \<Rightarrow> builder | Some fid \<Rightarrow> rtb_set_family_id fid builder)
           in case clock_now E w of (now, w1) \<Rightarrow>
              (case on_draws (rtb_build (env_crypto E) (env_range E) now (cfg_refresh_token_ttl cfg) builder) w1 of
                 (Inl e, w2) \<Rightarrow> (None, w2)
               | (Inr rt, w2) \<Rightarrow>
                   (case on_store (ro_store store rt) w2 of
                      (Inl e, w3) \<Rightarrow> (None, w3)
                    | (Inr _, w3) \<Rightarrow> (Some (rt_token rt), w3)))))"

text \<open>The last three steps of both exchanges: the access token, the refresh token, the ID token
  when \<open>openid\<close> was granted, and the response. The code exchange passes no family and the nonce of
  the code; the refresh exchange passes the family of the consumed token and no nonce.\<close>

definition grant_tokens ::
  "env \<Rightarrow> 's oauth_config \<Rightarrow> string \<Rightarrow> string \<Rightarrow> string list \<Rightarrow> string option \<Rightarrow> string option \<Rightarrow> 's world
   \<Rightarrow> oauth_http \<times> 's world" where
  "grant_tokens E cfg client_id subject scope family_id nonce w =
     (let scope_str = str_join '' '' scope
      in case mint_access_token E cfg subject scope_str client_id w of
           (Inl resp, w1) \<Rightarrow> (resp, w1)
         | (Inr access_token, w1) \<Rightarrow>
             (case issue_refresh_token E cfg client_id subject scope family_id w1 of
                (refresh_token_value, w2) \<Rightarrow>
                  (case (if has_openid_scope scope
                         then (case mint_id_token E cfg subject client_id nonce w2 of
                                 (Inl resp, w3) \<Rightarrow> (Inl resp, w3)
                               | (Inr t, w3) \<Rightarrow> (Inr (Some t), w3))
                         else (Inr None, w2)) of
                     (Inl resp, w3) \<Rightarrow> (resp, w3)
                   | (Inr id_token, w3) \<Rightarrow>
                       (json_response 200 (TokenBody
                          \<lparr>ts_access_token = access_token, ts_token_type = token_type_default,
                           ts_expires_in = Some (whole_seconds (cfg_access_token_ttl cfg)),
                           ts_refresh_token = refresh_token_value, ts_id_token = id_token,
                           ts_scope = (if scope_str = [] then None else Some scope_str)\<rparr>), w3))))"

section \<open>Token endpoint\<close>

text \<open>Steps 4 to 6 of the code exchange: the bindings of the consumed code, in the order they are
  checked; \<open>None\<close> when all hold.\<close>

definition check_code_binding :: "crypto \<Rightarrow> token_request \<Rightarrow> string \<Rightarrow> auth_code \<Rightarrow> oauth_http option" where
  "check_code_binding C req client_id c =
     (if ac_client_id c \<noteq> client_id
      then Some (token_error InvalidGrant ''authorization code was issued to a different client'')
      else if (case ac_redirect_uri c of None \<Rightarrow> False | Some stored_uri \<Rightarrow> tr_redirect_uri req \<noteq> Some stored_uri)
      then Some (token_error InvalidGrant ''redirect_uri does not match the one used in the authorization request'')
      else (case (ac_pkce_challenge c, ac_pkce_method c) of
              (Some challenge, Some m) \<Rightarrow>
                (case tr_code_verifier req of
                   None \<Rightarrow> Some (token_error InvalidRequest ''code_verifier is required for PKCE'')
                 | Some verifier \<Rightarrow>
                     if \<not> verify_pkce C verifier challenge m
                     then Some (token_error InvalidGrant ''PKCE code_verifier does not match code_challenge'')
                     else None)
            | _ \<Rightarrow> None))"

definition exchange_authorization_code ::
  "env \<Rightarrow> 's oauth_config \<Rightarrow> token_request \<Rightarrow> 's world \<Rightarrow> oauth_http \<times> 's world" where
  "exchange_authorization_code E cfg req w =
     (case tr_code req of
        None \<Rightarrow> (token_error InvalidRequest ''code is required'', w)
      | Some code_str \<Rightarrow>
     (case tr_client_id req of
        None \<Rightarrow> (token_error InvalidRequest ''client_id is required'', w)
      | Some client_id \<Rightarrow>
     (case authenticate_client E cfg client_id (tr_client_secret req) w of
        (Inl resp, w1) \<Rightarrow> (resp, w1)
      | (Inr _, w1) \<Rightarrow>
     (case on_store_clocked E (\<lambda>now. cfg_code_consume cfg now code_str) w1 of
        (Inl e, w2) \<Rightarrow> (error_response (internal ''could not retrieve authorization code''), w2)
      | (Inr None, w2) \<Rightarrow> (token_error InvalidGrant ''authorization code is invalid, expired, or already used'', w2)
      | (Inr (Some c), w2) \<Rightarrow>
     (case check_code_binding (env_crypto E) req client_id c of
        Some resp \<Rightarrow> (resp, w2)
      | None \<Rightarrow> grant_tokens E cfg client_id (ac_subject c) (ac_scope c) None (ac_nonce c) w2)))))"

text \<open>Step 6 of the refresh exchange: the request may narrow the scope of the consumed token.\<close>

definition narrow_scope :: "token_request \<Rightarrow> refresh_token \<Rightarrow> string list option" where
  "narrow_scope req rt =
     (case tr_scope req of
        Some requested_scope \<Rightarrow>
          (let requested = split_whitespace requested_scope
           in if list_all (\<lambda>s. s \<in> set (rt_scope rt)) requested then Some requested else None)
      | None \<Rightarrow> Some (rt_scope rt))"

definition exchange_refresh_token ::
  "env \<Rightarrow> 's oauth_config \<Rightarrow> token_request \<Rightarrow> 's world \<Rightarrow> oauth_http \<times> 's world" where
  "exchange_refresh_token E cfg req w =
     (case tr_refresh_token req of
        None \<Rightarrow> (token_error InvalidRequest ''refresh_token is required'', w)
      | Some token_str \<Rightarrow>
     (case cfg_refresh_token_store cfg of
        None \<Rightarrow> (token_error UnsupportedGrantType ''refresh_token grant is not configured'', w)
      | Some rt_store \<Rightarrow>
     (case tr_client_id req of
        None \<Rightarrow> (token_error InvalidRequest ''client_id is required'', w)
      | Some client_id \<Rightarrow>
     (case authenticate_client E cfg client_id (tr_client_secret req) w of
        (Inl resp, w1) \<Rightarrow> (resp, w1)
      | (Inr client, w1) \<Rightarrow>
     (if \<not> allows_grant client CG_RefreshToken
      then (token_error UnauthorizedClient ''client is not authorized for refresh_token grant'', w1)
      else
     (case on_store_clocked E (\<lambda>now. ro_consume rt_store now token_str) w1 of
        (Inl e, w2) \<Rightarrow> (error_response (internal ''could not retrieve refresh token''), w2)
      | (Inr (Expired _), w2) \<Rightarrow> (token_error InvalidGrant ''refresh token has expired'', w2)
      | (Inr (Compromised _), w2) \<Rightarrow>
          (token_error InvalidGrant ''refresh token reuse detected; all tokens in this session have been revoked'', w2)
      | (Inr CR_NotFound, w2) \<Rightarrow> (token_error InvalidGrant ''refresh token is invalid or already used'', w2)
      | (Inr (Valid rt), w2) \<Rightarrow>
     (if rt_client_id rt \<noteq> client_id
      then (token_error InvalidGrant ''refresh token was issued to a different client'', w2)
      else
     (case narrow_scope req rt of
        None \<Rightarrow> (token_error InvalidScope ''requested scope exceeds the scope of the original refresh token'', w2)
      | Some scope \<Rightarrow> grant_tokens E cfg client_id (rt_subject rt) scope (Some (rt_family_id rt)) None w2))))))))"

definition token_endpoint :: "env \<Rightarrow> 's oauth_config \<Rightarrow> token_request \<Rightarrow> 's world \<Rightarrow> oauth_http \<times> 's world" where
  "token_endpoint E cfg req w =
     (case tr_grant_type req of
        GT_AuthorizationCode \<Rightarrow> exchange_authorization_code E cfg req w
      | GT_RefreshToken \<Rightarrow> exchange_refresh_token E cfg req w
      | _ \<Rightarrow> (token_error UnsupportedGrantType
                ''only authorization_code and refresh_token grant types are supported'', w))"

section \<open>Authorization endpoint\<close>

definition resolve_redirect_uri :: "oauth2_client \<Rightarrow> string option \<Rightarrow> oauth_http + string" where
  "resolve_redirect_uri client req_uri =
     (case req_uri of
        Some uri \<Rightarrow>
          if \<not> allows_redirect_uri client uri
          then Inl (token_error InvalidRequest ''redirect_uri is not registered for this client'')
          else Inr uri
      | None \<Rightarrow>
          (case cl_redirect_uris client of
             [only] \<Rightarrow> Inr only
           | _ \<Rightarrow> Inl (token_error InvalidRequest ''redirect_uri is required when more than one is registered'')))"

definition requested_scopes :: "authorization_request \<Rightarrow> string list" where
  "requested_scopes req = (case ar_scope req of None \<Rightarrow> [] | Some s \<Rightarrow> split_whitespace s)"

fun pkce_method_of :: "code_challenge_method \<Rightarrow> pkce_method" where
  "pkce_method_of CCM_S256 = S256"
| "pkce_method_of CCM_Plain = Plain"

definition code_request :: "authorization_request \<Rightarrow> string \<Rightarrow> string \<Rightarrow> auth_code_builder" where
  "code_request req subject redirect_uri =
     (let builder = acb_set_scope (requested_scopes req)
                      (acb_set_redirect_uri redirect_uri (acb_new (ar_client_id req) subject));
          builder = (case ar_nonce req of None \<Rightarrow> builder | Some n \<Rightarrow> acb_set_nonce n builder)
      in case (ar_code_challenge req, ar_code_challenge_method req) of
           (Some challenge, Some m) \<Rightarrow> acb_pkce challenge (pkce_method_of m) builder
         | _ \<Rightarrow> builder)"

text \<open>Steps 1 to 6: an error response, or the redirect URI and the code that was stored.\<close>

definition authorize_code ::
  "env \<Rightarrow> 's oauth_config \<Rightarrow> authorization_request \<Rightarrow> claims \<Rightarrow> 's world
   \<Rightarrow> (oauth_http + string \<times> auth_code) \<times> 's world" where
  "authorize_code E cfg req user w =
     (case on_store (cfg_client_get cfg (ar_client_id req)) w of
        (Inr None, w1) \<Rightarrow>
          (Inl (json_response 400 (TokenErrorBody (token_error_with_description InvalidClient ''unknown client_id''))), w1)
      | (Inl e, w1) \<Rightarrow> (Inl (error_response (internal ''client store unavailable'')), w1)
      | (Inr (Some client), w1) \<Rightarrow>
     (case resolve_redirect_uri client (ar_redirect_uri req) of
        Inl resp \<Rightarrow> (Inl resp, w1)
      | Inr uri \<Rightarrow>
     (if ar_response_type req \<noteq> RT_Code
      then (Inl (error_redirect uri UnsupportedResponseType ''only response_type=code is supported'' (ar_state req)), w1)
      else if \<not> allows_grant client CG_AuthorizationCode
      then (Inl (error_redirect uri UnauthorizedClient ''client is not authorized for authorization_code grant'' (ar_state req)), w1)
      else if \<not> allows_scopes client (requested_scopes req)
      then (Inl (error_redirect uri InvalidScope ''one or more requested scopes are not allowed for this client'' (ar_state req)), w1)
      else
     (let subject = (case c_sub user of None \<Rightarrow> [] | Some s \<Rightarrow> s);
          builder = code_request req subject uri
      in case clock_now E w1 of (now, w2) \<Rightarrow>
     (case on_draws (acb_build (env_crypto E) (env_range E) now (cfg_code_ttl cfg) builder) w2 of
        (Inl e, w3) \<Rightarrow> (Inl (error_redirect uri ServerError ''could not generate authorization code'' (ar_state req)), w3)
      | (Inr code, w3) \<Rightarrow>
     (case on_store (cfg_code_store cfg code) w3 of
        (Inl e, w4) \<Rightarrow> (Inl (error_redirect uri ServerError ''could not store authorization code'' (ar_state req)), w4)
      | (Inr _, w4) \<Rightarrow> (Inr (uri, code), w4)))))))"

definition authorize ::
  "env \<Rightarrow> 's oauth_config \<Rightarrow> authorization_request \<Rightarrow> claims \<Rightarrow> 's world \<Rightarrow> oauth_http \<times> 's world" where
  "authorize E cfg req user w =
     (case authorize_code E cfg req user w of
        (Inl resp, w1) \<Rightarrow> (resp, w1)
      | (Inr (uri, code), w1) \<Rightarrow>
          (redirect (redirect_url uri ([(''code'', ac_code code)] @ state_params (ar_state req))), w1))"

section \<open>Revocation and introspection\<close>

definition revoke_token ::
  "env \<Rightarrow> 's oauth_config \<Rightarrow> string \<Rightarrow> token_type_hint option \<Rightarrow> 's world \<Rightarrow> 's world" where
  "revoke_token E cfg token hint w =
     (let access = (\<lambda>w.
            if hint = Some HintRefreshToken then w
            else (case (cfg_verifier cfg, cfg_token_denylist cfg) of
                    (Some verifier, Some denylist) \<Rightarrow>
                      (case clock_now E w of (now, w1) \<Rightarrow>
                        (case verifier_decode verifier now token of
                           Inl e \<Rightarrow> w1
                         | Inr claims \<Rightarrow>
                             (case (c_jti claims, c_exp claims) of
                                (Some jti, Some exp) \<Rightarrow>
                                  snd (on_store (do_revoke denylist jti (from_unix_seconds (env_range E) exp)) w1)
                              | _ \<Rightarrow> w1)))
                  | _ \<Rightarrow> w))
      in if hint = Some HintAccessToken then access w
         else (case cfg_refresh_token_store cfg of
                 None \<Rightarrow> access w
               | Some store \<Rightarrow>
                   (case on_store_clocked E (\<lambda>now. ro_consume store now token) w of
                      (Inr (Valid rt), w1) \<Rightarrow> snd (on_store (ro_revoke_family store (rt_family_id rt)) w1)
                    | (Inr (Expired rt), w1) \<Rightarrow> snd (on_store (ro_revoke_family store (rt_family_id rt)) w1)
                    | (_, w1) \<Rightarrow> access w1)))"

definition revoke :: "env \<Rightarrow> 's oauth_config \<Rightarrow> revocation_request \<Rightarrow> 's world \<Rightarrow> oauth_http \<times> 's world" where
  "revoke E cfg req w =
     (case rr_client_id req of
        None \<Rightarrow> (token_error InvalidRequest ''client_id is required'', w)
      | Some client_id \<Rightarrow>
          (case authenticate_client E cfg client_id (rr_client_secret req) w of
             (Inl resp, w1) \<Rightarrow> (resp, w1)
           | (Inr _, w1) \<Rightarrow> (finish_response 200, revoke_token E cfg (rr_token req) (rr_token_type_hint req) w1)))"

definition introspect_token ::
  "env \<Rightarrow> 's oauth_config \<Rightarrow> string \<Rightarrow> 's world \<Rightarrow> introspection_response \<times> 's world" where
  "introspect_token E cfg token w =
     (case cfg_verifier cfg of
        None \<Rightarrow> (introspection_inactive, w)
      | Some verifier \<Rightarrow>
          (case clock_now E w of (now, w1) \<Rightarrow>
            (case verifier_decode verifier now token of
               Inl e \<Rightarrow> (introspection_inactive, w1)
             | Inr claims \<Rightarrow>
                 (case (case (cfg_token_denylist cfg, c_jti claims) of
                          (Some denylist, Some jti) \<Rightarrow>
                            (case on_store_clocked E (\<lambda>now. do_is_revoked denylist now jti) w1 of
                               (Inr b, w2) \<Rightarrow> (b, w2)
                             | (Inl e, w2) \<Rightarrow> (False, w2))
                        | _ \<Rightarrow> (False, w1)) of
                    (True, w2) \<Rightarrow> (introspection_inactive, w2)
                  | (False, w2) \<Rightarrow>
                      (\<lparr>is_active = True,
                        is_scope = Option.bind (c_custom claims ''scope'') json_as_str,
                        is_client_id = Option.bind (c_custom claims ''client_id'') json_as_str,
                        is_sub = c_sub claims, is_token_type = Some token_type_default,
                        is_exp = c_exp claims, is_iat = c_iat claims, is_iss = c_iss claims,
                        is_jti = c_jti claims\<rparr>, w2)))))"

definition introspect :: "env \<Rightarrow> 's oauth_config \<Rightarrow> introspection_request \<Rightarrow> 's world \<Rightarrow> oauth_http \<times> 's world" where
  "introspect E cfg req w =
     (case ir_client_id req of
        None \<Rightarrow> (token_error InvalidRequest ''client_id is required'', w)
      | Some client_id \<Rightarrow>
          (case authenticate_client E cfg client_id (ir_client_secret req) w of
             (Inl resp, w1) \<Rightarrow> (resp, w1)
           | (Inr _, w1) \<Rightarrow>
               (case introspect_token E cfg (ir_token req) w1 of
                  (r, w2) \<Rightarrow> (json_response 200 (IntrospectionBody r), w2))))"

section \<open>Configuration builder\<close>

text \<open>\<open>build\<close> panics (\<open>None\<close>) when a required part is missing and fills in the default
  lifetimes of one hour, five minutes and thirty days.\<close>

record 's oauth_config_builder =
  ob_client_store :: "(string \<Rightarrow> 's \<Rightarrow> (security_error + oauth2_client option) \<times> 's) option"
  ob_code_store :: "((auth_code \<Rightarrow> 's \<Rightarrow> (security_error + unit) \<times> 's)
      \<times> (timestamp \<Rightarrow> string \<Rightarrow> 's \<Rightarrow> (security_error + auth_code option) \<times> 's)) option"
  ob_refresh_token_store :: "'s refresh_ops option"
  ob_signer :: "jwt_signer option"
  ob_verifier :: "jwt_verifier option"
  ob_token_denylist :: "'s denylist_ops option"
  ob_issuer :: "string option"
  ob_access_token_ttl :: "duration option"
  ob_code_ttl :: "duration option"
  ob_refresh_token_ttl :: "duration option"

definition or_default :: "'a \<Rightarrow> 'a option \<Rightarrow> 'a" where
  "or_default d v = (case v of None \<Rightarrow> d | Some x \<Rightarrow> x)"

definition oauth_config_build :: "'s oauth_config_builder \<Rightarrow> 's oauth_config option" where
  "oauth_config_build b =
     (case (ob_client_store b, ob_code_store b, ob_signer b, ob_issuer b) of
        (Some get, Some (put, consume), Some signer, Some issuer) \<Rightarrow>
          Some \<lparr>cfg_client_get = get, cfg_code_store = put, cfg_code_consume = consume,
                cfg_refresh_token_store = ob_refresh_token_store b, cfg_signer = signer,
                cfg_verifier = ob_verifier b, cfg_token_denylist = ob_token_denylist b,
                cfg_issuer = issuer,
                cfg_access_token_ttl = or_default (seconds 3600) (ob_access_token_ttl b),
                cfg_code_ttl = or_default (seconds 300) (ob_code_ttl b),
                cfg_refresh_token_ttl = or_default (seconds 2592000) (ob_refresh_token_ttl b)\<rparr>
      | _ \<Rightarrow> None)"

section \<open>The server on the in-memory stores\<close>

record mem =
  m_clients :: client_store
  m_codes :: auth_code_store
  m_refresh :: store_state
  m_denylist :: denylist

definition mem_refresh_ops :: "mem refresh_ops" where
  "mem_refresh_ops =
     \<lparr>ro_store = (\<lambda>t s. case rts_store t (m_refresh s) of (r, x) \<Rightarrow> (r, s\<lparr>m_refresh := x\<rparr>)),
      ro_consume = (\<lambda>now k s. case rts_consume now k (m_refresh s) of (r, x) \<Rightarrow> (r, s\<lparr>m_refresh := x\<rparr>)),
      ro_revoke_family = (\<lambda>f s. case rts_revoke_family f (m_refresh s) of (r, x) \<Rightarrow> (r, s\<lparr>m_refresh := x\<rparr>))\<rparr>"

definition mem_denylist_ops :: "mem denylist_ops" where
  "mem_denylist_ops =
     \<lparr>do_revoke = (\<lambda>jti e s. case denylist_revoke jti e (m_denylist s) of (r, x) \<Rightarrow> (r, s\<lparr>m_denylist := x\<rparr>)),
      do_is_revoked = (\<lambda>now jti s.
         case denylist_is_revoked now jti (m_denylist s) of (r, x) \<Rightarrow> (r, s\<lparr>m_denylist := x\<rparr>))\<rparr>"

definition mem_builder :: "jwt_signer \<Rightarrow> jwt_verifier option \<Rightarrow> string \<Rightarrow> mem oauth_config_builder" where
  "mem_builder signer verifier issuer =
     \<lparr>ob_client_store = Some (\<lambda>cid s. case clients_get cid (m_clients s) of (r, x) \<Rightarrow> (r, s\<lparr>m_clients := x\<rparr>)),
      ob_code_store =
        Some (\<lambda>c s. case acs_store c (m_codes s) of (r, x) \<Rightarrow> (r, s\<lparr>m_codes := x\<rparr>),
              \<lambda>now k s. case acs_consume now k (m_codes s) of (r, x) \<Rightarrow> (r, s\<lparr>m_codes := x\<rparr>)),
      ob_refresh_token_store = Some mem_refresh_ops, ob_signer = Some signer, ob_verifier = verifier,
      ob_token_denylist = Some mem_denylist_ops, ob_issuer = Some issuer,
      ob_access_token_ttl = None, ob_code_ttl = None, ob_refresh_token_ttl = None\<rparr>"

definition mem_config :: "jwt_signer \<Rightarrow> jwt_verifier option \<Rightarrow> string \<Rightarrow> mem oauth_config" where
  "mem_config signer verifier issuer = the (oauth_config_build (mem_builder signer verifier issuer))"

text \<open>The requests the mounted routes serve, one at a time, and a sequence of them.\<close>

datatype server_request =
    ReqAuthorize authorization_request claims
  | ReqToken token_request
  | ReqRevoke revocation_request
  | ReqIntrospect introspection_request

fun serve :: "env \<Rightarrow> 's oauth_config \<Rightarrow> server_request \<Rightarrow> 's world \<Rightarrow> oauth_http \<times> 's world" where
  "serve E cfg (ReqAuthorize req user) w = authorize E cfg req user w"
| "serve E cfg (ReqToken req) w = token_endpoint E cfg req w"
| "serve E cfg (ReqRevoke req) w = revoke E cfg req w"
| "serve E cfg (ReqIntrospect req) w = introspect E cfg req w"

fun serve_all :: "env \<Rightarrow> 's oauth_config \<Rightarrow> server_request list \<Rightarrow> 's world \<Rightarrow> 's world" where
  "serve_all E cfg [] w = w"
| "serve_all E cfg (r # rs) w = serve_all E cfg rs (snd (serve E cfg r w))"

end
