(* ===== verification/OAuthSafety.thy ===== *)
theory OAuthSafety
  imports OAuthServer
begin

text \<open>
  Safety of the authorization server on every backend: what a successful answer of each endpoint
  implies about the stores' answers, whatever the stores are.
\<close>

section \<open>Answers of the helpers\<close>

lemma token_error_simps [simp]:
  "resp_status (token_error c d) = 400" "resp_location (token_error c d) = None"
  by (simp_all add: token_error_def)

lemma redirect_simps [simp]: "resp_status (redirect l) = 302" "resp_location (redirect l) = Some l"
  by (simp_all add: redirect_def)

lemma error_redirect_status [simp]: "resp_status (error_redirect u e d s) = 302"
  by (simp add: error_redirect_def)

lemma on_storeE:
  assumes "on_store f w = (r, w')"
  obtains s where "f (w_store w) = (r, s)" "w' = w\<lparr>w_store := s\<rparr>"
  using assms by (auto simp: on_store_def split: prod.splits)

lemma on_store_clockedE:
  assumes "on_store_clocked E f w = (r, w')"
  obtains s where "f (env_clock E (w_ticks w)) (w_store w) = (r, s)"
    "w' = w\<lparr>w_store := s, w_ticks := Suc (w_ticks w)\<rparr>"
  using assms by (auto simp: on_store_clocked_def split: prod.splits)

lemma on_draws_store: "on_draws f w = (r, w') \<Longrightarrow> w_store w' = w_store w \<and> w_ticks w' = w_ticks w"
  by (auto simp: on_draws_def split: prod.splits)

lemma clock_now_store: "clock_now E w = (t, w') \<Longrightarrow> w_store w' = w_store w"
  by (auto simp: clock_now_def)

text \<open>A client is authenticated when the store knows it and, if it has a secret, the submitted
  one verifies.\<close>

definition client_authenticated :: "crypto \<Rightarrow> oauth2_client \<Rightarrow> string option \<Rightarrow> bool" where
  "client_authenticated C client secret =
     (case cl_client_secret_hash client of
        None \<Rightarrow> True
      | Some h \<Rightarrow> (case secret of None \<Rightarrow> False | Some s \<Rightarrow> verify_password C s h = Inr True))"

lemma authenticate_client_ok:
  assumes "authenticate_client E cfg cid secret w = (Inr client, w1)"
  shows "cfg_client_get cfg cid (w_store w) = (Inr (Some client), w_store w1)
         \<and> client_authenticated (env_crypto E) client secret \<and> w_ticks w1 = w_ticks w"
  using assms
  by (auto simp: authenticate_client_def client_authenticated_def on_store_def
      split: prod.splits sum.splits option.splits bool.splits)

lemma authenticate_client_err:
  assumes "authenticate_client E cfg cid secret w = (Inl resp, w1)"
  shows "resp_status resp \<noteq> 200 \<and> resp_location resp = None"
  using assms
  by (auto simp: authenticate_client_def split: prod.splits sum.splits option.splits bool.splits)

lemma authenticate_client_store:
  assumes "authenticate_client E cfg cid secret w = (r, w1)"
  shows "w_store w1 = snd (cfg_client_get cfg cid (w_store w))"
  using assms
  by (auto simp: authenticate_client_def on_store_def
      split: prod.splits sum.splits option.splits bool.splits)

lemma mint_access_token_err:
  "mint_access_token E cfg sub sc cid w = (Inl resp, w') \<Longrightarrow> resp_status resp \<noteq> 200 \<and> resp_location resp = None"
  by (auto simp: mint_access_token_def Let_def split: prod.splits sum.splits)

lemma mint_access_token_store:
  "mint_access_token E cfg sub sc cid w = (r, w') \<Longrightarrow> w_store w' = w_store w"
  by (auto simp: mint_access_token_def Let_def clock_now_def on_draws_def split: prod.splits sum.splits)

lemma mint_id_token_err:
  "mint_id_token E cfg sub cid n w = (Inl resp, w') \<Longrightarrow> resp_status resp \<noteq> 200 \<and> resp_location resp = None"
  by (auto simp: mint_id_token_def Let_def split: prod.splits sum.splits)

lemma mint_id_token_store: "mint_id_token E cfg sub cid n w = (r, w') \<Longrightarrow> w_store w' = w_store w"
  by (auto simp: mint_id_token_def Let_def clock_now_def split: prod.splits sum.splits)

definition scope_member :: "string list \<Rightarrow> string option" where
  "scope_member scope = (if str_join '' '' scope = [] then None else Some (str_join '' '' scope))"

lemma grant_tokens_ok:
  assumes "grant_tokens E cfg cid sub scope fam nonce w = (resp, w')" and "resp_status resp = 200"
  shows "\<exists>tr. resp = json_response 200 (TokenBody tr) \<and> ts_scope tr = scope_member scope
           \<and> (ts_id_token tr \<noteq> None \<longleftrightarrow> ''openid'' \<in> set scope)"
  using assms
  by (auto simp: grant_tokens_def Let_def scope_member_def has_openid_scope_def list_ex_iff
      dest: mint_access_token_err mint_id_token_err split: prod.splits sum.splits if_splits)

lemma grant_tokens_location:
  "grant_tokens E cfg cid sub scope fam nonce w = (resp, w') \<Longrightarrow> resp_location resp = None"
  by (auto simp: grant_tokens_def Let_def
      dest: mint_access_token_err mint_id_token_err split: prod.splits sum.splits if_splits)

text \<open>The store after \<open>grant_tokens\<close>: as before, or after one \<open>store\<close> of a refresh token
  for this client, subject, scope and family.\<close>

definition refresh_issued ::
  "'s oauth_config \<Rightarrow> string \<Rightarrow> string \<Rightarrow> string list \<Rightarrow> string option \<Rightarrow> 's \<Rightarrow> 's \<Rightarrow> bool" where
  "refresh_issued cfg cid sub scope fam s s' =
     (s' = s \<or>
      (\<exists>ro rt. cfg_refresh_token_store cfg = Some ro \<and> s' = snd (ro_store ro rt s)
         \<and> rt_client_id rt = cid \<and> rt_scope rt = scope \<and> rt_subject rt = sub
         \<and> (\<forall>f. fam = Some f \<longrightarrow> rt_family_id rt = f)))"

lemma refresh_issued_refl [simp]: "refresh_issued cfg cid sub scope fam s s"
  by (simp add: refresh_issued_def)

lemma issue_refresh_token_store:
  assumes "issue_refresh_token E cfg cid sub scope fam w = (r, w')"
  shows "refresh_issued cfg cid sub scope fam (w_store w) (w_store w')"
proof (cases "cfg_refresh_token_store cfg")
  case None
  with assms show ?thesis by (simp add: issue_refresh_token_def)
next
  case (Some ro)
  let ?b = "(case fam of None \<Rightarrow> rtb_set_scope scope (rtb_new cid sub)
             | Some fid \<Rightarrow> rtb_set_family_id fid (rtb_set_scope scope (rtb_new cid sub)))"
  have b: "rtb_client_id ?b = cid" "rtb_subject ?b = sub" "rtb_scope ?b = scope" "rtb_family_id ?b = fam"
    by (auto simp: rtb_defs split: option.splits)
  obtain res i where bld: "rtb_build (env_crypto E) (env_range E) (env_clock E (w_ticks w))
      (cfg_refresh_token_ttl cfg) ?b (w_draws w) = (res, i)" by fastforce
  show ?thesis
  proof (cases res)
    case (Inl e)
    with assms Some bld show ?thesis
      by (auto simp: issue_refresh_token_def Let_def clock_now_def on_draws_def)
  next
    case (Inr rt)
    have "w_store w' = snd (ro_store ro rt (w_store w))"
      using assms Some bld Inr
      by (auto simp: issue_refresh_token_def Let_def clock_now_def on_draws_def on_store_def
          split: prod.splits sum.splits)
    with Some rtb_build_ok [OF bld [unfolded Inr]] b show ?thesis
      by (auto simp: refresh_issued_def)
  qed
qed

lemma grant_tokens_store:
  assumes "grant_tokens E cfg cid sub scope fam nonce w = (resp, w')"
  shows "refresh_issued cfg cid sub scope fam (w_store w) (w_store w')"
proof (cases "mint_access_token E cfg sub (str_join '' '' scope) cid w")
  case (Pair r w1)
  then have w1: "w_store w1 = w_store w" by (rule mint_access_token_store)
  obtain rv w2 where rt: "issue_refresh_token E cfg cid sub scope fam w1 = (rv, w2)" by fastforce
  have "w_store w' = w_store w \<or> w_store w' = w_store w2"
    using assms Pair rt w1
    by (auto simp: grant_tokens_def Let_def dest: mint_id_token_store split: prod.splits sum.splits if_splits)
  with issue_refresh_token_store [OF rt] w1 show ?thesis by auto
qed

section \<open>What a successful exchange implies\<close>

lemma check_code_binding_ok:
  assumes "crypto_ok C" and "check_code_binding C req cid c = None"
  shows "ac_client_id c = cid
     \<and> (\<forall>u. ac_redirect_uri c = Some u \<longrightarrow> tr_redirect_uri req = Some u)
     \<and> (\<forall>ch m. ac_pkce_challenge c = Some ch \<longrightarrow> ac_pkce_method c = Some m \<longrightarrow>
          (\<exists>v. tr_code_verifier req = Some v \<and>
               (case m of Plain \<Rightarrow> v = ch | S256 \<Rightarrow> base64url C (sha256 C (as_bytes v)) = ch)))"
  using assms(2)
  by (auto simp: check_code_binding_def verify_pkce_iff [OF assms(1)] split: if_splits option.splits)

lemma check_code_binding_err:
  "check_code_binding C req cid c = Some resp \<Longrightarrow> resp_status resp \<noteq> 200 \<and> resp_location resp = None"
  by (auto simp: check_code_binding_def split: if_splits option.splits)

text \<open>The three ways an exchange ends: before it reaches the store, with the store's answer
  refused, or with tokens granted.\<close>

lemma exchange_code_cases:
  assumes "exchange_authorization_code E cfg req w = (resp, w')"
  obtains (early) "resp_status resp \<noteq> 200" "w' = w"
    | (refused) cid where "authenticate_client E cfg cid (tr_client_secret req) w = (Inl resp, w')"
    | (consumed) code cid client w1 r where
        "authenticate_client E cfg cid (tr_client_secret req) w = (Inr client, w1)"
        "on_store_clocked E (\<lambda>now. cfg_code_consume cfg now code) w1 = (r, w')" "resp_status resp \<noteq> 200"
    | (granted) code cid client w1 c w2 where
        "tr_code req = Some code" "tr_client_id req = Some cid"
        "authenticate_client E cfg cid (tr_client_secret req) w = (Inr client, w1)"
        "on_store_clocked E (\<lambda>now. cfg_code_consume cfg now code) w1 = (Inr (Some c), w2)"
        "check_code_binding (env_crypto E) req cid c = None"
        "grant_tokens E cfg cid (ac_subject c) (ac_scope c) None (ac_nonce c) w2 = (resp, w')"
  using assms
  by (auto simp: exchange_authorization_code_def dest: check_code_binding_err
      split: option.splits prod.splits sum.splits)

lemma exchange_refresh_cases:
  assumes "exchange_refresh_token E cfg req w = (resp, w')"
  obtains (early) "resp_status resp \<noteq> 200" "w' = w"
    | (refused) cid where "authenticate_client E cfg cid (tr_client_secret req) w = (Inl resp, w')"
    | (denied) cid client where "authenticate_client E cfg cid (tr_client_secret req) w = (Inr client, w')"
        "resp_status resp \<noteq> 200"
    | (consumed) tok ro cid client w1 r where "cfg_refresh_token_store cfg = Some ro"
        "authenticate_client E cfg cid (tr_client_secret req) w = (Inr client, w1)"
        "on_store_clocked E (\<lambda>now. ro_consume ro now tok) w1 = (r, w')" "resp_status resp \<noteq> 200"
    | (granted) tok ro cid client w1 rt w2 scope where
        "tr_refresh_token req = Some tok" "cfg_refresh_token_store cfg = Some ro" "tr_client_id req = Some cid"
        "authenticate_client E cfg cid (tr_client_secret req) w = (Inr client, w1)"
        "allows_grant client CG_RefreshToken"
        "on_store_clocked E (\<lambda>now. ro_consume ro now tok) w1 = (Inr (Valid rt), w2)"
        "rt_client_id rt = cid" "narrow_scope req rt = Some scope"
        "grant_tokens E cfg cid (rt_subject rt) scope (Some (rt_family_id rt)) None w2 = (resp, w')"
  using assms
  by (auto simp: exchange_refresh_token_def
      split: option.splits prod.splits sum.splits if_splits consume_result.splits)

lemma exchange_code_ok:
  assumes "exchange_authorization_code E cfg req w = (resp, w')" and "resp_status resp = 200"
  obtains code cid client w1 c w2 where
    "tr_code req = Some code" "tr_client_id req = Some cid"
    "authenticate_client E cfg cid (tr_client_secret req) w = (Inr client, w1)"
    "on_store_clocked E (\<lambda>now. cfg_code_consume cfg now code) w1 = (Inr (Some c), w2)"
    "check_code_binding (env_crypto E) req cid c = None"
    "grant_tokens E cfg cid (ac_subject c) (ac_scope c) None (ac_nonce c) w2 = (resp, w')"
  using assms by (cases rule: exchange_code_cases [OF assms(1)]) (auto dest: authenticate_client_err)

lemma exchange_refresh_ok:
  assumes "exchange_refresh_token E cfg req w = (resp, w')" and "resp_status resp = 200"
  obtains tok ro cid client w1 rt w2 scope where
    "tr_refresh_token req = Some tok" "cfg_refresh_token_store cfg = Some ro" "tr_client_id req = Some cid"
    "authenticate_client E cfg cid (tr_client_secret req) w = (Inr client, w1)"
    "allows_grant client CG_RefreshToken"
    "on_store_clocked E (\<lambda>now. ro_consume ro now tok) w1 = (Inr (Valid rt), w2)"
    "rt_client_id rt = cid" "narrow_scope req rt = Some scope"
    "grant_tokens E cfg cid (rt_subject rt) scope (Some (rt_family_id rt)) None w2 = (resp, w')"
  using assms by (cases rule: exchange_refresh_cases [OF assms(1)]) (auto dest: authenticate_client_err)

lemma narrow_scope_subset: "narrow_scope req rt = Some sc \<Longrightarrow> set sc \<subseteq> set (rt_scope rt)"
  by (auto simp: narrow_scope_def Let_def list_all_iff split: option.splits if_splits)

text \<open>C2: on every backend, the token endpoint answers an authorization-code exchange with a
  success only to an authenticated client, for a code that the code store has just handed out,
  that was issued to this very client and to the redirect URI the request repeats, and, when the
  code carries a PKCE challenge, to a request whose verifier solves it. The granted scope is the
  code's, and an ID token is present exactly when \<open>openid\<close> was granted.\<close>

theorem code_exchange_binding:
  assumes "crypto_ok (env_crypto E)"
    and "exchange_authorization_code E cfg req w = (resp, w')" and "resp_status resp = 200"
  shows "\<exists>code cid client s1 c s2 tr.
     tr_code req = Some code \<and> tr_client_id req = Some cid
     \<and> cfg_client_get cfg cid (w_store w) = (Inr (Some client), s1)
     \<and> client_authenticated (env_crypto E) client (tr_client_secret req)
     \<and> cfg_code_consume cfg (env_clock E (w_ticks w)) code s1 = (Inr (Some c), s2)
     \<and> ac_client_id c = cid
     \<and> (\<forall>u. ac_redirect_uri c = Some u \<longrightarrow> tr_redirect_uri req = Some u)
     \<and> (\<forall>ch m. ac_pkce_challenge c = Some ch \<longrightarrow> ac_pkce_method c = Some m \<longrightarrow>
          (\<exists>v. tr_code_verifier req = Some v \<and>
               (case m of Plain \<Rightarrow> v = ch
                | S256 \<Rightarrow> base64url (env_crypto E) (sha256 (env_crypto E) (as_bytes v)) = ch)))
     \<and> resp = json_response 200 (TokenBody tr)
     \<and> ts_scope tr = scope_member (ac_scope c)
     \<and> (ts_id_token tr \<noteq> None \<longleftrightarrow> ''openid'' \<in> set (ac_scope c))"
proof -
  obtain code cid client w1 c w2 where
    req: "tr_code req = Some code" "tr_client_id req = Some cid"
    and auth: "authenticate_client E cfg cid (tr_client_secret req) w = (Inr client, w1)"
    and cons: "on_store_clocked E (\<lambda>now. cfg_code_consume cfg now code) w1 = (Inr (Some c), w2)"
    and bind: "check_code_binding (env_crypto E) req cid c = None"
    and grant: "grant_tokens E cfg cid (ac_subject c) (ac_scope c) None (ac_nonce c) w2 = (resp, w')"
    using exchange_code_ok [OF assms(2,3)] .
  from cons obtain s where
    s: "cfg_code_consume cfg (env_clock E (w_ticks w1)) code (w_store w1) = (Inr (Some c), s)"
    by (rule on_store_clockedE)
  from grant_tokens_ok [OF grant assms(3)] obtain tr where
    tr: "resp = json_response 200 (TokenBody tr)" "ts_scope tr = scope_member (ac_scope c)"
    "(ts_id_token tr \<noteq> None) = (''openid'' \<in> set (ac_scope c))"
    by blast
  note authok = authenticate_client_ok [OF auth] and bound = check_code_binding_ok [OF assms(1) bind]
  show ?thesis
    by (rule exI [of _ code], rule exI [of _ cid], rule exI [of _ client], rule exI [of _ "w_store w1"],
        rule exI [of _ c], rule exI [of _ s], rule exI [of _ tr])
      (use req s tr authok bound in auto)
qed

text \<open>C6: on every backend, a successful refresh exchange is for an authenticated client that may
  use the refresh grant, for a token that the store has just declared valid and that was issued to
  this client; the scope granted is contained in the scope of the consumed token, and the rotated
  token, if one is issued, keeps its family, its subject and the narrowed scope.\<close>

theorem refresh_exchange_binding:
  assumes "exchange_refresh_token E cfg req w = (resp, w')" and "resp_status resp = 200"
  shows "\<exists>tok ro cid client s1 rt s2 scope tr.
     tr_refresh_token req = Some tok \<and> cfg_refresh_token_store cfg = Some ro \<and> tr_client_id req = Some cid
     \<and> cfg_client_get cfg cid (w_store w) = (Inr (Some client), s1)
     \<and> client_authenticated (env_crypto E) client (tr_client_secret req)
     \<and> CG_RefreshToken \<in> cl_allowed_grant_types client
     \<and> ro_consume ro (env_clock E (w_ticks w)) tok s1 = (Inr (Valid rt), s2)
     \<and> rt_client_id rt = cid \<and> set scope \<subseteq> set (rt_scope rt)
     \<and> resp = json_response 200 (TokenBody tr) \<and> ts_scope tr = scope_member scope
     \<and> refresh_issued cfg cid (rt_subject rt) scope (Some (rt_family_id rt)) s2 (w_store w')"
proof -
  obtain tok ro cid client w1 rt w2 scope where
    req: "tr_refresh_token req = Some tok" "cfg_refresh_token_store cfg = Some ro" "tr_client_id req = Some cid"
    and auth: "authenticate_client E cfg cid (tr_client_secret req) w = (Inr client, w1)"
    and allowed: "allows_grant client CG_RefreshToken"
    and cons: "on_store_clocked E (\<lambda>now. ro_consume ro now tok) w1 = (Inr (Valid rt), w2)"
    and owner: "rt_client_id rt = cid" and ns: "narrow_scope req rt = Some scope"
    and grant: "grant_tokens E cfg cid (rt_subject rt) scope (Some (rt_family_id rt)) None w2 = (resp, w')"
    using exchange_refresh_ok [OF assms] .
  from cons have
    s: "ro_consume ro (env_clock E (w_ticks w1)) tok (w_store w1) = (Inr (Valid rt), w_store w2)"
    by (auto elim: on_store_clockedE)
  from grant_tokens_ok [OF grant assms(2)] obtain tr where
    tr: "resp = json_response 200 (TokenBody tr)" "ts_scope tr = scope_member scope"
    by blast
  note authok = authenticate_client_ok [OF auth] and narrowed = narrow_scope_subset [OF ns]
    and issued = grant_tokens_store [OF grant]
  show ?thesis
    by (rule exI [of _ tok], rule exI [of _ ro], rule exI [of _ cid], rule exI [of _ client],
        rule exI [of _ "w_store w1"], rule exI [of _ rt], rule exI [of _ "w_store w2"],
        rule exI [of _ scope], rule exI [of _ tr])
      (use req s tr authok narrowed issued allowed owner in \<open>auto simp: allows_grant_def\<close>)
qed

section \<open>The authorization endpoint\<close>

lemma resolve_redirect_uri_registered:
  "resolve_redirect_uri client u = Inr uri \<Longrightarrow> uri \<in> set (cl_redirect_uris client)"
  by (auto simp: resolve_redirect_uri_def split: option.splits if_splits list.splits)

lemma resolve_redirect_uri_err:
  "resolve_redirect_uri client u = Inl resp \<Longrightarrow> resp_location resp = None"
  by (auto simp: resolve_redirect_uri_def split: option.splits if_splits list.splits)

lemma code_request_fields:
  "acb_client_id (code_request req sub uri) = ar_client_id req"
  "acb_subject (code_request req sub uri) = sub"
  "acb_redirect_uri (code_request req sub uri) = Some uri"
  "acb_scope (code_request req sub uri) = requested_scopes req"
  "acb_nonce (code_request req sub uri) = ar_nonce req"
  by (auto simp: code_request_def acb_defs Let_def split: option.splits)

lemma words_ok_requested [simp]: "words_ok (requested_scopes req)"
  by (auto simp: requested_scopes_def split: option.splits)

definition is_error_redirect :: "string \<Rightarrow> string option \<Rightarrow> oauth_http \<Rightarrow> bool" where
  "is_error_redirect uri st resp = (\<exists>e d. resp = error_redirect uri e d st)"

lemma is_error_redirectI [simp]: "is_error_redirect uri st (error_redirect uri e d st)"
  by (auto simp: is_error_redirect_def)

text \<open>The authorization endpoint ends without touching the code store, or has offered it a code
  built for this request.\<close>

lemma authorize_code_cases:
  assumes "authorize_code E cfg req user w = (r, w')"
  obtains (early) resp where "r = Inl resp" "w_store w' = snd (cfg_client_get cfg (ar_client_id req) (w_store w))"
      "resp_location resp = None \<or>
       (\<exists>client uri. fst (cfg_client_get cfg (ar_client_id req) (w_store w)) = Inr (Some client)
          \<and> resolve_redirect_uri client (ar_redirect_uri req) = Inr uri
          \<and> is_error_redirect uri (ar_state req) resp)"
    | (offered) client s1 uri c i res where
        "cfg_client_get cfg (ar_client_id req) (w_store w) = (Inr (Some client), s1)"
        "resolve_redirect_uri client (ar_redirect_uri req) = Inr uri"
        "ar_response_type req = RT_Code" "allows_grant client CG_AuthorizationCode"
        "allows_scopes client (requested_scopes req)"
        "acb_build (env_crypto E) (env_range E) (env_clock E (w_ticks w)) (cfg_code_ttl cfg)
           (code_request req (case c_sub user of None \<Rightarrow> [] | Some s \<Rightarrow> s) uri) (w_draws w) = (Inr c, i)"
        "cfg_code_store cfg c s1 = (res, w_store w')"
        "r = (case res of Inr _ \<Rightarrow> Inr (uri, c)
              | Inl _ \<Rightarrow> Inl (error_redirect uri ServerError ''could not store authorization code'' (ar_state req)))"
proof (cases "cfg_client_get cfg (ar_client_id req) (w_store w)")
  case (Pair g s1)
  show ?thesis
  proof (cases "\<exists>client uri. g = Inr (Some client) \<and> resolve_redirect_uri client (ar_redirect_uri req) = Inr uri")
    case False
    with assms Pair show ?thesis
      by (intro early [of "projl r"])
        (auto simp: authorize_code_def on_store_def dest: resolve_redirect_uri_err
          split: sum.splits option.splits)
  next
    case True
    then obtain client uri where cu: "g = Inr (Some client)"
      "resolve_redirect_uri client (ar_redirect_uri req) = Inr uri" by blast
    obtain b i where bld: "acb_build (env_crypto E) (env_range E) (env_clock E (w_ticks w)) (cfg_code_ttl cfg)
        (code_request req (case c_sub user of None \<Rightarrow> [] | Some s \<Rightarrow> s) uri) (w_draws w) = (b, i)"
      by fastforce
    show ?thesis
    proof (cases "ar_response_type req = RT_Code \<and> allows_grant client CG_AuthorizationCode
        \<and> allows_scopes client (requested_scopes req) \<and> is_ok b")
      case False
      with assms Pair cu bld show ?thesis
        by (intro early [of "projl r"])
          (auto simp: authorize_code_def on_store_def clock_now_def on_draws_def Let_def is_ok_def
            simp del: allows_scopes_iff split: if_splits sum.splits)
    next
      case True
      then obtain c where "b = Inr c" by (cases b) auto
      with True assms Pair cu bld show ?thesis
        by (intro offered [of client s1 uri c i "fst (cfg_code_store cfg c s1)"])
          (auto simp: authorize_code_def on_store_def clock_now_def on_draws_def Let_def
            simp del: allows_scopes_iff split: sum.splits prod.splits)
    qed
  qed
qed

lemma redirect_url_prefix: "params \<noteq> [] \<Longrightarrow> \<exists>rest. redirect_url base params = base @ ''?'' @ rest"
  by (cases params) (auto simp: redirect_url_def)

lemma error_redirect_location: "\<exists>rest. resp_location (error_redirect uri e d st) = Some (uri @ ''?'' @ rest)"
  using redirect_url_prefix [of "[(''error'', oauth2_error_code_str e), (''error_description'', d)] @ state_params st" uri]
  by (auto simp: error_redirect_def)

text \<open>C7: no open redirector. On every backend, whenever the authorization endpoint answers with
  a redirect, success or error, its target is a URI registered for the client the request names,
  extended by a query string; every other answer has no \<open>Location\<close>.\<close>

theorem authorize_redirects_to_registered:
  assumes "authorize E cfg req user w = (resp, w')" and "resp_location resp = Some loc"
  shows "\<exists>client uri rest. fst (cfg_client_get cfg (ar_client_id req) (w_store w)) = Inr (Some client)
     \<and> uri \<in> set (cl_redirect_uris client) \<and> loc = uri @ ''?'' @ rest
     \<and> (\<forall>u. ar_redirect_uri req = Some u \<longrightarrow> uri = u)"
proof -
  have same: "\<forall>u. ar_redirect_uri req = Some u \<longrightarrow> uri = u"
    if "resolve_redirect_uri client (ar_redirect_uri req) = Inr uri" for client uri
    using that by (auto simp: resolve_redirect_uri_def split: option.splits if_splits)
  obtain r where ac: "authorize_code E cfg req user w = (r, w')"
    using assms(1) by (auto simp: authorize_def split: prod.splits sum.splits)
  then show ?thesis
  proof (cases rule: authorize_code_cases)
    case (early resp')
    then have "resp' = resp" using assms(1) ac by (auto simp: authorize_def)
    with early(3) assms(2) obtain client uri e d where
      "fst (cfg_client_get cfg (ar_client_id req) (w_store w)) = Inr (Some client)"
      and uri: "resolve_redirect_uri client (ar_redirect_uri req) = Inr uri"
      and "resp = error_redirect uri e d (ar_state req)"
      by (auto simp: is_error_redirect_def)
    with assms(2) same [OF uri] resolve_redirect_uri_registered [OF uri]
      error_redirect_location [of uri e d "ar_state req"] show ?thesis
      by auto
  next
    case (offered client s1 uri c i res)
    have "\<exists>rest. loc = uri @ ''?'' @ rest"
    proof (cases res)
      case (Inl e)
      then show ?thesis
        using assms ac offered(8) error_redirect_location
          [of uri ServerError "''could not store authorization code''" "ar_state req"]
        by (auto simp: authorize_def)
    next
      case (Inr u)
      then show ?thesis
        using assms ac offered(8) redirect_url_prefix [of "[(''code'', ac_code c)] @ state_params (ar_state req)" uri]
        by (auto simp: authorize_def)
    qed
    then show ?thesis
      using offered(1) same [OF offered(2)] resolve_redirect_uri_registered [OF offered(2)] by auto
  qed
qed

end
