(* ===== verification/OAuthBackend.thy ===== *)
theory OAuthBackend
  imports OAuthSafety
begin

text \<open>
  The contract of the authorization server's stores, and what the server guarantees on every
  backend that keeps it. The contract says of each method what it may do to the registered
  clients, the pending codes, the live refresh tokens and the revoked families; a backend may drop
  entries at any time and may fail. The in-memory stores keep it.
\<close>

text \<open>A scope list granted to a registered client.\<close>

definition granted :: "client_store \<Rightarrow> string \<Rightarrow> string list \<Rightarrow> bool" where
  "granted cs cid sc = (words_ok sc \<and> (\<exists>cl. cs cid = Some cl \<and> set sc \<subseteq> cl_allowed_scopes cl))"

lemma granted_subset: "granted cs cid sc \<Longrightarrow> set sc' \<subseteq> set sc \<Longrightarrow> granted cs cid sc'"
  by (auto simp: granted_def intro: words_ok_subset)

text \<open>The operation may have dropped entries and left the rest alone.\<close>

lemma map_leD: "m \<subseteq>\<^sub>m n \<Longrightarrow> m k = Some v \<Longrightarrow> n k = Some v"
  by (metis domI map_le_def)

lemma map_le_absent: "m \<subseteq>\<^sub>m n \<Longrightarrow> n k = None \<Longrightarrow> m k = None"
  by (metis domIff map_le_def)

text \<open>The request is an authorization whose random draw would be the code \<open>k\<close>; and no request of
  a sequence is.\<close>

definition mints :: "env \<Rightarrow> string \<Rightarrow> server_request \<Rightarrow> 's world \<Rightarrow> bool" where
  "mints E k rq w =
     (case rq of
        ReqAuthorize req user \<Rightarrow>
          map_option (base64url (env_crypto E)) (fill (env_crypto E) (w_draws w) AUTH_CODE_BYTES) = Some k
      | _ \<Rightarrow> False)"

fun never_mints :: "env \<Rightarrow> 's oauth_config \<Rightarrow> string \<Rightarrow> server_request list \<Rightarrow> 's world \<Rightarrow> bool" where
  "never_mints E cfg k [] w = True"
| "never_mints E cfg k (rq # rqs) w = (\<not> mints E k rq w \<and> never_mints E cfg k rqs (snd (serve E cfg rq w)))"

lemma granted_member:
  "granted cs cid sc \<Longrightarrow>
   \<exists>cl. cs cid = Some cl \<and> set (split_whitespace (or_default [] (scope_member sc))) \<subseteq> cl_allowed_scopes cl"
proof -
  assume "granted cs cid sc"
  then obtain cl where cl: "words_ok sc" "cs cid = Some cl" "set sc \<subseteq> cl_allowed_scopes cl"
    by (auto simp: granted_def)
  have "split_whitespace (or_default [] (scope_member sc)) \<in> {[], sc}"
    using split_whitespace_join [OF cl(1)]
    by (auto simp: scope_member_def or_default_def)
  with cl(2,3) show ?thesis by auto
qed

locale oauth_backend =
  fixes cfg :: "'s oauth_config"
    and clients :: "'s \<Rightarrow> client_store"
    and codes :: "'s \<Rightarrow> string \<rightharpoonup> auth_code"
    and live :: "'s \<Rightarrow> string \<rightharpoonup> refresh_token"
    and revoked :: "'s \<Rightarrow> string set"
  assumes get_frame: "snd (cfg_client_get cfg cid s) = s"
    and get_law: "fst (cfg_client_get cfg cid s) = Inr (Some cl) \<Longrightarrow> clients s cid = Some cl"
    and code_store_law: "cfg_code_store cfg c s = (r1, s') \<Longrightarrow>
          clients s' = clients s \<and> live s' = live s \<and> revoked s' = revoked s
          \<and> codes s' \<subseteq>\<^sub>m (codes s)(ac_code c \<mapsto> c)"
    and code_consume_law: "cfg_code_consume cfg now k s = (rc, s') \<Longrightarrow>
          clients s' = clients s \<and> live s' = live s \<and> revoked s' = revoked s \<and> codes s' \<subseteq>\<^sub>m codes s
          \<and> (\<forall>c. rc = Inr (Some c) \<longrightarrow> codes s k = Some c \<and> codes s' k = None)"
    and refresh_store_law: "cfg_refresh_token_store cfg = Some ro \<Longrightarrow> ro_store ro t s = (r1, s') \<Longrightarrow>
          clients s' = clients s \<and> codes s' = codes s \<and> revoked s \<subseteq> revoked s'
          \<and> live s' \<subseteq>\<^sub>m (live s)(rt_token t \<mapsto> t)"
    and refresh_consume_law: "cfg_refresh_token_store cfg = Some ro \<Longrightarrow> ro_consume ro now k s = (r2, s') \<Longrightarrow>
          clients s' = clients s \<and> codes s' = codes s \<and> revoked s \<subseteq> revoked s' \<and> live s' \<subseteq>\<^sub>m live s
          \<and> (\<forall>t. r2 = Inr (Valid t) \<longrightarrow> live s k = Some t \<and> live s' k = None \<and> rt_family_id t \<notin> revoked s)"
    and revoke_family_law: "cfg_refresh_token_store cfg = Some ro \<Longrightarrow> ro_revoke_family ro f s = (r1, s') \<Longrightarrow>
          clients s' = clients s \<and> codes s' = codes s \<and> revoked s \<subseteq> revoked s' \<and> live s' \<subseteq>\<^sub>m live s"
    and deny_revoke_law: "cfg_token_denylist cfg = Some dl \<Longrightarrow> do_revoke dl jti e s = (r1, s') \<Longrightarrow>
          clients s' = clients s \<and> codes s' = codes s \<and> revoked s' = revoked s \<and> live s' = live s"
    and deny_look_law: "cfg_token_denylist cfg = Some dl \<Longrightarrow> do_is_revoked dl now jti s = (r3, s') \<Longrightarrow>
          clients s' = clients s \<and> codes s' = codes s \<and> revoked s' = revoked s \<and> live s' = live s"
begin

text \<open>\<open>quiet s s'\<close>: clients as before, and codes, tokens and revocations have only been
  withdrawn, withdrawn and added.\<close>

definition quiet :: "'s \<Rightarrow> 's \<Rightarrow> bool" where
  "quiet s s' = (clients s' = clients s \<and> codes s' \<subseteq>\<^sub>m codes s \<and> live s' \<subseteq>\<^sub>m live s \<and> revoked s \<subseteq> revoked s')"

text \<open>Every pending code and every live refresh token carries a scope its client may have.\<close>

definition inv :: "'s \<Rightarrow> bool" where
  "inv s = ((\<forall>k c. codes s k = Some c \<longrightarrow> granted (clients s) (ac_client_id c) (ac_scope c))
          \<and> (\<forall>k t. live s k = Some t \<longrightarrow> granted (clients s) (rt_client_id t) (rt_scope t)))"

lemma quiet_refl [simp]: "quiet s s"
  by (simp add: quiet_def)

lemma quiet_trans: "quiet s s' \<Longrightarrow> quiet s' s'' \<Longrightarrow> quiet s s''"
  by (auto simp: quiet_def intro: map_le_trans)

lemma quiet_inv: "quiet s s' \<Longrightarrow> inv s \<Longrightarrow> inv s'"
  by (auto simp: quiet_def inv_def dest: map_leD)

lemma quiet_absent: "quiet s s' \<Longrightarrow> codes s k = None \<Longrightarrow> codes s' k = None"
  by (auto simp: quiet_def dest: map_le_absent)

lemma code_consume_quiet: "cfg_code_consume cfg now k s = (r, s') \<Longrightarrow> quiet s s'"
  using code_consume_law by (auto simp: quiet_def)

lemma refresh_consume_quiet:
  "cfg_refresh_token_store cfg = Some ro \<Longrightarrow> ro_consume ro now k s = (r, s') \<Longrightarrow> quiet s s'"
  using refresh_consume_law by (auto simp: quiet_def)

lemma revoke_family_quiet:
  "cfg_refresh_token_store cfg = Some ro \<Longrightarrow> ro_revoke_family ro f s = (r, s') \<Longrightarrow> quiet s s'"
  using revoke_family_law by (auto simp: quiet_def)

lemma deny_quiet:
  "cfg_token_denylist cfg = Some dl \<Longrightarrow> do_revoke dl jti e s = (r, s') \<Longrightarrow> quiet s s'"
  "cfg_token_denylist cfg = Some dl \<Longrightarrow> do_is_revoked dl now jti s = (r', s') \<Longrightarrow> quiet s s'"
  using deny_revoke_law deny_look_law by (auto simp: quiet_def)

lemma authenticate_store: "authenticate_client E cfg cid secret w = (r, w1) \<Longrightarrow> w_store w1 = w_store w"
  using authenticate_client_store [of E cfg cid secret w r w1] by (simp add: get_frame)

lemma authenticate_registered:
  "authenticate_client E cfg cid secret w = (Inr client, w1) \<Longrightarrow> clients (w_store w) cid = Some client"
  using authenticate_client_ok [of E cfg cid secret w client w1] get_law [of cid "w_store w"] by simp

text \<open>Issuing tokens touches at most the live refresh tokens.\<close>

lemma issued_frame:
  assumes "refresh_issued cfg cid sub scope fam s s'"
  shows "clients s' = clients s \<and> codes s' = codes s \<and> revoked s \<subseteq> revoked s'"
  using assms refresh_store_law by (auto simp: refresh_issued_def) (metis prod.collapse subsetD)+

lemma issued_inv:
  assumes "refresh_issued cfg cid sub scope fam s s'" and "inv s" and "granted (clients s) cid scope"
  shows "inv s'"
proof (cases "s' = s")
  case False
  then obtain ro rt where ro: "cfg_refresh_token_store cfg = Some ro" "s' = snd (ro_store ro rt s)"
    "rt_client_id rt = cid" "rt_scope rt = scope"
    using assms(1) by (auto simp: refresh_issued_def)
  then have "clients s' = clients s \<and> codes s' = codes s \<and> live s' \<subseteq>\<^sub>m (live s)(rt_token rt \<mapsto> rt)"
    using refresh_store_law [OF ro(1), of rt s "fst (ro_store ro rt s)" s'] by simp
  with assms(2,3) ro(3,4) show ?thesis
    by (auto simp: inv_def dest!: map_leD split: if_splits)
qed (use assms in simp)

text \<open>What a granting exchange does to the store: the credential was there and is consumed
  (\<open>quiet\<close>), then a refresh token may be issued to its client with a scope contained in the
  credential's.\<close>

definition redeems :: "('s \<Rightarrow> string \<Rightarrow> string list \<Rightarrow> 's \<Rightarrow> bool) \<Rightarrow> oauth_http \<Rightarrow> token_request \<Rightarrow> 's \<Rightarrow> 's \<Rightarrow> bool" where
  "redeems credential resp req s s' =
     (\<exists>cid sub scope fam s1. credential s cid scope s1 \<and> quiet s s1
        \<and> tr_client_id req = Some cid
        \<and> refresh_issued cfg cid sub scope fam s1 s'
        \<and> (resp_status resp = 200 \<longrightarrow>
             (\<exists>tr. resp = json_response 200 (TokenBody tr) \<and> ts_scope tr = scope_member scope)))"

definition code_credential :: "token_request \<Rightarrow> 's \<Rightarrow> string \<Rightarrow> string list \<Rightarrow> 's \<Rightarrow> bool" where
  "code_credential req s cid scope s1 =
     (\<exists>code c. tr_code req = Some code \<and> codes s code = Some c \<and> codes s1 code = None
        \<and> ac_client_id c = cid \<and> ac_scope c = scope)"

definition refresh_credential :: "token_request \<Rightarrow> 's \<Rightarrow> string \<Rightarrow> string list \<Rightarrow> 's \<Rightarrow> bool" where
  "refresh_credential req s cid scope s1 =
     (\<exists>tok t. tr_refresh_token req = Some tok \<and> live s tok = Some t \<and> live s1 tok = None
        \<and> rt_family_id t \<notin> revoked s \<and> rt_client_id t = cid \<and> set scope \<subseteq> set (rt_scope t))"

lemma exchange_code_effect:
  assumes "exchange_authorization_code E cfg req w = (resp, w')"
  shows "quiet (w_store w) (w_store w') \<and> resp_status resp \<noteq> 200 \<or>
         redeems (code_credential req) resp req (w_store w) (w_store w')"
  using assms
proof (cases rule: exchange_code_cases)
  case (consumed code cid client w1 r)
  then show ?thesis
    by (auto elim!: on_store_clockedE dest!: authenticate_store code_consume_quiet)
next
  case (granted code cid client w1 c w2)
  have c2: "cfg_code_consume cfg (env_clock E (w_ticks w1)) code (w_store w) = (Inr (Some c), w_store w2)"
    using granted(4) authenticate_store [OF granted(3)] by (auto elim: on_store_clockedE)
  have "ac_client_id c = cid"
    using granted(5) by (auto simp: check_code_binding_def split: if_splits)
  then have "code_credential req (w_store w) cid (ac_scope c) (w_store w2)"
    using granted(1) code_consume_law [OF c2] by (auto simp: code_credential_def)
  then show ?thesis
    using granted(2) code_consume_quiet [OF c2] grant_tokens_store [OF granted(6)] grant_tokens_ok [OF granted(6)]
    unfolding redeems_def by blast
qed (auto dest: authenticate_store authenticate_client_err)

lemma exchange_refresh_effect:
  assumes "exchange_refresh_token E cfg req w = (resp, w')"
  shows "quiet (w_store w) (w_store w') \<and> resp_status resp \<noteq> 200 \<or>
         redeems (refresh_credential req) resp req (w_store w) (w_store w')"
  using assms
proof (cases rule: exchange_refresh_cases)
  case (consumed tok ro cid client w1 r)
  then show ?thesis
    by (auto elim!: on_store_clockedE dest!: authenticate_store refresh_consume_quiet)
next
  case (granted tok ro cid client w1 rt w2 scope)
  have c2: "ro_consume ro (env_clock E (w_ticks w1)) tok (w_store w) = (Inr (Valid rt), w_store w2)"
    using granted(6) authenticate_store [OF granted(4)] by (auto elim: on_store_clockedE)
  have "refresh_credential req (w_store w) cid scope (w_store w2)"
    using granted(1,7) narrow_scope_subset [OF granted(8)] refresh_consume_law [OF granted(2) c2]
    by (auto simp: refresh_credential_def)
  then show ?thesis
    using granted(3) refresh_consume_quiet [OF granted(2) c2] grant_tokens_store [OF granted(9)]
      grant_tokens_ok [OF granted(9)]
    unfolding redeems_def by blast
qed (auto dest: authenticate_store authenticate_client_err)

text \<open>Authorization: quiet, or one code offered that carries a scope the client may have.\<close>

definition offers :: "auth_code \<Rightarrow> 's \<Rightarrow> 's \<Rightarrow> bool" where
  "offers c s s' = (clients s' = clients s \<and> live s' = live s \<and> revoked s' = revoked s
     \<and> codes s' \<subseteq>\<^sub>m (codes s)(ac_code c \<mapsto> c) \<and> granted (clients s) (ac_client_id c) (ac_scope c))"

lemma authorize_effect:
  assumes "authorize_code E cfg req user w = (r, w')"
  shows "w_store w' = w_store w \<and> \<not> is_ok r \<or>
         (\<exists>c. offers c (w_store w) (w_store w') \<and> mints E (ac_code c) (ReqAuthorize req user) w)"
  using assms
proof (cases rule: authorize_code_cases)
  case (early resp)
  then show ?thesis by (simp add: get_frame)
next
  case (offered client s1 uri c i res)
  have s1: "s1 = w_store w" "clients (w_store w) (ar_client_id req) = Some client"
    using get_frame [of "ar_client_id req" "w_store w"] get_law [of "ar_client_id req" "w_store w"] offered(1)
    by simp_all
  have "granted (clients (w_store w)) (ac_client_id c) (ac_scope c)"
    using acb_build_ok [OF offered(6)] s1 offered(5) by (simp add: code_request_fields granted_def)
  then have "offers c (w_store w) (w_store w')"
    using code_store_law [OF offered(7)] s1 by (simp add: offers_def)
  moreover have "mints E (ac_code c) (ReqAuthorize req user) w"
    using acb_build_ok [OF offered(6)] by (auto simp: mints_def)
  ultimately show ?thesis by blast
qed

lemma offers_inv: "offers c s s' \<Longrightarrow> inv s \<Longrightarrow> inv s'"
  by (auto simp: offers_def inv_def dest!: map_leD split: if_splits)

lemma revoke_token_quiet: "quiet (w_store w) (w_store (revoke_token E cfg token hint w))"
proof -
  let ?access = "\<lambda>w. if hint = Some HintRefreshToken then w
      else (case (cfg_verifier cfg, cfg_token_denylist cfg) of
              (Some verifier, Some denylist) \<Rightarrow>
                (case clock_now E w of (now, w1) \<Rightarrow>
                  (case verifier_decode verifier now token of
                     Inl e \<Rightarrow> w1
                   | Inr claims \<Rightarrow>
                       (case (c_jti claims, c_exp claims) of
                          (Some jti, Some exp) \<Rightarrow>
                            snd (on_store (do_revoke denylist jti (from_unix_seconds (env_range E) exp)) w1)
                        | _ \<Rightarrow> w1)))
            | _ \<Rightarrow> w)"
  have access: "quiet (w_store w) (w_store (?access w))" for w
    by (auto simp: clock_now_def on_store_def dest: deny_quiet split: option.splits sum.splits prod.splits)
  show ?thesis
  proof (cases "hint = Some HintAccessToken \<or> cfg_refresh_token_store cfg = None")
    case True
    then show ?thesis using access [of w] by (auto simp: revoke_token_def Let_def)
  next
    case False
    then obtain ro where ro: "cfg_refresh_token_store cfg = Some ro" by auto
    obtain r w1 where c: "on_store_clocked E (\<lambda>now. ro_consume ro now token) w = (r, w1)" by fastforce
    then have q: "quiet (w_store w) (w_store w1)"
      by (auto elim!: on_store_clockedE dest: refresh_consume_quiet [OF ro])
    have "quiet (w_store w1) (w_store (snd (on_store (ro_revoke_family ro f) w1)))" for f
      by (auto simp: on_store_def dest: revoke_family_quiet [OF ro] split: prod.splits)
    then show ?thesis
      using False ro c quiet_trans [OF q] q access [of w1]
      by (auto simp: revoke_token_def Let_def split: sum.splits consume_result.splits)
  qed
qed

lemma introspect_token_quiet:
  assumes "introspect_token E cfg token w = (r, w')"
  shows "quiet (w_store w) (w_store w')"
  using assms
  by (auto simp: introspect_token_def clock_now_def on_store_clocked_def dest: deny_quiet
      split: option.splits sum.splits prod.splits bool.splits)

text \<open>Every request, seen from the store.\<close>

lemma serve_effect:
  assumes "serve E cfg rq w = (resp, w')"
  shows "quiet (w_store w) (w_store w')
     \<or> (\<exists>c. offers c (w_store w) (w_store w') \<and> mints E (ac_code c) rq w)
     \<or> (\<exists>req. rq = ReqToken req \<and>
          (redeems (code_credential req) resp req (w_store w) (w_store w')
           \<or> redeems (refresh_credential req) resp req (w_store w) (w_store w')))"
proof (cases rq)
  case (ReqAuthorize req user)
  then obtain r where "authorize_code E cfg req user w = (r, w')"
    using assms by (auto simp: authorize_def split: prod.splits sum.splits)
  with authorize_effect [OF this] ReqAuthorize show ?thesis by auto
next
  case (ReqToken req)
  with assms exchange_code_effect [of E req w resp w'] exchange_refresh_effect [of E req w resp w']
  show ?thesis by (auto simp: token_endpoint_def split: grant_type.splits)
next
  case (ReqRevoke req)
  with assms show ?thesis
    by (auto simp: revoke_def dest!: authenticate_store intro: revoke_token_quiet
        split: option.splits prod.splits sum.splits) (metis revoke_token_quiet)+
next
  case (ReqIntrospect req)
  with assms show ?thesis
    by (auto simp: introspect_def dest!: authenticate_store introspect_token_quiet
        split: option.splits prod.splits sum.splits)
qed

lemma redeems_inv:
  assumes "redeems cred resp req s s'" and "inv s"
    and "\<And>cid scope s1. cred s cid scope s1 \<Longrightarrow> granted (clients s) cid scope"
  shows "inv s'"
  using assms issued_inv quiet_inv unfolding redeems_def quiet_def by metis

lemma credential_granted:
  "inv s \<Longrightarrow> code_credential req s cid scope s1 \<Longrightarrow> granted (clients s) cid scope"
  "inv s \<Longrightarrow> refresh_credential req s cid scope s1 \<Longrightarrow> granted (clients s) cid scope"
  by (auto simp: inv_def code_credential_def refresh_credential_def) (metis granted_subset)

lemma redeems_frame:
  "redeems cred resp req s s' \<Longrightarrow> clients s' = clients s \<and> revoked s \<subseteq> revoked s' \<and> codes s' \<subseteq>\<^sub>m codes s"
  unfolding redeems_def quiet_def using issued_frame by fastforce

theorem serve_inv: "inv (w_store w) \<Longrightarrow> inv (w_store (snd (serve E cfg rq w)))"
  using serve_effect [of E rq w "fst (serve E cfg rq w)" "snd (serve E cfg rq w)"]
  by (auto intro: quiet_inv offers_inv redeems_inv credential_granted)

lemma serve_frame:
  "clients (w_store (snd (serve E cfg rq w))) = clients (w_store w)
   \<and> revoked (w_store w) \<subseteq> revoked (w_store (snd (serve E cfg rq w)))"
  using serve_effect [of E rq w "fst (serve E cfg rq w)" "snd (serve E cfg rq w)"]
  by (auto simp: quiet_def offers_def dest!: redeems_frame)

lemma serve_codes_absent:
  assumes "codes (w_store w) k = None" and "\<not> mints E k rq w"
  shows "codes (w_store (snd (serve E cfg rq w))) k = None"
  using serve_effect [of E rq w "fst (serve E cfg rq w)" "snd (serve E cfg rq w)"] assms
  by (auto simp: quiet_def offers_def dest!: redeems_frame elim!: map_le_absent split: if_splits)

lemma serve_all_inv: "inv (w_store w) \<Longrightarrow> inv (w_store (serve_all E cfg rqs w))"
  by (induction rqs arbitrary: w) (simp_all add: serve_inv)

lemma serve_all_clients: "clients (w_store (serve_all E cfg rqs w)) = clients (w_store w)"
proof (induction rqs arbitrary: w)
  case (Cons rq rqs)
  then show ?case using serve_frame [of E rq w] by simp
qed simp

lemma serve_all_revoked: "f \<in> revoked (w_store w) \<Longrightarrow> f \<in> revoked (w_store (serve_all E cfg rqs w))"
proof (induction rqs arbitrary: w)
  case (Cons rq rqs)
  then show ?case using serve_frame [of E rq w] by auto
qed simp

lemma serve_all_codes_absent:
  "codes (w_store w) k = None \<Longrightarrow> never_mints E cfg k rqs w \<Longrightarrow> codes (w_store (serve_all E cfg rqs w)) k = None"
  by (induction rqs arbitrary: w) (simp_all add: serve_codes_absent)

lemma token_ok_redeems:
  assumes "token_endpoint E cfg req w = (resp, w')" and "resp_status resp = 200"
  shows "redeems (code_credential req) resp req (w_store w) (w_store w')
       \<or> redeems (refresh_credential req) resp req (w_store w) (w_store w')"
  using assms exchange_code_effect [of E req w resp w'] exchange_refresh_effect [of E req w resp w']
  by (auto simp: token_endpoint_def split: grant_type.splits)

theorem token_scope_confined:
  assumes "inv (w_store w)" and "token_endpoint E cfg req w = (resp, w')" and "resp_status resp = 200"
  shows "\<exists>cid cl tr. tr_client_id req = Some cid \<and> clients (w_store w) cid = Some cl
     \<and> resp = json_response 200 (TokenBody tr)
     \<and> set (split_whitespace (or_default [] (ts_scope tr))) \<subseteq> cl_allowed_scopes cl"
proof -
  obtain cid scope tr where "granted (clients (w_store w)) cid scope" "tr_client_id req = Some cid"
    "resp = json_response 200 (TokenBody tr)" "ts_scope tr = scope_member scope"
    using token_ok_redeems [OF assms(2,3)] assms(1,3) credential_granted unfolding redeems_def by blast
  with granted_member [of "clients (w_store w)" cid scope] show ?thesis by auto
qed

theorem code_replay_refused:
  assumes "exchange_authorization_code E cfg req w = (resp, w1)" and "resp_status resp = 200"
    and "tr_code req = Some k" and "never_mints E cfg k rqs w1"
    and "tr_code req' = Some k"
    and "exchange_authorization_code E cfg req' (serve_all E cfg rqs w1) = (resp', w2)"
  shows "resp_status resp' \<noteq> 200"
proof
  assume "resp_status resp' = 200"
  then have "redeems (code_credential req') resp' req' (w_store (serve_all E cfg rqs w1)) (w_store w2)"
    using exchange_code_effect [OF assms(6)] by simp
  then have "codes (w_store (serve_all E cfg rqs w1)) k \<noteq> None"
    using assms(5) by (auto simp: redeems_def code_credential_def)
  moreover have "redeems (code_credential req) resp req (w_store w) (w_store w1)"
    using exchange_code_effect [OF assms(1)] assms(2) by simp
  then have "codes (w_store w1) k = None"
    using assms(3) issued_frame by (fastforce simp: redeems_def code_credential_def)
  ultimately show False
    using serve_all_codes_absent [OF _ assms(4)] by simp
qed

theorem revoked_family_refused:
  assumes "f \<in> revoked (w_store w)"
    and "exchange_refresh_token E cfg req (serve_all E cfg rqs w) = (resp, w')" and "resp_status resp = 200"
  shows "\<exists>tok t. tr_refresh_token req = Some tok
     \<and> live (w_store (serve_all E cfg rqs w)) tok = Some t \<and> rt_family_id t \<noteq> f"
  using exchange_refresh_effect [OF assms(2)] assms(3) serve_all_revoked [OF assms(1), of E rqs]
  by (auto simp: redeems_def refresh_credential_def)

end

end
