(* ===== verification/OAuthMemory.thy ===== *)
theory OAuthMemory
  imports OAuthBackend
begin

text \<open>
  The authorization server on the in-memory stores: they keep the contract of \<open>oauth_backend\<close>, so
  the guarantees proved there hold for every sequence of requests the server serves. The witnesses
  run a complete authorization-code flow.
\<close>

lemma mem_config_fields [simp]:
  "cfg_client_get (mem_config sg vf iss) cid s = (Inr (m_clients s cid), s)"
  "cfg_code_store (mem_config sg vf iss) c s = (Inr (), s\<lparr>m_codes := snd (acs_store c (m_codes s))\<rparr>)"
  "cfg_code_consume (mem_config sg vf iss) now k s =
     (fst (acs_consume now k (m_codes s)), s\<lparr>m_codes := snd (acs_consume now k (m_codes s))\<rparr>)"
  "cfg_refresh_token_store (mem_config sg vf iss) = Some mem_refresh_ops"
  "cfg_token_denylist (mem_config sg vf iss) = Some mem_denylist_ops"
  "cfg_verifier (mem_config sg vf iss) = vf" "cfg_signer (mem_config sg vf iss) = sg"
  "cfg_issuer (mem_config sg vf iss) = iss"
  "cfg_access_token_ttl (mem_config sg vf iss) = seconds 3600"
  "cfg_code_ttl (mem_config sg vf iss) = seconds 300"
  "cfg_refresh_token_ttl (mem_config sg vf iss) = seconds 2592000"
  by (simp_all add: mem_config_def mem_builder_def oauth_config_build_def clients_get_def or_default_def
      acs_store_def split_def)

lemma mem_refresh_fields [simp]:
  "ro_store mem_refresh_ops t s = (fst (rts_store t (m_refresh s)), s\<lparr>m_refresh := snd (rts_store t (m_refresh s))\<rparr>)"
  "ro_consume mem_refresh_ops now k s =
     (fst (rts_consume now k (m_refresh s)), s\<lparr>m_refresh := snd (rts_consume now k (m_refresh s))\<rparr>)"
  "ro_revoke_family mem_refresh_ops f s =
     (fst (rts_revoke_family f (m_refresh s)), s\<lparr>m_refresh := snd (rts_revoke_family f (m_refresh s))\<rparr>)"
  by (simp_all add: mem_refresh_ops_def split_def)

lemma mem_denylist_fields [simp]:
  "do_revoke mem_denylist_ops jti e s =
     (fst (denylist_revoke jti e (m_denylist s)), s\<lparr>m_denylist := snd (denylist_revoke jti e (m_denylist s))\<rparr>)"
  "do_is_revoked mem_denylist_ops now jti s =
     (fst (denylist_is_revoked now jti (m_denylist s)), s\<lparr>m_denylist := snd (denylist_is_revoked now jti (m_denylist s))\<rparr>)"
  by (simp_all add: mem_denylist_ops_def split_def)

lemma rts_consume_Valid_fst:
  "fst (rts_consume now k s) = Inr (Valid t) \<Longrightarrow>
   active s k = Some t \<and> active (snd (rts_consume now k s)) k = None \<and> rt_family_id t \<notin> revoked_families s"
  using rts_consume_Valid [of now k s t "snd (rts_consume now k s)"] by (cases "rts_consume now k s") auto

lemma acs_consume_fst:
  "fst (acs_consume now k m) = Inr (Some c) \<Longrightarrow> m k = Some c"
  by (auto simp: acs_consume_def split: option.splits if_splits)

lemma map_le_del [simp]: "m(k := None) \<subseteq>\<^sub>m m"
  by (simp add: map_le_def)

interpretation memory: oauth_backend "mem_config sg vf iss" m_clients m_codes
    "\<lambda>s. active (m_refresh s)" "\<lambda>s. revoked_families (m_refresh s)" for sg vf iss
proof (unfold_locales, goal_cases)
  case (4 now k s rc s')
  then show ?case by (auto simp: store_simps dest: acs_consume_fst)
next
  case (6 ro now k s r2 s')
  then show ?case
    using rts_consume_revoked_mono [of "m_refresh s" now k] rts_consume_active_sub [of now k "m_refresh s"]
      rts_consume_Valid_fst [of now k "m_refresh s"] by auto
next
  case (7 ro f s r1 s')
  then show ?case by (auto simp: rts_revoke_family_def map_le_def dom_def retain_def split: option.splits if_splits)
qed (auto simp: store_simps)

section \<open>A complete flow\<close>

definition demo_client :: oauth2_client where
  "demo_client =
     \<lparr>cl_client_id = ''app'', cl_client_type = Public, cl_client_secret_hash = None,
      cl_redirect_uris = [''https://app/cb''],
      cl_allowed_grant_types = {CG_AuthorizationCode, CG_RefreshToken},
      cl_allowed_scopes = {''openid'', ''email''}, cl_token_endpoint_auth_method = AuthNone,
      cl_client_name = None, cl_created_at = 0\<rparr>"

definition demo_env :: env where
  "demo_env = \<lparr>env_crypto = demo_crypto, env_range = demo_range, env_clock = (\<lambda>n. int n)\<rparr>"

definition demo_world :: "mem world" where
  "demo_world =
     \<lparr>w_store = \<lparr>m_clients = [''app'' \<mapsto> demo_client], m_codes = acs_new, m_refresh = rts_new,
                 m_denylist = denylist_new\<rparr>, w_draws = 0, w_ticks = 0\<rparr>"

definition demo_config :: "mem oauth_config" where
  "demo_config = mem_config (\<lambda>c. Inr ''jwt'') None ''https://idp''"

definition demo_user :: claims where
  "demo_user = claims_builder ''u1'' 0 (seconds 60)"

definition demo_authorization :: authorization_request where
  "demo_authorization =
     \<lparr>ar_response_type = RT_Code, ar_client_id = ''app'', ar_redirect_uri = None,
      ar_scope = Some ''openid email'', ar_state = Some ''xyz'', ar_nonce = None,
      ar_code_challenge = Some ''secret'', ar_code_challenge_method = Some CCM_Plain,
      ar_response_mode = None, ar_prompt = None, ar_max_age = None, ar_acr_values = None,
      ar_login_hint = None, ar_ui_locales = None\<rparr>"

definition demo_code_value :: string where
  "demo_code_value = demo_token 0"

definition demo_token_request :: token_request where
  "demo_token_request =
     \<lparr>tr_grant_type = GT_AuthorizationCode, tr_code = Some demo_code_value,
      tr_redirect_uri = Some ''https://app/cb'', tr_client_id = Some ''app'', tr_client_secret = None,
      tr_refresh_token = None, tr_code_verifier = Some ''secret'', tr_scope = None,
      tr_username = None, tr_password = None\<rparr>"

definition demo_refresh_request :: token_request where
  "demo_refresh_request =
     demo_token_request\<lparr>tr_grant_type := GT_RefreshToken, tr_refresh_token := Some (demo_token 2),
                        tr_scope := Some ''openid''\<rparr>"

definition demo_w1 :: "mem world" where
  "demo_w1 = snd (authorize demo_env demo_config demo_authorization demo_user demo_world)"

definition demo_w2 :: "mem world" where
  "demo_w2 = snd (exchange_authorization_code demo_env demo_config demo_token_request demo_w1)"

lemmas demo_defs = demo_env_def demo_world_def demo_config_def demo_user_def demo_authorization_def
  demo_code_value_def demo_token_request_def demo_refresh_request_def demo_client_def

lemma demo_split: "split_whitespace ''openid email'' = [''openid'', ''email'']"
  "split_whitespace ''openid'' = [''openid'']"
  by (simp_all add: split_whitespace_def is_ws_def)

lemmas flow_defs = demo_defs on_store_def on_store_clocked_def on_draws_def clock_now_def Let_def
  authorize_def authorize_code_def resolve_redirect_uri_def allows_grant_def requested_scopes_def demo_split
  code_request_def acb_defs acb_build_def AUTH_CODE_BYTES_def seconds_def in_range_def demo_range_def
  checked_add_def acs_store_def acs_new_def claims_builder_def

lemmas token_flow_defs = exchange_authorization_code_def exchange_refresh_token_def authenticate_client_def
  check_code_binding_def verify_pkce_iff grant_tokens_def mint_access_token_def mint_id_token_def
  issue_refresh_token_def cb_random_jwt_id_def signer_encode_def acs_consume_def ac_is_expired_def
  has_openid_scope_def rtb_build_def rtb_defs rtb_family_def REFRESH_TOKEN_BYTES_def rts_store_def rts_new_def
  narrow_scope_def rts_consume_def rt_is_expired_def

lemma demo_w1_eq:
  "demo_w1 = \<lparr>w_store = (w_store demo_world)\<lparr>m_codes := [demo_token 0 \<mapsto>
      \<lparr>ac_code = demo_token 0, ac_client_id = ''app'', ac_subject = ''u1'',
       ac_redirect_uri = Some ''https://app/cb'', ac_scope = [''openid'', ''email''], ac_nonce = None,
       ac_pkce_challenge = Some ''secret'', ac_pkce_method = Some Plain, ac_issued_at = 0,
       ac_expires_at = 300000000000\<rparr>]\<rparr>, w_draws = 1, w_ticks = 1\<rparr>"
  by (simp add: demo_w1_def flow_defs)

lemma demo_w2_eq:
  "demo_w2 = \<lparr>w_store = (w_store demo_world)\<lparr>m_refresh := rts_new\<lparr>active := [demo_token 2 \<mapsto>
      \<lparr>rt_token = demo_token 2, rt_family_id = demo_token 3, rt_client_id = ''app'', rt_subject = ''u1'',
       rt_scope = [''openid'', ''email''], rt_issued_at = 3, rt_expires_at = 2592000000000003\<rparr>]\<rparr>\<rparr>,
     w_draws = 4, w_ticks = 5\<rparr>"
  by (simp add: demo_w2_def demo_w1_eq flow_defs token_flow_defs numeral_2_eq_2 numeral_3_eq_3 eval_nat_numeral)

lemma demo_exchange_ok:
  "resp_status (fst (exchange_authorization_code demo_env demo_config demo_token_request demo_w1)) = 200"
  by (simp add: demo_w1_eq flow_defs token_flow_defs)

lemma demo_refresh_ok:
  "resp_status (fst (exchange_refresh_token demo_env demo_config demo_refresh_request demo_w2)) = 200"
  by (simp add: demo_w2_eq flow_defs token_flow_defs)

lemma demo_authorize_location:
  "resp_location (fst (authorize demo_env demo_config demo_authorization demo_user demo_world))
   = Some (redirect_url ''https://app/cb'' [(''code'', demo_token 0), (''state'', ''xyz'')])"
  by (simp add: flow_defs state_params_def redirect_def)

lemma demo_crypto_env [simp]: "crypto_ok (env_crypto demo_env)"
  by (simp add: demo_env_def)

theorem code_exchange_binding_witness:
  "\<exists>code c s1 s2. tr_code demo_token_request = Some code
     \<and> cfg_code_consume demo_config (env_clock demo_env (w_ticks demo_w1)) code s1 = (Inr (Some c), s2)
     \<and> ac_client_id c = ''app'' \<and> ac_redirect_uri c \<in> {None, Some ''https://app/cb''}"
proof -
  have "tr_client_id demo_token_request = Some ''app''"
    and "tr_redirect_uri demo_token_request = Some ''https://app/cb''"
    by (simp_all add: demo_token_request_def)
  with code_exchange_binding [OF demo_crypto_env prod.collapse [symmetric] demo_exchange_ok]
  show ?thesis by (metis insertCI option.exhaust option.sel)
qed

theorem refresh_exchange_binding_witness:
  "\<exists>tok t s1 s2. tr_refresh_token demo_refresh_request = Some tok
     \<and> ro_consume mem_refresh_ops (env_clock demo_env (w_ticks demo_w2)) tok s1 = (Inr (Valid t), s2)
     \<and> rt_client_id t = ''app''"
proof -
  have "tr_client_id demo_refresh_request = Some ''app''"
    and "cfg_refresh_token_store demo_config = Some mem_refresh_ops"
    by (simp_all add: demo_refresh_request_def demo_token_request_def demo_config_def)
  with refresh_exchange_binding [OF prod.collapse [symmetric] demo_refresh_ok]
  show ?thesis by (metis option.sel)
qed

theorem authorize_redirects_to_registered_witness:
  "\<exists>client uri rest. fst (cfg_client_get demo_config ''app'' (w_store demo_world)) = Inr (Some client)
     \<and> uri \<in> set (cl_redirect_uris client)
     \<and> redirect_url ''https://app/cb'' [(''code'', demo_token 0), (''state'', ''xyz'')] = uri @ ''?'' @ rest"
proof -
  have "ar_client_id demo_authorization = ''app''"
    by (simp add: demo_authorization_def)
  with authorize_redirects_to_registered [OF prod.collapse [symmetric] demo_authorize_location]
  show ?thesis by metis
qed

section \<open>Guarantees over every history\<close>

text \<open>C1: replayed codes. After an authorization code has been exchanged successfully, and after
  any further requests (authorizations, exchanges, revocations, introspections) none of which
  draws the same random code again, exchanging it once more is refused.\<close>

theorem oauth_code_replay_refused:
  assumes "exchange_authorization_code E (mem_config sg vf iss) req w = (resp, w1)" and "resp_status resp = 200"
    and "tr_code req = Some k" and "never_mints E (mem_config sg vf iss) k rqs w1"
    and "tr_code req' = Some k"
  shows "resp_status (fst (exchange_authorization_code E (mem_config sg vf iss) req'
           (serve_all E (mem_config sg vf iss) rqs w1))) \<noteq> 200"
  using memory.code_replay_refused [OF assms prod.collapse [symmetric]] .

theorem oauth_code_replay_refused_witness:
  "never_mints demo_env demo_config demo_code_value [ReqAuthorize demo_authorization demo_user] demo_w2
   \<and> resp_status (fst (exchange_authorization_code demo_env demo_config demo_token_request
       (serve_all demo_env demo_config [ReqAuthorize demo_authorization demo_user] demo_w2))) \<noteq> 200"
proof -
  have fresh: "never_mints demo_env demo_config demo_code_value [ReqAuthorize demo_authorization demo_user] demo_w2"
    by (simp add: mints_def demo_w2_eq demo_env_def demo_code_value_def AUTH_CODE_BYTES_def)
  have "tr_code demo_token_request = Some demo_code_value"
    by (simp add: demo_token_request_def)
  with fresh show ?thesis
    using oauth_code_replay_refused [of demo_env "\<lambda>c. Inr ''jwt''" None "''https://idp''" demo_token_request demo_w1,
        folded demo_config_def, OF prod.collapse [symmetric] demo_exchange_ok, folded demo_w2_def, of demo_code_value]
    by blast
qed

text \<open>C3: scope confinement. Starting from a server with registered clients and no outstanding
  credentials, after any sequence of requests, every successful answer of the token endpoint, for
  a code or for a refresh token rotated any number of times, grants only scopes that are
  registered for the client the request names.\<close>

theorem oauth_scope_confined:
  assumes "m_codes (w_store w) = acs_new" and "m_refresh (w_store w) = rts_new"
    and "token_endpoint E (mem_config sg vf iss) req (serve_all E (mem_config sg vf iss) rqs w) = (resp, w')"
    and "resp_status resp = 200"
  shows "\<exists>cid cl tr. tr_client_id req = Some cid \<and> m_clients (w_store w) cid = Some cl
     \<and> resp = json_response 200 (TokenBody tr)
     \<and> set (split_whitespace (or_default [] (ts_scope tr))) \<subseteq> cl_allowed_scopes cl"
proof -
  have "memory.inv (w_store w)"
    using assms(1,2) by (simp add: memory.inv_def acs_new_def rts_new_def)
  from memory.token_scope_confined [OF memory.serve_all_inv [OF this] assms(3,4)]
  show ?thesis by (simp add: memory.serve_all_clients)
qed

theorem oauth_scope_confined_witness:
  "\<exists>cid cl. tr_client_id demo_token_request = Some cid \<and> m_clients (w_store demo_world) cid = Some cl"
proof -
  have "serve_all demo_env demo_config [ReqAuthorize demo_authorization demo_user] demo_world = demo_w1"
    by (simp add: demo_w1_def)
  moreover have "m_codes (w_store demo_world) = acs_new" "m_refresh (w_store demo_world) = rts_new"
    by (simp_all add: demo_world_def)
  moreover have "token_endpoint demo_env demo_config demo_token_request demo_w1
      = exchange_authorization_code demo_env demo_config demo_token_request demo_w1"
    by (simp add: token_endpoint_def demo_token_request_def)
  ultimately show ?thesis
    using oauth_scope_confined [of demo_world demo_env "\<lambda>c. Inr ''jwt''" None "''https://idp''" demo_token_request
        "[ReqAuthorize demo_authorization demo_user]", folded demo_config_def, OF _ _ prod.collapse [symmetric]]
      demo_exchange_ok by fastforce
qed

section \<open>Revocation\<close>

lemma revoke_refresh_family:
  assumes "active (m_refresh (w_store w)) k = Some t" and "rt_family_id t \<notin> revoked_families (m_refresh (w_store w))"
    and "hint \<noteq> Some HintAccessToken"
  shows "rt_family_id t \<in> revoked_families (m_refresh (w_store (revoke_token E (mem_config sg vf iss) k hint w)))"
  using assms
  by (auto simp: revoke_token_def on_store_clocked_def on_store_def rts_consume_def rts_revoke_family_def Let_def
      split: prod.splits)

text \<open>C5: revoking a refresh token ends its session. Once \<open>/oauth/revoke\<close> has answered 200 for a
  live refresh token, no later refresh exchange succeeds with a token of its rotation family, after
  any sequence of further requests, including exchanges that were in flight and stored a rotated
  token of the family afterwards.\<close>

theorem oauth_revocation_ends_family:
  assumes "active (m_refresh (w_store w)) (rr_token rq) = Some t"
    and "rt_family_id t \<notin> revoked_families (m_refresh (w_store w))"
    and "rr_token_type_hint rq \<noteq> Some HintAccessToken"
    and "revoke E (mem_config sg vf iss) rq w = (resp, w1)" and "resp_status resp = 200"
    and "exchange_refresh_token E (mem_config sg vf iss) req (serve_all E (mem_config sg vf iss) rqs w1) = (resp', w2)"
    and "resp_status resp' = 200"
  shows "\<exists>tok t'. tr_refresh_token req = Some tok
     \<and> active (m_refresh (w_store (serve_all E (mem_config sg vf iss) rqs w1))) tok = Some t'
     \<and> rt_family_id t' \<noteq> rt_family_id t"
proof -
  obtain cid cl w0 where auth: "authenticate_client E (mem_config sg vf iss) cid (rr_client_secret rq) w = (Inr cl, w0)"
    and w1: "w1 = revoke_token E (mem_config sg vf iss) (rr_token rq) (rr_token_type_hint rq) w0"
    using assms(4,5)
    by (auto simp: revoke_def dest: authenticate_client_err split: option.splits prod.splits sum.splits)
  have "rt_family_id t \<in> revoked_families (m_refresh (w_store w1))"
    using revoke_refresh_family [of w0 "rr_token rq" t] memory.authenticate_store [OF auth] assms(1-3) w1 by simp
  from memory.revoked_family_refused [OF this assms(6,7)] show ?thesis .
qed

definition demo_revocation :: revocation_request where
  "demo_revocation = \<lparr>rr_token = demo_token 2, rr_token_type_hint = None, rr_client_id = Some ''app'',
                      rr_client_secret = None\<rparr>"

definition demo_w3 :: "mem world" where
  "demo_w3 = snd (revoke demo_env demo_config demo_revocation demo_w2)"

definition demo_later :: "server_request list" where
  "demo_later = [ReqAuthorize demo_authorization demo_user,
                 ReqToken (demo_token_request\<lparr>tr_code := Some (demo_token 4)\<rparr>)]"

definition demo_w4 :: "mem world" where
  "demo_w4 = serve_all demo_env demo_config demo_later demo_w3"

definition demo_refresh2 :: token_request where
  "demo_refresh2 = demo_refresh_request\<lparr>tr_refresh_token := Some (demo_token 6)\<rparr>"

lemma demo_w3_eq:
  "demo_w3 = \<lparr>w_store = (w_store demo_world)\<lparr>m_refresh := rts_new
      \<lparr>consumed := [demo_token 2 \<mapsto> (demo_token 3, 2592000000000003)], revoked_families := {demo_token 3}\<rparr>\<rparr>,
     w_draws = 4, w_ticks = 6\<rparr>"
  by (simp add: demo_w3_def demo_w2_eq demo_revocation_def revoke_def revoke_token_def rts_revoke_family_def
      flow_defs token_flow_defs retain_def)

lemma demo_revoke_ok: "resp_status (fst (revoke demo_env demo_config demo_revocation demo_w2)) = 200"
  by (simp add: demo_w2_eq demo_revocation_def revoke_def flow_defs token_flow_defs finish_response_def)

lemma demo_refresh2_ok:
  "resp_status (fst (exchange_refresh_token demo_env demo_config demo_refresh2 demo_w4)) = 200"
  by (simp add: demo_w4_def demo_later_def demo_w3_eq demo_refresh2_def token_endpoint_def flow_defs token_flow_defs)

theorem oauth_revocation_ends_family_witness:
  "\<exists>tok t'. tr_refresh_token demo_refresh2 = Some tok \<and> active (m_refresh (w_store demo_w4)) tok = Some t'
     \<and> rt_family_id t' \<noteq> demo_token 3"
proof -
  let ?t = "\<lparr>rt_token = demo_token 2, rt_family_id = demo_token 3, rt_client_id = ''app'', rt_subject = ''u1'',
       rt_scope = [''openid'', ''email''], rt_issued_at = 3, rt_expires_at = 2592000000000003\<rparr>"
  have t: "active (m_refresh (w_store demo_w2)) (rr_token demo_revocation) = Some ?t"
    and "rt_family_id ?t \<notin> revoked_families (m_refresh (w_store demo_w2))"
    and "rr_token_type_hint demo_revocation \<noteq> Some HintAccessToken"
    by (simp_all add: demo_w2_eq demo_revocation_def rts_new_def)
  then show ?thesis
    using oauth_revocation_ends_family [of demo_w2 demo_revocation ?t demo_env "\<lambda>c. Inr ''jwt''" None "''https://idp''"
        _ _ demo_refresh2 demo_later, folded demo_config_def, OF _ _ _ prod.collapse [symmetric] demo_revoke_ok,
        folded demo_w3_def, folded demo_w4_def, OF _ _ _ prod.collapse [symmetric] demo_refresh2_ok]
    by simp
qed

end
