(* ===== verification/Sessions.thy ===== *)
theory Sessions
  imports Tokens Expiring
begin

text \<open>
  Sessions (\<open>klauthed-security/src/session\<close>): the session record and the in-memory store. The
  store reads the clock once in \<open>get\<close> and twice in \<open>create\<close> and \<open>touch\<close> (the second reading is
  the one of \<open>deadline\<close>), so these take both readings.
\<close>

definition SESSION_ID_BYTES :: nat where
  "SESSION_ID_BYTES = 32"

record session =
  ss_id :: string
  ss_subject :: string
  ss_created_at :: timestamp
  ss_expires_at :: timestamp
  ss_metadata :: "string \<rightharpoonup> string"

definition session_is_expired :: "session \<Rightarrow> timestamp \<Rightarrow> bool" where
  "session_is_expired s now = (ss_expires_at s \<le> now)"

definition session_id_generate :: "crypto \<Rightarrow> nat \<Rightarrow> (security_error + string) \<times> nat" where
  "session_id_generate C i = random_token C SESSION_ID_BYTES i"

type_synonym session_store = "string \<rightharpoonup> session"

definition sess_deadline :: "time_range \<Rightarrow> timestamp \<Rightarrow> duration \<Rightarrow> security_error + timestamp" where
  "sess_deadline R now ttl = ok_or (SE_TokenTtlOverflow ''session'') (checked_add R now ttl)"

definition sess_create ::
  "crypto \<Rightarrow> time_range \<Rightarrow> timestamp \<Rightarrow> timestamp \<Rightarrow> string \<Rightarrow> duration \<Rightarrow> (string \<rightharpoonup> string) option
   \<Rightarrow> session_store \<times> nat \<Rightarrow> (security_error + session) \<times> session_store \<times> nat" where
  "sess_create C R now now' subject ttl metadata st =
     (case st of (m, i) \<Rightarrow>
        (case session_id_generate C i of
           (Inl e, i') \<Rightarrow> (Inl e, m, i')
         | (Inr sid, i') \<Rightarrow>
             (case sess_deadline R now' ttl of
                Inl e \<Rightarrow> (Inl e, m, i')
              | Inr expires_at \<Rightarrow>
                  (let s = \<lparr>ss_id = sid, ss_subject = subject, ss_created_at = now,
                            ss_expires_at = expires_at,
                            ss_metadata = (case metadata of None \<Rightarrow> Map.empty | Some d \<Rightarrow> d)\<rparr>
                   in (Inr s, m(sid \<mapsto> s), i')))))"

definition sess_get :: "timestamp \<Rightarrow> string \<Rightarrow> session_store \<Rightarrow> (security_error + session option) \<times> session_store" where
  "sess_get now sid m =
     (case m sid of
        Some s \<Rightarrow> if session_is_expired s now then (Inr None, m(sid := None)) else (Inr (Some s), m)
      | None \<Rightarrow> (Inr None, m))"

definition sess_delete :: "string \<Rightarrow> session_store \<Rightarrow> (security_error + unit) \<times> session_store" where
  "sess_delete sid m = (Inr (), m(sid := None))"

definition sess_touch ::
  "time_range \<Rightarrow> timestamp \<Rightarrow> timestamp \<Rightarrow> string \<Rightarrow> duration \<Rightarrow> session_store
   \<Rightarrow> (security_error + session) \<times> session_store" where
  "sess_touch R now now' sid ttl m =
     (case sess_deadline R now' ttl of
        Inl e \<Rightarrow> (Inl e, m)
      | Inr new_deadline \<Rightarrow>
          (case m sid of
             Some s \<Rightarrow>
               if session_is_expired s now then (Inl SE_SessionExpired, m(sid := None))
               else (let s' = s\<lparr>ss_expires_at := new_deadline\<rparr> in (Inr s', m(sid \<mapsto> s')))
           | None \<Rightarrow> (Inl SE_SessionNotFound, m)))"

section \<open>The store as an expiring store\<close>

definition sess_put :: "string \<Rightarrow> session \<Rightarrow> session_store \<Rightarrow> session_store" where
  "sess_put sid s m = m(sid \<mapsto> s)"

definition sess_look :: "timestamp \<Rightarrow> string \<Rightarrow> session_store \<Rightarrow> session option \<times> session_store" where
  "sess_look now sid m = (case sess_get now sid m of (r, m') \<Rightarrow> (case r of Inr v \<Rightarrow> v | Inl _ \<Rightarrow> None, m'))"

definition sess_drop :: "string \<Rightarrow> session_store \<Rightarrow> session_store" where
  "sess_drop sid m = snd (sess_delete sid m)"

abbreviation sess_run :: "(string, session) exp_op list \<Rightarrow> session_store \<Rightarrow> session_store" where
  "sess_run \<equiv> exp_run sess_put sess_look sess_drop"

interpretation sessions: expiring_store sess_put sess_look sess_drop "\<lambda>m. m" ss_expires_at
  by unfold_locales
    (auto simp: sess_put_def sess_look_def sess_get_def sess_drop_def sess_delete_def
      session_is_expired_def map_le_def split: option.splits if_splits)

lemma sess_get_look: "fst (sess_get t k m) = Inr (fst (sess_look t k m))"
  by (auto simp: sess_look_def sess_get_def split: option.splits)

lemma sess_create_ok:
  "sess_create C R now now' subject ttl md (m, i) = (Inr s, m', i') \<Longrightarrow>
   m' = sess_put (ss_id s) s m \<and> ss_subject s = subject \<and> ss_created_at s = now \<and>
   ss_expires_at s = now' + ttl \<and> i' = Suc i"
  by (auto simp: sess_create_def session_id_generate_def random_token_iffs sess_deadline_def
      sess_put_def Let_def split: prod.splits sum.splits)

lemma sess_touch_ok:
  "sess_touch R now now' sid ttl m = (Inr s', m') \<longleftrightarrow>
   (\<exists>s. m sid = Some s \<and> now < ss_expires_at s \<and> in_range R (now' + ttl) \<and>
        s' = s\<lparr>ss_expires_at := now' + ttl\<rparr> \<and> m' = sess_put sid s' m)"
  by (auto simp: sess_touch_def sess_deadline_def checked_add_None session_is_expired_def sess_put_def
      Let_def ok_or_def split: sum.splits option.splits if_splits)

text \<open>A session created for a subject is found, unchanged, at every instant before its
  deadline and at none from it on, whatever happens to the other sessions in between; deleting it
  hides it for good.\<close>

theorem session_lifetime:
  assumes "sess_create C R now now' subject ttl md (m, i) = (Inr s, m', i')"
    and "\<forall>p \<in> set ops. spares (ss_id s) (now' + ttl) p"
  shows "ss_subject s = subject
     \<and> fst (sess_get t (ss_id s) (sess_run ops m')) = Inr (if t < now' + ttl then Some s else None)
     \<and> fst (sess_get t (ss_id s) (snd (sess_delete (ss_id s) (sess_run ops m')))) = Inr None"
proof -
  note s = sess_create_ok [OF assms(1)]
  have "sess_run ops m' (ss_id s) = Some s"
    using sessions.run_spared [of m' "ss_id s" s ops] assms(2) s by (simp add: sess_put_def)
  then show ?thesis
    using s by (simp add: sess_get_def session_is_expired_def sess_delete_def)
qed

text \<open>\<open>touch\<close> moves the deadline of a live session to the new one and nothing else; an
  expired session is removed and reported \<open>SessionExpired\<close>, so it cannot be revived, and an
  unknown one is \<open>SessionNotFound\<close>.\<close>

theorem session_touch:
  assumes "in_range R (now' + ttl)"
  shows "sess_touch R now now' sid ttl m =
    (case m sid of
       None \<Rightarrow> (Inl SE_SessionNotFound, m)
     | Some s \<Rightarrow> if now < ss_expires_at s
                 then (Inr (s\<lparr>ss_expires_at := now' + ttl\<rparr>), m(sid \<mapsto> s\<lparr>ss_expires_at := now' + ttl\<rparr>))
                 else (Inl SE_SessionExpired, m(sid := None)))
    \<and> ((\<exists>s. m sid = Some s \<and> ss_expires_at s \<le> now) \<longrightarrow>
       fst (sess_touch R now2 now' sid ttl (snd (sess_touch R now now' sid ttl m))) = Inl SE_SessionNotFound)"
  using assms
  by (auto simp: sess_touch_def sess_deadline_def session_is_expired_def Let_def checked_add_def
      split: option.splits)

definition demo_session :: session where
  "demo_session = \<lparr>ss_id = demo_token 0, ss_subject = ''u1'', ss_created_at = 0,
                   ss_expires_at = 1 + seconds 60, ss_metadata = Map.empty\<rparr>"

lemma demo_session_create:
  "sess_create demo_crypto demo_range 0 1 ''u1'' (seconds 60) None (Map.empty, 0)
   = (Inr demo_session, sess_put (ss_id demo_session) demo_session Map.empty, 1)"
  by (simp add: sess_create_def session_id_generate_def 
      demo_range_def demo_session_def SESSION_ID_BYTES_def sess_deadline_def seconds_def checked_add_def
      in_range_def sess_put_def Let_def)

theorem session_lifetime_witness:
  "fst (sess_get 60 (ss_id demo_session)
     (sess_run [ELook 2 ''other''] (sess_put (ss_id demo_session) demo_session Map.empty)))
   = Inr (Some demo_session)"
  using session_lifetime [OF demo_session_create, of "[ELook 2 ''other'']" 60] by (simp add: seconds_def)

theorem session_touch_witness:
  "in_range demo_range (7 + seconds 60)
   \<and> fst (sess_touch demo_range 6 7 ''a'' (seconds 60) [''a'' \<mapsto> demo_session\<lparr>ss_expires_at := 5\<rparr>])
     = Inl SE_SessionExpired"
proof -
  have "in_range demo_range (7 + seconds 60)"
    by (simp add: in_range_def demo_range_def seconds_def)
  then show ?thesis
    using session_touch [of demo_range 7 "seconds 60" 6 "''a''" "[''a'' \<mapsto> demo_session\<lparr>ss_expires_at := 5\<rparr>]"]
    by simp
qed

end
