(* ===== verification/WebAuth.thy ===== *)
theory WebAuth
  imports OAuthServer
begin

text \<open>
  The bearer-token middleware and the authenticated-user extractors (\<open>klauthed-web/src/auth\<close>),
  and the UserInfo endpoint behind them (\<open>klauthed-web/src/oauth/userinfo.rs\<close>). A request
  carries its \<open>Authorization\<close> header and the two extensions the middleware writes: the decoded
  claims and the principal of the request context. The wrapped service is a function of the
  request and the store.
\<close>

record auth_request =
  rq_authorization :: "string option"
  rq_claims :: "claims option"
  rq_principal :: "string option"

definition BEARER_PREFIX :: string where
  "BEARER_PREFIX = ''Bearer ''"

text \<open>\<open>HeaderValue::to_str\<close> accepts visible ASCII and tabs only; \<open>str::strip_prefix\<close>.\<close>

definition header_to_str :: "string \<Rightarrow> string option" where
  "header_to_str v =
     (if list_all (\<lambda>c. 32 \<le> (of_char c :: nat) \<and> (of_char c :: nat) < 127 \<or> (of_char c :: nat) = 9) v
      then Some v else None)"

definition strip_prefix :: "string \<Rightarrow> string \<Rightarrow> string option" where
  "strip_prefix p s = (if take (length p) s = p then Some (drop (length p) s) else None)"

definition extract_bearer_token :: "auth_request \<Rightarrow> string option" where
  "extract_bearer_token rq =
     (case rq_authorization rq of
        None \<Rightarrow> None
      | Some v \<Rightarrow> (case header_to_str v of None \<Rightarrow> None | Some s \<Rightarrow> strip_prefix BEARER_PREFIX s))"

definition client_message :: "security_error \<Rightarrow> string" where
  "client_message e =
     (case e of SE_ExpiredToken \<Rightarrow> ''token has expired''
      | SE_MalformedToken _ \<Rightarrow> ''token is malformed''
      | _ \<Rightarrow> ''token is invalid'')"

definition note_principal :: "claims \<Rightarrow> auth_request \<Rightarrow> auth_request" where
  "note_principal c rq = (case c_sub c of None \<Rightarrow> rq | Some sub \<Rightarrow> rq\<lparr>rq_principal := Some sub\<rparr>)"

text \<open>\<open>JwtAuthService::call\<close>: the verifier and the denylist are what the application registered.\<close>

definition jwt_auth_call ::
  "env \<Rightarrow> jwt_verifier option \<Rightarrow> 's denylist_ops option \<Rightarrow> (auth_request \<Rightarrow> 's world \<Rightarrow> 'b http_response \<times> 's world)
   \<Rightarrow> auth_request \<Rightarrow> 's world \<Rightarrow> 'b http_response \<times> 's world" where
  "jwt_auth_call E verifier denylist service rq w =
     (case verifier of
        None \<Rightarrow> (error_response (internal ''authentication is not configured''), w)
      | Some dec \<Rightarrow>
     (case extract_bearer_token rq of
        None \<Rightarrow> (error_response (unauthorized ''authentication required''), w)
      | Some token \<Rightarrow>
     (case clock_now E w of (now, w1) \<Rightarrow>
     (case verifier_decode dec now token of
        Inl e \<Rightarrow>
          (error_response (with_code (snd (security_error_classify e))
             (app_error_new (fst (security_error_classify e)) (client_message e))), w1)
      | Inr claims \<Rightarrow>
          (let rq' = (note_principal claims rq)\<lparr>rq_claims := Some claims\<rparr>
           in case (denylist, c_jti claims) of
                (Some dl, Some jti) \<Rightarrow>
                  (case on_store_clocked E (\<lambda>now. do_is_revoked dl now jti) w1 of
                     (Inr True, w2) \<Rightarrow> (error_response (unauthorized ''token has been revoked''), w2)
                   | (Inr False, w2) \<Rightarrow> service rq' w2
                   | (Inl e, w2) \<Rightarrow> (error_response (internal ''authentication check failed''), w2))
              | _ \<Rightarrow> service rq' w1)))))"

section \<open>Extractors\<close>

definition authenticated_user :: "auth_request \<Rightarrow> app_error + claims" where
  "authenticated_user rq = ok_or (unauthorized ''authentication required'') (rq_claims rq)"

definition user_scopes :: "claims \<Rightarrow> string list" where
  "user_scopes c =
     (case Option.bind (c_custom c ''scope'') json_as_str of None \<Rightarrow> [] | Some s \<Rightarrow> split_whitespace s)"

definition has_scopes :: "claims \<Rightarrow> string list \<Rightarrow> bool" where
  "has_scopes c required = (let token_scopes = user_scopes c in list_all (\<lambda>r. r \<in> set token_scopes) required)"

definition has_scope :: "claims \<Rightarrow> string \<Rightarrow> bool" where
  "has_scope c scope = has_scopes c [scope]"

definition require_scopes :: "claims \<Rightarrow> string list \<Rightarrow> app_error + unit" where
  "require_scopes c required =
     (if has_scopes c required then Inr ()
      else Inl (forbidden (''token is missing required scope(s): '' @ str_join '', '' required)))"

definition require_scope :: "claims \<Rightarrow> string \<Rightarrow> app_error + unit" where
  "require_scope c scope = require_scopes c [scope]"

section \<open>UserInfo\<close>

text \<open>The claims a \<open>UserInfoProvider\<close> returns: a subject and the rest, which the handler passes
  through.\<close>

record 'p standard_claims =
  sc_sub :: "string option"
  sc_rest :: 'p

definition userinfo_handler ::
  "(string \<Rightarrow> string list \<Rightarrow> app_error + 'p standard_claims option) \<Rightarrow> claims \<Rightarrow> 'p standard_claims http_response" where
  "userinfo_handler provider user =
     (if \<not> has_scope user ''openid''
      then error_response (forbidden ''access token is missing the required `openid` scope'')
      else (case c_sub user of
              None \<Rightarrow> error_response (unauthorized ''access token has no subject'')
            | Some subject \<Rightarrow>
                (case provider subject (user_scopes user) of
                   Inr (Some claims) \<Rightarrow> json_response 200 (claims\<lparr>sc_sub := Some subject\<rparr>)
                 | Inr None \<Rightarrow> error_response (not_found ''user not found'')
                 | Inl e \<Rightarrow> error_response e)))"

section \<open>Facts\<close>

lemma has_scopes_iff [simp]: "has_scopes c rs \<longleftrightarrow> set rs \<subseteq> set (user_scopes c)"
  by (auto simp: has_scopes_def list_all_iff Let_def)

lemma extract_bearer_Some:
  "extract_bearer_token rq = Some tok \<Longrightarrow> rq_authorization rq = Some (BEARER_PREFIX @ tok)"
  by (auto simp: extract_bearer_token_def header_to_str_def strip_prefix_def split: option.splits if_splits)
    (metis append_take_drop_id)


text \<open>The UserInfo endpoint releases claims only to a token that carries the \<open>openid\<close> scope
  and a subject, and the \<open>sub\<close> it returns is always the token's, whatever the provider answers.\<close>

theorem userinfo_subject_matches:
  assumes "userinfo_handler provider user = json_response 200 claims"
  shows "''openid'' \<in> set (user_scopes user) \<and> c_sub user \<noteq> None \<and> sc_sub claims = c_sub user
     \<and> (\<exists>released. provider (the (c_sub user)) (user_scopes user) = Inr (Some released)
          \<and> sc_rest claims = sc_rest released)"
proof -
  have no: "error_response e \<noteq> json_response 200 claims" for e :: app_error
    by (metis error_response_status http_status_not_ok(1) json_response_simps(1))
  show ?thesis
    using assms no
    by (auto simp: userinfo_handler_def has_scope_def split: if_splits option.splits sum.splits)
qed

definition demo_claims :: claims where
  "demo_claims = cb_claim ''scope'' (JString ''openid'') (claims_builder ''u1'' 0 (seconds 60))"

theorem userinfo_subject_matches_witness:
  "sc_sub \<lparr>sc_sub = Some ''u1'', sc_rest = (7 :: nat)\<rparr> = c_sub demo_claims"
proof -
  have "userinfo_handler (\<lambda>s sc. Inr (Some \<lparr>sc_sub = Some ''mallory'', sc_rest = (7 :: nat)\<rparr>)) demo_claims
      = json_response 200 \<lparr>sc_sub = Some ''u1'', sc_rest = 7\<rparr>"
    by (simp add: userinfo_handler_def has_scope_def user_scopes_def demo_claims_def cb_claim_def
        claims_builder_def json_as_str_def split_whitespace_def is_ws_def Let_def)
  from userinfo_subject_matches [OF this] show ?thesis by simp
qed

definition demo_auth_env :: env where
  "demo_auth_env = \<lparr>env_crypto = demo_crypto, env_range = demo_range, env_clock = (\<lambda>n. int n)\<rparr>"

definition demo_auth_request :: auth_request where
  "demo_auth_request = \<lparr>rq_authorization = Some ''Bearer t'', rq_claims = None, rq_principal = None\<rparr>"

definition demo_verifier :: jwt_verifier where
  "demo_verifier = (\<lambda>now tok. Inr demo_claims)"

definition demo_service :: "auth_request \<Rightarrow> unit world \<Rightarrow> string http_response \<times> unit world" where
  "demo_service rq w = (json_response 200 ''hello'', w)"


end
