(* ===== verification/Rbac.thy ===== *)
theory Rbac
  imports ErrorKernel "HOL-Library.List_Lexorder" "HOL-Library.Char_ord"
begin

text \<open>
  Role-based access control (\<open>klauthed-security/src/authz\<close>: \<open>permission.rs\<close>, \<open>role.rs\<close>,
  \<open>authorizer.rs\<close>). A permission is its colon-separated string; a \<open>BTreeSet\<close> is the strictly
  sorted list its iteration yields; the registry is an association list, so the set of defined
  roles is finite.
\<close>

type_synonym permission = string

section \<open>Permissions\<close>

text \<open>The loop of \<open>grants\<close> over the granted segments, with its index.\<close>

fun grants_loop :: "string list \<Rightarrow> string list \<Rightarrow> nat \<Rightarrow> string list \<Rightarrow> bool" where
  "grants_loop granted needed i [] = (length granted = length needed)"
| "grants_loop granted needed i (g # gs) =
     (if g = ''*'' \<and> i = length granted - 1 then i < length needed
      else (case (if i < length needed then Some (needed ! i) else None) of
              Some n \<Rightarrow> if g = ''*'' \<or> g = n then grants_loop granted needed (Suc i) gs else False
            | None \<Rightarrow> False))"

definition grants :: "permission \<Rightarrow> permission \<Rightarrow> bool" where
  "grants p required =
     (if p = ''*'' then True
      else (let granted = str_split (CHR '':'') p; needed = str_split (CHR '':'') required
            in grants_loop granted needed 0 granted))"

section \<open>Roles\<close>

record role =
  role_name :: string
  role_permissions :: "permission list"
  role_parents :: "string list"

definition role_new :: "string \<Rightarrow> role" where
  "role_new name = \<lparr>role_name = name, role_permissions = [], role_parents = []\<rparr>"

definition btree_extend :: "string list \<Rightarrow> string list \<Rightarrow> string list" where
  "btree_extend s xs = fold insort_insert xs s"

definition with_permissions :: "permission list \<Rightarrow> role \<Rightarrow> role" where
  "with_permissions ps r = r\<lparr>role_permissions := btree_extend (role_permissions r) ps\<rparr>"

definition inherits :: "string list \<Rightarrow> role \<Rightarrow> role" where
  "inherits ps r = r\<lparr>role_parents := btree_extend (role_parents r) ps\<rparr>"

definition role_grant :: "permission \<Rightarrow> role \<Rightarrow> role" where
  "role_grant p r = r\<lparr>role_permissions := insort_insert p (role_permissions r)\<rparr>"

definition role_inherit :: "string \<Rightarrow> role \<Rightarrow> role" where
  "role_inherit p r = r\<lparr>role_parents := insort_insert p (role_parents r)\<rparr>"

type_synonym role_registry = "(string \<times> role) list"

definition registry_new :: role_registry where
  "registry_new = []"

definition define_role :: "role \<Rightarrow> role_registry \<Rightarrow> role_registry" where
  "define_role r reg = AList.update (role_name r) r reg"

definition registry_role :: "role_registry \<Rightarrow> string \<Rightarrow> role option" where
  "registry_role reg name = map_of reg name"

text \<open>The walk of \<open>effective_permissions\<close>: the stack with its top first, the visited names and
  the permissions collected so far. It ends because each visited name leaves the finite set of
  names on the stack or inherited by a defined role.\<close>

definition all_parents :: "role_registry \<Rightarrow> string set" where
  "all_parents reg = (\<Union>(k, r) \<in> set reg. set (role_parents r))"

lemma finite_all_parents [simp]: "finite (all_parents reg)"
  by (auto simp: all_parents_def)

lemma all_parentsI: "registry_role reg name = Some r \<Longrightarrow> p \<in> set (role_parents r) \<Longrightarrow> p \<in> all_parents reg"
  by (force simp: registry_role_def all_parents_def dest: map_of_SomeD)

definition walk_names :: "role_registry \<Rightarrow> string list \<Rightarrow> string set \<Rightarrow> string set" where
  "walk_names reg stack visited = (set stack \<union> all_parents reg) - visited"

lemma walk_names_visit:
  assumes "name \<notin> visited" and "set stack' \<subseteq> set (name # stack) \<union> all_parents reg"
  shows "card (walk_names reg stack' (insert name visited)) < card (walk_names reg (name # stack) visited)"
proof (rule psubset_card_mono)
  show "finite (walk_names reg (name # stack) visited)" by (simp add: walk_names_def)
  show "walk_names reg stack' (insert name visited) \<subset> walk_names reg (name # stack) visited"
    using assms by (auto simp: walk_names_def)
qed

function walk :: "role_registry \<Rightarrow> string list \<Rightarrow> string set \<Rightarrow> permission set \<Rightarrow> permission set \<times> string set" where
  "walk reg [] visited perms = (perms, visited)"
| "walk reg (name # stack) visited perms =
     (if name \<in> visited then walk reg stack visited perms
      else (case registry_role reg name of
              None \<Rightarrow> walk reg stack (insert name visited) perms
            | Some r \<Rightarrow> walk reg (rev (role_parents r) @ stack) (insert name visited)
                          (perms \<union> set (role_permissions r))))"
  by pat_completeness auto
termination
proof (relation "measures [\<lambda>(reg, stack, visited, perms). card (walk_names reg stack visited),
                           \<lambda>(reg, stack, visited, perms). length stack]", goal_cases)
  case (2 reg name stack visited perms)
  then have "walk_names reg stack visited = walk_names reg (name # stack) visited"
    by (auto simp: walk_names_def)
  then show ?case by simp
next
  case (3 reg name stack visited perms)
  then have "card (walk_names reg stack (insert name visited)) < card (walk_names reg (name # stack) visited)"
    by (intro walk_names_visit) auto
  then show ?case by simp
next
  case (4 reg name stack visited perms r)
  then have "card (walk_names reg (rev (role_parents r) @ stack) (insert name visited))
      < card (walk_names reg (name # stack) visited)"
    by (intro walk_names_visit) (auto intro: all_parentsI)
  then show ?case by simp
qed simp

definition effective_permissions :: "role_registry \<Rightarrow> string list \<Rightarrow> permission set" where
  "effective_permissions reg role_names = fst (walk reg (rev role_names) {} {})"

section \<open>Authorizer\<close>

definition is_authorized :: "permission list \<Rightarrow> permission \<Rightarrow> bool" where
  "is_authorized granted required = list_ex (\<lambda>g. grants g required) granted"

definition authorize_permission :: "permission list \<Rightarrow> permission \<Rightarrow> security_error + unit" where
  "authorize_permission granted required =
     (if is_authorized granted required then Inr () else Inl SE_Forbidden)"

definition is_authorized_for_resource :: "permission list \<Rightarrow> permission \<Rightarrow> string \<Rightarrow> string \<Rightarrow> bool" where
  "is_authorized_for_resource granted required user owner =
     (if is_authorized granted required then True
      else if user = owner then is_authorized granted (required @ '':own'')
      else False)"

definition authorize_for_resource :: "permission list \<Rightarrow> permission \<Rightarrow> string \<Rightarrow> string \<Rightarrow> security_error + unit" where
  "authorize_for_resource granted required user owner =
     (if is_authorized_for_resource granted required user owner then Inr () else Inl SE_Forbidden)"

section \<open>Permission matching\<close>

text \<open>The declarative reading of a grant on segments: every granted segment is \<open>*\<close> or equal to
  the required one at its place, and the required permission is as long, or longer when the last
  granted segment is \<open>*\<close>.\<close>

definition covers :: "string list \<Rightarrow> string list \<Rightarrow> bool" where
  "covers gs ns = (length gs \<le> length ns \<and> (last gs \<noteq> ''*'' \<longrightarrow> length ns = length gs)
                   \<and> (\<forall>i < length gs. gs ! i = ''*'' \<or> gs ! i = ns ! i))"

lemma all_from_Suc: "Q k \<Longrightarrow> (\<forall>j < n. k \<le> j \<longrightarrow> Q j) = (\<forall>j < n. Suc k \<le> j \<longrightarrow> Q j)"
  by (metis Suc_leD le_less Suc_le_eq)

lemma grants_loop_covers:
  assumes "granted = pre @ rest" and "granted \<noteq> []" and "i = length pre"
    and "rest = [] \<longrightarrow> last granted \<noteq> ''*''" and "length pre \<le> length needed"
  shows "grants_loop granted needed i rest \<longleftrightarrow>
    length granted \<le> length needed \<and> (last granted \<noteq> ''*'' \<longrightarrow> length needed = length granted)
    \<and> (\<forall>j < length granted. length pre \<le> j \<longrightarrow> granted ! j = ''*'' \<or> granted ! j = needed ! j)"
  using assms
proof (induction rest arbitrary: pre i)
  case Nil
  then show ?case by auto
next
  case (Cons g gs)
  show ?case
  proof (cases "gs = []")
    case True
    with Cons.prems have "last granted = g" "length granted = Suc i" "granted ! i = g"
      by (simp_all add: nth_append)
    then show ?thesis
      using Cons.prems True by (auto simp: less_Suc_eq)
  next
    case False
    have at: "granted ! i = g" and lt: "i \<noteq> length granted - 1" and ge: "i < length granted"
      using Cons.prems False by (auto simp: nth_append)
    show ?thesis
    proof (cases "i < length needed \<and> (g = ''*'' \<or> g = needed ! i)")
      case True
      have "grants_loop granted needed (Suc i) gs \<longleftrightarrow>
        length granted \<le> length needed \<and> (last granted \<noteq> ''*'' \<longrightarrow> length needed = length granted)
        \<and> (\<forall>j < length granted. length (pre @ [g]) \<le> j \<longrightarrow> granted ! j = ''*'' \<or> granted ! j = needed ! j)"
        by (rule Cons.IH) (use Cons.prems False True in auto)
      moreover have "(\<forall>j < length granted. length pre \<le> j \<longrightarrow> granted ! j = ''*'' \<or> granted ! j = needed ! j)
          = (\<forall>j < length granted. length (pre @ [g]) \<le> j \<longrightarrow> granted ! j = ''*'' \<or> granted ! j = needed ! j)"
        unfolding length_append_singleton by (rule all_from_Suc) (use True at Cons.prems(3) in simp)
      moreover have "grants_loop granted needed i (g # gs) = grants_loop granted needed (Suc i) gs"
        using True lt by auto
      ultimately show ?thesis by simp
    next
      case f: False
      then show ?thesis
        using lt at ge Cons.prems(3) by (auto split: if_splits)
    qed
  qed
qed

lemma grants_covers: "grants p r \<longleftrightarrow> covers (str_split (CHR '':'') p) (str_split (CHR '':'') r)"
proof (cases "p = ''*''")
  case True
  then show ?thesis
    by (cases "str_split (CHR '':'') r") (auto simp: grants_def covers_def str_split_def)
next
  case False
  then show ?thesis
    using grants_loop_covers [of "str_split (CHR '':'') p" "[]" "str_split (CHR '':'') p" 0]
    by (simp add: grants_def covers_def str_split_def Let_def)
qed

lemma covers_trans:
  assumes "covers as bs" and "covers bs cs" and "as \<noteq> []" and "bs \<noteq> []"
  shows "covers as cs"
proof -
  have "last bs \<noteq> ''*''" if "last as \<noteq> ''*''"
    using that assms by (metis covers_def last_conv_nth diff_less length_greater_0_conv zero_less_one)
  then show ?thesis
    using assms(1,2) by (auto simp: covers_def) (metis less_le_trans)+
qed

text \<open>What a permission grants. A permission covers a requirement exactly when every granted
  segment is \<open>*\<close> or equals the required segment at its place and the lengths agree, a trailing
  \<open>*\<close> standing for one or more segments; the relation is reflexive and transitive, so a chain of
  grants never gives more than its first link.\<close>

theorem permission_grants_preorder:
  "(grants p r \<longleftrightarrow> covers (str_split (CHR '':'') p) (str_split (CHR '':'') r))
   \<and> grants p p \<and> (grants p q \<and> grants q r \<longrightarrow> grants p r)"
  using grants_covers covers_trans [of "str_split (CHR '':'') p" "str_split (CHR '':'') q" "str_split (CHR '':'') r"]
  by (auto simp: covers_def str_split_def)

theorem permission_grants_preorder_witness:
  "grants ''users:*'' ''users:read:own'' \<and> \<not> grants ''users:*'' ''users''"
proof -
  have "grants ''users:*'' ''users:*:own''" "grants ''users:*:own'' ''users:read:own''"
    by (simp_all add: grants_def str_split_def)
  then show ?thesis
    using permission_grants_preorder [of "''users:*''" "''users:read:own''" "''users:*:own''"]
    by (simp add: grants_def str_split_def)
qed

section \<open>The role walk\<close>

definition role_edge :: "role_registry \<Rightarrow> string \<Rightarrow> string \<Rightarrow> bool" where
  "role_edge reg n p = (\<exists>r. registry_role reg n = Some r \<and> p \<in> set (role_parents r))"

definition perms_of :: "role_registry \<Rightarrow> string \<Rightarrow> permission set" where
  "perms_of reg n = (case registry_role reg n of None \<Rightarrow> {} | Some r \<Rightarrow> set (role_permissions r))"

definition walk_post :: "role_registry \<Rightarrow> string list \<Rightarrow> string set \<Rightarrow> permission set \<Rightarrow> permission set \<times> string set \<Rightarrow> bool" where
  "walk_post reg stack visited perms res =
     (case res of (ps, vs) \<Rightarrow>
        visited \<union> set stack \<subseteq> vs
        \<and> (\<forall>n \<in> vs - visited. \<exists>m \<in> set stack. (role_edge reg)\<^sup>*\<^sup>* m n)
        \<and> (\<forall>n \<in> vs - visited. \<forall>p. role_edge reg n p \<longrightarrow> p \<in> vs)
        \<and> ps = perms \<union> (\<Union>n \<in> vs - visited. perms_of reg n))"

lemma walk_post_visit:
  assumes "name \<notin> visited" and "walk_post reg stack' (insert name visited) (perms \<union> perms_of reg name) res"
    and "set stack' = {p. role_edge reg name p} \<union> set stack"
  shows "walk_post reg (name # stack) visited perms res"
proof -
  obtain ps vs where res: "res = (ps, vs)" by fastforce
  have post: "insert name visited \<union> set stack' \<subseteq> vs"
    "\<And>n. n \<in> vs - insert name visited \<Longrightarrow> \<exists>m \<in> set stack'. (role_edge reg)\<^sup>*\<^sup>* m n"
    "\<And>n p. n \<in> vs - insert name visited \<Longrightarrow> role_edge reg n p \<Longrightarrow> p \<in> vs"
    "ps = perms \<union> perms_of reg name \<union> (\<Union>n \<in> vs - insert name visited. perms_of reg n)"
    using assms(2) by (simp_all add: walk_post_def res)
  have vs: "vs - visited = insert name (vs - insert name visited)"
    using post(1) assms(1) by auto
  have "\<exists>m \<in> set (name # stack). (role_edge reg)\<^sup>*\<^sup>* m n" if n: "n \<in> vs - visited" for n
  proof (cases "n = name")
    case False
    then obtain m where m: "m \<in> set stack'" and path: "(role_edge reg)\<^sup>*\<^sup>* m n"
      using n post(2) [of n] by auto
    show ?thesis
    proof (cases "role_edge reg name m")
      case True
      then have "(role_edge reg)\<^sup>*\<^sup>* name n" using path by (rule converse_rtranclp_into_rtranclp)
      then show ?thesis by simp
    next
      case False
      then have "m \<in> set stack" using m assms(3) by simp
      then show ?thesis using path by simp blast
    qed
  qed simp
  moreover have "p \<in> vs" if "n \<in> vs - visited" "role_edge reg n p" for n p
  proof (cases "n = name")
    case True
    with that(2) assms(3) post(1) show ?thesis by blast
  next
    case False
    with that post(3) [of n p] show ?thesis by simp
  qed
  moreover have "ps = perms \<union> (\<Union>n \<in> vs - visited. perms_of reg n)"
    using post(4) vs by auto
  ultimately show ?thesis
    using post(1) assms(3) by (auto simp: walk_post_def res)
qed

lemma walk_post: "walk_post reg stack visited perms (walk reg stack visited perms)"
proof (induction reg stack visited perms rule: walk.induct)
  case (1 reg visited perms)
  then show ?case by (simp add: walk_post_def)
next
  case (2 reg name stack visited perms)
  show ?case
  proof (cases "name \<in> visited")
    case True
    then have "walk_post reg stack visited perms (walk reg stack visited perms)"
      by (rule 2(1))
    with True show ?thesis by (auto simp: walk_post_def split: prod.splits)
  next
    case False
    show ?thesis
    proof (cases "registry_role reg name")
      case None
      then have "perms_of reg name = {}" "{p. role_edge reg name p} = {}"
        by (simp_all add: perms_of_def role_edge_def)
      with walk_post_visit [OF False, of reg stack perms _ stack] 2(2) [OF False None] None False
      show ?thesis by simp
    next
      case (Some r)
      then have "perms_of reg name = set (role_permissions r)"
        "{p. role_edge reg name p} = set (role_parents r)"
        by (simp_all add: perms_of_def role_edge_def)
      with walk_post_visit [OF False, of reg "rev (role_parents r) @ stack" perms _ stack]
        2(3) [OF False Some] Some False
      show ?thesis by simp
    qed
  qed
qed

text \<open>C11: the effective permissions of a list of roles are exactly the permissions of the roles
  reachable from them by inheritance, in every registry, with inheritance cycles and parents that
  are not defined included; the walk always ends.\<close>

theorem effective_permissions_reachable:
  "effective_permissions reg names = (\<Union>n \<in> {n. \<exists>m \<in> set names. (role_edge reg)\<^sup>*\<^sup>* m n}. perms_of reg n)"
proof -
  obtain ps vs where w: "walk reg (rev names) {} {} = (ps, vs)" by fastforce
  have post: "set names \<subseteq> vs" "\<forall>n \<in> vs. \<exists>m \<in> set names. (role_edge reg)\<^sup>*\<^sup>* m n"
    "\<forall>n \<in> vs. \<forall>p. role_edge reg n p \<longrightarrow> p \<in> vs" "ps = (\<Union>n \<in> vs. perms_of reg n)"
    using walk_post [of reg "rev names" "{}" "{}"] w by (simp_all add: walk_post_def)
  have "n \<in> vs" if "(role_edge reg)\<^sup>*\<^sup>* m n" and "m \<in> set names" for m n
    using that post(1,3) by (induction rule: rtranclp_induct) auto
  with post(2) have "vs = {n. \<exists>m \<in> set names. (role_edge reg)\<^sup>*\<^sup>* m n}" by blast
  with post(4) w show ?thesis by (simp add: effective_permissions_def)
qed

end
