(* ===== verification/Abac.thy ===== *)
theory Abac
  imports ErrorKernel "HOL-Library.Multiset"
begin

text \<open>
  Attribute-based access control (\<open>klauthed-security/src/authz/policy.rs\<close>): attribute values,
  conditions and their evaluation, and policy sets with deny-overrides and default deny.
\<close>

datatype attr_value = AStr string | AInt int | ABool bool | AList "string list"

type_synonym attributes = "string \<rightharpoonup> attr_value"

definition attributes_new :: attributes where
  "attributes_new = Map.empty"

definition attributes_with :: "string \<Rightarrow> attr_value \<Rightarrow> attributes \<Rightarrow> attributes" where
  "attributes_with k v m = m(k \<mapsto> v)"

datatype condition =
    Always
  | CEq string attr_value
  | CIn string "string list"
  | CContains string string
  | CPresent string
  | CAll "condition list"
  | CAny "condition list"
  | CNot condition

fun cond_evaluate :: "condition \<Rightarrow> attributes \<Rightarrow> bool" where
  "cond_evaluate Always attrs = True"
| "cond_evaluate (CEq key v) attrs = (attrs key = Some v)"
| "cond_evaluate (CIn key vals) attrs =
     (case attrs key of Some (AStr s) \<Rightarrow> s \<in> set vals | _ \<Rightarrow> False)"
| "cond_evaluate (CContains key item) attrs =
     (case attrs key of Some (AList l) \<Rightarrow> item \<in> set l | _ \<Rightarrow> False)"
| "cond_evaluate (CPresent key) attrs = (attrs key \<noteq> None)"
| "cond_evaluate (CAll cs) attrs = list_all (\<lambda>c. cond_evaluate c attrs) cs"
| "cond_evaluate (CAny cs) attrs = list_ex (\<lambda>c. cond_evaluate c attrs) cs"
| "cond_evaluate (CNot c) attrs = (\<not> cond_evaluate c attrs)"

datatype effect = Allow | Deny

record policy =
  pol_effect :: effect
  pol_condition :: condition

definition policy_allow :: "condition \<Rightarrow> policy" where
  "policy_allow c = \<lparr>pol_effect = Allow, pol_condition = c\<rparr>"

definition policy_deny :: "condition \<Rightarrow> policy" where
  "policy_deny c = \<lparr>pol_effect = Deny, pol_condition = c\<rparr>"

datatype decision = Permit | DenyDecision

definition is_permit :: "decision \<Rightarrow> bool" where
  "is_permit d = (case d of Permit \<Rightarrow> True | DenyDecision \<Rightarrow> False)"

type_synonym policy_set = "policy list"

definition policy_push :: "policy \<Rightarrow> policy_set \<Rightarrow> policy_set" where
  "policy_push p ps = ps @ [p]"

text \<open>The loop of \<open>PolicySet::evaluate\<close> with its \<open>permitted\<close> flag.\<close>

fun policy_loop :: "policy list \<Rightarrow> attributes \<Rightarrow> bool \<Rightarrow> decision" where
  "policy_loop [] attrs permitted = (if permitted then Permit else DenyDecision)"
| "policy_loop (p # ps) attrs permitted =
     (if cond_evaluate (pol_condition p) attrs
      then (case pol_effect p of Deny \<Rightarrow> DenyDecision | Allow \<Rightarrow> policy_loop ps attrs True)
      else policy_loop ps attrs permitted)"

definition policy_evaluate :: "policy_set \<Rightarrow> attributes \<Rightarrow> decision" where
  "policy_evaluate ps attrs = policy_loop ps attrs False"

definition policy_authorize :: "policy_set \<Rightarrow> attributes \<Rightarrow> security_error + unit" where
  "policy_authorize ps attrs =
     (case policy_evaluate ps attrs of Permit \<Rightarrow> Inr () | DenyDecision \<Rightarrow> Inl SE_Forbidden)"

section \<open>Facts\<close>

definition applies :: "policy \<Rightarrow> effect \<Rightarrow> attributes \<Rightarrow> bool" where
  "applies p e attrs = (pol_effect p = e \<and> cond_evaluate (pol_condition p) attrs)"

lemma policy_loop_permit:
  "policy_loop ps attrs b = Permit \<longleftrightarrow>
   (b \<or> (\<exists>p \<in> set ps. applies p Allow attrs)) \<and> \<not> (\<exists>p \<in> set ps. applies p Deny attrs)"
proof (induction ps arbitrary: b)
  case (Cons p ps)
  then show ?case by (cases "pol_effect p") (auto simp: applies_def)
qed simp

lemma policy_evaluate_permit:
  "policy_evaluate ps attrs = Permit \<longleftrightarrow>
   (\<exists>p \<in> set ps. applies p Allow attrs) \<and> \<not> (\<exists>p \<in> set ps. applies p Deny attrs)"
  by (simp add: policy_evaluate_def policy_loop_permit)

lemma policy_evaluate_perm:
  "mset ps = mset qs \<Longrightarrow> policy_evaluate ps attrs = policy_evaluate qs attrs"
  using policy_evaluate_permit [of ps attrs] policy_evaluate_permit [of qs attrs]
  by (metis (full_types) decision.exhaust mset_eq_setD)

text \<open>C12: deny overrides, default deny. A policy set permits exactly when some allow policy applies
  and no deny policy does; in particular the empty set and a set in which nothing applies deny,
  the order of the policies never matters, adding a deny policy never permits more, and
  \<open>authorize\<close> answers accordingly.\<close>

theorem policy_deny_overrides:
  "(policy_evaluate ps attrs = Permit \<longleftrightarrow>
      (\<exists>p \<in> set ps. applies p Allow attrs) \<and> (\<forall>p \<in> set ps. \<not> applies p Deny attrs))
   \<and> (mset ps = mset qs \<longrightarrow> policy_evaluate ps attrs = policy_evaluate qs attrs)
   \<and> (policy_evaluate (policy_push (policy_deny c) ps) attrs = Permit \<longrightarrow> policy_evaluate ps attrs = Permit)
   \<and> (policy_authorize ps attrs = Inr () \<longleftrightarrow> policy_evaluate ps attrs = Permit)"
proof (intro conjI impI)
  show "policy_evaluate ps attrs = Permit \<longleftrightarrow>
      (\<exists>p \<in> set ps. applies p Allow attrs) \<and> (\<forall>p \<in> set ps. \<not> applies p Deny attrs)"
    by (simp add: policy_evaluate_permit)
  show "policy_evaluate ps attrs = policy_evaluate qs attrs" if "mset ps = mset qs"
    using that by (rule policy_evaluate_perm)
  show "policy_evaluate ps attrs = Permit" if "policy_evaluate (policy_push (policy_deny c) ps) attrs = Permit"
    using that by (auto simp: policy_evaluate_permit policy_push_def applies_def policy_deny_def)
  show "policy_authorize ps attrs = Inr () \<longleftrightarrow> policy_evaluate ps attrs = Permit"
    by (simp add: policy_authorize_def split: decision.splits)
qed

theorem policy_deny_overrides_witness:
  "policy_evaluate [policy_allow Always, policy_deny (CEq ''level'' (AInt 0))] [''level'' \<mapsto> AInt 0] = DenyDecision"
  using policy_deny_overrides [of "[policy_allow Always, policy_deny (CEq ''level'' (AInt 0))]" "[''level'' \<mapsto> AInt 0]"
      "[policy_deny (CEq ''level'' (AInt 0)), policy_allow Always]" Always]
  by (simp add: policy_evaluate_def policy_allow_def policy_deny_def)

end
