(* ===== verification/Mfa.thy ===== *)
theory Mfa
  imports Tokens "HOL-Library.Multiset"
begin

text \<open>
  Recovery codes (\<open>klauthed-security/src/mfa/recovery.rs\<close>) and API keys
  (\<open>klauthed-security/src/apikey/key.rs\<close>). \<open>hex_ok\<close> is the documented behaviour of the \<open>hex\<close>
  crate: lower-case hexadecimal digits.
\<close>

definition DEFAULT_RECOVERY_CODE_COUNT :: nat where
  "DEFAULT_RECOVERY_CODE_COUNT = 10"

definition CODE_ENTROPY_BYTES :: nat where
  "CODE_ENTROPY_BYTES = 8"

definition sha256_hex :: "crypto \<Rightarrow> string \<Rightarrow> string" where
  "sha256_hex C v = hex_encode C (sha256 C (as_bytes v))"

definition is_ascii_alphanumeric :: "char \<Rightarrow> bool" where
  "is_ascii_alphanumeric c =
     (let b = (of_char c :: nat) in 48 \<le> b \<and> b \<le> 57 \<or> 65 \<le> b \<and> b \<le> 90 \<or> 97 \<le> b \<and> b \<le> 122)"

definition to_ascii_lowercase :: "char \<Rightarrow> char" where
  "to_ascii_lowercase c =
     (let b = (of_char c :: nat) in if 65 \<le> b \<and> b \<le> 90 then char_of (b + 32) else c)"

definition normalize :: "string \<Rightarrow> string" where
  "normalize code = map to_ascii_lowercase (filter is_ascii_alphanumeric code)"

text \<open>\<open>slice::chunks(4)\<close>.\<close>

function chunks4 :: "string \<Rightarrow> string list" where
  "chunks4 s = (if s = [] then [] else take 4 s # chunks4 (drop 4 s))"
  by pat_completeness auto
termination
  by (relation "measure length") simp_all

declare chunks4.simps [simp del]

definition group_code :: "string \<Rightarrow> string" where
  "group_code raw = str_join ''-'' (chunks4 raw)"

text \<open>\<open>Vec::swap_remove\<close>.\<close>

definition swap_remove :: "nat \<Rightarrow> 'a list \<Rightarrow> 'a list" where
  "swap_remove i xs = butlast (xs[i := last xs])"

type_synonym recovery_code_set = "string list"

fun generate_codes :: "crypto \<Rightarrow> nat \<Rightarrow> nat \<Rightarrow> (security_error + string list \<times> string list) \<times> nat" where
  "generate_codes C 0 i = (Inr ([], []), i)"
| "generate_codes C (Suc n) i =
     (case random_bytes C CODE_ENTROPY_BYTES i of
        (Inl e, i') \<Rightarrow> (Inl e, i')
      | (Inr bs, i') \<Rightarrow>
          (let raw = hex_encode C bs
           in case generate_codes C n i' of
                (Inl e, i'') \<Rightarrow> (Inl e, i'')
              | (Inr (codes, hashes), i'') \<Rightarrow>
                  (Inr (group_code raw # codes, sha256_hex C raw # hashes), i'')))"

fun position :: "('a \<Rightarrow> bool) \<Rightarrow> 'a list \<Rightarrow> nat option" where
  "position P [] = None"
| "position P (x # xs) = (if P x then Some 0 else map_option Suc (position P xs))"

definition verify_and_consume :: "crypto \<Rightarrow> string \<Rightarrow> recovery_code_set \<Rightarrow> bool \<times> recovery_code_set" where
  "verify_and_consume C presented hashes =
     (let candidate = sha256_hex C (normalize presented)
      in case position (\<lambda>stored. constant_time_eq C (as_bytes candidate) (as_bytes stored)) hashes of
           None \<Rightarrow> (False, hashes)
         | Some index \<Rightarrow> (True, swap_remove index hashes))"

section \<open>API keys\<close>

definition KEY_ENTROPY_BYTES :: nat where
  "KEY_ENTROPY_BYTES = 32"

definition generate_api_key :: "crypto \<Rightarrow> string \<Rightarrow> nat \<Rightarrow> (security_error + string \<times> string) \<times> nat" where
  "generate_api_key C pre i =
     (case random_token C KEY_ENTROPY_BYTES i of
        (Inl e, i') \<Rightarrow> (Inl e, i')
      | (Inr secret, i') \<Rightarrow>
          (let key = pre @ ''_'' @ secret in (Inr (key, sha256_hex C key), i')))"

definition verify_api_key :: "crypto \<Rightarrow> string \<Rightarrow> string \<Rightarrow> bool" where
  "verify_api_key C presented stored_hash =
     (let computed = sha256_hex C presented in constant_time_eq C (as_bytes computed) (as_bytes stored_hash))"

section \<open>Facts\<close>

lemma position_Some: "position P xs = Some i \<Longrightarrow> i < length xs \<and> P (xs ! i)"
  by (induction xs arbitrary: i) (auto split: if_splits)

lemma position_None: "position P xs = None \<longleftrightarrow> (\<forall>x \<in> set xs. \<not> P x)"
  by (induction xs) auto

lemma mset_swap_remove:
  assumes "i < length xs"
  shows "mset (swap_remove i xs) = mset xs - {#xs ! i#}"
proof -
  have ne: "xs[i := last xs] \<noteq> []" using assms by auto
  have "mset (swap_remove i xs) = mset (xs[i := last xs]) - {#last (xs[i := last xs])#}"
    unfolding swap_remove_def by (metis ne append_butlast_last_id add_diff_cancel_right' mset_append mset_single_iff_right)
  moreover have "last (xs[i := last xs]) = last xs"
    using assms by (subst last_list_update) auto
  moreover have "mset (xs[i := last xs]) = add_mset (last xs) (mset xs - {#xs ! i#})"
    using assms by (simp add: mset_update)
  ultimately show ?thesis by simp
qed

lemma verify_and_consume_iff:
  assumes "crypto_ok C" and "verify_and_consume C code hs = (b, hs')"
  shows "b = (sha256_hex C (normalize code) \<in> set hs)
    \<and> mset hs' = (if b then mset hs - {#sha256_hex C (normalize code)#} else mset hs)"
  using assms
  by (auto simp: verify_and_consume_def Let_def constant_time_eq_iff position_None
      mset_swap_remove dest!: position_Some split: option.splits)

text \<open>The successes along a sequence of presented codes.\<close>

fun successes :: "crypto \<Rightarrow> string \<Rightarrow> string list \<Rightarrow> recovery_code_set \<Rightarrow> nat" where
  "successes C h [] hs = 0"
| "successes C h (code # codes) hs =
     (case verify_and_consume C code hs of
        (b, hs') \<Rightarrow> (if b \<and> sha256_hex C (normalize code) = h then 1 else 0) + successes C h codes hs')"

lemma successes_bounded:
  "crypto_ok C \<Longrightarrow> successes C h codes hs \<le> count (mset hs) h"
proof (induction codes arbitrary: hs)
  case (Cons code codes)
  obtain b hs' where v: "verify_and_consume C code hs = (b, hs')" by fastforce
  note eff = verify_and_consume_iff [OF Cons.prems v]
  have "(if b \<and> sha256_hex C (normalize code) = h then 1 else 0) + count (mset hs') h \<le> count (mset hs) h"
    using eff by (auto simp: Suc_le_eq)
  with Cons.IH [OF Cons.prems, of hs'] v show ?case by simp
qed simp

definition hex_ok :: "crypto \<Rightarrow> bool" where
  "hex_ok C = (\<forall>bs. set (hex_encode C bs) \<subseteq> set HEX_DIGITS)"

lemma concat_chunks4: "concat (chunks4 s) = s"
proof (induction s rule: chunks4.induct)
  case (1 s)
  then show ?case by (subst chunks4.simps) simp
qed

lemma normalize_append: "normalize (a @ b) = normalize a @ normalize b"
  by (simp add: normalize_def)

lemma normalize_join: "normalize (str_join ''-'' ws) = normalize (concat ws)"
  by (induction "''-''" ws rule: str_join.induct)
    (simp_all add: normalize_append, simp add: normalize_def is_ascii_alphanumeric_def)

lemma normalize_hex: "set raw \<subseteq> set HEX_DIGITS \<Longrightarrow> normalize raw = raw"
  by (induction raw)
    (auto simp: HEX_DIGITS_def normalize_def is_ascii_alphanumeric_def to_ascii_lowercase_def)

lemma normalize_group: "set raw \<subseteq> set HEX_DIGITS \<Longrightarrow> normalize (group_code raw) = raw"
  by (simp add: group_code_def normalize_join concat_chunks4 normalize_hex)

lemma generate_codes_match:
  "hex_ok C \<Longrightarrow> generate_codes C n i = (Inr (codes, hashes), i') \<Longrightarrow>
   hashes = map (\<lambda>c. sha256_hex C (normalize c)) codes \<and> length codes = n"
  by (induction n arbitrary: i codes hashes)
    (auto simp: Let_def hex_ok_def normalize_group split: prod.splits sum.splits)

text \<open>The stored set after a sequence of attempts.\<close>

definition after_attempts :: "crypto \<Rightarrow> string list \<Rightarrow> recovery_code_set \<Rightarrow> recovery_code_set" where
  "after_attempts C attempts hs = fold (\<lambda>code hs. snd (verify_and_consume C code hs)) attempts hs"

lemma attempt_count:
  assumes "crypto_ok C"
  shows "count (mset (snd (verify_and_consume C code hs))) h
    = count (mset hs) h - of_bool (sha256_hex C (normalize code) = h)"
  using verify_and_consume_iff [OF assms, of code hs]
  by (cases "verify_and_consume C code hs") (auto, metis count_mset_0_iff diff_0_eq_0)

lemma after_attempts_count:
  "crypto_ok C \<Longrightarrow> count (mset (after_attempts C attempts hs)) h
    = count (mset hs) h - count (mset (map (\<lambda>x. sha256_hex C (normalize x)) attempts)) h"
proof (induction attempts arbitrary: hs)
  case (Cons x attempts)
  from Cons.IH [OF Cons.prems, of "snd (verify_and_consume C x hs)"] show ?case
    by (simp add: after_attempts_def attempt_count [OF Cons.prems])
qed (simp add: after_attempts_def)

lemma accepted_iff_count:
  "crypto_ok C \<Longrightarrow> fst (verify_and_consume C code hs) \<longleftrightarrow> 0 < count (mset hs) (sha256_hex C (normalize code))"
  using verify_and_consume_iff [of C code hs "fst (verify_and_consume C code hs)" "snd (verify_and_consume C code hs)"] by simp

text \<open>C16: recovery codes work once. Every code of a freshly generated set is accepted as printed, also
  after any attempts with other codes (codes with another hash), successful or not; and once it has
  been presented it is refused for ever, whatever is presented in between, provided the hashes of
  the set are distinct. In general a code is accepted at most as often as its hash was stored, and an
  accepted attempt removes exactly one stored hash while a rejected one changes nothing.\<close>

theorem recovery_codes_single_use:
  assumes "crypto_ok C" and "hex_ok C"
    and "generate_codes C n i = (Inr (codes, hashes), i')"
  shows "length codes = n
    \<and> (\<forall>c \<in> set codes. fst (verify_and_consume C c hashes)
        \<and> (\<forall>xs. (\<forall>x \<in> set xs. sha256_hex C (normalize x) \<noteq> sha256_hex C (normalize c)) \<longrightarrow>
             fst (verify_and_consume C c (after_attempts C xs hashes)))
        \<and> (\<forall>xs ys. distinct hashes \<longrightarrow> \<not> fst (verify_and_consume C c (after_attempts C (xs @ c # ys) hashes))))
    \<and> successes C h attempts hashes \<le> count (mset hashes) h
    \<and> length (snd (verify_and_consume C c hashes))
        = (if fst (verify_and_consume C c hashes) then length hashes - 1 else length hashes)"
proof -
  note gen = generate_codes_match [OF assms(2,3)]
  note accept = accepted_iff_count [OF assms(1)] and count = after_attempts_count [OF assms(1)]
  have in_set: "sha256_hex C (normalize c) \<in> set hashes" if "c \<in> set codes" for c using gen that by simp
  then have "fst (verify_and_consume C c hashes)" if "c \<in> set codes" for c
    using that by (simp add: accept count_greater_zero_iff)
  moreover have "fst (verify_and_consume C c (after_attempts C xs hashes))"
    if "c \<in> set codes" and "\<forall>x \<in> set xs. sha256_hex C (normalize x) \<noteq> sha256_hex C (normalize c)" for c xs
  proof -
    have "count (mset (map (\<lambda>x. sha256_hex C (normalize x)) xs)) (sha256_hex C (normalize c)) = 0"
      using that(2) by (auto simp: count_eq_zero_iff)
    then show ?thesis using in_set [OF that(1)] by (simp add: accept count count_greater_zero_iff)
  qed
  moreover have "\<not> fst (verify_and_consume C c (after_attempts C (xs @ c # ys) hashes))" if "distinct hashes" for c xs ys
    using that distinct_count_atmost_1 [of hashes] by (simp add: accept count)
  moreover have "length (snd (verify_and_consume C c hashes))
      = (if fst (verify_and_consume C c hashes) then length hashes - 1 else length hashes)"
    using verify_and_consume_iff [OF assms(1), of c hashes]
    by (cases "verify_and_consume C c hashes")
      (metis fst_conv set_mset_mset size_Diff_singleton size_mset snd_conv)
  ultimately show ?thesis
    using gen successes_bounded [OF assms(1), of h attempts hashes] by (intro conjI ballI allI impI) simp_all
qed

text \<open>An issued API key verifies against the hash stored for it, and a presented key verifies
  against a stored hash exactly when it hashes to it.\<close>

theorem api_key_verifies:
  assumes "crypto_ok C"
  shows "(generate_api_key C pre i = (Inr (key, stored), i') \<longrightarrow>
            verify_api_key C key stored \<and> (\<exists>secret. key = pre @ ''_'' @ secret))
      \<and> (verify_api_key C presented h \<longleftrightarrow> sha256_hex C presented = h)"
  using assms
  by (auto simp: generate_api_key_def verify_api_key_def constant_time_eq_iff Let_def split: prod.splits sum.splits)

lemma hex_ok_demo: "hex_ok demo_crypto"
proof -
  have "HEX_DIGITS ! n \<in> set HEX_DIGITS" if "n < 16" for n
    using that by (intro nth_mem) (simp add: HEX_DIGITS_def)
  moreover have "unat b div 16 < 16" "unat b mod 16 < 16" for b :: u8
    using unsigned_less [where 'a = nat, of b] by auto
  ultimately show ?thesis
    by (auto simp: hex_ok_def demo_crypto_def hex_lower_def)
qed

lemma demo_raw: "hex_lower (replicate 8 0) = ''0000000000000000''"
proof -
  have "replicate 8 (0 :: u8) = [0, 0, 0, 0, 0, 0, 0, 0]"
    by (simp add: numeral_eq_Suc)
  then show ?thesis by (simp add: hex_lower_def HEX_DIGITS_def)
qed

lemma demo_group: "group_code ''0000000000000000'' = ''0000-0000-0000-0000''"
  by (simp add: group_code_def chunks4.simps)

lemma demo_draw:
  "random_bytes demo_crypto 8 0 = (Inr (replicate 8 0), 1)" "hex_encode demo_crypto = hex_lower"
  by (simp_all add: random_bytes_def demo_crypto_def)

lemma demo_codes:
  "generate_codes demo_crypto 1 0
   = (Inr ([''0000-0000-0000-0000''], [sha256_hex demo_crypto ''0000000000000000'']), 1)"
  by (simp add: CODE_ENTROPY_BYTES_def demo_draw demo_raw demo_group)

theorem recovery_codes_single_use_witness:
  "fst (verify_and_consume demo_crypto ''0000-0000-0000-0000'' [sha256_hex demo_crypto ''0000000000000000''])
   \<and> \<not> fst (verify_and_consume demo_crypto ''0000-0000-0000-0000''
        (after_attempts demo_crypto [''1111'', ''0000-0000-0000-0000'', ''2222''] [sha256_hex demo_crypto ''0000000000000000'']))"
proof -
  let ?c = "''0000-0000-0000-0000''" and ?hs = "[sha256_hex demo_crypto ''0000000000000000'']"
  from recovery_codes_single_use [OF crypto_ok_demo hex_ok_demo demo_codes]
  have "fst (verify_and_consume demo_crypto ?c ?hs)"
    and "\<forall>xs ys. distinct ?hs \<longrightarrow> \<not> fst (verify_and_consume demo_crypto ?c (after_attempts demo_crypto (xs @ ?c # ys) ?hs))"
    by simp_all
  from this(1) this(2) [rule_format, of "[''1111'']" "[''2222'']"] show ?thesis by simp
qed

theorem api_key_verifies_witness: "verify_api_key demo_crypto ''kl_k'' (sha256_hex demo_crypto ''kl_k'')"
  using api_key_verifies [OF crypto_ok_demo, of _ _ _ _ _ "''kl_k''" "sha256_hex demo_crypto ''kl_k''"] by simp

end
