(* ===== verification/RateLimit.thy ===== *)
theory RateLimit
  imports ErrorKernel Instants
begin

text \<open>
  The fixed-window rate limiter (\<open>klauthed-data/src/rate_limit\<close>). Counters are \<open>u32\<close>; the window
  is a \<open>std::time::Duration\<close>, a natural number of nanoseconds, truncated to milliseconds the way
  the code does. The token bucket works on \<open>f64\<close> and is not modelled.
\<close>

datatype rate_limit_outcome = Allowed u32 | Limited nat

definition is_allowed :: "rate_limit_outcome \<Rightarrow> bool" where
  "is_allowed r = (case r of Allowed _ \<Rightarrow> True | Limited _ \<Rightarrow> False)"

record rl_window =
  win_started :: timestamp
  win_count :: u32

type_synonym rate_limiter = "string \<rightharpoonup> rl_window"

definition rl_new :: rate_limiter where
  "rl_new = Map.empty"

definition window_core :: "nat \<Rightarrow> duration" where
  "window_core window = milliseconds (min (int (window div 1000000)) (2 ^ 63 - 1))"

text \<open>The entry of the key, created or reset when its window has elapsed.\<close>

definition current_window :: "timestamp \<Rightarrow> duration \<Rightarrow> rl_window option \<Rightarrow> rl_window" where
  "current_window now wc w =
     (let entry = (case w of None \<Rightarrow> \<lparr>win_started = now, win_count = 0\<rparr> | Some e \<Rightarrow> e)
      in if wc \<le> duration_since now (win_started entry)
         then entry\<lparr>win_started := now, win_count := 0\<rparr> else entry)"

definition rl_check ::
  "timestamp \<Rightarrow> string \<Rightarrow> u32 \<Rightarrow> nat \<Rightarrow> rate_limiter \<Rightarrow> (data_error + rate_limit_outcome) \<times> rate_limiter" where
  "rl_check now key maximum window m =
     (let mx = max maximum 1;
          wc = window_core window;
          entry = current_window now wc (m key)
      in if mx \<le> win_count entry
         then (let elapsed = duration_since now (win_started entry);
                   remaining = wc - elapsed
               in (Inr (Limited (nat (max (whole_milliseconds remaining) 0))), m(key \<mapsto> entry)))
         else (let entry = entry\<lparr>win_count := win_count entry + 1\<rparr>
               in (Inr (Allowed (mx - win_count entry)), m(key \<mapsto> entry))))"

section \<open>Admission count\<close>

text \<open>The admissions of \<open>k\<close> along checks at the given instants, on any keys, with one limit and one
  window.\<close>

fun admitted :: "string \<Rightarrow> u32 \<Rightarrow> nat \<Rightarrow> (timestamp \<times> string) list \<Rightarrow> rate_limiter \<Rightarrow> nat" where
  "admitted k mx window [] m = 0"
| "admitted k mx window ((t, j) # cs) m =
     (case rl_check t j mx window m of
        (r, m') \<Rightarrow> (if j = k \<and> (\<exists>x. r = Inr (Allowed x)) then 1 else 0) + admitted k mx window cs m')"

definition limit :: "u32 \<Rightarrow> nat" where
  "limit mx = max (unat mx) 1"

lemma unat_max_1: "unat (max mx 1 :: u32) = limit mx"
  by (auto simp: limit_def max_def word_le_nat_alt)

lemma rl_check_other: "j \<noteq> k \<Longrightarrow> snd (rl_check t j mx window m) k = m k"
  by (simp add: rl_check_def Let_def)

text \<open>One check, on the entry as a start instant and a count.\<close>

definition entry_of :: "timestamp \<Rightarrow> rl_window option \<Rightarrow> timestamp \<times> nat" where
  "entry_of now w = (case w of None \<Rightarrow> (now, 0) | Some e \<Rightarrow> (win_started e, unat (win_count e)))"

definition admit_step :: "nat \<Rightarrow> duration \<Rightarrow> timestamp \<Rightarrow> timestamp \<times> nat \<Rightarrow> bool \<times> timestamp \<times> nat" where
  "admit_step lim wc now e =
     (let (s, c) = (if wc \<le> now - fst e then (now, 0) else e)
      in if lim \<le> c then (False, s, c) else (True, s, Suc c))"

lemma current_window_entry:
  "(if wc \<le> now - fst (entry_of now w) then (now, 0) else entry_of now w)
   = (win_started (current_window now wc w), unat (win_count (current_window now wc w)))"
  by (auto simp: entry_of_def current_window_def duration_since_def Let_def split: option.splits)

lemma u32_increment:
  fixes x y :: u32
  assumes "x < y"
  shows "unat (x + 1) = Suc (unat x)" and "x + 1 \<le> y"
proof -
  have "unat x < unat y" using assms by (simp add: word_less_nat_alt)
  then have "Suc (unat x) < 2 ^ 32" using unsigned_less [where 'a = nat, of y] by simp
  then show "unat (x + 1) = Suc (unat x)"
    by (simp add: unat_word_ariths)
  then show "x + 1 \<le> y"
    using \<open>unat x < unat y\<close> by (simp add: word_le_nat_alt)
qed

lemma rl_check_step:
  assumes "rl_check now k mx window m = (r, m')"
    and "admit_step (limit mx) (window_core window) now (entry_of now (m k)) = (b, s, c)"
  shows "(\<exists>x. r = Inr (Allowed x)) = b \<and> entry_of t (m' k) = (s, c)
    \<and> (\<forall>x. r = Inr (Allowed x) \<longrightarrow> unat x = limit mx - c)"
proof -
  define f where "f = current_window now (window_core window) (m k)"
  have step: "(b, s, c) = (if limit mx \<le> unat (win_count f) then (False, win_started f, unat (win_count f))
      else (True, win_started f, Suc (unat (win_count f))))"
    using assms(2) unfolding admit_step_def current_window_entry f_def by (simp add: Let_def)
  have cmp: "max mx 1 \<le> win_count f \<longleftrightarrow> limit mx \<le> unat (win_count f)"
    by (simp only: word_le_nat_alt unat_max_1)
  show ?thesis
  proof (cases "max mx 1 \<le> win_count f")
    case True
    with assms(1) step cmp show ?thesis
      by (auto simp: rl_check_def f_def [symmetric] entry_of_def Let_def)
  next
    case False
    then have "win_count f < max mx 1" by (simp only: not_le)
    note inc = u32_increment [OF this]
    have "unat (max mx 1 - (win_count f + 1)) = limit mx - Suc (unat (win_count f))"
      using inc by (simp add: unat_sub unat_max_1)
    with False assms(1) step cmp inc show ?thesis
      by (auto simp: rl_check_def f_def [symmetric] entry_of_def Let_def simp del: max_less_iff_conj)
  qed
qed

lemma admit_step_bound:
  assumes "admit_step lim wc t (s, c) = (b, s', c')" and "0 < wc" and "0 < lim" and "c \<le> lim" and "s \<le> t" and "t \<le> T"
  shows "(if b then 1 else 0) + ((lim - c') + lim * nat ((T - s') div wc)) \<le> (lim - c) + lim * nat ((T - s) div wc)
    \<and> c' \<le> lim \<and> s' \<le> t"
proof (cases "wc \<le> t - s")
  case True
  then have new: "s' = t" "c' = 1" "b" using assms by (auto simp: admit_step_def)
  have "(T - t) div wc + 1 \<le> (T - s) div wc"
    using True assms(2) zdiv_mono1 [of "(T - t) + wc" "T - s" wc] div_add_self2 [of wc "T - t"] by simp
  then have "nat ((T - t) div wc) + 1 \<le> nat ((T - s) div wc)"
    using pos_imp_zdiv_nonneg_iff [OF assms(2), of "T - t"] assms(6) by linarith
  then have "lim * (nat ((T - t) div wc) + 1) \<le> lim * nat ((T - s) div wc)"
    by (rule mult_le_mono2)
  then show ?thesis using new assms(3) by simp
next
  case False
  then show ?thesis using assms by (auto simp: admit_step_def split: if_splits)
qed

lemma admitted_bound:
  assumes "0 < window_core window" and "\<forall>x \<in> set cs. fst x \<le> T" and "sorted (map fst cs)"
    and "m k = Some e" and "unat (win_count e) \<le> limit mx" and "\<forall>x \<in> set cs. win_started e \<le> fst x"
  shows "admitted k mx window cs m
    \<le> (limit mx - unat (win_count e)) + limit mx * nat ((T - win_started e) div window_core window)"
  using assms
proof (induction cs arbitrary: m e)
  case (Cons x cs)
  obtain t j where x: "x = (t, j)" by fastforce
  obtain r m' where ck: "rl_check t j mx window m = (r, m')" by fastforce
  show ?case
  proof (cases "j = k")
    case False
    then have "m' k = Some e" using rl_check_other [of j k t mx window m] ck Cons.prems(4) by simp
    with Cons.IH [of m' e] Cons.prems x ck False show ?thesis by auto
  next
    case True
    obtain b s c where st: "admit_step (limit mx) (window_core window) t (entry_of t (m k)) = (b, s, c)"
      by (metis prod_cases3)
    note step = rl_check_step [OF ck [unfolded True] st, of t]
    then obtain e' where e': "m' k = Some e'"
      using ck True by (auto simp: rl_check_def Let_def split: if_splits)
    have eq: "win_started e' = s" "unat (win_count e') = c"
      using step e' by (simp_all add: entry_of_def)
    have en: "entry_of t (m k) = (win_started e, unat (win_count e))"
      using Cons.prems(4) by (simp add: entry_of_def)
    have "limit mx > 0" by (simp add: limit_def)
    then have bd: "(if b then 1 else 0) + ((limit mx - c) + limit mx * nat ((T - s) div window_core window))
        \<le> (limit mx - unat (win_count e)) + limit mx * nat ((T - win_started e) div window_core window)
        \<and> c \<le> limit mx \<and> s \<le> t"
      using admit_step_bound [OF st [unfolded en] Cons.prems(1)] Cons.prems(2,5,6) x by auto
    have "admitted k mx window cs m' \<le> (limit mx - c) + limit mx * nat ((T - s) div window_core window)"
    proof -
      have "\<forall>y \<in> set cs. win_started e' \<le> fst y"
        using Cons.prems(3) bd eq x by force
      then show ?thesis
        using Cons.IH [of m' e'] Cons.prems(1-3) e' eq bd x by simp
    qed
    with bd step ck x True show ?thesis by auto
  qed
qed simp

text \<open>From a state in which the window of the key is over, or was never opened, by the instant \<open>t0\<close>.\<close>

lemma admitted_fresh:
  assumes "0 < window_core window" and "sorted (map fst cs)" and "\<forall>x \<in> set cs. t0 \<le> fst x \<and> fst x \<le> T"
    and "\<forall>e. m k = Some e \<longrightarrow> win_started e + window_core window \<le> t0"
  shows "admitted k mx window cs m \<le> limit mx * (1 + nat ((T - t0) div window_core window))"
  using assms
proof (induction cs arbitrary: m)
  case (Cons x cs)
  obtain t j where x: "x = (t, j)" by fastforce
  obtain r m' where ck: "rl_check t j mx window m = (r, m')" by fastforce
  show ?case
  proof (cases "j = k")
    case False
    then have "m' k = m k" using rl_check_other [of j k t mx window m] ck by simp
    with Cons x ck False show ?thesis by auto
  next
    case True
    have "limit mx > 0" by (simp add: limit_def)
    then have st: "admit_step (limit mx) (window_core window) t (entry_of t (m k)) = (True, t, 1)"
      using Cons.prems(1,3,4) x by (auto simp: admit_step_def entry_of_def split: option.splits)
    note step = rl_check_step [OF ck [unfolded True] st, of t]
    then obtain e' where e': "m' k = Some e'" "win_started e' = t" "unat (win_count e') = 1"
      using ck True by (auto simp: rl_check_def entry_of_def Let_def split: if_splits)
    have "admitted k mx window cs m' \<le> (limit mx - 1) + limit mx * nat ((T - t) div window_core window)"
      using admitted_bound [OF Cons.prems(1), of cs T m' k e' mx] Cons.prems(2,3) e' x \<open>limit mx > 0\<close> by auto
    moreover have "nat ((T - t) div window_core window) \<le> nat ((T - t0) div window_core window)"
      using Cons.prems(1,3) x by (intro nat_mono zdiv_mono1) auto
    then have "limit mx * nat ((T - t) div window_core window) \<le> limit mx * nat ((T - t0) div window_core window)"
      by (rule mult_le_mono2)
    ultimately have "Suc (admitted k mx window cs m') \<le> limit mx * (1 + nat ((T - t0) div window_core window))"
      using \<open>limit mx > 0\<close> by (simp only: distrib_left)
    then show ?thesis
      using ck x step True by simp
  qed
qed simp

text \<open>From any state the limiter can be in at the instant \<open>t0\<close>: nothing beyond the rest of the open window
  until it ends, and one window more than between fresh instants in general.\<close>

definition rl_ok :: "nat \<Rightarrow> timestamp \<Rightarrow> rate_limiter \<Rightarrow> bool" where
  "rl_ok lim t m \<longleftrightarrow> (\<forall>k e. m k = Some e \<longrightarrow> unat (win_count e) \<le> lim \<and> win_started e \<le> t)"

lemma admitted_open:
  assumes "0 < window_core window" and "sorted (map fst cs)" and "\<forall>x \<in> set cs. t0 \<le> fst x \<and> fst x \<le> T"
    and "rl_ok (limit mx) t0 m"
  shows "admitted k mx window cs m \<le> limit mx * (2 + nat ((T - t0) div window_core window))"
    and "m k = Some e \<Longrightarrow> T < win_started e + window_core window \<Longrightarrow> admitted k mx window cs m \<le> limit mx - unat (win_count e)"
proof -
  let ?wc = "window_core window"
  have old: "unat (win_count e) \<le> limit mx" "win_started e \<le> t0" if "m k = Some e" for e
    using assms(4) that by (auto simp: rl_ok_def)
  have bound: "admitted k mx window cs m \<le> (limit mx - unat (win_count e)) + limit mx * nat ((T - win_started e) div ?wc)"
    if "m k = Some e" for e
    using old [OF that] that assms(2,3) by (intro admitted_bound [OF assms(1)]) force+
  show "admitted k mx window cs m \<le> limit mx * (2 + nat ((T - t0) div ?wc))"
  proof (cases "cs = [] \<or> (\<forall>e. m k = Some e \<longrightarrow> win_started e + ?wc \<le> t0)")
    case True
    then show ?thesis
    proof
      assume "\<forall>e. m k = Some e \<longrightarrow> win_started e + ?wc \<le> t0"
      with admitted_fresh [OF assms(1-3), of m k mx] show ?thesis by simp
    qed simp
  next
    case False
    then obtain e where e: "m k = Some e" "t0 < win_started e + ?wc" and "t0 \<le> T" using assms(3) by (cases cs) force+
    have "(T - win_started e) div ?wc \<le> (T - t0) div ?wc + 1"
      using e(2) assms(1) zdiv_mono1 [of "T - win_started e" "(T - t0) + ?wc" ?wc] div_add_self2 [of ?wc "T - t0"] by simp
    then have "nat ((T - win_started e) div ?wc) \<le> nat ((T - t0) div ?wc) + 1"
      using pos_imp_zdiv_nonneg_iff [OF assms(1), of "T - t0"] \<open>t0 \<le> T\<close> by linarith
    then have "limit mx * nat ((T - win_started e) div ?wc) \<le> limit mx * (nat ((T - t0) div ?wc) + 1)" by (rule mult_le_mono2)
    with bound [OF e(1)] show ?thesis by simp
  qed
  assume e: "m k = Some e" and T: "T < win_started e + ?wc"
  have "nat ((T - win_started e) div ?wc) = 0" if "win_started e \<le> T"
    using that T by (simp add: div_pos_pos_trivial)
  moreover have "(T - win_started e) div ?wc < 0" if "T < win_started e"
    using that pos_imp_zdiv_nonneg_iff [OF assms(1), of "T - win_started e"] by linarith
  ultimately have "nat ((T - win_started e) div ?wc) = 0" by (cases "win_started e \<le> T") auto
  then show "admitted k mx window cs m \<le> limit mx - unat (win_count e)" using bound [OF e] by simp
qed

text \<open>The rate limit. For checks with one limit and one window of at least a millisecond, at
  instants in order, on any mix of keys, the number of requests of a key that a fresh limiter
  admits between the first check and an instant \<open>T\<close> is at most the limit (at least one) times one
  plus the number of whole windows that fit in between.\<close>

theorem rate_limit_bound:
  assumes "0 < window_core window" and "sorted (map fst cs)" and "\<forall>x \<in> set cs. t0 \<le> fst x \<and> fst x \<le> T"
  shows "admitted k mx window cs rl_new \<le> limit mx * (1 + nat ((T - t0) div window_core window))"
  using admitted_fresh [OF assms] by (simp add: rl_new_def)

theorem rate_limit_bound_witness:
  "admitted ''u'' 2 1000000000 [(0, ''u''), (1, ''u''), (2, ''v''), (3, ''u''), (1500000000, ''u'')] rl_new \<le> 4"
proof -
  have "0 < window_core 1000000000" "window_core 1000000000 = 1000000000"
    by (simp_all add: window_core_def milliseconds_def)
  then show ?thesis
    using rate_limit_bound [of 1000000000 "[(0, ''u''), (1, ''u''), (2, ''v''), (3, ''u''), (1500000000, ''u'')]" 0
        1500000000 "''u''" 2]
    by (simp add: limit_def)
qed

text \<open>The answer of a check. An admitted request is told how many more fit in the window; a
  refused one is told to wait no longer than the window, and not at all only when less than a
  millisecond of it is left; the count of the key never exceeds its limit.\<close>

theorem rate_limit_answer:
  assumes "rl_check now k mx window m = (r, m')" and "\<forall>e. m k = Some e \<longrightarrow> unat (win_count e) \<le> limit mx"
    and "\<forall>e. m k = Some e \<longrightarrow> win_started e \<le> now"
  shows "(\<exists>e'. m' k = Some e' \<and> unat (win_count e') \<le> limit mx \<and> win_started e' \<le> now
            \<and> (\<forall>x. r = Inr (Allowed x) \<longrightarrow> unat x = limit mx - unat (win_count e')))
     \<and> (\<forall>w. r = Inr (Limited w) \<longrightarrow> int w \<le> whole_milliseconds (window_core window))"
proof -
  obtain b s c where st: "admit_step (limit mx) (window_core window) now (entry_of now (m k)) = (b, s, c)"
    by (metis prod_cases3)
  note step = rl_check_step [OF assms(1) st, of now]
  obtain e' where e': "m' k = Some e'"
    using assms(1) by (auto simp: rl_check_def Let_def split: if_splits)
  have eq: "win_started e' = s" "unat (win_count e') = c"
    using step e' by (simp_all add: entry_of_def)
  have old: "snd (entry_of now (m k)) \<le> limit mx" "fst (entry_of now (m k)) \<le> now"
    using assms(2,3) by (auto simp: entry_of_def split: option.splits)
  have new: "c \<le> limit mx" "s \<le> now"
    using st old by (auto simp: admit_step_def limit_def Let_def split: if_splits prod.splits)
  have "int w \<le> whole_milliseconds (window_core window)" if "r = Inr (Limited w)" for w
  proof -
    define f where "f = current_window now (window_core window) (m k)"
    have f: "win_started f \<le> now"
      using assms(3) by (auto simp: f_def current_window_def Let_def split: option.splits)
    have w: "w = nat (max (whole_milliseconds (window_core window - (now - win_started f))) 0)"
      using that assms(1) by (auto simp: rl_check_def f_def [symmetric] duration_since_def Let_def split: if_splits)
    have nn: "0 \<le> window_core window"
      by (simp add: window_core_def milliseconds_def)
    then have "whole_milliseconds (window_core window - (now - win_started f)) \<le> whole_milliseconds (window_core window)"
      using f unfolding whole_milliseconds_def by (intro trunc_div_mono) auto
    moreover have "0 \<le> whole_milliseconds (window_core window)"
      using nn by (simp add: whole_milliseconds_def trunc_div_def sgn_if)
    ultimately show ?thesis using w by simp
  qed
  with e' eq new step show ?thesis by auto
qed

theorem rate_limit_answer_witness:
  "rl_check 1 ''u'' 2 1000000000 [''u'' \<mapsto> \<lparr>win_started = 0, win_count = 2\<rparr>]
     = (Inr (Limited 999), [''u'' \<mapsto> \<lparr>win_started = 0, win_count = 2\<rparr>])
   \<and> int 999 \<le> whole_milliseconds (window_core 1000000000)"
proof -
  have run: "rl_check 1 ''u'' 2 1000000000 [''u'' \<mapsto> \<lparr>win_started = 0, win_count = 2\<rparr>]
     = (Inr (Limited 999), [''u'' \<mapsto> \<lparr>win_started = 0, win_count = 2\<rparr>])"
    by (simp add: rl_check_def current_window_def window_core_def milliseconds_def duration_since_def
        whole_milliseconds_def trunc_div_nonneg Let_def)
  show ?thesis using rate_limit_answer [OF run] run by (simp add: limit_def)
qed

lemma rl_check_ok:
  assumes "rl_ok (limit mx) t m" and "t \<le> now" and "rl_check now j mx window m = (r, m')"
  shows "rl_ok (limit mx) now m'"
  unfolding rl_ok_def
proof (intro allI impI)
  fix k e assume e: "m' k = Some e"
  have old: "\<forall>e. m k = Some e \<longrightarrow> unat (win_count e) \<le> limit mx" "\<forall>e. m k = Some e \<longrightarrow> win_started e \<le> now" for k
    using assms(1,2) by (fastforce simp: rl_ok_def)+
  show "unat (win_count e) \<le> limit mx \<and> win_started e \<le> now"
  proof (cases "j = k")
    case True
    with rate_limit_answer [OF assms(3) old [of j]] e show ?thesis by auto
  next
    case False
    with rl_check_other [of j k now mx window m] assms(3) e old [of k] show ?thesis by auto
  qed
qed

end
