(* ===== verification/Saga.thy ===== *)
theory Saga
  imports ErrorKernel
begin

text \<open>
  Sagas (\<open>klauthed-data/src/saga/mod.rs\<close>): a list of steps, each an action that may fail and its
  compensation, both acting on the outside world \<open>'s\<close>.
\<close>

type_synonym 's action = "'s \<Rightarrow> (data_error + unit) \<times> 's"
type_synonym 's compensation = "'s \<Rightarrow> 's"
type_synonym 's saga = "('s action \<times> 's compensation) list"

record saga_error =
  se_step :: nat
  se_source :: data_error

definition saga_new :: "'s saga" where
  "saga_new = []"

definition saga_step :: "'s action \<Rightarrow> 's compensation \<Rightarrow> 's saga \<Rightarrow> 's saga" where
  "saga_step a c s = s @ [(a, c)]"

text \<open>The loop of \<open>execute\<close>: the index of the next step and the compensations of the completed
  ones, in the order they were pushed.\<close>

fun saga_loop :: "nat \<Rightarrow> 's compensation list \<Rightarrow> 's saga \<Rightarrow> 's \<Rightarrow> (saga_error + unit) \<times> 's" where
  "saga_loop index completed [] s = (Inr (), s)"
| "saga_loop index completed ((action, compensation) # steps) s =
     (case action s of
        (Inr _, s') \<Rightarrow> saga_loop (Suc index) (completed @ [compensation]) steps s'
      | (Inl source, s') \<Rightarrow> (Inl \<lparr>se_step = index, se_source = source\<rparr>, fold (\<lambda>c. c) (rev completed) s'))"

definition saga_execute :: "'s saga \<Rightarrow> 's \<Rightarrow> (saga_error + unit) \<times> 's" where
  "saga_execute saga s = saga_loop 0 [] saga s"

section \<open>All or nothing\<close>

text \<open>The state after the successful actions of a prefix.\<close>

fun run_actions :: "'s saga \<Rightarrow> 's \<Rightarrow> 's option" where
  "run_actions [] s = Some s"
| "run_actions ((a, c) # steps) s = (case a s of (Inr _, s') \<Rightarrow> run_actions steps s' | (Inl _, _) \<Rightarrow> None)"

lemma saga_loop_result:
  "saga_loop i comps steps s = (r, s') \<Longrightarrow>
   (r = Inr () \<and> run_actions steps s = Some s') \<or>
   (\<exists>n < length steps. \<exists>sn src sf. run_actions (take n steps) s = Some sn \<and> fst (steps ! n) sn = (Inl src, sf)
      \<and> r = Inl \<lparr>se_step = i + n, se_source = src\<rparr>
      \<and> s' = fold (\<lambda>c. c) (rev (comps @ map snd (take n steps))) sf)"
proof (induction i comps steps s rule: saga_loop.induct)
  case (1 index completed s)
  then show ?case by simp
next
  case (2 index completed a c steps s)
  obtain res s1 where a: "a s = (res, s1)" by fastforce
  show ?case
  proof (cases res)
    case (Inl src)
    with 2(2) a show ?thesis by (intro disjI2 exI [of _ 0]) auto
  next
    case (Inr u)
    with 2(2) a have "saga_loop (Suc index) (completed @ [c]) steps s1 = (r, s')" by simp
    from 2(1) [OF a [symmetric] Inr this]
    show ?thesis
    proof
      assume "r = Inr () \<and> run_actions steps s1 = Some s'"
      with a Inr show ?thesis by simp
    next
      assume "\<exists>n < length steps. \<exists>sn src sf. run_actions (take n steps) s1 = Some sn
        \<and> fst (steps ! n) sn = (Inl src, sf) \<and> r = Inl \<lparr>se_step = Suc index + n, se_source = src\<rparr>
        \<and> s' = fold (\<lambda>c. c) (rev ((completed @ [c]) @ map snd (take n steps))) sf"
      then obtain n sn src sf where n: "n < length steps" "run_actions (take n steps) s1 = Some sn"
        "fst (steps ! n) sn = (Inl src, sf)" "r = Inl \<lparr>se_step = Suc index + n, se_source = src\<rparr>"
        "s' = fold (\<lambda>c. c) (rev ((completed @ [c]) @ map snd (take n steps))) sf" by blast
      with a Inr show ?thesis by (intro disjI2 exI [of _ "Suc n"]) auto
    qed
  qed
qed

text \<open>A step is reversible when its compensation undoes its successful action.\<close>

definition reversible :: "'s action \<times> 's compensation \<Rightarrow> bool" where
  "reversible st = (\<forall>s s'. fst st s = (Inr (), s') \<longrightarrow> snd st s' = s)"

lemma undo_actions:
  "\<forall>st \<in> set steps. reversible st \<Longrightarrow> run_actions steps s = Some sn \<Longrightarrow> fold (\<lambda>c. c) (rev (map snd steps)) sn = s"
proof (induction steps s rule: run_actions.induct)
  case (2 a c steps s)
  then obtain s1 where a: "a s = (Inr (), s1)" "run_actions steps s1 = Some sn"
    by (auto split: prod.splits sum.splits)
  have "fold (\<lambda>c. c) (rev (map snd steps)) sn = s1"
    using 2(1) [of "Inr ()" s1 "()"] 2(2) a by simp
  moreover have "c s1 = s" using 2(2) a(1) by (simp add: reversible_def)
  ultimately show ?case by simp
qed simp

text \<open>C20: a saga is all or nothing. Either every action succeeded in order and the world is what
  they made it; or the error names the first step whose action failed, and exactly the completed
  steps before it were compensated, last first. When compensations undo their actions and a failed
  action leaves the world alone, a failed saga leaves the world as it found it.\<close>

theorem saga_all_or_nothing:
  assumes "saga_execute saga s = (r, s')"
  shows "(r = Inr () \<and> run_actions saga s = Some s') \<or>
    (\<exists>n < length saga. \<exists>sn src sf. r = Inl \<lparr>se_step = n, se_source = src\<rparr>
       \<and> run_actions (take n saga) s = Some sn \<and> fst (saga ! n) sn = (Inl src, sf)
       \<and> s' = fold (\<lambda>c. c) (rev (map snd (take n saga))) sf
       \<and> ((\<forall>st \<in> set saga. reversible st) \<longrightarrow> sf = sn \<longrightarrow> s' = s))"
proof -
  from saga_loop_result [OF assms [unfolded saga_execute_def]]
  consider "r = Inr () \<and> run_actions saga s = Some s'"
    | n sn src sf where "n < length saga" "run_actions (take n saga) s = Some sn" "fst (saga ! n) sn = (Inl src, sf)"
      "r = Inl \<lparr>se_step = n, se_source = src\<rparr>" "s' = fold (\<lambda>c. c) (rev (map snd (take n saga))) sf"
    by auto
  then show ?thesis
  proof cases
    case (2 n sn src sf)
    have "s' = s" if "\<forall>st \<in> set saga. reversible st" "sf = sn"
      using undo_actions [of "take n saga" s sn] that 2 by (auto dest: in_set_takeD)
    with 2 show ?thesis by blast
  qed simp
qed

theorem saga_all_or_nothing_witness:
  "saga_execute [(\<lambda>n. (Inr (), n + 2), \<lambda>n. n - 2), (\<lambda>n. (Inl (DE_Outbox ''x''), n), \<lambda>n. n)] (5 :: int)
   = (Inl \<lparr>se_step = 1, se_source = DE_Outbox ''x''\<rparr>, 5)"
proof -
  let ?saga = "[(\<lambda>n. (Inr (), n + 2), \<lambda>n. n - 2), (\<lambda>n. (Inl (DE_Outbox ''x''), n), \<lambda>n :: int. n)]"
  have run: "saga_execute ?saga 5 = (Inl \<lparr>se_step = 1, se_source = DE_Outbox ''x''\<rparr>, 5)"
    by (simp add: saga_execute_def)
  show ?thesis using saga_all_or_nothing [OF run] run by simp
qed

end
