(* ===== verification/Idempotency.thy ===== *)
theory Idempotency
  imports Http Instants
begin

text \<open>
  Idempotency keys (\<open>klauthed-data/src/idempotency/mod.rs\<close>): the in-memory store that lets one
  caller claim a key and replays its stored response to every later one.
\<close>

datatype idempotency_status = ISInProgress | ISCompleted

record idempotency_record =
  ik_key :: string
  ik_status :: idempotency_status
  ik_response :: "json option"
  ik_created_at :: timestamp
  ik_updated_at :: timestamp

datatype outcome = New | InProgress | Completed json

type_synonym idempotency_store = "string \<rightharpoonup> idempotency_record"

definition idem_new :: idempotency_store where
  "idem_new = Map.empty"

definition idem_begin :: "timestamp \<Rightarrow> string \<Rightarrow> idempotency_store \<Rightarrow> (data_error + outcome) \<times> idempotency_store" where
  "idem_begin now key m =
     (case m key of
        Some rec \<Rightarrow>
          (case ik_status rec of
             ISInProgress \<Rightarrow> (Inr InProgress, m)
           | ISCompleted \<Rightarrow> (Inr (Completed (case ik_response rec of None \<Rightarrow> JNull | Some v \<Rightarrow> v)), m))
      | None \<Rightarrow>
          (Inr New, m(key \<mapsto> \<lparr>ik_key = key, ik_status = ISInProgress, ik_response = None,
                              ik_created_at = now, ik_updated_at = now\<rparr>)))"

definition idem_complete ::
  "timestamp \<Rightarrow> string \<Rightarrow> json \<Rightarrow> idempotency_store \<Rightarrow> (data_error + unit) \<times> idempotency_store" where
  "idem_complete now key response m =
     (case m key of
        Some rec \<Rightarrow>
          (Inr (), m(key \<mapsto> rec\<lparr>ik_status := ISCompleted, ik_response := Some response, ik_updated_at := now\<rparr>))
      | None \<Rightarrow>
          (Inl (DE_Idempotency (''cannot complete unknown idempotency key '' @ [CHR 0x27] @ key @ [CHR 0x27])), m))"

definition idem_get :: "string \<Rightarrow> idempotency_store \<Rightarrow> (data_error + idempotency_record option) \<times> idempotency_store" where
  "idem_get key m = (Inr (m key), m)"

section \<open>Histories\<close>

datatype idem_op = Begin timestamp string | Complete timestamp string json | Get timestamp string

fun idem_step :: "idem_op \<Rightarrow> idempotency_store \<Rightarrow> idempotency_store" where
  "idem_step (Begin t k) m = snd (idem_begin t k m)"
| "idem_step (Complete t k v) m = snd (idem_complete t k v m)"
| "idem_step (Get t k) m = snd (idem_get k m)"

definition idem_run :: "idem_op list \<Rightarrow> idempotency_store \<Rightarrow> idempotency_store" where
  "idem_run ops m = fold idem_step ops m"

fun news :: "string \<Rightarrow> idem_op list \<Rightarrow> idempotency_store \<Rightarrow> nat" where
  "news k [] m = 0"
| "news k (op # ops) m =
     (if (\<exists>t. op = Begin t k \<and> fst (idem_begin t k m) = Inr New) then 1 else 0) + news k ops (idem_step op m)"

text \<open>Every record is stored under its own key, and a completed one carries its response.\<close>

definition idem_ok :: "idempotency_store \<Rightarrow> bool" where
  "idem_ok m = (\<forall>k r. m k = Some r \<longrightarrow> ik_key r = k \<and> (ik_status r = ISCompleted \<longleftrightarrow> ik_response r \<noteq> None))"

lemma idem_step_ok: "idem_ok m \<Longrightarrow> idem_ok (idem_step op m)"
  by (cases op) (auto simp: idem_ok_def idem_begin_def idem_complete_def idem_get_def split: option.splits idempotency_status.splits)

lemma idem_step_claimed: "m k \<noteq> None \<Longrightarrow> idem_step op m k \<noteq> None"
  by (cases op) (auto simp: idem_begin_def idem_complete_def idem_get_def split: option.splits idempotency_status.splits)

lemma begin_New_iff: "fst (idem_begin t k m) = Inr New \<longleftrightarrow> m k = None"
  by (auto simp: idem_begin_def split: option.splits idempotency_status.splits)

lemma begin_claims: "snd (idem_begin t k m) k \<noteq> None"
  by (auto simp: idem_begin_def split: option.splits idempotency_status.splits)

lemma news_claimed: "m k \<noteq> None \<Longrightarrow> news k ops m = 0"
proof (induction ops arbitrary: m)
  case (Cons op ops)
  then show ?case using idem_step_claimed [of m k op] by (simp add: begin_New_iff)
qed simp

lemma news_at_most_once: "news k ops m \<le> 1"
proof (induction ops arbitrary: m)
  case (Cons op ops)
  show ?case
  proof (cases "\<exists>t. op = Begin t k \<and> fst (idem_begin t k m) = Inr New")
    case True
    then have "idem_step op m k \<noteq> None" using begin_claims by auto
    then show ?thesis by (simp add: news_claimed)
  next
    case False
    then have "news k (op # ops) m = news k ops (idem_step op m)"
      by (simp only: news.simps if_False)
    with Cons show ?thesis by simp
  qed
qed simp

text \<open>The operation is not another completion of \<open>k\<close>.\<close>

fun keeps_response :: "string \<Rightarrow> idem_op \<Rightarrow> bool" where
  "keeps_response k (Begin t j) = True"
| "keeps_response k (Complete t j v) = (j \<noteq> k)"
| "keeps_response k (Get t j) = True"

definition holds_response :: "string \<Rightarrow> json \<Rightarrow> idempotency_store \<Rightarrow> bool" where
  "holds_response k v m = (\<exists>r. m k = Some r \<and> ik_status r = ISCompleted \<and> ik_response r = Some v)"

lemma holds_response_step: "holds_response k v m \<Longrightarrow> keeps_response k op \<Longrightarrow> holds_response k v (idem_step op m)"
  by (cases op)
    (auto simp: holds_response_def idem_begin_def idem_complete_def idem_get_def split: option.splits idempotency_status.splits)

lemma holds_response_run:
  "holds_response k v m \<Longrightarrow> \<forall>op \<in> set ops. keeps_response k op \<Longrightarrow> holds_response k v (idem_run ops m)"
  unfolding idem_run_def by (induction ops arbitrary: m) (simp_all add: holds_response_step)

lemma begin_replays: "holds_response k v m \<Longrightarrow> fst (idem_begin t k m) = Inr (Completed v)"
  by (auto simp: holds_response_def idem_begin_def)

text \<open>A key is claimed once and its response is replayed. In every history of claims and
  completions, from any store, at most one claim of a key is told \<open>New\<close>, so the guarded work runs
  at most once; and once a claimed key is completed with a response, every later claim is told
  \<open>Completed\<close> with that response, until the key is completed again.\<close>

theorem idempotency_once:
  "news k ops m \<le> 1
   \<and> (m k \<noteq> None \<and> (\<forall>op \<in> set later. keeps_response k op) \<longrightarrow>
        fst (idem_begin t k (idem_run later (snd (idem_complete t' k v m)))) = Inr (Completed v))"
proof (intro conjI impI)
  assume a: "m k \<noteq> None \<and> (\<forall>op \<in> set later. keeps_response k op)"
  then have "holds_response k v (snd (idem_complete t' k v m))"
    by (auto simp: idem_complete_def holds_response_def)
  with a show "fst (idem_begin t k (idem_run later (snd (idem_complete t' k v m)))) = Inr (Completed v)"
    by (intro begin_replays holds_response_run) auto
qed (rule news_at_most_once)

theorem idempotency_once_witness:
  "fst (idem_begin 3 ''k'' (idem_run [Begin 2 ''k'', Begin 2 ''j'']
     (snd (idem_complete 1 ''k'' (JBool True) (snd (idem_begin 0 ''k'' idem_new)))))) = Inr (Completed (JBool True))"
  using idempotency_once [of "''k''" "[]" "snd (idem_begin 0 ''k'' idem_new)" "[Begin 2 ''k'', Begin 2 ''j'']" 3 1 "JBool True"]
    begin_claims [of 0 "''k''" idem_new]
  by simp

end
