(* ===== verification/Locks.thy ===== *)
theory Locks
  imports ErrorKernel Instants
begin

text \<open>
  The in-memory lock manager (\<open>klauthed-data/src/locks/mod.rs\<close>): a table of fencing tokens with
  their expiry. Tokens are fresh UUIDs; \<open>new_token\<close> is the generator's answer to its \<open>n\<close>-th call.
\<close>

type_synonym lock_token = nat
type_synonym lock_table = "string \<rightharpoonup> lock_token \<times> timestamp"

record lock_guard =
  lg_key :: string
  lg_token :: lock_token
  lg_released :: bool

definition lock_new :: lock_table where
  "lock_new = Map.empty"

definition lock_acquire ::
  "time_range \<Rightarrow> (nat \<Rightarrow> lock_token) \<Rightarrow> timestamp \<Rightarrow> string \<Rightarrow> duration \<Rightarrow> lock_table \<times> nat
   \<Rightarrow> (data_error + lock_guard option) \<times> lock_table \<times> nat" where
  "lock_acquire R new_token now key ttl st =
     (case st of (table, n) \<Rightarrow>
        (case checked_add R now ttl of
           None \<Rightarrow> (Inl (DE_LockHeld (''invalid TTL for lock '' @ [CHR 0x27] @ key @ [CHR 0x27])), table, n)
         | Some expires_at \<Rightarrow>
             (let live_holder = (case table key of None \<Rightarrow> False | Some (_, holder_expiry) \<Rightarrow> now < holder_expiry)
              in if live_holder then (Inr None, table, n)
                 else (Inr (Some \<lparr>lg_key = key, lg_token = new_token n, lg_released = False\<rparr>),
                       table(key \<mapsto> (new_token n, expires_at)), Suc n))))"

definition release_in_memory :: "string \<Rightarrow> lock_token \<Rightarrow> lock_table \<Rightarrow> lock_table" where
  "release_in_memory key token table =
     (case table key of
        Some (holder, _) \<Rightarrow> if holder = token then table(key := None) else table
      | None \<Rightarrow> table)"

text \<open>\<open>release\<close> consumes the guard and \<open>drop\<close> runs on it afterwards; a released guard is inert.\<close>

definition guard_release :: "lock_guard \<Rightarrow> lock_table \<Rightarrow> lock_guard \<times> lock_table" where
  "guard_release g table =
     (if lg_released g then (g, table)
      else (g\<lparr>lg_released := True\<rparr>, release_in_memory (lg_key g) (lg_token g) table))"

definition guard_drop :: "lock_guard \<Rightarrow> lock_table \<Rightarrow> lock_table" where
  "guard_drop g table =
     (if lg_released g then table else release_in_memory (lg_key g) (lg_token g) table)"

section \<open>Mutual exclusion\<close>

text \<open>The steps other parties may take: acquiring any key, and releasing or dropping a guard they
  hold.\<close>

inductive lock_step ::
  "time_range \<Rightarrow> (nat \<Rightarrow> lock_token) \<Rightarrow> string \<Rightarrow> lock_token \<Rightarrow> timestamp \<Rightarrow> lock_table \<times> nat \<Rightarrow> lock_table \<times> nat \<Rightarrow> bool"
  for R :: time_range and new_token :: "nat \<Rightarrow> lock_token" and key :: string and tok :: lock_token and e :: timestamp where
  acquire_other: "k \<noteq> key \<or> now < e \<Longrightarrow> lock_acquire R new_token now k ttl st = (r, st') \<Longrightarrow>
     lock_step R new_token key tok e st st'"
| release_other: "lg_key g \<noteq> key \<or> lg_token g \<noteq> tok \<Longrightarrow>
     lock_step R new_token key tok e (table, n) (snd (guard_release g table), n)"
| drop_other: "lg_key g \<noteq> key \<or> lg_token g \<noteq> tok \<Longrightarrow>
     lock_step R new_token key tok e (table, n) (guard_drop g table, n)"

lemma lock_acquire_held:
  assumes "table key = Some (tok, e)" and "now < e" and "in_range R (now + ttl)"
  shows "fst (lock_acquire R new_token now key ttl (table, n)) = Inr None"
  using assms by (simp add: lock_acquire_def checked_add_def)

lemma lock_step_keeps:
  "lock_step R new_token key tok e st st' \<Longrightarrow> fst st key = Some (tok, e) \<Longrightarrow> fst st' key = Some (tok, e)"
proof (induction rule: lock_step.induct)
  case (acquire_other k now ttl st r st')
  then show ?case
    by (cases st) (auto simp: lock_acquire_def Let_def split: option.splits if_splits)
qed (auto simp: guard_release_def guard_drop_def release_in_memory_def split: option.splits if_splits)

lemma lock_steps_keep:
  "(lock_step R new_token key tok e)\<^sup>*\<^sup>* st st' \<Longrightarrow> fst st key = Some (tok, e) \<Longrightarrow> fst st' key = Some (tok, e)"
  by (induction rule: rtranclp_induct) (auto intro: lock_step_keeps)

text \<open>C23: mutual exclusion. Once a key is acquired with some token and lifetime, and whatever the
  others do before that lifetime is over (acquire keys, release or drop guards with other tokens,
  stale guards of the same key included), the key stays with that token, so every attempt to
  acquire it before the expiry is refused; releasing the guard frees it at once.\<close>

theorem lock_mutual_exclusion:
  assumes "lock_acquire R new_token now key ttl st = (Inr (Some g), st1)"
    and "(lock_step R new_token key (lg_token g) (now + ttl))\<^sup>*\<^sup>* st1 st2"
    and "now' < now + ttl" and "in_range R (now' + ttl')"
  shows "fst st2 key = Some (lg_token g, now + ttl)
    \<and> fst (lock_acquire R new_token now' key ttl' st2) = Inr None
    \<and> snd (guard_release g (fst st2)) key = None"
proof -
  have "fst st1 key = Some (lg_token g, now + ttl)" and g: "lg_key g = key" "\<not> lg_released g"
    using assms(1) by (cases st, auto simp: lock_acquire_def Let_def split: option.splits if_splits)+
  with lock_steps_keep [OF assms(2)] have held: "fst st2 key = Some (lg_token g, now + ttl)" by blast
  with lock_acquire_held [of "fst st2" key "lg_token g" "now + ttl" now' R ttl' new_token "snd st2"] assms(3,4) g
  show ?thesis
    by (simp add: guard_release_def release_in_memory_def)
qed

theorem lock_mutual_exclusion_witness:
  "fst (lock_acquire demo_range (\<lambda>n. n) 5 ''k'' 10
     (snd (lock_acquire demo_range (\<lambda>n. n) 0 ''k'' 10 (lock_new, 0)))) = Inr None"
proof -
  have acq: "lock_acquire demo_range (\<lambda>n. n) 0 ''k'' 10 (lock_new, 0) =
      (Inr (Some \<lparr>lg_key = ''k'', lg_token = 0, lg_released = False\<rparr>), [''k'' \<mapsto> (0, 10)], 1)"
    by (simp add: lock_acquire_def checked_add_def in_range_def demo_range_def lock_new_def)
  have "in_range demo_range (5 + 10)"
    by (simp add: in_range_def demo_range_def)
  with lock_mutual_exclusion [OF acq rtranclp.rtrancl_refl, of 5 10] acq show ?thesis by simp
qed

text \<open>A stale guard cannot free a lock it lost. Releasing or dropping a guard changes the table
  only when the guard's own token still holds the key, and a guard that was released is inert.\<close>

theorem stale_guard_harmless:
  "(table (lg_key g) \<noteq> None \<and> fst (the (table (lg_key g))) \<noteq> lg_token g \<longrightarrow>
      snd (guard_release g table) = table \<and> guard_drop g table = table)
   \<and> guard_drop (fst (guard_release g table)) (snd (guard_release g table)) = snd (guard_release g table)
   \<and> (k \<noteq> lg_key g \<longrightarrow> guard_drop g table k = table k)"
  by (auto simp: guard_release_def guard_drop_def release_in_memory_def split: option.splits)

theorem stale_guard_harmless_witness:
  "guard_drop \<lparr>lg_key = ''k'', lg_token = 1, lg_released = False\<rparr> [''k'' \<mapsto> (2, 10)] = [''k'' \<mapsto> (2, 10)]"
  using stale_guard_harmless [of "[''k'' \<mapsto> (2, 10)]" "\<lparr>lg_key = ''k'', lg_token = 1, lg_released = False\<rparr>" "''j''"]
  by simp

section \<open>What every backend promises\<close>

text \<open>What other parties may do to a backend while somebody holds a key: acquire any key at an instant
  at which that hold is still live, and release with another token, or another key.\<close>

inductive others ::
  "('t \<Rightarrow> string \<Rightarrow> duration \<Rightarrow> 's \<Rightarrow> (data_error + lock_guard option) \<times> 's) \<Rightarrow> ('t \<Rightarrow> string \<Rightarrow> lock_token \<Rightarrow> 's \<Rightarrow> 's)
   \<Rightarrow> ('t \<Rightarrow> 'e \<Rightarrow> bool) \<Rightarrow> string \<Rightarrow> lock_token \<Rightarrow> 'e \<Rightarrow> 's \<Rightarrow> 's \<Rightarrow> bool"
  for acquire :: "'t \<Rightarrow> string \<Rightarrow> duration \<Rightarrow> 's \<Rightarrow> (data_error + lock_guard option) \<times> 's"
    and release :: "'t \<Rightarrow> string \<Rightarrow> lock_token \<Rightarrow> 's \<Rightarrow> 's" and live :: "'t \<Rightarrow> 'e \<Rightarrow> bool"
    and key :: string and tok :: lock_token and e :: 'e where
  other_acquires: "k \<noteq> key \<or> live t e \<Longrightarrow> others acquire release live key tok e s (snd (acquire t k d s))"
| other_releases: "k \<noteq> key \<or> tok' \<noteq> tok \<Longrightarrow> others acquire release live key tok e s (release t k tok' s)"

locale lock_backend =
  fixes acquire :: "'t \<Rightarrow> string \<Rightarrow> duration \<Rightarrow> 's \<Rightarrow> (data_error + lock_guard option) \<times> 's"
    and release :: "'t \<Rightarrow> string \<Rightarrow> lock_token \<Rightarrow> 's \<Rightarrow> 's"
    and holds :: "'s \<Rightarrow> string \<Rightarrow> lock_token \<Rightarrow> 'e \<Rightarrow> bool"
    and live :: "'t \<Rightarrow> 'e \<Rightarrow> bool"
    and deadline :: "'t \<Rightarrow> duration \<Rightarrow> 'e"
  assumes granted: "acquire t k d s = (Inr (Some g), s') \<Longrightarrow> holds s' k (lg_token g) (deadline t d)"
    and refused: "holds s k tok e \<Longrightarrow> live t e \<Longrightarrow>
      fst (acquire t k d s) \<noteq> Inr (Some g) \<and> holds (snd (acquire t k d s)) k tok e"
    and other_key: "k' \<noteq> k \<Longrightarrow> holds s k tok e \<Longrightarrow> holds (snd (acquire t k' d s)) k tok e"
    and other_token: "k' \<noteq> k \<or> tok' \<noteq> tok \<Longrightarrow> holds s k tok e \<Longrightarrow> holds (release t k' tok' s) k tok e"
begin

lemma others_keep:
  "(others acquire release live k tok e)\<^sup>*\<^sup>* s s' \<Longrightarrow> holds s k tok e \<Longrightarrow> holds s' k tok e"
proof (induction rule: rtranclp_induct)
  case (step s' s'')
  from step(2) show ?case
  proof cases
    case (other_acquires k' t d)
    with step refused [of s' k tok e t d] other_key [of k' k s' tok e t d] show ?thesis by (cases "k' = k") auto
  qed (use step other_token in auto)
qed simp

lemma exclusion:
  assumes "acquire t k d s = (Inr (Some g), s1)"
    and "(others acquire release live k (lg_token g) (deadline t d))\<^sup>*\<^sup>* s1 s2" and "live t' (deadline t d)"
  shows "holds s2 k (lg_token g) (deadline t d) \<and> fst (acquire t' k d' s2) \<noteq> Inr (Some g')"
  using others_keep [OF assms(2) granted [OF assms(1)]] refused assms(3) by blast

end

definition memory_holds :: "lock_table \<times> nat \<Rightarrow> string \<Rightarrow> lock_token \<Rightarrow> timestamp \<Rightarrow> bool" where
  "memory_holds s k tok e = (fst s k = Some (tok, e))"

definition memory_release :: "timestamp \<Rightarrow> string \<Rightarrow> lock_token \<Rightarrow> lock_table \<times> nat \<Rightarrow> lock_table \<times> nat" where
  "memory_release t k tok s = (release_in_memory k tok (fst s), snd s)"

interpretation memory_locks: lock_backend "lock_acquire R new_token" memory_release memory_holds "\<lambda>t e. t < e" "\<lambda>t d. t + d"
  by unfold_locales
    (auto simp: lock_acquire_def memory_holds_def memory_release_def release_in_memory_def Let_def
      split: option.splits if_splits prod.splits)

end
