(* ===== verification/Outbox.thy ===== *)
theory Outbox
  imports Http Instants
begin

text \<open>
  The transactional outbox (\<open>klauthed-data/src/outbox\<close>): the in-memory outbox and the relay that
  drains it through a publisher. Entry ids are time-ordered UUIDs, natural numbers here; the
  publisher is a parameter acting on a world \<open>'w\<close>.
\<close>

record outbox_entry =
  oe_id :: nat
  oe_aggregate_type :: string
  oe_aggregate_id :: string
  oe_event_type :: string
  oe_sequence :: nat
  oe_payload :: json
  oe_occurred_at :: timestamp
  oe_published :: bool
  oe_published_at :: "timestamp option"

type_synonym outbox = "outbox_entry list"

definition outbox_new :: outbox where
  "outbox_new = []"

definition outbox_enqueue :: "outbox_entry list \<Rightarrow> outbox \<Rightarrow> (data_error + unit) \<times> outbox" where
  "outbox_enqueue entries ob = (Inr (), ob @ entries)"

text \<open>\<open>sort_by_key\<close> is stable, as \<open>sort_key\<close> is.\<close>

definition fetch_unpublished :: "nat \<Rightarrow> outbox \<Rightarrow> (data_error + outbox_entry list) \<times> outbox" where
  "fetch_unpublished limit ob = (Inr (take limit (sort_key oe_id (filter (\<lambda>e. \<not> oe_published e) ob))), ob)"

definition mark_entry :: "timestamp \<Rightarrow> nat list \<Rightarrow> outbox_entry \<Rightarrow> outbox_entry" where
  "mark_entry now ids e =
     (if \<not> oe_published e \<and> oe_id e \<in> set ids
      then e\<lparr>oe_published := True, oe_published_at := Some now\<rparr> else e)"

definition mark_published :: "timestamp \<Rightarrow> nat list \<Rightarrow> outbox \<Rightarrow> (data_error + unit) \<times> outbox" where
  "mark_published now ids ob = (Inr (), map (mark_entry now ids) ob)"

section \<open>Relay\<close>

record outbox_relay =
  or_batch_size :: nat

definition relay_new :: outbox_relay where
  "relay_new = \<lparr>or_batch_size = 100\<rparr>"

definition with_batch_size :: "nat \<Rightarrow> outbox_relay \<Rightarrow> outbox_relay" where
  "with_batch_size n r = r\<lparr>or_batch_size := max n 1\<rparr>"

text \<open>The publishing loop stops at the first failure.\<close>

fun publish_loop ::
  "(outbox_entry \<Rightarrow> 'w \<Rightarrow> (data_error + unit) \<times> 'w) \<Rightarrow> outbox_entry list \<Rightarrow> nat list \<Rightarrow> 'w \<Rightarrow> nat list \<times> 'w" where
  "publish_loop publish [] published w = (published, w)"
| "publish_loop publish (e # es) published w =
     (case publish e w of
        (Inl err, w') \<Rightarrow> (published, w')
      | (Inr _, w') \<Rightarrow> publish_loop publish es (published @ [oe_id e]) w')"

text \<open>\<open>drain_once\<close> over any outbox: \<open>fetch\<close> and \<open>mark\<close> are the operations of the \<open>Outbox\<close> trait it calls.\<close>

definition relay_drain_with ::
  "(nat \<Rightarrow> 's \<Rightarrow> (data_error + outbox_entry list) \<times> 's) \<Rightarrow> (timestamp \<Rightarrow> nat list \<Rightarrow> 's \<Rightarrow> (data_error + unit) \<times> 's)
   \<Rightarrow> outbox_relay \<Rightarrow> (outbox_entry \<Rightarrow> 'w \<Rightarrow> (data_error + unit) \<times> 'w) \<Rightarrow> timestamp \<Rightarrow> 's \<Rightarrow> 'w
   \<Rightarrow> (data_error + nat) \<times> 's \<times> 'w" where
  "relay_drain_with fetch mark r publish now ob w =
     (case fetch (or_batch_size r) ob of
        (Inl e, ob1) \<Rightarrow> (Inl e, ob1, w)
      | (Inr entries, ob1) \<Rightarrow>
          (case publish_loop publish entries [] w of
             (published, w1) \<Rightarrow>
               (if published \<noteq> []
                then (case mark now published ob1 of
                        (Inl e, ob2) \<Rightarrow> (Inl e, ob2, w1)
                      | (Inr _, ob2) \<Rightarrow> (Inr (length published), ob2, w1))
                else (Inr (length published), ob1, w1))))"

definition relay_drain ::
  "outbox_relay \<Rightarrow> (outbox_entry \<Rightarrow> 'w \<Rightarrow> (data_error + unit) \<times> 'w) \<Rightarrow> timestamp \<Rightarrow> outbox \<Rightarrow> 'w
   \<Rightarrow> (data_error + nat) \<times> outbox \<times> 'w" where
  "relay_drain = relay_drain_with fetch_unpublished mark_published"

section \<open>Delivery\<close>

definition pending :: "outbox \<Rightarrow> outbox_entry list" where
  "pending ob = sort_key oe_id (filter (\<lambda>e. \<not> oe_published e) ob)"

text \<open>The number of entries the publisher accepts before it first fails.\<close>

fun accepted :: "(outbox_entry \<Rightarrow> 'w \<Rightarrow> (data_error + unit) \<times> 'w) \<Rightarrow> outbox_entry list \<Rightarrow> 'w \<Rightarrow> nat" where
  "accepted publish [] w = 0"
| "accepted publish (e # es) w = (case publish e w of (Inl _, _) \<Rightarrow> 0 | (Inr _, w') \<Rightarrow> Suc (accepted publish es w'))"

lemma publish_loop_accepted:
  "fst (publish_loop publish es published w) = published @ map oe_id (take (accepted publish es w) es)"
  by (induction publish es published w rule: publish_loop.induct) (auto split: prod.splits sum.splits)

lemma accepted_le: "accepted publish es w \<le> length es"
  by (induction publish es w rule: accepted.induct) (auto split: prod.splits sum.splits)

lemma relay_drain_result:
  fixes r publish ob w
  defines "n \<equiv> accepted publish (take (or_batch_size r) (pending ob)) w"
  shows "fst (relay_drain r publish now ob w) = Inr n"
    and "fst (snd (relay_drain r publish now ob w)) = map (mark_entry now (map oe_id (take n (pending ob)))) ob"
proof -
  let ?es = "take (or_batch_size r) (pending ob)"
  have n: "n \<le> length ?es" unfolding n_def by (rule accepted_le)
  have pub: "fst (publish_loop publish ?es [] w) = map oe_id (take n (pending ob))"
    using n by (simp add: publish_loop_accepted n_def [symmetric] min_absorb1)
  have len: "length (map oe_id (take n (pending ob))) = n" using n by simp
  show "fst (relay_drain r publish now ob w) = Inr n"
    using pub len
    by (cases "publish_loop publish ?es [] w")
      (auto simp: relay_drain_def relay_drain_with_def fetch_unpublished_def pending_def [symmetric] mark_published_def)
  have "map (mark_entry now []) ob = ob"
    by (rule map_idI) (simp add: mark_entry_def)
  then show "fst (snd (relay_drain r publish now ob w)) = map (mark_entry now (map oe_id (take n (pending ob)))) ob"
    using pub
    by (cases "publish_loop publish ?es [] w")
      (auto simp: relay_drain_def relay_drain_with_def fetch_unpublished_def pending_def [symmetric] mark_published_def)
qed

lemma distinct_pending: "distinct (map oe_id ob) \<Longrightarrow> distinct (map oe_id (pending ob))"
  by (auto simp: pending_def distinct_map intro: inj_on_subset)

lemma filter_mark:
  "filter (\<lambda>e. \<not> oe_published e) (map (mark_entry now ids) ob)
   = filter (\<lambda>e. oe_id e \<notin> set ids) (filter (\<lambda>e. \<not> oe_published e) ob)"
  by (induction ob) (auto simp: mark_entry_def)

lemma filter_sort_key: "filter P (sort_key f xs) = sort_key f (filter P xs)"
  by (simp add: filter_sort)

lemma drop_take_filter:
  "distinct (map f xs) \<Longrightarrow> filter (\<lambda>e. f e \<notin> set (map f (take n xs))) xs = drop n xs"
proof -
  assume d: "distinct (map f xs)"
  then have "f e \<notin> set (map f (take n xs))" if "e \<in> set (drop n xs)" for e
    using that by (metis append_take_drop_id distinct_append disjoint_iff image_eqI map_append set_map)
  then have "filter (\<lambda>e. f e \<notin> set (map f (take n xs))) (drop n xs) = drop n xs"
    by (simp add: filter_id_conv)
  moreover have "filter (\<lambda>e. f e \<notin> set (map f (take n xs))) (take n xs) = []"
    by (simp add: filter_empty_conv)
  ultimately show ?thesis
    by (metis append_Nil append_take_drop_id filter_append)
qed

lemma drain_prefix:
  assumes "distinct (map oe_id ob)" and "relay_drain r publish now ob w = (res, ob', w')"
  shows "\<exists>n. res = Inr n \<and> n = accepted publish (take (or_batch_size r) (pending ob)) w
     \<and> n \<le> or_batch_size r \<and> pending ob' = drop n (pending ob)
     \<and> map oe_id ob' = map oe_id ob
     \<and> (\<forall>e \<in> set ob. oe_published e \<longrightarrow> e \<in> set ob')"
proof -
  define n where "n = accepted publish (take (or_batch_size r) (pending ob)) w"
  have res: "res = Inr n" "ob' = map (mark_entry now (map oe_id (take n (pending ob)))) ob"
    using relay_drain_result [where r = r and publish = publish and ob = ob and w = w and now = now] assms(2)
    by (simp_all add: n_def)
  have "n \<le> length (take (or_batch_size r) (pending ob))"
    unfolding n_def by (rule accepted_le)
  then have "n \<le> or_batch_size r" by simp
  moreover have "pending ob' = drop n (pending ob)"
    using drop_take_filter [OF distinct_pending [OF assms(1)], of n]
    unfolding res(2) pending_def filter_mark by (simp add: filter_sort_key)
  moreover have "map oe_id ob' = map oe_id ob"
    by (simp add: res mark_entry_def)
  moreover have "e \<in> set ob'" if "e \<in> set ob" "oe_published e" for e
  proof -
    have "mark_entry now (map oe_id (take n (pending ob))) e = e" using that by (simp add: mark_entry_def)
    with that(1) show ?thesis unfolding res(2) by (metis image_eqI set_map)
  qed
  ultimately show ?thesis using res(1) n_def by blast
qed

fun drain_times ::
  "nat \<Rightarrow> outbox_relay \<Rightarrow> (outbox_entry \<Rightarrow> 'w \<Rightarrow> (data_error + unit) \<times> 'w) \<Rightarrow> timestamp \<Rightarrow> outbox \<Rightarrow> 'w \<Rightarrow> outbox" where
  "drain_times 0 r publish now ob w = ob"
| "drain_times (Suc k) r publish now ob w =
     (case relay_drain r publish now ob w of (_, ob', w') \<Rightarrow> drain_times k r publish now ob' w')"

lemma accepted_all: "(\<And>e w. e \<in> set es \<Longrightarrow> \<exists>w'. publish e w = (Inr (), w')) \<Longrightarrow> accepted publish es w = length es"
proof (induction es arbitrary: w)
  case (Cons e es)
  then obtain w' where "publish e w = (Inr (), w')" by (meson list.set_intros(1))
  with Cons show ?case by simp
qed simp

lemma drain_times_empties:
  assumes "\<And>e w. \<exists>w'. publish e w = (Inr (), w')"
  shows "distinct (map oe_id ob) \<Longrightarrow> length (pending ob) \<le> k * or_batch_size r \<Longrightarrow>
    pending (drain_times k r publish now ob w) = []"
proof (induction k arbitrary: ob w)
  case (Suc k)
  obtain res ob' w' where d: "relay_drain r publish now ob w = (res, ob', w')" by (metis prod_cases3)
  have acc: "accepted publish (take (or_batch_size r) (pending ob)) w = length (take (or_batch_size r) (pending ob))"
    by (rule accepted_all) (rule assms)
  have post: "pending ob' = drop (min (length (pending ob)) (or_batch_size r)) (pending ob)" "map oe_id ob' = map oe_id ob"
    using drain_prefix [OF Suc.prems(1) d] unfolding acc by auto
  have "length (pending ob') \<le> k * or_batch_size r"
    using Suc.prems(2) by (simp add: post(1))
  with Suc.IH [of ob' w'] Suc.prems(1) post(2) d show ?case by simp
qed simp

text \<open>The relay delivers a prefix, in order, and forgets nothing. Of the pending entries in id
  order, one drain delivers exactly the entries accepted before the publisher's first failure,
  at most a batch; exactly those are marked, so the pending entries afterwards are the rest, the
  failed one first; published entries are never touched again.\<close>

theorem outbox_drain_prefix:
  assumes "distinct (map oe_id ob)" and "relay_drain r publish now ob w = (res, ob', w')"
  shows "\<exists>n. res = Inr n \<and> n = accepted publish (take (or_batch_size r) (pending ob)) w
     \<and> n \<le> or_batch_size r \<and> pending ob' = drop n (pending ob)
     \<and> map oe_id ob' = map oe_id ob
     \<and> (\<forall>e \<in> set ob. oe_published e \<longrightarrow> e \<in> set ob')"
  using drain_prefix [OF assms] .

text \<open>Liveness of the relay. With a publisher that accepts every entry, draining as often as
  there are batches leaves nothing pending.\<close>

theorem outbox_drain_liveness:
  assumes "\<And>e w. \<exists>w'. publish e w = (Inr (), w')" and "distinct (map oe_id ob)"
    and "length (pending ob) \<le> k * or_batch_size r"
  shows "pending (drain_times k r publish now ob w) = []"
  by (rule drain_times_empties [OF assms])

definition demo_entry :: "nat \<Rightarrow> outbox_entry" where
  "demo_entry n = \<lparr>oe_id = n, oe_aggregate_type = ''order'', oe_aggregate_id = ''o1'', oe_event_type = ''paid'',
     oe_sequence = n, oe_payload = JNull, oe_occurred_at = 0, oe_published = False, oe_published_at = None\<rparr>"

text \<open>A publisher that fails on entry 2, and the outbox 3, 1, 2.\<close>

definition demo_publish :: "outbox_entry \<Rightarrow> nat list \<Rightarrow> (data_error + unit) \<times> nat list" where
  "demo_publish e w = (if oe_id e = 2 then (Inl (DE_Messaging ''down''), w) else (Inr (), w @ [oe_id e]))"

theorem outbox_drain_prefix_witness:
  "map oe_id (pending (fst (snd (relay_drain relay_new demo_publish 9 [demo_entry 3, demo_entry 1, demo_entry 2] []))))
   = [2, 3]"
proof -
  have p: "pending [demo_entry 3, demo_entry 1, demo_entry 2] = [demo_entry 1, demo_entry 2, demo_entry 3]"
    by (simp add: pending_def demo_entry_def)
  have "accepted demo_publish (take (or_batch_size relay_new) [demo_entry 1, demo_entry 2, demo_entry 3]) [] = 1"
    by (simp add: relay_new_def demo_publish_def demo_entry_def)
  moreover have "distinct (map oe_id [demo_entry 3, demo_entry 1, demo_entry 2])"
    by (simp add: demo_entry_def)
  moreover obtain res ob' w' where d:
    "relay_drain relay_new demo_publish 9 [demo_entry 3, demo_entry 1, demo_entry 2] [] = (res, ob', w')"
    by (metis prod_cases3)
  ultimately have "pending ob' = drop 1 [demo_entry 1, demo_entry 2, demo_entry 3]"
    using outbox_drain_prefix [OF _ d] p by metis
  with d show ?thesis by (simp add: demo_entry_def)
qed

theorem outbox_drain_liveness_witness:
  "pending (drain_times 2 \<lparr>or_batch_size = 2\<rparr> (\<lambda>e w. (Inr (), oe_id e # w)) 9
     [demo_entry 3, demo_entry 1, demo_entry 2] []) = []"
  by (rule outbox_drain_liveness) (simp_all add: demo_entry_def pending_def)

section \<open>Any outbox\<close>

text \<open>Draining \<open>k\<close> times through a publisher that accepts and records every entry.\<close>

fun deliver_with ::
  "(nat \<Rightarrow> 's \<Rightarrow> (data_error + outbox_entry list) \<times> 's) \<Rightarrow> (timestamp \<Rightarrow> nat list \<Rightarrow> 's \<Rightarrow> (data_error + unit) \<times> 's)
   \<Rightarrow> nat \<Rightarrow> outbox_relay \<Rightarrow> timestamp \<Rightarrow> 's \<Rightarrow> nat list \<Rightarrow> 's \<times> nat list" where
  "deliver_with fetch mark 0 r now s sent = (s, sent)"
| "deliver_with fetch mark (Suc k) r now s sent =
     (case relay_drain_with fetch mark r (\<lambda>e w. (Inr (), w @ [oe_id e])) now s sent of
        (_, s', sent') \<Rightarrow> deliver_with fetch mark k r now s' sent')"

lemma publish_recording: "publish_loop (\<lambda>e w. (Inr (), w @ [oe_id e])) es p sent = (p @ map oe_id es, sent @ map oe_id es)"
  by (induction es arbitrary: p sent) auto

text \<open>What the relay needs of an outbox: fetching answers unpublished entries, each once and as many as
  the limit allows, and marking removes exactly the given ids. The limit is positive (to MongoDB zero is
  no limit) and fits the signed 64-bit integer the backends send.\<close>

locale outbox_store =
  fixes fetch :: "nat \<Rightarrow> 's \<Rightarrow> (data_error + outbox_entry list) \<times> 's"
    and mark :: "timestamp \<Rightarrow> nat list \<Rightarrow> 's \<Rightarrow> (data_error + unit) \<times> 's"
    and store_ok :: "'s \<Rightarrow> bool"
    and unpublished :: "'s \<Rightarrow> nat set"
  assumes fetch_spec: "store_ok s \<Longrightarrow> 0 < limit \<Longrightarrow> limit < 2 ^ 63 \<Longrightarrow>
      \<exists>es s'. fetch limit s = (Inr es, s') \<and> store_ok s' \<and> unpublished s' = unpublished s
        \<and> distinct (map oe_id es) \<and> oe_id ` set es \<subseteq> unpublished s \<and> length es = min limit (card (unpublished s))"
    and mark_spec: "store_ok s \<Longrightarrow>
      \<exists>s'. mark now ids s = (Inr (), s') \<and> store_ok s' \<and> unpublished s' = unpublished s - set ids"
    and finite_unpublished: "store_ok s \<Longrightarrow> finite (unpublished s)"
begin

lemma drain_recording:
  assumes "store_ok s" and "0 < or_batch_size r" and "or_batch_size r < 2 ^ 63"
  shows "\<exists>ids s'. relay_drain_with fetch mark r (\<lambda>e w. (Inr (), w @ [oe_id e])) now s sent = (Inr (length ids), s', sent @ ids)
    \<and> store_ok s' \<and> distinct ids \<and> set ids \<subseteq> unpublished s \<and> unpublished s' = unpublished s - set ids
    \<and> length ids = min (or_batch_size r) (card (unpublished s))"
proof -
  obtain es s1 where f: "fetch (or_batch_size r) s = (Inr es, s1)" "store_ok s1" "unpublished s1 = unpublished s"
    "distinct (map oe_id es)" "oe_id ` set es \<subseteq> unpublished s" "length es = min (or_batch_size r) (card (unpublished s))"
    using fetch_spec [OF assms] by blast
  obtain s2 where m: "mark now (map oe_id es) s1 = (Inr (), s2)" "store_ok s2" "unpublished s2 = unpublished s1 - set (map oe_id es)"
    using mark_spec [OF f(2)] by blast
  show ?thesis
  proof (cases "es = []")
    case True
    with f show ?thesis by (intro exI [of _ "[]"] exI [of _ s1]) (simp add: relay_drain_with_def publish_recording)
  next
    case False
    with f m show ?thesis
      by (intro exI [of _ "map oe_id es"] exI [of _ s2]) (simp add: relay_drain_with_def publish_recording)
  qed
qed

lemma deliver_exactly_once:
  "store_ok s \<Longrightarrow> 0 < or_batch_size r \<Longrightarrow> or_batch_size r < 2 ^ 63 \<Longrightarrow> card (unpublished s) \<le> k * or_batch_size r \<Longrightarrow>
   \<exists>s' ids. deliver_with fetch mark k r now s sent = (s', sent @ ids) \<and> distinct ids \<and> set ids = unpublished s
     \<and> store_ok s' \<and> unpublished s' = {}"
proof (induction k arbitrary: s sent)
  case 0
  then show ?case using finite_unpublished [of s] by auto
next
  case (Suc k)
  obtain ids s1 where d: "relay_drain_with fetch mark r (\<lambda>e w. (Inr (), w @ [oe_id e])) now s sent = (Inr (length ids), s1, sent @ ids)"
    "store_ok s1" "distinct ids" "set ids \<subseteq> unpublished s" "unpublished s1 = unpublished s - set ids"
    "length ids = min (or_batch_size r) (card (unpublished s))"
    using drain_recording [OF Suc.prems(1-3)] by blast
  have "card (unpublished s1) = card (unpublished s) - length ids"
    using d(3-5) by (simp add: card_Diff_subset distinct_card)
  with Suc.prems(4) d(6) have "card (unpublished s1) \<le> k * or_batch_size r" by auto
  from Suc.IH [OF d(2) Suc.prems(2,3) this, of "sent @ ids"]
  obtain s' ids' where "deliver_with fetch mark k r now s1 (sent @ ids) = (s', (sent @ ids) @ ids')" "distinct ids'"
    "set ids' = unpublished s1" "store_ok s'" "unpublished s' = {}" by blast
  then show ?case
    using d(1,3-5) by (intro exI [of _ s'] exI [of _ "ids @ ids'"]) auto
qed

end

definition memory_unpublished :: "outbox \<Rightarrow> nat set" where
  "memory_unpublished ob = oe_id ` {e \<in> set ob. \<not> oe_published e}"

interpretation memory_outbox: outbox_store fetch_unpublished mark_published "\<lambda>ob. distinct (map oe_id ob)" memory_unpublished
proof
  fix ob :: outbox and limit now ids
  assume d: "distinct (map oe_id ob)"
  have set: "oe_id ` set (pending ob) = memory_unpublished ob" by (simp add: pending_def memory_unpublished_def)
  have "length (pending ob) = card (memory_unpublished ob)"
    using distinct_pending [OF d] set by (metis distinct_card length_map set_map)
  moreover have "oe_id ` set (take limit (pending ob)) \<subseteq> memory_unpublished ob"
    unfolding set [symmetric] by (auto dest: in_set_takeD)
  moreover have "distinct (map oe_id (take limit (pending ob)))"
    using distinct_pending [OF d] by (simp add: take_map [symmetric])
  ultimately show "\<exists>es ob'. fetch_unpublished limit ob = (Inr es, ob') \<and> distinct (map oe_id ob')
      \<and> memory_unpublished ob' = memory_unpublished ob \<and> distinct (map oe_id es)
      \<and> oe_id ` set es \<subseteq> memory_unpublished ob \<and> length es = min limit (card (memory_unpublished ob))"
    using d by (auto simp: fetch_unpublished_def pending_def [symmetric])
  have "map oe_id (map (mark_entry now ids) ob) = map oe_id ob" by (simp add: mark_entry_def)
  moreover have "memory_unpublished (map (mark_entry now ids) ob) = memory_unpublished ob - set ids"
    by (auto simp: memory_unpublished_def mark_entry_def image_iff split: if_splits)
  ultimately show "\<exists>ob'. mark_published now ids ob = (Inr (), ob') \<and> distinct (map oe_id ob')
      \<and> memory_unpublished ob' = memory_unpublished ob - set ids"
    using d unfolding mark_published_def by (intro exI conjI) (simp_all only:)
qed (simp add: memory_unpublished_def)

end
