(* ===== verification/Pagination.thy ===== *)
theory Pagination
  imports Http
begin

text \<open>
  Pagination (\<open>klauthed-data/src/pagination\<close>): offset, cursor and keyset requests and pages. Page
  numbers and sizes are \<open>u32\<close>, offsets and totals \<open>u64\<close>. JSON and base64 are parameters of the
  cursor codec.
\<close>

definition DEFAULT_PAGE_SIZE :: u32 where
  "DEFAULT_PAGE_SIZE = 20"

definition MAX_PAGE_SIZE :: u32 where
  "MAX_PAGE_SIZE = 100"

datatype sort_order = Asc | Desc

record page_sort_key =
  sk_field :: string
  sk_order :: sort_order

definition sort_asc :: "string \<Rightarrow> page_sort_key" where
  "sort_asc f = \<lparr>sk_field = f, sk_order = Asc\<rparr>"

definition sort_desc :: "string \<Rightarrow> page_sort_key" where
  "sort_desc f = \<lparr>sk_field = f, sk_order = Desc\<rparr>"

section \<open>Offset pages\<close>

record offset_page_request =
  op_page :: u32
  op_per_page :: u32
  op_sort :: "page_sort_key list"

definition u32_clamp :: "u32 \<Rightarrow> u32 \<Rightarrow> u32 \<Rightarrow> u32" where
  "u32_clamp x lo hi = (if x < lo then lo else if hi < x then hi else x)"

definition offset_page_new :: "u32 \<Rightarrow> u32 \<Rightarrow> data_error + offset_page_request" where
  "offset_page_new page per_page =
     (if page < 1 then Inl (DE_InvalidPage ''page must be >= 1 (pages are 1-indexed)'')
      else Inr \<lparr>op_page = page, op_per_page = u32_clamp per_page 1 MAX_PAGE_SIZE, op_sort = []\<rparr>)"

definition offset_page_first :: "u32 \<Rightarrow> data_error + offset_page_request" where
  "offset_page_first per_page = offset_page_new 1 per_page"

definition offset_page_default :: offset_page_request where
  "offset_page_default = \<lparr>op_page = 1, op_per_page = DEFAULT_PAGE_SIZE, op_sort = []\<rparr>"

text \<open>Unsigned subtraction and multiplication wrap, as in a build without overflow checks.\<close>

definition op_offset :: "offset_page_request \<Rightarrow> u64" where
  "op_offset req = (ucast (op_page req) - 1) * ucast (op_per_page req)"

definition op_limit :: "offset_page_request \<Rightarrow> u64" where
  "op_limit req = ucast (op_per_page req)"

record 'a page =
  pg_items :: "'a list"
  pg_total_items :: u64
  pg_page :: u32
  pg_per_page :: u32
  pg_total_pages :: u64
  pg_has_next :: bool
  pg_has_prev :: bool

definition div_ceil :: "u64 \<Rightarrow> u64 \<Rightarrow> u64" where
  "div_ceil a b = (let d = a div b; r = a mod b in if 0 < r then d + 1 else d)"

definition page_new :: "'a list \<Rightarrow> u64 \<Rightarrow> offset_page_request \<Rightarrow> 'a page" where
  "page_new items total_items req =
     (let per_page = ucast (op_per_page req) :: u64;
          total_pages = (if per_page = 0 then 0 else div_ceil total_items per_page);
          page = op_page req
      in \<lparr>pg_items = items, pg_total_items = total_items, pg_page = page, pg_per_page = op_per_page req,
          pg_total_pages = total_pages, pg_has_next = (ucast page < total_pages), pg_has_prev = (1 < page)\<rparr>)"

definition page_empty :: "offset_page_request \<Rightarrow> 'a page" where
  "page_empty req = page_new [] 0 req"

definition page_map :: "('a \<Rightarrow> 'b) \<Rightarrow> 'a page \<Rightarrow> 'b page" where
  "page_map f p =
     \<lparr>pg_items = map f (pg_items p), pg_total_items = pg_total_items p, pg_page = pg_page p,
      pg_per_page = pg_per_page p, pg_total_pages = pg_total_pages p, pg_has_next = pg_has_next p,
      pg_has_prev = pg_has_prev p\<rparr>"

section \<open>Cursor and keyset pages\<close>

record 'c cursor_codec =
  to_json :: "'c \<Rightarrow> string + string"
  b64_encode :: "string \<Rightarrow> string"
  b64_decode :: "string \<Rightarrow> string + string"
  from_json :: "string \<Rightarrow> string + 'c"

definition cursor_encode :: "'c cursor_codec \<Rightarrow> 'c \<Rightarrow> data_error + string" where
  "cursor_encode K v =
     (case to_json K v of Inl e \<Rightarrow> Inl (DE_InvalidCursor e) | Inr j \<Rightarrow> Inr (b64_encode K j))"

definition cursor_decode :: "'c cursor_codec \<Rightarrow> string \<Rightarrow> data_error + 'c" where
  "cursor_decode K c =
     (case b64_decode K c of
        Inl e \<Rightarrow> Inl (DE_InvalidCursor (''base64 decode: '' @ e))
      | Inr j \<Rightarrow> (case from_json K j of Inl e \<Rightarrow> Inl (DE_InvalidCursor (''json decode: '' @ e)) | Inr v \<Rightarrow> Inr v))"

record cursor_page_request =
  cp_after :: "string option"
  cp_before :: "string option"
  cp_limit :: u32
  cp_sort :: "page_sort_key list"

definition cursor_page_request_new :: "u32 \<Rightarrow> data_error + cursor_page_request" where
  "cursor_page_request_new limit =
     (if limit < 1 then Inl (DE_InvalidPage ''cursor limit must be >= 1'')
      else Inr \<lparr>cp_after = None, cp_before = None, cp_limit = min limit MAX_PAGE_SIZE, cp_sort = []\<rparr>)"

record 'a cursor_page =
  cg_items :: "'a list"
  cg_start_cursor :: "string option"
  cg_end_cursor :: "string option"
  cg_has_next_page :: bool
  cg_has_prev_page :: bool

text \<open>\<open>items.first().map(encode).transpose()?\<close>.\<close>

definition encode_opt :: "('a \<Rightarrow> data_error + string) \<Rightarrow> 'a option \<Rightarrow> data_error + string option" where
  "encode_opt enc x =
     (case x of None \<Rightarrow> Inr None | Some a \<Rightarrow> (case enc a of Inl e \<Rightarrow> Inl e | Inr c \<Rightarrow> Inr (Some c)))"

definition list_first :: "'a list \<Rightarrow> 'a option" where
  "list_first xs = (case xs of [] \<Rightarrow> None | x # _ \<Rightarrow> Some x)"

definition list_last :: "'a list \<Rightarrow> 'a option" where
  "list_last xs = (case xs of [] \<Rightarrow> None | _ \<Rightarrow> Some (last xs))"

definition cursor_page_from_items ::
  "'c cursor_codec \<Rightarrow> 'a list \<Rightarrow> ('a \<Rightarrow> 'c) \<Rightarrow> bool \<Rightarrow> bool \<Rightarrow> data_error + 'a cursor_page" where
  "cursor_page_from_items K items encode has_prev has_next =
     (case encode_opt (\<lambda>x. cursor_encode K (encode x)) (list_first items) of
        Inl e \<Rightarrow> Inl e
      | Inr start_cursor \<Rightarrow>
          (case encode_opt (\<lambda>x. cursor_encode K (encode x)) (list_last items) of
             Inl e \<Rightarrow> Inl e
           | Inr end_cursor \<Rightarrow>
               Inr \<lparr>cg_items = items, cg_start_cursor = start_cursor, cg_end_cursor = end_cursor,
                    cg_has_next_page = has_next, cg_has_prev_page = has_prev\<rparr>))"

record keyset_page_request =
  kp_sort :: "page_sort_key list"
  kp_after :: "string option"
  kp_limit :: u32

definition keyset_page_request_new :: "page_sort_key list \<Rightarrow> u32 \<Rightarrow> data_error + keyset_page_request" where
  "keyset_page_request_new keys limit =
     (if keys = [] then Inl (DE_InvalidPage ''keyset pagination requires at least one sort key'')
      else if limit < 1 then Inl (DE_InvalidPage ''keyset limit must be >= 1'')
      else Inr \<lparr>kp_sort = keys, kp_after = None, kp_limit = min limit MAX_PAGE_SIZE\<rparr>)"

definition decoded_after :: "'c cursor_codec \<Rightarrow> keyset_page_request \<Rightarrow> data_error + 'c option" where
  "decoded_after K req =
     (case kp_after req of
        None \<Rightarrow> Inr None
      | Some c \<Rightarrow> (case cursor_decode K c of Inl e \<Rightarrow> Inl e | Inr v \<Rightarrow> Inr (Some v)))"

section \<open>Bounds\<close>

lemma clamp_bounds: "1 \<le> unat (u32_clamp x 1 MAX_PAGE_SIZE) \<and> unat (u32_clamp x 1 MAX_PAGE_SIZE) \<le> 100"
  by (auto simp: u32_clamp_def MAX_PAGE_SIZE_def word_less_nat_alt)

lemma offset_page_new_ok:
  "offset_page_new page per_page = Inr req \<Longrightarrow>
   op_page req = page \<and> 1 \<le> unat page \<and> 1 \<le> unat (op_per_page req) \<and> unat (op_per_page req) \<le> 100"
  using clamp_bounds [of per_page] by (auto simp: offset_page_new_def word_less_nat_alt split: if_splits)

lemma unat_ucast_u64: "unat (ucast (x :: u32) :: u64) = unat x"
proof -
  have "unat x < 2 ^ 64" using unsigned_less [where 'a = nat, of x] by simp
  then show ?thesis by (simp add: unsigned_ucast_eq take_bit_nat_eq_self)
qed

lemma unat_offset:
  assumes "1 \<le> unat (op_page req)" and "unat (op_per_page req) \<le> 100"
  shows "unat (op_offset req) = (unat (op_page req) - 1) * unat (op_per_page req)"
proof -
  have p: "unat (op_page req) < 2 ^ 32" using unsigned_less [where 'a = nat, of "op_page req"] by simp
  have sub: "unat (ucast (op_page req) - 1 :: u64) = unat (op_page req) - 1"
    using assms(1) by (subst unat_sub) (simp_all add: word_le_nat_alt unat_ucast_u64)
  have "(unat (op_page req) - 1) * unat (op_per_page req) \<le> 2 ^ 32 * 100"
    using p assms(2) by (intro mult_le_mono) auto
  then have "(unat (op_page req) - 1) * unat (op_per_page req) < 2 ^ 64" by simp
  then show ?thesis
    by (simp add: op_offset_def unat_word_ariths sub unat_ucast_u64)
qed

lemma ceil_less_iff:
  fixes a b n :: nat
  assumes "0 < b"
  shows "n < a div b + (if 0 < a mod b then 1 else 0) \<longleftrightarrow> n * b < a"
proof -
  have a: "a = a div b * b + a mod b" by simp
  have r: "a mod b < b" using assms by simp
  show ?thesis
  proof (cases "a mod b = 0")
    case True
    then show ?thesis using assms by (metis a add.right_neutral less_irrefl mult_less_cancel2)
  next
    case False
    have "n \<le> a div b \<longleftrightarrow> n * b < a"
    proof
      assume "n \<le> a div b"
      then have "n * b \<le> a div b * b" by (rule mult_le_mono1)
      with False a show "n * b < a" by linarith
    next
      assume "n * b < a"
      show "n \<le> a div b"
      proof (rule ccontr)
        assume "\<not> n \<le> a div b"
        then have "a div b * b + b \<le> n * b" using mult_le_mono1 [of "a div b + 1" n b] by simp
        with \<open>n * b < a\<close> a r show False by linarith
      qed
    qed
    with False show ?thesis by auto
  qed
qed

lemma unat_div_ceil:
  assumes "b \<noteq> 0"
  shows "unat (div_ceil a b) = unat a div unat b + (if 0 < unat a mod unat b then 1 else 0)"
proof -
  have b: "0 < unat b" using assms by (simp add: unat_gt_0)
  have dm: "unat (a div b) = unat a div unat b" "unat (a mod b) = unat a mod unat b"
    by (simp_all add: unat_div_distrib unat_mod_distrib)
  have a: "unat a < 2 ^ 64" using unsigned_less [where 'a = nat, of a] by simp
  show ?thesis
  proof (cases "0 < unat a mod unat b")
    case True
    then have "1 < unat b" using b by (cases "unat b = 1") auto
    then have "unat a div unat b \<le> unat a div 2" by (intro div_le_mono2) auto
    moreover have "unat a div 2 < 9223372036854775808" using a by (intro less_mult_imp_div_less) simp
    ultimately have "Suc (unat a div unat b) < 2 ^ 64" by simp
    then have "unat (a div b + 1) = Suc (unat a div unat b)"
      by (simp add: unat_word_ariths dm)
    with True show ?thesis by (simp add: div_ceil_def Let_def dm word_less_nat_alt)
  next
    case False
    then show ?thesis by (simp add: div_ceil_def Let_def dm word_less_nat_alt)
  qed
qed

text \<open>Offset pages tile the result set. For a request built by \<open>new\<close> the page size is between
  1 and 100, the 64-bit offset does not wrap, and against any tot the page has a next one exactly
  when rows remain after it, and a previous one exactly when rows may precede it.\<close>

theorem offset_pages_tile:
  assumes "offset_page_new page per_page = Inr req"
  shows "1 \<le> unat (op_limit req) \<and> unat (op_limit req) \<le> 100
    \<and> unat (op_offset req) = (unat page - 1) * unat (op_limit req)
    \<and> (pg_has_next (page_new items tot req) \<longleftrightarrow> unat (op_offset req) + unat (op_limit req) < unat tot)
    \<and> (pg_has_prev (page_new items tot req) \<longleftrightarrow> 0 < unat (op_offset req))"
proof -
  note req = offset_page_new_ok [OF assms]
  have lim: "unat (op_limit req) = unat (op_per_page req)"
    by (simp add: op_limit_def unat_ucast_u64)
  have off: "unat (op_offset req) = (unat page - 1) * unat (op_limit req)"
    using unat_offset [of req] req lim by simp
  have nxt: "unat (op_offset req) + unat (op_limit req) = unat page * unat (op_limit req)"
    using off req by (cases "unat page") auto
  have nz: "(ucast (op_per_page req) :: u64) \<noteq> 0"
    using req by (metis lim not_one_le_zero op_limit_def unat_0)
  have "pg_has_next (page_new items tot req) \<longleftrightarrow> unat page < unat (div_ceil tot (ucast (op_per_page req)))"
    using nz req by (simp add: page_new_def Let_def word_less_nat_alt unat_ucast_u64)
  also have "\<dots> \<longleftrightarrow> unat page * unat (op_limit req) < unat tot"
    using nz req ceil_less_iff [of "unat (op_per_page req)" "unat page" "unat tot"]
    by (simp add: unat_div_ceil unat_ucast_u64 lim)
  finally have "pg_has_next (page_new items tot req) \<longleftrightarrow> unat (op_offset req) + unat (op_limit req) < unat tot"
    by (simp add: nxt)
  moreover have "pg_has_prev (page_new items tot req) \<longleftrightarrow> 0 < unat (op_offset req)"
    using off req lim by (auto simp: page_new_def Let_def word_less_nat_alt)
  ultimately show ?thesis using off req lim by simp
qed

theorem offset_pages_tile_witness:
  "pg_has_next (page_new [] 50 \<lparr>op_page = 3, op_per_page = 20, op_sort = []\<rparr> :: unit page)
   \<longleftrightarrow> unat (op_offset \<lparr>op_page = 3, op_per_page = 20, op_sort = []\<rparr>) + 20 < 50"
proof -
  have "offset_page_new 3 20 = Inr \<lparr>op_page = 3, op_per_page = 20, op_sort = []\<rparr>"
    by (simp add: offset_page_new_def u32_clamp_def MAX_PAGE_SIZE_def)
  from offset_pages_tile [OF this, of "[] :: unit list" 50] show ?thesis
    by (simp add: op_limit_def)
qed

text \<open>A request that did not go through \<open>new\<close>, as deserialization allows, may carry page 0; its
  offset then wraps around to just below \<open>2^64\<close> instead of being rejected.\<close>

theorem page_zero_offset_wraps:
  "op_offset \<lparr>op_page = 0, op_per_page = pp, op_sort = ks\<rparr> = - ucast pp
   \<and> is_ok (offset_page_new page per_page) = (page \<noteq> 0)"
  by (auto simp: op_offset_def offset_page_new_def is_ok_def word_less_nat_alt unat_eq_0 split: sum.splits)

text \<open>The limit of every cursor or keyset request is between 1 and 100, a keyset request has a
  sort key, and the cursors of a page are the encodings of its first and last item.\<close>

theorem cursor_requests_bounded:
  "(cursor_page_request_new l = Inr c \<longrightarrow> 1 \<le> unat (cp_limit c) \<and> unat (cp_limit c) \<le> 100)
   \<and> (keyset_page_request_new keys l = Inr k \<longrightarrow> kp_sort k \<noteq> [] \<and> 1 \<le> unat (kp_limit k) \<and> unat (kp_limit k) \<le> 100)
   \<and> (cursor_page_from_items K items enc hp hn = Inr pg \<longrightarrow> items \<noteq> [] \<longrightarrow>
        cg_start_cursor pg \<noteq> None \<and> cursor_encode K (enc (hd items)) = Inr (the (cg_start_cursor pg))
        \<and> cursor_encode K (enc (last items)) = Inr (the (cg_end_cursor pg)))"
proof -
  have "1 \<le> unat (min x MAX_PAGE_SIZE) \<and> unat (min x MAX_PAGE_SIZE) \<le> 100" if "\<not> x < 1" for x :: u32
    using that by (auto simp: min_def MAX_PAGE_SIZE_def word_less_nat_alt word_le_nat_alt)
  then show ?thesis
    by (auto simp: cursor_page_request_new_def keyset_page_request_new_def cursor_page_from_items_def encode_opt_def
        list_first_def list_last_def hd_def split: if_splits sum.splits list.splits)
qed

theorem cursor_requests_bounded_witness:
  "unat (cp_limit \<lparr>cp_after = None, cp_before = None, cp_limit = 100, cp_sort = []\<rparr>) \<le> 100"
  using cursor_requests_bounded [of 500 "\<lparr>cp_after = None, cp_before = None, cp_limit = 100, cp_sort = []\<rparr>"]
  by (simp add: cursor_page_request_new_def MAX_PAGE_SIZE_def)

end
