(* ===== verification/Jobs.thy ===== *)
theory Jobs
  imports Http Instants "HOL-Library.Product_Lexorder" "HOL-Library.Multiset"
begin

text \<open>
  The background-job queue and its worker (\<open>klauthed-platform/src/jobs\<close>). The in-memory queue is
  a hash map from job ids to jobs: the model is the list of its values in iteration order, with
  distinct ids. Job ids are time-ordered UUIDs, natural numbers here, drawn by the caller of the
  model; their printing \<open>fmt\<close> is a parameter. The \<open>expect\<close> of the claim loop is a possible
  panic, \<open>None\<close>.
\<close>

datatype job_status = Queued | Running | Succeeded | Failed

definition is_terminal :: "job_status \<Rightarrow> bool" where
  "is_terminal s = (s = Succeeded \<or> s = Failed)"

record enqueued_job =
  ej_id :: nat
  ej_kind :: string
  ej_payload :: json
  ej_run_at :: timestamp
  ej_attempts :: u32
  ej_max_attempts :: u32
  ej_status :: job_status
  ej_created_at :: timestamp
  ej_last_error :: "string option"

definition DEFAULT_MAX_ATTEMPTS :: u32 where
  "DEFAULT_MAX_ATTEMPTS = 5"

text \<open>\<open>1i64.checked_shl(exp)\<close> is \<open>None\<close> from 64 on, which the cap of the exponent excludes.\<close>

definition backoff_for_attempt :: "u32 \<Rightarrow> duration" where
  "backoff_for_attempt attempts =
     (let exp = min (unat attempts - 1) 12 in seconds (min (2 ^ exp) 3600))"

record job_queue =
  jq_default_max_attempts :: u32
  jq_jobs :: "enqueued_job list"

definition jobs_with_max_attempts :: "u32 \<Rightarrow> job_queue" where
  "jobs_with_max_attempts n = \<lparr>jq_default_max_attempts = max n 1, jq_jobs = []\<rparr>"

definition jobs_new :: job_queue where
  "jobs_new = jobs_with_max_attempts DEFAULT_MAX_ATTEMPTS"

text \<open>Lookup and replacement in the hash map.\<close>

definition job_find :: "nat \<Rightarrow> enqueued_job list \<Rightarrow> enqueued_job option" where
  "job_find i js = find (\<lambda>j. ej_id j = i) js"

definition job_put :: "enqueued_job \<Rightarrow> enqueued_job list \<Rightarrow> enqueued_job list" where
  "job_put job js = map (\<lambda>j. if ej_id j = ej_id job then job else j) js"

definition jobs_get :: "nat \<Rightarrow> job_queue \<Rightarrow> enqueued_job option" where
  "jobs_get i q = job_find i (jq_jobs q)"

definition jobs_insert ::
  "nat \<Rightarrow> timestamp \<Rightarrow> string \<Rightarrow> json \<Rightarrow> timestamp \<Rightarrow> job_queue \<Rightarrow> enqueued_job \<times> job_queue" where
  "jobs_insert i now kind payload run_at q =
     (let job = \<lparr>ej_id = i, ej_kind = kind, ej_payload = payload, ej_run_at = run_at, ej_attempts = 0,
                 ej_max_attempts = jq_default_max_attempts q, ej_status = Queued, ej_created_at = now,
                 ej_last_error = None\<rparr>
      in (job, q\<lparr>jq_jobs := (if job_find i (jq_jobs q) = None then job # jq_jobs q
                             else job_put job (jq_jobs q))\<rparr>))"

text \<open>\<open>enqueue\<close> reads the clock for \<open>run_at\<close>, and \<open>insert\<close> again for \<open>created_at\<close>.\<close>

definition jobs_enqueue ::
  "nat \<Rightarrow> timestamp \<Rightarrow> timestamp \<Rightarrow> string \<Rightarrow> json \<Rightarrow> job_queue \<Rightarrow> (platform_error + enqueued_job) \<times> job_queue" where
  "jobs_enqueue i now now' kind payload q =
     (case jobs_insert i now' kind payload now q of (job, q') \<Rightarrow> (Inr job, q'))"

definition jobs_schedule ::
  "nat \<Rightarrow> timestamp \<Rightarrow> string \<Rightarrow> json \<Rightarrow> timestamp \<Rightarrow> job_queue \<Rightarrow> (platform_error + enqueued_job) \<times> job_queue" where
  "jobs_schedule i now kind payload run_at q =
     (case jobs_insert i now kind payload run_at q of (job, q') \<Rightarrow> (Inr job, q'))"

definition claim :: "enqueued_job \<Rightarrow> enqueued_job" where
  "claim j = j\<lparr>ej_status := Running, ej_attempts := ej_attempts j + 1\<rparr>"

definition is_due :: "timestamp \<Rightarrow> enqueued_job \<Rightarrow> bool" where
  "is_due now j = (ej_status j = Queued \<and> ej_run_at j \<le> now)"

definition due_order :: "enqueued_job \<Rightarrow> timestamp \<times> nat" where
  "due_order j = (ej_run_at j, ej_id j)"

definition due_ids :: "timestamp \<Rightarrow> nat option \<Rightarrow> enqueued_job list \<Rightarrow> nat list" where
  "due_ids now limit js =
     (let due = map snd (sort (map due_order (filter (is_due now) js)))
      in case limit of None \<Rightarrow> due | Some n \<Rightarrow> take n due)"

fun claim_loop :: "nat list \<Rightarrow> enqueued_job list \<Rightarrow> (enqueued_job list \<times> enqueued_job list) option" where
  "claim_loop [] js = Some ([], js)"
| "claim_loop (i # is) js =
     (case job_find i js of
        None \<Rightarrow> None
      | Some j \<Rightarrow>
          (case claim_loop is (job_put (claim j) js) of
             None \<Rightarrow> None
           | Some (claimed, js') \<Rightarrow> Some (claim j # claimed, js')))"

definition dequeue_due ::
  "timestamp \<Rightarrow> nat option \<Rightarrow> job_queue \<Rightarrow> ((platform_error + enqueued_job list) \<times> job_queue) option" where
  "dequeue_due now limit q =
     (case claim_loop (due_ids now limit (jq_jobs q)) (jq_jobs q) of
        None \<Rightarrow> None
      | Some (claimed, js) \<Rightarrow> Some (Inr claimed, q\<lparr>jq_jobs := js\<rparr>))"

definition mark_succeeded ::
  "(nat \<Rightarrow> string) \<Rightarrow> nat \<Rightarrow> job_queue \<Rightarrow> (platform_error + unit) \<times> job_queue" where
  "mark_succeeded fmt i q =
     (case job_find i (jq_jobs q) of
        None \<Rightarrow> (Inl (PE_JobNotFound (fmt i)), q)
      | Some j \<Rightarrow>
          (Inr (), q\<lparr>jq_jobs := job_put (j\<lparr>ej_status := Succeeded, ej_last_error := None\<rparr>) (jq_jobs q)\<rparr>))"

definition fail_job :: "time_range \<Rightarrow> timestamp \<Rightarrow> string \<Rightarrow> enqueued_job \<Rightarrow> enqueued_job" where
  "fail_job R now reason j =
     (let job = j\<lparr>ej_last_error := Some reason\<rparr>
      in if ej_max_attempts job \<le> ej_attempts job then job\<lparr>ej_status := Failed\<rparr>
         else (let delay = backoff_for_attempt (ej_attempts job)
               in job\<lparr>ej_run_at := (case checked_add R now delay of None \<Rightarrow> now | Some t \<Rightarrow> t),
                      ej_status := Queued\<rparr>))"

definition mark_failed ::
  "(nat \<Rightarrow> string) \<Rightarrow> time_range \<Rightarrow> timestamp \<Rightarrow> nat \<Rightarrow> string \<Rightarrow> job_queue \<Rightarrow> (platform_error + unit) \<times> job_queue" where
  "mark_failed fmt R now i reason q =
     (case job_find i (jq_jobs q) of
        None \<Rightarrow> (Inl (PE_JobNotFound (fmt i)), q)
      | Some j \<Rightarrow> (Inr (), q\<lparr>jq_jobs := job_put (fail_job R now reason j) (jq_jobs q)\<rparr>))"

definition is_stalled :: "timestamp \<Rightarrow> duration \<Rightarrow> enqueued_job \<Rightarrow> bool" where
  "is_stalled now stall_after j = (ej_status j = Running \<and> stall_after < duration_since now (ej_run_at j))"

definition recover :: "timestamp \<Rightarrow> enqueued_job \<Rightarrow> enqueued_job" where
  "recover now j = j\<lparr>ej_status := Queued, ej_run_at := now\<rparr>"

definition dequeue_stalled ::
  "timestamp \<Rightarrow> duration \<Rightarrow> job_queue \<Rightarrow> (platform_error + enqueued_job list) \<times> job_queue" where
  "dequeue_stalled now stall_after q =
     (Inr (map (recover now) (filter (is_stalled now stall_after) (jq_jobs q))),
      q\<lparr>jq_jobs := map (\<lambda>j. if is_stalled now stall_after j then recover now j else j) (jq_jobs q)\<rparr>)"

section \<open>Worker\<close>

text \<open>The handler acts on a world \<open>'w\<close> of its own; \<open>clock k\<close> is the answer to the \<open>k\<close>-th reading
  of the clock.\<close>

type_synonym 'w job_handler = "enqueued_job \<Rightarrow> 'w \<Rightarrow> (string + unit) \<times> 'w"

record 'w job_worker =
  jw_handler :: "'w job_handler"
  jw_batch_size :: nat

definition worker_new :: "'w job_handler \<Rightarrow> 'w job_worker" where
  "worker_new h = \<lparr>jw_handler = h, jw_batch_size = 100\<rparr>"

definition worker_with_batch_size :: "nat \<Rightarrow> 'w job_worker \<Rightarrow> 'w job_worker" where
  "worker_with_batch_size n wk = wk\<lparr>jw_batch_size := max n 1\<rparr>"

fun work_loop ::
  "(nat \<Rightarrow> string) \<Rightarrow> time_range \<Rightarrow> (nat \<Rightarrow> timestamp) \<Rightarrow> 'w job_handler \<Rightarrow> enqueued_job list \<Rightarrow> nat \<Rightarrow> job_queue \<Rightarrow> 'w
   \<Rightarrow> (platform_error + unit) \<times> nat \<times> job_queue \<times> 'w" where
  "work_loop fmt R clock handle [] k q w = (Inr (), k, q, w)"
| "work_loop fmt R clock handle (j # js) k q w =
     (case handle j w of
        (Inr _, w1) \<Rightarrow>
          (case mark_succeeded fmt (ej_id j) q of
             (Inl e, q1) \<Rightarrow> (Inl e, k, q1, w1)
           | (Inr _, q1) \<Rightarrow> work_loop fmt R clock handle js k q1 w1)
      | (Inl reason, w1) \<Rightarrow>
          (case mark_failed fmt R (clock k) (ej_id j) reason q of
             (Inl e, q1) \<Rightarrow> (Inl e, Suc k, q1, w1)
           | (Inr _, q1) \<Rightarrow> work_loop fmt R clock handle js (Suc k) q1 w1))"

definition run_once ::
  "(nat \<Rightarrow> string) \<Rightarrow> time_range \<Rightarrow> (nat \<Rightarrow> timestamp) \<Rightarrow> 'w job_worker \<Rightarrow> job_queue \<Rightarrow> 'w
   \<Rightarrow> ((platform_error + nat) \<times> job_queue \<times> 'w) option" where
  "run_once fmt R clock wk q w =
     (case dequeue_due (clock 0) (Some (jw_batch_size wk)) q of
        None \<Rightarrow> None
      | Some (Inl e, q1) \<Rightarrow> Some (Inl e, q1, w)
      | Some (Inr jobs, q1) \<Rightarrow>
          (case work_loop fmt R clock (jw_handler wk) jobs 1 q1 w of
             (Inl e, k, q2, w2) \<Rightarrow> Some (Inl e, q2, w2)
           | (Inr _, k, q2, w2) \<Rightarrow> Some (Inr (length jobs), q2, w2)))"

section \<open>The queue as a table\<close>

definition queue_ok :: "job_queue \<Rightarrow> bool" where
  "queue_ok q = distinct (map ej_id (jq_jobs q))"

lemma job_find_Some: "job_find i js = Some j \<Longrightarrow> j \<in> set js \<and> ej_id j = i"
  by (auto simp: job_find_def find_Some_iff in_set_conv_nth)

lemma job_find_None [simp]: "job_find i js = None \<longleftrightarrow> i \<notin> ej_id ` set js"
  by (auto simp: job_find_def find_None_iff)

lemma job_find_in: "distinct (map ej_id js) \<Longrightarrow> j \<in> set js \<Longrightarrow> job_find (ej_id j) js = Some j"
  by (induction js) (auto simp: job_find_def)

lemma job_find_map:
  "(\<And>j. ej_id (f j) = ej_id j) \<Longrightarrow> job_find i (map f js) = map_option f (job_find i js)"
  by (induction js) (auto simp: job_find_def)

lemma job_put_map:
  "distinct (map ej_id js) \<Longrightarrow> j \<in> set js \<Longrightarrow> ej_id job = ej_id j \<Longrightarrow>
   job_put job js = map (\<lambda>x. if x = j then job else x) js"
  by (auto simp: job_put_def distinct_map inj_on_def)

lemma ids_job_put [simp]: "map ej_id (job_put job js) = map ej_id js"
  by (induction js) (auto simp: job_put_def)

lemma id_image_put [simp]: "ej_id ` set (job_put job js) = ej_id ` set js"
  by (metis ids_job_put set_map)

lemma job_find_put [simp]:
  "job_find i (job_put job js) = (if i = ej_id job \<and> i \<in> ej_id ` set js then Some job else job_find i js)"
  by (induction js) (auto simp: job_put_def job_find_def)

lemma job_find_cons [simp]: "job_find i (j # js) = (if ej_id j = i then Some j else job_find i js)"
  by (simp add: job_find_def)

lemma job_fields [simp]:
  "ej_id (claim j) = ej_id j" "ej_status (claim j) = Running" "ej_attempts (claim j) = ej_attempts j + 1"
  "ej_max_attempts (claim j) = ej_max_attempts j" "ej_run_at (claim j) = ej_run_at j"
  "ej_id (recover now j) = ej_id j" "ej_status (recover now j) = Queued"
  "ej_attempts (recover now j) = ej_attempts j" "ej_max_attempts (recover now j) = ej_max_attempts j"
  "ej_id (fail_job R now reason j) = ej_id j" "ej_attempts (fail_job R now reason j) = ej_attempts j"
  "ej_max_attempts (fail_job R now reason j) = ej_max_attempts j"
  "ej_last_error (fail_job R now reason j) = Some reason"
  by (simp_all add: claim_def recover_def fail_job_def Let_def)

lemma fail_job_status:
  "ej_status (fail_job R now reason j) = (if ej_max_attempts j \<le> ej_attempts j then Failed else Queued)"
  by (simp add: fail_job_def Let_def)

section \<open>Claiming\<close>

lemma due_ids_props:
  assumes "distinct (map ej_id js)"
  shows "distinct (due_ids now limit js)"
    and "set (due_ids now limit js) \<subseteq> ej_id ` {j \<in> set js. is_due now j}"
proof -
  let ?s = "sort (map due_order (filter (is_due now) js))"
  have fst_snd: "map snd (map due_order xs) = map ej_id xs" for xs
    by (simp add: due_order_def)
  have "mset (map snd ?s) = mset (map ej_id (filter (is_due now) js))"
    by (metis fst_snd mset_map mset_sort)
  moreover have "distinct (map ej_id (filter (is_due now) js))"
    using assms by (simp add: distinct_map inj_on_def)
  ultimately have d: "distinct (map snd ?s)" and e: "set (map snd ?s) = set (map ej_id (filter (is_due now) js))"
    by (metis mset_eq_imp_distinct_iff, metis mset_eq_setD)
  show "distinct (due_ids now limit js)"
    using d by (auto simp: due_ids_def Let_def split: option.splits)
  have "set (due_ids now limit js) \<subseteq> set (map snd ?s)"
    by (auto simp: due_ids_def Let_def dest: in_set_takeD split: option.splits)
  with e show "set (due_ids now limit js) \<subseteq> ej_id ` {j \<in> set js. is_due now j}"
    by auto
qed

lemma claim_loop_result:
  assumes "distinct (map ej_id js)" and "distinct is" and "set is \<subseteq> ej_id ` set js"
  shows "claim_loop is js =
     Some (map (\<lambda>i. claim (the (job_find i js))) is,
           map (\<lambda>j. if ej_id j \<in> set is then claim j else j) js)"
  using assms
proof (induction "is" arbitrary: js)
  case Nil
  then show ?case by simp
next
  case (Cons i "is")
  then obtain j where j: "job_find i js = Some j" "j \<in> set js" "ej_id j = i"
    by (metis (no_types, lifting) image_iff in_mono job_find_in list.set_intros(1))
  let ?js = "job_put (claim j) js"
  have put: "?js = map (\<lambda>x. if x = j then claim j else x) js"
    using Cons.prems j by (intro job_put_map) auto
  have "claim_loop is ?js = Some (map (\<lambda>i. claim (the (job_find i ?js))) is,
      map (\<lambda>j. if ej_id j \<in> set is then claim j else j) ?js)"
    using Cons.prems by (intro Cons.IH) simp_all
  moreover have "map (\<lambda>i. claim (the (job_find i ?js))) is = map (\<lambda>i. claim (the (job_find i js))) is"
    using Cons.prems(2) j by (auto intro!: map_cong)
  moreover have "map (\<lambda>j. if ej_id j \<in> set is then claim j else j) ?js
      = map (\<lambda>j. if ej_id j \<in> set (i # is) then claim j else j) js"
    using Cons.prems j by (auto simp: put distinct_map inj_on_def)
  ultimately show ?case using j by simp
qed

lemma dequeue_due_result:
  assumes "queue_ok q" and "ids = due_ids now limit (jq_jobs q)"
  shows "dequeue_due now limit q =
     Some (Inr (map (\<lambda>i. claim (the (jobs_get i q))) ids),
           q\<lparr>jq_jobs := map (\<lambda>j. if ej_id j \<in> set ids then claim j else j) (jq_jobs q)\<rparr>)"
proof -
  have "distinct (map ej_id (jq_jobs q))" using assms by (simp add: queue_ok_def)
  from claim_loop_result [OF this due_ids_props(1) [OF this], of now limit] due_ids_props(2) [OF this, of now limit]
  have "claim_loop ids (jq_jobs q) = Some (map (\<lambda>i. claim (the (job_find i (jq_jobs q)))) ids,
      map (\<lambda>j. if ej_id j \<in> set ids then claim j else j) (jq_jobs q))"
    unfolding assms(2) by blast
  then show ?thesis by (simp add: dequeue_due_def assms(2) jobs_get_def)
qed

section \<open>Histories of the queue\<close>

text \<open>The operations of any number of workers and clients, in the order the mutex serializes them. A
  step answers the jobs handed out and the jobs recovered.\<close>

datatype job_op =
    JSchedule nat timestamp string json timestamp
  | JDequeue timestamp "nat option"
  | JSucceed nat
  | JFail timestamp nat string
  | JStalled timestamp duration

fun job_step ::
  "(nat \<Rightarrow> string) \<Rightarrow> time_range \<Rightarrow> job_op \<Rightarrow> job_queue \<Rightarrow> enqueued_job list \<times> enqueued_job list \<times> job_queue" where
  "job_step fmt R (JSchedule i now kind payload run_at) q = ([], [], snd (jobs_schedule i now kind payload run_at q))"
| "job_step fmt R (JDequeue now limit) q =
     (case dequeue_due now limit q of Some (Inr hs, q') \<Rightarrow> (hs, [], q') | _ \<Rightarrow> ([], [], q))"
| "job_step fmt R (JSucceed i) q = ([], [], snd (mark_succeeded fmt i q))"
| "job_step fmt R (JFail now i reason) q = ([], [], snd (mark_failed fmt R now i reason q))"
| "job_step fmt R (JStalled now d) q =
     (case dequeue_stalled now d q of (Inr rs, q') \<Rightarrow> ([], rs, q') | (Inl _, q') \<Rightarrow> ([], [], q'))"

text \<open>How often job \<open>i\<close> is handed out, and recovered, along a history.\<close>

fun handouts :: "(nat \<Rightarrow> string) \<Rightarrow> time_range \<Rightarrow> nat \<Rightarrow> job_op list \<Rightarrow> job_queue \<Rightarrow> nat" where
  "handouts fmt R i [] q = 0"
| "handouts fmt R i (op # ops) q =
     (case job_step fmt R op q of (hs, rs, q') \<Rightarrow> count_list (map ej_id hs) i + handouts fmt R i ops q')"

fun recoveries :: "(nat \<Rightarrow> string) \<Rightarrow> time_range \<Rightarrow> nat \<Rightarrow> job_op list \<Rightarrow> job_queue \<Rightarrow> nat" where
  "recoveries fmt R i [] q = 0"
| "recoveries fmt R i (op # ops) q =
     (case job_step fmt R op q of (hs, rs, q') \<Rightarrow> count_list (map ej_id rs) i + recoveries fmt R i ops q')"

fun schedules :: "nat \<Rightarrow> job_op \<Rightarrow> bool" where
  "schedules i (JSchedule k _ _ _ _) = (k = i)"
| "schedules i _ = False"

fun fails :: "nat \<Rightarrow> job_op \<Rightarrow> bool" where
  "fails i (JFail _ k _) = (k = i)"
| "fails i _ = False"

text \<open>What one operation may do to job \<open>i\<close>.\<close>

inductive job_change :: "bool \<Rightarrow> enqueued_job \<Rightarrow> nat \<Rightarrow> nat \<Rightarrow> enqueued_job \<Rightarrow> bool" where
  unchanged: "job_change f j 0 0 j"
| claimed: "ej_status j = Queued \<Longrightarrow> job_change f j (Suc 0) 0 (claim j)"
| recovered: "ej_status j = Running \<Longrightarrow> job_change f j 0 (Suc 0) (recover now j)"
| succeeded: "job_change f j 0 0 (j\<lparr>ej_status := Succeeded, ej_last_error := None\<rparr>)"
| failed: "job_change True j 0 0 (fail_job R now reason j)"


lemma count_list_distinct: "distinct xs \<Longrightarrow> count_list xs x = (if x \<in> set xs then 1 else 0)"
  by (induction xs) auto

lemma queue_ok_get: "queue_ok q \<Longrightarrow> j \<in> set (jq_jobs q) \<Longrightarrow> jobs_get (ej_id j) q = Some j"
  by (simp add: jobs_get_def queue_ok_def job_find_in)

lemma queue_ok_map: "(\<And>j. ej_id (f j) = ej_id j) \<Longrightarrow> queue_ok q \<Longrightarrow> queue_ok (q\<lparr>jq_jobs := map f (jq_jobs q)\<rparr>)"
  by (simp add: queue_ok_def comp_def)

lemma put_step_change:
  assumes "queue_ok q" and "jobs_get i q = Some j" and "job_find k (jq_jobs q) = Some x" and "ej_id x' = ej_id x"
    and "k = i \<Longrightarrow> job_change f j 0 0 x'"
  shows "queue_ok (q\<lparr>jq_jobs := job_put x' (jq_jobs q)\<rparr>)
    \<and> (\<exists>j'. jobs_get i (q\<lparr>jq_jobs := job_put x' (jq_jobs q)\<rparr>) = Some j' \<and> job_change f j 0 0 j')"
proof -
  have "ej_id x = k" "x \<in> set (jq_jobs q)" using job_find_Some [OF assms(3)] by auto
  then show ?thesis
    using assms by (cases "k = i") (auto simp: queue_ok_def jobs_get_def intro: job_change.unchanged)
qed

lemma dequeue_step_change:
  assumes "queue_ok q" and "jobs_get i q = Some j" and "job_step fmt R (JDequeue now limit) q = (hs, rs, q')"
  shows "queue_ok q' \<and> (\<exists>j'. jobs_get i q' = Some j'
           \<and> job_change f j (count_list (map ej_id hs) i) (count_list (map ej_id rs) i) j')"
proof -
  let ?ids = "due_ids now limit (jq_jobs q)"
  let ?f = "\<lambda>j. if ej_id j \<in> set ?ids then claim j else j"
  have js: "distinct (map ej_id (jq_jobs q))" using assms(1) by (simp add: queue_ok_def)
  note due = due_ids_props [OF js, of now limit]
  have step: "hs = map (\<lambda>i. claim (the (jobs_get i q))) ?ids" "rs = []" "q' = q\<lparr>jq_jobs := map ?f (jq_jobs q)\<rparr>"
    using assms(3) dequeue_due_result [OF assms(1) refl] by simp_all
  have get: "jobs_get k q = Some x \<Longrightarrow> ej_id x = k" for k x
    by (simp add: jobs_get_def job_find_Some)
  have "map ej_id hs = ?ids"
  proof -
    have "ej_id (the (jobs_get k q)) = k" if "k \<in> set ?ids" for k
      using that due(2) queue_ok_get [OF assms(1)] by force
    then show ?thesis by (simp add: step map_idI)
  qed
  then have count: "count_list (map ej_id hs) i = (if i \<in> set ?ids then 1 else 0)"
    using due(1) by (simp add: count_list_distinct)
  have get': "jobs_get i q' = Some (?f j)"
    using assms(2) by (simp add: step jobs_get_def job_find_map)
  have queued: "ej_status j = Queued" if "i \<in> set ?ids"
  proof -
    from that due(2) obtain x where "x \<in> set (jq_jobs q)" "is_due now x" "ej_id x = i" by auto
    with queue_ok_get [OF assms(1)] assms(2) show ?thesis by (auto simp: is_due_def)
  qed
  have "queue_ok q'" using assms(1) unfolding step by (intro queue_ok_map) simp_all
  moreover have "job_change f j (count_list (map ej_id hs) i) (count_list (map ej_id rs) i) (?f j)"
    using queued get [OF assms(2)] unfolding count step(2) by (auto intro: job_change.intros)
  ultimately show ?thesis using get' by blast
qed

lemma job_step_change:
  assumes "queue_ok q" and "jobs_get i q = Some j" and "\<not> schedules i op" and "job_step fmt R op q = (hs, rs, q')"
  shows "queue_ok q' \<and> (\<exists>j'. jobs_get i q' = Some j'
           \<and> job_change (fails i op) j (count_list (map ej_id hs) i) (count_list (map ej_id rs) i) j')"
proof (cases op)
  case (JDequeue now limit)
  with dequeue_step_change assms show ?thesis by blast
next
  case (JStalled now d)
  let ?f = "\<lambda>j. if is_stalled now d j then recover now j else j"
  have js: "distinct (map ej_id (jq_jobs q))" using assms(1) by (simp add: queue_ok_def)
  have step: "hs = []" "rs = map (recover now) (filter (is_stalled now d) (jq_jobs q))"
      "q' = q\<lparr>jq_jobs := map ?f (jq_jobs q)\<rparr>"
    using assms(4) JStalled by (simp_all add: dequeue_stalled_def)
  have j: "j \<in> set (jq_jobs q)" "ej_id j = i"
    using assms(2) job_find_Some by (auto simp: jobs_get_def)
  have "map ej_id rs = map ej_id (filter (is_stalled now d) (jq_jobs q))" by (simp add: step)
  moreover have "distinct (map ej_id (filter (is_stalled now d) (jq_jobs q)))"
    using js by (simp add: distinct_map inj_on_def)
  moreover have "i \<in> ej_id ` {x \<in> set (jq_jobs q). is_stalled now d x} \<longleftrightarrow> is_stalled now d j"
    using j js by (auto simp: distinct_map inj_on_def)
  ultimately have count: "count_list (map ej_id rs) i = (if is_stalled now d j then 1 else 0)"
    by (simp add: count_list_distinct)
  have get': "jobs_get i q' = Some (?f j)"
    using assms(2) by (simp add: step jobs_get_def job_find_map)
  have "queue_ok q'" using assms(1) unfolding step by (intro queue_ok_map) simp_all
  moreover have "job_change (fails i op) j (count_list (map ej_id hs) i) (count_list (map ej_id rs) i) (?f j)"
    unfolding count step(1) by (auto simp: is_stalled_def intro: job_change.intros)
  ultimately show ?thesis using get' by blast
next
  case (JSchedule k now kind payload run_at)
  with assms show ?thesis
    by (auto simp: jobs_schedule_def jobs_insert_def jobs_get_def queue_ok_def Let_def
        intro!: job_change.unchanged split: if_splits)
next
  case (JSucceed k)
  show ?thesis
  proof (cases "job_find k (jq_jobs q)")
    case None
    with assms JSucceed show ?thesis by (auto simp: mark_succeeded_def intro: job_change.unchanged)
  next
    case (Some x)
    then have "k = i \<Longrightarrow> x = j" using assms(2) by (simp add: jobs_get_def)
    with assms JSucceed Some put_step_change [OF assms(1,2) Some, of "x\<lparr>ej_status := Succeeded, ej_last_error := None\<rparr>"]
    show ?thesis by (auto simp: mark_succeeded_def intro: job_change.succeeded)
  qed
next
  case (JFail now k reason)
  show ?thesis
  proof (cases "job_find k (jq_jobs q)")
    case None
    with assms JFail show ?thesis by (auto simp: mark_failed_def intro: job_change.unchanged)
  next
    case (Some x)
    then have "k = i \<Longrightarrow> x = j" using assms(2) by (simp add: jobs_get_def)
    with assms JFail Some put_step_change [OF assms(1,2) Some, of "fail_job R now reason x" "fails i op"]
    show ?thesis by (auto simp: mark_failed_def intro: job_change.failed)
  qed
qed

section \<open>Attempts\<close>

text \<open>A job that may be claimed \<open>n\<close> more times before a recovery is needed.\<close>

definition job_budget :: "nat \<Rightarrow> enqueued_job \<Rightarrow> bool" where
  "job_budget M j = (unat (ej_max_attempts j) \<le> M \<and> unat (ej_attempts j) \<le> M
     \<and> (ej_status j = Queued \<longrightarrow> unat (ej_attempts j) < M))"

lemma unat_attempts_Suc: "unat (a :: u32) < M \<Longrightarrow> M < 2 ^ 32 \<Longrightarrow> unat (a + 1) = Suc (unat a)"
  by (simp add: unat_word_ariths)

lemma job_change_budget:
  assumes "job_change f j h r j'" and "job_budget M j" and "M < 2 ^ 32"
  shows "job_budget (M + r) j' \<and> unat (ej_attempts j') = unat (ej_attempts j) + h"
  using assms
  by cases (auto simp: job_budget_def unat_attempts_Suc fail_job_status word_le_nat_alt split: if_splits)

lemma handouts_bounded:
  assumes "queue_ok q" and "jobs_get i q = Some j" and "\<forall>op \<in> set ops. \<not> schedules i op"
    and "job_budget M j" and "M + recoveries fmt R i ops q < 2 ^ 32"
  shows "unat (ej_attempts j) + handouts fmt R i ops q \<le> M + recoveries fmt R i ops q"
  using assms
proof (induction ops arbitrary: q j M)
  case Nil
  then show ?case by (simp add: job_budget_def)
next
  case (Cons op ops)
  obtain hs rs q' where step: "job_step fmt R op q = (hs, rs, q')" by (metis prod_cases3)
  let ?h = "count_list (map ej_id hs) i" and ?r = "count_list (map ej_id rs) i"
  from job_step_change [OF Cons.prems(1,2) _ step] Cons.prems(3)
  obtain j' where j': "queue_ok q'" "jobs_get i q' = Some j'" "job_change (fails i op) j ?h ?r j'" by auto
  have M: "M + ?r + recoveries fmt R i ops q' < 2 ^ 32" using Cons.prems(5) by (simp add: step)
  then have "M < 2 ^ 32" by simp
  from job_change_budget [OF j'(3) Cons.prems(4) this]
  have b: "job_budget (M + ?r) j'" "unat (ej_attempts j') = unat (ej_attempts j) + ?h" by auto
  have "unat (ej_attempts j') + handouts fmt R i ops q' \<le> M + ?r + recoveries fmt R i ops q'"
    using Cons.prems(3) j' b(1) M by (intro Cons.IH) auto
  with b(2) show ?case by (simp add: step)
qed

lemma running_not_handed:
  assumes "queue_ok q" and "jobs_get i q = Some j" and "ej_status j \<noteq> Queued"
    and "\<forall>op \<in> set ops. \<not> schedules i op \<and> \<not> fails i op" and "recoveries fmt R i ops q = 0"
  shows "handouts fmt R i ops q = 0"
  using assms
proof (induction ops arbitrary: q j)
  case (Cons op ops)
  obtain hs rs q' where step: "job_step fmt R op q = (hs, rs, q')" by (metis prod_cases3)
  let ?h = "count_list (map ej_id hs) i" and ?r = "count_list (map ej_id rs) i"
  from job_step_change [OF Cons.prems(1,2) _ step] Cons.prems(4)
  obtain j' where j': "queue_ok q'" "jobs_get i q' = Some j'" "job_change False j ?h ?r j'" by auto
  have r: "?r = 0" "recoveries fmt R i ops q' = 0" using Cons.prems(5) by (simp_all add: step)
  from j'(3) have "?h = 0 \<and> ej_status j' \<noteq> Queued"
    using Cons.prems(3) r(1) by cases auto
  with Cons.IH [OF j'(1,2)] Cons.prems(4) r(2) show ?case by (simp add: step)
qed simp

text \<open>C27: a job is attempted no more often than its cap. Along any history of the operations of any
  number of workers, a job scheduled on a queue whose cap is at least one is handed out at most
  cap times plus the number of times it was recovered from a stall; only the recovery goes past
  the cap.\<close>

theorem job_attempts_capped:
  assumes "queue_ok q" and "1 \<le> jq_default_max_attempts q"
    and "jobs_schedule i now kind payload run_at q = (Inr job, q')"
    and "\<forall>op \<in> set ops. \<not> schedules i op"
    and "unat (jq_default_max_attempts q) + recoveries fmt R i ops q' < 2 ^ 32"
  shows "handouts fmt R i ops q' \<le> unat (jq_default_max_attempts q) + recoveries fmt R i ops q'"
proof -
  have job: "ej_max_attempts job = jq_default_max_attempts q" "ej_attempts job = 0" "ej_id job = i"
    using assms(3) by (auto simp: jobs_schedule_def jobs_insert_def Let_def)
  have "queue_ok q'" "jobs_get i q' = Some job"
    using assms(1,3) by (auto simp: jobs_schedule_def jobs_insert_def jobs_get_def queue_ok_def Let_def split: if_splits)
  moreover have "job_budget (unat (jq_default_max_attempts q)) job"
    using assms(2) job by (simp add: job_budget_def word_le_nat_alt)
  ultimately show ?thesis
    using handouts_bounded [of q' i job ops "unat (jq_default_max_attempts q)"] assms(4,5) job by simp
qed

text \<open>A claimed job has one owner. After a claim hands out a job, no further claim of any worker
  hands it out again until it is reported failed or recovered from a stall.\<close>

theorem job_claim_exclusive:
  assumes "queue_ok q" and "dequeue_due now limit q = Some (Inr jobs, q')" and "i \<in> ej_id ` set jobs"
    and "\<forall>op \<in> set ops. \<not> schedules i op \<and> \<not> fails i op" and "recoveries fmt R i ops q' = 0"
  shows "handouts fmt R i ops q' = 0"
proof -
  let ?ids = "due_ids now limit (jq_jobs q)"
  have js: "distinct (map ej_id (jq_jobs q))" using assms(1) by (simp add: queue_ok_def)
  have res: "jobs = map (\<lambda>i. claim (the (jobs_get i q))) ?ids"
    "q' = q\<lparr>jq_jobs := map (\<lambda>j. if ej_id j \<in> set ?ids then claim j else j) (jq_jobs q)\<rparr>"
    using assms(2) dequeue_due_result [OF assms(1) refl] by simp_all
  have "\<exists>j. j \<in> set (jq_jobs q) \<and> ej_id j = i \<and> i \<in> set ?ids"
    using assms(3) res(1) due_ids_props(2) [OF js, of now limit] queue_ok_get [OF assms(1)] by force
  then obtain j where j: "jobs_get i q = Some j" "ej_id j = i" "i \<in> set ?ids"
    using queue_ok_get [OF assms(1)] by blast
  have "queue_ok q'" using assms(1) unfolding res(2) by (intro queue_ok_map) simp_all
  moreover have "jobs_get i q' = Some (claim j)"
    using j by (simp add: res(2) jobs_get_def job_find_map)
  ultimately show ?thesis
    using running_not_handed assms(4,5) by (metis job_fields(2) job_status.distinct(1))
qed

section \<open>Order of the claims\<close>

definition firsts :: "nat option \<Rightarrow> 'a list \<Rightarrow> 'a list" where
  "firsts limit xs = (case limit of None \<Rightarrow> xs | Some n \<Rightarrow> take n xs)"

lemma due_ids_firsts: "due_ids now limit js = map snd (firsts limit (sort (map due_order (filter (is_due now) js))))"
  by (simp add: due_ids_def firsts_def take_map split: option.splits)

lemma due_order_claimed:
  assumes "queue_ok q" and "(t, i) \<in> set (sort (map due_order (filter (is_due now) (jq_jobs q))))"
  shows "due_order (claim (the (jobs_get i q))) = (t, i)"
  using assms(2) queue_ok_get [OF assms(1)] by (auto simp: due_order_def)

text \<open>Claims are handed out in due order. A claim never panics; it hands out exactly the due queued
  jobs, earliest run time first and the id breaking ties, cut to the limit; each of them is now
  running with one more attempt, and no other job changes.\<close>

lemma dequeue_order_facts:
  assumes "queue_ok q"
  shows "\<exists>jobs q'. dequeue_due now limit q = Some (Inr jobs, q')
    \<and> map due_order jobs = firsts limit (sort (map due_order (filter (is_due now) (jq_jobs q))))
    \<and> (\<forall>j \<in> set jobs. jobs_get (ej_id j) q' = Some j \<and> ej_status j = Running
         \<and> (\<exists>x. jobs_get (ej_id j) q = Some x \<and> is_due now x \<and> ej_attempts j = ej_attempts x + 1))
    \<and> (\<forall>i. i \<notin> ej_id ` set jobs \<longrightarrow> jobs_get i q' = jobs_get i q)"
proof -
  let ?due = "firsts limit (sort (map due_order (filter (is_due now) (jq_jobs q))))"
  let ?ids = "due_ids now limit (jq_jobs q)"
  let ?jobs = "map (\<lambda>i. claim (the (jobs_get i q))) ?ids"
  let ?q = "q\<lparr>jq_jobs := map (\<lambda>j. if ej_id j \<in> set ?ids then claim j else j) (jq_jobs q)\<rparr>"
  have js: "distinct (map ej_id (jq_jobs q))" using assms by (simp add: queue_ok_def)
  have sub: "set ?due \<subseteq> set (sort (map due_order (filter (is_due now) (jq_jobs q))))"
    by (auto simp: firsts_def dest: in_set_takeD split: option.splits)
  have "due_order (claim (the (jobs_get (snd p) q))) = p" if "p \<in> set ?due" for p
    using due_order_claimed [OF assms, of "fst p" "snd p" now] subsetD [OF sub that] unfolding prod.collapse .
  then have order: "map due_order ?jobs = ?due"
    unfolding due_ids_firsts map_map by (intro map_idI) (simp add: comp_def)
  have known: "\<exists>x. jobs_get i q = Some x \<and> is_due now x \<and> ej_id x = i" if "i \<in> set ?ids" for i
    using that due_ids_props(2) [OF js, of now limit] queue_ok_get [OF assms] by auto
  have get: "jobs_get i ?q = map_option (\<lambda>j. if ej_id j \<in> set ?ids then claim j else j) (jobs_get i q)" for i
    by (simp add: jobs_get_def job_find_map)
  have ids: "ej_id ` set ?jobs = set ?ids" using known by force
  have "jobs_get i ?q = jobs_get i q" if "i \<notin> ej_id ` set ?jobs" for i
  proof (cases "jobs_get i q")
    case (Some j)
    then have "ej_id j = i" by (simp add: jobs_get_def job_find_Some)
    with Some that show ?thesis unfolding ids get by simp
  qed (simp add: get)
  moreover have "jobs_get (ej_id j) ?q = Some j \<and> ej_status j = Running
      \<and> (\<exists>x. jobs_get (ej_id j) q = Some x \<and> is_due now x \<and> ej_attempts j = ej_attempts x + 1)"
    if "j \<in> set ?jobs" for j
    using that known unfolding get by fastforce
  ultimately show ?thesis using order dequeue_due_result [OF assms refl, of now limit] by blast
qed

section \<open>The worker\<close>

text \<open>What a pass makes of a claimed job.\<close>

definition settled :: "enqueued_job \<Rightarrow> enqueued_job \<Rightarrow> bool" where
  "settled j j' = (ej_id j' = ej_id j \<and> ej_attempts j' = ej_attempts j \<and>
     (ej_status j' = Succeeded \<and> ej_last_error j' = None
      \<or> ej_status j' = Failed \<and> ej_last_error j' \<noteq> None \<and> ej_max_attempts j \<le> ej_attempts j
      \<or> ej_status j' = Queued \<and> ej_last_error j' \<noteq> None \<and> ej_attempts j < ej_max_attempts j))"

lemma settled_succeeded: "settled j (j\<lparr>ej_status := Succeeded, ej_last_error := None\<rparr>)"
  by (simp add: settled_def)

lemma settled_failed: "settled j (fail_job R now reason j)"
  by (auto simp: settled_def fail_job_status)

lemma settle_put:
  assumes "queue_ok q" and "jobs_get i q = Some j" and "settled j j'"
    and "q' = q\<lparr>jq_jobs := job_put j' (jq_jobs q)\<rparr>"
  shows "queue_ok q' \<and> jobs_get i q' = Some j' \<and> (\<forall>k. k \<noteq> i \<longrightarrow> jobs_get k q' = jobs_get k q)"
proof -
  have "ej_id j = i" "j \<in> set (jq_jobs q)" using assms(2) job_find_Some by (auto simp: jobs_get_def)
  then show ?thesis using assms by (auto simp: queue_ok_def jobs_get_def settled_def)
qed

lemma mark_settles:
  assumes "queue_ok q" and "jobs_get i q = Some j"
  shows "\<exists>q' j'. mark_succeeded fmt i q = (Inr (), q') \<and> queue_ok q' \<and> jobs_get i q' = Some j' \<and> settled j j'
           \<and> (\<forall>k. k \<noteq> i \<longrightarrow> jobs_get k q' = jobs_get k q)"
    and "\<exists>q' j'. mark_failed fmt R now i reason q = (Inr (), q') \<and> queue_ok q' \<and> jobs_get i q' = Some j' \<and> settled j j'
           \<and> (\<forall>k. k \<noteq> i \<longrightarrow> jobs_get k q' = jobs_get k q)"
proof -
  have find: "job_find i (jq_jobs q) = Some j" using assms(2) by (simp add: jobs_get_def)
  from settle_put [OF assms settled_succeeded refl] find
  show "\<exists>q' j'. mark_succeeded fmt i q = (Inr (), q') \<and> queue_ok q' \<and> jobs_get i q' = Some j' \<and> settled j j'
           \<and> (\<forall>k. k \<noteq> i \<longrightarrow> jobs_get k q' = jobs_get k q)"
    using settled_succeeded by (auto simp: mark_succeeded_def)
  from settle_put [OF assms settled_failed refl] find
  show "\<exists>q' j'. mark_failed fmt R now i reason q = (Inr (), q') \<and> queue_ok q' \<and> jobs_get i q' = Some j' \<and> settled j j'
           \<and> (\<forall>k. k \<noteq> i \<longrightarrow> jobs_get k q' = jobs_get k q)"
    using settled_failed by (auto simp: mark_failed_def)
qed

lemma work_loop_settles:
  assumes "queue_ok q" and "distinct (map ej_id js)" and "\<forall>j \<in> set js. jobs_get (ej_id j) q = Some j"
  shows "\<exists>k' q' w'. work_loop fmt R clock handle js k q w = (Inr (), k', q', w') \<and> queue_ok q'
     \<and> (\<forall>j \<in> set js. \<exists>j'. jobs_get (ej_id j) q' = Some j' \<and> settled j j')
     \<and> (\<forall>i. i \<notin> ej_id ` set js \<longrightarrow> jobs_get i q' = jobs_get i q)"
  using assms
proof (induction js arbitrary: k q w)
  case (Cons j js)
  obtain r w1 where h: "handle j w = (r, w1)" by fastforce
  note get = Cons.prems(3) [rule_format, of j, simplified]
  obtain q1 j1 k1 where step: "work_loop fmt R clock handle (j # js) k q w = work_loop fmt R clock handle js k1 q1 w1"
      "queue_ok q1" "jobs_get (ej_id j) q1 = Some j1" "settled j j1"
      "\<forall>i. i \<noteq> ej_id j \<longrightarrow> jobs_get i q1 = jobs_get i q"
  proof (cases r)
    case (Inl reason)
    with mark_settles(2) [OF Cons.prems(1) get, of fmt R "clock k" reason] h that show thesis by fastforce
  next
    case (Inr u)
    with mark_settles(1) [OF Cons.prems(1) get, of fmt] h that show thesis by fastforce
  qed
  have "\<forall>x \<in> set js. ej_id x \<noteq> ej_id j" using Cons.prems(2) by (auto simp: image_iff)
  then have "\<forall>x \<in> set js. jobs_get (ej_id x) q1 = Some x" using Cons.prems(3) step(5) by simp
  from Cons.IH [OF step(2) _ this, of k1 w1] Cons.prems(2)
  obtain k' q' w' where "work_loop fmt R clock handle js k1 q1 w1 = (Inr (), k', q', w')" "queue_ok q'"
      "\<forall>j \<in> set js. \<exists>j'. jobs_get (ej_id j) q' = Some j' \<and> settled j j'"
      "\<forall>i. i \<notin> ej_id ` set js \<longrightarrow> jobs_get i q' = jobs_get i q1"
    by auto
  then show ?case using step Cons.prems(2) by auto
qed simp

text \<open>One pass of the worker. It never panics and never loses a job: every due job up to the batch
  size is handed to the handler and then recorded as succeeded, as failed once its attempts are
  used up, or as queued again with the error kept; none of them is left running, and every other
  job is untouched.\<close>

theorem worker_settles_batch:
  assumes "queue_ok q"
  shows "\<exists>jobs q1 q' w'. dequeue_due (clock 0) (Some (jw_batch_size wk)) q = Some (Inr jobs, q1)
    \<and> run_once fmt R clock wk q w = Some (Inr (length jobs), q', w') \<and> queue_ok q'
    \<and> (\<forall>j \<in> set jobs. \<exists>j'. jobs_get (ej_id j) q' = Some j' \<and> settled j j' \<and> ej_status j' \<noteq> Running)
    \<and> (\<forall>i. i \<notin> ej_id ` set jobs \<longrightarrow> jobs_get i q' = jobs_get i q)"
proof -
  let ?ids = "due_ids (clock 0) (Some (jw_batch_size wk)) (jq_jobs q)"
  obtain jobs q1 where d: "dequeue_due (clock 0) (Some (jw_batch_size wk)) q = Some (Inr jobs, q1)"
      "\<forall>j \<in> set jobs. jobs_get (ej_id j) q1 = Some j" "\<forall>i. i \<notin> ej_id ` set jobs \<longrightarrow> jobs_get i q1 = jobs_get i q"
      "map due_order jobs = firsts (Some (jw_batch_size wk)) (sort (map due_order (filter (is_due (clock 0)) (jq_jobs q))))"
    using dequeue_order_facts [OF assms] by metis
  have "map ej_id jobs = map snd (map due_order jobs)" by (simp add: due_order_def)
  then have "map ej_id jobs = ?ids" using d(4) by (simp add: due_ids_firsts)
  then have "distinct (map ej_id jobs)"
    using due_ids_props(1) assms by (simp add: queue_ok_def)
  moreover have "queue_ok q1"
    using d(1) dequeue_due_result [OF assms refl] assms by (auto intro!: queue_ok_map)
  ultimately obtain k' q' w' where
      "work_loop fmt R clock (jw_handler wk) jobs 1 q1 w = (Inr (), k', q', w')" "queue_ok q'"
      "\<forall>j \<in> set jobs. \<exists>j'. jobs_get (ej_id j) q' = Some j' \<and> settled j j'"
      "\<forall>i. i \<notin> ej_id ` set jobs \<longrightarrow> jobs_get i q' = jobs_get i q1"
    using work_loop_settles [OF _ _ d(2)] by metis
  then show ?thesis using d by (fastforce simp: run_once_def settled_def)
qed

section \<open>A queue with one job\<close>

definition demo_queue :: job_queue where
  "demo_queue = snd (jobs_schedule 1 0 ''mail'' JNull 0 (jobs_with_max_attempts 1))"

lemma demo_queue_ok: "queue_ok demo_queue"
  by (simp add: queue_ok_def demo_queue_def jobs_schedule_def jobs_insert_def Let_def jobs_with_max_attempts_def)

lemma demo_dequeue:
  "dequeue_due 5 None demo_queue = Some (Inr (map claim (jq_jobs demo_queue)), demo_queue\<lparr>jq_jobs := map claim (jq_jobs demo_queue)\<rparr>)"
  by (simp add: demo_queue_def jobs_schedule_def jobs_insert_def Let_def jobs_with_max_attempts_def dequeue_due_def
      due_ids_def is_due_def due_order_def job_put_def)

theorem job_attempts_capped_witness:
  "handouts (\<lambda>_. ''id'') demo_range 1
     [JDequeue 5 None, JFail 6 1 ''no'', JDequeue 99 None] demo_queue \<le> 1"
proof -
  let ?ops = "[JDequeue 5 None, JFail 6 1 ''no'', JDequeue 99 None]"
  have sched: "jobs_schedule 1 0 ''mail'' JNull 0 (jobs_with_max_attempts 1) = (Inr (hd (jq_jobs demo_queue)), demo_queue)"
    by (simp add: demo_queue_def jobs_schedule_def jobs_insert_def Let_def jobs_with_max_attempts_def)
  have rec: "recoveries (\<lambda>_. ''id'') demo_range 1 ?ops demo_queue = 0"
    by (auto split: prod.splits option.splits sum.splits)
  show ?thesis
    using job_attempts_capped [OF _ _ sched, of ?ops "\<lambda>_. ''id''" demo_range] rec
    by (simp add: jobs_with_max_attempts_def queue_ok_def)
qed

theorem job_claim_exclusive_witness:
  "handouts (\<lambda>_. ''id'') demo_range 1 [JDequeue 6 None, JDequeue 99 (Some 3)]
     (demo_queue\<lparr>jq_jobs := map claim (jq_jobs demo_queue)\<rparr>) = 0"
  by (rule job_claim_exclusive [OF demo_queue_ok demo_dequeue])
    (auto simp: demo_queue_def jobs_schedule_def jobs_insert_def Let_def jobs_with_max_attempts_def
      split: prod.splits option.splits sum.splits)

theorem worker_settles_batch_witness:
  "\<exists>q' w'. run_once (\<lambda>_. ''id'') demo_range (\<lambda>k. 5) (worker_new (\<lambda>j w. (Inl ''no'', Suc w))) demo_queue (0 :: nat)
     = Some (Inr 1, q', w') \<and> (\<exists>j'. jobs_get 1 q' = Some j' \<and> ej_status j' \<noteq> Running)"
proof -
  let ?wk = "worker_new (\<lambda>j w. (Inl ''no'', Suc w)) :: nat job_worker"
  have "dequeue_due 5 (Some (jw_batch_size ?wk)) demo_queue
      = Some (Inr (map claim (jq_jobs demo_queue)), demo_queue\<lparr>jq_jobs := map claim (jq_jobs demo_queue)\<rparr>)"
    by (simp add: demo_queue_def worker_new_def jobs_schedule_def jobs_insert_def Let_def jobs_with_max_attempts_def
        dequeue_due_def due_ids_def is_due_def due_order_def job_put_def)
  with worker_settles_batch [OF demo_queue_ok, of "\<lambda>k. 5" ?wk "\<lambda>_. ''id''" demo_range 0]
  show ?thesis
    by (auto simp: demo_queue_def jobs_schedule_def jobs_insert_def Let_def jobs_with_max_attempts_def)
qed

end
