(* ===== verification/Decimal.thy ===== *)
theory Decimal
  imports Prelude
begin

text \<open>
  Decimal numbers as text: what \<open>format!("{n}")\<close> prints and what \<open>str::parse\<close> accepts for the
  unsigned integer types (one optional \<open>+\<close>, at least one digit, no overflow).
\<close>

definition digit_char :: "nat \<Rightarrow> char" where
  "digit_char d = char_of (48 + d)"

function show_nat :: "nat \<Rightarrow> string" where
  "show_nat n = (if n < 10 then [digit_char n] else show_nat (n div 10) @ [digit_char (n mod 10)])"
  by pat_completeness auto
termination
  by (relation "measure (\<lambda>n. n)") auto

declare show_nat.simps [simp del]

definition is_digit :: "char \<Rightarrow> bool" where
  "is_digit c = (48 \<le> (of_char c :: nat) \<and> (of_char c :: nat) \<le> 57)"

definition digits_value :: "string \<Rightarrow> nat" where
  "digits_value s = foldl (\<lambda>v c. 10 * v + (of_char c - 48)) 0 s"

definition strip_plus :: "string \<Rightarrow> string" where
  "strip_plus s = (case s of c # cs \<Rightarrow> if c = CHR ''+'' then cs else s | [] \<Rightarrow> s)"

definition parse_unsigned :: "nat \<Rightarrow> string \<Rightarrow> nat option" where
  "parse_unsigned w s =
     (let ds = strip_plus s
      in if ds \<noteq> [] \<and> list_all is_digit ds \<and> digits_value ds < 2 ^ w then Some (digits_value ds) else None)"

text \<open>\<open>str::parse::<i64>\<close>.\<close>

definition parse_i64 :: "string \<Rightarrow> int option" where
  "parse_i64 s =
     (case s of
        CHR ''-'' # ds \<Rightarrow>
          if ds \<noteq> [] \<and> list_all is_digit ds \<and> digits_value ds \<le> 2 ^ 63 then Some (- int (digits_value ds)) else None
      | _ \<Rightarrow> map_option int (parse_unsigned 63 s))"

text \<open>\<open>i64::to_string\<close>.\<close>

definition show_int :: "int \<Rightarrow> string" where
  "show_int n = (if n < 0 then CHR ''-'' # show_nat (nat (- n)) else show_nat (nat n))"

lemma digit_char_props [simp]:
  assumes "d < 10"
  shows "is_digit (digit_char d)" and "(of_char (digit_char d) :: nat) = 48 + d"
proof -
  have "(of_char (digit_char d) :: nat) = (48 + d) mod 256" by (simp add: digit_char_def)
  with assms show v: "(of_char (digit_char d) :: nat) = 48 + d" by simp
  with assms show "is_digit (digit_char d)" by (simp add: is_digit_def)
qed

lemma show_nat_digits: "show_nat n \<noteq> [] \<and> list_all is_digit (show_nat n) \<and> digits_value (show_nat n) = n"
proof (induction n rule: show_nat.induct)
  case (1 n)
  show ?case
  proof (cases "n < 10")
    case True
    then show ?thesis by (simp add: show_nat.simps [of n] digits_value_def)
  next
    case False
    moreover have "n mod 10 < 10" by simp
    ultimately show ?thesis
      using 1 [OF False] by (simp add: show_nat.simps [of n] digits_value_def)
  qed
qed

lemma is_digit_not_plus: "is_digit c \<Longrightarrow> c \<noteq> CHR ''+''"
  by (auto simp: is_digit_def)

lemma is_digit_not_ws: "is_digit c \<Longrightarrow> \<not> is_ws c"
  by (auto simp: is_digit_def is_ws_def)

lemma strip_plus_digits: "list_all is_digit s \<Longrightarrow> strip_plus s = s"
  by (auto simp: strip_plus_def dest: is_digit_not_plus split: list.splits)

lemma parse_show: "n < 2 ^ w \<Longrightarrow> parse_unsigned w (show_nat n) = Some n"
  using show_nat_digits [of n] by (simp add: parse_unsigned_def strip_plus_digits)

lemma parse_unsigned_bound: "parse_unsigned w s = Some n \<Longrightarrow> n < 2 ^ w"
  by (auto simp: parse_unsigned_def Let_def split: if_splits)

lemma str_trim_digits: "list_all is_digit s \<Longrightarrow> str_trim s = s"
proof -
  assume "list_all is_digit s"
  then have "\<forall>c \<in> set s. \<not> is_ws c" by (auto simp: list_all_iff is_digit_not_ws)
  moreover have d: "\<forall>c \<in> set t. \<not> is_ws c \<Longrightarrow> dropWhile is_ws t = t" for t
    by (cases t) auto
  ultimately have "dropWhile is_ws s = s" "dropWhile is_ws (rev s) = rev s"
    using d [of s] d [of "rev s"] by simp_all
  then show ?thesis by (simp add: str_trim_def)
qed

definition i64_range :: "int \<Rightarrow> bool" where
  "i64_range n = (- (2 ^ 63) \<le> n \<and> n < 2 ^ 63)"

lemma is_digit_not_minus: "is_digit c \<Longrightarrow> c \<noteq> CHR ''-''"
  by (auto simp: is_digit_def)

lemma show_nat_not_minus: "show_nat n = c # cs \<Longrightarrow> c \<noteq> CHR ''-''"
  using show_nat_digits [of n] by (auto dest: is_digit_not_minus)

lemma parse_i64_unsigned:
  "\<not> (\<exists>ds. s = CHR ''-'' # ds) \<Longrightarrow> parse_i64 s = map_option int (parse_unsigned 63 s)"
  unfolding parse_i64_def by (simp split: list.splits char.splits bool.splits)

lemma parse_show_i64: "i64_range n \<Longrightarrow> parse_i64 (show_int n) = Some n"
proof (cases "n < 0")
  case True
  assume "i64_range n"
  with True have "nat (- n) \<le> 2 ^ 63" by (simp add: i64_range_def)
  then show ?thesis using True show_nat_digits [of "nat (- n)"] by (simp add: show_int_def parse_i64_def)
next
  case False
  assume "i64_range n"
  with False have "nat n < 2 ^ 63" by (simp add: i64_range_def)
  moreover have "\<not> (\<exists>ds. show_nat (nat n) = CHR ''-'' # ds)" using show_nat_not_minus by blast
  ultimately show ?thesis using False by (simp add: show_int_def parse_i64_unsigned parse_show)
qed

lemma show_int_chars: "c \<in> set (show_int n) \<Longrightarrow> is_digit c \<or> c = CHR ''-''"
  using show_nat_digits [of "nat (- n)"] show_nat_digits [of "nat n"]
  by (auto simp: show_int_def list_all_iff split: if_splits)

lemma show_int_inj: "show_int n = show_int m \<Longrightarrow> n = m"
proof -
  assume a: "show_int n = show_int m"
  have v: "digits_value (show_nat k) = k" for k using show_nat_digits by blast
  have h: "hd (show_nat k) \<noteq> CHR ''-''" for k
    using show_nat_digits [of k] by (cases "show_nat k") (auto dest: is_digit_not_minus)
  have i: "show_nat k = show_nat l \<Longrightarrow> k = l" for k l by (metis v)
  consider "n < 0" "m < 0" | "n < 0" "\<not> m < 0" | "\<not> n < 0" "m < 0" | "\<not> n < 0" "\<not> m < 0" by blast
  then show ?thesis
  proof cases
    case 1
    then show ?thesis using a i [of "nat (- n)" "nat (- m)"] by (simp add: show_int_def)
  next
    case 2
    then show ?thesis using a h [of "nat m"] by (simp add: show_int_def) (metis list.sel(1))
  next
    case 3
    then show ?thesis using a h [of "nat n"] by (simp add: show_int_def)
  next
    case 4
    then show ?thesis using a i [of "nat n" "nat m"] by (simp add: show_int_def)
  qed
qed

end
