(* ===== verification/Cron.thy ===== *)
theory Cron
  imports Decimal Instants
begin

text \<open>
  The cron expressions of the scheduler (\<open>klauthed-platform/src/cron.rs\<close>): parsing of the five
  fields into bit masks and the search for the next matching minute. Values of a field are \<open>u8\<close>,
  with the wrap-around of a release build in the step loop. The calendar is the \<open>time\<close> crate's
  and the zone database's: a parameter that gives the civil time of an instant in UTC or in a
  zone, and the table of known zone names. The instant handed to \<open>next_after\<close> is in UTC, as the
  scheduler's clock gives it; leaving the representable range is a panic, \<open>None\<close>.
\<close>

unbundle bit_operations_syntax

type_synonym cron_error = string

record cron_field =
  fd_mask :: u64
  fd_is_star :: bool

definition field_contains :: "cron_field \<Rightarrow> u8 \<Rightarrow> bool" where
  "field_contains f value = (value < 64 \<and> (fd_mask f AND push_bit (unat value) 1) \<noteq> 0)"

record 'z cron =
  cr_minute :: cron_field
  cr_hour :: cron_field
  cr_dom :: cron_field
  cr_month :: cron_field
  cr_dow :: cron_field
  cr_tz :: "'z option"

section \<open>Parsing\<close>

definition parse_u8 :: "string \<Rightarrow> u8 option" where
  "parse_u8 s = map_option of_nat (parse_unsigned 8 s)"

definition show_u8 :: "u8 \<Rightarrow> string" where
  "show_u8 v = show_nat (unat v)"

definition parse_num :: "string \<Rightarrow> u8 \<Rightarrow> u8 \<Rightarrow> cron_error + u8" where
  "parse_num s mn mx =
     (case parse_u8 (str_trim s) of
        None \<Rightarrow> Inl (CHR 0x27 # s @ CHR 0x27 # '' is not a number'')
      | Some v \<Rightarrow>
          if v < mn \<or> mx < v
          then Inl (show_u8 v @ '' is out of range '' @ show_u8 mn @ ''-'' @ show_u8 mx)
          else Inr v)"

text \<open>The range and the step of one term.\<close>

definition split_step :: "string \<Rightarrow> cron_error + string \<times> u8" where
  "split_step term =
     (case split_once (CHR ''/'') term of
        Some (rng, step_str) \<Rightarrow>
          (case parse_u8 step_str of
             None \<Rightarrow> Inl (''invalid step '' @ CHR 0x27 # step_str @ [CHR 0x27])
           | Some step \<Rightarrow>
               if step = 0 then Inl ''step must be greater than zero'' else Inr (rng, step))
      | None \<Rightarrow> Inr (term, 1))"

definition parse_range :: "string \<Rightarrow> u8 \<Rightarrow> u8 \<Rightarrow> cron_error + u8 \<times> u8" where
  "parse_range rng mn mx =
     (if rng = ''*'' then Inr (mn, mx)
      else (case split_once (CHR ''-'') rng of
              Some (a, b) \<Rightarrow>
                (case parse_num a mn mx of
                   Inl e \<Rightarrow> Inl e
                 | Inr lo \<Rightarrow> (case parse_num b mn mx of Inl e \<Rightarrow> Inl e | Inr hi \<Rightarrow> Inr (lo, hi)))
            | None \<Rightarrow> (case parse_num rng mn mx of Inl e \<Rightarrow> Inl e | Inr v \<Rightarrow> Inr (v, v))))"

text \<open>The loop \<open>while v <= hi\<close>, with the rounds it may take as fuel; \<open>v += step\<close> wraps at 256.\<close>

fun step_loop :: "nat \<Rightarrow> bool \<Rightarrow> u8 \<Rightarrow> u8 \<Rightarrow> u8 \<Rightarrow> u64 \<Rightarrow> u64 option" where
  "step_loop 0 wrap hi step v msk = (if v \<le> hi then None else Some msk)"
| "step_loop (Suc n) wrap hi step v msk =
     (if v \<le> hi
      then step_loop n wrap hi step (v + step)
             (msk OR push_bit (unat (if wrap then v mod 7 else v)) 1)
      else Some msk)"

definition STEP_FUEL :: nat where
  "STEP_FUEL = 60"

fun terms_loop :: "string list \<Rightarrow> u8 \<Rightarrow> u8 \<Rightarrow> bool \<Rightarrow> u64 \<Rightarrow> (cron_error + u64) option" where
  "terms_loop [] mn mx wrap msk = Some (Inr msk)"
| "terms_loop (term # terms) mn mx wrap msk =
     (case split_step term of
        Inl e \<Rightarrow> Some (Inl e)
      | Inr (rng, step) \<Rightarrow>
     (case parse_range rng mn mx of
        Inl e \<Rightarrow> Some (Inl e)
      | Inr (lo, hi) \<Rightarrow>
     (if hi < lo
      then Some (Inl (''range start '' @ show_u8 lo @ '' is after end '' @ show_u8 hi))
      else (case step_loop STEP_FUEL wrap hi step lo msk of
              None \<Rightarrow> None
            | Some msk' \<Rightarrow> terms_loop terms mn mx wrap msk'))))"

definition parse_field :: "string \<Rightarrow> u8 \<Rightarrow> u8 \<Rightarrow> bool \<Rightarrow> (cron_error + cron_field) option" where
  "parse_field spec mn mx wrap =
     (case terms_loop (str_split (CHR '','') spec) mn mx wrap 0 of
        None \<Rightarrow> None
      | Some (Inl e) \<Rightarrow> Some (Inl e)
      | Some (Inr msk) \<Rightarrow> Some (Inr \<lparr>fd_mask = msk, fd_is_star = (spec = ''*'')\<rparr>))"

text \<open>The five fields are parsed in order, the first error wins.\<close>

definition bind_field ::
  "(cron_error + 'a) option \<Rightarrow> ('a \<Rightarrow> (cron_error + 'b) option) \<Rightarrow> (cron_error + 'b) option" where
  "bind_field r k = (case r of None \<Rightarrow> None | Some (Inl e) \<Rightarrow> Some (Inl e) | Some (Inr x) \<Rightarrow> k x)"

definition parse_fields :: "string \<Rightarrow> 'z option \<Rightarrow> (cron_error + 'z cron) option" where
  "parse_fields expr tz =
     (case split_whitespace expr of
        [minute, hour, dayom, month, dow] \<Rightarrow>
          bind_field (parse_field minute 0 59 False) (\<lambda>mi.
          bind_field (parse_field hour 0 23 False) (\<lambda>ho.
          bind_field (parse_field dayom 1 31 False) (\<lambda>dm.
          bind_field (parse_field month 1 12 False) (\<lambda>mo.
          bind_field (parse_field dow 0 7 True) (\<lambda>dw.
            Some (Inr \<lparr>cr_minute = mi, cr_hour = ho, cr_dom = dm, cr_month = mo, cr_dow = dw, cr_tz = tz\<rparr>))))))
      | parts \<Rightarrow> Some (Inl (''expected 5 fields, got '' @ show_nat (length parts))))"

definition cron_parse :: "string \<Rightarrow> (cron_error + 'z cron) option" where
  "cron_parse expr = parse_fields expr None"

definition parse_in_timezone :: "(string \<Rightarrow> 'z option) \<Rightarrow> string \<Rightarrow> string \<Rightarrow> (cron_error + 'z cron) option" where
  "parse_in_timezone zones expr timezone =
     (case zones timezone of
        None \<Rightarrow> Some (Inl (''unknown timezone '' @ CHR 0x27 # timezone @ [CHR 0x27]))
      | Some tz \<Rightarrow> parse_fields expr (Some tz))"

section \<open>Next occurrence\<close>

record civil =
  cv_minute :: u8
  cv_hour :: u8
  cv_day :: u8
  cv_month :: u8
  cv_weekday :: u8

record 'z calendar =
  cal_utc :: "timestamp \<Rightarrow> civil"
  cal_zone :: "'z \<Rightarrow> timestamp \<Rightarrow> civil"

definition local_time :: "'z calendar \<Rightarrow> 'z cron \<Rightarrow> timestamp \<Rightarrow> civil" where
  "local_time K c t = (case cr_tz c of Some tz \<Rightarrow> cal_zone K tz t | None \<Rightarrow> cal_utc K t)"

definition day_matches :: "'z cron \<Rightarrow> civil \<Rightarrow> bool" where
  "day_matches c t =
     (let dom_ok = field_contains (cr_dom c) (cv_day t);
          dow_ok = field_contains (cr_dow c) (cv_weekday t)
      in case (fd_is_star (cr_dom c), fd_is_star (cr_dow c)) of
           (True, True) \<Rightarrow> True
         | (False, True) \<Rightarrow> dom_ok
         | (True, False) \<Rightarrow> dow_ok
         | (False, False) \<Rightarrow> dom_ok \<or> dow_ok)"

definition cron_matches :: "'z calendar \<Rightarrow> 'z cron \<Rightarrow> timestamp \<Rightarrow> bool" where
  "cron_matches K c t =
     (let t = local_time K c t
      in field_contains (cr_minute c) (cv_minute t) \<and> field_contains (cr_hour c) (cv_hour t)
         \<and> field_contains (cr_month c) (cv_month t) \<and> day_matches c t)"

definition minutes :: "int \<Rightarrow> duration" where
  "minutes n = n * 60000000000"

definition MAX_MINUTES :: nat where
  "MAX_MINUTES = 5 * 366 * 24 * 60"

fun next_loop :: "time_range \<Rightarrow> 'z calendar \<Rightarrow> 'z cron \<Rightarrow> nat \<Rightarrow> timestamp \<Rightarrow> timestamp option option" where
  "next_loop R K c 0 t = Some None"
| "next_loop R K c (Suc n) t =
     (if cron_matches K c t then Some (Some t)
      else (case checked_add R t (minutes 1) of None \<Rightarrow> None | Some t' \<Rightarrow> next_loop R K c n t'))"

definition next_after :: "time_range \<Rightarrow> 'z calendar \<Rightarrow> 'z cron \<Rightarrow> timestamp \<Rightarrow> timestamp option option" where
  "next_after R K c after =
     (case checked_add R (after - after mod minutes 1) (minutes 1) of
        None \<Rightarrow> None
      | Some t \<Rightarrow> next_loop R K c MAX_MINUTES t)"

section \<open>The step loop\<close>

lemma bit_or_single: "n < 64 \<Longrightarrow> bit (m OR 2 ^ n :: u64) b \<longleftrightarrow> bit m b \<or> b = n"
  by (auto simp: bit_simps)

lemma field_contains_iff: "field_contains f v \<longleftrightarrow> unat v < 64 \<and> bit (fd_mask f) (unat v)"
  by (simp add: field_contains_def bit_iff_and_push_bit_not_eq_0 word_less_nat_alt)

lemma unat_step_plain:
  fixes v step :: u8
  assumes "unat v + unat step < 256"
  shows "unat (v + step) = unat v + unat step"
  using assms by (simp add: unat_word_ariths)

lemma unat_step_wraps:
  fixes v step :: u8
  assumes "256 \<le> unat v + unat step"
  shows "unat (v + step) = unat v + unat step - 256"
proof -
  have "unat v < 256" "unat step < 256"
    using unsigned_less [where 'a = nat, of v] unsigned_less [where 'a = nat, of step] by simp_all
  with assms show ?thesis by (simp add: unat_word_ariths mod_if)
qed

text \<open>Below 197 a step cannot wrap before the loop ends; from there on a wrap goes down.\<close>

lemma step_loop_up:
  assumes "unat hi \<le> 59" and "0 < unat step" and "unat step \<le> 196" and "unat hi < unat v + n"
  shows "\<exists>m. step_loop n wrap hi step v msk = Some m"
  using assms
proof (induction n arbitrary: v msk)
  case (Suc n)
  have "unat v \<le> unat hi \<Longrightarrow> unat (v + step) = unat v + unat step"
    using Suc.prems by (intro unat_step_plain) simp
  with Suc show ?case by (auto simp: word_le_nat_alt)
qed (simp add: word_le_nat_alt)

lemma step_loop_down:
  assumes "unat hi \<le> 59" and "197 \<le> unat step" and "unat v < n"
  shows "\<exists>m. step_loop n wrap hi step v msk = Some m"
  using assms
proof (induction n arbitrary: v msk)
  case (Suc n)
  show ?case
  proof (cases "unat v + unat step < 256")
    case True
    then have "\<not> v + step \<le> hi" using Suc.prems unat_step_plain [OF True] by (simp add: word_le_nat_alt)
    then have "step_loop n wrap hi step (v + step) m = Some m" for m by (cases n) auto
    then show ?thesis by simp
  next
    case False
    have "unat step < 256" using unsigned_less [where 'a = nat, of step] by simp
    with False Suc.prems unat_step_wraps [of v step] have "unat (v + step) < n" by simp
    with Suc show ?thesis by simp
  qed
qed simp

lemma step_loop_total:
  assumes "unat hi \<le> 59" and "step \<noteq> 0" and "v \<le> hi"
  shows "\<exists>m. step_loop STEP_FUEL wrap hi step v msk = Some m"
proof (cases "unat step \<le> 196")
  case True
  with assms show ?thesis
    by (intro step_loop_up) (simp_all add: STEP_FUEL_def word_le_nat_alt unat_gt_0)
next
  case False
  with assms show ?thesis
    by (intro step_loop_down) (simp_all add: STEP_FUEL_def word_le_nat_alt)
qed

definition cron_bit :: "bool \<Rightarrow> nat \<Rightarrow> nat" where
  "cron_bit wrap v = (if wrap then v mod 7 else v)"

lemma step_loop_bits:
  assumes "unat hi \<le> 59" and "unat step \<le> 196" and "step_loop n wrap hi step v msk = Some m"
  shows "bit m b \<longleftrightarrow> bit msk b \<or> (\<exists>k. unat v + k * unat step \<le> unat hi \<and> b = cron_bit wrap (unat v + k * unat step))"
  using assms
proof (induction n arbitrary: v msk)
  case 0
  then show ?case by (auto simp: word_le_nat_alt split: if_splits)
next
  case (Suc n)
  show ?case
  proof (cases "v \<le> hi")
    case False
    with Suc.prems show ?thesis by (auto simp: word_le_nat_alt)
  next
    case True
    let ?bit = "unat (if wrap then v mod 7 else v)"
    have v: "unat v \<le> unat hi" "unat (v + step) = unat v + unat step" "?bit < 64" "?bit = cron_bit wrap (unat v)"
      using True Suc.prems unat_step_plain [of v step]
      by (auto simp: word_le_nat_alt cron_bit_def unat_mod)
    have "bit m b \<longleftrightarrow> (bit msk b \<or> b = ?bit) \<or>
        (\<exists>k. unat v + unat step + k * unat step \<le> unat hi \<and> b = cron_bit wrap (unat v + unat step + k * unat step))"
      using Suc.IH [of "v + step" "msk OR push_bit ?bit 1"] Suc.prems True v by (simp add: bit_or_single)
    moreover have "(\<exists>k. unat v + k * unat step \<le> unat hi \<and> b = cron_bit wrap (unat v + k * unat step))
        \<longleftrightarrow> b = ?bit \<or> (\<exists>k. unat v + unat step + k * unat step \<le> unat hi
              \<and> b = cron_bit wrap (unat v + unat step + k * unat step))"
      (is "(\<exists>k. ?P k) \<longleftrightarrow> _")
    proof -
      have "(\<exists>k. ?P k) \<longleftrightarrow> ?P 0 \<or> (\<exists>k. ?P (Suc k))" by (metis not0_implies_Suc)
      then show ?thesis using v by (simp add: add.assoc)
    qed
    ultimately show ?thesis by blast
  qed
qed

section \<open>Parsing ends and means what it says\<close>

lemma parse_num_bounds: "parse_num s mn mx = Inr v \<Longrightarrow> mn \<le> v \<and> v \<le> mx"
  by (auto simp: parse_num_def not_less split: option.splits if_splits)

lemma parse_range_bounds: "parse_range r mn mx = Inr (lo, hi) \<Longrightarrow> hi \<le> mx"
  by (auto simp: parse_range_def dest: parse_num_bounds split: option.splits if_splits sum.splits)

lemma split_step_pos: "split_step term = Inr (r, step) \<Longrightarrow> step \<noteq> 0"
  by (auto simp: split_step_def split: option.splits if_splits)

lemma terms_loop_total: "unat mx \<le> 59 \<Longrightarrow> \<exists>r. terms_loop ts mn mx wrap msk = Some r"
proof (induction ts arbitrary: msk)
  case (Cons t ts)
  have "step_loop STEP_FUEL wrap hi step lo msk \<noteq> None"
    if "split_step t = Inr (rng, step)" "parse_range rng mn mx = Inr (lo, hi)" "lo \<le> hi" for rng step lo hi
  proof -
    have "unat hi \<le> 59" using parse_range_bounds [OF that(2)] Cons.prems by (simp add: word_le_nat_alt)
    from step_loop_total [OF this split_step_pos [OF that(1)] that(3), of wrap msk] show ?thesis by auto
  qed
  with Cons show ?case
    by (fastforce split: sum.splits option.splits simp: not_less)
qed simp

lemma parse_field_total: "unat mx \<le> 59 \<Longrightarrow> \<exists>r. parse_field spec mn mx wrap = Some r"
  using terms_loop_total [of mx "str_split (CHR '','') spec" mn wrap 0]
  by (auto simp: parse_field_def split: sum.splits)

lemma bind_field_total: "r \<noteq> None \<Longrightarrow> (\<And>x. k x \<noteq> None) \<Longrightarrow> bind_field r k \<noteq> None"
  by (auto simp: bind_field_def split: sum.splits)

lemma parse_fields_total: "parse_fields expr tz \<noteq> None"
proof -
  have "parse_field s mn mx wrap \<noteq> None" if "unat mx \<le> 59" for s mn mx wrap
    using parse_field_total [OF that] by fastforce
  then show ?thesis
  proof (cases "\<exists>a b c d e. split_whitespace expr = [a, b, c, d, e]")
    case True
    then obtain a b c d e where s: "split_whitespace expr = [a, b, c, d, e]" by blast
    show ?thesis unfolding parse_fields_def s list.case
      by (intro bind_field_total) (use \<open>\<And>wrap s mx mn. unat mx \<le> 59 \<Longrightarrow> parse_field s mn mx wrap \<noteq> None\<close> in simp_all)
  next
    case False
    then show ?thesis by (auto simp: parse_fields_def split: list.splits)
  qed
qed

text \<open>The values a term stands for.\<close>

definition term_values :: "u8 \<Rightarrow> u8 \<Rightarrow> bool \<Rightarrow> string \<Rightarrow> nat set" where
  "term_values mn mx wrap t =
     {cron_bit wrap (unat lo + k * unat step) | rng step lo hi k.
        split_step t = Inr (rng, step) \<and> parse_range rng mn mx = Inr (lo, hi)
        \<and> unat lo + k * unat step \<le> unat hi}"

definition small_step :: "string \<Rightarrow> bool" where
  "small_step t = (case split_step t of Inl _ \<Rightarrow> True | Inr (r, step) \<Rightarrow> unat step \<le> 196)"

lemma terms_loop_bits:
  assumes "unat mx \<le> 59" and "list_all small_step ts" and "terms_loop ts mn mx wrap msk = Some (Inr m)"
  shows "bit m b \<longleftrightarrow> bit msk b \<or> (\<exists>t \<in> set ts. b \<in> term_values mn mx wrap t)"
  using assms(2,3)
proof (induction ts arbitrary: msk)
  case (Cons t ts)
  from Cons.prems(2) obtain rng step lo hi m1 where t: "split_step t = Inr (rng, step)"
      "parse_range rng mn mx = Inr (lo, hi)" "step_loop STEP_FUEL wrap hi step lo msk = Some m1"
      "terms_loop ts mn mx wrap m1 = Some (Inr m)"
    by (auto split: sum.splits if_splits option.splits)
  have "unat hi \<le> 59" using parse_range_bounds [OF t(2)] assms(1) by (simp add: word_le_nat_alt)
  moreover have "unat step \<le> 196" using Cons.prems(1) t(1) by (simp add: small_step_def)
  ultimately have "bit m1 b \<longleftrightarrow> bit msk b \<or> b \<in> term_values mn mx wrap t"
    using step_loop_bits [OF _ _ t(3)] t(1,2) by (auto simp: term_values_def)
  moreover have "bit m b \<longleftrightarrow> bit m1 b \<or> (\<exists>t \<in> set ts. b \<in> term_values mn mx wrap t)"
    using Cons.prems(1) by (intro Cons.IH t(4)) simp
  ultimately show ?case by auto
qed simp

lemma term_values_small: "unat mx \<le> 59 \<Longrightarrow> b \<in> term_values mn mx wrap t \<Longrightarrow> b < 64"
proof -
  assume "unat mx \<le> 59" and "b \<in> term_values mn mx wrap t"
  then obtain v hi where "b = cron_bit wrap v" "v \<le> unat hi" "hi \<le> mx"
    by (auto simp: term_values_def dest: parse_range_bounds)
  moreover have "cron_bit wrap v \<le> v" by (simp add: cron_bit_def)
  ultimately show ?thesis using \<open>unat mx \<le> 59\<close> by (simp add: word_le_nat_alt)
qed

text \<open>Parsing always ends. The loops of the parser end on every expression, the step loop within
  sixty rounds even when a large step wraps around; an expression without exactly five fields is
  rejected with the number it has.\<close>

theorem cron_parse_total:
  fixes zones :: "string \<Rightarrow> 'z option"
  shows "cron_parse expr \<noteq> (None :: (cron_error + 'z cron) option)
   \<and> parse_in_timezone zones expr timezone \<noteq> None
   \<and> (length (split_whitespace expr) \<noteq> 5 \<longrightarrow>
        (cron_parse expr :: (cron_error + 'z cron) option)
          = Some (Inl (''expected 5 fields, got '' @ show_nat (length (split_whitespace expr)))))"
proof -
  have "length (split_whitespace expr) \<noteq> 5 \<Longrightarrow>
      (cron_parse expr :: (cron_error + 'z cron) option)
        = Some (Inl (''expected 5 fields, got '' @ show_nat (length (split_whitespace expr))))"
    by (auto simp: cron_parse_def parse_fields_def split: list.splits)
  then show ?thesis
    using parse_fields_total by (auto simp: cron_parse_def parse_in_timezone_def split: option.splits)
qed

theorem cron_parse_total_witness:
  "cron_parse ''* *'' = Some (Inl (''expected 5 fields, got '' @ show_nat 2) :: cron_error + unit cron)"
proof -
  have "split_whitespace ''* *'' = [''*'', ''*'']" by (simp add: split_whitespace_def is_ws_def)
  then show ?thesis
    using cron_parse_total [where expr = "''* *''" and zones = "\<lambda>_. None :: unit option"]
    by (simp add: numeral_2_eq_2)
qed

text \<open>A field means the union of its terms. When every step is below 197, a parsed field contains
  exactly the values \<open>lo, lo + step, \<dots>\<close> up to \<open>hi\<close> of its terms, taken modulo 7 for the day of the
  week.\<close>

theorem cron_field_denotes:
  assumes "parse_field spec mn mx wrap = Some (Inr f)" and "unat mx \<le> 59"
    and "list_all small_step (str_split (CHR '','') spec)"
  shows "field_contains f v \<longleftrightarrow> (\<exists>t \<in> set (str_split (CHR '','') spec). unat v \<in> term_values mn mx wrap t)"
proof -
  from assms(1) have "terms_loop (str_split (CHR '','') spec) mn mx wrap 0 = Some (Inr (fd_mask f))"
    by (auto simp: parse_field_def split: option.splits sum.splits)
  from terms_loop_bits [OF assms(2,3) this] term_values_small [OF assms(2)]
  show ?thesis by (auto simp: field_contains_iff)
qed

text \<open>From 197 on the step loop wraps around and marks values the term does not stand for.\<close>

lemma cron_step_wraps:
  "step_loop STEP_FUEL False 59 250 10 0 = Some (push_bit 10 1 OR push_bit 4 1)"
proof -
  have "STEP_FUEL = Suc (Suc (Suc 57))" by (simp add: STEP_FUEL_def)
  show ?thesis unfolding \<open>STEP_FUEL = Suc (Suc (Suc 57))\<close> step_loop.simps by simp
qed

section \<open>The next occurrence\<close>

lemma next_loop_result:
  assumes "next_loop R K c n t = Some r"
  shows "case r of
      Some u \<Rightarrow> \<exists>k < n. u = t + minutes (int k) \<and> cron_matches K c u \<and> (\<forall>j < k. \<not> cron_matches K c (t + minutes (int j)))
    | None \<Rightarrow> \<forall>j < n. \<not> cron_matches K c (t + minutes (int j))"
  using assms
proof (induction n arbitrary: t)
  case (Suc n)
  show ?case
  proof (cases "cron_matches K c t")
    case True
    with Suc.prems show ?thesis by (auto simp: minutes_def)
  next
    case False
    with Suc.prems have "next_loop R K c n (t + minutes 1) = Some r" by (auto split: option.splits)
    note IH = Suc.IH [OF this]
    have shift: "t + minutes 1 + minutes (int k) = t + minutes (int (Suc k))" for k
      by (simp add: minutes_def algebra_simps)
    have all: "(\<forall>j < Suc k. \<not> cron_matches K c (t + minutes (int j)))
        \<longleftrightarrow> (\<forall>j < k. \<not> cron_matches K c (t + minutes (int (Suc j))))" for k
      using False by (auto simp: less_Suc_eq_0_disj minutes_def)
    show ?thesis
    proof (cases r)
      case None
      with IH show ?thesis by (simp add: shift all)
    next
      case (Some u)
      with IH obtain k where "k < n" "u = t + minutes (int (Suc k))" "cron_matches K c u"
          "\<forall>j < Suc k. \<not> cron_matches K c (t + minutes (int j))"
        unfolding shift by (auto simp: all)
      with Some show ?thesis by auto
    qed
  qed
qed simp

lemma next_loop_total:
  "dt_min R \<le> t \<Longrightarrow> t + minutes (int n) \<le> dt_max R \<Longrightarrow> next_loop R K c n t \<noteq> None"
proof (induction n arbitrary: t)
  case (Suc n)
  have "in_range R (t + minutes 1)" using Suc.prems by (simp add: in_range_def minutes_def)
  with Suc show ?case by (auto simp: checked_add_def minutes_def algebra_simps)
qed simp

lemma minutes_pos: "0 < minutes 1"
  by (simp add: minutes_def)

lemma minutes_mult: "minutes (int k) = int k * minutes 1"
  by (simp add: minutes_def)

lemma scaled_le: "0 \<le> d \<Longrightarrow> d < m \<Longrightarrow> x * m \<le> d \<longleftrightarrow> x \<le> 0" for x m d :: int
proof -
  assume d: "0 \<le> d" "d < m"
  have "x \<le> 0 \<Longrightarrow> x * m \<le> 0" using d by (intro mult_nonpos_nonneg) simp_all
  moreover have "1 \<le> x \<Longrightarrow> 1 * m \<le> x * m" using d by (intro mult_right_mono) simp_all
  ultimately show ?thesis using d by linarith
qed

lemma mod_parts: "0 < m \<Longrightarrow> a - a mod m = m * (a div m) \<and> 0 \<le> a mod m \<and> a mod m < m" for a m :: int
  by (simp add: minus_mod_eq_mult_div)

text \<open>The whole minutes after an instant, counted from the first one.\<close>

lemma whole_minute_after:
  assumes "after < u" and "u mod minutes 1 = 0"
  shows "\<exists>k. u = after - after mod minutes 1 + minutes 1 + minutes (int k)"
proof -
  let ?m = "minutes 1"
  obtain q where q: "u = ?m * q" using assms(2) by auto
  have a: "after - after mod ?m = ?m * (after div ?m)" "0 \<le> after mod ?m"
    using mod_parts [OF minutes_pos] by auto
  have "after div ?m < q"
  proof (rule ccontr)
    assume "\<not> after div ?m < q"
    then have "?m * q \<le> ?m * (after div ?m)" using minutes_pos by (intro mult_left_mono) simp_all
    with a assms(1) q show False by linarith
  qed
  then have "u = after - after mod ?m + ?m + minutes (int (nat (q - after div ?m - 1)))"
    unfolding a(1) q minutes_mult by (simp add: algebra_simps)
  then show ?thesis by blast
qed

definition first_minute :: "timestamp \<Rightarrow> timestamp" where
  "first_minute after = after - after mod minutes 1 + minutes 1"

lemma first_minute_bounds: "after < first_minute after" "first_minute after \<le> after + minutes 1"
  using mod_parts [OF minutes_pos, of after] unfolding first_minute_def by linarith+

lemma first_minute_aligned: "(first_minute after + minutes (int k)) mod minutes 1 = 0"
proof -
  have "first_minute after + minutes (int k) = minutes 1 * (after div minutes 1 + 1 + int k)"
    using mod_parts [OF minutes_pos, of after] by (simp add: first_minute_def minutes_mult algebra_simps)
  then show ?thesis by simp
qed

lemma first_minute_within:
  "first_minute after + minutes (int k) \<le> after + minutes (int n) \<longleftrightarrow> k < n"
proof -
  have "first_minute after + minutes (int k) \<le> after + minutes (int n)
      \<longleftrightarrow> (int k + 1 - int n) * minutes 1 \<le> after mod minutes 1"
    by (simp add: first_minute_def minutes_mult algebra_simps)
  also have "\<dots> \<longleftrightarrow> int k + 1 - int n \<le> 0"
    using mod_parts [OF minutes_pos, of after] by (intro scaled_le) simp_all
  finally show ?thesis by linarith
qed

lemma minutes_less: "minutes (int j) < minutes (int k) \<longleftrightarrow> j < k"
  by (simp add: minutes_def)

lemma next_after_loop: "next_after R K c after = Some r \<Longrightarrow> next_loop R K c MAX_MINUTES (first_minute after) = Some r"
  by (auto simp: next_after_def first_minute_def split: option.splits)

lemma next_after_some:
  assumes "next_after R K c after = Some (Some u)"
  shows "after < u \<and> u mod minutes 1 = 0 \<and> cron_matches K c u \<and> u \<le> after + minutes (int MAX_MINUTES)
     \<and> (\<forall>w. after < w \<and> w < u \<and> w mod minutes 1 = 0 \<longrightarrow> \<not> cron_matches K c w)"
proof -
  from next_loop_result [OF next_after_loop [OF assms]]
  obtain k where k: "k < MAX_MINUTES" "u = first_minute after + minutes (int k)" "cron_matches K c u"
      "\<forall>j < k. \<not> cron_matches K c (first_minute after + minutes (int j))" by auto
  have "\<not> cron_matches K c w" if w: "after < w" "w < u" "w mod minutes 1 = 0" for w
  proof -
    obtain j where j: "w = first_minute after + minutes (int j)"
      using whole_minute_after [OF w(1,3)] unfolding first_minute_def by blast
    with w(2) k(2) minutes_less have "j < k" by simp
    with k(4) j show ?thesis by blast
  qed
  moreover have "0 \<le> minutes (int k)" by (simp add: minutes_def)
  then have "after < u" using first_minute_bounds(1) [of after] k(2) by linarith
  moreover have "u mod minutes 1 = 0" "u \<le> after + minutes (int MAX_MINUTES)"
    using k(1) first_minute_aligned [of after k] first_minute_within [of after k] unfolding k(2) by simp_all
  ultimately show ?thesis using k(3) by simp
qed

lemma next_after_none:
  assumes "next_after R K c after = Some None"
    and w: "after < w" "w \<le> after + minutes (int MAX_MINUTES)" "w mod minutes 1 = 0"
  shows "\<not> cron_matches K c w"
proof -
  have "\<forall>j < MAX_MINUTES. \<not> cron_matches K c (first_minute after + minutes (int j))"
    using next_loop_result [OF next_after_loop [OF assms(1)]] by simp
  moreover obtain j where j: "w = first_minute after + minutes (int j)"
    using whole_minute_after [OF w(1,3)] unfolding first_minute_def by blast
  moreover have "j < MAX_MINUTES" using first_minute_within [of after j] w(2) unfolding j by simp
  ultimately show ?thesis by simp
qed

lemma next_after_total:
  assumes "dt_min R \<le> after" and "after + minutes (int MAX_MINUTES + 1) \<le> dt_max R"
  shows "next_after R K c after \<noteq> None"
proof -
  have "0 \<le> minutes (int MAX_MINUTES)" "minutes (int MAX_MINUTES + 1) = minutes (int MAX_MINUTES) + minutes 1"
    by (simp_all add: minutes_def)
  then have t: "in_range R (first_minute after)" "first_minute after + minutes (int MAX_MINUTES) \<le> dt_max R"
      "dt_min R \<le> first_minute after"
    using first_minute_bounds [of after] assms unfolding in_range_def by linarith+
  then show ?thesis
    using next_loop_total [OF t(3,2)] by (simp add: next_after_def first_minute_def checked_add_def)
qed

text \<open>C32: the scheduler's next occurrence is the least one. Within the representable range the search
  never panics; an answer is the first whole minute strictly after the given instant that
  matches, and no answer means that no minute of the next \<open>5 * 366\<close> days matches.\<close>

theorem cron_next_after_least:
  assumes "next_after R K c after = r"
  shows "(\<forall>u. r = Some (Some u) \<longrightarrow> after < u \<and> u mod minutes 1 = 0 \<and> cron_matches K c u
           \<and> u \<le> after + minutes (int MAX_MINUTES)
           \<and> (\<forall>w. after < w \<and> w < u \<and> w mod minutes 1 = 0 \<longrightarrow> \<not> cron_matches K c w))
     \<and> (r = Some None \<longrightarrow> (\<forall>w. after < w \<and> w \<le> after + minutes (int MAX_MINUTES) \<and> w mod minutes 1 = 0
           \<longrightarrow> \<not> cron_matches K c w))
     \<and> (dt_min R \<le> after \<and> after + minutes (int MAX_MINUTES + 1) \<le> dt_max R \<longrightarrow> r \<noteq> None)"
  by (intro conjI allI impI) (metis assms next_after_some next_after_none next_after_total)+

section \<open>Witnesses\<close>

definition demo_calendar :: "unit calendar" where
  "demo_calendar = \<lparr>cal_utc = (\<lambda>t. \<lparr>cv_minute = of_int ((t div minutes 1) mod 60), cv_hour = 0, cv_day = 1,
                                   cv_month = 1, cv_weekday = 4\<rparr>), cal_zone = (\<lambda>_ t. \<lparr>cv_minute = 0, cv_hour = 0,
                                   cv_day = 1, cv_month = 1, cv_weekday = 4\<rparr>)\<rparr>"

definition demo_cron :: "unit cron" where
  "demo_cron = (let f = \<lparr>fd_mask = 255, fd_is_star = True\<rparr>
                in \<lparr>cr_minute = f, cr_hour = f, cr_dom = f, cr_month = f, cr_dow = f, cr_tz = None\<rparr>)"

lemma demo_matches: "cron_matches demo_calendar demo_cron (minutes 1)"
  by (simp add: cron_matches_def demo_cron_def demo_calendar_def local_time_def day_matches_def
      field_contains_def Let_def minutes_def)

theorem cron_next_after_least_witness:
  "next_after demo_range demo_calendar demo_cron 7 = Some (Some (minutes 1)) \<and> 7 < minutes 1"
proof -
  have "MAX_MINUTES = Suc 2635199" by (simp add: MAX_MINUTES_def)
  have loop: "next_loop demo_range demo_calendar demo_cron MAX_MINUTES (minutes 1) = Some (Some (minutes 1))"
    unfolding \<open>MAX_MINUTES = Suc 2635199\<close> next_loop.simps by (intro if_P demo_matches)
  have "checked_add demo_range (7 - 7 mod minutes 1) (minutes 1) = Some (minutes 1)"
    by (simp add: checked_add_def in_range_def demo_range_def minutes_def)
  with loop have "next_after demo_range demo_calendar demo_cron 7 = Some (Some (minutes 1))"
    by (simp add: next_after_def checked_add_def)
  with cron_next_after_least [OF this] show ?thesis by blast
qed

lemma demo_field:
  "parse_field ''10-20/5'' 0 59 False = Some (Inr \<lparr>fd_mask = 2 ^ 10 + 2 ^ 15 + 2 ^ 20, fd_is_star = False\<rparr>)"
  by code_simp

theorem cron_field_denotes_witness:
  "\<exists>f. parse_field ''10-20/5'' 0 59 False = Some (Inr f) \<and> field_contains f 15
     \<and> (\<exists>t \<in> set (str_split (CHR '','') ''10-20/5''). 15 \<in> term_values 0 59 False t)"
proof -
  have "field_contains \<lparr>fd_mask = 2 ^ 10 + 2 ^ 15 + 2 ^ 20, fd_is_star = False\<rparr> 15" by code_simp
  with demo_field obtain f where f: "parse_field ''10-20/5'' 0 59 False = Some (Inr f)" "field_contains f 15"
    by blast
  moreover have "list_all small_step (str_split (CHR '','') ''10-20/5'')" by code_simp
  ultimately show ?thesis using cron_field_denotes [OF f(1), of 15] by simp
qed

end
