(* ===== verification/Resilience.thy ===== *)
theory Resilience
  imports Instants
begin

text \<open>
  The resilience patterns of the web layer (\<open>klauthed-web/src/resilience\<close>): the circuit breaker and
  the retry loop. A wrapped operation is a function on a world \<open>'w\<close>; the instants are the readings
  of the injected clock. The backoff of the retry policy is computed with floating-point numbers
  and is a parameter.
\<close>

section \<open>Circuit breaker\<close>

datatype 'e circuit_error = CircuitOpen | Inner 'e

datatype breaker_state = Closed u32 | Open timestamp | HalfOpen

record circuit_breaker =
  cb_failure_threshold :: u32
  cb_cooldown :: nat
  cb_state :: breaker_state

definition breaker_new :: "u32 \<Rightarrow> nat \<Rightarrow> circuit_breaker" where
  "breaker_new threshold cooldown =
     \<lparr>cb_failure_threshold = max threshold 1, cb_cooldown = cooldown, cb_state = Closed 0\<rparr>"

text \<open>\<open>Duration::try_from(..).unwrap_or_default()\<close>: a negative difference counts as zero.\<close>

definition elapsed_since :: "timestamp \<Rightarrow> timestamp \<Rightarrow> nat" where
  "elapsed_since now opened_at = nat (duration_since now opened_at)"

definition breaker_allow :: "timestamp \<Rightarrow> circuit_breaker \<Rightarrow> bool \<times> circuit_breaker" where
  "breaker_allow now b =
     (case cb_state b of
        Closed _ \<Rightarrow> (True, b)
      | HalfOpen \<Rightarrow> (True, b)
      | Open opened_at \<Rightarrow>
          if cb_cooldown b \<le> elapsed_since now opened_at then (True, b\<lparr>cb_state := HalfOpen\<rparr>)
          else (False, b))"

definition record_success :: "circuit_breaker \<Rightarrow> circuit_breaker" where
  "record_success b = b\<lparr>cb_state := Closed 0\<rparr>"

definition record_failure :: "timestamp \<Rightarrow> circuit_breaker \<Rightarrow> circuit_breaker" where
  "record_failure now b =
     (let tripped = (case cb_state b of
                       Closed failures \<Rightarrow> cb_failure_threshold b \<le> failures + 1
                     | HalfOpen \<Rightarrow> True
                     | Open _ \<Rightarrow> True)
      in b\<lparr>cb_state := (if tripped then Open now
                        else (case cb_state b of Closed failures \<Rightarrow> Closed (failures + 1) | s \<Rightarrow> s))\<rparr>)"

definition breaker_call ::
  "timestamp \<Rightarrow> timestamp \<Rightarrow> ('w \<Rightarrow> ('e + 'a) \<times> 'w) \<Rightarrow> circuit_breaker \<Rightarrow> 'w
   \<Rightarrow> ('e circuit_error + 'a) \<times> circuit_breaker \<times> 'w" where
  "breaker_call now now' op b w =
     (case breaker_allow now b of
        (False, b1) \<Rightarrow> (Inl CircuitOpen, b1, w)
      | (True, b1) \<Rightarrow>
          (case op w of
             (Inr v, w1) \<Rightarrow> (Inr v, record_success b1, w1)
           | (Inl e, w1) \<Rightarrow> (Inl (Inner e), record_failure now' b1, w1)))"

definition is_open :: "timestamp \<Rightarrow> circuit_breaker \<Rightarrow> bool" where
  "is_open now b = (case cb_state b of Open opened_at \<Rightarrow> elapsed_since now opened_at < cb_cooldown b | _ \<Rightarrow> False)"

text \<open>Calls one after the other, each with the two instants it may read.\<close>

fun run_calls ::
  "(timestamp \<times> timestamp \<times> ('w \<Rightarrow> ('e + 'a) \<times> 'w)) list \<Rightarrow> circuit_breaker \<Rightarrow> 'w
   \<Rightarrow> ('e circuit_error + 'a) list \<times> circuit_breaker \<times> 'w" where
  "run_calls [] b w = ([], b, w)"
| "run_calls ((now, now', op) # calls) b w =
     (case breaker_call now now' op b w of
        (r, b1, w1) \<Rightarrow> (case run_calls calls b1 w1 of (rs, b2, w2) \<Rightarrow> (r # rs, b2, w2)))"

text \<open>The specification: the number of failures since the last success among the operations that
  ran.\<close>

fun failures_since :: "nat \<Rightarrow> ('e circuit_error + 'a) list \<Rightarrow> nat" where
  "failures_since n [] = n"
| "failures_since n (Inr v # rs) = failures_since 0 rs"
| "failures_since n (Inl (Inner e) # rs) = failures_since (Suc n) rs"
| "failures_since n (Inl CircuitOpen # rs) = failures_since n rs"

definition breaker_abs :: "circuit_breaker \<Rightarrow> nat \<Rightarrow> bool" where
  "breaker_abs b n =
     (case cb_state b of
        Closed f \<Rightarrow> unat f = n \<and> n < unat (cb_failure_threshold b)
      | Open _ \<Rightarrow> unat (cb_failure_threshold b) \<le> n
      | HalfOpen \<Rightarrow> False)"

lemma unat_Suc_below: "unat (f :: u32) < unat (t :: u32) \<Longrightarrow> unat (f + 1) = Suc (unat f)"
  using unsigned_less [where 'a = nat, of t] by (simp add: unat_word_ariths)

lemma breaker_call_abs:
  assumes "breaker_abs b n" and "1 \<le> cb_failure_threshold b" and "breaker_call now now' op b w = (r, b', w')"
  shows "breaker_abs b' (failures_since n [r]) \<and> cb_failure_threshold b' = cb_failure_threshold b
    \<and> cb_cooldown b' = cb_cooldown b"
proof (cases "cb_state b")
  case (Closed f)
  with assms(1) have f: "unat f = n" "n < unat (cb_failure_threshold b)" by (simp_all add: breaker_abs_def)
  with unat_Suc_below [of f] have "unat (f + 1) = Suc n" by simp
  with Closed f assms(2,3) show ?thesis
    by (auto simp: breaker_call_def breaker_allow_def record_success_def record_failure_def breaker_abs_def
        word_le_nat_alt split: prod.splits sum.splits if_splits)
next
  case (Open t)
  with assms show ?thesis
    by (auto simp: breaker_call_def breaker_allow_def record_success_def record_failure_def breaker_abs_def
        word_le_nat_alt split: prod.splits sum.splits if_splits)
next
  case HalfOpen
  with assms show ?thesis by (simp add: breaker_abs_def)
qed

lemma failures_since_Cons: "failures_since n (r # rs) = failures_since (failures_since n [r]) rs"
  by (cases "(n, r # rs)" rule: failures_since.cases) auto

lemma run_calls_abs:
  assumes "breaker_abs b n" and "1 \<le> cb_failure_threshold b" and "run_calls calls b w = (rs, b', w')"
  shows "breaker_abs b' (failures_since n rs) \<and> cb_failure_threshold b' = cb_failure_threshold b"
  using assms
proof (induction calls b w arbitrary: n rs b' w' rule: run_calls.induct)
  case (2 now now' op calls b w)
  obtain r b1 w1 where c: "breaker_call now now' op b w = (r, b1, w1)" by (metis prod_cases3)
  obtain rs' where r: "run_calls calls b1 w1 = (rs', b', w')" "rs = r # rs'"
    using 2(4) c by (auto split: prod.splits)
  from breaker_call_abs [OF 2(2,3) c]
  have s: "breaker_abs b1 (failures_since n [r])" "cb_failure_threshold b1 = cb_failure_threshold b" by auto
  with 2(1) [OF c [symmetric] refl s(1)] 2(3) r show ?case by (simp add: failures_since_Cons [of n r rs'])
qed simp

text \<open>C34: the breaker implements its specification. After any sequence of calls, one after the other,
  the breaker is closed exactly when fewer than \<open>failure_threshold\<close> (at least one) of the operations
  that ran have failed since the last success, and then it has counted them; otherwise it is
  open. A call is refused, without running its operation, exactly when the breaker is open and the
  cooldown has not elapsed.\<close>

theorem circuit_breaker_refines:
  assumes "run_calls calls (breaker_new threshold cooldown) w = (rs, b, w')"
  shows "(case cb_state b of
            Closed f \<Rightarrow> unat f = failures_since 0 rs \<and> failures_since 0 rs < max (unat threshold) 1
          | Open _ \<Rightarrow> max (unat threshold) 1 \<le> failures_since 0 rs
          | HalfOpen \<Rightarrow> False)
    \<and> (fst (breaker_call now now' op b w') = Inl CircuitOpen \<longleftrightarrow> is_open now b)
    \<and> (is_open now b \<longrightarrow> breaker_call now now' op b w' = (Inl CircuitOpen, b, w'))"
proof -
  let ?b = "breaker_new threshold cooldown"
  have t: "unat (cb_failure_threshold ?b) = max (unat threshold) 1"
    by (simp add: breaker_new_def max_def word_le_nat_alt)
  have "1 \<le> cb_failure_threshold ?b" by (simp add: breaker_new_def)
  moreover from this have "breaker_abs ?b 0"
    by (simp add: breaker_abs_def breaker_new_def word_le_nat_alt)
  ultimately have "breaker_abs b (failures_since 0 rs)" "cb_failure_threshold b = cb_failure_threshold ?b"
    using run_calls_abs [OF _ _ assms] by auto
  then show ?thesis using t
    by (auto simp: breaker_abs_def is_open_def breaker_call_def breaker_allow_def
        split: breaker_state.splits prod.splits sum.splits if_splits)
qed

theorem circuit_breaker_refines_witness:
  "\<exists>b. run_calls [(0, 1, \<lambda>w. (Inl ''down'', w) :: (string + string) \<times> nat)] (breaker_new 1 10) 0
         = ([Inl (Inner ''down'')], b, 0)
     \<and> breaker_call 5 5 (\<lambda>w. (Inr ''ok'', Suc w) :: (string + string) \<times> nat) b 0 = (Inl CircuitOpen, b, 0)"
proof -
  let ?calls = "[(0, 1, \<lambda>w. (Inl ''down'', w) :: (string + string) \<times> nat)]"
  let ?b = "\<lparr>cb_failure_threshold = 1, cb_cooldown = 10, cb_state = Open 1\<rparr>"
  have r: "run_calls ?calls (breaker_new 1 10) 0 = ([Inl (Inner ''down'')], ?b, 0)"
    by (simp add: breaker_call_def breaker_allow_def breaker_new_def record_failure_def Let_def)
  have "is_open 5 ?b"
    by (simp add: is_open_def elapsed_since_def duration_since_def)
  with circuit_breaker_refines [OF r, of 5 5 "\<lambda>w. (Inr ''ok'', Suc w) :: (string + string) \<times> nat"] r
  show ?thesis by blast
qed

text \<open>Calls that overlap: while half open every caller is admitted, and a success that arrives late
  closes an open breaker at once.\<close>

lemma half_open_admits_all:
  "cb_state b = Open t \<Longrightarrow> cb_cooldown b \<le> elapsed_since now t \<Longrightarrow>
   fst (breaker_allow now b) \<and> fst (breaker_allow now' (snd (breaker_allow now b)))"
  by (simp add: breaker_allow_def)

lemma late_success_closes: "fst (breaker_allow now (record_success b))"
  by (simp add: breaker_allow_def record_success_def)

section \<open>Retry\<close>

record retry_policy =
  rp_max_attempts :: u32
  rp_backoff :: "u32 \<Rightarrow> duration"

definition retry_new :: "(u32 \<Rightarrow> duration) \<Rightarrow> retry_policy" where
  "retry_new backoff = \<lparr>rp_max_attempts = 3, rp_backoff = backoff\<rparr>"

definition max_attempts :: "u32 \<Rightarrow> retry_policy \<Rightarrow> retry_policy" where
  "max_attempts n p = p\<lparr>rp_max_attempts := max n 1\<rparr>"

text \<open>The loop also collects the delays it sleeps.\<close>

function retry_loop ::
  "retry_policy \<Rightarrow> ('w \<Rightarrow> ('e + 'a) \<times> 'w) \<Rightarrow> u32 \<Rightarrow> 'w \<Rightarrow> duration list \<Rightarrow> ('e + 'a) \<times> 'w \<times> duration list" where
  "retry_loop p op attempt w slept =
     (case op w of
        (Inr v, w1) \<Rightarrow> (Inr v, w1, slept)
      | (Inl e, w1) \<Rightarrow>
          if rp_max_attempts p \<le> attempt then (Inl e, w1, slept)
          else retry_loop p op (attempt + 1) w1 (slept @ [rp_backoff p attempt]))"
  by pat_completeness auto
termination
proof (relation "measure (\<lambda>(p, op, attempt, w, slept). unat (rp_max_attempts p) - unat attempt)", goal_cases)
  case (2 p op attempt w slept r w1 e)
  then have "unat attempt < unat (rp_max_attempts p)" by (simp add: word_le_nat_alt)
  with unat_Suc_below [OF this] show ?case by simp
qed simp

declare retry_loop.simps [simp del]

definition retry :: "retry_policy \<Rightarrow> ('w \<Rightarrow> ('e + 'a) \<times> 'w) \<Rightarrow> 'w \<Rightarrow> ('e + 'a) \<times> 'w \<times> duration list" where
  "retry p op w = retry_loop p op 1 w []"

text \<open>The answers of the operation run \<open>n\<close> times in a row, and the world afterwards.\<close>

fun run_op :: "('w \<Rightarrow> ('e + 'a) \<times> 'w) \<Rightarrow> nat \<Rightarrow> 'w \<Rightarrow> ('e + 'a) list \<times> 'w" where
  "run_op op 0 w = ([], w)"
| "run_op op (Suc n) w =
     (case op w of (r, w1) \<Rightarrow> (case run_op op n w1 of (rs, w2) \<Rightarrow> (r # rs, w2)))"

lemma retry_loop_result:
  assumes "retry_loop p op attempt w slept = (r, w', slept')" and "unat attempt \<le> unat (rp_max_attempts p)"
  shows "\<exists>k rs. run_op op (Suc k) w = (rs, w') \<and> last rs = r \<and> list_all (\<lambda>x. \<not> is_ok x) (butlast rs)
     \<and> unat attempt + k \<le> unat (rp_max_attempts p)
     \<and> (is_ok r \<or> unat attempt + k = unat (rp_max_attempts p))
     \<and> slept' = slept @ map (\<lambda>i. rp_backoff p (attempt + of_nat i)) [0..<k]"
  using assms
proof (induction p op attempt w slept rule: retry_loop.induct)
  case (1 p op attempt w slept)
  obtain x w1 where x: "op w = (x, w1)" by fastforce
  show ?case
  proof (cases "is_ok x \<or> rp_max_attempts p \<le> attempt")
    case True
    with 1(2) x have "r = x" "w' = w1" "slept' = slept"
      by (auto simp: retry_loop.simps [of p op attempt] is_ok_def split: sum.splits if_splits)
    with True x 1(3) show ?thesis by (intro exI [of _ 0]) (auto simp: word_le_nat_alt)
  next
    case False
    then obtain e where e: "x = Inl e" "\<not> rp_max_attempts p \<le> attempt" by (auto simp: is_ok_def split: sum.splits)
    with 1(2) x have rec: "retry_loop p op (attempt + 1) w1 (slept @ [rp_backoff p attempt]) = (r, w', slept')"
      by (simp add: retry_loop.simps [of p op attempt])
    have a: "unat (attempt + 1) = Suc (unat attempt)" "unat attempt < unat (rp_max_attempts p)"
      using e(2) unat_Suc_below [of attempt "rp_max_attempts p"] by (auto simp: word_le_nat_alt)
    from 1(1) [OF x [symmetric] e(1,2) rec] a obtain k rs where k: "run_op op (Suc k) w1 = (rs, w')" "last rs = r"
        "list_all (\<lambda>x. \<not> is_ok x) (butlast rs)" "Suc (unat attempt) + k \<le> unat (rp_max_attempts p)"
        "is_ok r \<or> Suc (unat attempt) + k = unat (rp_max_attempts p)"
        "slept' = slept @ [rp_backoff p attempt] @ map (\<lambda>i. rp_backoff p (attempt + 1 + of_nat i)) [0..<k]" by auto
    have "rs \<noteq> []" using k(1) by (auto split: prod.splits)
    moreover have "run_op op (Suc (Suc k)) w = (x # rs, w')" using x k(1) by simp
    moreover have "[rp_backoff p attempt] @ map (\<lambda>i. rp_backoff p (attempt + 1 + of_nat i)) [0..<k]
        = map (\<lambda>i. rp_backoff p (attempt + of_nat i)) [0..<Suc k]"
      by (simp add: upt_conv_Cons map_Suc_upt [symmetric] comp_def add.assoc del: upt_Suc map_Suc_upt)
    ultimately show ?thesis using k e by (intro exI [of _ "Suc k"] exI [of _ "x # rs"]) auto
  qed
qed

text \<open>The retry loop is bounded and faithful. The operation runs at least once and at most
  \<open>max_attempts\<close> times; every answer before the last one was an error; the answer is the last one,
  an error only when all attempts are used up; and the delays slept are the backoffs of the
  attempts 1, 2, \<open>\<dots>\<close> that failed before it.\<close>

theorem retry_bounded:
  assumes "1 \<le> rp_max_attempts p" and "retry p op w = (r, w', slept)"
  shows "\<exists>k rs. run_op op (Suc k) w = (rs, w') \<and> last rs = r \<and> list_all (\<lambda>x. \<not> is_ok x) (butlast rs)
     \<and> Suc k \<le> unat (rp_max_attempts p) \<and> (is_ok r \<or> Suc k = unat (rp_max_attempts p))
     \<and> slept = map (\<lambda>i. rp_backoff p (1 + of_nat i)) [0..<k]"
  using retry_loop_result [of p op 1 w "[]" r w' slept] assms by (simp add: retry_def word_le_nat_alt)

theorem retry_bounded_witness:
  "\<exists>k rs. run_op (\<lambda>w. (Inl ''down'', Suc w) :: (string + nat) \<times> nat) (Suc k) 0 = (rs, 3) \<and> Suc k = 3"
proof -
  let ?op = "\<lambda>w. (Inl ''down'', Suc w) :: (string + nat) \<times> nat" and ?p = "retry_new (\<lambda>_. 0)"
  have "retry ?p ?op 0 = (Inl ''down'', 3, [0, 0])"
    by (simp add: retry_def retry_loop.simps retry_new_def word_le_nat_alt)
  moreover have "1 \<le> rp_max_attempts ?p" by (simp add: retry_new_def)
  ultimately show ?thesis
    using retry_bounded [of ?p ?op 0 "Inl ''down''" 3 "[0, 0]"] by (auto simp: retry_new_def)
qed

end
