(* ===== verification/Discovery.thy ===== *)
theory Discovery
  imports Decimal
begin

text \<open>
  Service discovery (\<open>klauthed-discovery/src\<close>): instances, the in-memory registry, the round-robin
  picker and the agent that keeps an instance registered. The registry interface is the locale
  \<open>service_registry\<close>; the agent's guarantee is proved against it and holds for the in-memory
  registry by interpretation. Heartbeats of the agent's background task are operations of the
  history between its start and its end.
\<close>

section \<open>Instances\<close>

record service_instance =
  si_service_name :: string
  si_instance_id :: string
  si_host :: string
  si_port :: u16
  si_secure :: bool
  si_metadata :: "string \<rightharpoonup> string"

definition instance_new :: "string \<Rightarrow> string \<Rightarrow> u16 \<Rightarrow> service_instance" where
  "instance_new service_name host port =
     \<lparr>si_service_name = service_name, si_instance_id = host @ '':'' @ show_nat (unat port), si_host = host,
      si_port = port, si_secure = False, si_metadata = Map.empty\<rparr>"

definition with_instance_id :: "string \<Rightarrow> service_instance \<Rightarrow> service_instance" where
  "with_instance_id i inst = inst\<lparr>si_instance_id := i\<rparr>"

definition instance_secure :: "bool \<Rightarrow> service_instance \<Rightarrow> service_instance" where
  "instance_secure b inst = inst\<lparr>si_secure := b\<rparr>"

definition with_metadata :: "string \<Rightarrow> string \<Rightarrow> service_instance \<Rightarrow> service_instance" where
  "with_metadata k v inst = inst\<lparr>si_metadata := (si_metadata inst)(k \<mapsto> v)\<rparr>"

definition base_url :: "service_instance \<Rightarrow> string" where
  "base_url inst =
     (if si_secure inst then ''https'' else ''http'') @ ''://'' @ si_host inst @ '':'' @ show_nat (unat (si_port inst))"

section \<open>The in-memory registry\<close>

datatype discovery_error =
    DiscoveryBackend string
  | DiscoveryRegistration string
  | DiscoveryNoInstances string
  | DiscoveryDecode string

type_synonym registry = "string \<rightharpoonup> service_instance list"

definition service_registry_new :: registry where
  "service_registry_new = Map.empty"

text \<open>\<open>iter_mut().find(..)\<close>: the first entry with the id is replaced, otherwise the instance is
  pushed.\<close>

fun put_instance :: "service_instance \<Rightarrow> service_instance list \<Rightarrow> service_instance list" where
  "put_instance inst [] = [inst]"
| "put_instance inst (x # xs) =
     (if si_instance_id x = si_instance_id inst then inst # xs else x # put_instance inst xs)"

definition registry_register :: "service_instance \<Rightarrow> registry \<Rightarrow> (discovery_error + unit) \<times> registry" where
  "registry_register inst m =
     (let list = (case m (si_service_name inst) of None \<Rightarrow> [] | Some l \<Rightarrow> l)
      in (Inr (), m(si_service_name inst \<mapsto> put_instance inst list)))"

definition registry_deregister :: "string \<Rightarrow> string \<Rightarrow> registry \<Rightarrow> (discovery_error + unit) \<times> registry" where
  "registry_deregister service_name instance_id m =
     (case m service_name of
        None \<Rightarrow> (Inr (), m)
      | Some list \<Rightarrow>
          (let list = filter (\<lambda>i. si_instance_id i \<noteq> instance_id) list
           in (Inr (), if list = [] then m(service_name := None) else m(service_name \<mapsto> list))))"

definition registry_heartbeat :: "string \<Rightarrow> string \<Rightarrow> registry \<Rightarrow> (discovery_error + unit) \<times> registry" where
  "registry_heartbeat service_name instance_id m = (Inr (), m)"

definition registry_instances :: "string \<Rightarrow> registry \<Rightarrow> (discovery_error + service_instance list) \<times> registry" where
  "registry_instances service_name m =
     (Inr (case m service_name of None \<Rightarrow> [] | Some l \<Rightarrow> l), m)"

section \<open>Round robin\<close>

record round_robin =
  rr_next :: u64

definition round_robin_new :: round_robin where
  "round_robin_new = \<lparr>rr_next = 0\<rparr>"

text \<open>\<open>fetch_add\<close> wraps.\<close>

definition pick :: "'a list \<Rightarrow> round_robin \<Rightarrow> 'a option \<times> round_robin" where
  "pick instances rr =
     (if instances = [] then (None, rr)
      else (let index = unat (rr_next rr) mod length instances
            in (if index < length instances then Some (instances ! index) else None,
                rr\<lparr>rr_next := rr_next rr + 1\<rparr>)))"

section \<open>Agent\<close>

record service_agent =
  ag_service_name :: string
  ag_instance_id :: string
  ag_active :: bool

definition agent_start ::
  "(service_instance \<Rightarrow> 'm \<Rightarrow> (discovery_error + unit) \<times> 'm) \<Rightarrow> service_instance \<Rightarrow> 'm
   \<Rightarrow> (discovery_error + service_agent) \<times> 'm" where
  "agent_start register inst m =
     (case register inst m of
        (Inl e, m1) \<Rightarrow> (Inl e, m1)
      | (Inr _, m1) \<Rightarrow>
          (Inr \<lparr>ag_service_name = si_service_name inst, ag_instance_id = si_instance_id inst, ag_active = True\<rparr>, m1))"

text \<open>\<open>shutdown\<close> consumes the agent; the value it leaves behind is dropped inactive.\<close>

definition agent_shutdown ::
  "(string \<Rightarrow> string \<Rightarrow> 'm \<Rightarrow> (discovery_error + unit) \<times> 'm) \<Rightarrow> service_agent \<Rightarrow> 'm
   \<Rightarrow> (discovery_error + unit) \<times> service_agent \<times> 'm" where
  "agent_shutdown deregister a m =
     (let a1 = a\<lparr>ag_active := False\<rparr>
      in case deregister (ag_service_name a1) (ag_instance_id a1) m of (r, m1) \<Rightarrow> (r, a1, m1))"

definition agent_drop ::
  "(string \<Rightarrow> string \<Rightarrow> 'm \<Rightarrow> (discovery_error + unit) \<times> 'm) \<Rightarrow> bool \<Rightarrow> service_agent \<Rightarrow> 'm \<Rightarrow> 'm" where
  "agent_drop deregister runtime a m =
     (if \<not> ag_active a then m
      else if runtime then snd (deregister (ag_service_name a) (ag_instance_id a) m)
      else m)"

section \<open>The registry interface\<close>

datatype registry_op =
    RegRegister service_instance
  | RegDeregister string string
  | RegHeartbeat string string

fun registry_step ::
  "(service_instance \<Rightarrow> 'm \<Rightarrow> (discovery_error + unit) \<times> 'm) \<Rightarrow> (string \<Rightarrow> string \<Rightarrow> 'm \<Rightarrow> (discovery_error + unit) \<times> 'm)
   \<Rightarrow> (string \<Rightarrow> string \<Rightarrow> 'm \<Rightarrow> (discovery_error + unit) \<times> 'm) \<Rightarrow> registry_op \<Rightarrow> 'm \<Rightarrow> 'm" where
  "registry_step reg dereg beat (RegRegister i) m = snd (reg i m)"
| "registry_step reg dereg beat (RegDeregister s k) m = snd (dereg s k m)"
| "registry_step reg dereg beat (RegHeartbeat s k) m = snd (beat s k m)"

fun touches :: "string \<times> string \<Rightarrow> registry_op \<Rightarrow> bool" where
  "touches key (RegRegister i) = ((si_service_name i, si_instance_id i) = key)"
| "touches key (RegDeregister s k) = ((s, k) = key)"
| "touches key (RegHeartbeat s k) = False"

text \<open>\<open>view\<close> is the abstract registry: at most one instance under each service name and instance
  id.\<close>

locale service_registry =
  fixes reg :: "service_instance \<Rightarrow> 'm \<Rightarrow> (discovery_error + unit) \<times> 'm"
    and dereg :: "string \<Rightarrow> string \<Rightarrow> 'm \<Rightarrow> (discovery_error + unit) \<times> 'm"
    and beat :: "string \<Rightarrow> string \<Rightarrow> 'm \<Rightarrow> (discovery_error + unit) \<times> 'm"
    and instances :: "string \<Rightarrow> 'm \<Rightarrow> (discovery_error + service_instance list) \<times> 'm"
    and view :: "'m \<Rightarrow> string \<times> string \<Rightarrow> service_instance option"
    and ok :: "'m \<Rightarrow> bool"
  assumes ok_step: "ok m \<Longrightarrow> ok (registry_step reg dereg beat op m)"
    and view_frame: "ok m \<Longrightarrow> \<not> touches key op \<Longrightarrow> view (registry_step reg dereg beat op m) key = view m key"
    and view_register: "ok m \<Longrightarrow> reg i m = (Inr u, m') \<Longrightarrow> view m' (si_service_name i, si_instance_id i) = Some i"
    and view_deregister: "ok m \<Longrightarrow> dereg s k m = (Inr u, m') \<Longrightarrow> view m' (s, k) = None"
    and instances_view: "ok m \<Longrightarrow> instances s m = (Inr l, m') \<Longrightarrow> set l = {i. \<exists>k. view m (s, k) = Some i}"
    and view_key: "ok m \<Longrightarrow> view m (s, k) = Some i \<Longrightarrow> si_instance_id i = k"
begin

definition run :: "registry_op list \<Rightarrow> 'm \<Rightarrow> 'm" where
  "run ops m = fold (registry_step reg dereg beat) ops m"

lemma run_ok: "ok m \<Longrightarrow> ok (run ops m)"
  by (induction ops arbitrary: m) (auto simp: run_def ok_step)

lemma run_frame: "ok m \<Longrightarrow> \<forall>op \<in> set ops. \<not> touches key op \<Longrightarrow> view (run ops m) key = view m key"
  by (induction ops arbitrary: m) (auto simp: run_def ok_step view_frame)

lemma reg_ok: "ok m \<Longrightarrow> reg i m = (r, m') \<Longrightarrow> ok m'"
  using ok_step [of m "RegRegister i"] by simp

lemma dereg_ok: "ok m \<Longrightarrow> dereg s k m = (r, m') \<Longrightarrow> ok m'"
  using ok_step [of m "RegDeregister s k"] by simp

lemma agent_visible:
  assumes "ok m" and "agent_start reg i m = (Inr a, m1)"
    and "\<forall>op \<in> set ops. \<not> touches (si_service_name i, si_instance_id i) op"
    and "instances (si_service_name i) (run ops m1) = (Inr l, m2)"
  shows "i \<in> set l"
proof -
  from assms(2) obtain u where r: "reg i m = (Inr u, m1)"
    by (auto simp: agent_start_def split: prod.splits sum.splits)
  have ok: "ok m1" using reg_ok [OF assms(1) r] .
  have "view (run ops m1) (si_service_name i, si_instance_id i) = Some i"
    using run_frame [OF ok assms(3)] view_register [OF assms(1) r] by simp
  with instances_view [OF run_ok [OF ok] assms(4)] show ?thesis by auto
qed

lemma agent_gone:
  assumes "ok m" and "agent_shutdown dereg a m = (Inr u, a', m1)"
    and "\<forall>op \<in> set ops. \<not> touches (ag_service_name a, ag_instance_id a) op"
    and "instances (ag_service_name a) (run ops (agent_drop dereg runtime a' m1)) = (Inr l, m2)"
  shows "\<forall>i \<in> set l. si_instance_id i \<noteq> ag_instance_id a"
proof -
  from assms(2) have d: "dereg (ag_service_name a) (ag_instance_id a) m = (Inr u, m1)" "\<not> ag_active a'"
    by (auto simp: agent_shutdown_def Let_def split: prod.splits)
  have drop: "agent_drop dereg runtime a' m1 = m1" using d(2) by (simp add: agent_drop_def)
  have ok: "ok m1" using dereg_ok [OF assms(1) d(1)] .
  have "view (run ops m1) (ag_service_name a, ag_instance_id a) = None"
    using run_frame [OF ok assms(3)] view_deregister [OF assms(1) d(1)] by simp
  with instances_view [OF run_ok [OF ok], of _ ops l] view_key [OF run_ok [OF ok]] assms(4)
  show ?thesis unfolding drop by fastforce
qed

end

section \<open>The in-memory registry implements the interface\<close>

definition registry_view :: "registry \<Rightarrow> string \<times> string \<Rightarrow> service_instance option" where
  "registry_view m key =
     (case m (fst key) of None \<Rightarrow> None | Some l \<Rightarrow> find (\<lambda>i. si_instance_id i = snd key) l)"

definition registry_ok :: "registry \<Rightarrow> bool" where
  "registry_ok m = (\<forall>s l. m s = Some l \<longrightarrow> l \<noteq> [] \<and> distinct (map si_instance_id l))"

lemma find_id: "find (\<lambda>i. si_instance_id i = k) l = Some i \<Longrightarrow> i \<in> set l \<and> si_instance_id i = k"
  by (auto simp: find_Some_iff in_set_conv_nth)

lemma find_id_in:
  "distinct (map si_instance_id l) \<Longrightarrow> i \<in> set l \<Longrightarrow> find (\<lambda>j. si_instance_id j = si_instance_id i) l = Some i"
  by (induction l) auto

lemma find_put [simp]:
  "find (\<lambda>i. si_instance_id i = k) (put_instance inst l)
     = (if k = si_instance_id inst then Some inst else find (\<lambda>i. si_instance_id i = k) l)"
  by (induction l) auto

lemma put_not_Nil [simp]: "put_instance inst l \<noteq> []"
  by (cases l) auto

lemma ids_put: "si_instance_id ` set (put_instance inst l) = insert (si_instance_id inst) (si_instance_id ` set l)"
  by (induction l) auto

lemma distinct_put: "distinct (map si_instance_id l) \<Longrightarrow> distinct (map si_instance_id (put_instance inst l))"
  by (induction l) (auto simp: ids_put)

lemma find_retain:
  "find (\<lambda>i. si_instance_id i = k) (filter (\<lambda>i. si_instance_id i \<noteq> k') l)
     = (if k = k' then None else find (\<lambda>i. si_instance_id i = k) l)"
  by (induction l) auto

lemma registry_view_register:
  "registry_view (snd (registry_register i m)) = (registry_view m)((si_service_name i, si_instance_id i) \<mapsto> i)"
  by (rule ext) (auto simp: registry_view_def registry_register_def split: option.splits)

lemma registry_view_deregister:
  "registry_view (snd (registry_deregister s k m)) = (registry_view m)((s, k) := None)"
proof (rule ext)
  fix key :: "string \<times> string"
  have "filter (\<lambda>i. si_instance_id i \<noteq> k) l = [] \<Longrightarrow> snd key \<noteq> k \<Longrightarrow> None = find (\<lambda>i. si_instance_id i = snd key) l" for l
    by (rule sym) (auto simp: find_None_iff filter_empty_conv)
  then show "registry_view (snd (registry_deregister s k m)) key = ((registry_view m)((s, k) := None)) key"
    by (cases key) (auto simp: registry_view_def registry_deregister_def Let_def find_retain split: option.splits)
qed

lemma registry_ok_register: "registry_ok m \<Longrightarrow> registry_ok (snd (registry_register i m))"
  by (auto simp: registry_ok_def registry_register_def intro!: distinct_put split: option.splits)

lemma registry_ok_deregister: "registry_ok m \<Longrightarrow> registry_ok (snd (registry_deregister s k m))"
  by (auto simp: registry_ok_def registry_deregister_def Let_def distinct_map_filter split: option.splits if_splits)

lemma registry_instances_view:
  assumes "registry_ok m" and "registry_instances s m = (Inr l, m')"
  shows "set l = {i. \<exists>k. registry_view m (s, k) = Some i}"
proof (cases "m s")
  case (Some l')
  with assms have "l = l'" "distinct (map si_instance_id l)" by (auto simp: registry_instances_def registry_ok_def)
  with Some show ?thesis by (auto simp: registry_view_def dest: find_id intro!: find_id_in)
qed (use assms in \<open>auto simp: registry_instances_def registry_view_def\<close>)

interpretation memory_registry: service_registry registry_register registry_deregister registry_heartbeat
  registry_instances registry_view registry_ok
proof (unfold_locales, goal_cases)
  case (1 m op)
  then show ?case by (cases op) (simp_all add: registry_ok_register registry_ok_deregister registry_heartbeat_def)
next
  case (2 m key op)
  then show ?case
    by (cases op) (auto simp: registry_view_register registry_view_deregister registry_heartbeat_def)
next
  case (3 m i u m')
  with registry_view_register [of i m] show ?case by simp
next
  case (4 m s k u m')
  with registry_view_deregister [of s k m] show ?case by simp
next
  case (5 m s l m')
  then show ?case by (rule registry_instances_view)
next
  case (6 m s k i)
  then show ?case by (auto simp: registry_view_def dest: find_id split: option.splits)
qed

text \<open>The registry refines a map from service name and instance id to instance. Registering
  replaces or adds exactly one entry, deregistering removes exactly one, a heartbeat changes
  nothing, and a lookup lists the entries of the service, each once.\<close>

theorem registry_refines_map:
  assumes "registry_ok m"
  shows "registry_view (snd (registry_register i m)) = (registry_view m)((si_service_name i, si_instance_id i) \<mapsto> i)
    \<and> registry_view (snd (registry_deregister s k m)) = (registry_view m)((s, k) := None)
    \<and> registry_ok (snd (registry_register i m)) \<and> registry_ok (snd (registry_deregister s k m))
    \<and> (\<exists>l. registry_instances s m = (Inr l, m) \<and> distinct (map si_instance_id l)
          \<and> set l = {i. \<exists>k. registry_view m (s, k) = Some i})"
proof -
  have "\<exists>l. registry_instances s m = (Inr l, m) \<and> distinct (map si_instance_id l)"
    using assms by (cases "m s") (auto simp: registry_instances_def registry_ok_def)
  then show ?thesis
    using assms registry_instances_view [OF assms] registry_ok_register registry_ok_deregister
      registry_view_register registry_view_deregister by blast
qed

definition demo_instance :: "string \<Rightarrow> service_instance" where
  "demo_instance k = with_instance_id k (instance_new ''api'' ''host'' 80)"

theorem registry_refines_map_witness:
  "registry_ok service_registry_new
   \<and> registry_view (snd (registry_register (demo_instance ''a'') service_registry_new))
       = [(''api'', ''a'') \<mapsto> demo_instance ''a'']"
proof -
  have ok: "registry_ok service_registry_new" by (simp add: registry_ok_def service_registry_new_def)
  have empty: "registry_view service_registry_new = Map.empty"
    by (rule ext) (simp add: registry_view_def service_registry_new_def)
  from registry_refines_map [OF ok, of "demo_instance ''a''"] show ?thesis
    using ok by (simp add: empty demo_instance_def with_instance_id_def instance_new_def)
qed

text \<open>An agent's instance is discoverable exactly while the agent runs. From a successful start on,
  whatever other instances are registered, deregistered or renewed, a lookup of the service lists
  it; after a successful shutdown, the agent's drop included, no lookup lists it until it is
  registered again.\<close>

theorem agent_lifecycle:
  assumes "registry_ok m" and "agent_start registry_register i m = (Inr a, m1)"
    and "\<forall>op \<in> set ops. \<not> touches (si_service_name i, si_instance_id i) op"
    and "m2 = fold (registry_step registry_register registry_deregister registry_heartbeat) ops m1"
    and "agent_shutdown registry_deregister a m2 = (r, a', m3)"
    and "\<forall>op \<in> set ops'. \<not> touches (si_service_name i, si_instance_id i) op"
    and "m4 = fold (registry_step registry_register registry_deregister registry_heartbeat) ops'
                (agent_drop registry_deregister runtime a' m3)"
  shows "i \<in> set (projr (fst (registry_instances (si_service_name i) m2)))
    \<and> (\<forall>j \<in> set (projr (fst (registry_instances (si_service_name i) m4))). si_instance_id j \<noteq> si_instance_id i)"
proof -
  obtain l2 where l2: "registry_instances (si_service_name i) m2 = (Inr l2, m2)" by (simp add: registry_instances_def)
  obtain l4 where l4: "registry_instances (si_service_name i) m4 = (Inr l4, m4)" by (simp add: registry_instances_def)
  have a: "ag_service_name a = si_service_name i" "ag_instance_id a = si_instance_id i"
    using assms(2) by (auto simp: agent_start_def split: prod.splits sum.splits)
  have r: "r = Inr ()"
    using assms(5) by (auto simp: agent_shutdown_def registry_deregister_def Let_def split: option.splits)
  have m1: "registry_ok m1"
    using assms(1,2) registry_ok_register [of m i] by (auto simp: agent_start_def split: prod.splits sum.splits)
  then have m2: "registry_ok m2"
    using memory_registry.run_ok unfolding assms(4) memory_registry.run_def by blast
  have "i \<in> set l2"
    using memory_registry.agent_visible [OF assms(1,2,3)] l2 unfolding assms(4) memory_registry.run_def by blast
  moreover have "\<forall>j \<in> set l4. si_instance_id j \<noteq> si_instance_id i"
    using memory_registry.agent_gone [OF m2, of a "()" a' m3 ops' runtime l4 m4] assms(5,6) l4 a r
    unfolding assms(7) memory_registry.run_def by simp
  ultimately show ?thesis using l2 l4 by simp
qed

theorem agent_lifecycle_witness:
  "\<exists>m1 a. agent_start registry_register (demo_instance ''a'') service_registry_new = (Inr a, m1)
     \<and> demo_instance ''a'' \<in> set (projr (fst (registry_instances ''api''
          (fold (registry_step registry_register registry_deregister registry_heartbeat)
             [RegRegister (demo_instance ''b''), RegDeregister ''api'' ''b''] m1))))"
proof -
  let ?ops = "[RegRegister (demo_instance ''b''), RegDeregister ''api'' ''b'']"
  have ok: "registry_ok service_registry_new" by (simp add: registry_ok_def service_registry_new_def)
  have names: "si_service_name (demo_instance k) = ''api''" "si_instance_id (demo_instance k) = k" for k
    by (simp_all add: demo_instance_def with_instance_id_def instance_new_def)
  obtain a m1 where s: "agent_start registry_register (demo_instance ''a'') service_registry_new = (Inr a, m1)"
    by (simp add: agent_start_def registry_register_def)
  obtain r a' m3 where d: "agent_shutdown registry_deregister a
      (fold (registry_step registry_register registry_deregister registry_heartbeat) ?ops m1) = (r, a', m3)"
    by (metis prod_cases3)
  from agent_lifecycle [OF ok s _ refl d, of "[]"] s show ?thesis by (auto simp: names)
qed

section \<open>Rotation\<close>

fun picks :: "nat \<Rightarrow> 'a list \<Rightarrow> round_robin \<Rightarrow> 'a option list \<times> round_robin" where
  "picks 0 xs rr = ([], rr)"
| "picks (Suc n) xs rr =
     (case pick xs rr of (x, rr1) \<Rightarrow> (case picks n xs rr1 of (ys, rr2) \<Rightarrow> (x # ys, rr2)))"

lemma pick_Some:
  "xs \<noteq> [] \<Longrightarrow> pick xs rr = (Some (xs ! (unat (rr_next rr) mod length xs)), rr\<lparr>rr_next := rr_next rr + 1\<rparr>)"
  by (simp add: pick_def Let_def)

lemma picks_result:
  assumes "xs \<noteq> []" and "unat (rr_next rr) + n < 2 ^ 64"
  shows "fst (picks n xs rr) = map (\<lambda>i. Some (xs ! ((unat (rr_next rr) + i) mod length xs))) [0..<n]"
  using assms
proof (induction n arbitrary: rr)
  case (Suc n)
  let ?rr = "rr\<lparr>rr_next := rr_next rr + 1\<rparr>"
  have u: "unat (rr_next ?rr) = Suc (unat (rr_next rr))" using Suc.prems by (simp add: unat_word_ariths)
  have "fst (picks n xs ?rr) = map (\<lambda>i. Some (xs ! ((unat (rr_next rr) + Suc i) mod length xs))) [0..<n]"
    using Suc u by simp
  then show ?case
    using Suc.prems
    by (cases "picks n xs ?rr")
      (simp add: pick_Some upt_conv_Cons map_Suc_upt [symmetric] comp_def del: upt_Suc map_Suc_upt)
qed simp

text \<open>Round robin is fair. Until the 64-bit counter wraps, as many picks in a row as there are
  instances give every instance exactly once, in the list's order starting where the counter
  stands; on an empty list a pick gives nothing and does not advance.\<close>

theorem round_robin_fair:
  fixes xs :: "'a list"
  assumes "unat (rr_next rr) + length xs < 2 ^ 64"
  shows "fst (picks (length xs) xs rr) = map Some (rotate (unat (rr_next rr)) xs)
    \<and> pick ([] :: 'a list) rr = (None, rr)"
proof -
  have "fst (picks (length xs) xs rr) = map Some (rotate (unat (rr_next rr)) xs)" if "xs \<noteq> []"
    using picks_result [OF that assms] by (auto simp: nth_rotate intro!: nth_equalityI)
  then show ?thesis by (cases "xs = []") (auto simp: pick_def)
qed

theorem round_robin_fair_witness:
  "fst (picks (length [''a'', ''b'', ''c'']) [''a'', ''b'', ''c''] \<lparr>rr_next = 1\<rparr>) = [Some ''b'', Some ''c'', Some ''a'']"
proof -
  have "unat (rr_next \<lparr>rr_next = 1\<rparr>) + length [''a'', ''b'', ''c''] < 2 ^ 64" by simp
  from round_robin_fair [OF this] show ?thesis by (simp del: picks.simps)
qed

end
