(* ===== verification/ConfigTree.thy ===== *)
theory ConfigTree
  imports Http OrderedMap "HOL-Library.Sublist"
begin

text \<open>
  The configuration tree (\<open>klauthed-core/src/config/map.rs\<close>, \<open>config.rs\<close>). A \<open>ConfigMap\<close> is a
  \<open>BTreeMap\<close>, an association list in key order here. An object of \<open>serde_json\<close> inside it is one too, or,
  when the crate is built to preserve insertion order, a map that compares without regard to order: it
  is represented by its entries in key order all the same, so that equal maps are equal lists. No
  definition below depends on the order of the entries of such an object; only its printed form would. A dotted key stands for a path of segments,
  and the theorems read trees along paths.
\<close>

section \<open>Merging\<close>

type_synonym config_map = "(string \<times> json) list"

text \<open>\<open>merge_value\<close> and its loop over the fields of the overlay; \<open>ConfigMap::merge\<close> is the same
  loop.\<close>

function merge_value :: "json \<Rightarrow> json \<Rightarrow> json" and merge_fields :: "config_map \<Rightarrow> config_map \<Rightarrow> config_map" where
  "merge_value base overlay =
     (case (base, overlay) of
        (JObject b, JObject ov) \<Rightarrow> JObject (merge_fields b ov)
      | _ \<Rightarrow> overlay)"
| "merge_fields b [] = b"
| "merge_fields b ((k, v) # ov) =
     merge_fields (bt_insert k (case map_of b k of Some existing \<Rightarrow> merge_value existing v | None \<Rightarrow> v) b) ov"
  by pat_completeness auto
termination
  by (relation "measure (\<lambda>x. case x of Inl (b, ov) \<Rightarrow> 2 * size ov | Inr (b, ov) \<Rightarrow> Suc (2 * size_list (size_prod (\<lambda>_. 0) size) ov))")
    auto

declare merge_value.simps [simp del]

definition config_merge :: "config_map \<Rightarrow> config_map \<Rightarrow> config_map" where
  "config_merge self other = merge_fields self other"

section \<open>Dotted keys\<close>

definition object_fields :: "json \<Rightarrow> config_map" where
  "object_fields t = (case t of JObject fs \<Rightarrow> fs | _ \<Rightarrow> [])"

lemma split_once_shorter: "split_once d s = Some (a, b) \<Longrightarrow> length b < length s"
  by (auto dest!: split_once_Some_append)

function insert_nested :: "json \<Rightarrow> string \<Rightarrow> json \<Rightarrow> json" where
  "insert_nested target path value =
     (let obj = object_fields target
      in case split_once (CHR ''.'') path of
           None \<Rightarrow> JObject (bt_insert path (merge_value (case map_of obj path of None \<Rightarrow> JNull | Some e \<Rightarrow> e) value) obj)
         | Some (head, tail) \<Rightarrow>
             JObject (bt_insert head
               (insert_nested (case map_of obj head of None \<Rightarrow> JObject [] | Some c \<Rightarrow> c) tail value) obj))"
  by pat_completeness auto
termination
  by (relation "measure (\<lambda>(t, path, v). length path)") (auto simp: split_once_shorter)

declare insert_nested.simps [simp del]

definition expand_entry :: "string \<times> json \<Rightarrow> config_map \<Rightarrow> config_map" where
  "expand_entry kv root =
     (case kv of (key, value) \<Rightarrow>
       (case split_once (CHR ''.'') key of
          None \<Rightarrow> bt_insert key (merge_value (case map_of root key of None \<Rightarrow> JNull | Some e \<Rightarrow> e) value) root
        | Some (head, tail) \<Rightarrow>
            bt_insert head
              (insert_nested (case map_of root head of None \<Rightarrow> JObject [] | Some c \<Rightarrow> c) tail value) root))"

definition expand_dotted :: "config_map \<Rightarrow> config_map" where
  "expand_dotted m = fold expand_entry m []"

section \<open>Reading\<close>

text \<open>\<open>Value::get\<close> on a string key.\<close>

definition value_get :: "json \<Rightarrow> string \<Rightarrow> json option" where
  "value_get v k = map_of (object_fields v) k"

function get_nested :: "json \<Rightarrow> string \<Rightarrow> json option" where
  "get_nested value path =
     (case split_once (CHR ''.'') path of
        None \<Rightarrow> value_get value path
      | Some (head, tail) \<Rightarrow>
          (case value_get value head of None \<Rightarrow> None | Some child \<Rightarrow> get_nested child tail))"
  by pat_completeness auto
termination
  by (relation "measure (\<lambda>(t, path). length path)") (auto simp: split_once_shorter)

declare get_nested.simps [simp del]

definition get_raw :: "config_map \<Rightarrow> string \<Rightarrow> json option" where
  "get_raw values key =
     (case map_of values key of
        Some v \<Rightarrow> Some v
      | None \<Rightarrow>
          (case split_once (CHR ''.'') key of
             None \<Rightarrow> None
           | Some (head, tail) \<Rightarrow>
               (case map_of values head of None \<Rightarrow> None | Some parent \<Rightarrow> get_nested parent tail)))"

definition contains_key :: "config_map \<Rightarrow> string \<Rightarrow> bool" where
  "contains_key values key = (get_raw values key \<noteq> None)"

text \<open>\<open>get\<close> and \<open>get_optional\<close>, with the deserializer of the wanted type as a parameter.\<close>

definition config_get :: "(json \<Rightarrow> string + 'a) \<Rightarrow> config_map \<Rightarrow> string \<Rightarrow> config_error + 'a" where
  "config_get de values key =
     (case get_raw values key of
        None \<Rightarrow> Inl (CE_MissingRequired key)
      | Some v \<Rightarrow> (case de v of Inl e \<Rightarrow> Inl (CE_Deserialization key e) | Inr x \<Rightarrow> Inr x))"

definition config_get_optional :: "(json \<Rightarrow> string + 'a) \<Rightarrow> config_map \<Rightarrow> string \<Rightarrow> config_error + 'a option" where
  "config_get_optional de values key =
     (case get_raw values key of
        None \<Rightarrow> Inr None
      | Some v \<Rightarrow> (case de v of Inl e \<Rightarrow> Inl (CE_Deserialization key e) | Inr x \<Rightarrow> Inr (Some x)))"

definition config_get_string :: "(json \<Rightarrow> string) \<Rightarrow> config_map \<Rightarrow> string \<Rightarrow> string option" where
  "config_get_string to_text values key =
     (case get_raw values key of
        None \<Rightarrow> None
      | Some (JString s) \<Rightarrow> Some s
      | Some other \<Rightarrow> Some (to_text other))"

section \<open>Paths\<close>

definition segments :: "string \<Rightarrow> string list" where
  "segments key = str_split (CHR ''.'') key"

lemma split_once_None: "split_once d s = None \<longleftrightarrow> d \<notin> set s"
  by (induction s) (auto split: option.splits)

lemma segments_single: "split_once (CHR ''.'') key = None \<Longrightarrow> segments key = [key]"
  unfolding split_once_None segments_def str_split_def by (intro split_by_no_sep) auto

lemma segments_dotted: "split_once (CHR ''.'') key = Some (h, t) \<Longrightarrow> segments key = h # segments t"
  unfolding segments_def str_split_def
  by (auto dest!: split_once_Some_append intro!: split_by_append_sep)

lemma segments_not_Nil [simp]: "segments key \<noteq> []"
  by (simp add: segments_def str_split_def)

fun get_path :: "string list \<Rightarrow> json \<Rightarrow> json option" where
  "get_path [] t = Some t"
| "get_path (k # ks) t = (case value_get t k of None \<Rightarrow> None | Some c \<Rightarrow> get_path ks c)"

fun insert_path :: "string list \<Rightarrow> json \<Rightarrow> json \<Rightarrow> json" where
  "insert_path [] v t = merge_value t v"
| "insert_path (k # ks) v t =
     JObject (bt_insert k
       (insert_path ks v (case value_get t k of None \<Rightarrow> (if ks = [] then JNull else JObject []) | Some c \<Rightarrow> c))
       (object_fields t))"

lemma get_nested_path: "get_nested t path = get_path (segments path) t"
proof (induction t path rule: get_nested.induct)
  case (1 t path)
  show ?case
  proof (cases "split_once (CHR ''.'') path")
    case None
    then show ?thesis by (simp add: get_nested.simps [of t path] segments_single split: option.splits)
  next
    case (Some p)
    then obtain h s where "split_once (CHR ''.'') path = Some (h, s)" by (cases p) auto
    with 1 show ?thesis
      by (auto simp: get_nested.simps [of t path] segments_dotted split: option.splits)
  qed
qed

lemma insert_nested_path: "insert_nested t path v = insert_path (segments path) v t"
proof (induction t path v rule: insert_nested.induct)
  case (1 t path v)
  show ?case
  proof (cases "split_once (CHR ''.'') path")
    case None
    then show ?thesis by (simp add: insert_nested.simps [of t path] segments_single value_get_def Let_def)
  next
    case (Some p)
    then obtain h s where "split_once (CHR ''.'') path = Some (h, s)" by (cases p) auto
    with 1 show ?thesis
      by (simp add: insert_nested.simps [of t path] segments_dotted value_get_def Let_def)
  qed
qed

lemma expand_entry_path: "JObject (expand_entry (key, v) root) = insert_path (segments key) v (JObject root)"
proof (cases "split_once (CHR ''.'') key")
  case None
  then show ?thesis by (simp add: expand_entry_def segments_single value_get_def object_fields_def)
next
  case (Some p)
  then obtain h s where "split_once (CHR ''.'') key = Some (h, s)" by (cases p) auto
  then show ?thesis
    by (simp add: expand_entry_def segments_dotted value_get_def object_fields_def insert_nested_path)
qed

section \<open>What a merge leaves\<close>

fun is_object :: "json \<Rightarrow> bool" where
  "is_object (JObject fs) = True"
| "is_object _ = False"

text \<open>Objects have each key once, at every depth.\<close>

fun json_ok :: "json \<Rightarrow> bool" where
  "json_ok (JObject fs) = (distinct (map fst fs) \<and> (\<forall>kv \<in> set fs. json_ok (snd kv)))"
| "json_ok _ = True"

lemma merge_value_simps [simp]:
  "merge_value (JObject bs) (JObject fs) = JObject (merge_fields bs fs)"
  "\<not> is_object b \<Longrightarrow> merge_value b ov = ov"
  "\<not> is_object ov \<Longrightarrow> merge_value b ov = ov"
  by (auto simp: merge_value.simps split: json.splits elim: is_object.elims)

lemma map_of_merge_fields:
  "distinct (map fst ov) \<Longrightarrow>
   map_of (merge_fields b ov) k =
     (case map_of ov k of
        None \<Rightarrow> map_of b k
      | Some v \<Rightarrow> Some (case map_of b k of None \<Rightarrow> v | Some e \<Rightarrow> merge_value e v))"
proof (induction ov arbitrary: b)
  case (Cons p ov)
  obtain k' v where p: "p = (k', v)" by fastforce
  with Cons have "map_of ov k' = None" by (simp add: map_of_eq_None_iff)
  with Cons p show ?case by (auto split: option.splits)
qed simp

lemma value_get_simps [simp]: "value_get (JObject fs) k = map_of fs k" "\<not> is_object v \<Longrightarrow> value_get v k = None"
  by (auto simp: value_get_def object_fields_def split: json.splits elim: is_object.elims)

text \<open>A path the overlay says nothing about: along it the overlay has objects until a key is
  missing.\<close>

fun untouched :: "string list \<Rightarrow> json \<Rightarrow> bool" where
  "untouched [] ov = False"
| "untouched (k # ks) ov =
     (is_object ov \<and> (case value_get ov k of None \<Rightarrow> True | Some c \<Rightarrow> untouched ks c))"

lemma untouched_absent: "untouched p ov \<Longrightarrow> get_path p ov = None"
  by (induction p ov rule: untouched.induct) (auto split: option.splits)

lemma untouched_not_object: "untouched p ov \<Longrightarrow> \<not> is_object b \<Longrightarrow> get_path p b = None"
  by (cases p) auto

lemma json_ok_child: "json_ok t \<Longrightarrow> value_get t k = Some c \<Longrightarrow> json_ok c"
  by (cases t) (auto dest: map_of_SomeD simp: value_get_def object_fields_def)

lemma merge_keeps_untouched:
  "json_ok ov \<Longrightarrow> untouched p ov \<Longrightarrow> get_path p (merge_value b ov) = get_path p b"
proof (induction p arbitrary: b ov)
  case (Cons k ks)
  then obtain fs where ov: "ov = JObject fs" by (auto elim: is_object.elims)
  show ?case
  proof (cases b)
    case (JObject bs)
    have m: "value_get (merge_value b ov) k = (case map_of fs k of
        None \<Rightarrow> map_of bs k
      | Some v \<Rightarrow> Some (case map_of bs k of None \<Rightarrow> v | Some e \<Rightarrow> merge_value e v))"
      using Cons.prems by (simp add: ov JObject map_of_merge_fields)
    show ?thesis
    proof (cases "map_of fs k")
      case None
      with m show ?thesis by (simp add: JObject)
    next
      case (Some v)
      with Cons.prems ov have "untouched ks v" "json_ok v" using json_ok_child [of ov k v] by auto
      with m Some Cons.IH untouched_absent show ?thesis by (simp add: JObject split: option.splits)
    qed
  qed (use Cons.prems untouched_absent [OF Cons.prems(2)] in simp_all)
qed simp

lemma merge_overrides:
  "json_ok ov \<Longrightarrow> get_path p ov = Some y \<Longrightarrow>
   get_path p (merge_value b ov) = Some (case get_path p b of None \<Rightarrow> y | Some x \<Rightarrow> merge_value x y)"
proof (induction p arbitrary: b ov)
  case (Cons k ks)
  then obtain v where v: "value_get ov k = Some v" "get_path ks v = Some y" by (auto split: option.splits)
  obtain fs where ov: "ov = JObject fs" using v(1) by (cases ov) auto
  show ?case
  proof (cases b)
    case (JObject bs)
    have m: "value_get (merge_value b ov) k = Some (case map_of bs k of None \<Rightarrow> v | Some e \<Rightarrow> merge_value e v)"
      using Cons.prems(1) v(1) by (simp add: ov JObject map_of_merge_fields)
    have "json_ok v" using json_ok_child [OF Cons.prems(1) v(1)] .
    with m v(2) Cons.IH show ?thesis by (simp add: JObject split: option.splits)
  qed (use Cons.prems v in simp_all)
qed simp

text \<open>Merging overrides exactly what the overlay sets. Where the overlay has a value along a path,
  the merged tree has that value, merged into the old one only when both are objects, so a scalar
  or a list replaces the old value wholesale; along a path the overlay says nothing about, the
  merged tree reads as before.\<close>

theorem config_merge_overrides:
  assumes "json_ok (JObject other)"
  shows "(get_path p (JObject other) = Some y \<longrightarrow>
            get_path p (JObject (config_merge self other))
              = Some (case get_path p (JObject self) of None \<Rightarrow> y | Some x \<Rightarrow> merge_value x y))
     \<and> (get_path p (JObject other) = Some y \<and> \<not> is_object y \<longrightarrow> get_path p (JObject (config_merge self other)) = Some y)
     \<and> (untouched p (JObject other) \<longrightarrow> get_path p (JObject (config_merge self other)) = get_path p (JObject self))"
proof -
  have "merge_value (JObject self) (JObject other) = JObject (config_merge self other)"
    by (simp add: config_merge_def)
  with merge_overrides [OF assms, of p y "JObject self"] merge_keeps_untouched [OF assms, of p "JObject self"]
  show ?thesis by (auto split: option.splits)
qed

theorem config_merge_overrides_witness:
  "get_path [''db'', ''url''] (JObject (config_merge [(''db'', JObject [(''pool'', JInt 5), (''url'', JString ''a'')])]
       [(''db'', JObject [(''url'', JString ''b'')])])) = Some (JString ''b'')
   \<and> get_path [''db'', ''pool''] (JObject (config_merge [(''db'', JObject [(''pool'', JInt 5), (''url'', JString ''a'')])]
       [(''db'', JObject [(''url'', JString ''b'')])])) = Some (JInt 5)"
proof -
  let ?other = "[(''db'', JObject [(''url'', JString ''b'')])]"
  have ok: "json_ok (JObject ?other)" by simp
  show ?thesis
    using config_merge_overrides [OF ok, of "[''db'', ''url'']" "JString ''b''"]
      config_merge_overrides [OF ok, of "[''db'', ''pool'']"] by simp
qed

section \<open>Dotted keys read back\<close>

lemma insert_path_get: "\<not> is_object v \<Longrightarrow> get_path p (insert_path p v t) = Some v"
  by (induction p arbitrary: t) auto

lemma get_path_empty: "ks \<noteq> [] \<Longrightarrow> get_path ks (JObject []) = None"
  by (cases ks) auto

definition unrelated :: "'a list \<Rightarrow> 'a list \<Rightarrow> bool" where
  "unrelated p q = (\<not> prefix p q \<and> \<not> prefix q p)"

lemma value_get_fields: "map_of (object_fields t) k = value_get t k"
  by (simp add: value_get_def)

lemma insert_path_frame: "unrelated p q \<Longrightarrow> get_path q (insert_path p v t) = get_path q t"
proof (induction p arbitrary: q t)
  case Nil
  then show ?case by (simp add: unrelated_def)
next
  case (Cons k ks)
  then obtain l ls where q: "q = l # ls" by (cases q) (auto simp: unrelated_def)
  show ?case
  proof (cases "l = k")
    case False
    then show ?thesis by (simp add: q value_get_fields)
  next
    case True
    with Cons.prems q have u: "unrelated ks ls" by (simp add: unrelated_def)
    then have "ks \<noteq> []" "ls \<noteq> []" by (auto simp: unrelated_def)
    with Cons.IH [OF u] True show ?thesis
      by (simp add: q get_path_empty split: option.splits)
  qed
qed

lemma expand_dotted_fold: "JObject (fold expand_entry m root) = fold (\<lambda>(k, v) t. insert_path (segments k) v t) m (JObject root)"
proof (induction m arbitrary: root)
  case (Cons kv m)
  obtain k v where kv: "kv = (k, v)" by fastforce
  have "JObject (fold expand_entry (kv # m) root) = JObject (fold expand_entry m (expand_entry (k, v) root))"
    by (simp add: kv)
  also have "\<dots> = fold (\<lambda>(k, v) t. insert_path (segments k) v t) m (insert_path (segments k) v (JObject root))"
    unfolding Cons.IH by (simp add: expand_entry_path)
  finally show ?case by (simp add: kv)
qed simp

lemma fold_insert_frame:
  "\<forall>kv \<in> set m. unrelated (segments (fst kv)) q \<Longrightarrow>
   get_path q (fold (\<lambda>(k, v) t. insert_path (segments k) v t) m t) = get_path q t"
  by (induction m arbitrary: t) (auto simp: insert_path_frame)

text \<open>No key is above another one.\<close>

fun independent :: "config_map \<Rightarrow> bool" where
  "independent [] = True"
| "independent ((k, v) # m) = (list_all (\<lambda>kv. unrelated (segments (fst kv)) (segments k)) m \<and> independent m)"

lemma expanded_get:
  assumes "independent m" and "(k, v) \<in> set m" and "\<not> is_object v"
  shows "get_path (segments k) (fold (\<lambda>(k, v) t. insert_path (segments k) v t) m t) = Some v"
  using assms(1,2)
proof (induction m arbitrary: t rule: independent.induct)
  case (2 k' v' m)
  show ?case
  proof (cases "(k, v) = (k', v')")
    case True
    with 2 fold_insert_frame [of m "segments k"] insert_path_get [OF assms(3)] show ?thesis
      by (auto simp: list_all_iff)
  qed (use 2 in auto)
qed simp

lemma get_raw_path:
  assumes "\<forall>k \<in> fst ` set values. CHR ''.'' \<notin> set k"
  shows "get_raw values key = get_path (segments key) (JObject values)"
proof (cases "split_once (CHR ''.'') key")
  case None
  then show ?thesis by (auto simp: get_raw_def segments_single split: option.splits)
next
  case (Some p)
  then obtain h s where s: "split_once (CHR ''.'') key = Some (h, s)" by (cases p) auto
  then have "CHR ''.'' \<in> set key" using split_once_None [of "CHR ''.''" key] by fastforce
  with assms have "map_of values key = None" by (metis map_of_eq_None_iff)
  with s show ?thesis by (simp add: get_raw_def segments_dotted get_nested_path split: option.splits)
qed

lemma expand_entry_keys: "\<exists>h. CHR ''.'' \<notin> set h \<and> fst ` set (expand_entry kv root) = insert h (fst ` set root)"
proof -
  obtain key v where kv: "kv = (key, v)" by fastforce
  show ?thesis
  proof (cases "split_once (CHR ''.'') key")
    case None
    then have "CHR ''.'' \<notin> set key" by (simp add: split_once_None)
    with None show ?thesis by (intro exI [of _ key]) (simp add: kv expand_entry_def keys_bt_insert)
  next
    case (Some p)
    then obtain h s where s: "split_once (CHR ''.'') key = Some (h, s)" by (cases p) auto
    then show ?thesis
      using split_once_Some_append [OF s] by (intro exI [of _ h]) (simp add: kv expand_entry_def keys_bt_insert)
  qed
qed

lemma expanded_keys_plain:
  assumes "\<forall>k \<in> fst ` set root. CHR ''.'' \<notin> set k" and "k \<in> fst ` set (fold expand_entry m root)"
  shows "CHR ''.'' \<notin> set k"
  using assms
proof (induction m arbitrary: root)
  case (Cons kv m)
  have "\<forall>l \<in> fst ` set (expand_entry kv root). CHR ''.'' \<notin> set l"
  proof -
    from expand_entry_keys [of kv root] obtain h where "CHR ''.'' \<notin> set h"
      "fst ` set (expand_entry kv root) = insert h (fst ` set root)" by blast
    with Cons.prems(1) show ?thesis by simp
  qed
  from Cons.IH [OF this] Cons.prems(2) show ?case by simp
qed auto

lemma dotted_entry:
  assumes "independent m" and "(k, v) \<in> set m" and "\<not> is_object v"
  shows "get_raw (expand_dotted m) k = Some v"
proof -
  have "\<forall>k \<in> fst ` set (expand_dotted m). CHR ''.'' \<notin> set k"
    using expanded_keys_plain [of "[]" _ m] unfolding expand_dotted_def by simp
  then have "get_raw (expand_dotted m) k = get_path (segments k) (JObject (expand_dotted m))"
    by (rule get_raw_path)
  also have "\<dots> = Some v"
    unfolding expand_dotted_def expand_dotted_fold by (rule expanded_get [OF assms])
  finally show ?thesis .
qed

text \<open>Dotted keys are read back. After expanding a flat map of which no key is above another one,
  every entry whose value is not an object is found under its own dotted key.\<close>

theorem config_dotted_roundtrip:
  assumes "independent m" and "(k, v) \<in> set m" and "\<not> is_object v"
  shows "get_raw (expand_dotted m) k = Some v \<and> contains_key (expand_dotted m) k"
  using dotted_entry [OF assms] by (simp add: contains_key_def)

theorem config_dotted_roundtrip_witness:
  "get_raw (expand_dotted [(''db.pool.max'', JInt 10), (''db.url'', JString ''x''), (''name'', JNull)]) ''db.pool.max''
   = Some (JInt 10)"
  by (rule config_dotted_roundtrip [THEN conjunct1]) (simp_all add: unrelated_def segments_def str_split_def)

section \<open>Trees are ordered maps at every depth\<close>

text \<open>The shape a \<open>BTreeMap\<close> has by construction: every object of the tree, those inside arrays
  included, has its keys in ascending order and each once.\<close>

fun tree_ok :: "json \<Rightarrow> bool" where
  "tree_ok (JObject fs) = (bt_ok fs \<and> (\<forall>kv \<in> set fs. tree_ok (snd kv)))"
| "tree_ok (JArray vs) = (\<forall>v \<in> set vs. tree_ok v)"
| "tree_ok _ = True"

lemma tree_ok_field: "tree_ok (JObject fs) \<Longrightarrow> map_of fs k = Some v \<Longrightarrow> tree_ok v"
  by (auto dest!: map_of_SomeD)

lemma tree_ok_put: "tree_ok (JObject fs) \<Longrightarrow> tree_ok v \<Longrightarrow> tree_ok (JObject (bt_insert k v fs))"
  by (auto simp: bt_ok_insert dest: set_bt_insert)

lemma merge_tree_ok:
  "tree_ok b \<Longrightarrow> tree_ok ov \<Longrightarrow> tree_ok (merge_value b ov)"
  "tree_ok (JObject bs) \<Longrightarrow> (\<forall>kv \<in> set ovs. tree_ok (snd kv)) \<Longrightarrow> tree_ok (JObject (merge_fields bs ovs))"
proof (induction b ov and bs ovs rule: merge_value_merge_fields.induct)
  case (1 base overlay)
  show ?case
  proof (cases "is_object base \<and> is_object overlay")
    case True
    then obtain bs fs where "base = JObject bs" "overlay = JObject fs" by (auto elim!: is_object.elims(2))
    with "1.prems" "1.IH" [of base overlay bs fs] show ?thesis by simp
  qed (use "1.prems" in auto)
next
  case (3 b k v ov)
  have v: "tree_ok (case map_of b k of Some existing \<Rightarrow> merge_value existing v | None \<Rightarrow> v)"
    using "3.IH"(1) tree_ok_field [OF "3.prems"(1)] "3.prems"(2) by (simp split: option.splits)
  show ?case
    unfolding merge_fields.simps by (rule "3.IH"(2) [OF tree_ok_put [OF "3.prems"(1) v]]) (use 3 in simp)
qed simp

lemma object_fields_tree_ok: "tree_ok t \<Longrightarrow> tree_ok (JObject (object_fields t))"
  by (cases t) (simp_all add: object_fields_def bt_ok_def)

lemma insert_path_tree_ok: "tree_ok t \<Longrightarrow> tree_ok v \<Longrightarrow> tree_ok (insert_path p v t)"
proof (induction p arbitrary: t)
  case Nil
  then show ?case by (simp add: merge_tree_ok)
next
  case (Cons k ks)
  have "tree_ok c" if "value_get t k = Some c" for c
    using that Cons.prems(1) by (auto simp: value_get_def intro: tree_ok_field [OF object_fields_tree_ok])
  then have "tree_ok (case value_get t k of None \<Rightarrow> (if ks = [] then JNull else JObject []) | Some c \<Rightarrow> c)"
    by (auto split: option.splits simp: bt_ok_def)
  then have "tree_ok (insert_path ks v (case value_get t k of None \<Rightarrow> (if ks = [] then JNull else JObject []) | Some c \<Rightarrow> c))"
    by (rule Cons.IH [OF _ Cons.prems(2)])
  then show ?case unfolding insert_path.simps by (rule tree_ok_put [OF object_fields_tree_ok [OF Cons.prems(1)]])
qed

lemma expand_dotted_tree_ok:
  assumes "\<forall>kv \<in> set m. tree_ok (snd kv)"
  shows "tree_ok (JObject (expand_dotted m))"
proof -
  have "tree_ok (JObject root) \<Longrightarrow> tree_ok (JObject (fold expand_entry m root))" for root
    using assms
  proof (induction m arbitrary: root)
    case (Cons kv m)
    obtain k v where kv: "kv = (k, v)" by fastforce
    have "tree_ok (JObject (expand_entry kv root))"
      unfolding kv expand_entry_path using Cons.prems kv by (auto simp del: tree_ok.simps intro!: insert_path_tree_ok)
    with Cons show ?case by simp
  qed simp
  from this [of "[]"] show ?thesis by (simp add: expand_dotted_def bt_ok_def)
qed

end
