(* ===== verification/ConfigBuild.thy ===== *)
theory ConfigBuild
  imports ConfigTree Decimal
begin

text \<open>
  Profiles, providers, the configuration builder and hot reload (\<open>klauthed-core/src/config\<close>:
  \<open>profile.rs\<close>, \<open>provider/\<close>, \<open>builder.rs\<close>, \<open>reload.rs\<close>). What a provider loads is its own I/O: a
  provider is its name, its kind and the answer of its \<open>load\<close>, which a reload may see change. The
  environment provider is modelled on the list of variables; whether text reads as a finite
  \<open>f64\<close> is a parameter. Letter case is that of ASCII names.
\<close>

section \<open>Profiles\<close>

datatype profile = Local | Dev | Test | Staging | Prod

definition requires_vault :: "profile \<Rightarrow> bool" where
  "requires_vault p = (p = Staging \<or> p = Prod)"

definition allows_file_secrets :: "profile \<Rightarrow> bool" where
  "allows_file_secrets p = (\<not> requires_vault p)"

fun profile_as_str :: "profile \<Rightarrow> string" where
  "profile_as_str Local = ''local''"
| "profile_as_str Dev = ''dev''"
| "profile_as_str Test = ''test''"
| "profile_as_str Staging = ''staging''"
| "profile_as_str Prod = ''prod''"

definition profile_from_str :: "string \<Rightarrow> profile option" where
  "profile_from_str s =
     (let l = to_lowercase s in
      if l = ''local'' then Some Local
      else if l = ''dev'' then Some Dev
      else if l = ''test'' then Some Test
      else if l = ''staging'' then Some Staging
      else if l = ''prod'' \<or> l = ''production'' then Some Prod
      else None)"

definition profile_detect :: "(string \<Rightarrow> string option) \<Rightarrow> profile" where
  "profile_detect var =
     (case (case var ''APP_PROFILE'' of Some s \<Rightarrow> Some s | None \<Rightarrow> var ''KLAUTHED_PROFILE'') of
        None \<Rightarrow> Local
      | Some s \<Rightarrow> (case profile_from_str s of None \<Rightarrow> Local | Some p \<Rightarrow> p))"

section \<open>Providers\<close>

datatype provider_kind = KEnv | KFile | KVault | KConfigServer | KMemory

definition is_file_secret_source :: "provider_kind \<Rightarrow> bool" where
  "is_file_secret_source k = (k = KFile)"

record config_provider =
  pv_name :: string
  pv_kind :: provider_kind
  pv_load :: "config_error + config_map"

section \<open>Environment provider\<close>

definition NESTING_SEPARATOR :: string where
  "NESTING_SEPARATOR = ''__''"

definition DEFAULT_PREFIX :: string where
  "DEFAULT_PREFIX = ''APP''"

text \<open>\<open>str::replace("__", ".")\<close>, left to right without overlap.\<close>

fun replace_nesting :: "string \<Rightarrow> string" where
  "replace_nesting [] = []"
| "replace_nesting [c] = [c]"
| "replace_nesting (c # d # cs) =
     (if [c, d] = NESTING_SEPARATOR then CHR ''.'' # replace_nesting cs else c # replace_nesting (d # cs))"

definition str_strip_prefix :: "string \<Rightarrow> string \<Rightarrow> string option" where
  "str_strip_prefix p s = (if take (length p) s = p then Some (drop (length p) s) else None)"

definition coerce_scalar :: "(string \<Rightarrow> bool) \<Rightarrow> string \<Rightarrow> json" where
  "coerce_scalar finite_f64 raw =
     (if raw = ''true'' then JBool True
      else if raw = ''false'' then JBool False
      else if raw = ''null'' then JNull
      else (case parse_i64 raw of
              Some i \<Rightarrow> JInt i
            | None \<Rightarrow>
                (case parse_unsigned 64 raw of
                   Some u \<Rightarrow> JInt (int u)
                 | None \<Rightarrow> if finite_f64 raw then JFloat raw else JString raw)))"

definition env_entry :: "(string \<Rightarrow> bool) \<Rightarrow> string \<Rightarrow> string \<times> string \<Rightarrow> (string \<times> json) option" where
  "env_entry finite_f64 pfx kv =
     (case str_strip_prefix (to_uppercase pfx @ ''_'') (to_uppercase (fst kv)) of
        None \<Rightarrow> None
      | Some rest \<Rightarrow>
          if rest = [] then None
          else Some (replace_nesting (to_lowercase rest), coerce_scalar finite_f64 (snd kv)))"

text \<open>Collecting into a \<open>BTreeMap\<close>: a later variable with the same key wins.\<close>

definition env_flat :: "(string \<Rightarrow> bool) \<Rightarrow> string \<Rightarrow> (string \<times> string) list \<Rightarrow> config_map" where
  "env_flat finite_f64 pfx vars =
     fold (\<lambda>kv m. case env_entry finite_f64 pfx kv of None \<Rightarrow> m | Some (k, v) \<Rightarrow> bt_insert k v m) vars []"

definition env_collect :: "(string \<Rightarrow> bool) \<Rightarrow> string \<Rightarrow> (string \<times> string) list \<Rightarrow> config_map" where
  "env_collect finite_f64 pfx vars = expand_dotted (env_flat finite_f64 pfx vars)"

definition env_provider :: "(string \<Rightarrow> bool) \<Rightarrow> string \<Rightarrow> (string \<times> string) list \<Rightarrow> config_provider" where
  "env_provider finite_f64 pfx vars =
     \<lparr>pv_name = ''env:'' @ to_uppercase pfx @ ''_*'', pv_kind = KEnv,
      pv_load = Inr (env_collect finite_f64 pfx vars)\<rparr>"

section \<open>File provider\<close>

datatype file_format = Toml | Json

datatype read_result = FileText string | FileMissing | FileError string

text \<open>The extension of the path (\<open>Path::extension\<close>), the file system and the two parsers are
  parameters; a parse answers a value or the error of the library.\<close>

definition format_from_ext :: "string option \<Rightarrow> file_format option" where
  "format_from_ext ext =
     (case ext of None \<Rightarrow> None
      | Some e \<Rightarrow> if e = ''toml'' then Some Toml else if e = ''json'' then Some Json else None)"

definition file_parse ::
  "(file_format \<Rightarrow> string \<Rightarrow> config_error + json) \<Rightarrow> string \<Rightarrow> string \<Rightarrow> file_format \<Rightarrow> config_error + config_map" where
  "file_parse parser path text fmt =
     (case parser fmt text of
        Inl e \<Rightarrow> Inl e
      | Inr (JObject fs) \<Rightarrow> Inr (fold (\<lambda>(k, v) m. bt_insert k v m) fs [])
      | Inr _ \<Rightarrow> Inl (CE_ParseError path ''top-level config must be a table/object''))"

definition file_load ::
  "(file_format \<Rightarrow> string \<Rightarrow> config_error + json) \<Rightarrow> (string \<Rightarrow> string option) \<Rightarrow> (string \<Rightarrow> read_result)
   \<Rightarrow> string \<Rightarrow> bool \<Rightarrow> config_error + config_map" where
  "file_load parser extension read path is_optional =
     (case format_from_ext (extension path) of
        None \<Rightarrow> Inl (CE_UnsupportedFormat path)
      | Some fmt \<Rightarrow>
          (case read path of
             FileText text \<Rightarrow> file_parse parser path text fmt
           | FileMissing \<Rightarrow> if is_optional then Inr [] else Inl (CE_FileNotFound path)
           | FileError e \<Rightarrow> Inl (CE_Io e)))"

definition file_provider ::
  "(file_format \<Rightarrow> string \<Rightarrow> config_error + json) \<Rightarrow> (string \<Rightarrow> string option) \<Rightarrow> (string \<Rightarrow> read_result)
   \<Rightarrow> string \<Rightarrow> bool \<Rightarrow> config_provider" where
  "file_provider parser extension read path is_optional =
     \<lparr>pv_name = ''file:'' @ path, pv_kind = KFile, pv_load = file_load parser extension read path is_optional\<rparr>"

section \<open>Builder\<close>

record config =
  cf_profile :: profile
  cf_values :: config_map

record config_builder =
  bd_profile :: profile
  bd_providers :: "config_provider list"

definition builder_new :: "profile \<Rightarrow> config_builder" where
  "builder_new p = \<lparr>bd_profile = p, bd_providers = []\<rparr>"

definition with_provider :: "config_provider \<Rightarrow> config_builder \<Rightarrow> config_builder" where
  "with_provider p b = b\<lparr>bd_providers := bd_providers b @ [p]\<rparr>"

text \<open>The default chain: \<open>optional_file\<close> and \<open>env\<close> build the file and environment providers, and
  \<open>vault\<close> is \<open>None\<close> without the \<open>vault\<close> feature and otherwise the answer of
  \<open>VaultProvider::from_env\<close>.\<close>

definition add_default_vault_provider ::
  "(config_error + config_provider) option \<Rightarrow> config_builder \<Rightarrow> config_error + config_builder" where
  "add_default_vault_provider vault b =
     (case vault of
        None \<Rightarrow> Inr b
      | Some (Inl e) \<Rightarrow> Inl e
      | Some (Inr p) \<Rightarrow> Inr (with_provider p b))"

definition with_defaults ::
  "(string \<Rightarrow> config_provider) \<Rightarrow> config_provider \<Rightarrow> (config_error + config_provider) option \<Rightarrow> config_builder
   \<Rightarrow> config_error + config_builder" where
  "with_defaults optional_file env vault b =
     (if allows_file_secrets (bd_profile b)
      then (let profile_file = ''config/'' @ profile_as_str (bd_profile b) @ ''.toml''
            in Inr (with_provider env (with_provider (optional_file profile_file)
                 (with_provider (optional_file ''config/default.toml'') b))))
      else (case add_default_vault_provider vault b of
              Inl e \<Rightarrow> Inl e
            | Inr b1 \<Rightarrow> Inr (with_provider env b1)))"

definition enforce_policy :: "config_builder \<Rightarrow> config_error + unit" where
  "enforce_policy b =
     (if \<not> requires_vault (bd_profile b) then Inr ()
      else (case find (\<lambda>p. is_file_secret_source (pv_kind p)) (bd_providers b) of
              Some file \<Rightarrow>
                Inl (CE_InvalidProviderChain (profile_as_str (bd_profile b))
                  (''provider '' @ CHR 0x27 # pv_name file @ CHR 0x27 #
                   '' sources secrets from files, which is not allowed; this profile must use Vault''))
            | None \<Rightarrow>
                if \<not> list_ex (\<lambda>p. pv_kind p = KVault) (bd_providers b)
                then Inl (CE_InvalidProviderChain (profile_as_str (bd_profile b))
                  (''this profile requires a Vault provider but none was configured '' @
                   ''(enable the `vault` feature and set VAULT_ADDR, or add one explicitly)''))
                else Inr ()))"

definition ensure_defaults ::
  "(string \<Rightarrow> config_provider) \<Rightarrow> config_provider \<Rightarrow> (config_error + config_provider) option \<Rightarrow> config_builder
   \<Rightarrow> config_error + config_builder" where
  "ensure_defaults optional_file env vault b =
     (if bd_providers b = [] then with_defaults optional_file env vault b else Inr b)"

fun load_all :: "config_provider list \<Rightarrow> config_map \<Rightarrow> config_error + config_map" where
  "load_all [] acc = Inr acc"
| "load_all (p # ps) acc =
     (case pv_load p of Inl e \<Rightarrow> Inl e | Inr loaded \<Rightarrow> load_all ps (config_merge acc loaded))"

definition resolve :: "config_builder \<Rightarrow> config_error + config" where
  "resolve b =
     (case enforce_policy b of
        Inl e \<Rightarrow> Inl e
      | Inr _ \<Rightarrow>
          (case load_all (bd_providers b) [] of
             Inl e \<Rightarrow> Inl e
           | Inr acc \<Rightarrow> Inr \<lparr>cf_profile = bd_profile b, cf_values = acc\<rparr>))"

definition build ::
  "(string \<Rightarrow> config_provider) \<Rightarrow> config_provider \<Rightarrow> (config_error + config_provider) option \<Rightarrow> config_builder
   \<Rightarrow> config_error + config" where
  "build optional_file env vault b =
     (case ensure_defaults optional_file env vault b of Inl e \<Rightarrow> Inl e | Inr b1 \<Rightarrow> resolve b1)"

section \<open>Hot reload\<close>

text \<open>The watch channel: the current configuration and the configurations sent so far, oldest
  first. A refresh resolves the chain again, with whatever the providers load by then.\<close>

record reloadable =
  rl_current :: config
  rl_sent :: "config list"

definition reload_start ::
  "(string \<Rightarrow> config_provider) \<Rightarrow> config_provider \<Rightarrow> (config_error + config_provider) option \<Rightarrow> config_builder
   \<Rightarrow> config_error + reloadable" where
  "reload_start optional_file env vault b =
     (case build optional_file env vault b of
        Inl e \<Rightarrow> Inl e
      | Inr c \<Rightarrow> Inr \<lparr>rl_current = c, rl_sent = []\<rparr>)"

definition swap_if_changed :: "config \<Rightarrow> reloadable \<Rightarrow> reloadable" where
  "swap_if_changed c r =
     (if cf_values (rl_current r) \<noteq> cf_values c
      then r\<lparr>rl_current := c, rl_sent := rl_sent r @ [c]\<rparr> else r)"

definition refresh_tick :: "config_error + config \<Rightarrow> reloadable \<Rightarrow> reloadable" where
  "refresh_tick resolved r = (case resolved of Inr c \<Rightarrow> swap_if_changed c r | Inl _ \<Rightarrow> r)"

definition reload_now :: "config_error + config \<Rightarrow> reloadable \<Rightarrow> (config_error + unit) \<times> reloadable" where
  "reload_now resolved r =
     (case resolved of Inl e \<Rightarrow> (Inl e, r) | Inr c \<Rightarrow> (Inr (), swap_if_changed c r))"

section \<open>Facts\<close>

lemma profile_roundtrip: "profile_from_str (profile_as_str p) = Some p"
  by (cases p) (simp_all add: profile_from_str_def to_lowercase_def lower_char_def Let_def)

lemma coerce_not_object [simp]: "\<not> is_object (coerce_scalar f raw)"
  by (auto simp: coerce_scalar_def split: option.splits)

lemma env_flat_coerced: "(k, v) \<in> set (env_flat f p vars) \<Longrightarrow> \<exists>raw. v = coerce_scalar f raw"
proof -
  have "(k, v) \<in> set (fold (\<lambda>kv m. case env_entry f p kv of None \<Rightarrow> m | Some (k, v) \<Rightarrow> bt_insert k v m) vars m)
      \<Longrightarrow> (\<exists>raw. v = coerce_scalar f raw) \<or> (k, v) \<in> set m" for m
  proof (induction vars arbitrary: m)
    case (Cons kv vars)
    let ?m = "case env_entry f p kv of None \<Rightarrow> m | Some (k, v) \<Rightarrow> bt_insert k v m"
    from Cons have "(\<exists>raw. v = coerce_scalar f raw) \<or> (k, v) \<in> set ?m" by simp
    then show ?case
      by (auto simp: env_entry_def dest!: set_bt_insert split: option.splits if_splits)
  qed simp
  then show "(k, v) \<in> set (env_flat f p vars) \<Longrightarrow> \<exists>raw. v = coerce_scalar f raw" unfolding env_flat_def by fastforce
qed

lemma env_flat_scalar: "(k, v) \<in> set (env_flat f p vars) \<Longrightarrow> \<not> is_object v"
  by (auto dest: env_flat_coerced)

text \<open>A variable is read back under its configuration key.\<close>

lemma env_roundtrip:
  assumes "independent (env_flat f p vars)" and "(k, v) \<in> set (env_flat f p vars)"
  shows "get_raw (env_collect f p vars) k = Some v"
  unfolding env_collect_def
  by (rule dotted_entry [OF assms env_flat_scalar [OF assms(2)]])

definition vault_chain :: "config_provider list \<Rightarrow> bool" where
  "vault_chain ps = ((\<forall>p \<in> set ps. pv_kind p \<noteq> KFile) \<and> (\<exists>p \<in> set ps. pv_kind p = KVault))"

lemma enforce_policy_refuses:
  assumes "requires_vault (bd_profile b)" and "\<not> vault_chain (bd_providers b)"
  shows "\<exists>msg. enforce_policy b = Inl (CE_InvalidProviderChain (profile_as_str (bd_profile b)) msg)"
proof (cases "find (\<lambda>p. is_file_secret_source (pv_kind p)) (bd_providers b)")
  case None
  then have "\<forall>p \<in> set (bd_providers b). pv_kind p \<noteq> KFile"
    by (auto simp: find_None_iff is_file_secret_source_def)
  with assms None show ?thesis by (auto simp: enforce_policy_def vault_chain_def list_ex_iff)
qed (use assms in \<open>auto simp: enforce_policy_def\<close>)

lemma resolve_refuses:
  assumes "requires_vault (bd_profile b)" and "\<not> vault_chain (bd_providers b)"
  shows "\<exists>msg. resolve b = Inl (CE_InvalidProviderChain (profile_as_str (bd_profile b)) msg)"
  using enforce_policy_refuses [OF assms] by (auto simp: resolve_def)

lemma default_chain:
  assumes "build fl env vault b = Inr c" and "bd_providers b = []" and "requires_vault (bd_profile b)"
  shows "\<exists>ps. vault_chain (ps @ [env]) \<and> (ps = [] \<or> (\<exists>p. vault = Some (Inr p) \<and> ps = [p]))"
proof -
  note defs = build_def ensure_defaults_def with_defaults_def allows_file_secrets_def
    add_default_vault_provider_def with_provider_def
  obtain ps where ps: "ps = [] \<or> (\<exists>p. vault = Some (Inr p) \<and> ps = [p])"
      "resolve (b\<lparr>bd_providers := ps @ [env]\<rparr>) = Inr c"
  proof (cases vault)
    case None
    with assms that [of "[]"] show thesis by (simp add: defs)
  next
    case (Some v)
    with assms that [of "[projr v]"] show thesis by (cases v) (auto simp: defs)
  qed
  from resolve_refuses [of "b\<lparr>bd_providers := ps @ [env]\<rparr>"] assms(3) ps(2)
  have "vault_chain (ps @ [env])" by fastforce
  with ps(1) show ?thesis by blast
qed

text \<open>C36: secrets policy. A profile that requires Vault is resolved only from a chain with a Vault
  provider and without a file provider; any other chain is refused with an error that names the
  profile, before anything is loaded. The default chain of such a profile resolves only when a
  Vault provider could be built.\<close>

theorem config_policy_enforced:
  assumes "requires_vault (bd_profile b)"
  shows "(resolve b = Inr c \<longrightarrow> vault_chain (bd_providers b))
     \<and> (\<not> vault_chain (bd_providers b) \<longrightarrow>
            (\<exists>msg. resolve b = Inl (CE_InvalidProviderChain (profile_as_str (bd_profile b)) msg)))
     \<and> (build fl env vault b = Inr c \<and> bd_providers b = [] \<and> pv_kind env = KEnv \<longrightarrow>
            (\<exists>p. vault = Some (Inr p) \<and> pv_kind p = KVault))"
proof -
  have "\<exists>p. vault = Some (Inr p) \<and> pv_kind p = KVault"
    if "build fl env vault b = Inr c" "bd_providers b = []" "pv_kind env = KEnv"
    using default_chain [OF that(1,2) assms] that(3) by (auto simp: vault_chain_def)
  then show ?thesis using resolve_refuses [OF assms] by fastforce
qed

theorem config_policy_enforced_witness:
  "\<exists>msg. resolve (with_provider \<lparr>pv_name = ''file:x'', pv_kind = KFile, pv_load = Inr []\<rparr> (builder_new Prod))
     = Inl (CE_InvalidProviderChain ''prod'' msg)"
proof -
  let ?b = "with_provider \<lparr>pv_name = ''file:x'', pv_kind = KFile, pv_load = Inr []\<rparr> (builder_new Prod)"
  have "requires_vault (bd_profile ?b)" by (simp add: requires_vault_def with_provider_def builder_new_def)
  moreover have "\<not> vault_chain (bd_providers ?b)" by (simp add: vault_chain_def with_provider_def builder_new_def)
  ultimately show ?thesis
    using config_policy_enforced [of ?b] by (simp add: with_provider_def builder_new_def)
qed

text \<open>Several layers: the last one that sets a value wins.\<close>

lemma load_all_untouched:
  assumes "load_all ps acc = Inr m" and "\<forall>p \<in> set ps. \<forall>l. pv_load p = Inr l \<longrightarrow> json_ok (JObject l) \<and> untouched path (JObject l)"
  shows "get_path path (JObject m) = get_path path (JObject acc)"
  using assms
proof (induction ps arbitrary: acc)
  case (Cons p ps)
  then obtain l where l: "pv_load p = Inr l" "load_all ps (config_merge acc l) = Inr m" by (auto split: sum.splits)
  have "get_path path (JObject m) = get_path path (JObject (config_merge acc l))"
    using Cons.prems(2) by (intro Cons.IH [OF l(2)]) simp
  also have "\<dots> = get_path path (JObject acc)"
    using Cons.prems(2) l(1) merge_keeps_untouched [of "JObject l" path "JObject acc"] by (simp add: config_merge_def)
  finally show ?case .
qed simp

lemma load_all_append:
  "load_all (ps @ qs) acc = Inr m \<longleftrightarrow> (\<exists>m1. load_all ps acc = Inr m1 \<and> load_all qs m1 = Inr m)"
  by (induction ps arbitrary: acc) (auto split: sum.splits)

text \<open>C38: precedence. In a resolved configuration the value of a path is the one of the last provider
  that sets it: a scalar or list that one provider loads, and about which no later provider says
  anything, is what the configuration reads, whatever the earlier ones load.\<close>

theorem config_precedence:
  assumes "resolve b = Inr c" and "bd_providers b = ps @ p # qs" and "pv_load p = Inr l" and "json_ok (JObject l)"
    and "get_path path (JObject l) = Some y" and "\<not> is_object y"
    and "\<forall>q \<in> set qs. \<forall>l. pv_load q = Inr l \<longrightarrow> json_ok (JObject l) \<and> untouched path (JObject l)"
  shows "get_path path (JObject (cf_values c)) = Some y"
proof -
  from assms(1,2) have "load_all (ps @ p # qs) [] = Inr (cf_values c)"
    by (auto simp: resolve_def split: sum.splits)
  then obtain m1 where "load_all (p # qs) m1 = Inr (cf_values c)" unfolding load_all_append by blast
  with assms(3) have l: "load_all qs (config_merge m1 l) = Inr (cf_values c)" by simp
  have "get_path path (JObject (cf_values c)) = get_path path (JObject (config_merge m1 l))"
    by (rule load_all_untouched [OF l assms(7)])
  also have "\<dots> = Some y"
    using merge_overrides [OF assms(4,5), of "JObject m1"] assms(6) by (simp add: config_merge_def split: option.splits)
  finally show ?thesis .
qed

theorem config_precedence_witness:
  "\<exists>c. resolve \<lparr>bd_profile = Local, bd_providers =
       [\<lparr>pv_name = ''a'', pv_kind = KMemory, pv_load = Inr [(''port'', JInt 1)]\<rparr>,
        \<lparr>pv_name = ''b'', pv_kind = KMemory, pv_load = Inr [(''port'', JInt 2)]\<rparr>,
        \<lparr>pv_name = ''c'', pv_kind = KMemory, pv_load = Inr [(''host'', JNull)]\<rparr>]\<rparr> = Inr c
     \<and> get_path [''port''] (JObject (cf_values c)) = Some (JInt 2)"
proof -
  let ?a = "\<lparr>pv_name = ''a'', pv_kind = KMemory, pv_load = Inr [(''port'', JInt 1)]\<rparr>"
  let ?p = "\<lparr>pv_name = ''b'', pv_kind = KMemory, pv_load = Inr [(''port'', JInt 2)]\<rparr>"
  let ?q = "\<lparr>pv_name = ''c'', pv_kind = KMemory, pv_load = Inr [(''host'', JNull)]\<rparr>"
  let ?b = "\<lparr>bd_profile = Local, bd_providers = [?a] @ ?p # [?q]\<rparr>"
  obtain c where c: "resolve ?b = Inr c"
    by (simp add: resolve_def enforce_policy_def requires_vault_def)
  have "get_path [''port''] (JObject (cf_values c)) = Some (JInt 2)"
    by (rule config_precedence [OF c, of "[?a]" ?p "[?q]" "[(''port'', JInt 2)]"]) simp_all
  with c show ?thesis by auto
qed

section \<open>Reload\<close>

text \<open>The values in force after the answers of the given refreshes.\<close>

fun last_good :: "config_map \<Rightarrow> (config_error + config) list \<Rightarrow> config_map" where
  "last_good v [] = v"
| "last_good v (Inl e # rs) = last_good v rs"
| "last_good v (Inr c # rs) = last_good (cf_values c) rs"

fun changes :: "config_map \<Rightarrow> config list \<Rightarrow> bool" where
  "changes v [] = True"
| "changes v (c # cs) = (cf_values c \<noteq> v \<and> changes (cf_values c) cs)"

definition reload_ok :: "config \<Rightarrow> reloadable \<Rightarrow> bool" where
  "reload_ok c0 r = (changes (cf_values c0) (rl_sent r) \<and> rl_current r = last (c0 # rl_sent r))"

lemma changes_append: "changes v (cs @ [c]) \<longleftrightarrow> changes v cs \<and> cf_values c \<noteq> (if cs = [] then v else cf_values (last cs))"
  by (induction v cs rule: changes.induct) auto

lemma refresh_keeps_ok: "reload_ok c0 r \<Longrightarrow> reload_ok c0 (refresh_tick x r)"
  by (auto simp: reload_ok_def refresh_tick_def swap_if_changed_def changes_append split: sum.splits)

lemma refresh_values:
  "cf_values (rl_current (fold refresh_tick rs r)) = last_good (cf_values (rl_current r)) rs"
proof (induction rs arbitrary: r)
  case (Cons x rs)
  have "cf_values (rl_current (refresh_tick x r)) = last_good (cf_values (rl_current r)) [x]"
    by (cases x) (auto simp: refresh_tick_def swap_if_changed_def)
  with Cons show ?case by (cases x) auto
qed simp

text \<open>Hot reload never serves a broken or stale configuration. After any sequence of refreshes the
  values in force are those of the last resolve that succeeded, a failed one changing nothing;
  subscribers are sent a configuration exactly when the values differ from the ones before, and
  the last one sent is the current one.\<close>

theorem reload_last_good:
  assumes "reload_start fl env vault b = Inr r" and "r' = fold refresh_tick rs r"
  shows "cf_values (rl_current r') = last_good (cf_values (rl_current r)) rs
    \<and> changes (cf_values (rl_current r)) (rl_sent r')
    \<and> rl_current r' = last (rl_current r # rl_sent r')
    \<and> (reload_now (Inl e) r' = (Inl e, r') \<and> cf_values (rl_current (snd (reload_now (Inr c) r'))) = cf_values c)"
proof -
  have "reload_ok (rl_current r) r"
    using assms(1) by (auto simp: reload_ok_def reload_start_def split: sum.splits)
  moreover have "reload_ok c0 r \<Longrightarrow> reload_ok c0 (fold refresh_tick rs r)" for c0
    by (induction rs arbitrary: r) (auto simp: refresh_keeps_ok)
  ultimately have "reload_ok (rl_current r) r'" using assms(2) by blast
  then show ?thesis
    using refresh_values [of rs r] assms(2) by (auto simp: reload_ok_def reload_now_def swap_if_changed_def)
qed

theorem reload_last_good_witness:
  "\<exists>r. reload_start (\<lambda>s. env_provider (\<lambda>_. False) ''APP'' []) (env_provider (\<lambda>_. False) ''APP'' []) None (builder_new Local) = Inr r
     \<and> cf_values (rl_current (fold refresh_tick
          [Inr \<lparr>cf_profile = Local, cf_values = [(''a'', JNull)]\<rparr>, Inl (CE_MissingEnv ''x'')] r)) = [(''a'', JNull)]"
proof -
  let ?p = "env_provider (\<lambda>_. False) ''APP'' []"
  obtain r where r: "reload_start (\<lambda>s. ?p) ?p None (builder_new Local) = Inr r"
    by (simp add: reload_start_def build_def ensure_defaults_def with_defaults_def allows_file_secrets_def
        requires_vault_def with_provider_def builder_new_def resolve_def enforce_policy_def env_provider_def)
  let ?rs = "[Inr \<lparr>cf_profile = Local, cf_values = [(''a'', JNull)]\<rparr>, Inl (CE_MissingEnv ''x'')]"
  have "cf_values (rl_current (fold refresh_tick ?rs r)) = last_good (cf_values (rl_current r)) ?rs"
    using reload_last_good [OF r refl] by blast
  also have "\<dots> = [(''a'', JNull)]" by simp
  finally have "cf_values (rl_current (fold refresh_tick ?rs r)) = [(''a'', JNull)]" .
  with r show ?thesis by blast
qed

section \<open>The shape of a resolved configuration\<close>

lemma coerce_tree_ok [simp]: "tree_ok (coerce_scalar f raw)"
  using coerce_not_object [of f raw] by (cases "coerce_scalar f raw") (auto simp: coerce_scalar_def split: if_splits option.splits)

lemma load_all_tree_ok:
  "load_all ps acc = Inr m \<Longrightarrow> tree_ok (JObject acc) \<Longrightarrow>
   (\<forall>p \<in> set ps. \<forall>l. pv_load p = Inr l \<longrightarrow> tree_ok (JObject l)) \<Longrightarrow> tree_ok (JObject m)"
proof (induction ps arbitrary: acc)
  case (Cons p ps)
  obtain l where l: "pv_load p = Inr l" "load_all ps (config_merge acc l) = Inr m"
    using Cons.prems(1) by (auto split: sum.splits)
  have "tree_ok (JObject (config_merge acc l))"
    unfolding config_merge_def by (rule merge_tree_ok(2)) (use Cons.prems(2,3) l(1) in auto)
  with Cons l show ?case by simp
qed simp

text \<open>A resolved configuration is a proper ordered tree. The environment provider always loads a tree
  whose objects have ascending keys, each once, at every depth; and when every other provider of the
  chain does, so does the configuration they resolve to, whatever paths they share.\<close>

theorem config_tree_wellformed:
  assumes "resolve b = Inr c"
    and "\<forall>p \<in> set (bd_providers b). \<forall>l. pv_load p = Inr l \<longrightarrow>
           (\<exists>f pre vars. p = env_provider f pre vars) \<or> tree_ok (JObject l)"
  shows "tree_ok (JObject (cf_values c))"
proof -
  have env: "tree_ok (JObject l)" if "p = env_provider f pre vars" "pv_load p = Inr l" for p f pre vars l
    using that by (auto simp: env_provider_def env_collect_def simp del: tree_ok.simps intro!: expand_dotted_tree_ok dest!: env_flat_coerced)
  have load: "load_all (bd_providers b) [] = Inr (cf_values c)"
    using assms(1) by (auto simp: resolve_def split: sum.splits)
  have "tree_ok (JObject l)" if "p \<in> set (bd_providers b)" "pv_load p = Inr l" for p l
    using assms(2) [rule_format, OF that] env [OF _ that(2)] by (elim disjE exE)
  then show ?thesis by (intro load_all_tree_ok [OF load]) (simp_all add: bt_ok_def)
qed

theorem config_tree_wellformed_witness:
  "\<exists>c. resolve \<lparr>bd_profile = Local, bd_providers =
       [\<lparr>pv_name = ''a'', pv_kind = KMemory, pv_load = Inr [(''db'', JObject [(''host'', JNull)])]\<rparr>,
        env_provider (\<lambda>_. False) ''APP'' [(''APP_DB__PORT'', ''1'')]]\<rparr> = Inr c
     \<and> tree_ok (JObject (cf_values c))"
proof -
  let ?a = "\<lparr>pv_name = ''a'', pv_kind = KMemory, pv_load = Inr [(''db'', JObject [(''host'', JNull)])]\<rparr>"
  let ?e = "env_provider (\<lambda>_. False) ''APP'' [(''APP_DB__PORT'', ''1'')]"
  obtain c where c: "resolve \<lparr>bd_profile = Local, bd_providers = [?a, ?e]\<rparr> = Inr c"
    by (simp add: resolve_def enforce_policy_def requires_vault_def env_provider_def)
  have "tree_ok (JObject (cf_values c))"
    by (rule config_tree_wellformed [OF c]) (simp add: bt_ok_def, blast)
  with c show ?thesis by blast
qed

end
