(* ===== verification/Webhooks.thy ===== *)
theory Webhooks
  imports Http Tokens Decimal
begin

text \<open>
  Signed webhooks (\<open>klauthed-platform/src/webhooks\<close>): endpoints and events, the
  \<open>t=...,v1=...\<close> signature header and its verification, the recording and the HTTP sender.

  HMAC-SHA-256, the \<open>hex\<close> crate, the serialization of an event and the HTTP client are
  parameters. \<open>webhook_crypto_ok\<close> is what the code relies on: \<open>hmac::verify\<close> compares with
  the MAC \<open>hmac::sign\<close> computes, decoding undoes encoding, and encoded text consists of
  hexadecimal digits.
\<close>

record webhook_crypto =
  hmac_sign :: "bytes \<Rightarrow> bytes \<Rightarrow> bytes"
  hmac_verify :: "bytes \<Rightarrow> bytes \<Rightarrow> bytes \<Rightarrow> bool"
  whex_encode :: "bytes \<Rightarrow> string"
  whex_decode :: "string \<Rightarrow> bytes option"

definition webhook_crypto_ok :: "webhook_crypto \<Rightarrow> bool" where
  "webhook_crypto_ok C =
     ((\<forall>k m t. hmac_verify C k m t = (hmac_sign C k m = t))
      \<and> (\<forall>b. whex_decode C (whex_encode C b) = Some b)
      \<and> (\<forall>b. set (whex_encode C b) \<subseteq> set HEX_DIGITS))"

section \<open>Endpoints and events\<close>

record webhook_endpoint =
  wh_id :: string
  wh_url :: string
  wh_secret :: string
  wh_event_types :: "string list"
  wh_active :: bool

definition endpoint_new :: "string \<Rightarrow> string \<Rightarrow> string \<Rightarrow> webhook_endpoint" where
  "endpoint_new fresh_id url secret =
     \<lparr>wh_id = fresh_id, wh_url = url, wh_secret = secret, wh_event_types = [], wh_active = True\<rparr>"

definition endpoint_with_id :: "string \<Rightarrow> webhook_endpoint \<Rightarrow> webhook_endpoint" where
  "endpoint_with_id i e = e\<lparr>wh_id := i\<rparr>"

definition subscribe :: "string \<Rightarrow> webhook_endpoint \<Rightarrow> webhook_endpoint" where
  "subscribe ty e = (if ty \<in> set (wh_event_types e) then e else e\<lparr>wh_event_types := wh_event_types e @ [ty]\<rparr>)"

definition with_active :: "bool \<Rightarrow> webhook_endpoint \<Rightarrow> webhook_endpoint" where
  "with_active b e = e\<lparr>wh_active := b\<rparr>"

definition accepts :: "webhook_endpoint \<Rightarrow> string \<Rightarrow> bool" where
  "accepts e event_type = (wh_active e \<and> (wh_event_types e = [] \<or> list_ex (\<lambda>t. t = event_type) (wh_event_types e)))"

record webhook_event =
  ev_id :: string
  ev_event_type :: string
  ev_occurred_at :: timestamp
  ev_data :: json

definition event_new :: "string \<Rightarrow> string \<Rightarrow> timestamp \<Rightarrow> json \<Rightarrow> webhook_event" where
  "event_new fresh_id event_type occurred_at data =
     \<lparr>ev_id = fresh_id, ev_event_type = event_type, ev_occurred_at = occurred_at, ev_data = data\<rparr>"

definition event_with_id :: "string \<Rightarrow> webhook_event \<Rightarrow> webhook_event" where
  "event_with_id i e = e\<lparr>ev_id := i\<rparr>"

text \<open>\<open>to_body\<close>; \<open>serialize\<close> stands for \<open>serde_json::to_string\<close> on the event.\<close>

definition to_body :: "(webhook_event \<Rightarrow> string + string) \<Rightarrow> webhook_event \<Rightarrow> platform_error + string" where
  "to_body serialize e =
     (case serialize e of Inl msg \<Rightarrow> Inl (PE_WebhookSigning (''serialize event: '' @ msg)) | Inr b \<Rightarrow> Inr b)"

section \<open>Signing\<close>

definition SIGNATURE_VERSION :: string where
  "SIGNATURE_VERSION = ''v1''"

definition signing_input :: "int \<Rightarrow> bytes \<Rightarrow> bytes" where
  "signing_input timestamp_secs body = as_bytes (show_int timestamp_secs) @ as_bytes ''.'' @ body"

definition sign_payload :: "webhook_crypto \<Rightarrow> bytes \<Rightarrow> int \<Rightarrow> bytes \<Rightarrow> string" where
  "sign_payload C secret timestamp_secs body =
     (let tag = hmac_sign C secret (signing_input timestamp_secs body)
      in ''t='' @ show_int timestamp_secs @ '','' @ SIGNATURE_VERSION @ ''='' @ whex_encode C tag)"

text \<open>The loop of \<open>parse_signature_header\<close> over the comma-separated parts; the accumulators
  are the timestamp and the MAC seen so far.\<close>

fun header_loop :: "string list \<Rightarrow> int option \<Rightarrow> string option \<Rightarrow> (int option \<times> string option) option" where
  "header_loop [] timestamp v1 = Some (timestamp, v1)"
| "header_loop (part # parts) timestamp v1 =
     (case split_once CHR ''='' part of
        None \<Rightarrow> None
      | Some (k, v) \<Rightarrow>
          if str_trim k = ''t'' then header_loop parts (parse_i64 (str_trim v)) v1
          else if str_trim k = SIGNATURE_VERSION then header_loop parts timestamp (Some (str_trim v))
          else header_loop parts timestamp v1)"

definition parse_signature_header :: "string \<Rightarrow> (int \<times> string) option" where
  "parse_signature_header header =
     (case header_loop (str_split CHR '','' header) None None of
        Some (Some t, Some v1) \<Rightarrow> Some (t, v1)
      | _ \<Rightarrow> None)"

definition verify_signature :: "webhook_crypto \<Rightarrow> bytes \<Rightarrow> string \<Rightarrow> bytes \<Rightarrow> platform_error + unit" where
  "verify_signature C secret header body =
     (case parse_signature_header header of
        None \<Rightarrow> Inl (PE_WebhookSigning ''malformed signature header'')
      | Some (timestamp, v1_hex) \<Rightarrow>
          (case whex_decode C v1_hex of
             None \<Rightarrow> Inl (PE_WebhookSigning ''signature is not valid hex'')
           | Some provided \<Rightarrow>
               if hmac_verify C secret (signing_input timestamp body) provided then Inr ()
               else Inl (PE_WebhookDelivery ''webhook signature mismatch'')))"

section \<open>Senders\<close>

record webhook_delivery =
  wd_endpoint_id :: string
  wd_url :: string
  wd_event :: webhook_event
  wd_body :: string
  wd_signature :: string

definition recording_deliver ::
  "webhook_crypto \<Rightarrow> (webhook_event \<Rightarrow> string + string) \<Rightarrow> webhook_endpoint \<Rightarrow> webhook_event \<Rightarrow>
   webhook_delivery list \<Rightarrow> (platform_error + unit) \<times> webhook_delivery list" where
  "recording_deliver C serialize ep event deliveries =
     (if \<not> wh_active ep
      then (Inl (PE_WebhookDelivery (''endpoint '' @ wh_id ep @ '' is inactive'')), deliveries)
      else (case to_body serialize event of
              Inl e \<Rightarrow> (Inl e, deliveries)
            | Inr body \<Rightarrow>
                (let timestamp_secs = trunc_div (unix_millis (ev_occurred_at event)) 1000;
                     signature = sign_payload C (as_bytes (wh_secret ep)) timestamp_secs (as_bytes body)
                 in (Inr (),
                     deliveries @ [\<lparr>wd_endpoint_id = wh_id ep, wd_url = wh_url ep, wd_event = event,
                                    wd_body = body, wd_signature = signature\<rparr>]))))"

text \<open>The HTTP sender. The client is the parameter \<open>post\<close>: it takes the URL, the headers and
  the body and gives the transport error or the status of the response.\<close>

record http_webhook_sender =
  hs_signature_header :: string
  hs_timeout :: nat

definition http_sender_new :: http_webhook_sender where
  "http_sender_new = \<lparr>hs_signature_header = ''X-Klauthed-Signature'', hs_timeout = 30\<rparr>"

definition with_timeout :: "nat \<Rightarrow> http_webhook_sender \<Rightarrow> http_webhook_sender" where
  "with_timeout secs s = s\<lparr>hs_timeout := secs\<rparr>"

definition with_signature_header :: "string \<Rightarrow> http_webhook_sender \<Rightarrow> http_webhook_sender" where
  "with_signature_header h s = s\<lparr>hs_signature_header := h\<rparr>"

definition http_deliver ::
  "webhook_crypto \<Rightarrow> (webhook_event \<Rightarrow> string + string) \<Rightarrow>
   (string \<Rightarrow> (string \<times> string) list \<Rightarrow> bytes \<Rightarrow> 'w \<Rightarrow> (string + nat) \<times> 'w) \<Rightarrow>
   http_webhook_sender \<Rightarrow> webhook_endpoint \<Rightarrow> webhook_event \<Rightarrow> 'w \<Rightarrow> (platform_error + unit) \<times> 'w" where
  "http_deliver C serialize post s ep event w =
     (case to_body serialize event of
        Inl e \<Rightarrow> (Inl e, w)
      | Inr body \<Rightarrow>
          (let timestamp_secs = unix_seconds (ev_occurred_at event);
               signature = sign_payload C (as_bytes (wh_secret ep)) timestamp_secs (as_bytes body)
           in case post (wh_url ep)
                     [(''Content-Type'', ''application/json''), (hs_signature_header s, signature)]
                     (as_bytes body) w of
                (Inl e, w') \<Rightarrow>
                  (Inl (PE_WebhookDelivery (''HTTP request to '' @ [CHR 0x27] @ wh_url ep @ [CHR 0x27] @ '': '' @ e)), w')
              | (Inr status, w') \<Rightarrow>
                  if \<not> (200 \<le> status \<and> status < 300)
                  then (Inl (PE_WebhookDelivery (''endpoint '' @ [CHR 0x27] @ wh_url ep @ [CHR 0x27] @ '' returned HTTP '' @ show_nat status)), w')
                  else (Inr (), w')))"

section \<open>Correctness\<close>

lemma show_int_safe:
  "c \<in> set (show_int n) \<Longrightarrow> c \<notin> {CHR '','', CHR ''='', CHR ''.''} \<and> \<not> is_ws c"
  using show_int_chars [of c n] by (auto simp: is_digit_def is_ws_def)

lemma hex_digits_safe:
  "c \<in> set HEX_DIGITS \<Longrightarrow> c \<notin> {CHR '','', CHR ''=''} \<and> \<not> is_ws c"
  by (auto simp: HEX_DIGITS_def is_ws_def)

lemma str_trim_id: "(\<And>c. c \<in> set s \<Longrightarrow> \<not> is_ws c) \<Longrightarrow> str_trim s = s"
proof -
  assume a: "\<And>c. c \<in> set s \<Longrightarrow> \<not> is_ws c"
  have d: "(\<And>c. c \<in> set t \<Longrightarrow> \<not> is_ws c) \<Longrightarrow> dropWhile is_ws t = t" for t
    by (cases t) auto
  show ?thesis using d [of s] d [of "rev s"] a by (simp add: str_trim_def)
qed

text \<open>The header a payload is signed with parses back into the timestamp and the MAC.\<close>

lemma parse_sign_payload:
  assumes "webhook_crypto_ok C" and "i64_range t"
  shows "parse_signature_header (sign_payload C secret t body)
         = Some (t, whex_encode C (hmac_sign C secret (signing_input t body)))"
proof -
  let ?h = "whex_encode C (hmac_sign C secret (signing_input t body))"
  have h: "c \<notin> {CHR '','', CHR ''=''} \<and> \<not> is_ws c" if "c \<in> set ?h" for c
    using assms(1) that hex_digits_safe unfolding webhook_crypto_ok_def by blast
  have p1: "split_by (\<lambda>c. c = CHR '','') (''v1='' @ ?h) = [''v1='' @ ?h]"
    by (rule split_by_no_sep) (use h in auto)
  have "sign_payload C secret t body = (''t='' @ show_int t) @ CHR '','' # (''v1='' @ ?h)"
    by (simp add: sign_payload_def SIGNATURE_VERSION_def)
  then have split: "str_split CHR '','' (sign_payload C secret t body) = [''t='' @ show_int t, ''v1='' @ ?h]"
    unfolding str_split_def
    by (simp only:) (subst split_by_append_sep, use show_int_safe p1 in auto)
  have t1: "split_once CHR ''='' (''t='' @ show_int t) = Some (''t'', show_int t)"
    and t2: "split_once CHR ''='' (''v1='' @ ?h) = Some (''v1'', ?h)" by simp_all
  have "str_trim (show_int t) = show_int t" "str_trim ?h = ?h"
    using show_int_safe h by (auto intro!: str_trim_id)
  moreover have "str_trim ''t'' = ''t''" "str_trim ''v1'' = ''v1''"
    by (simp_all add: str_trim_def is_ws_def)
  ultimately show ?thesis
    using t1 t2 by (simp add: parse_signature_header_def split SIGNATURE_VERSION_def parse_show_i64 [OF assms(2)])
qed

lemma prefix_before_sep:
  "a @ d # x = b @ d # y \<Longrightarrow> d \<notin> set a \<Longrightarrow> d \<notin> set b \<Longrightarrow> a = b \<and> x = y"
  by (induction a arbitrary: b) (auto simp: Cons_eq_append_conv)

text \<open>The MAC input determines the timestamp and the body: the decimal timestamp contains no
  full stop, so no two signed messages share an input.\<close>

lemma signing_input_inj:
  assumes "signing_input t b = signing_input t' b'"
  shows "t = t' \<and> b = b'"
proof -
  let ?dot = "word_of_nat (of_char CHR ''.'') :: u8"
  have n: "?dot \<notin> set (as_bytes (show_int k))" for k
  proof
    assume "?dot \<in> set (as_bytes (show_int k))"
    then obtain c where "c \<in> set (show_int k)" "?dot = word_of_nat (of_char c)"
      by (auto simp: as_bytes_def)
    then show False using char_byte_inj [of "CHR ''.''" c] show_int_safe by blast
  qed
  have "as_bytes (show_int t) @ ?dot # b = as_bytes (show_int t') @ ?dot # b'"
    using assms by (simp only: signing_input_def as_bytes_def list.map append.simps)
  then have "as_bytes (show_int t) = as_bytes (show_int t') \<and> b = b'"
    by (rule prefix_before_sep [OF _ n n])
  then show ?thesis by (auto simp: as_bytes_inj dest: show_int_inj)
qed

lemma verify_signature_iff:
  assumes "webhook_crypto_ok C"
  shows "verify_signature C secret header body = Inr () \<longleftrightarrow>
    (\<exists>t v1. parse_signature_header header = Some (t, v1)
            \<and> whex_decode C v1 = Some (hmac_sign C secret (signing_input t body)))"
  using assms by (auto simp: verify_signature_def webhook_crypto_ok_def split: option.splits)

lemma webhook_signed_verifies:
  assumes "webhook_crypto_ok C" and "i64_range t"
  shows "verify_signature C secret (sign_payload C secret t body) body = Inr ()"
  using assms by (simp add: verify_signature_iff parse_sign_payload webhook_crypto_ok_def)

text \<open>C18: signatures verify, and forging one needs a MAC collision. The header signed for a
  payload verifies that payload under the same secret; and when a header that carries the MAC of
  a signed payload verifies any payload, it is the signed one with the signed timestamp, or the
  two distinct inputs have the same MAC.\<close>

theorem webhook_signature_sound:
  assumes "webhook_crypto_ok C" and "i64_range t"
  shows "verify_signature C secret (sign_payload C secret t body) body = Inr ()
    \<and> (parse_signature_header header = Some (t', whex_encode C (hmac_sign C secret (signing_input t body)))
        \<longrightarrow> verify_signature C secret header body' = Inr ()
        \<longrightarrow> (t' = t \<and> body' = body)
            \<or> (signing_input t' body' \<noteq> signing_input t body
               \<and> hmac_sign C secret (signing_input t' body') = hmac_sign C secret (signing_input t body)))"
proof (intro conjI impI)
  show "verify_signature C secret (sign_payload C secret t body) body = Inr ()"
    by (rule webhook_signed_verifies [OF assms])
next
  assume "parse_signature_header header = Some (t', whex_encode C (hmac_sign C secret (signing_input t body)))"
    and "verify_signature C secret header body' = Inr ()"
  then have "hmac_sign C secret (signing_input t body) = hmac_sign C secret (signing_input t' body')"
    using assms(1) by (auto simp: verify_signature_iff webhook_crypto_ok_def)
  then show "(t' = t \<and> body' = body)
            \<or> (signing_input t' body' \<noteq> signing_input t body
               \<and> hmac_sign C secret (signing_input t' body') = hmac_sign C secret (signing_input t body))"
    using signing_input_inj [of t' body' t body] by metis
qed

section \<open>A concrete instance\<close>

definition hex_values :: "(char \<times> nat) list" where
  "hex_values = zip HEX_DIGITS [0..<16]"

fun demo_hex_decode :: "string \<Rightarrow> bytes option" where
  "demo_hex_decode [] = Some []"
| "demo_hex_decode [c] = None"
| "demo_hex_decode (c # d # s) =
     (case (map_of hex_values c, map_of hex_values d, demo_hex_decode s) of
        (Some h, Some l, Some bs) \<Rightarrow> Some (word_of_nat (16 * h + l) # bs)
      | _ \<Rightarrow> None)"

definition demo_mac :: "bytes \<Rightarrow> bytes \<Rightarrow> bytes" where
  "demo_mac k m = [sum_list k + sum_list (map2 (*) (map word_of_nat [1..<Suc (length m)]) m)]"

definition demo_webhook_crypto :: webhook_crypto where
  "demo_webhook_crypto =
     \<lparr>hmac_sign = demo_mac, hmac_verify = (\<lambda>k m t. demo_mac k m = t),
      whex_encode = hex_lower, whex_decode = demo_hex_decode\<rparr>"

lemma hex_digit_roundtrip: "n < 16 \<Longrightarrow> map_of hex_values (HEX_DIGITS ! n) = Some n"
proof -
  have "\<forall>n \<in> set [0..<16]. map_of hex_values (HEX_DIGITS ! n) = Some n"
    by (simp add: hex_values_def HEX_DIGITS_def upt_rec)
  then show "n < 16 \<Longrightarrow> map_of hex_values (HEX_DIGITS ! n) = Some n" by simp
qed

lemma demo_hex_roundtrip: "demo_hex_decode (hex_lower b) = Some b"
proof (induction b)
  case Nil
  then show ?case by (simp add: hex_lower_def)
next
  case (Cons w b)
  have "unat w < 256" using unsigned_less [of w] by simp
  then have "unat w div 16 < 16" "unat w mod 16 < 16" by simp_all
  then show ?case
    using Cons by (simp add: hex_lower_def hex_digit_roundtrip)
qed

lemma demo_hex_digits: "set (hex_lower b) \<subseteq> set HEX_DIGITS"
proof -
  have "HEX_DIGITS ! (unat w div 16) \<in> set HEX_DIGITS" "HEX_DIGITS ! (unat w mod 16) \<in> set HEX_DIGITS" for w :: u8
  proof -
    have "unat w < 256" using unsigned_less [of w] by simp
    then have "unat w div 16 < length HEX_DIGITS" "unat w mod 16 < length HEX_DIGITS"
      by (simp_all add: HEX_DIGITS_def)
    then show "HEX_DIGITS ! (unat w div 16) \<in> set HEX_DIGITS" "HEX_DIGITS ! (unat w mod 16) \<in> set HEX_DIGITS"
      by (simp_all only: nth_mem)
  qed
  then show ?thesis by (auto simp: hex_lower_def)
qed

lemma demo_webhook_crypto_ok: "webhook_crypto_ok demo_webhook_crypto"
  using demo_hex_roundtrip demo_hex_digits
  by (auto simp: webhook_crypto_ok_def demo_webhook_crypto_def)

theorem webhook_signature_sound_witness:
  "verify_signature demo_webhook_crypto [7] (sign_payload demo_webhook_crypto [7] 1700000000 (as_bytes ''{}''))
     (as_bytes ''{}'') = Inr ()
   \<and> webhook_crypto_ok demo_webhook_crypto \<and> i64_range 1700000000"
  using webhook_signature_sound [OF demo_webhook_crypto_ok, of 1700000000 "[7]" "as_bytes ''{}''"]
    demo_webhook_crypto_ok
  by (simp add: i64_range_def)

section \<open>What the senders send\<close>

lemma as_i64_range: "i64_range (as_i64 n)"
  by (simp add: as_i64_def i64_range_def)

lemma trunc_div_range: "i64_range n \<Longrightarrow> i64_range (trunc_div n 1000)"
  unfolding trunc_div_def i64_range_def sgn_if by auto

text \<open>Every recorded delivery can be verified by its receiver. The recording sender refuses an
  inactive endpoint and an event that does not serialize, recording nothing; otherwise it appends
  exactly one delivery, addressed to the endpoint, whose signature verifies its body under the
  endpoint's secret.\<close>

theorem webhook_delivery_verifies:
  assumes "webhook_crypto_ok C"
  shows "case recording_deliver C serialize ep event ds of
      (Inl e, ds') \<Rightarrow> ds' = ds \<and> (\<not> wh_active ep \<or> \<not> is_ok (serialize event))
    | (Inr u, ds') \<Rightarrow> wh_active ep \<and>
        (\<exists>d. ds' = ds @ [d] \<and> wd_endpoint_id d = wh_id ep \<and> wd_url d = wh_url ep \<and> wd_event d = event
             \<and> serialize event = Inr (wd_body d)
             \<and> verify_signature C (as_bytes (wh_secret ep)) (wd_signature d) (as_bytes (wd_body d)) = Inr ())"
proof -
  have "i64_range (trunc_div (unix_millis (ev_occurred_at event)) 1000)"
    unfolding unix_millis_def by (rule trunc_div_range [OF as_i64_range])
  then have v: "verify_signature C k (sign_payload C k (trunc_div (unix_millis (ev_occurred_at event)) 1000) b) b = Inr ()" for k b
    by (rule webhook_signed_verifies [OF assms])
  show ?thesis
  proof (cases "serialize event")
    case (Inl m)
    then show ?thesis by (simp add: recording_deliver_def to_body_def)
  next
    case (Inr b)
    then show ?thesis by (simp add: recording_deliver_def to_body_def Let_def v)
  qed
qed

theorem webhook_delivery_verifies_witness:
  "let ep = subscribe ''user.created'' (endpoint_new ''e1'' ''https://example.org'' ''secret'');
       event = event_new ''v1'' ''user.created'' 1700000000000000000 JNull;
       ds = snd (recording_deliver demo_webhook_crypto (\<lambda>e. Inr (ev_id e)) ep event [])
   in \<exists>d. ds = [d] \<and> verify_signature demo_webhook_crypto (as_bytes ''secret'') (wd_signature d) (as_bytes ''v1'') = Inr ()"
  using webhook_delivery_verifies [OF demo_webhook_crypto_ok, where serialize = "\<lambda>e. Inr (ev_id e)"
      and ep = "subscribe ''user.created'' (endpoint_new ''e1'' ''https://example.org'' ''secret'')"
      and event = "event_new ''v1'' ''user.created'' 1700000000000000000 JNull" and ds = "[]"]
  by (simp add: Let_def recording_deliver_def to_body_def subscribe_def endpoint_new_def event_new_def)

end
