(* ===== verification/RequestCtx.thy ===== *)
theory RequestCtx
  imports OrderedMap Instants Decimal
begin

text \<open>
  Typed identifiers (\<open>klauthed-core/src/id/typed.rs\<close>) and the request context
  (\<open>klauthed-core/src/context/request_context.rs\<close>). An id is its 128 bits; the text formats of
  the \<open>uuid\<close> and \<open>ulid\<close> crates are the fields of \<open>id_codec\<close>. A \<open>BTreeMap\<close> is an ordered
  association list.
\<close>

section \<open>Identifiers\<close>

type_synonym typed_id = "128 word"

record id_codec =
  uuid_parse :: "string \<Rightarrow> typed_id option"
  uuid_show :: "typed_id \<Rightarrow> string"
  ulid_parse :: "string \<Rightarrow> typed_id option"
  ulid_show :: "typed_id \<Rightarrow> string"

text \<open>What the code relies on: each format reads back what it prints.\<close>

definition id_codec_ok :: "id_codec \<Rightarrow> bool" where
  "id_codec_ok K = ((\<forall>i. uuid_parse K (uuid_show K i) = Some i) \<and> (\<forall>i. ulid_parse K (ulid_show K i) = Some i))"

definition id_nil :: typed_id where
  "id_nil = 0"

definition id_is_nil :: "typed_id \<Rightarrow> bool" where
  "id_is_nil i = (i = 0)"

datatype parse_id_error = ParseIdError string

definition id_from_ulid_str :: "id_codec \<Rightarrow> string \<Rightarrow> parse_id_error + typed_id" where
  "id_from_ulid_str K s = ok_or (ParseIdError s) (ulid_parse K s)"

definition id_to_string :: "id_codec \<Rightarrow> typed_id \<Rightarrow> string" where
  "id_to_string K i = uuid_show K i"

definition id_to_ulid_string :: "id_codec \<Rightarrow> typed_id \<Rightarrow> string" where
  "id_to_ulid_string K i = ulid_show K i"

definition id_from_str :: "id_codec \<Rightarrow> string \<Rightarrow> parse_id_error + typed_id" where
  "id_from_str K s =
     (case uuid_parse K s of
        Some u \<Rightarrow> Inr u
      | None \<Rightarrow> (case ulid_parse K s of Some u \<Rightarrow> Inr u | None \<Rightarrow> Inl (ParseIdError s)))"

lemma id_roundtrip: "id_codec_ok K \<Longrightarrow> id_from_str K (id_to_string K i) = Inr i"
  by (simp add: id_codec_ok_def id_from_str_def id_to_string_def)

text \<open>A ULID text is read back unless it is at the same time the text of some UUID.\<close>

lemma id_ulid_roundtrip:
  "id_codec_ok K \<Longrightarrow> uuid_parse K (id_to_ulid_string K i) = None \<Longrightarrow> id_from_str K (id_to_ulid_string K i) = Inr i"
  by (simp add: id_codec_ok_def id_from_str_def id_to_ulid_string_def)

section \<open>The request context\<close>

record request_context =
  rc_request_id :: typed_id
  rc_correlation_id :: "string option"
  rc_tenant :: "string option"
  rc_principal :: "string option"
  rc_locale :: "string option"
  rc_received_at :: timestamp
  rc_deadline :: "timestamp option"
  rc_metadata :: "(string \<times> string) list"

definition ctx_new :: "typed_id \<Rightarrow> timestamp \<Rightarrow> request_context" where
  "ctx_new fresh now =
     \<lparr>rc_request_id = fresh, rc_correlation_id = None, rc_tenant = None, rc_principal = None,
      rc_locale = None, rc_received_at = now, rc_deadline = None, rc_metadata = []\<rparr>"

definition with_request_id :: "typed_id \<Rightarrow> request_context \<Rightarrow> request_context" where
  "with_request_id i c = c\<lparr>rc_request_id := i\<rparr>"

definition with_correlation_id :: "string \<Rightarrow> request_context \<Rightarrow> request_context" where
  "with_correlation_id s c = c\<lparr>rc_correlation_id := Some s\<rparr>"

definition with_tenant :: "string \<Rightarrow> request_context \<Rightarrow> request_context" where
  "with_tenant s c = c\<lparr>rc_tenant := Some s\<rparr>"

definition with_principal :: "string \<Rightarrow> request_context \<Rightarrow> request_context" where
  "with_principal s c = c\<lparr>rc_principal := Some s\<rparr>"

definition with_locale :: "string \<Rightarrow> request_context \<Rightarrow> request_context" where
  "with_locale s c = c\<lparr>rc_locale := Some s\<rparr>"

definition with_received_at :: "timestamp \<Rightarrow> request_context \<Rightarrow> request_context" where
  "with_received_at t c = c\<lparr>rc_received_at := t\<rparr>"

definition with_deadline :: "timestamp \<Rightarrow> request_context \<Rightarrow> request_context" where
  "with_deadline t c = c\<lparr>rc_deadline := Some t\<rparr>"

definition insert_metadata :: "string \<Rightarrow> string \<Rightarrow> request_context \<Rightarrow> request_context" where
  "insert_metadata k v c = c\<lparr>rc_metadata := bt_insert k v (rc_metadata c)\<rparr>"

definition metadata_get :: "request_context \<Rightarrow> string \<Rightarrow> string option" where
  "metadata_get c k = map_of (rc_metadata c) k"

definition age :: "request_context \<Rightarrow> timestamp \<Rightarrow> duration" where
  "age c now = duration_since now (rc_received_at c)"

definition ctx_is_expired :: "request_context \<Rightarrow> timestamp \<Rightarrow> bool" where
  "ctx_is_expired c now = (case rc_deadline c of None \<Rightarrow> False | Some d \<Rightarrow> d \<le> now)"

definition time_remaining :: "request_context \<Rightarrow> timestamp \<Rightarrow> duration option" where
  "time_remaining c now = map_option (\<lambda>d. duration_since d now) (rc_deadline c)"

text \<open>A context is expired exactly when it has a deadline and no time remains.\<close>

lemma ctx_expired_iff_no_time:
  "ctx_is_expired c now \<longleftrightarrow> (\<exists>r. time_remaining c now = Some r \<and> r \<le> 0)"
  by (auto simp: ctx_is_expired_def time_remaining_def duration_since_def split: option.splits)

text \<open>A concrete codec: decimal text, marked with a letter in the second format.\<close>

definition demo_codec :: id_codec where
  "demo_codec = \<lparr>uuid_parse = (\<lambda>s. map_option word_of_nat (parse_unsigned 128 s)), uuid_show = (\<lambda>i. show_nat (unat i)),
     ulid_parse = (\<lambda>s. case s of c # cs \<Rightarrow> (if c = CHR ''U'' then map_option word_of_nat (parse_unsigned 128 cs) else None) | [] \<Rightarrow> None),
     ulid_show = (\<lambda>i. CHR ''U'' # show_nat (unat i))\<rparr>"

lemma demo_codec_ok: "id_codec_ok demo_codec"
proof -
  have "unat i < 2 ^ 128" for i :: typed_id using unsigned_less [of i] by simp
  then have "parse_unsigned 128 (show_nat (unat i)) = Some (unat i)" for i :: typed_id by (rule parse_show)
  then show ?thesis by (simp add: id_codec_ok_def demo_codec_def)
qed

end
