(* ===== verification/Platform.thy ===== *)
theory Platform
  imports RequestCtx ErrorKernel
begin

text \<open>
  The in-memory platform services (\<open>klauthed-platform/src\<close>): tenants and their resolver
  (\<open>tenancy\<close>), feature flags (\<open>featureflag\<close>), usage metering (\<open>metering\<close>), the audit trail
  (\<open>audit\<close>) and notifications (\<open>notifications\<close>). Ids are those of \<open>RequestCtx\<close>; a fresh id is
  an argument of the operation that mints it.
\<close>

section \<open>Tenants\<close>

datatype tenant_status = Tenant_Active | Tenant_Pending | Tenant_Suspended

definition status_is_active :: "tenant_status \<Rightarrow> bool" where
  "status_is_active st = (st = Tenant_Active)"

record tenant =
  tn_id :: typed_id
  tn_slug :: string
  tn_name :: "string option"
  tn_status :: tenant_status
  tn_created_at :: timestamp
  tn_metadata :: "(string \<times> string) list"

definition tenant_new_at :: "typed_id \<Rightarrow> timestamp \<Rightarrow> string \<Rightarrow> tenant" where
  "tenant_new_at fresh now slug =
     \<lparr>tn_id = fresh, tn_slug = slug, tn_name = None, tn_status = Tenant_Active, tn_created_at = now, tn_metadata = []\<rparr>"

definition tenant_with_id :: "typed_id \<Rightarrow> tenant \<Rightarrow> tenant" where
  "tenant_with_id i t = t\<lparr>tn_id := i\<rparr>"

definition tenant_with_name :: "string \<Rightarrow> tenant \<Rightarrow> tenant" where
  "tenant_with_name n t = t\<lparr>tn_name := Some n\<rparr>"

definition tenant_with_status :: "tenant_status \<Rightarrow> tenant \<Rightarrow> tenant" where
  "tenant_with_status st t = t\<lparr>tn_status := st\<rparr>"

definition tenant_with_created_at :: "timestamp \<Rightarrow> tenant \<Rightarrow> tenant" where
  "tenant_with_created_at at t = t\<lparr>tn_created_at := at\<rparr>"

definition tenant_with_metadata :: "string \<Rightarrow> string \<Rightarrow> tenant \<Rightarrow> tenant" where
  "tenant_with_metadata k v t = t\<lparr>tn_metadata := bt_insert k v (tn_metadata t)\<rparr>"

definition ensure_active :: "tenant \<Rightarrow> platform_error + tenant" where
  "ensure_active t = (if status_is_active (tn_status t) then Inr t else Inl (PE_TenantSuspended (tn_slug t)))"

text \<open>\<open>InMemoryTenantResolver\<close>: the tenants in insertion order.\<close>

type_synonym tenant_resolver = "tenant list"

fun resolver_insert :: "tenant \<Rightarrow> tenant_resolver \<Rightarrow> tenant_resolver" where
  "resolver_insert t [] = [t]"
| "resolver_insert t (u # us) = (if tn_id u = tn_id t then t # us else u # resolver_insert t us)"

definition resolver_resolve :: "id_codec \<Rightarrow> string \<Rightarrow> tenant_resolver \<Rightarrow> platform_error + tenant option" where
  "resolver_resolve K id_or_slug ts =
     Inr (find (\<lambda>t. tn_slug t = id_or_slug \<or> id_to_string K (tn_id t) = id_or_slug) ts)"

definition resolver_require :: "id_codec \<Rightarrow> string \<Rightarrow> tenant_resolver \<Rightarrow> platform_error + tenant" where
  "resolver_require K id_or_slug ts =
     (case resolver_resolve K id_or_slug ts of
        Inl e \<Rightarrow> Inl e
      | Inr (Some t) \<Rightarrow> Inr t
      | Inr None \<Rightarrow> Inl (PE_TenantNotFound id_or_slug))"

definition tenant_from_context :: "id_codec \<Rightarrow> request_context \<Rightarrow> tenant_resolver \<Rightarrow> platform_error + tenant option" where
  "tenant_from_context K ctx ts =
     (case rc_tenant ctx of Some id_or_slug \<Rightarrow> resolver_resolve K id_or_slug ts | None \<Rightarrow> Inr None)"

section \<open>Feature flags\<close>

record flag_rule =
  fr_global :: bool
  fr_tenant_enabled :: "string \<rightharpoonup> bool"
  fr_global_variant :: "string option"
  fr_tenant_variant :: "string \<rightharpoonup> string"

definition flag_rule_default :: flag_rule where
  "flag_rule_default =
     \<lparr>fr_global = False, fr_tenant_enabled = Map.empty, fr_global_variant = None, fr_tenant_variant = Map.empty\<rparr>"

type_synonym feature_flags = "string \<rightharpoonup> flag_rule"

text \<open>\<open>rules.entry(flag).or_default()\<close>.\<close>

definition rule_or_default :: "string \<Rightarrow> feature_flags \<Rightarrow> flag_rule" where
  "rule_or_default flag fs = (case fs flag of Some r \<Rightarrow> r | None \<Rightarrow> flag_rule_default)"

definition with_global :: "string \<Rightarrow> bool \<Rightarrow> feature_flags \<Rightarrow> feature_flags" where
  "with_global flag enabled fs = fs(flag \<mapsto> (rule_or_default flag fs)\<lparr>fr_global := enabled\<rparr>)"

definition with_tenant_override :: "string \<Rightarrow> string \<Rightarrow> bool \<Rightarrow> feature_flags \<Rightarrow> feature_flags" where
  "with_tenant_override tenant flag enabled fs =
     (let r = rule_or_default flag fs
      in fs(flag \<mapsto> r\<lparr>fr_tenant_enabled := (fr_tenant_enabled r)(tenant \<mapsto> enabled)\<rparr>))"

definition with_global_variant :: "string \<Rightarrow> string \<Rightarrow> feature_flags \<Rightarrow> feature_flags" where
  "with_global_variant flag v fs = fs(flag \<mapsto> (rule_or_default flag fs)\<lparr>fr_global_variant := Some v\<rparr>)"

definition with_tenant_variant :: "string \<Rightarrow> string \<Rightarrow> string \<Rightarrow> feature_flags \<Rightarrow> feature_flags" where
  "with_tenant_variant tenant flag v fs =
     (let r = rule_or_default flag fs
      in fs(flag \<mapsto> r\<lparr>fr_tenant_variant := (fr_tenant_variant r)(tenant \<mapsto> v)\<rparr>))"

definition is_enabled :: "feature_flags \<Rightarrow> string \<Rightarrow> request_context \<Rightarrow> bool" where
  "is_enabled fs flag ctx =
     (case fs flag of
        None \<Rightarrow> False
      | Some rule \<Rightarrow>
          (case Option.bind (rc_tenant ctx) (fr_tenant_enabled rule) of
             Some overridden \<Rightarrow> overridden
           | None \<Rightarrow> fr_global rule))"

definition variant :: "feature_flags \<Rightarrow> string \<Rightarrow> request_context \<Rightarrow> string option" where
  "variant fs flag ctx =
     (case fs flag of
        None \<Rightarrow> None
      | Some rule \<Rightarrow>
          (case Option.bind (rc_tenant ctx) (fr_tenant_variant rule) of
             Some v \<Rightarrow> Some v
           | None \<Rightarrow> fr_global_variant rule))"

section \<open>Metering\<close>

text \<open>The counters are \<open>u64\<close> and wrap where overflow checks are off.\<close>

type_synonym meter = "typed_id \<times> string \<rightharpoonup> u64"

definition meter_record :: "typed_id \<Rightarrow> string \<Rightarrow> u64 \<Rightarrow> meter \<Rightarrow> meter" where
  "meter_record t metric amount m =
     m((t, metric) \<mapsto> (case m (t, metric) of Some n \<Rightarrow> n | None \<Rightarrow> 0) + amount)"

definition meter_usage :: "typed_id \<Rightarrow> string \<Rightarrow> meter \<Rightarrow> u64" where
  "meter_usage t metric m = (case m (t, metric) of Some n \<Rightarrow> n | None \<Rightarrow> 0)"

definition meter_reset :: "typed_id \<Rightarrow> string \<Rightarrow> meter \<Rightarrow> meter" where
  "meter_reset t metric m = m((t, metric) := None)"

section \<open>Audit trail\<close>

datatype audit_outcome = Audit_Success | Audit_Failure

definition audit_is_success :: "audit_outcome \<Rightarrow> bool" where
  "audit_is_success o' = (o' = Audit_Success)"

record audit_event =
  au_id :: typed_id
  au_occurred_at :: timestamp
  au_action :: string
  au_actor :: "string option"
  au_tenant :: "string option"
  au_resource_type :: "string option"
  au_resource_id :: "string option"
  au_outcome :: audit_outcome
  au_metadata :: "(string \<times> string) list"

record audit_builder =
  ab_id :: typed_id
  ab_occurred_at :: "timestamp option"
  ab_action :: string
  ab_actor :: "string option"
  ab_tenant :: "string option"
  ab_resource_type :: "string option"
  ab_resource_id :: "string option"
  ab_outcome :: audit_outcome
  ab_metadata :: "(string \<times> string) list"

definition audit_builder_new :: "typed_id \<Rightarrow> string \<Rightarrow> audit_builder" where
  "audit_builder_new fresh action =
     \<lparr>ab_id = fresh, ab_occurred_at = None, ab_action = action, ab_actor = None, ab_tenant = None,
      ab_resource_type = None, ab_resource_id = None, ab_outcome = Audit_Success, ab_metadata = []\<rparr>"

definition audit_with_id :: "typed_id \<Rightarrow> audit_builder \<Rightarrow> audit_builder" where
  "audit_with_id i b = b\<lparr>ab_id := i\<rparr>"

definition audit_with_occurred_at :: "timestamp \<Rightarrow> audit_builder \<Rightarrow> audit_builder" where
  "audit_with_occurred_at at b = b\<lparr>ab_occurred_at := Some at\<rparr>"

definition audit_with_actor :: "string \<Rightarrow> audit_builder \<Rightarrow> audit_builder" where
  "audit_with_actor a b = b\<lparr>ab_actor := Some a\<rparr>"

definition audit_with_tenant :: "string \<Rightarrow> audit_builder \<Rightarrow> audit_builder" where
  "audit_with_tenant t b = b\<lparr>ab_tenant := Some t\<rparr>"

definition audit_with_resource :: "string \<Rightarrow> string \<Rightarrow> audit_builder \<Rightarrow> audit_builder" where
  "audit_with_resource ty i b = b\<lparr>ab_resource_type := Some ty, ab_resource_id := Some i\<rparr>"

definition audit_with_outcome :: "audit_outcome \<Rightarrow> audit_builder \<Rightarrow> audit_builder" where
  "audit_with_outcome o' b = b\<lparr>ab_outcome := o'\<rparr>"

definition audit_failed :: "audit_builder \<Rightarrow> audit_builder" where
  "audit_failed b = audit_with_outcome Audit_Failure b"

definition audit_with_metadata :: "string \<Rightarrow> string \<Rightarrow> audit_builder \<Rightarrow> audit_builder" where
  "audit_with_metadata k v b = b\<lparr>ab_metadata := bt_insert k v (ab_metadata b)\<rparr>"

definition audit_from_context :: "id_codec \<Rightarrow> request_context \<Rightarrow> audit_builder \<Rightarrow> audit_builder" where
  "audit_from_context K ctx b =
     (let b = (if ab_actor b = None then b\<lparr>ab_actor := rc_principal ctx\<rparr> else b);
          b = (if ab_tenant b = None then b\<lparr>ab_tenant := rc_tenant ctx\<rparr> else b)
      in if map_of (ab_metadata b) ''request_id'' = None
         then b\<lparr>ab_metadata := bt_insert ''request_id'' (id_to_string K (rc_request_id ctx)) (ab_metadata b)\<rparr>
         else b)"

definition audit_build_with :: "timestamp \<Rightarrow> audit_builder \<Rightarrow> audit_event" where
  "audit_build_with now b =
     \<lparr>au_id = ab_id b, au_occurred_at = (case ab_occurred_at b of Some t \<Rightarrow> t | None \<Rightarrow> now),
      au_action = ab_action b, au_actor = ab_actor b, au_tenant = ab_tenant b,
      au_resource_type = ab_resource_type b, au_resource_id = ab_resource_id b,
      au_outcome = ab_outcome b, au_metadata = ab_metadata b\<rparr>"

definition audit_record :: "audit_event \<Rightarrow> audit_event list \<Rightarrow> (platform_error + unit) \<times> audit_event list" where
  "audit_record e es = (Inr (), es @ [e])"

section \<open>Notifications\<close>

datatype channel = Email | Sms | Push

record notification =
  nt_channel :: channel
  nt_recipient :: string
  nt_subject :: "string option"
  nt_body :: string

definition notification_email :: "string \<Rightarrow> string \<Rightarrow> string \<Rightarrow> notification" where
  "notification_email recipient subject body =
     \<lparr>nt_channel = Email, nt_recipient = recipient, nt_subject = Some subject, nt_body = body\<rparr>"

definition notification_sms :: "string \<Rightarrow> string \<Rightarrow> notification" where
  "notification_sms recipient body = \<lparr>nt_channel = Sms, nt_recipient = recipient, nt_subject = None, nt_body = body\<rparr>"

definition notification_push :: "string \<Rightarrow> string \<Rightarrow> string \<Rightarrow> notification" where
  "notification_push recipient title body =
     \<lparr>nt_channel = Push, nt_recipient = recipient, nt_subject = Some title, nt_body = body\<rparr>"

definition notifier_send :: "notification \<Rightarrow> notification list \<Rightarrow> (platform_error + unit) \<times> notification list" where
  "notifier_send n sent = (Inr (), sent @ [n])"

section \<open>Resolution of tenants\<close>

definition resolver_ok :: "tenant_resolver \<Rightarrow> bool" where
  "resolver_ok ts = distinct (map tn_id ts)"

lemma resolver_insert_ids: "tn_id ` set (resolver_insert t ts) = insert (tn_id t) (tn_id ` set ts)"
  by (induction ts) auto

lemma resolver_insert_ok: "resolver_ok ts \<Longrightarrow> resolver_ok (resolver_insert t ts)"
proof (induction ts)
  case (Cons u us)
  have "tn_id u \<notin> tn_id ` set (resolver_insert t us)" if "tn_id u \<noteq> tn_id t"
    using Cons.prems that by (simp add: resolver_insert_ids resolver_ok_def)
  with Cons show ?case by (auto simp: resolver_ok_def)
qed (simp add: resolver_ok_def)

lemma resolver_insert_find:
  "resolver_ok ts \<Longrightarrow> find (\<lambda>u. tn_id u = i) (resolver_insert t ts)
     = (if i = tn_id t then Some t else find (\<lambda>u. tn_id u = i) ts)"
  by (induction ts) (auto simp: resolver_ok_def)

lemma find_cong_set: "(\<And>x. x \<in> set xs \<Longrightarrow> P x = Q x) \<Longrightarrow> find P xs = find Q xs"
  by (induction xs) auto

text \<open>The two name spaces are separate when no slug is the text of a registered id.\<close>

definition slugs_apart :: "id_codec \<Rightarrow> tenant_resolver \<Rightarrow> bool" where
  "slugs_apart K ts = (\<forall>t \<in> set ts. \<forall>u \<in> set ts. tn_slug t \<noteq> id_to_string K (tn_id u))"

lemma resolve_by_id:
  assumes "id_codec_ok K" and "slugs_apart K ts" and "u \<in> set ts"
  shows "resolver_resolve K (id_to_string K (tn_id u)) ts = Inr (find (\<lambda>t. tn_id t = tn_id u) ts)"
proof -
  have inj: "id_to_string K a = id_to_string K b \<longleftrightarrow> a = b" for a b
    using id_roundtrip [OF assms(1)] by (metis sum.inject(2))
  show ?thesis
    unfolding resolver_resolve_def
    by (simp, rule find_cong_set) (use assms(2,3) in \<open>auto simp: slugs_apart_def inj\<close>)
qed

text \<open>An inserted tenant is found under its id and replaces the one it updates. In a resolver with
  one tenant per id, insertion keeps that invariant; and as long as no slug is the text of a
  registered id, looking a tenant up by the text of its id gives the value last inserted for it.\<close>

theorem tenant_insert_resolves:
  assumes "id_codec_ok K" and "resolver_ok ts" and "slugs_apart K (resolver_insert t ts)"
  shows "resolver_ok (resolver_insert t ts)
    \<and> resolver_resolve K (id_to_string K (tn_id t)) (resolver_insert t ts) = Inr (Some t)
    \<and> (u \<in> set (resolver_insert t ts) \<longrightarrow> tn_id u \<noteq> tn_id t \<longrightarrow>
        resolver_resolve K (id_to_string K (tn_id u)) (resolver_insert t ts)
        = Inr (find (\<lambda>v. tn_id v = tn_id u) ts))"
proof -
  have "t \<in> set (resolver_insert t ts)" by (induction ts) auto
  then show ?thesis
    using resolve_by_id [OF assms(1,3), of t] resolve_by_id [OF assms(1,3), of u] resolver_insert_ok [OF assms(2)]
      resolver_insert_find [OF assms(2), of _ t] by simp
qed

definition demo_tenant :: "nat \<Rightarrow> string \<Rightarrow> tenant" where
  "demo_tenant i slug = tenant_new_at (word_of_nat i) 0 slug"

theorem tenant_insert_resolves_witness:
  "resolver_resolve demo_codec (id_to_string demo_codec 1)
     (resolver_insert (demo_tenant 1 ''new'') [demo_tenant 1 ''old'', demo_tenant 2 ''other'']) = Inr (Some (demo_tenant 1 ''new''))"
proof -
  have "list_all is_digit (id_to_string demo_codec i)" for i
    using show_nat_digits [of "unat i"] by (simp add: id_to_string_def demo_codec_def)
  moreover have "\<not> list_all is_digit ''new''" "\<not> list_all is_digit ''other''" by (simp_all add: is_digit_def)
  ultimately have "''new'' \<noteq> id_to_string demo_codec i" "''other'' \<noteq> id_to_string demo_codec i" for i
    by metis+
  then have a: "slugs_apart demo_codec (resolver_insert (demo_tenant 1 ''new'') [demo_tenant 1 ''old'', demo_tenant 2 ''other''])"
    by (simp add: slugs_apart_def demo_tenant_def tenant_new_at_def)
  have "resolver_ok [demo_tenant 1 ''old'', demo_tenant 2 ''other'']"
    by (simp add: resolver_ok_def demo_tenant_def tenant_new_at_def)
  from tenant_insert_resolves [OF demo_codec_ok this a] show ?thesis
    by (simp add: demo_tenant_def tenant_new_at_def)
qed

text \<open>Without that condition ids are not safe names: a tenant whose slug is the id of another,
  registered before it, is what the other's id resolves to.\<close>

lemma slug_shadows_id:
  assumes "tn_slug evil = id_to_string K (tn_id victim)"
  shows "resolver_resolve K (id_to_string K (tn_id victim)) [evil, victim] = Inr (Some evil)"
  by (simp add: resolver_resolve_def assms)

section \<open>Resolution of flags\<close>

text \<open>A tenant's own setting wins, then the global one, and an unknown flag is off. After setting a
  global default and a tenant override, the tenant sees the override, every tenant without one of its
  own and every anonymous request the default, and no other flag changes.\<close>

theorem feature_flag_resolution:
  "is_enabled (with_tenant_override tenant flag b (with_global flag g fs)) f ctx =
     (if f \<noteq> flag then is_enabled fs f ctx
      else if rc_tenant ctx = Some tenant then b
      else (case Option.bind (rc_tenant ctx) (fr_tenant_enabled (rule_or_default flag fs)) of Some v \<Rightarrow> v | None \<Rightarrow> g))
   \<and> \<not> is_enabled Map.empty f ctx \<and> variant Map.empty f ctx = None"
  by (cases "rc_tenant ctx")
    (auto simp: is_enabled_def variant_def with_tenant_override_def with_global_def rule_or_default_def Let_def
      split: option.splits)

section \<open>Metered usage\<close>

datatype meter_op = Meter_Record typed_id string u64 | Meter_Reset typed_id string

fun meter_step :: "meter_op \<Rightarrow> meter \<Rightarrow> meter" where
  "meter_step (Meter_Record t metric amount) m = meter_record t metric amount m"
| "meter_step (Meter_Reset t metric) m = meter_reset t metric m"

fun since_reset :: "typed_id \<Rightarrow> string \<Rightarrow> meter_op list \<Rightarrow> nat \<Rightarrow> nat" where
  "since_reset t metric [] n = n"
| "since_reset t metric (Meter_Record t' metric' a # ops) n =
     since_reset t metric ops (if t' = t \<and> metric' = metric then n + unat a else n)"
| "since_reset t metric (Meter_Reset t' metric' # ops) n =
     since_reset t metric ops (if t' = t \<and> metric' = metric then 0 else n)"

lemma meter_run:
  "meter_usage t metric m = word_of_nat n \<Longrightarrow>
   meter_usage t metric (fold meter_step ops m) = word_of_nat (since_reset t metric ops n)"
  by (induction t metric ops n arbitrary: m rule: since_reset.induct)
    (auto simp: meter_record_def meter_reset_def meter_usage_def)

text \<open>Usage is what was recorded since the last reset, per tenant and metric, modulo 2 to the 64.
  It is the exact sum as long as that fits a 64-bit counter.\<close>

theorem meter_usage_since_reset:
  "unat (meter_usage t metric (fold meter_step ops Map.empty)) = since_reset t metric ops 0 mod 2 ^ 64"
  using meter_run [of t metric Map.empty 0 ops]
  by (simp add: meter_usage_def unsigned_of_nat take_bit_eq_mod)

section \<open>Audit events keep what the caller set\<close>

lemma audit_from_context_keeps:
  "ab_actor b = Some a \<Longrightarrow> ab_actor (audit_from_context K ctx b) = Some a"
  "ab_tenant b = Some t \<Longrightarrow> ab_tenant (audit_from_context K ctx b) = Some t"
  "map_of (ab_metadata b) k = Some v \<Longrightarrow> map_of (ab_metadata (audit_from_context K ctx b)) k = Some v"
  by (auto simp: audit_from_context_def Let_def)

lemma audit_from_context_fills:
  "ab_actor b = None \<Longrightarrow> ab_actor (audit_from_context K ctx b) = rc_principal ctx"
  "ab_tenant b = None \<Longrightarrow> ab_tenant (audit_from_context K ctx b) = rc_tenant ctx"
  "\<exists>v. map_of (ab_metadata (audit_from_context K ctx b)) ''request_id'' = Some v"
  by (auto simp: audit_from_context_def Let_def)

end
