(* ===== verification/Middleware.thy ===== *)
theory Middleware
  imports RequestCtx Jwt Http Decimal
begin

text \<open>
  Requests and responses as the actix middlewares see them, with the header map operations they
  use, and two middlewares: the request context (\<open>klauthed-web/src/context/middleware.rs\<close>,
  \<open>extractor.rs\<close>) and the security headers (\<open>klauthed-web/src/headers\<close>).

  Header names are lower case and a header map is the list of its entries in order. The crates
  below actix are parameters: \<open>hv_valid\<close> says which text \<open>HeaderValue::from_str\<close> accepts,
  \<open>hv_visible\<close> which values \<open>HeaderValue::to_str\<close> yields as text; the parsed cookies and the
  peer address are fields of the request. The wrapped service is a function of the request and a
  state that returns an error or a response.
\<close>

record header_lib =
  hv_valid :: "string \<Rightarrow> bool"
  hv_visible :: "string \<Rightarrow> bool"

type_synonym headers = "(string \<times> string) list"

record web_request =
  wq_method :: string
  wq_headers :: headers
  wq_cookies :: "string \<Rightarrow> string option"
  wq_peer :: "string option"
  wq_claims :: "claims option"
  wq_context :: "request_context option"

record 'b web_response =
  wp_status :: nat
  wp_headers :: headers
  wp_body :: 'b

type_synonym ('s, 'e, 'b) service = "web_request \<Rightarrow> 's \<Rightarrow> ('e + 'b web_response) \<times> 's"

section \<open>Header maps\<close>

text \<open>\<open>HeaderMap::get\<close> (the first value), \<open>contains_key\<close>, \<open>insert\<close> (replaces every value of the
  name) and \<open>append\<close>.\<close>

definition header_get :: "string \<Rightarrow> headers \<Rightarrow> string option" where
  "header_get n hs = map_of hs n"

definition header_contains :: "string \<Rightarrow> headers \<Rightarrow> bool" where
  "header_contains n hs = (n \<in> fst ` set hs)"

definition header_insert :: "string \<Rightarrow> string \<Rightarrow> headers \<Rightarrow> headers" where
  "header_insert n v hs = filter (\<lambda>(m, _). m \<noteq> n) hs @ [(n, v)]"

definition header_append :: "string \<Rightarrow> string \<Rightarrow> headers \<Rightarrow> headers" where
  "header_append n v hs = hs @ [(n, v)]"

definition header_values :: "string \<Rightarrow> headers \<Rightarrow> string list" where
  "header_values n hs = map snd (filter (\<lambda>(m, _). m = n) hs)"

text \<open>\<open>headers.get(name).and_then(|v| v.to_str().ok())\<close>.\<close>

definition header_text :: "header_lib \<Rightarrow> string \<Rightarrow> headers \<Rightarrow> string option" where
  "header_text L n hs =
     (case header_get n hs of None \<Rightarrow> None | Some v \<Rightarrow> if hv_visible L v then Some v else None)"

lemma header_values_insert [simp]:
  "header_values m (header_insert n v hs) = (if m = n then [v] else header_values m hs)"
proof -
  have "filter (\<lambda>(k, _). k = n) (filter (\<lambda>(k, _). k \<noteq> n) hs) = []"
    by (induction hs) auto
  moreover have "m \<noteq> n \<Longrightarrow> filter (\<lambda>(k, _). k = m) (filter (\<lambda>(k, _). k \<noteq> n) hs) = filter (\<lambda>(k, _). k = m) hs"
    by (induction hs) auto
  ultimately show ?thesis by (auto simp: header_values_def header_insert_def)
qed

lemma header_values_append [simp]:
  "header_values m (header_append n v hs) = header_values m hs @ (if m = n then [v] else [])"
  by (simp add: header_values_def header_append_def)

lemma header_contains_values: "header_contains n hs \<longleftrightarrow> header_values n hs \<noteq> []"
  by (force simp: header_contains_def header_values_def filter_empty_conv)

section \<open>The request context\<close>

definition REQUEST_ID_HEADER :: string where
  "REQUEST_ID_HEADER = ''x-request-id''"

definition CORRELATION_ID_HEADER :: string where
  "CORRELATION_ID_HEADER = ''x-correlation-id''"

definition TENANT_ID_HEADER :: string where
  "TENANT_ID_HEADER = ''x-tenant-id''"

definition ACCEPT_LANGUAGE_HEADER :: string where
  "ACCEPT_LANGUAGE_HEADER = ''accept-language''"

definition header_str :: "header_lib \<Rightarrow> string \<Rightarrow> headers \<Rightarrow> string option" where
  "header_str L n hs =
     (case header_text L n hs of
        None \<Rightarrow> None
      | Some v \<Rightarrow> (let raw = str_trim v in if raw \<noteq> [] then Some raw else None))"

definition first_language :: "string \<Rightarrow> string option" where
  "first_language accept_language =
     find (\<lambda>tag. tag \<noteq> [] \<and> tag \<noteq> ''*'')
       (map (\<lambda>part. str_trim (case str_split CHR '';'' part of [] \<Rightarrow> part | p # _ \<Rightarrow> p))
         (str_split CHR '','' accept_language))"

text \<open>\<open>Option\<close>-guarded builder step: \<open>if let Some(x) = o { ctx = f(x, ctx) }\<close>.\<close>

definition apply_opt :: "'a option \<Rightarrow> ('a \<Rightarrow> 'c \<Rightarrow> 'c) \<Rightarrow> 'c \<Rightarrow> 'c" where
  "apply_opt o' f c = (case o' of None \<Rightarrow> c | Some x \<Rightarrow> f x c)"

definition context_from_request ::
  "header_lib \<Rightarrow> id_codec \<Rightarrow> typed_id \<Rightarrow> timestamp \<Rightarrow> web_request \<Rightarrow> request_context" where
  "context_from_request L K fresh now rq =
     (let hs = wq_headers rq;
          ctx = ctx_new fresh now;
          ctx = (case header_str L REQUEST_ID_HEADER hs of
                   None \<Rightarrow> ctx
                 | Some raw \<Rightarrow> (case id_from_str K raw of Inl _ \<Rightarrow> ctx | Inr i \<Rightarrow> with_request_id i ctx));
          ctx = apply_opt (header_str L CORRELATION_ID_HEADER hs) with_correlation_id ctx;
          ctx = apply_opt (header_str L TENANT_ID_HEADER hs) with_tenant ctx;
          ctx = apply_opt (Option.bind (header_str L ACCEPT_LANGUAGE_HEADER hs) first_language) with_locale ctx
      in ctx)"

text \<open>\<open>RequestContextService::call\<close>.\<close>

definition context_call ::
  "header_lib \<Rightarrow> id_codec \<Rightarrow> typed_id \<Rightarrow> timestamp \<Rightarrow> ('s, 'e, 'b) service \<Rightarrow> ('s, 'e, 'b) service" where
  "context_call L K fresh now service rq s =
     (let ctx = context_from_request L K fresh now rq;
          request_id = rc_request_id ctx
      in case service (rq\<lparr>wq_context := Some ctx\<rparr>) s of
           (Inl e, s') \<Rightarrow> (Inl e, s')
         | (Inr res, s') \<Rightarrow>
             (Inr (if hv_valid L (id_to_string K request_id)
                   then res\<lparr>wp_headers := header_insert REQUEST_ID_HEADER (id_to_string K request_id) (wp_headers res)\<rparr>
                   else res), s'))"

text \<open>The \<open>Context\<close> extractor: the stored context, or a fresh one.\<close>

definition extract_context :: "typed_id \<Rightarrow> timestamp \<Rightarrow> web_request \<Rightarrow> request_context" where
  "extract_context fresh now rq = (case wq_context rq of Some c \<Rightarrow> c | None \<Rightarrow> ctx_new fresh now)"

section \<open>Security headers\<close>

record hsts =
  max_age_secs :: u64
  include_subdomains :: bool
  preload :: bool

definition hsts_recommended :: hsts where
  "hsts_recommended = \<lparr>max_age_secs = 63072000, include_subdomains = True, preload = False\<rparr>"

datatype frame_options = Frame_Deny | Frame_SameOrigin

fun frame_value :: "frame_options \<Rightarrow> string" where
  "frame_value Frame_Deny = ''DENY''"
| "frame_value Frame_SameOrigin = ''SAMEORIGIN''"

record security_headers_config =
  sh_hsts :: "hsts option"
  sh_frame_options :: "frame_options option"
  content_type_nosniff :: bool
  referrer_policy :: "string option"
  content_security_policy :: "string option"
  permissions_policy :: "string option"
  cross_origin_opener_policy :: "string option"
  cross_origin_resource_policy :: "string option"

definition hsts_value :: "hsts \<Rightarrow> string" where
  "hsts_value h =
     ''max-age='' @ show_nat (unat (max_age_secs h))
     @ (if include_subdomains h then ''; includeSubDomains'' else [])
     @ (if preload h then ''; preload'' else [])"

text \<open>Text in single quotes, as the CSP keywords are written.\<close>

definition quoted :: "string \<Rightarrow> string" where
  "quoted s = CHR 0x27 # s @ [CHR 0x27]"

definition security_headers_default :: security_headers_config where
  "security_headers_default =
     \<lparr>sh_hsts = Some hsts_recommended, sh_frame_options = Some Frame_Deny, content_type_nosniff = True,
      referrer_policy = Some ''no-referrer'',
      content_security_policy =
        Some (''default-src '' @ quoted ''none'' @ ''; frame-ancestors '' @ quoted ''none'' @ ''; base-uri '' @ quoted ''none''),
      permissions_policy = None,
      cross_origin_opener_policy = Some ''same-origin'',
      cross_origin_resource_policy = Some ''same-origin''\<rparr>"

definition security_headers_relaxed :: security_headers_config where
  "security_headers_relaxed = security_headers_default
     \<lparr>sh_frame_options := Some Frame_SameOrigin,
      content_security_policy :=
        Some (''default-src '' @ quoted ''self'' @ ''; object-src '' @ quoted ''none''
              @ ''; frame-ancestors '' @ quoted ''self'' @ ''; base-uri '' @ quoted ''self''),
      cross_origin_opener_policy := None,
      cross_origin_resource_policy := None\<rparr>"

definition without_hsts :: "security_headers_config \<Rightarrow> security_headers_config" where
  "without_hsts c = c\<lparr>sh_hsts := None\<rparr>"

definition with_hsts :: "hsts \<Rightarrow> security_headers_config \<Rightarrow> security_headers_config" where
  "with_hsts h c = c\<lparr>sh_hsts := Some h\<rparr>"

definition with_csp :: "string \<Rightarrow> security_headers_config \<Rightarrow> security_headers_config" where
  "with_csp p c = c\<lparr>content_security_policy := Some p\<rparr>"

definition without_csp :: "security_headers_config \<Rightarrow> security_headers_config" where
  "without_csp c = c\<lparr>content_security_policy := None\<rparr>"

definition with_frame_options :: "frame_options \<Rightarrow> security_headers_config \<Rightarrow> security_headers_config" where
  "with_frame_options f c = c\<lparr>sh_frame_options := Some f\<rparr>"

definition with_referrer_policy :: "string \<Rightarrow> security_headers_config \<Rightarrow> security_headers_config" where
  "with_referrer_policy p c = c\<lparr>referrer_policy := Some p\<rparr>"

definition with_permissions_policy :: "string \<Rightarrow> security_headers_config \<Rightarrow> security_headers_config" where
  "with_permissions_policy p c = c\<lparr>permissions_policy := Some p\<rparr>"

text \<open>\<open>header_pairs\<close>: the configured values in order, those that are not valid header text
  skipped by \<open>push\<close>.\<close>

definition push_header :: "header_lib \<Rightarrow> string \<Rightarrow> string option \<Rightarrow> headers \<Rightarrow> headers" where
  "push_header L name value pairs =
     (case value of None \<Rightarrow> pairs | Some v \<Rightarrow> if hv_valid L v then pairs @ [(name, v)] else pairs)"

definition configured_values :: "security_headers_config \<Rightarrow> (string \<times> string option) list" where
  "configured_values c =
     [(''strict-transport-security'', map_option hsts_value (sh_hsts c)),
      (''x-frame-options'', map_option frame_value (sh_frame_options c)),
      (''x-content-type-options'', if content_type_nosniff c then Some ''nosniff'' else None),
      (''referrer-policy'', referrer_policy c),
      (''content-security-policy'', content_security_policy c),
      (''permissions-policy'', permissions_policy c),
      (''cross-origin-opener-policy'', cross_origin_opener_policy c),
      (''cross-origin-resource-policy'', cross_origin_resource_policy c)]"

definition header_pairs :: "header_lib \<Rightarrow> security_headers_config \<Rightarrow> headers" where
  "header_pairs L c = fold (\<lambda>(n, v). push_header L n v) (configured_values c) []"

text \<open>\<open>SecurityHeadersService::call\<close>.\<close>

definition add_missing :: "headers \<Rightarrow> headers \<Rightarrow> headers" where
  "add_missing pairs hs =
     fold (\<lambda>(n, v) m. if \<not> header_contains n m then header_insert n v m else m) pairs hs"

definition security_headers_call :: "headers \<Rightarrow> ('s, 'e, 'b) service \<Rightarrow> ('s, 'e, 'b) service" where
  "security_headers_call pairs service rq s =
     (case service rq s of
        (Inl e, s') \<Rightarrow> (Inl e, s')
      | (Inr res, s') \<Rightarrow> (Inr (res\<lparr>wp_headers := add_missing pairs (wp_headers res)\<rparr>), s'))"

section \<open>What the middlewares guarantee\<close>

text \<open>The request id the client named, if it is one, and otherwise the minted one.\<close>

definition named_id :: "header_lib \<Rightarrow> id_codec \<Rightarrow> web_request \<Rightarrow> typed_id option" where
  "named_id L K rq =
     (case header_str L REQUEST_ID_HEADER (wq_headers rq) of
        None \<Rightarrow> None
      | Some raw \<Rightarrow> (case id_from_str K raw of Inl _ \<Rightarrow> None | Inr i \<Rightarrow> Some i))"

lemma context_from_request_fields:
  "rc_request_id (context_from_request L K fresh now rq) = (case named_id L K rq of None \<Rightarrow> fresh | Some i \<Rightarrow> i)"
  "rc_correlation_id (context_from_request L K fresh now rq) = header_str L CORRELATION_ID_HEADER (wq_headers rq)"
  "rc_tenant (context_from_request L K fresh now rq) = header_str L TENANT_ID_HEADER (wq_headers rq)"
  "rc_principal (context_from_request L K fresh now rq) = None"
  by (simp_all add: context_from_request_def named_id_def apply_opt_def Let_def ctx_new_def with_request_id_def
      with_correlation_id_def with_tenant_def with_locale_def split: option.splits sum.splits)

text \<open>Request ids are propagated end to end. The inner service sees one context, with the id the
  client named or the minted one and no principal taken from the headers; a successful response
  carries exactly one \<open>x-request-id\<close> header, the text of that id, and its status, body and other
  headers are the inner service's; an error passes through.\<close>

theorem request_id_propagates:
  assumes valid: "\<And>i. hv_valid L (id_to_string K i)"
    and run: "context_call L K fresh now service rq s = (r, s')"
  shows "\<exists>ctx r0. rc_request_id ctx = (case named_id L K rq of None \<Rightarrow> fresh | Some i \<Rightarrow> i)
    \<and> rc_principal ctx = None
    \<and> service (rq\<lparr>wq_context := Some ctx\<rparr>) s = (r0, s')
    \<and> (case r0 of
         Inl e \<Rightarrow> r = Inl e
       | Inr res0 \<Rightarrow> \<exists>res. r = Inr res \<and> wp_status res = wp_status res0 \<and> wp_body res = wp_body res0
           \<and> header_values REQUEST_ID_HEADER (wp_headers res) = [id_to_string K (rc_request_id ctx)]
           \<and> (\<forall>n. n \<noteq> REQUEST_ID_HEADER \<longrightarrow> header_values n (wp_headers res) = header_values n (wp_headers res0)))"
proof -
  let ?ctx = "context_from_request L K fresh now rq"
  obtain r0 t where c: "service (rq\<lparr>wq_context := Some ?ctx\<rparr>) s = (r0, t)" by (metis surj_pair)
  have "t = s'" "r = (case r0 of Inl e \<Rightarrow> Inl e | Inr res0 \<Rightarrow>
      Inr (res0\<lparr>wp_headers := header_insert REQUEST_ID_HEADER (id_to_string K (rc_request_id ?ctx)) (wp_headers res0)\<rparr>))"
    using run valid by (auto simp: context_call_def Let_def c split: sum.splits)
  with c show ?thesis
    by (intro exI [of _ ?ctx] exI [of _ r0])
      (auto simp: context_from_request_fields split: sum.splits)
qed

definition demo_lib :: header_lib where
  "demo_lib = \<lparr>hv_valid = (\<lambda>s. list_all (\<lambda>c. 32 \<le> (of_char c :: nat)) s),
     hv_visible = (\<lambda>s. list_all (\<lambda>c. 32 \<le> (of_char c :: nat) \<and> (of_char c :: nat) < 127) s)\<rparr>"

lemma demo_id_valid: "hv_valid demo_lib (id_to_string demo_codec i)"
  using show_nat_digits [of "unat i"]
  by (auto simp: demo_lib_def demo_codec_def id_to_string_def list_all_iff is_digit_def)

definition demo_request :: "string \<Rightarrow> headers \<Rightarrow> web_request" where
  "demo_request m hs = \<lparr>wq_method = m, wq_headers = hs, wq_cookies = (\<lambda>_. None), wq_peer = None,
     wq_claims = None, wq_context = None\<rparr>"

definition echo_service :: "(nat, string, string) service" where
  "echo_service rq n = (Inr \<lparr>wp_status = 200, wp_headers = [(''x-request-id'', ''0'')], wp_body = ''ok''\<rparr>, Suc n)"

theorem request_id_propagates_witness:
  "\<exists>r. fst (context_call demo_lib demo_codec 7 0 echo_service (demo_request ''GET'' [(''x-request-id'', '' 42 '')]) 0) = Inr r
     \<and> header_values ''x-request-id'' (wp_headers r) = [''42'']"
proof -
  have n: "named_id demo_lib demo_codec (demo_request ''GET'' [(''x-request-id'', '' 42 '')]) = Some 42"
    by (simp add: named_id_def header_str_def header_text_def header_get_def demo_request_def demo_lib_def
        REQUEST_ID_HEADER_def str_trim_def is_ws_def id_from_str_def demo_codec_def parse_unsigned_def
        strip_plus_def is_digit_def digits_value_def Let_def)
  have t: "id_to_string demo_codec 42 = ''42''"
    by (simp add: id_to_string_def demo_codec_def show_nat.simps digit_char_def char_of_def bit_0)
  obtain r s' where c: "context_call demo_lib demo_codec 7 0 echo_service
      (demo_request ''GET'' [(''x-request-id'', '' 42 '')]) 0 = (r, s')" by (metis surj_pair)
  show ?thesis
    using request_id_propagates [OF demo_id_valid c] n t
    by (auto simp: c echo_service_def REQUEST_ID_HEADER_def)
qed

section \<open>Security headers cover every response\<close>

lemma push_header_fold:
  "fold (\<lambda>(n, v). push_header L n v) vs ps
   = ps @ [(n, v). (n, Some v) \<leftarrow> vs, hv_valid L v]"
  by (induction vs arbitrary: ps) (auto simp: push_header_def split: option.splits)

lemma header_pairs_eq: "header_pairs L c = [(n, v). (n, Some v) \<leftarrow> configured_values c, hv_valid L v]"
  by (simp add: header_pairs_def push_header_fold)

lemma add_missing_Nil [simp]: "add_missing [] hs = hs"
  by (simp add: add_missing_def)

lemma add_missing_Cons:
  "add_missing ((n, v) # ps) hs = add_missing ps (if header_values n hs = [] then header_insert n v hs else hs)"
  by (simp add: add_missing_def header_contains_values)

text \<open>The first pair of a name is added when the response has no header of that name.\<close>

lemma add_missing_values:
  "header_values n (add_missing ps hs) =
     (if header_values n hs \<noteq> [] then header_values n hs
      else (case map_of ps n of None \<Rightarrow> [] | Some v \<Rightarrow> [v]))"
proof (induction ps arbitrary: hs)
  case (Cons p ps)
  obtain m v where p: "p = (m, v)" by (cases p)
  show ?case
    by (simp add: p add_missing_Cons Cons.IH)
qed simp

text \<open>Every response is covered. Whatever the inner service answers, error responses of inner
  layers included, each configured header whose value is valid header text is present: with the
  handler's values where it set that header itself and with the configured value otherwise; status
  and body are untouched and no header of another name appears.\<close>

theorem security_headers_cover:
  assumes "\<forall>(n, v) \<in> set (configured_values c). case v of None \<Rightarrow> True | Some t \<Rightarrow> hv_valid L t"
    and "service rq s = (Inr res0, s')"
  shows "\<exists>res. security_headers_call (header_pairs L c) service rq s = (Inr res, s')
    \<and> wp_status res = wp_status res0 \<and> wp_body res = wp_body res0
    \<and> (\<forall>n. header_values n (wp_headers res) =
         (if header_values n (wp_headers res0) \<noteq> [] then header_values n (wp_headers res0)
          else (case map_of (configured_values c) n of Some (Some v) \<Rightarrow> [v] | _ \<Rightarrow> [])))"
proof -
  have "map_of (header_pairs L c) n = (case map_of (configured_values c) n of Some (Some v) \<Rightarrow> Some v | _ \<Rightarrow> None)" for n
  proof -
    have d: "distinct (map fst (configured_values c))" by (simp add: configured_values_def)
    have gen: "map_of [(n, v). (n, Some v) \<leftarrow> vs, hv_valid L v] n
        = (case map_of vs n of Some (Some v) \<Rightarrow> Some v | _ \<Rightarrow> None)"
      if "distinct (map fst vs)" "\<forall>(n, v) \<in> set vs. case v of None \<Rightarrow> True | Some t \<Rightarrow> hv_valid L t" for vs
      using that
    proof (induction vs)
      case (Cons p vs)
      obtain m o' where p: "p = (m, o')" by (cases p)
      have "map_of vs m = None" using Cons.prems(1) p by (simp add: map_of_eq_None_iff)
      then show ?case using Cons p by (cases o') auto
    qed simp
    show ?thesis unfolding header_pairs_eq by (rule gen [OF d assms(1)])
  qed
  then show ?thesis
    using assms(2) by (simp add: security_headers_call_def add_missing_values split: option.splits)
qed

theorem security_headers_cover_witness:
  "\<exists>res. fst (security_headers_call (header_pairs demo_lib security_headers_default) echo_service
             (demo_request ''GET'' []) 0) = Inr res
     \<and> header_values ''x-frame-options'' (wp_headers res) = [''DENY'']
     \<and> header_values ''x-request-id'' (wp_headers res) = [''0'']"
proof -
  have v: "\<forall>(n, v) \<in> set (configured_values security_headers_default).
      case v of None \<Rightarrow> True | Some t \<Rightarrow> hv_valid demo_lib t"
    using show_nat_digits [of 63072000]
    by (auto simp: configured_values_def security_headers_default_def hsts_recommended_def hsts_value_def
        demo_lib_def quoted_def list_all_iff is_digit_def)
  show ?thesis
    using security_headers_cover [OF v, of echo_service "demo_request ''GET'' []" 0]
    by (auto simp: echo_service_def header_values_def configured_values_def security_headers_default_def)
qed

end
