(* ===== verification/Csrf.thy ===== *)
theory Csrf
  imports Middleware
begin

text \<open>
  The double-submit CSRF middleware (\<open>klauthed-web/src/csrf\<close>). The random source is the one of
  \<open>Tokens\<close>, so the state of the middleware is the state of the wrapped service and the number of
  draws; the text of a cookie (the \<open>cookie\<close> crate) is a parameter. Header maps hold names in lower
  case; a lookup by the configured name lowers it first.
\<close>

datatype csrf_same_site = Lax | Strict | SameSite_None

record csrf_config =
  cookie_name :: string
  header_name :: string
  cookie_path :: string
  same_site :: csrf_same_site
  csrf_secure :: bool
  auto_issue :: bool
  skip_bearer :: bool
  token_bytes :: nat

definition csrf_default :: csrf_config where
  "csrf_default =
     \<lparr>cookie_name = ''csrf_token'', header_name = ''x-csrf-token'', cookie_path = ''/'', same_site = Lax,
      csrf_secure = True, auto_issue = True, skip_bearer = True, token_bytes = 32\<rparr>"

definition set_secure :: "bool \<Rightarrow> csrf_config \<Rightarrow> csrf_config" where
  "set_secure b c = c\<lparr>csrf_secure := b\<rparr>"

definition set_cookie_name :: "string \<Rightarrow> csrf_config \<Rightarrow> csrf_config" where
  "set_cookie_name n c = c\<lparr>cookie_name := n\<rparr>"

definition set_header_name :: "string \<Rightarrow> csrf_config \<Rightarrow> csrf_config" where
  "set_header_name n c = c\<lparr>header_name := n\<rparr>"

definition set_same_site :: "csrf_same_site \<Rightarrow> csrf_config \<Rightarrow> csrf_config" where
  "set_same_site x c = c\<lparr>same_site := x\<rparr>"

definition set_auto_issue :: "bool \<Rightarrow> csrf_config \<Rightarrow> csrf_config" where
  "set_auto_issue b c = c\<lparr>auto_issue := b\<rparr>"

definition set_skip_bearer :: "bool \<Rightarrow> csrf_config \<Rightarrow> csrf_config" where
  "set_skip_bearer b c = c\<lparr>skip_bearer := b\<rparr>"

record cookie =
  ck_name :: string
  ck_value :: string
  ck_path :: string
  ck_secure :: bool
  ck_http_only :: bool
  ck_same_site :: csrf_same_site

definition is_safe_method :: "string \<Rightarrow> bool" where
  "is_safe_method m = (m = ''GET'' \<or> m = ''HEAD'' \<or> m = ''OPTIONS'' \<or> m = ''TRACE'')"

definition has_bearer :: "header_lib \<Rightarrow> headers \<Rightarrow> bool" where
  "has_bearer L hs =
     (case header_text L ''authorization'' hs of
        None \<Rightarrow> False
      | Some v \<Rightarrow>
          (let t = dropWhile is_ws v
           in 7 \<le> length t \<and> to_lowercase (take 7 t) = ''bearer ''))"

definition build_issued_cookie :: "crypto \<Rightarrow> csrf_config \<Rightarrow> nat \<Rightarrow> (security_error + cookie) \<times> nat" where
  "build_issued_cookie C cfg i =
     (case random_token C (token_bytes cfg) i of
        (Inl e, i') \<Rightarrow> (Inl e, i')
      | (Inr token, i') \<Rightarrow>
          (Inr \<lparr>ck_name = cookie_name cfg, ck_value = token, ck_path = cookie_path cfg,
                ck_secure = csrf_secure cfg, ck_http_only = False, ck_same_site = same_site cfg\<rparr>, i'))"

definition append_set_cookie :: "header_lib \<Rightarrow> (cookie \<Rightarrow> string) \<Rightarrow> cookie \<Rightarrow> headers \<Rightarrow> headers" where
  "append_set_cookie L show_cookie ck hs =
     (if hv_valid L (show_cookie ck) then header_append ''set-cookie'' (show_cookie ck) hs else hs)"

text \<open>The response an \<open>AppError\<close> renders to, with the header map of a JSON response.\<close>

definition web_error :: "app_error \<Rightarrow> 'b http_body web_response" where
  "web_error e =
     (let r = error_response e
      in \<lparr>wp_status = resp_status r, wp_headers = [(''content-type'', ''application/json'')], wp_body = resp_body r\<rparr>)"

text \<open>\<open>CsrfService::call\<close>.\<close>

definition csrf_call ::
  "crypto \<Rightarrow> header_lib \<Rightarrow> (cookie \<Rightarrow> string) \<Rightarrow> csrf_config \<Rightarrow> ('s, 'e, 'b http_body) service
   \<Rightarrow> ('s \<times> nat, 'e, 'b http_body) service" where
  "csrf_call C L show_cookie cfg service rq si =
     (let (s, i) = si;
          safe = is_safe_method (wq_method rq);
          cookie_token = wq_cookies rq (cookie_name cfg);
          header_token = header_text L (to_lowercase (header_name cfg)) (wq_headers rq);
          bearer_exempt = (skip_bearer cfg \<and> has_bearer L (wq_headers rq))
      in if safe then
           (case service rq s of
              (Inl e, s') \<Rightarrow> (Inl e, s', i)
            | (Inr res, s') \<Rightarrow>
                if auto_issue cfg \<and> cookie_token = None then
                  (case build_issued_cookie C cfg i of
                     (Inr ck, i') \<Rightarrow>
                       (Inr (res\<lparr>wp_headers := append_set_cookie L show_cookie ck (wp_headers res)\<rparr>), s', i')
                   | (Inl _, i') \<Rightarrow> (Inr res, s', i'))
                else (Inr res, s', i))
         else if bearer_exempt then (case service rq s of (r, s') \<Rightarrow> (r, s', i))
         else
           (let valid = (case (cookie_token, header_token) of
                           (Some ck, Some header) \<Rightarrow>
                             if ck \<noteq> [] then constant_time_eq C (as_bytes ck) (as_bytes header) else False
                         | _ \<Rightarrow> False)
            in if valid then (case service rq s of (r, s') \<Rightarrow> (r, s', i))
               else (Inr (web_error (forbidden ''missing or invalid CSRF token'')), s, i)))"

section \<open>Double submission\<close>

definition double_submitted :: "header_lib \<Rightarrow> csrf_config \<Rightarrow> web_request \<Rightarrow> bool" where
  "double_submitted L cfg rq =
     (\<exists>tok. tok \<noteq> [] \<and> wq_cookies rq (cookie_name cfg) = Some tok
        \<and> header_text L (to_lowercase (header_name cfg)) (wq_headers rq) = Some tok)"

lemma csrf_unsafe:
  assumes "crypto_ok C" and "\<not> is_safe_method (wq_method rq)"
  shows "csrf_call C L show_cookie cfg service rq (s, i) =
    (if (skip_bearer cfg \<and> has_bearer L (wq_headers rq)) \<or> double_submitted L cfg rq
     then (case service rq s of (r, s') \<Rightarrow> (r, s', i))
     else (Inr (web_error (forbidden ''missing or invalid CSRF token'')), s, i))"
  using assms
  by (auto simp: csrf_call_def double_submitted_def constant_time_eq_iff Let_def split: option.splits)

lemma csrf_safe:
  assumes "is_safe_method (wq_method rq)" and "service rq s = (r0, s')"
  shows "csrf_call C L show_cookie cfg service rq (s, i) =
    (case r0 of
       Inl e \<Rightarrow> (Inl e, s', i)
     | Inr res \<Rightarrow>
         if auto_issue cfg \<and> wq_cookies rq (cookie_name cfg) = None then
           (case build_issued_cookie C cfg i of
              (Inr ck, i') \<Rightarrow> (Inr (res\<lparr>wp_headers := append_set_cookie L show_cookie ck (wp_headers res)\<rparr>), s', i')
            | (Inl _, i') \<Rightarrow> (Inr res, s', i'))
         else (Inr res, s', i))"
  using assms by (simp add: csrf_call_def Let_def split: sum.splits)

lemma web_error_status [simp]: "wp_status (web_error e) = http_status (ae_category e)"
  by (simp add: web_error_def Let_def)

text \<open>C10: no forged write reaches a handler. A state-changing request reaches the wrapped service exactly
  when it carries the CSRF cookie, non-empty, and the same value in the CSRF header, or when the
  configuration exempts bearer requests (it does by default) and it has an \<open>Authorization: Bearer\<close>
  header; every other such request is answered 403 and leaves the service's state untouched. A request
  that passes is answered by the service alone, and no token is drawn for it.\<close>

theorem csrf_guards_writes:
  assumes "crypto_ok C" and "\<not> is_safe_method (wq_method rq)"
    and "csrf_call C L show_cookie cfg service rq (s, i) = (r, s', i')"
  shows "if (skip_bearer cfg \<and> has_bearer L (wq_headers rq)) \<or> double_submitted L cfg rq
    then service rq s = (r, s') \<and> i' = i
    else (\<exists>res. r = Inr res \<and> wp_status res = 403) \<and> s' = s \<and> i' = i"
  using assms(3) unfolding csrf_unsafe [OF assms(1,2)]
  by (auto simp: app_error_defs split: if_splits prod.splits)

text \<open>A token is handed out once and accepted when echoed. A safe request always reaches the
  service; a cookie is set on its response only when the client has none, with the value of a fresh
  draw under the configured name; and a later write that presents that value in cookie and header
  reaches the service.\<close>

theorem csrf_issue_then_accept:
  assumes C: "crypto_ok C" and safe: "is_safe_method (wq_method rq)" and svc: "service rq s = (Inr res, s1)"
    and none: "wq_cookies rq (cookie_name cfg) = None" and auto: "auto_issue cfg"
    and draw: "random_token C (token_bytes cfg) i = (Inr token, i1)" and tok: "token \<noteq> []"
    and valid: "hv_valid L (show_cookie (\<lparr>ck_name = cookie_name cfg, ck_value = token, ck_path = cookie_path cfg,
                ck_secure = csrf_secure cfg, ck_http_only = False, ck_same_site = same_site cfg\<rparr>))"
    and unsafe: "\<not> is_safe_method (wq_method rq')"
    and echo: "wq_cookies rq' (cookie_name cfg) = Some token"
      "header_text L (to_lowercase (header_name cfg)) (wq_headers rq') = Some token"
  shows "\<exists>ck. ck_name ck = cookie_name cfg \<and> ck_value ck = token \<and> \<not> ck_http_only ck
    \<and> csrf_call C L show_cookie cfg service rq (s, i)
        = (Inr (res\<lparr>wp_headers := wp_headers res @ [(''set-cookie'', show_cookie ck)]\<rparr>), s1, i1)
    \<and> csrf_call C L show_cookie cfg service rq' (s1, i1) = (case service rq' s1 of (r, s2) \<Rightarrow> (r, s2, i1))"
proof -
  let ?ck = "\<lparr>ck_name = cookie_name cfg, ck_value = token, ck_path = cookie_path cfg,
                ck_secure = csrf_secure cfg, ck_http_only = False, ck_same_site = same_site cfg\<rparr>"
  have "double_submitted L cfg rq'" using echo tok by (auto simp: double_submitted_def)
  then have "csrf_call C L show_cookie cfg service rq' (s1, i1) = (case service rq' s1 of (r, s2) \<Rightarrow> (r, s2, i1))"
    by (simp add: csrf_unsafe [OF C unsafe])
  moreover have "csrf_call C L show_cookie cfg service rq (s, i)
        = (Inr (res\<lparr>wp_headers := wp_headers res @ [(''set-cookie'', show_cookie ?ck)]\<rparr>), s1, i1)"
    using none auto draw valid
    by (simp add: csrf_safe [where service = service, OF safe svc] build_issued_cookie_def append_set_cookie_def header_append_def)
  ultimately show ?thesis by (intro exI [of _ ?ck]) simp
qed

definition ok_response :: "nat http_body web_response" where
  "ok_response = \<lparr>wp_status = 200, wp_headers = [], wp_body = NoBody\<rparr>"

definition csrf_service :: "(nat, string, nat http_body) service" where
  "csrf_service rq n = (Inr ok_response, Suc n)"

definition csrf_request :: "string \<Rightarrow> string \<Rightarrow> web_request" where
  "csrf_request m tok = (demo_request m [(''x-csrf-token'', tok)])\<lparr>wq_cookies := [''csrf_token'' \<mapsto> ''k'']\<rparr>"

lemma xcsrf_lower: "to_lowercase ''x-csrf-token'' = ''x-csrf-token''"
  by code_simp

theorem csrf_guards_writes_witness:
  "(\<exists>res. fst (csrf_call demo_crypto demo_lib ck_value csrf_default csrf_service (csrf_request ''POST'' ''x'') (0, 0)) = Inr res
      \<and> wp_status res = 403)
   \<and> snd (csrf_call demo_crypto demo_lib ck_value csrf_default csrf_service (csrf_request ''POST'' ''k'') (0, 0)) = (1, 0)"
proof -
  have h: "header_text demo_lib ''x-csrf-token'' (wq_headers (csrf_request ''POST'' t)) = Some t"
    and b: "\<not> has_bearer demo_lib (wq_headers (csrf_request ''POST'' t))" if "t = ''x'' \<or> t = ''k''" for t
    using that by (auto simp: csrf_request_def demo_request_def header_text_def header_get_def demo_lib_def has_bearer_def)
  have u: "\<not> is_safe_method (wq_method (csrf_request ''POST'' t))" for t
    by (simp add: is_safe_method_def csrf_request_def demo_request_def)
  have d: "double_submitted demo_lib csrf_default (csrf_request ''POST'' t) = (t = ''k'')" if "t = ''x'' \<or> t = ''k''" for t
    using h [OF that] by (auto simp: double_submitted_def csrf_default_def csrf_request_def xcsrf_lower)
  obtain r1 s1 i1 where c1: "csrf_call demo_crypto demo_lib ck_value csrf_default csrf_service (csrf_request ''POST'' ''x'') (0, 0)
      = (r1, s1, i1)" by (metis prod_cases3)
  obtain r2 s2 i2 where c2: "csrf_call demo_crypto demo_lib ck_value csrf_default csrf_service (csrf_request ''POST'' ''k'') (0, 0)
      = (r2, s2, i2)" by (metis prod_cases3)
  show ?thesis
    using csrf_guards_writes [OF crypto_ok_demo u c1] csrf_guards_writes [OF crypto_ok_demo u c2] b d
    by (simp add: c1 c2 csrf_service_def)
qed

theorem csrf_issue_then_accept_witness:
  "\<exists>ck :: cookie. ck_value ck = ''k'' \<and> csrf_call demo_crypto demo_lib ck_value csrf_default csrf_service (demo_request ''GET'' []) (0, 0)
    = (Inr \<lparr>wp_status = 200, wp_headers = [(''set-cookie'', ck_value ck)], wp_body = NoBody\<rparr>, 1, 1)"
proof -
  have dr: "random_token demo_crypto (token_bytes csrf_default) 0 = (Inr ''k'', 1)"
    by (simp add: csrf_default_def demo_token_def)
  have h: "header_text demo_lib (to_lowercase (header_name csrf_default)) (wq_headers (csrf_request ''POST'' ''k'')) = Some ''k''"
    by (simp add: csrf_request_def demo_request_def header_text_def header_get_def demo_lib_def csrf_default_def xcsrf_lower)
  have g: "is_safe_method (wq_method (demo_request ''GET'' []))"
    and svc: "csrf_service (demo_request ''GET'' []) 0 = (Inr ok_response, 1)"
    and none: "wq_cookies (demo_request ''GET'' []) (cookie_name csrf_default) = None"
    and auto: "auto_issue csrf_default" and tok: "''k'' \<noteq> []"
    and u: "\<not> is_safe_method (wq_method (csrf_request ''POST'' ''k''))"
    and echo: "wq_cookies (csrf_request ''POST'' ''k'') (cookie_name csrf_default) = Some ''k''"
    by (simp_all add: is_safe_method_def demo_request_def csrf_service_def csrf_default_def csrf_request_def)
  have valid: "hv_valid demo_lib (ck_value (\<lparr>ck_name = cookie_name csrf_default, ck_value = ''k'',
      ck_path = cookie_path csrf_default, ck_secure = csrf_secure csrf_default, ck_http_only = False,
      ck_same_site = same_site csrf_default\<rparr>))"
    by (simp add: demo_lib_def)
  have "\<exists>ck :: cookie. ck_value ck = ''k'' \<and> csrf_call demo_crypto demo_lib ck_value csrf_default csrf_service
        (demo_request ''GET'' []) (0, 0)
      = (Inr (ok_response\<lparr>wp_headers := wp_headers ok_response @ [(''set-cookie'', ck_value ck)]\<rparr>), 1, 1)"
    using csrf_issue_then_accept [where C = demo_crypto and service = csrf_service and L = demo_lib
        and show_cookie = ck_value, OF crypto_ok_demo g svc none auto dr tok valid u echo h]
    by blast
  then show ?thesis by (auto simp: ok_response_def)
qed

end
