(* ===== verification/Cors.thy ===== *)
theory Cors
  imports Middleware
begin

text \<open>
  Dynamic CORS (\<open>klauthed-web/src/cors\<close>): the configuration, the in-memory and the caching origin
  registries and the middleware. A registry is a function of the origin and its state; the clock
  \<open>Instant::now\<close> is read once per query here and passed as an argument. The static
  \<open>build_cors\<close>, which only configures the \<open>actix-cors\<close> crate, is not modelled.
\<close>

record cors_config =
  allowed_origins :: "string list"
  allowed_methods :: "string list"
  allowed_headers :: "string list"
  expose_headers :: "string list"
  allow_credentials :: bool
  cors_max_age :: "u32 option"

definition cors_default :: cors_config where
  "cors_default =
     \<lparr>allowed_origins = [],
      allowed_methods = [''GET'', ''HEAD'', ''POST'', ''PUT'', ''PATCH'', ''DELETE'', ''OPTIONS''],
      allowed_headers = [''Content-Type'', ''Authorization'', ''Accept'', ''Accept-Language'',
                         ''X-Request-Id'', ''X-Correlation-Id'', ''X-Tenant-Id''],
      expose_headers = [''X-Request-Id''], allow_credentials = False, cors_max_age = Some 86400\<rparr>"

section \<open>Registries\<close>

text \<open>\<open>CorsOriginRegistry::is_allowed\<close>.\<close>

type_synonym 'r origin_registry = "string \<Rightarrow> 'r \<Rightarrow> bool \<times> 'r"

definition origins_insert :: "string \<Rightarrow> string set \<Rightarrow> string set" where
  "origins_insert o' S = insert o' S"

definition origins_with :: "string list \<Rightarrow> string set" where
  "origins_with os = fold origins_insert os {}"

definition origins_remove :: "string \<Rightarrow> string set \<Rightarrow> bool \<times> string set" where
  "origins_remove o' S = (o' \<in> S, S - {o'})"

definition memory_is_allowed :: "string set origin_registry" where
  "memory_is_allowed o' S = (o' \<in> S, S)"

record 'r cached_registry =
  cr_inner :: 'r
  cr_cache :: "string \<rightharpoonup> bool \<times> timestamp"
  cr_ttl :: duration

definition cached_new :: "'r \<Rightarrow> duration \<Rightarrow> 'r cached_registry" where
  "cached_new inner ttl = \<lparr>cr_inner = inner, cr_cache = Map.empty, cr_ttl = ttl\<rparr>"

definition invalidate_all :: "'r cached_registry \<Rightarrow> 'r cached_registry" where
  "invalidate_all c = c\<lparr>cr_cache := Map.empty\<rparr>"

definition invalidate :: "string \<Rightarrow> 'r cached_registry \<Rightarrow> 'r cached_registry" where
  "invalidate o' c = c\<lparr>cr_cache := (cr_cache c)(o' := None)\<rparr>"

definition cached_is_allowed :: "'r origin_registry \<Rightarrow> timestamp \<Rightarrow> 'r cached_registry origin_registry" where
  "cached_is_allowed inner now o' c =
     (let hit = (case cr_cache c o' of
                   None \<Rightarrow> None
                 | Some (allowed, cached_at) \<Rightarrow> if now - cached_at < cr_ttl c then Some allowed else None)
      in case hit of
           Some allowed \<Rightarrow> (allowed, c)
         | None \<Rightarrow>
             (case inner o' (cr_inner c) of
                (allowed, r') \<Rightarrow>
                  (allowed, c\<lparr>cr_inner := r', cr_cache := (cr_cache c)(o' \<mapsto> (allowed, now))\<rparr>)))"

section \<open>The middleware\<close>

record dynamic_cors =
  dc_static_origins :: "string set"
  dc_config :: cors_config

definition dynamic_cors_new :: "cors_config \<Rightarrow> dynamic_cors" where
  "dynamic_cors_new cfg = \<lparr>dc_static_origins = set (allowed_origins cfg), dc_config = cfg\<rparr>"

definition put_valid :: "header_lib \<Rightarrow> string \<Rightarrow> string \<Rightarrow> headers \<Rightarrow> headers" where
  "put_valid L n v hs = (if hv_valid L v then header_insert n v hs else hs)"

definition set_cors_headers :: "header_lib \<Rightarrow> string \<Rightarrow> cors_config \<Rightarrow> bool \<Rightarrow> headers \<Rightarrow> headers" where
  "set_cors_headers L origin cfg is_preflight hs =
     (let hs = put_valid L ''access-control-allow-origin'' origin hs;
          hs = (if allow_credentials cfg then header_insert ''access-control-allow-credentials'' ''true'' hs else hs);
          hs = (if expose_headers cfg \<noteq> []
                then put_valid L ''access-control-expose-headers'' (str_join '', '' (expose_headers cfg)) hs else hs)
      in if is_preflight then
           (let hs = put_valid L ''access-control-allow-methods'' (str_join '', '' (allowed_methods cfg)) hs;
                hs = put_valid L ''access-control-allow-headers'' (str_join '', '' (allowed_headers cfg)) hs
            in case cors_max_age cfg of
                 None \<Rightarrow> hs
               | Some secs \<Rightarrow> put_valid L ''access-control-max-age'' (show_nat (unat secs)) hs)
         else hs)"

text \<open>The decision on the origin: the static set first, the registry on a miss.\<close>

definition decide_origin ::
  "'r origin_registry \<Rightarrow> dynamic_cors \<Rightarrow> string option \<Rightarrow> 'r \<Rightarrow> string option \<times> 'r" where
  "decide_origin registry dc origin r =
     (case origin of
        None \<Rightarrow> (None, r)
      | Some o' \<Rightarrow>
          if o' \<in> dc_static_origins dc then (Some o', r)
          else (case registry o' r of (allowed, r') \<Rightarrow> (if allowed then Some o' else None, r')))"

text \<open>\<open>DynamicCorsService::call\<close>; the state is the registry's and the service's.\<close>

definition cors_call ::
  "header_lib \<Rightarrow> 'r origin_registry \<Rightarrow> dynamic_cors \<Rightarrow> ('s, 'e, 'b http_body) service
   \<Rightarrow> ('r \<times> 's, 'e, 'b http_body) service" where
  "cors_call L registry dc service rq rs =
     (let (r, s) = rs;
          origin = header_text L ''origin'' (wq_headers rq);
          (allowed_origin, r') = decide_origin registry dc origin r
      in if wq_method rq = ''OPTIONS'' then
           (let hs = header_append ''vary'' ''Origin'' [];
                hs = (case allowed_origin of None \<Rightarrow> hs | Some o' \<Rightarrow> set_cors_headers L o' (dc_config dc) True hs)
            in (Inr \<lparr>wp_status = 204, wp_headers = hs, wp_body = NoBody\<rparr>, r', s))
         else
           (case service rq s of
              (Inl e, s') \<Rightarrow> (Inl e, r', s')
            | (Inr res, s') \<Rightarrow>
                (let hs = wp_headers res;
                     hs = (if origin \<noteq> None then header_append ''vary'' ''Origin'' hs else hs);
                     hs = (case allowed_origin of None \<Rightarrow> hs | Some o' \<Rightarrow> set_cors_headers L o' (dc_config dc) False hs)
                 in (Inr (res\<lparr>wp_headers := hs\<rparr>), r', s'))))"

section \<open>Only allowed origins are echoed\<close>

abbreviation "ACAO \<equiv> ''access-control-allow-origin''"

definition origin_allowed :: "'r origin_registry \<Rightarrow> dynamic_cors \<Rightarrow> 'r \<Rightarrow> string \<Rightarrow> bool" where
  "origin_allowed registry dc r o' = (o' \<in> dc_static_origins dc \<or> fst (registry o' r))"

lemma set_cors_origin [simp]:
  "hv_valid L o' \<Longrightarrow> header_values ACAO (set_cors_headers L o' cfg pre hs) = [o']"
  by (simp add: set_cors_headers_def put_valid_def Let_def split: option.splits)

lemma header_text_visible: "header_text L n hs = Some v \<Longrightarrow> hv_visible L v"
  by (auto simp: header_text_def split: option.splits if_splits)

lemma header_values_Nil [simp]: "header_values n [] = []"
  by (simp add: header_values_def)

text \<open>Cross-origin access is granted to allowed origins only. The allow-origin header the
  middleware writes is the request's own origin, and it is written exactly when that origin is a
  static one or the registry allows it; a preflight is answered 204 without running the service;
  any other request is answered by the service, with its status and body, and keeps the service's
  allow-origin values when the origin is absent or refused.\<close>

theorem cors_echoes_allowed_only:
  assumes lib: "\<And>v. hv_visible L v \<Longrightarrow> hv_valid L v"
    and run: "cors_call L registry dc service rq (r, s) = (res, r', s')"
  shows "(wq_method rq = ''OPTIONS'' \<longrightarrow> s' = s \<and>
       (\<exists>p. res = Inr p \<and> wp_status p = 204 \<and> header_values ACAO (wp_headers p) =
          (case header_text L ''origin'' (wq_headers rq) of
             None \<Rightarrow> [] | Some o' \<Rightarrow> if origin_allowed registry dc r o' then [o'] else [])))
     \<and> (wq_method rq \<noteq> ''OPTIONS'' \<longrightarrow>
       (case service rq s of
          (Inl e, s1) \<Rightarrow> res = Inl e \<and> s' = s1
        | (Inr p0, s1) \<Rightarrow> s' = s1 \<and> (\<exists>p. res = Inr p \<and> wp_status p = wp_status p0 \<and> wp_body p = wp_body p0
            \<and> header_values ACAO (wp_headers p) =
              (case header_text L ''origin'' (wq_headers rq) of
                 None \<Rightarrow> header_values ACAO (wp_headers p0)
               | Some o' \<Rightarrow> if origin_allowed registry dc r o' then [o'] else header_values ACAO (wp_headers p0)))))"
proof -
  let ?origin = "header_text L ''origin'' (wq_headers rq)"
  obtain ao r1 where d: "decide_origin registry dc ?origin r = (ao, r1)" by fastforce
  have ao: "ao = (case ?origin of None \<Rightarrow> None | Some o' \<Rightarrow> if origin_allowed registry dc r o' then Some o' else None)"
    using d by (auto simp: decide_origin_def origin_allowed_def split: option.splits if_splits prod.splits)
  have v: "hv_valid L o'" if "?origin = Some o'" for o'
    using that lib header_text_visible by blast
  show ?thesis
  proof (cases "wq_method rq = ''OPTIONS''")
    case True
    then show ?thesis
      using run d by (cases ?origin) (auto simp: cors_call_def ao Let_def v)
  next
    case False
    obtain r0 s1 where svc: "service rq s = (r0, s1)" by fastforce
    show ?thesis
    proof (cases r0)
      case (Inl e)
      then show ?thesis using run d False svc by (auto simp: cors_call_def Let_def)
    next
      case (Inr p0)
      then show ?thesis
        using run d False svc by (cases ?origin) (auto simp: cors_call_def ao Let_def v)
    qed
  qed
qed

definition demo_origins :: "string set" where
  "demo_origins = origins_with [''https://a.example'']"

theorem cors_echoes_allowed_only_witness:
  "(\<exists>p. fst (cors_call demo_lib memory_is_allowed (dynamic_cors_new cors_default)
          (\<lambda>rq (n :: nat). (Inr \<lparr>wp_status = 200, wp_headers = [], wp_body = Body n\<rparr> :: string + nat http_body web_response, n))
          (demo_request ''GET'' [(''origin'', ''https://a.example'')]) (demo_origins, 3)) = Inr p
        \<and> header_values ACAO (wp_headers p) = [''https://a.example''])"
proof -
  let ?svc = "\<lambda>rq (n :: nat). (Inr \<lparr>wp_status = 200, wp_headers = [], wp_body = Body n\<rparr> :: string + nat http_body web_response, n)"
  let ?rq = "demo_request ''GET'' [(''origin'', ''https://a.example'')]"
  obtain res r' s' where c: "cors_call demo_lib memory_is_allowed (dynamic_cors_new cors_default) ?svc ?rq (demo_origins, 3)
      = (res, r', s')" by (rule prod_cases3)
  have l: "hv_valid demo_lib v" if "hv_visible demo_lib v" for v
    using that by (simp add: demo_lib_def list_all_iff)
  have o: "header_text demo_lib ''origin'' (wq_headers ?rq) = Some ''https://a.example''"
    by (simp add: demo_request_def header_text_def header_get_def demo_lib_def)
  have a: "origin_allowed memory_is_allowed (dynamic_cors_new cors_default) demo_origins ''https://a.example''"
    by (simp add: origin_allowed_def memory_is_allowed_def demo_origins_def origins_with_def origins_insert_def)
  have m: "wq_method ?rq \<noteq> ''OPTIONS''" by (simp add: demo_request_def)
  show ?thesis
    using cors_echoes_allowed_only [OF l c] m a by (auto simp: c o)
qed

section \<open>The caching registry\<close>

text \<open>A history: queries at instants, changes of the inner registry made elsewhere, and
  invalidations. A run collects the answers and the consultations of the inner registry.\<close>

datatype 'r cache_event = Query timestamp string | Change "'r \<Rightarrow> 'r" | InvalidateAll | Invalidate string

definition consulted :: "'r cached_registry \<Rightarrow> timestamp \<Rightarrow> string \<Rightarrow> bool" where
  "consulted c now o' = (case cr_cache c o' of None \<Rightarrow> True | Some (_, t0) \<Rightarrow> cr_ttl c \<le> now - t0)"

fun cache_run :: "'r origin_registry \<Rightarrow> 'r cache_event list \<Rightarrow> 'r cached_registry
    \<Rightarrow> (timestamp \<times> string \<times> bool) list \<times> (timestamp \<times> string \<times> bool) list" where
  "cache_run inner [] c = ([], [])"
| "cache_run inner (Query t o' # es) c =
     (case cached_is_allowed inner t o' c of
        (a, c') \<Rightarrow> (case cache_run inner es c' of
           (answers, lookups) \<Rightarrow>
             ((t, o', a) # answers, if consulted c t o' then (t, o', fst (inner o' (cr_inner c))) # lookups else lookups)))"
| "cache_run inner (Change f # es) c = cache_run inner es (c\<lparr>cr_inner := f (cr_inner c)\<rparr>)"
| "cache_run inner (InvalidateAll # es) c = cache_run inner es (invalidate_all c)"
| "cache_run inner (Invalidate o' # es) c = cache_run inner es (invalidate o' c)"

fun event_times :: "'r cache_event list \<Rightarrow> timestamp list" where
  "event_times (Query t o' # es) = t # event_times es"
| "event_times (_ # es) = event_times es"
| "event_times [] = []"

fun keeps :: "string \<Rightarrow> 'r cache_event \<Rightarrow> bool" where
  "keeps o' InvalidateAll = False"
| "keeps o' (Invalidate o2) = (o2 \<noteq> o')"
| "keeps o' _ = True"

lemma cached_is_allowed_cases:
  assumes "cached_is_allowed inner now o' c = (a, c')"
  shows "if consulted c now o'
    then a = fst (inner o' (cr_inner c)) \<and> c' = c\<lparr>cr_inner := snd (inner o' (cr_inner c)), cr_cache := (cr_cache c)(o' \<mapsto> (a, now))\<rparr>
    else c' = c \<and> (\<exists>t0. cr_cache c o' = Some (a, t0) \<and> now - t0 < cr_ttl c)"
  using assms by (auto simp: cached_is_allowed_def consulted_def Let_def split: option.splits prod.splits if_splits)

lemma cache_answers_fresh:
  assumes "cache_run inner es c = (answers, lookups)" and "sorted (event_times es)"
    and "\<And>o' a t0. cr_cache c o' = Some (a, t0) \<Longrightarrow> (t0, o', a) \<in> L \<and> (\<forall>t \<in> set (event_times es). t0 \<le> t)"
    and "(t, o', a) \<in> set answers" and "0 < cr_ttl c"
  shows "\<exists>t0. (t0, o', a) \<in> L \<union> set lookups \<and> t0 \<le> t \<and> t - t0 < cr_ttl c"
  using assms
proof (induction inner es c arbitrary: answers lookups L rule: cache_run.induct)
  case (2 inner u p es c)
  obtain b c' where q: "cached_is_allowed inner u p c = (b, c')" by fastforce
  obtain as ls where r: "cache_run inner es c' = (as, ls)" by fastforce
  note cs = cached_is_allowed_cases [OF q]
  have ttl: "cr_ttl c' = cr_ttl c" using cs by (auto split: if_splits)
  show ?case
  proof (cases "(t, o', a) = (u, p, b)")
    case True
    show ?thesis
    proof (cases "consulted c u p")
      case c: True
      then have "(u, p, b) \<in> set lookups" using 2(2) q r cs by (auto split: if_splits)
      then show ?thesis using True 2(6) by auto
    next
      case False
      then obtain t0 where "cr_cache c p = Some (b, t0)" "u - t0 < cr_ttl c" using cs by auto
      then show ?thesis using 2(4) [of p b t0] True by auto
    qed
  next
    case False
    let ?L = "L \<union> (if consulted c u p then {(u, p, b)} else {})"
    have "(t, o', a) \<in> set as" using 2(2,5) q r False by (auto split: if_splits)
    moreover have "(t0, o2, a2) \<in> ?L \<and> (\<forall>t \<in> set (event_times es). t0 \<le> t)" if "cr_cache c' o2 = Some (a2, t0)" for o2 a2 t0
      using that cs 2(3) 2(4) [of o2 a2 t0] by (auto split: if_splits)
    ultimately obtain t0 where "(t0, o', a) \<in> ?L \<union> set ls" "t0 \<le> t" "t - t0 < cr_ttl c"
      using 2(1) [OF q [symmetric] r, of ?L] 2(3,6) ttl by (auto split: if_splits)
    then show ?thesis using 2(2) q r cs by (auto split: if_splits)
  qed
next
  case (4 inner es c)
  then show ?case by (auto simp: invalidate_all_def)
next
  case (5 inner p es c)
  have "cr_ttl (invalidate p c) = cr_ttl c" by (simp add: invalidate_def)
  moreover have "cr_cache (invalidate p c) o2 = Some x \<Longrightarrow> cr_cache c o2 = Some x" for o2 x
    by (auto simp: invalidate_def split: if_splits)
  ultimately show ?case using 5(1) [of answers lookups L] 5(2-) by (simp, blast)
qed auto

definition lookup_times :: "string \<Rightarrow> (timestamp \<times> string \<times> bool) list \<Rightarrow> timestamp list" where
  "lookup_times o' ls = map fst (filter (\<lambda>(_, p, _). p = o') ls)"

text \<open>While nobody invalidates an origin, two consultations of the inner registry about it lie at
  least the time to live apart.\<close>

lemma cache_lookups_spaced:
  assumes "cache_run inner es c = (answers, lookups)" and "list_all (keeps o') es" and "0 < cr_ttl c"
  shows "sorted_wrt (\<lambda>t u. t + cr_ttl c \<le> u) (lookup_times o' lookups)
    \<and> (\<forall>a t0. cr_cache c o' = Some (a, t0) \<longrightarrow> (\<forall>t \<in> set (lookup_times o' lookups). t0 + cr_ttl c \<le> t))"
  using assms
proof (induction inner es c arbitrary: answers lookups rule: cache_run.induct)
  case (2 inner u p es c)
  obtain b c' where q: "cached_is_allowed inner u p c = (b, c')" by fastforce
  obtain as ls where r: "cache_run inner es c' = (as, ls)" by fastforce
  note cs = cached_is_allowed_cases [OF q]
  have ttl: "cr_ttl c' = cr_ttl c" using cs by (auto split: if_splits)
  have ih: "sorted_wrt (\<lambda>t u. t + cr_ttl c \<le> u) (lookup_times o' ls)
    \<and> (\<forall>a t0. cr_cache c' o' = Some (a, t0) \<longrightarrow> (\<forall>t \<in> set (lookup_times o' ls). t0 + cr_ttl c \<le> t))"
    using 2(1) [OF q [symmetric] r] 2(3,4) ttl by simp
  have ls: "lookups = (if consulted c u p then (u, p, fst (inner p (cr_inner c))) # ls else ls)"
    using 2(2) q r by auto
  show ?case
  proof (cases "consulted c u p \<and> p = o'")
    case True
    then have "\<forall>t \<in> set (lookup_times o' ls). u + cr_ttl c \<le> t"
      using ih cs by auto
    moreover have "t0 + cr_ttl c \<le> u" if "cr_cache c o' = Some (a, t0)" for a t0
      using True that by (auto simp: consulted_def)
    ultimately show ?thesis using True ih ls 2(4) by (fastforce simp: lookup_times_def)
  next
    case False
    then have "cr_cache c' o' = cr_cache c o'" using cs by (auto split: if_splits)
    then show ?thesis using ih ls False by (auto simp: lookup_times_def)
  qed
next
  case (5 inner p es c)
  then show ?case by (auto simp: invalidate_def)
qed (auto simp: lookup_times_def)

text \<open>The cache bounds both staleness and load. With a positive time to live and queries at
  instants in order, every answer is what the inner registry said about that origin at a
  consultation less than the time to live before; and while an origin is not invalidated its
  consultations lie at least the time to live apart.\<close>

theorem cors_cache_fresh_and_cheap:
  fixes inner :: "'r origin_registry"
  assumes "cache_run inner es (cached_new r ttl) = (answers, lookups)" and "sorted (event_times es)" and "0 < ttl"
  shows "(\<forall>t o' a. (t, o', a) \<in> set answers \<longrightarrow> (\<exists>t0. (t0, o', a) \<in> set lookups \<and> t0 \<le> t \<and> t - t0 < ttl))
    \<and> (list_all (keeps p) es \<longrightarrow> sorted_wrt (\<lambda>t u. t + ttl \<le> u) (lookup_times p lookups))"
  using cache_answers_fresh [OF assms(1,2), where L = "{}"] cache_lookups_spaced [OF assms(1)] assms(3)
  by (simp add: cached_new_def)

theorem cors_cache_fresh_and_cheap_witness:
  "\<exists>ls. cache_run memory_is_allowed [Query 0 ''a'', Change (origins_insert ''a''), Query 4 ''a'', Query 5 ''a'']
          (cached_new {} 5) = ([(0, ''a'', False), (4, ''a'', False), (5, ''a'', True)], ls)
     \<and> sorted_wrt (\<lambda>t u. t + 5 \<le> u) (lookup_times ''a'' ls)"
proof -
  have r: "cache_run memory_is_allowed [Query 0 ''a'', Change (origins_insert ''a''), Query 4 ''a'', Query 5 ''a'']
      (cached_new {} 5) = ([(0, ''a'', False), (4, ''a'', False), (5, ''a'', True)], [(0, ''a'', False), (5, ''a'', True)])"
    by (simp add: cached_is_allowed_def cached_new_def memory_is_allowed_def consulted_def origins_insert_def)
  show ?thesis
    using cors_cache_fresh_and_cheap [OF r, of "''a''"] r by simp
qed

end
