(* ===== verification/WebRateLimit.thy ===== *)
theory WebRateLimit
  imports RateLimit Csrf
begin

text \<open>
  The rate-limit middleware (\<open>klauthed-web/src/ratelimit\<close>): how a request is mapped to a bucket
  and how the outcome of the limiter becomes an answer. The limiter is any function of the key,
  the limit, the window and its state; the last section runs the middleware on the in-memory
  limiter of \<open>RateLimit\<close>.
\<close>

datatype key_by = PeerIp | Header string | Principal | OAuthClient

definition peer_ip :: "web_request \<Rightarrow> string" where
  "peer_ip rq = (case wq_peer rq of Some ip \<Rightarrow> ip | None \<Rightarrow> ''unknown'')"

definition key_for :: "header_lib \<Rightarrow> key_by \<Rightarrow> web_request \<Rightarrow> string" where
  "key_for L k rq =
     (case k of
        PeerIp \<Rightarrow> peer_ip rq
      | Header name \<Rightarrow> (case header_text L (to_lowercase name) (wq_headers rq) of Some s \<Rightarrow> s | None \<Rightarrow> ''anonymous'')
      | Principal \<Rightarrow> (case Option.bind (wq_claims rq) c_sub of Some s \<Rightarrow> s | None \<Rightarrow> peer_ip rq)
      | OAuthClient \<Rightarrow>
          (case Option.bind (wq_claims rq) (\<lambda>c. Option.bind (c_custom c ''client_id'') json_as_str) of
             Some s \<Rightarrow> s | None \<Rightarrow> peer_ip rq))"

type_synonym 'l limiter = "string \<Rightarrow> u32 \<Rightarrow> nat \<Rightarrow> 'l \<Rightarrow> (data_error + rate_limit_outcome) \<times> 'l"

record rate_limit =
  rt_max_requests :: u32
  rt_window :: nat
  rt_key_by :: key_by

definition rate_limit_with_store :: "u32 \<Rightarrow> nat \<Rightarrow> rate_limit" where
  "rate_limit_with_store max_requests window =
     \<lparr>rt_max_requests = max max_requests 1, rt_window = window, rt_key_by = PeerIp\<rparr>"

definition set_key_by :: "key_by \<Rightarrow> rate_limit \<Rightarrow> rate_limit" where
  "set_key_by k r = r\<lparr>rt_key_by := k\<rparr>"

text \<open>\<open>RateLimitService::call\<close>; a limiter that fails lets the request through.\<close>

definition rate_limit_call ::
  "header_lib \<Rightarrow> 'l limiter \<Rightarrow> rate_limit \<Rightarrow> ('s, 'e, 'b http_body) service \<Rightarrow> ('l \<times> 's, 'e, 'b http_body) service" where
  "rate_limit_call L limiter cfg service rq ls =
     (let (l, s) = ls;
          key = key_for L (rt_key_by cfg) rq
      in case limiter key (rt_max_requests cfg) (rt_window cfg) l of
           (Inr (Allowed _), l') \<Rightarrow> (case service rq s of (r, s') \<Rightarrow> (r, l', s'))
         | (Inr (Limited retry_after), l') \<Rightarrow>
             (let secs = max (retry_after div 1000) 1;
                  resp = web_error (too_many_requests (''rate limit exceeded; retry after '' @ show_nat secs @ ''s''));
                  resp = (if hv_valid L (show_nat secs)
                          then resp\<lparr>wp_headers := header_insert ''retry-after'' (show_nat secs) (wp_headers resp)\<rparr>
                          else resp)
              in (Inr resp, l', s))
         | (Inl error, l') \<Rightarrow> (case service rq s of (r, s') \<Rightarrow> (r, l', s')))"

section \<open>Refusals\<close>

text \<open>A refused request leaves the service alone and is told when to retry: 429 with a
  \<open>Retry-After\<close> of at least one second.\<close>

lemma rate_limit_refusal:
  assumes "limiter (key_for L (rt_key_by cfg) rq) (rt_max_requests cfg) (rt_window cfg) l = (Inr (Limited w), l')"
    and "hv_valid L (show_nat (max (w div 1000) 1))"
  shows "\<exists>res. rate_limit_call L limiter cfg service rq (l, s) = (Inr res, l', s)
    \<and> wp_status res = 429 \<and> header_values ''retry-after'' (wp_headers res) = [show_nat (max (w div 1000) 1)]"
  using assms by (simp add: rate_limit_call_def app_error_defs Let_def)

text \<open>The hint is rounded down: a window with 1999 milliseconds left is announced as one second, so
  a client that obeys it comes back while the window is still closed.\<close>

lemma retry_after_rounds_down:
  assumes "limiter (key_for L (rt_key_by cfg) rq) (rt_max_requests cfg) (rt_window cfg) l = (Inr (Limited 1999), l')"
    and "hv_valid L (show_nat 1)"
  shows "\<exists>res. rate_limit_call L limiter cfg service rq (l, s) = (Inr res, l', s)
    \<and> header_values ''retry-after'' (wp_headers res) = [show_nat 1]"
  using rate_limit_refusal [where limiter = limiter, OF assms(1), of service s] assms(2) by auto

section \<open>The middleware over the in-memory limiter\<close>

text \<open>Requests at instants, run in order; \<open>served\<close> counts the requests of bucket \<open>k\<close> that reach
  the wrapped service, which counts its calls per bucket.\<close>

definition counting_service :: "header_lib \<Rightarrow> key_by \<Rightarrow> (string \<Rightarrow> nat, string, nat http_body) service" where
  "counting_service L kb rq n =
     (Inr \<lparr>wp_status = 200, wp_headers = [], wp_body = NoBody\<rparr>, n(key_for L kb rq := Suc (n (key_for L kb rq))))"

fun serve_all :: "header_lib \<Rightarrow> rate_limit \<Rightarrow> (timestamp \<times> web_request) list \<Rightarrow> rate_limiter \<times> (string \<Rightarrow> nat)
    \<Rightarrow> rate_limiter \<times> (string \<Rightarrow> nat)" where
  "serve_all L cfg [] ls = ls"
| "serve_all L cfg ((t, rq) # rqs) ls =
     serve_all L cfg rqs (snd (rate_limit_call L (rl_check t) cfg (counting_service L (rt_key_by cfg)) rq ls))"

lemma serve_all_admitted:
  "snd (serve_all L cfg rqs (m, n)) k =
     n k + admitted k (rt_max_requests cfg) (rt_window cfg) (map (\<lambda>(t, rq). (t, key_for L (rt_key_by cfg) rq)) rqs) m"
proof (induction rqs arbitrary: m n)
  case (Cons x rqs)
  obtain t rq where x: "x = (t, rq)" by fastforce
  let ?key = "key_for L (rt_key_by cfg) rq"
  obtain r m' where ck: "rl_check t ?key (rt_max_requests cfg) (rt_window cfg) m = (r, m')" by fastforce
  then consider y where "r = Inr (Allowed y)" | w where "r = Inr (Limited w)"
    by (auto simp: rl_check_def Let_def split: if_splits)
  then show ?case
  proof cases
    case 1
    then show ?thesis
      using ck by (simp add: x rate_limit_call_def counting_service_def Cons.IH Let_def)
  next
    case 2
    then show ?thesis
      using ck by (simp add: x rate_limit_call_def counting_service_def Cons.IH Let_def)
  qed
qed simp

lemma serve_all_append: "serve_all L cfg (xs @ ys) ls = serve_all L cfg ys (serve_all L cfg xs ls)"
  by (induction L cfg xs ls rule: serve_all.induct) simp_all

lemma rate_limit_call_state:
  "fst (snd (rate_limit_call L limiter cfg service rq (l, s)))
     = snd (limiter (key_for L (rt_key_by cfg) rq) (rt_max_requests cfg) (rt_window cfg) l)"
  by (auto simp: rate_limit_call_def Let_def split: prod.split sum.split rate_limit_outcome.split)

lemma serve_all_ok:
  "\<lbrakk>rl_ok (limit (rt_max_requests cfg)) t m; sorted (map fst rqs); \<forall>x \<in> set rqs. t \<le> fst x \<and> fst x \<le> t'; t \<le> t'\<rbrakk> \<Longrightarrow>
   rl_ok (limit (rt_max_requests cfg)) t' (fst (serve_all L cfg rqs (m, n)))"
proof (induction rqs arbitrary: m n t)
  case Nil
  then show ?case by (force simp: rl_ok_def)
next
  case (Cons x rqs)
  obtain now rq where x: "x = (now, rq)" by fastforce
  obtain r m' n' where call: "rate_limit_call L (rl_check now) cfg (counting_service L (rt_key_by cfg)) rq (m, n) = (r, m', n')"
    by (metis prod_cases3)
  have "m' = snd (rl_check now (key_for L (rt_key_by cfg) rq) (rt_max_requests cfg) (rt_window cfg) m)"
    using rate_limit_call_state [of L "rl_check now" cfg "counting_service L (rt_key_by cfg)" rq m n] call by simp
  with Cons.prems(1,3) x have "rl_ok (limit (rt_max_requests cfg)) now m'"
    by (intro rl_check_ok [OF Cons.prems(1)]) (auto simp: prod_eq_iff)
  with Cons.IH [of now m' n'] Cons.prems(2,3) x call show ?case by simp
qed

text \<open>A history from a new limiter, and the calls of the wrapped service per bucket.\<close>

definition limited_run ::
  "header_lib \<Rightarrow> key_by \<Rightarrow> u32 \<Rightarrow> nat \<Rightarrow> (timestamp \<times> web_request) list \<Rightarrow> rate_limiter \<times> (string \<Rightarrow> nat)" where
  "limited_run L kb mx window rqs = serve_all L (set_key_by kb (rate_limit_with_store mx window)) rqs (rl_new, \<lambda>_. 0)"

text \<open>C17: the middleware enforces the configured budget, at every point of its life. Take the in-memory
  limiter, a window of at least a millisecond and a maximum (never taken as less than one), and any
  history of requests at instants in order, of which the part \<open>rqs\<close> lies between the instants \<open>t0\<close> and
  \<open>T\<close>. The requests of one bucket that reach the wrapped service in that part number at most the maximum
  times two plus the whole windows that fit between \<open>t0\<close> and \<open>T\<close>, so at most twice the maximum in
  any stretch shorter than a window. When the bucket has no open window at \<open>t0\<close> they number at most the
  maximum times one plus those windows, so at most the maximum in the window that starts there; and
  when its open window lasts beyond \<open>T\<close> they number at most what is left of the maximum in it.\<close>

theorem rate_limited_service_budget:
  assumes "0 < window_core window" and "run = limited_run L kb mx window" and "sorted (map fst (pre @ rqs))" and "\<forall>x \<in> set rqs. t0 \<le> fst x \<and> fst x \<le> T"
    and "\<forall>x \<in> set pre. fst x \<le> t0"
  shows "snd (run (pre @ rqs)) k \<le> snd (run pre) k + max (unat mx) 1 * (2 + nat ((T - t0) div window_core window))
    \<and> ((\<forall>e. fst (run pre) k = Some e \<longrightarrow> win_started e + window_core window \<le> t0) \<longrightarrow>
       snd (run (pre @ rqs)) k \<le> snd (run pre) k + max (unat mx) 1 * (1 + nat ((T - t0) div window_core window)))
    \<and> (\<forall>e. fst (run pre) k = Some e \<and> T < win_started e + window_core window \<longrightarrow>
       snd (run (pre @ rqs)) k \<le> snd (run pre) k + (max (unat mx) 1 - unat (win_count e)))"
proof -
  let ?cfg = "set_key_by kb (rate_limit_with_store mx window)"
  let ?cs = "map (\<lambda>(t, rq). (t, key_for L (rt_key_by ?cfg) rq)) rqs"
  have cfg: "rt_max_requests ?cfg = max mx 1" "rt_window ?cfg = window"
    by (simp_all add: set_key_by_def rate_limit_with_store_def)
  have lim: "limit (max mx 1) = max (unat mx) 1" using unat_max_1 [of mx] by (simp add: limit_def)
  have served: "snd (run (pre @ rqs)) k = snd (run pre) k + admitted k (max mx 1) window ?cs (fst (run pre))"
    using serve_all_admitted [of L ?cfg rqs "fst (run pre)" "snd (run pre)" k]
    by (simp add: assms(2) limited_run_def serve_all_append cfg)
  have fsts: "map fst ?cs = map fst rqs" by (induction rqs) auto
  have cs: "sorted (map fst ?cs)" unfolding fsts using assms(3) by (simp add: sorted_append)
  have ts: "\<forall>x \<in> set ?cs. t0 \<le> fst x \<and> fst x \<le> T" using assms(4) by auto
  have "rl_ok (limit (rt_max_requests ?cfg)) t0 (fst (run pre))" unfolding assms(2) limited_run_def
  proof (cases pre)
    case (Cons x xs)
    then have "sorted (map fst pre)" "\<forall>y \<in> set pre. fst x \<le> fst y \<and> fst y \<le> t0" "fst x \<le> t0"
      using assms(3,5) by (auto simp: sorted_append)
    then show "rl_ok (limit (rt_max_requests ?cfg)) t0 (fst (serve_all L ?cfg pre (rl_new, \<lambda>_. 0)))"
      by (intro serve_all_ok [where t = "fst x"]) (auto simp: rl_ok_def rl_new_def)
  qed (simp add: rl_ok_def rl_new_def)
  then have ok: "rl_ok (limit (max mx 1)) t0 (fst (run pre))" unfolding cfg .
  note bounds = admitted_open [OF assms(1) cs ts ok, of k, unfolded lim]
    admitted_fresh [OF assms(1) cs ts, of "fst (run pre)" k "max mx 1", unfolded lim]
  show ?thesis unfolding served using bounds by auto
qed

text \<open>Two per second: of three requests within a second the third is refused, and a second later the bucket
  is open again.\<close>

definition demo_key_request :: web_request where
  "demo_key_request = demo_request ''GET'' [(''x-api-key'', ''u'')]"

theorem rate_limited_service_budget_witness:
  "snd (limited_run demo_lib (Header ''x-api-key'') 2 1000000000 [(0, demo_key_request), (5, demo_key_request), (7, demo_key_request)]) ''u'' \<le> 2
   \<and> snd (limited_run demo_lib (Header ''x-api-key'') 2 1000000000
        [(0, demo_key_request), (1000000005, demo_key_request), (1000000007, demo_key_request)]) ''u'' \<le> 5"
proof -
  let ?run = "limited_run demo_lib (Header ''x-api-key'') 2 1000000000" and ?r = demo_key_request
  have w: "0 < window_core 1000000000" "window_core 1000000000 = 1000000000"
    by (simp_all add: window_core_def milliseconds_def)
  have "snd (?run []) ''u'' = 0" "fst (?run []) ''u'' = None" by (simp_all add: limited_run_def rl_new_def)
  then have "snd (?run ([] @ [(0, ?r), (5, ?r), (7, ?r)])) ''u'' \<le> 2"
    using rate_limited_service_budget [OF w(1) refl, of "[]" "[(0, ?r), (5, ?r), (7, ?r)]" 0 7 demo_lib "Header ''x-api-key''" 2 "''u''"]
      w(2) by simp
  moreover have "snd (?run [(0, ?r)]) ''u'' \<le> 1"
    by (simp add: limited_run_def rate_limit_call_def counting_service_def Let_def split: prod.split sum.split rate_limit_outcome.split)
  then have "snd (?run ([(0, ?r)] @ [(1000000005, ?r), (1000000007, ?r)])) ''u'' \<le> 5"
    using rate_limited_service_budget [OF w(1) refl, of "[(0, ?r)]" "[(1000000005, ?r), (1000000007, ?r)]" 1000000005 1000000007
        demo_lib "Header ''x-api-key''" 2 "''u''"] w(2) by simp
  ultimately show ?thesis by simp
qed

end
