(* ===== verification/I18n.thy ===== *)
theory I18n
  imports OrderedMap Prelude
begin

text \<open>
  Message catalogs and translation (\<open>klauthed-i18n/src\<close>): locales, catalogs flattened from TOML
  tables, interpolation of \<open>{name}\<close> placeholders and the fallback chain. The TOML parser and the
  file system are parameters.
\<close>

section \<open>Locales\<close>

type_synonym locale_tag = string

definition locale_normalize :: "string \<Rightarrow> string" where
  "locale_normalize tag = map (\<lambda>c. if c = CHR ''_'' then CHR ''-'' else c) (to_lowercase (str_trim tag))"

definition locale_new :: "string \<Rightarrow> locale_tag" where
  "locale_new tag = locale_normalize tag"

text \<open>\<open>split_once(['-', '_'])\<close> keeps what precedes the first separator.\<close>

definition locale_primary :: "locale_tag \<Rightarrow> locale_tag" where
  "locale_primary l =
     (if list_ex (\<lambda>c. c = CHR ''-'' \<or> c = CHR ''_'') l
      then takeWhile (\<lambda>c. \<not> (c = CHR ''-'' \<or> c = CHR ''_'')) l else l)"

definition has_region :: "locale_tag \<Rightarrow> bool" where
  "has_region l = list_ex (\<lambda>c. c = CHR ''-'' \<or> c = CHR ''_'') l"

section \<open>Catalogs\<close>

datatype toml_value = TString string | TTable "(string \<times> toml_value) list" | TOther

datatype i18n_error = I18n_Parse string string | I18n_Io string string

type_synonym catalog = "(string \<times> string) list"

fun flatten :: "(string \<times> toml_value) list \<Rightarrow> string \<Rightarrow> catalog \<Rightarrow> catalog" where
  "flatten [] pre out = out"
| "flatten ((key, TString text) # tbl) pre out =
     flatten tbl pre (bt_insert (if pre = [] then key else pre @ ''.'' @ key) text out)"
| "flatten ((key, TTable child) # tbl) pre out =
     flatten tbl pre (flatten child (if pre = [] then key else pre @ ''.'' @ key) out)"
| "flatten ((key, TOther) # tbl) pre out = flatten tbl pre out"

definition catalog_from_toml ::
  "(string \<Rightarrow> string + (string \<times> toml_value) list) \<Rightarrow> string \<Rightarrow> string \<Rightarrow> i18n_error + catalog" where
  "catalog_from_toml parse loc toml_str =
     (case parse toml_str of Inl e \<Rightarrow> Inl (I18n_Parse loc e) | Inr tbl \<Rightarrow> Inr (flatten tbl [] []))"

definition catalog_get :: "catalog \<Rightarrow> string \<Rightarrow> string option" where
  "catalog_get c key = map_of c key"

definition catalog_merge :: "catalog \<Rightarrow> catalog \<Rightarrow> catalog" where
  "catalog_merge c other = fold (\<lambda>(k, v). bt_insert k v) other c"

section \<open>Interpolation\<close>

type_synonym args = "string \<rightharpoonup> string"

definition args_set :: "string \<Rightarrow> string \<Rightarrow> args \<Rightarrow> args" where
  "args_set k v a = a(k \<mapsto> v)"

text \<open>The inner loop: the characters up to the closing brace, whether there was one, and the
  rest.\<close>

fun take_name :: "string \<Rightarrow> string \<times> bool \<times> string" where
  "take_name [] = ([], False, [])"
| "take_name (c # cs) =
     (if c = CHR ''}'' then ([], True, cs)
      else (case take_name cs of (name, closed, rest) \<Rightarrow> (c # name, closed, rest)))"

lemma take_name_shorter: "take_name s = (name, closed, rest) \<Longrightarrow> length rest \<le> length s"
  by (induction s arbitrary: name) (auto split: if_splits prod.splits intro: le_SucI)

function interpolate :: "args \<Rightarrow> string \<Rightarrow> string" where
  "interpolate args [] = []"
| "interpolate args (ch # chars) =
     (if ch = CHR ''{'' \<and> chars \<noteq> [] \<and> hd chars = CHR ''{'' then CHR ''{'' # interpolate args (tl chars)
      else if ch = CHR ''}'' \<and> chars \<noteq> [] \<and> hd chars = CHR ''}'' then CHR ''}'' # interpolate args (tl chars)
      else if ch = CHR ''{'' then
        (case take_name chars of
           (name, closed, rest) \<Rightarrow>
             (case (closed, args (str_trim name)) of
                (True, Some value) \<Rightarrow> value
              | (True, None) \<Rightarrow> ''{'' @ name @ ''}''
              | (False, _) \<Rightarrow> ''{'' @ name) @ interpolate args rest)
      else ch # interpolate args chars)"
  by pat_completeness auto
termination
  by (relation "measure (\<lambda>(_, s). length s)") (auto dest: take_name_shorter [OF sym] simp: less_Suc_eq_le)

declare interpolate.simps(2) [simp del]

section \<open>Translation\<close>

record i18n =
  in_catalogs :: "locale_tag \<rightharpoonup> catalog"
  in_default :: locale_tag

definition i18n_builder_new :: i18n where
  "i18n_builder_new = \<lparr>in_catalogs = Map.empty, in_default = locale_new ''en''\<rparr>"

definition set_default_locale :: "string \<Rightarrow> i18n \<Rightarrow> i18n" where
  "set_default_locale tag b = b\<lparr>in_default := locale_new tag\<rparr>"

definition add_catalog ::
  "(string \<Rightarrow> string + (string \<times> toml_value) list) \<Rightarrow> string \<Rightarrow> string \<Rightarrow> i18n \<Rightarrow> i18n_error + i18n" where
  "add_catalog parse tag toml_str b =
     (let loc = locale_new tag
      in case catalog_from_toml parse loc toml_str of
           Inl e \<Rightarrow> Inl e
         | Inr c \<Rightarrow>
             (let old = (case in_catalogs b loc of Some c0 \<Rightarrow> c0 | None \<Rightarrow> [])
              in Inr (b\<lparr>in_catalogs := (in_catalogs b)(loc \<mapsto> catalog_merge old c)\<rparr>)))"

text \<open>\<open>embedded_defaults\<close> and the loop of \<open>load_dir\<close>: catalogs added in order, the first error
  ends the loop. A directory entry is its stem and, when the extension is \<open>toml\<close>, the outcome of
  reading it.\<close>

fun add_catalogs ::
  "(string \<Rightarrow> string + (string \<times> toml_value) list) \<Rightarrow> (string \<times> string) list \<Rightarrow> i18n \<Rightarrow> i18n_error + i18n" where
  "add_catalogs parse [] b = Inr b"
| "add_catalogs parse ((tag, toml_str) # rest) b =
     (case add_catalog parse tag toml_str b of Inl e \<Rightarrow> Inl e | Inr b' \<Rightarrow> add_catalogs parse rest b')"

record dir_entry =
  de_path :: string
  de_ext :: "string option"
  de_stem :: "string option"
  de_text :: "string + string"

fun load_entries ::
  "(string \<Rightarrow> string + (string \<times> toml_value) list) \<Rightarrow> string \<Rightarrow> (string + dir_entry) list \<Rightarrow> i18n \<Rightarrow> i18n_error + i18n" where
  "load_entries parse dir [] b = Inr b"
| "load_entries parse dir (Inl e # es) b = Inl (I18n_Io dir e)"
| "load_entries parse dir (Inr d # es) b =
     (if de_ext d \<noteq> Some ''toml'' then load_entries parse dir es b
      else (case de_stem d of
              None \<Rightarrow> load_entries parse dir es b
            | Some stem \<Rightarrow>
                (case de_text d of
                   Inl e \<Rightarrow> Inl (I18n_Io (de_path d) e)
                 | Inr text \<Rightarrow>
                     (case add_catalog parse stem text b of
                        Inl e \<Rightarrow> Inl e | Inr b' \<Rightarrow> load_entries parse dir es b'))))"

definition load_dir ::
  "(string \<Rightarrow> string + (string \<times> toml_value) list) \<Rightarrow> string \<Rightarrow> string + (string + dir_entry) list \<Rightarrow> i18n \<Rightarrow> i18n_error + i18n" where
  "load_dir parse dir entries b =
     (case entries of Inl e \<Rightarrow> Inl (I18n_Io dir e) | Inr es \<Rightarrow> load_entries parse dir es b)"

definition message_in :: "i18n \<Rightarrow> locale_tag \<Rightarrow> string \<Rightarrow> string option" where
  "message_in i loc key = (case in_catalogs i loc of None \<Rightarrow> None | Some c \<Rightarrow> catalog_get c key)"

definition i18n_resolve :: "i18n \<Rightarrow> locale_tag \<Rightarrow> string \<Rightarrow> string option" where
  "i18n_resolve i loc key =
     (case message_in i loc key of
        Some m \<Rightarrow> Some m
      | None \<Rightarrow>
          (let primary = locale_primary loc
           in case (if primary \<noteq> loc then message_in i primary key else None) of
                Some m \<Rightarrow> Some m
              | None \<Rightarrow> message_in i (in_default i) key))"

definition translate_with :: "i18n \<Rightarrow> locale_tag \<Rightarrow> string \<Rightarrow> args \<Rightarrow> string" where
  "translate_with i loc key a =
     (case i18n_resolve i loc key of Some template \<Rightarrow> interpolate a template | None \<Rightarrow> key)"

definition translate :: "i18n \<Rightarrow> locale_tag \<Rightarrow> string \<Rightarrow> string" where
  "translate i loc key = translate_with i loc key Map.empty"

section \<open>Templates as the author writes them\<close>

text \<open>A template is literal text and named holes; it is written down with the braces of the literal
  text doubled.\<close>

datatype part = Lit string | Hole string

definition escape :: "string \<Rightarrow> string" where
  "escape s = concat (map (\<lambda>c. if c = CHR ''{'' \<or> c = CHR ''}'' then [c, c] else [c]) s)"

fun write_part :: "part \<Rightarrow> string" where
  "write_part (Lit s) = escape s"
| "write_part (Hole n) = ''{'' @ n @ ''}''"

fun render_part :: "args \<Rightarrow> part \<Rightarrow> string" where
  "render_part a (Lit s) = s"
| "render_part a (Hole n) = (case a (str_trim n) of Some v \<Rightarrow> v | None \<Rightarrow> ''{'' @ n @ ''}'')"

fun part_ok :: "part \<Rightarrow> bool" where
  "part_ok (Lit s) = True"
| "part_ok (Hole n) = (CHR ''}'' \<notin> set n \<and> (n = [] \<or> hd n \<noteq> CHR ''{''))"

lemma interpolate_escape: "interpolate a (escape s @ r) = s @ interpolate a r"
  by (induction s) (simp_all add: escape_def interpolate.simps(2))

lemma take_name_append: "CHR ''}'' \<notin> set n \<Longrightarrow> take_name (n @ CHR ''}'' # r) = (n, True, r)"
  by (induction n) auto

lemma interpolate_hole:
  assumes "part_ok (Hole n)"
  shows "interpolate a (''{'' @ n @ ''}'' @ r) = render_part a (Hole n) @ interpolate a r"
proof -
  have "take_name (n @ CHR ''}'' # r) = (n, True, r)" using assms by (simp add: take_name_append)
  moreover have "n = [] \<or> hd (n @ CHR ''}'' # r) \<noteq> CHR ''{''" using assms by auto
  ultimately show ?thesis
    by (auto simp: interpolate.simps(2) [of a "CHR ''{''"] split: option.splits)
qed

text \<open>Interpolation renders the template its author wrote. For any sequence of literal texts, with
  braces in them doubled, and holes whose names contain no brace, the interpolated text is the literal
  text unchanged and each hole replaced by its argument, or left as written when there is none.\<close>

theorem interpolate_renders:
  assumes "list_all part_ok ps"
  shows "interpolate a (concat (map write_part ps)) = concat (map (render_part a) ps)"
  using assms
proof (induction ps)
  case (Cons p ps)
  then show ?case
  proof (cases p)
    case (Hole n)
    then show ?thesis
      using interpolate_hole [of n a "concat (map write_part ps)"] Cons by simp
  qed (simp add: interpolate_escape)
qed simp

theorem interpolate_renders_witness:
  "interpolate [''n'' \<mapsto> ''Bob''] ''Hi {n}, {{x}} {y}'' = ''Hi Bob, {x} {y}''"
  using interpolate_renders [of "[Lit ''Hi '', Hole ''n'', Lit '', {x} '', Hole ''y'']" "[''n'' \<mapsto> ''Bob'']"]
  by (simp add: escape_def str_trim_def is_ws_def)

text \<open>The fallback chain: the locale itself, its primary language, the default, the key.\<close>

lemma translate_fallback:
  "message_in i loc key = None \<Longrightarrow> message_in i (locale_primary loc) key = None \<Longrightarrow>
   message_in i (in_default i) key = None \<Longrightarrow> translate_with i loc key a = key"
  "message_in i loc key = Some m \<Longrightarrow> translate_with i loc key a = interpolate a m"
  "message_in i loc key = None \<Longrightarrow> message_in i (locale_primary loc) key = Some m \<Longrightarrow>
   translate_with i loc key a = interpolate a m"
  by (auto simp: translate_with_def i18n_resolve_def Let_def)

text \<open>A later catalog of a locale overrides the keys it defines and keeps the others.\<close>

lemma map_of_catalog_merge: "catalog_get (catalog_merge c other) k =
    (case map_of (rev other) k of Some v \<Rightarrow> Some v | None \<Rightarrow> catalog_get c k)"
  by (induction other arbitrary: c) (auto simp: catalog_merge_def catalog_get_def map_add_def split: option.splits)

end
