(* ===== verification/Domain.thy ===== *)
theory Domain
  imports RequestCtx ErrorKernel
begin

text \<open>
  Aggregates and their event log (\<open>klauthed-core/src/domain\<close>), the message buses
  (\<open>klauthed-core/src/cqrs\<close>) and the in-memory repository (\<open>klauthed-testing/src/repository.rs\<close>).
  The version is a \<open>u64\<close>. An aggregate is its id, its event log and the state of the concrete
  type; a message bus is keyed by the message's type, here the value of \<open>tag\<close> on the message.
\<close>

section \<open>Event log\<close>

record 'e event_log =
  el_pending :: "'e list"
  el_version :: u64

definition log_new :: "'e event_log" where
  "log_new = \<lparr>el_pending = [], el_version = 0\<rparr>"

definition log_with_version :: "u64 \<Rightarrow> 'e event_log" where
  "log_with_version v = \<lparr>el_pending = [], el_version = v\<rparr>"

definition log_record :: "'e \<Rightarrow> 'e event_log \<Rightarrow> 'e event_log" where
  "log_record e l = l\<lparr>el_pending := el_pending l @ [e], el_version := el_version l + 1\<rparr>"

definition log_take :: "'e event_log \<Rightarrow> 'e list \<times> 'e event_log" where
  "log_take l = (el_pending l, l\<lparr>el_pending := []\<rparr>)"

section \<open>Aggregates\<close>

record 'e event_envelope =
  ee_event_id :: typed_id
  ee_event_type :: string
  ee_aggregate_id :: string
  ee_aggregate_type :: string
  ee_sequence :: u64
  ee_occurred_at :: timestamp
  ee_payload :: 'e

definition envelope_new ::
  "('e \<Rightarrow> string) \<Rightarrow> typed_id \<Rightarrow> string \<Rightarrow> string \<Rightarrow> u64 \<Rightarrow> timestamp \<Rightarrow> 'e \<Rightarrow> 'e event_envelope" where
  "envelope_new event_type fresh aggregate_id aggregate_type sequence occurred_at payload =
     \<lparr>ee_event_id = fresh, ee_event_type = event_type payload, ee_aggregate_id = aggregate_id,
      ee_aggregate_type = aggregate_type, ee_sequence = sequence, ee_occurred_at = occurred_at, ee_payload = payload\<rparr>"

record ('e, 'a) aggregate =
  ag_id :: string
  ag_log :: "'e event_log"
  ag_state :: 'a

definition agg_record :: "'e \<Rightarrow> ('e, 'a) aggregate \<Rightarrow> ('e, 'a) aggregate" where
  "agg_record e a = a\<lparr>ag_log := log_record e (ag_log a)\<rparr>"

definition take_events :: "('e, 'a) aggregate \<Rightarrow> 'e list \<times> ('e, 'a) aggregate" where
  "take_events a = (case log_take (ag_log a) of (es, l) \<Rightarrow> (es, a\<lparr>ag_log := l\<rparr>))"

text \<open>\<open>drain_envelopes\<close>; the \<open>i\<close>-th fresh event id is \<open>fresh i\<close>.\<close>

definition drain_envelopes ::
  "('e \<Rightarrow> string) \<Rightarrow> string \<Rightarrow> (nat \<Rightarrow> typed_id) \<Rightarrow> timestamp \<Rightarrow> ('e, 'a) aggregate
   \<Rightarrow> 'e event_envelope list \<times> ('e, 'a) aggregate" where
  "drain_envelopes event_type aggregate_type fresh occurred_at a =
     (let aggregate_id = ag_id a;
          (events, a') = take_events a;
          end = el_version (ag_log a');
          start = end + 1 - word_of_nat (length events)
      in (map (\<lambda>(offset, payload).
             envelope_new event_type (fresh offset) aggregate_id aggregate_type
               (start + word_of_nat offset) occurred_at payload) (enumerate 0 events), a'))"

section \<open>Repository\<close>

record ('e, 'a) repository =
  rp_store :: "string \<rightharpoonup> ('e, 'a) aggregate"
  rp_drained :: "'e list"

definition repository_new :: "('e, 'a) repository" where
  "repository_new = \<lparr>rp_store = Map.empty, rp_drained = []\<rparr>"

definition repository_insert :: "('e, 'a) aggregate \<Rightarrow> ('e, 'a) repository \<Rightarrow> ('e, 'a) repository" where
  "repository_insert a r = r\<lparr>rp_store := (rp_store r)(ag_id a \<mapsto> a)\<rparr>"

definition repository_drained_events :: "('e, 'a) repository \<Rightarrow> 'e list \<times> ('e, 'a) repository" where
  "repository_drained_events r = (rp_drained r, r\<lparr>rp_drained := []\<rparr>)"

definition repository_find :: "string \<Rightarrow> ('e, 'a) repository \<Rightarrow> ('e, 'a) aggregate option" where
  "repository_find k r = rp_store r k"

definition repository_save ::
  "('e, 'a) aggregate \<Rightarrow> ('e, 'a) repository \<Rightarrow> ('e, 'a) aggregate \<times> ('e, 'a) repository" where
  "repository_save a r =
     (case take_events a of
        (events, a') \<Rightarrow>
          (a', r\<lparr>rp_drained := rp_drained r @ events, rp_store := (rp_store r)(ag_id a' \<mapsto> a')\<rparr>))"

definition repository_delete :: "string \<Rightarrow> ('e, 'a) repository \<Rightarrow> ('e, 'a) repository" where
  "repository_delete k r = r\<lparr>rp_store := (rp_store r)(k := None)\<rparr>"

section \<open>Message buses\<close>

datatype 'x cqrs_error = NoHandler string | Handler 'x

definition cqrs_error_classify :: "('x \<Rightarrow> error_category \<times> string) \<Rightarrow> 'x cqrs_error \<Rightarrow> error_category \<times> string" where
  "cqrs_error_classify classify e =
     (case e of NoHandler _ \<Rightarrow> (Internal, ''cqrs.no_handler'') | Handler x \<Rightarrow> classify x)"

type_synonym ('m, 's, 'x, 'o) handler = "'m \<Rightarrow> 's \<Rightarrow> ('x + 'o) \<times> 's"
type_synonym ('m, 's, 'x, 'o) command_bus = "string \<rightharpoonup> ('m, 's, 'x, 'o) handler"

definition bus_register :: "string \<Rightarrow> ('m, 's, 'x, 'o) handler \<Rightarrow> ('m, 's, 'x, 'o) command_bus \<Rightarrow> ('m, 's, 'x, 'o) command_bus" where
  "bus_register ty h b = b(ty \<mapsto> h)"

definition handle_erased :: "('m, 's, 'x, 'o) handler \<Rightarrow> 'm \<Rightarrow> 's \<Rightarrow> ('x cqrs_error + 'o) \<times> 's" where
  "handle_erased h m s = (case h m s of (Inl x, s') \<Rightarrow> (Inl (Handler x), s') | (Inr v, s') \<Rightarrow> (Inr v, s'))"

definition bus_dispatch ::
  "('m \<Rightarrow> string) \<Rightarrow> ('m, 's, 'x, 'o) command_bus \<Rightarrow> 'm \<Rightarrow> 's \<Rightarrow> ('x cqrs_error + 'o) \<times> 's" where
  "bus_dispatch tag b m s =
     (case b (tag m) of None \<Rightarrow> (Inl (NoHandler (tag m)), s) | Some h \<Rightarrow> handle_erased h m s)"

type_synonym ('m, 's, 'x) event_bus = "string \<rightharpoonup> ('m, 's, 'x, unit) handler list"

definition bus_subscribe :: "string \<Rightarrow> ('m, 's, 'x, unit) handler \<Rightarrow> ('m, 's, 'x) event_bus \<Rightarrow> ('m, 's, 'x) event_bus" where
  "bus_subscribe ty h b = b(ty \<mapsto> (case b ty of Some hs \<Rightarrow> hs | None \<Rightarrow> []) @ [h])"

fun publish_loop_bus ::
  "('m, 's, 'x, unit) handler list \<Rightarrow> 'm \<Rightarrow> 'x cqrs_error option \<Rightarrow> 's \<Rightarrow> 'x cqrs_error option \<times> 's" where
  "publish_loop_bus [] m first_error s = (first_error, s)"
| "publish_loop_bus (h # hs) m first_error s =
     (case handle_erased h m s of
        (Inl e, s') \<Rightarrow> publish_loop_bus hs m (case first_error of Some f \<Rightarrow> Some f | None \<Rightarrow> Some e) s'
      | (Inr _, s') \<Rightarrow> publish_loop_bus hs m first_error s')"

definition bus_publish ::
  "('m \<Rightarrow> string) \<Rightarrow> ('m, 's, 'x) event_bus \<Rightarrow> 'm \<Rightarrow> 's \<Rightarrow> ('x cqrs_error + unit) \<times> 's" where
  "bus_publish tag b m s =
     (case b (tag m) of
        None \<Rightarrow> (Inr (), s)
      | Some hs \<Rightarrow>
          (case publish_loop_bus hs m None s of
             (Some e, s') \<Rightarrow> (Inl e, s') | (None, s') \<Rightarrow> (Inr (), s')))"

section \<open>Sequence numbers\<close>

text \<open>A life of an aggregate: events recorded, and drains that publish what is pending.\<close>

datatype 'e life = Record 'e | Drain timestamp

fun live ::
  "('e \<Rightarrow> string) \<Rightarrow> string \<Rightarrow> (nat \<Rightarrow> typed_id) \<Rightarrow> 'e life list \<Rightarrow> ('e, 'a) aggregate \<Rightarrow> 'e event_envelope list \<times> ('e, 'a) aggregate" where
  "live ty at fresh [] a = ([], a)"
| "live ty at fresh (Record e # ls) a = live ty at fresh ls (agg_record e a)"
| "live ty at fresh (Drain t # ls) a =
     (case drain_envelopes ty at fresh t a of
        (envs, a') \<Rightarrow> (case live ty at fresh ls a' of (rest, a2) \<Rightarrow> (envs @ rest, a2)))"

fun recorded :: "'e life list \<Rightarrow> 'e list" where
  "recorded (Record e # ls) = e # recorded ls"
| "recorded (Drain t # ls) = recorded ls"
| "recorded [] = []"

text \<open>The number of events an aggregate has seen, of which the last ones are pending.\<close>

definition seen :: "('e, 'a) aggregate \<Rightarrow> nat \<Rightarrow> bool" where
  "seen a n = (el_version (ag_log a) = word_of_nat n \<and> length (el_pending (ag_log a)) \<le> n)"

lemma drain_sequences:
  assumes "seen a n" and "drain_envelopes ty at fresh t a = (envs, a')"
  shows "map ee_sequence envs = map word_of_nat [n - length (el_pending (ag_log a)) + 1 ..< n + 1]
    \<and> map ee_payload envs = el_pending (ag_log a) \<and> seen a' n \<and> el_pending (ag_log a') = []"
proof -
  let ?p = "el_pending (ag_log a)"
  have l: "length ?p \<le> n" and v: "el_version (ag_log a) = word_of_nat n" using assms(1) by (auto simp: seen_def)
  have start: "(word_of_nat n + 1 - word_of_nat (length ?p) + word_of_nat i :: u64)
      = word_of_nat (n - length ?p + 1 + i)" for i
    using l by (simp add: of_nat_diff)
  have "map ee_sequence envs = map (\<lambda>i. word_of_nat (n - length ?p + 1 + i)) [0..<length ?p]"
    using assms(2) v start
    by (auto simp: drain_envelopes_def take_events_def log_take_def envelope_new_def Let_def enumerate_eq_zip
        simp del: of_nat_add intro!: nth_equalityI)
  also have "\<dots> = map word_of_nat (map (\<lambda>i. i + (n - length ?p + 1)) [0..<length ?p])"
    by (simp add: add.commute del: of_nat_add)
  also have "map (\<lambda>i. i + (n - length ?p + 1)) [0..<length ?p] = [n - length ?p + 1 ..< n + 1]"
    using l by (simp only: map_add_upt) simp
  finally have s: "map ee_sequence envs = map word_of_nat [n - length ?p + 1 ..< n + 1]" .
  have "map ee_payload envs = map snd (enumerate 0 ?p)"
    using assms(2) unfolding drain_envelopes_def take_events_def log_take_def envelope_new_def Let_def
    by (auto simp del: map_snd_enumerate intro!: map_cong)
  then have "map ee_payload envs = ?p" by simp
  then show ?thesis
    using s assms by (auto simp: drain_envelopes_def take_events_def log_take_def Let_def seen_def)
qed

lemma upt_append': "i \<le> j \<Longrightarrow> j \<le> k \<Longrightarrow> [i..<j] @ [j..<k] = [i..<k]"
  using upt_add_eq_append [of i j "k - j"] by simp

lemma live_sequences:
  assumes "seen a n" and "live ty at fresh ls a = (envs, a')"
  shows "\<exists>m. seen a' m \<and> m + 0 = n + length (recorded ls)
    \<and> map ee_sequence envs
        = map word_of_nat [n - length (el_pending (ag_log a)) + 1 ..< m - length (el_pending (ag_log a')) + 1]
    \<and> map ee_payload envs @ el_pending (ag_log a') = el_pending (ag_log a) @ recorded ls"
  using assms
proof (induction ty at fresh ls a arbitrary: n envs rule: live.induct)
  case (1 ty at fresh a)
  then show ?case by auto
next
  case (2 ty at fresh e ls a)
  have "seen (agg_record e a) (n + 1)"
    using 2(2) by (simp add: seen_def agg_record_def log_record_def)
  from 2(1) [OF this] 2(3) show ?case
    by (auto simp: agg_record_def log_record_def)
next
  case (3 ty at fresh t ls a)
  obtain e1 a1 where d: "drain_envelopes ty at fresh t a = (e1, a1)" by fastforce
  obtain e2 where r: "live ty at fresh ls a1 = (e2, a')" and env: "envs = e1 @ e2"
    using 3(3) d by (auto split: prod.splits)
  note dr = drain_sequences [OF 3(2) d]
  obtain m where m: "seen a' m" "m + 0 = n + length (recorded ls)"
    "map ee_sequence e2 = map word_of_nat [n + 1 ..< m - length (el_pending (ag_log a')) + 1]"
    "map ee_payload e2 @ el_pending (ag_log a') = recorded ls"
    using 3(1) [OF d [symmetric] _ r, of n] dr by auto
  have "length (map ee_payload e2 @ el_pending (ag_log a')) = length (recorded ls)" using m(4) by simp
  then have le: "n + 1 \<le> m - length (el_pending (ag_log a')) + 1" using m(2) by simp
  have cat: "map word_of_nat [n - length (el_pending (ag_log a)) + 1 ..< n + 1]
      @ map word_of_nat [n + 1 ..< m - length (el_pending (ag_log a')) + 1]
      = (map word_of_nat [n - length (el_pending (ag_log a)) + 1 ..< m - length (el_pending (ag_log a')) + 1] :: u64 list)"
    using upt_append' [OF _ le, of "n - length (el_pending (ag_log a)) + 1"] by (simp add: map_append [symmetric] del: map_append)
  have "map ee_sequence envs
      = map word_of_nat [n - length (el_pending (ag_log a)) + 1 ..< m - length (el_pending (ag_log a')) + 1]"
    unfolding env map_append m(3) conjunct1 [OF dr] by (rule cat)
  moreover have "map ee_payload envs @ el_pending (ag_log a') = el_pending (ag_log a) @ recorded (Drain t # ls)"
    using m(4) dr env by simp
  ultimately show ?case using m(1,2) by (intro exI [of _ m]) simp
qed

text \<open>C26: published events are numbered without gaps, in the order they were recorded. Over any life of
  a new aggregate the envelopes of all its drains carry the sequence numbers 1, 2, 3 and so on (modulo
  2 to the 64), their payloads are the recorded events in order, and what was recorded after the last
  drain is still pending.\<close>

theorem event_sequences_gap_free:
  assumes "ag_log a = log_new" and "live ty at fresh ls a = (envs, a')"
  shows "map ee_sequence envs = map word_of_nat [1 ..< length envs + 1]
    \<and> map ee_payload envs @ el_pending (ag_log a') = recorded ls"
proof -
  have "seen a 0" using assms(1) by (simp add: seen_def log_new_def)
  then obtain m where m: "m = length (recorded ls)"
    "map ee_sequence envs = map word_of_nat [1 ..< m - length (el_pending (ag_log a')) + 1]"
    "map ee_payload envs @ el_pending (ag_log a') = recorded ls"
    using live_sequences [OF _ assms(2), of 0] assms(1) by (auto simp: log_new_def)
  have "length envs = length (map ee_sequence envs)" by simp
  also have "\<dots> = m - length (el_pending (ag_log a'))" unfolding m(2) by (simp only: length_map length_upt)
  finally show ?thesis using m by simp
qed

theorem event_sequences_gap_free_witness:
  "map ee_sequence (fst (live (\<lambda>e. e) ''account'' word_of_nat [Record ''a'', Record ''b'', Drain 0, Record ''c'', Drain 1]
      \<lparr>ag_id = ''1'', ag_log = log_new, ag_state = ()\<rparr>)) = [1, 2, 3]"
proof -
  let ?a = "\<lparr>ag_id = ''1'', ag_log = log_new, ag_state = ()\<rparr>"
  let ?ls = "[Record ''a'', Record ''b'', Drain 0, Record ''c'', Drain 1]"
  obtain envs a' where c: "live (\<lambda>e. e) ''account'' word_of_nat ?ls ?a = (envs, a')" by fastforce
  have "length envs = 3"
    using c by (auto simp: drain_envelopes_def take_events_def log_take_def agg_record_def log_record_def log_new_def Let_def)
  then have "map ee_sequence envs = [1, 2, 3]"
    using event_sequences_gap_free [OF _ c] by (simp add: upt_rec)
  then show ?thesis by (simp only: c fst_conv)
qed

section \<open>Fan-out\<close>

text \<open>The handlers of an event run one after the other on the state, whatever the earlier ones
  returned.\<close>

fun run_all :: "('m, 's, 'x, unit) handler list \<Rightarrow> 'm \<Rightarrow> 's \<Rightarrow> ('x + unit) list \<times> 's" where
  "run_all [] m s = ([], s)"
| "run_all (h # hs) m s = (case h m s of (r, s') \<Rightarrow> (case run_all hs m s' of (rs, s2) \<Rightarrow> (r # rs, s2)))"

definition first_failure :: "('x + unit) list \<Rightarrow> 'x option" where
  "first_failure rs = (case find (\<lambda>r. \<not> is_ok r) rs of Some (Inl x) \<Rightarrow> Some x | _ \<Rightarrow> None)"

lemma publish_loop_bus_run:
  assumes "run_all hs m s = (rs, s')"
  shows "publish_loop_bus hs m f s =
    (case f of Some e \<Rightarrow> Some e | None \<Rightarrow> map_option Handler (first_failure rs), s')"
  using assms
proof (induction hs arbitrary: f s rs)
  case (Cons h hs)
  obtain r s1 where h: "h m s = (r, s1)" by fastforce
  obtain rs1 s2 where t: "run_all hs m s1 = (rs1, s2)" by fastforce
  then show ?case
    using Cons h by (cases r) (auto simp: handle_erased_def first_failure_def split: option.splits)
qed (simp add: first_failure_def split: option.splits)

text \<open>Publishing reaches every subscriber. All handlers of the event's type run, in subscription
  order, on the state the earlier ones left, even after a failure; the result is the first failure, or
  success when there is none, and an event nobody subscribed to is a success that changes nothing.\<close>

theorem publish_reaches_all:
  "bus_publish tag b m s =
     (case b (tag m) of
        None \<Rightarrow> (Inr (), s)
      | Some hs \<Rightarrow>
          (case run_all hs m s of
             (rs, s') \<Rightarrow> (case first_failure rs of None \<Rightarrow> Inr () | Some x \<Rightarrow> Inl (Handler x), s')))"
  by (auto simp: bus_publish_def publish_loop_bus_run split: option.splits prod.splits)

lemma subscribed_last:
  "bus_subscribe ty h b ty = Some (case b ty of Some hs \<Rightarrow> hs @ [h] | None \<Rightarrow> [h])"
  "ty' \<noteq> ty \<Longrightarrow> bus_subscribe ty h b ty' = b ty'"
  by (auto simp: bus_subscribe_def split: option.splits)

text \<open>Saving moves the pending events out exactly once and stores the drained aggregate.\<close>

lemma repository_save_drains:
  assumes "repository_save a r = (a', r')"
  shows "el_pending (ag_log a') = [] \<and> rp_drained r' = rp_drained r @ el_pending (ag_log a)
    \<and> repository_find (ag_id a) r' = Some a' \<and> el_version (ag_log a') = el_version (ag_log a)"
  using assms by (auto simp: repository_save_def take_events_def log_take_def repository_find_def)

end
