(* ===== verification/Health.thy ===== *)
theory Health
  imports Middleware
begin

text \<open>
  Health checks (\<open>klauthed-web/src/health\<close>): the three-valued status with its order, the registry
  that aggregates the checks, and the two endpoints. A check is a function of the state of what it
  probes; the SQL and Redis probes are such functions of their backend.
\<close>

datatype health_status = Up | Degraded | Down

definition health_is_ready :: "health_status \<Rightarrow> bool" where
  "health_is_ready s = (s = Up)"

fun health_as_str :: "health_status \<Rightarrow> string" where
  "health_as_str Up = ''up''"
| "health_as_str Degraded = ''degraded''"
| "health_as_str Down = ''down''"

fun health_rank :: "health_status \<Rightarrow> u8" where
  "health_rank Up = 0"
| "health_rank Degraded = 1"
| "health_rank Down = 2"

instantiation health_status :: linorder
begin

definition less_eq_health_status :: "health_status \<Rightarrow> health_status \<Rightarrow> bool" where
  "less_eq_health_status a b = (health_rank a \<le> health_rank b)"

definition less_health_status :: "health_status \<Rightarrow> health_status \<Rightarrow> bool" where
  "less_health_status a b = (health_rank a < health_rank b)"

instance
proof
  fix a b :: health_status
  show "a \<le> b \<Longrightarrow> b \<le> a \<Longrightarrow> a = b"
    by (cases a; cases b) (simp_all add: less_eq_health_status_def word_le_nat_alt)
qed (auto simp: less_eq_health_status_def less_health_status_def)

end

definition worse :: "health_status \<Rightarrow> health_status \<Rightarrow> health_status" where
  "worse a b = max a b"

record check_result =
  chk_name :: string
  chk_status :: health_status

record readiness_report =
  rr_status :: health_status
  rr_checks :: "check_result list"

definition report_http_status :: "readiness_report \<Rightarrow> nat" where
  "report_http_status r = (if health_is_ready (rr_status r) then 200 else 503)"

type_synonym 's health_check = "string \<times> ('s \<Rightarrow> health_status \<times> 's)"
type_synonym 's health_registry = "'s health_check list"

definition health_register :: "'s health_check \<Rightarrow> 's health_registry \<Rightarrow> 's health_registry" where
  "health_register c r = r @ [c]"

fun report_loop :: "'s health_registry \<Rightarrow> health_status \<Rightarrow> check_result list \<Rightarrow> 's \<Rightarrow> readiness_report \<times> 's" where
  "report_loop [] overall entries s = (\<lparr>rr_status = overall, rr_checks = entries\<rparr>, s)"
| "report_loop ((name, check) # cs) overall entries s =
     (case check s of
        (status, s') \<Rightarrow>
          report_loop cs (worse overall status) (entries @ [\<lparr>chk_name = name, chk_status = status\<rparr>]) s')"

definition health_report :: "'s health_registry \<Rightarrow> 's \<Rightarrow> readiness_report \<times> 's" where
  "health_report r s = report_loop r Up [] s"

definition liveness :: "health_status web_response" where
  "liveness = \<lparr>wp_status = 200, wp_headers = [(''content-type'', ''application/json'')], wp_body = Up\<rparr>"

definition readiness :: "'s health_registry option \<Rightarrow> 's \<Rightarrow> readiness_report web_response \<times> 's" where
  "readiness registry s =
     (case (case registry of
              Some r \<Rightarrow> health_report r s
            | None \<Rightarrow> (\<lparr>rr_status = Up, rr_checks = []\<rparr>, s)) of
        (report, s') \<Rightarrow>
          (\<lparr>wp_status = report_http_status report, wp_headers = [(''content-type'', ''application/json'')],
            wp_body = report\<rparr>, s'))"

text \<open>The probes of \<open>checks.rs\<close>: up exactly when the backend answers.\<close>

definition probe_check :: "string \<Rightarrow> ('s \<Rightarrow> (string + 'a) \<times> 's) \<Rightarrow> 's health_check" where
  "probe_check name probe =
     (name, \<lambda>s. case probe s of (Inr _, s') \<Rightarrow> (Up, s') | (Inl _, s') \<Rightarrow> (Down, s'))"

section \<open>Aggregation\<close>

lemma Up_least [simp]: "Up \<le> s"
  by (cases s) (simp_all add: less_eq_health_status_def)

lemma worse_Up [simp]: "worse a b = Up \<longleftrightarrow> a = Up \<and> b = Up"
  by (cases a; cases b) (auto simp: worse_def max_def less_eq_health_status_def)

lemma report_loop_spec:
  "report_loop cs overall entries s = (r, s') \<Longrightarrow>
     \<exists>ns. rr_checks r = entries @ ns \<and> map chk_name ns = map fst cs
       \<and> rr_status r = fold (\<lambda>e o'. worse o' (chk_status e)) ns overall"
proof (induction cs overall entries s rule: report_loop.induct)
  case (2 name check cs overall entries s)
  obtain st s1 where c: "check s = (st, s1)" by fastforce
  from 2(1) [OF c [symmetric]] 2(2) c obtain ns where
    "rr_checks r = (entries @ [\<lparr>chk_name = name, chk_status = st\<rparr>]) @ ns" "map chk_name ns = map fst cs"
    "rr_status r = fold (\<lambda>e o'. worse o' (chk_status e)) ns (worse overall st)" by auto
  then show ?case by (intro exI [of _ "\<lparr>chk_name = name, chk_status = st\<rparr> # ns"]) simp
qed auto

lemma fold_worse: "fold (\<lambda>e o'. worse o' (chk_status e)) ns overall = Max (insert overall (chk_status ` set ns))"
proof (induction ns arbitrary: overall)
  case (Cons e ns)
  then show ?case
    by (cases "ns = []") (simp_all add: worse_def max.assoc)
qed simp

text \<open>The service is ready exactly when every check is. The report has one entry per registered
  check, in order, its overall status is the worst of them (up when there is none), and the endpoint
  answers 200 exactly when all of them are up, a degraded one included among the failures, and 503
  otherwise.\<close>

theorem readiness_all_up:
  assumes "readiness (Some r) s = (resp, s')"
  shows "map chk_name (rr_checks (wp_body resp)) = map fst r
    \<and> rr_status (wp_body resp) = Max (insert Up (chk_status ` set (rr_checks (wp_body resp))))
    \<and> wp_status resp = (if \<forall>e \<in> set (rr_checks (wp_body resp)). chk_status e = Up then 200 else 503)"
proof -
  obtain rep where rep: "health_report r s = (rep, s')"
    "resp = \<lparr>wp_status = report_http_status rep, wp_headers = [(''content-type'', ''application/json'')], wp_body = rep\<rparr>"
    using assms by (auto simp: readiness_def split: prod.splits)
  obtain ns where ns: "rr_checks rep = ns" "map chk_name ns = map fst r"
    "rr_status rep = fold (\<lambda>e o'. worse o' (chk_status e)) ns Up"
    using report_loop_spec [OF rep(1) [unfolded health_report_def]] by auto
  have "(fold (\<lambda>e o'. worse o' (chk_status e)) ns o' = Up) = (o' = Up \<and> (\<forall>e \<in> set ns. chk_status e = Up))" for o'
    by (induction ns arbitrary: o') auto
  then show ?thesis using rep ns by (simp add: report_http_status_def health_is_ready_def fold_worse)
qed

theorem readiness_all_up_witness:
  "wp_status (fst (readiness (Some [probe_check ''db'' (\<lambda>n. (Inr (), n)), (''cache'', \<lambda>n. (Degraded, n))]) (0 :: nat))) = 503"
proof -
  let ?r = "[probe_check ''db'' (\<lambda>n. (Inr (), n)), (''cache'', \<lambda>n. (Degraded, n))]"
  obtain resp s' where c: "readiness (Some ?r) (0 :: nat) = (resp, s')" by fastforce
  have "rr_checks (wp_body resp) = [\<lparr>chk_name = ''db'', chk_status = Up\<rparr>, \<lparr>chk_name = ''cache'', chk_status = Degraded\<rparr>]"
    using c by (auto simp: readiness_def health_report_def probe_check_def)
  then show ?thesis using readiness_all_up [OF c] by (simp only: c fst_conv) simp
qed

end
