(* ===== verification/Envelope.thy ===== *)
theory Envelope
  imports Tokens
begin

text \<open>
  Authenticated encryption and envelopes (\<open>klauthed-security/src/aead/key.rs\<close>, \<open>cipher.rs\<close>,
  \<open>envelope.rs\<close>). AES-256-GCM and base64 are parameters, the fields of \<open>aead_lib\<close>; the random
  source is the one of \<open>Tokens\<close>. \<open>aead_ok\<close> is the documented behaviour the code relies on: opening
  undoes sealing under the same key, nonce and associated data, a key of 32 bytes is accepted, and
  base64 decoding undoes encoding. That forgeries fail is a computational assumption and is not
  used.
\<close>

record aead_lib =
  gcm_key_ok :: "bytes \<Rightarrow> bool"
  gcm_seal :: "bytes \<Rightarrow> bytes \<Rightarrow> bytes \<Rightarrow> bytes \<Rightarrow> bytes option"
  gcm_open :: "bytes \<Rightarrow> bytes \<Rightarrow> bytes \<Rightarrow> bytes \<Rightarrow> bytes option"
  b64_encode :: "bytes \<Rightarrow> string"
  b64_decode :: "string \<Rightarrow> bytes option"

definition KEY_LEN :: nat where
  "KEY_LEN = 32"

definition NONCE_LEN :: nat where
  "NONCE_LEN = 12"

definition aead_ok :: "aead_lib \<Rightarrow> bool" where
  "aead_ok A =
     ((\<forall>k. length k = KEY_LEN \<longrightarrow> gcm_key_ok A k)
      \<and> (\<forall>k n a p c. gcm_seal A k n a p = Some c \<longrightarrow> gcm_open A k n a c = Some p)
      \<and> (\<forall>b. b64_decode A (b64_encode A b) = Some b))"

text \<open>The random source fills what it was asked to fill.\<close>

definition fill_ok :: "crypto \<Rightarrow> bool" where
  "fill_ok C = (\<forall>i n bs. fill C i n = Some bs \<longrightarrow> length bs = n)"

section \<open>Keys and ciphertexts\<close>

type_synonym encryption_key = bytes

definition key_generate :: "crypto \<Rightarrow> nat \<Rightarrow> (security_error + encryption_key) \<times> nat" where
  "key_generate C i = random_bytes C KEY_LEN i"

definition encrypt ::
  "crypto \<Rightarrow> aead_lib \<Rightarrow> encryption_key \<Rightarrow> bytes \<Rightarrow> bytes \<Rightarrow> nat \<Rightarrow> (security_error + bytes) \<times> nat" where
  "encrypt C A key plaintext aad i =
     (if \<not> gcm_key_ok A key then (Inl SE_Encryption, i)
      else (case random_bytes C NONCE_LEN i of
              (Inl e, i') \<Rightarrow> (Inl e, i')
            | (Inr nonce, i') \<Rightarrow>
                (case gcm_seal A key nonce aad plaintext of
                   None \<Rightarrow> (Inl SE_Encryption, i')
                 | Some sealed \<Rightarrow> (Inr (nonce @ sealed), i'))))"

definition decrypt :: "aead_lib \<Rightarrow> encryption_key \<Rightarrow> bytes \<Rightarrow> bytes \<Rightarrow> security_error + bytes" where
  "decrypt A key ciphertext aad =
     (if length ciphertext < NONCE_LEN then Inl SE_Decryption
      else (let nonce = take NONCE_LEN ciphertext; sealed = drop NONCE_LEN ciphertext
            in if \<not> gcm_key_ok A key then Inl SE_Encryption
               else ok_or SE_Decryption (gcm_open A key nonce aad sealed)))"

definition encrypt_to_base64 ::
  "crypto \<Rightarrow> aead_lib \<Rightarrow> encryption_key \<Rightarrow> bytes \<Rightarrow> bytes \<Rightarrow> nat \<Rightarrow> (security_error + string) \<times> nat" where
  "encrypt_to_base64 C A key plaintext aad i =
     (case encrypt C A key plaintext aad i of
        (Inl e, i') \<Rightarrow> (Inl e, i') | (Inr c, i') \<Rightarrow> (Inr (b64_encode A c), i'))"

definition decrypt_from_base64 :: "aead_lib \<Rightarrow> encryption_key \<Rightarrow> string \<Rightarrow> bytes \<Rightarrow> security_error + bytes" where
  "decrypt_from_base64 A key s aad =
     (case b64_decode A s of None \<Rightarrow> Inl SE_Decryption | Some raw \<Rightarrow> decrypt A key raw aad)"

section \<open>Envelopes\<close>

definition WRAP_AAD :: bytes where
  "WRAP_AAD = as_bytes ''klauthed.aead.envelope.v1''"

record envelope =
  env_wrapped_key :: bytes
  env_ciphertext :: bytes

definition seal :: "crypto \<Rightarrow> aead_lib \<Rightarrow> encryption_key \<Rightarrow> bytes \<Rightarrow> bytes \<Rightarrow> nat \<Rightarrow> (security_error + envelope) \<times> nat" where
  "seal C A root_key plaintext aad i =
     (case key_generate C i of
        (Inl e, i1) \<Rightarrow> (Inl e, i1)
      | (Inr dek, i1) \<Rightarrow>
          (case encrypt C A dek plaintext aad i1 of
             (Inl e, i2) \<Rightarrow> (Inl e, i2)
           | (Inr ciphertext, i2) \<Rightarrow>
               (case encrypt C A root_key dek WRAP_AAD i2 of
                  (Inl e, i3) \<Rightarrow> (Inl e, i3)
                | (Inr wrapped_key, i3) \<Rightarrow> (Inr \<lparr>env_wrapped_key = wrapped_key, env_ciphertext = ciphertext\<rparr>, i3))))"

definition unwrap_dek :: "aead_lib \<Rightarrow> encryption_key \<Rightarrow> envelope \<Rightarrow> security_error + encryption_key" where
  "unwrap_dek A root_key e =
     (case decrypt A root_key (env_wrapped_key e) WRAP_AAD of
        Inl x \<Rightarrow> Inl x
      | Inr raw \<Rightarrow> if length raw \<noteq> KEY_LEN then Inl SE_Decryption else Inr raw)"

definition envelope_open :: "aead_lib \<Rightarrow> encryption_key \<Rightarrow> bytes \<Rightarrow> envelope \<Rightarrow> security_error + bytes" where
  "envelope_open A root_key aad e =
     (case unwrap_dek A root_key e of Inl x \<Rightarrow> Inl x | Inr dek \<Rightarrow> decrypt A dek (env_ciphertext e) aad)"

definition rewrap ::
  "crypto \<Rightarrow> aead_lib \<Rightarrow> encryption_key \<Rightarrow> encryption_key \<Rightarrow> envelope \<Rightarrow> nat \<Rightarrow> (security_error + envelope) \<times> nat" where
  "rewrap C A current_root new_root e i =
     (case unwrap_dek A current_root e of
        Inl x \<Rightarrow> (Inl x, i)
      | Inr dek \<Rightarrow>
          (case encrypt C A new_root dek WRAP_AAD i of
             (Inl x, i') \<Rightarrow> (Inl x, i')
           | (Inr wrapped_key, i') \<Rightarrow> (Inr \<lparr>env_wrapped_key = wrapped_key, env_ciphertext = env_ciphertext e\<rparr>, i')))"

section \<open>The frame\<close>

definition u32_to_be :: "u32 \<Rightarrow> bytes" where
  "u32_to_be w = map (\<lambda>k. ucast (drop_bit (8 * k) w)) [3, 2, 1, 0]"

definition u32_from_be :: "bytes \<Rightarrow> u32" where
  "u32_from_be bs = foldl (\<lambda>acc b. acc * 256 + ucast b) 0 bs"

definition envelope_to_bytes :: "envelope \<Rightarrow> bytes" where
  "envelope_to_bytes e =
     u32_to_be (word_of_nat (length (env_wrapped_key e))) @ env_wrapped_key e @ env_ciphertext e"

definition envelope_from_bytes :: "bytes \<Rightarrow> security_error + envelope" where
  "envelope_from_bytes bs =
     (if length bs < 4 then Inl SE_Decryption
      else (let wrapped_len = unat (u32_from_be (take 4 bs)); rest = drop 4 bs
            in if length rest < wrapped_len then Inl SE_Decryption
               else Inr \<lparr>env_wrapped_key = take wrapped_len rest, env_ciphertext = drop wrapped_len rest\<rparr>))"

definition envelope_to_base64 :: "aead_lib \<Rightarrow> envelope \<Rightarrow> string" where
  "envelope_to_base64 A e = b64_encode A (envelope_to_bytes e)"

definition envelope_from_base64 :: "aead_lib \<Rightarrow> string \<Rightarrow> security_error + envelope" where
  "envelope_from_base64 A s =
     (case b64_decode A s of None \<Rightarrow> Inl SE_Decryption | Some raw \<Rightarrow> envelope_from_bytes raw)"

section \<open>Round trips\<close>

lemma length_u32_to_be [simp]: "length (u32_to_be w) = 4"
  by (simp add: u32_to_be_def)

lemma byte_unat: "unat (ucast (w :: u32) :: u8) = unat w mod 256"
  by (simp add: unsigned_ucast_eq take_bit_eq_mod)

lemma u32_be_roundtrip: "u32_from_be (u32_to_be w) = w"
proof -
  define n where "n = unat w"
  have w: "w = word_of_nat n" by (simp add: n_def)
  have n: "n < 2 ^ 32" using unsigned_less [of w] by (simp add: n_def)
  have b: "(ucast (ucast (drop_bit (8 * k) w) :: u8) :: u32) = word_of_nat (n div 2 ^ (8 * k) mod 256)" for k
  proof -
    have "unat (drop_bit (8 * k) w) = drop_bit (8 * k) (unat w)"
      using n by (simp add: unsigned_drop_bit_eq take_bit_nat_eq_self n_def)
    then have "unat (ucast (drop_bit (8 * k) w) :: u8) = n div 2 ^ (8 * k) mod 256"
      unfolding byte_unat by (simp only: n_def drop_bit_eq_div)
    then show ?thesis by (metis of_nat_unat)
  qed
  have "n = ((n div 2 ^ 24 mod 256 * 256 + n div 2 ^ 16 mod 256) * 256 + n div 2 ^ 8 mod 256) * 256 + n mod 256"
  proof -
    define a b c where "a = n div 2 ^ 8" and "b = n div 2 ^ 16" and "c = n div 2 ^ 24"
    have "a = n div 256" "b = a div 256" "c = b div 256"
      by (simp_all add: a_def b_def c_def div_mult2_eq [symmetric])
    moreover have "c < 256" using n by (simp add: c_def less_mult_imp_div_less)
    ultimately have "n = ((c mod 256 * 256 + b mod 256) * 256 + a mod 256) * 256 + n mod 256"
      by (metis div_mult_mod_eq mod_less)
    then show ?thesis by (simp only: a_def b_def c_def)
  qed
  then have "(word_of_nat n :: u32)
      = word_of_nat (((n div 2 ^ 24 mod 256 * 256 + n div 2 ^ 16 mod 256) * 256 + n div 2 ^ 8 mod 256) * 256 + n mod 256)"
    by (rule arg_cong)
  then have "(word_of_nat n :: u32) = ((word_of_nat (n div 2 ^ 24 mod 256) * 256 + word_of_nat (n div 2 ^ 16 mod 256)) * 256
      + word_of_nat (n div 2 ^ 8 mod 256)) * 256 + word_of_nat (n mod 256)"
    by (simp only: of_nat_add of_nat_mult of_nat_numeral)
  then show ?thesis
    using b [of 3] b [of 2] b [of 1] b [of 0] w by (simp add: u32_from_be_def u32_to_be_def)
qed

lemma decrypt_encrypt:
  assumes "aead_ok A" and "fill_ok C" and "encrypt C A key p aad i = (Inr c, i')"
  shows "decrypt A key c aad = Inr p"
proof -
  obtain nonce sealed where e: "gcm_key_ok A key" "fill C i NONCE_LEN = Some nonce"
    "gcm_seal A key nonce aad p = Some sealed" "c = nonce @ sealed"
    using assms(3) by (auto simp: encrypt_def random_bytes_def ok_or_def split: if_splits option.splits)
  moreover have "length nonce = NONCE_LEN" using assms(2) e(2) by (simp add: fill_ok_def)
  ultimately show ?thesis using assms(1) by (simp add: decrypt_def aead_ok_def Let_def)
qed

lemma seal_open_dek:
  assumes "aead_ok A" and "fill_ok C" and "seal C A root p aad i = (Inr e, i')"
  shows "\<exists>dek. unwrap_dek A root e = Inr dek \<and> decrypt A dek (env_ciphertext e) aad = Inr p"
proof -
  obtain dek i1 c i2 w where s: "key_generate C i = (Inr dek, i1)" "encrypt C A dek p aad i1 = (Inr c, i2)"
    "encrypt C A root dek WRAP_AAD i2 = (Inr w, i')" "e = \<lparr>env_wrapped_key = w, env_ciphertext = c\<rparr>"
    using assms(3) by (auto simp: seal_def split: prod.splits sum.splits)
  have "length dek = KEY_LEN"
    using s(1) assms(2) by (auto simp: key_generate_def random_bytes_def ok_or_def fill_ok_def split: option.splits)
  then show ?thesis
    using decrypt_encrypt [OF assms(1,2) s(2)] decrypt_encrypt [OF assms(1,2) s(3)] s(4)
    by (simp add: unwrap_dek_def)
qed

lemma envelope_frame_roundtrip:
  assumes "length (env_wrapped_key e) < 2 ^ 32"
  shows "envelope_from_bytes (envelope_to_bytes e) = Inr e"
proof -
  have "unat (u32_from_be (u32_to_be (word_of_nat (length (env_wrapped_key e))))) = length (env_wrapped_key e)"
    using assms by (simp add: u32_be_roundtrip unsigned_of_nat take_bit_nat_eq_self)
  then show ?thesis by (simp add: envelope_from_bytes_def envelope_to_bytes_def Let_def)
qed

text \<open>C19: what is sealed can be opened, also after storage and key rotation. An envelope sealed under a
  root key is read back unchanged from its bytes and from its base64 text (its wrapped key being shorter
  than 4 GiB); opening it with that root key and the same associated data gives the plaintext; and after
  re-wrapping under a new root key, with the ciphertext untouched, the new root key opens it.\<close>

theorem envelope_seal_open:
  assumes "aead_ok A" and "fill_ok C" and "seal C A root p aad i = (Inr e, i')"
    and "length (env_wrapped_key e) < 2 ^ 32"
  shows "envelope_from_base64 A (envelope_to_base64 A e) = Inr e
    \<and> envelope_from_bytes (envelope_to_bytes e) = Inr e
    \<and> envelope_open A root aad e = Inr p
    \<and> (\<forall>new j e2 j'. rewrap C A root new e j = (Inr e2, j') \<longrightarrow>
         env_ciphertext e2 = env_ciphertext e \<and> envelope_open A new aad e2 = Inr p)"
proof -
  obtain dek where dek: "unwrap_dek A root e = Inr dek" "decrypt A dek (env_ciphertext e) aad = Inr p"
    using seal_open_dek [OF assms(1-3)] by blast
  have len: "length dek = KEY_LEN" using dek(1) by (auto simp: unwrap_dek_def split: sum.splits if_splits)
  have "env_ciphertext e2 = env_ciphertext e \<and> envelope_open A new aad e2 = Inr p"
    if rw: "rewrap C A root new e j = (Inr e2, j')" for new j e2 j'
  proof -
    obtain w where w: "encrypt C A new dek WRAP_AAD j = (Inr w, j')"
      "e2 = \<lparr>env_wrapped_key = w, env_ciphertext = env_ciphertext e\<rparr>"
      using rw dek(1) by (auto simp: rewrap_def split: prod.splits sum.splits)
    then show ?thesis
      using decrypt_encrypt [OF assms(1,2) w(1)] len dek(2) by (simp add: envelope_open_def unwrap_dek_def)
  qed
  moreover have "b64_decode A (b64_encode A b) = Some b" for b using assms(1) by (simp add: aead_ok_def)
  ultimately show ?thesis
    using envelope_frame_roundtrip [OF assms(4)] dek
    by (simp add: envelope_open_def envelope_from_base64_def envelope_to_base64_def)
qed

text \<open>A frame too short for its own length prefix is refused, never read past its end.\<close>

lemma envelope_truncated:
  assumes "envelope_from_bytes bs = Inr e"
  shows "4 \<le> length bs \<and> length bs = 4 + length (env_wrapped_key e) + length (env_ciphertext e)"
  using assms by (auto simp: envelope_from_bytes_def Let_def split: if_splits)

section \<open>A concrete instance\<close>

definition toy_aead :: aead_lib where
  "toy_aead =
     \<lparr>gcm_key_ok = (\<lambda>k. length k = 32),
      gcm_seal = (\<lambda>k n a p. Some (p @ [sum_list k + sum_list n + sum_list a + sum_list p])),
      gcm_open = (\<lambda>k n a c. if c \<noteq> [] \<and> last c = sum_list k + sum_list n + sum_list a + sum_list (butlast c)
                             then Some (butlast c) else None),
      b64_encode = map (\<lambda>b. char_of (unat b)),
      b64_decode = (\<lambda>s. Some (as_bytes s))\<rparr>"

lemma toy_aead_ok: "aead_ok toy_aead"
proof -
  have "word_of_nat (of_char (char_of (unat b) :: char)) = b" for b :: u8
  proof -
    have "unat b < 256" using unsigned_less [of b] by simp
    then show ?thesis by simp
  qed
  then show ?thesis
    by (auto simp: aead_ok_def toy_aead_def KEY_LEN_def as_bytes_def comp_def)
qed

definition toy_crypto :: crypto where
  "toy_crypto = demo_crypto\<lparr>fill := (\<lambda>i n. Some (replicate n (word_of_nat i)))\<rparr>"

lemma toy_fill_ok: "fill_ok toy_crypto"
  by (simp add: fill_ok_def toy_crypto_def)

definition toy_envelope :: envelope where
  "toy_envelope = (case fst (seal toy_crypto toy_aead (replicate 32 9) [1, 2, 3] [4] 0) of Inr e \<Rightarrow> e)"

theorem envelope_seal_open_witness:
  "envelope_open toy_aead (replicate 32 9) [4] toy_envelope = Inr [1, 2, 3]
   \<and> envelope_from_bytes (envelope_to_bytes toy_envelope) = Inr toy_envelope"
proof -
  obtain i where s: "seal toy_crypto toy_aead (replicate 32 9) [1, 2, 3] [4] 0 = (Inr toy_envelope, i)"
    and l: "length (env_wrapped_key toy_envelope) < 2 ^ 32"
    by (simp add: toy_envelope_def seal_def key_generate_def encrypt_def random_bytes_def toy_crypto_def toy_aead_def
        KEY_LEN_def NONCE_LEN_def)
  show ?thesis using envelope_seal_open [OF toy_aead_ok toy_fill_ok s l] by simp
qed

end
