(* ===== verification/SqlData.thy ===== *)
theory SqlData
  imports Pagination Decimal
begin

text \<open>
  The SQL side of the data layer that is independent of a driver: clauses built from sort keys
  (\<open>klauthed-data/src/pagination/sql.rs\<close>) and keyset pages (\<open>pagination/keyset.rs\<close>).
\<close>

section \<open>Clauses\<close>

definition limit_offset :: "offset_page_request \<Rightarrow> int \<times> int" where
  "limit_offset req = (sint (op_limit req), sint (op_offset req))"

definition order_text :: "sort_order \<Rightarrow> string" where
  "order_text d = (case d of Asc \<Rightarrow> ''ASC'' | Desc \<Rightarrow> ''DESC'')"

definition sort_clause :: "page_sort_key list \<Rightarrow> string list \<Rightarrow> string" where
  "sort_clause keys allowed_fields =
     (let parts = map (\<lambda>k. sk_field k @ '' '' @ order_text (sk_order k))
                    (filter (\<lambda>k. sk_field k \<in> set allowed_fields) keys)
      in if parts = [] then [] else '' ORDER BY '' @ str_join '', '' parts)"

datatype keyset_dialect = Positional | Question

definition keyset_where_clause :: "page_sort_key list \<Rightarrow> nat \<Rightarrow> keyset_dialect \<Rightarrow> string option" where
  "keyset_where_clause keys start_param dialect =
     (if keys = [] then None
      else (let cols = map sk_field keys;
                params = map (\<lambda>i. case dialect of Positional \<Rightarrow> ''$'' @ show_nat (start_param + i) | Question \<Rightarrow> ''?'')
                           [0..<length keys]
            in Some (''('' @ str_join '', '' cols @ '') > ('' @ str_join '', '' params @ '')'')))"

record 'a keyset_page =
  kg_items :: "'a list"
  kg_start_cursor :: "string option"
  kg_end_cursor :: "string option"
  kg_has_next_page :: bool
  kg_has_prev_page :: bool

definition keyset_page_from_items ::
  "'c cursor_codec \<Rightarrow> 'a list \<Rightarrow> ('a \<Rightarrow> 'c) \<Rightarrow> bool \<Rightarrow> bool \<Rightarrow> data_error + 'a keyset_page" where
  "keyset_page_from_items K items encode has_prev has_next =
     (case encode_opt (\<lambda>x. cursor_encode K (encode x)) (list_first items) of
        Inl e \<Rightarrow> Inl e
      | Inr start_cursor \<Rightarrow>
          (case encode_opt (\<lambda>x. cursor_encode K (encode x)) (list_last items) of
             Inl e \<Rightarrow> Inl e
           | Inr end_cursor \<Rightarrow>
               Inr \<lparr>kg_items = items, kg_start_cursor = start_cursor, kg_end_cursor = end_cursor,
                    kg_has_next_page = has_next, kg_has_prev_page = has_prev\<rparr>))"

definition keyset_page_map :: "('a \<Rightarrow> 'b) \<Rightarrow> 'a keyset_page \<Rightarrow> 'b keyset_page" where
  "keyset_page_map f p =
     \<lparr>kg_items = map f (kg_items p), kg_start_cursor = kg_start_cursor p, kg_end_cursor = kg_end_cursor p,
      kg_has_next_page = kg_has_next_page p, kg_has_prev_page = kg_has_prev_page p\<rparr>"

text \<open>A clause names columns of the allowed list only, each key in the order of the request; a key
  outside the list leaves no trace.\<close>

lemma sort_clause_allowed:
  "sort_clause keys allowed = sort_clause (filter (\<lambda>k. sk_field k \<in> set allowed) keys) allowed"
  by (simp add: sort_clause_def)

lemma sort_clause_only_allowed:
  "\<exists>ks. set (map sk_field ks) \<subseteq> set allowed \<and> set ks \<subseteq> set keys
    \<and> sort_clause keys allowed = (if ks = [] then [] else
        '' ORDER BY '' @ str_join '', '' (map (\<lambda>k. sk_field k @ '' '' @ order_text (sk_order k)) ks))"
  by (intro exI [of _ "filter (\<lambda>k. sk_field k \<in> set allowed) keys"]) (auto simp: sort_clause_def)

text \<open>The seek predicate does not depend on the direction of its keys: a descending key is compared
  with \<open>>\<close> too, so the page after a position in a descending listing asks for the rows before it.\<close>

lemma keyset_clause_ignores_order:
  "keyset_where_clause (map (\<lambda>k. k\<lparr>sk_order := d\<rparr>) keys) p dialect = keyset_where_clause keys p dialect"
  by (simp add: keyset_where_clause_def comp_def)

end
