(* ===== verification/SqlStore.thy ===== *)
theory SqlStore
  imports OrderedMap
begin

text \<open>
  The part of a relational database the SQL-backed stores use through \<open>sqlx\<close>: one table of rows, in
  the order the engine returns them, and a count of the statements sent. What becomes of the \<open>k\<close>-th
  statement is \<open>se_outcome\<close>: the driver answers it, refuses it (it has no effect), or loses the answer
  after the server has carried it out, which the program sees as an error. The same holds of \<open>BEGIN\<close>
  and \<open>COMMIT\<close>: a commit whose answer is lost is durable although the caller gets an error. An insert
  that meets an existing key fails with \<open>se_duplicate\<close>. The server rolls a transaction back that is
  dropped without a commit. Statements are executed one after the other: interleavings with other
  connections are not modelled.
\<close>

datatype stmt_outcome = Answered | Refused string | LostAnswer string

record sql_env =
  se_outcome :: "nat \<Rightarrow> stmt_outcome"
  se_duplicate :: "string \<Rightarrow> string"

record 'r sql_db =
  db_rows :: "'r list"
  db_stmts :: nat

definition db_stmt ::
  "sql_env \<Rightarrow> (string \<Rightarrow> 'e) \<Rightarrow> ('r list \<Rightarrow> string + 'a \<times> 'r list) \<Rightarrow> 'r sql_db \<Rightarrow> ('e + 'a) \<times> 'r sql_db" where
  "db_stmt E err f db =
     (let db1 = db\<lparr>db_stmts := Suc (db_stmts db)\<rparr>
      in case se_outcome E (db_stmts db) of
           Refused m \<Rightarrow> (Inl (err m), db1)
         | LostAnswer m \<Rightarrow>
             (Inl (err m), case f (db_rows db) of Inl _ \<Rightarrow> db1 | Inr (_, rows) \<Rightarrow> db1\<lparr>db_rows := rows\<rparr>)
         | Answered \<Rightarrow>
             (case f (db_rows db) of
                Inl m \<Rightarrow> (Inl (err m), db1)
              | Inr (x, rows) \<Rightarrow> (Inr x, db1\<lparr>db_rows := rows\<rparr>)))"

definition db_bind ::
  "('r sql_db \<Rightarrow> ('e + 'a) \<times> 'r sql_db) \<Rightarrow> ('a \<Rightarrow> 'r sql_db \<Rightarrow> ('e + 'b) \<times> 'r sql_db)
   \<Rightarrow> 'r sql_db \<Rightarrow> ('e + 'b) \<times> 'r sql_db" where
  "db_bind m f db = (case m db of (Inl e, db1) \<Rightarrow> (Inl e, db1) | (Inr x, db1) \<Rightarrow> f x db1)"

definition db_return :: "'e + 'a \<Rightarrow> 'r sql_db \<Rightarrow> ('e + 'a) \<times> 'r sql_db" where
  "db_return x db = (x, db)"

text \<open>\<open>BEGIN\<close> leaves the table alone.\<close>

definition sql_skip :: "'r list \<Rightarrow> string + unit \<times> 'r list" where
  "sql_skip rows = Inr ((), rows)"

text \<open>\<open>COMMIT\<close> of a transaction that found the rows \<open>old\<close>: refused, the server falls back to them.\<close>

definition db_commit :: "sql_env \<Rightarrow> (string \<Rightarrow> 'e) \<Rightarrow> 'r list \<Rightarrow> 'r sql_db \<Rightarrow> ('e + unit) \<times> 'r sql_db" where
  "db_commit E err old db =
     (let db1 = db\<lparr>db_stmts := Suc (db_stmts db)\<rparr>
      in case se_outcome E (db_stmts db) of
           Refused m \<Rightarrow> (Inl (err m), db1\<lparr>db_rows := old\<rparr>)
         | LostAnswer m \<Rightarrow> (Inl (err m), db1)
         | Answered \<Rightarrow> (Inr (), db1))"

definition db_tx ::
  "sql_env \<Rightarrow> (string \<Rightarrow> 'e) \<Rightarrow> ('r sql_db \<Rightarrow> ('e + 'a) \<times> 'r sql_db) \<Rightarrow> 'r sql_db \<Rightarrow> ('e + 'a) \<times> 'r sql_db" where
  "db_tx E err body =
     db_bind (db_stmt E err sql_skip)
       (\<lambda>_ db. case body db of
          (Inl e, db1) \<Rightarrow> (Inl e, db1\<lparr>db_rows := db_rows db\<rparr>)
        | (Inr x, db1) \<Rightarrow> db_bind (db_commit E err (db_rows db)) (\<lambda>_. db_return (Inr x)) db1)"

text \<open>\<open>INSERT\<close> with a primary key, \<open>UPDATE ... WHERE\<close> with the number of rows it touches,
  \<open>DELETE ... WHERE\<close>, and \<open>SELECT ... WHERE\<close> with a post-processing of the rows found (order and
  limit).\<close>

definition sql_insert :: "sql_env \<Rightarrow> ('r \<Rightarrow> string) \<Rightarrow> 'r \<Rightarrow> 'r list \<Rightarrow> string + unit \<times> 'r list" where
  "sql_insert E key row rows =
     (if list_ex (\<lambda>r. key r = key row) rows then Inl (se_duplicate E (key row)) else Inr ((), row # rows))"

definition sql_update :: "('r \<Rightarrow> bool) \<Rightarrow> ('r \<Rightarrow> 'r) \<Rightarrow> 'r list \<Rightarrow> string + nat \<times> 'r list" where
  "sql_update p f rows = Inr (length (filter p rows), map (\<lambda>r. if p r then f r else r) rows)"

definition sql_delete :: "('r \<Rightarrow> bool) \<Rightarrow> 'r list \<Rightarrow> string + nat \<times> 'r list" where
  "sql_delete p rows = Inr (length (filter p rows), filter (\<lambda>r. \<not> p r) rows)"

definition sql_select :: "('r \<Rightarrow> bool) \<Rightarrow> ('r list \<Rightarrow> 'a) \<Rightarrow> 'r list \<Rightarrow> string + 'a \<times> 'r list" where
  "sql_select p post rows = Inr (post (filter p rows), rows)"

section \<open>Without faults\<close>

definition fault_free :: "sql_env \<Rightarrow> bool" where
  "fault_free E \<longleftrightarrow> se_outcome E = (\<lambda>_. Answered)"

text \<open>A driver that always answers.\<close>

definition calm_env :: sql_env where
  "calm_env = \<lparr>se_outcome = (\<lambda>_. Answered), se_duplicate = (\<lambda>k. ''duplicate key '' @ k)\<rparr>"

lemma fault_free_calm [simp]: "fault_free calm_env"
  by (simp add: fault_free_def calm_env_def)

lemma db_stmt_ok:
  "fault_free E \<Longrightarrow> f (db_rows db) = Inr (x, rows) \<Longrightarrow>
   db_stmt E err f db = (Inr x, db\<lparr>db_stmts := Suc (db_stmts db), db_rows := rows\<rparr>)"
  by (simp add: db_stmt_def fault_free_def)

lemma db_stmt_skip: "fault_free E \<Longrightarrow> db_stmt E err sql_skip db = (Inr (), db\<lparr>db_stmts := Suc (db_stmts db)\<rparr>)"
  by (simp add: db_stmt_def fault_free_def sql_skip_def)

text \<open>What an operation answers and does to the table, its statement count apart.\<close>

definition db_effect :: "('a \<times> 'r sql_db) \<Rightarrow> 'a \<times> 'r list" where
  "db_effect x = (fst x, db_rows (snd x))"

lemma db_tx_effect:
  assumes "fault_free E" and "\<And>n. db_effect (body (db\<lparr>db_stmts := n\<rparr>)) = (r, rows)"
  shows "db_effect (db_tx E err body db) = (case r of Inl e \<Rightarrow> (Inl e, db_rows db) | Inr x \<Rightarrow> (Inr x, rows))"
proof -
  let ?db1 = "db\<lparr>db_stmts := Suc (db_stmts db)\<rparr>"
  obtain db2 where b: "body ?db1 = (r, db2)" "db_rows db2 = rows"
    using assms(2) [of "Suc (db_stmts db)"] by (cases "body ?db1") (simp add: db_effect_def)
  show ?thesis
    by (cases r) (simp_all add: db_tx_def db_bind_def db_stmt_skip [OF assms(1)] b db_commit_def assms(1) [unfolded fault_free_def]
        db_return_def db_effect_def)
qed

lemmas db_tx_ok = db_tx_effect [where r = "Inr x" for x, simplified]
lemmas db_tx_err = db_tx_effect [where r = "Inl e" for e, simplified]

section \<open>All or nothing\<close>

text \<open>The same program over a driver that answers every statement.\<close>

definition answering :: "sql_env \<Rightarrow> sql_env" where
  "answering E = E\<lparr>se_outcome := (\<lambda>_. Answered)\<rparr>"

lemma fault_free_answering [simp]: "fault_free (answering E)"
  by (simp add: fault_free_def answering_def)

lemma sql_insert_answering [simp]: "sql_insert (answering E) = sql_insert E"
  by (intro ext) (simp add: sql_insert_def answering_def)

text \<open>A sequence of statements that got through has done what it does over a driver that answers.\<close>

definition db_exact :: "('r sql_db \<Rightarrow> ('e + 'a) \<times> 'r sql_db) \<Rightarrow> ('r sql_db \<Rightarrow> ('e + 'a) \<times> 'r sql_db) \<Rightarrow> bool" where
  "db_exact m m0 \<longleftrightarrow>
     (\<forall>db x db' d0. m db = (Inr x, db') \<longrightarrow> db_rows d0 = db_rows db \<longrightarrow> db_effect (m0 d0) = (Inr x, db_rows db'))"

text \<open>An operation that answers has done the whole of its work; one that fails has done the whole of it or
  nothing.\<close>

definition all_or_nothing :: "('r sql_db \<Rightarrow> ('e + 'a) \<times> 'r sql_db) \<Rightarrow> ('r sql_db \<Rightarrow> ('e + 'a) \<times> 'r sql_db) \<Rightarrow> bool" where
  "all_or_nothing m m0 \<longleftrightarrow>
     (\<forall>db. db_effect (m db) = db_effect (m0 db) \<or>
       (\<exists>e. db_effect (m db) \<in> {(Inl e, db_rows db), (Inl e, db_rows (snd (m0 db)))}))"

named_theorems db_exacts

lemma db_exact_stmt [db_exacts]: "db_exact (db_stmt E err f) (db_stmt (answering E) err f)"
  by (auto simp: db_exact_def db_stmt_def db_effect_def answering_def Let_def split: stmt_outcome.splits sum.splits)

lemma db_exact_return [db_exacts]: "db_exact (db_return x) (db_return x)"
  by (simp add: db_exact_def db_return_def db_effect_def)

lemma db_exact_bind [db_exacts]:
  assumes "db_exact m m0" and "\<And>x. db_exact (f x) (f0 x)"
  shows "db_exact (db_bind m f) (db_bind m0 f0)"
  unfolding db_exact_def
proof (intro allI impI)
  fix db d0 :: "'a sql_db" and y db' assume run: "db_bind m f db = (Inr y, db')" and rows: "db_rows d0 = db_rows db"
  from run obtain x db1 where m: "m db = (Inr x, db1)" and f: "f x db1 = (Inr y, db')"
    by (auto simp: db_bind_def split: prod.splits sum.splits)
  from assms(1) m rows have "db_effect (m0 d0) = (Inr x, db_rows db1)" by (simp add: db_exact_def)
  then obtain d1 where d1: "m0 d0 = (Inr x, d1)" "db_rows d1 = db_rows db1"
    by (cases "m0 d0") (simp add: db_effect_def)
  with assms(2) f have "db_effect (f0 x d1) = (Inr y, db_rows db')" by (simp add: db_exact_def)
  with d1 show "db_effect (db_bind m0 f0 d0) = (Inr y, db_rows db')" by (simp add: db_bind_def)
qed

text \<open>A transaction is all or nothing, and so is a statement outside one.\<close>

lemma all_or_nothing_tx:
  assumes "db_exact body body0"
  shows "all_or_nothing (db_tx E err body) (db_tx (answering E) err body0)"
  unfolding all_or_nothing_def
proof (intro allI)
  fix db :: "'a sql_db"
  let ?db1 = "db\<lparr>db_stmts := Suc (db_stmts db)\<rparr>"
  show "db_effect (db_tx E err body db) = db_effect (db_tx (answering E) err body0 db) \<or>
     (\<exists>e. db_effect (db_tx E err body db) \<in> {(Inl e, db_rows db), (Inl e, db_rows (snd (db_tx (answering E) err body0 db)))})"
  proof (cases "\<exists>x db2. se_outcome E (db_stmts db) = Answered \<and> body ?db1 = (Inr x, db2)")
    case False
    then have "\<exists>e. db_effect (db_tx E err body db) = (Inl e, db_rows db)"
      by (cases "body ?db1"; cases "fst (body ?db1)")
        (auto simp: db_tx_def db_bind_def db_stmt_def sql_skip_def db_effect_def Let_def split: stmt_outcome.splits)
    then show ?thesis by blast
  next
    case True
    then obtain x db2 where b: "se_outcome E (db_stmts db) = Answered" "body ?db1 = (Inr x, db2)" by blast
    with assms have "db_effect (body0 (db\<lparr>db_stmts := n\<rparr>)) = (Inr x, db_rows db2)" for n by (auto simp: db_exact_def)
    then have whole: "db_effect (db_tx (answering E) err body0 db) = (Inr x, db_rows db2)" by (intro db_tx_ok) simp_all
    then have "db_rows (snd (db_tx (answering E) err body0 db)) = db_rows db2" by (simp add: db_effect_def)
    with whole b show ?thesis
      by (auto simp: db_tx_def db_bind_def db_stmt_def sql_skip_def db_commit_def db_return_def db_effect_def Let_def
          split: stmt_outcome.splits)
  qed
qed

lemma all_or_nothing_stmt:
  "all_or_nothing (db_bind (db_stmt E err f) (\<lambda>x. db_return (g x))) (db_bind (db_stmt (answering E) err f) (\<lambda>x. db_return (g x)))"
  by (auto simp: all_or_nothing_def db_bind_def db_stmt_def db_return_def db_effect_def answering_def Let_def
      split: stmt_outcome.splits sum.splits)

end
