(* ===== verification/Migrations.thy ===== *)
theory Migrations
  imports SqlStore ErrorKernel Decimal "HOL-Library.Multiset" "HOL-Library.Sublist"
begin

text \<open>
  The schema migration runner (\<open>klauthed-data/src/migrate.rs\<close>). The database is the tracking table, its
  rows in the order they were recorded (\<open>None\<close> before the table exists), beside the rest of the data.
  Every statement of the runner, \<open>BEGIN\<close> and \<open>COMMIT\<close> included, is answered, refused or carried out
  without an answer (\<open>mx_outcome\<close>). What the SQL of a migration does to the data, how far it comes when
  it fails, and whether the engine commits implicitly when it executes it (MySQL does so for DDL,
  PostgreSQL and SQLite do not) are parameters too; the SQL of a migration is taken to leave the
  tracking table alone. The state keeps the point the open transaction, if any, rolls back to.
  Two runners at work on one database at the same time are not modelled.
\<close>

section \<open>The runner\<close>

record migration =
  mg_version :: int
  mg_name :: string
  mg_sql :: string

fun adjacent_duplicate :: "migration list \<Rightarrow> int option" where
  "adjacent_duplicate (a # b # ms) =
     (if mg_version a = mg_version b then Some (mg_version a) else adjacent_duplicate (b # ms))"
| "adjacent_duplicate _ = None"

definition migrator_new :: "migration list \<Rightarrow> data_error + migration list" where
  "migrator_new migrations =
     (let ms = sort_key mg_version migrations
      in case adjacent_duplicate ms of
           Some v \<Rightarrow> Inl (DE_Migration (''duplicate migration version '' @ show_int v))
         | None \<Rightarrow> Inr ms)"

record 'd database =
  db_table :: "(int \<times> string) list option"
  db_data :: 'd

record 'd mig_state =
  mi_db :: "'d database"
  mi_saved :: "'d database option"
  mi_stmts :: nat

record 'd mig_env =
  mx_outcome :: "nat \<Rightarrow> stmt_outcome"
  mx_exec :: "string \<Rightarrow> 'd \<Rightarrow> (string + unit) \<times> 'd"
  mx_implicit_commit :: "string \<Rightarrow> bool"
  mx_no_table :: string
  mx_duplicate :: "int \<Rightarrow> string"

type_synonym ('d, 'a) mig = "'d mig_state \<Rightarrow> (data_error + 'a) \<times> 'd mig_state"

text \<open>A statement sent through \<open>sqlx\<close>; the \<open>?\<close> after it turns its error into \<open>DataError::Sqlx\<close>.\<close>

definition mig_stmt :: "'d mig_env \<Rightarrow> ('d mig_state \<Rightarrow> (string + 'a) \<times> 'd mig_state) \<Rightarrow> ('d, 'a) mig" where
  "mig_stmt E f st =
     (let st1 = st\<lparr>mi_stmts := Suc (mi_stmts st)\<rparr>
      in case mx_outcome E (mi_stmts st) of
           Refused m \<Rightarrow> (Inl (DE_Sqlx m), st1)
         | LostAnswer m \<Rightarrow> (Inl (DE_Sqlx m), snd (f st1))
         | Answered \<Rightarrow> (map_sum DE_Sqlx id (fst (f st1)), snd (f st1)))"

definition mig_bind :: "('d, 'a) mig \<Rightarrow> ('a \<Rightarrow> ('d, 'b) mig) \<Rightarrow> ('d, 'b) mig" where
  "mig_bind m f st = (case m st of (Inl e, st1) \<Rightarrow> (Inl e, st1) | (Inr x, st1) \<Rightarrow> f x st1)"

definition create_table :: "'d mig_state \<Rightarrow> (string + unit) \<times> 'd mig_state" where
  "create_table st =
     (Inr (), st\<lparr>mi_db := (mi_db st)\<lparr>db_table := Some (case db_table (mi_db st) of None \<Rightarrow> [] | Some t \<Rightarrow> t)\<rparr>\<rparr>)"

definition ensure_table :: "'d mig_env \<Rightarrow> ('d, unit) mig" where
  "ensure_table E = mig_stmt E create_table"

definition fetch_versions :: "'d mig_env \<Rightarrow> ('d, int list) mig" where
  "fetch_versions E =
     mig_stmt E (\<lambda>st. (case db_table (mi_db st) of None \<Rightarrow> Inl (mx_no_table E) | Some t \<Rightarrow> Inr (sort (map fst t)), st))"

definition tx_open :: "'d mig_state \<Rightarrow> (string + unit) \<times> 'd mig_state" where
  "tx_open st = (Inr (), st\<lparr>mi_saved := Some (mi_db st)\<rparr>)"

definition tx_close :: "'d mig_state \<Rightarrow> (string + unit) \<times> 'd mig_state" where
  "tx_close st = (Inr (), st\<lparr>mi_saved := None\<rparr>)"

text \<open>The transaction is dropped: the server restores what it found, unless it was committed.\<close>

definition tx_abandon :: "'d mig_state \<Rightarrow> 'd mig_state" where
  "tx_abandon st = (case mi_saved st of None \<Rightarrow> st | Some db \<Rightarrow> st\<lparr>mi_db := db, mi_saved := None\<rparr>)"

definition run_sql :: "'d mig_env \<Rightarrow> string \<Rightarrow> 'd mig_state \<Rightarrow> (string + unit) \<times> 'd mig_state" where
  "run_sql E sql st =
     (case mx_exec E sql (db_data (mi_db st)) of
        (r, d) \<Rightarrow> (r, st\<lparr>mi_db := (mi_db st)\<lparr>db_data := d\<rparr>,
                        mi_saved := (if mx_implicit_commit E sql then None else mi_saved st)\<rparr>))"

definition insert_version :: "'d mig_env \<Rightarrow> migration \<Rightarrow> 'd mig_state \<Rightarrow> (string + unit) \<times> 'd mig_state" where
  "insert_version E m st =
     (case db_table (mi_db st) of
        None \<Rightarrow> (Inl (mx_no_table E), st)
      | Some t \<Rightarrow>
          (if mg_version m \<in> fst ` set t then (Inl (mx_duplicate E (mg_version m)), st)
           else (Inr (), st\<lparr>mi_db := (mi_db st)\<lparr>db_table := Some (t @ [(mg_version m, mg_name m)])\<rparr>\<rparr>)))"

text \<open>One migration in its own transaction: the SQL, then the record of its version; every \<open>?\<close> drops the
  transaction.\<close>

definition apply_migration :: "'d mig_env \<Rightarrow> migration \<Rightarrow> ('d, unit) mig" where
  "apply_migration E m st =
     (case mig_bind (mig_stmt E tx_open)
             (\<lambda>_. mig_bind (mig_stmt E (run_sql E (mg_sql m)))
                (\<lambda>_. mig_bind (mig_stmt E (insert_version E m)) (\<lambda>_. mig_stmt E tx_close))) st of
        (Inl e, st1) \<Rightarrow> (Inl e, tx_abandon st1)
      | (Inr _, st1) \<Rightarrow> (Inr (), st1))"

fun run_loop :: "'d mig_env \<Rightarrow> int set \<Rightarrow> migration list \<Rightarrow> nat \<Rightarrow> ('d, nat) mig" where
  "run_loop E applied [] n st = (Inr n, st)"
| "run_loop E applied (m # ms) n st =
     (if mg_version m \<in> applied then run_loop E applied ms n st
      else (case apply_migration E m st of
              (Inl e, st1) \<Rightarrow> (Inl e, st1)
            | (Inr _, st1) \<Rightarrow> run_loop E applied ms (n + 1) st1))"

definition migrator_run :: "'d mig_env \<Rightarrow> migration list \<Rightarrow> ('d, nat) mig" where
  "migrator_run E ms =
     mig_bind (ensure_table E) (\<lambda>_. mig_bind (fetch_versions E) (\<lambda>vs. run_loop E (set vs) ms 0))"

definition migrator_applied :: "'d mig_env \<Rightarrow> ('d, int list) mig" where
  "migrator_applied E = mig_bind (ensure_table E) (\<lambda>_. fetch_versions E)"

section \<open>Which migrations a runner holds\<close>

lemma adjacent_duplicate_None:
  "sorted (map mg_version ms) \<Longrightarrow> adjacent_duplicate ms = None \<longleftrightarrow> distinct (map mg_version ms)"
proof (induction ms rule: adjacent_duplicate.induct)
  case (1 a b ms)
  then show ?case by (cases "mg_version a = mg_version b") (force simp: less_le)+
qed auto

lemma distinct_sort_key: "distinct (map f (sort_key f xs)) = distinct (map f xs)"
  by (rule mset_eq_imp_distinct_iff) simp

lemma migrator_new_spec:
  "migrator_new migrations = Inr ms \<longleftrightarrow> ms = sort_key mg_version migrations \<and> distinct (map mg_version migrations)"
proof -
  show ?thesis
    using adjacent_duplicate_None [of "sort_key mg_version migrations"] distinct_sort_key [of mg_version migrations]
    by (auto simp: migrator_new_def Let_def split: option.splits)
qed

text \<open>What is recorded, the migrations still to run, and what running some of them makes of the data.\<close>

definition recorded :: "'d database \<Rightarrow> (int \<times> string) list" where
  "recorded db = (case db_table db of None \<Rightarrow> [] | Some t \<Rightarrow> t)"

definition pending :: "migration list \<Rightarrow> 'd database \<Rightarrow> migration list" where
  "pending ms db = filter (\<lambda>m. mg_version m \<notin> fst ` set (recorded db)) ms"

fun exec_all :: "'d mig_env \<Rightarrow> migration list \<Rightarrow> 'd \<Rightarrow> string + 'd" where
  "exec_all E [] d = Inr d"
| "exec_all E (m # ms) d = (case mx_exec E (mg_sql m) d of (Inl e, _) \<Rightarrow> Inl e | (Inr _, d') \<Rightarrow> exec_all E ms d')"

definition mig_answered :: "'d mig_env \<Rightarrow> bool" where
  "mig_answered E \<longleftrightarrow> mx_outcome E = (\<lambda>_. Answered)"

section \<open>One migration\<close>

text \<open>The transaction committed, with the data of the migration and its record; or it left nothing.\<close>

definition committed :: "'d mig_env \<Rightarrow> migration \<Rightarrow> 'd database \<Rightarrow> 'd database \<Rightarrow> bool" where
  "committed E m db db' \<longleftrightarrow>
     mx_exec E (mg_sql m) (db_data db) = (Inr (), db_data db') \<and>
     mg_version m \<notin> fst ` set (recorded db) \<and> db_table db' = Some (recorded db @ [(mg_version m, mg_name m)])"

lemma apply_migration_cases:
  assumes "\<not> mx_implicit_commit E (mg_sql m)" and "mi_saved st = None" and "apply_migration E m st = (r, st')"
  shows "mi_saved st' = None \<and>
    (committed E m (mi_db st) (mi_db st') \<or> (\<exists>e. r = Inl e) \<and> mi_db st' = mi_db st)"
proof (cases "mx_exec E (mg_sql m) (db_data (mi_db st))")
  case (Pair x d)
  with assms show ?thesis
    by (cases x; cases "db_table (mi_db st)")
      (auto simp: apply_migration_def mig_bind_def mig_stmt_def tx_open_def tx_close_def tx_abandon_def run_sql_def
        insert_version_def committed_def recorded_def Let_def split: stmt_outcome.splits if_splits)
qed

lemma apply_migration_answered:
  assumes "mig_answered E" and "mx_exec E (mg_sql m) (db_data (mi_db st)) = (Inr (), d)"
    and "db_table (mi_db st) = Some t" and "mg_version m \<notin> fst ` set t"
  shows "fst (apply_migration E m st) = Inr ()"
  using assms
  by (simp add: apply_migration_def mig_bind_def mig_stmt_def tx_open_def tx_close_def run_sql_def insert_version_def
      mig_answered_def Let_def)

section \<open>A run\<close>

abbreviation version_row :: "migration \<Rightarrow> int \<times> string" where
  "version_row m \<equiv> (mg_version m, mg_name m)"

lemma run_loop_spec:
  assumes "\<forall>m \<in> set ms. \<not> mx_implicit_commit E (mg_sql m)" and "mi_saved st = None" and "db_table (mi_db st) = Some t"
    and "run_loop E applied ms n st = (r, st')"
  shows "\<exists>ran. prefix ran (filter (\<lambda>m. mg_version m \<notin> applied) ms)
     \<and> exec_all E ran (db_data (mi_db st)) = Inr (db_data (mi_db st'))
     \<and> db_table (mi_db st') = Some (t @ map version_row ran) \<and> mi_saved st' = None
     \<and> (\<forall>k. r = Inr k \<longrightarrow> k = n + length ran \<and> ran = filter (\<lambda>m. mg_version m \<notin> applied) ms)"
  using assms
proof (induction ms arbitrary: n st t)
  case (Cons m ms)
  show ?case
  proof (cases "mg_version m \<in> applied")
    case True
    with Cons.IH [of st t n] Cons.prems show ?thesis by simp
  next
    case False
    obtain a st1 where a: "apply_migration E m st = (a, st1)" by (cases "apply_migration E m st")
    have saved: "mi_saved st1 = None"
      and cases: "committed E m (mi_db st) (mi_db st1) \<or> (\<exists>e. a = Inl e) \<and> mi_db st1 = mi_db st"
      using apply_migration_cases [OF _ Cons.prems(2) a] Cons.prems(1) by simp_all
    show ?thesis
    proof (cases a)
      case (Inl e)
      then have stop: "r = Inl e" "st' = st1" using Cons.prems(4) False a by simp_all
      from cases show ?thesis
      proof
        assume "committed E m (mi_db st) (mi_db st1)"
        then show ?thesis using stop saved Cons.prems(3) False
          by (intro exI [of _ "[m]"]) (auto simp: committed_def recorded_def)
      next
        assume "(\<exists>e. a = Inl e) \<and> mi_db st1 = mi_db st"
        then show ?thesis using stop saved Cons.prems(3) by (intro exI [of _ "[]"]) simp
      qed
    next
      case (Inr u)
      then have c: "mx_exec E (mg_sql m) (db_data (mi_db st)) = (Inr (), db_data (mi_db st1))"
          "db_table (mi_db st1) = Some (t @ [version_row m])"
        using cases Cons.prems(3) by (auto simp: committed_def recorded_def)
      have "run_loop E applied ms (n + 1) st1 = (r, st')" using Cons.prems(4) False a Inr by simp
      from Cons.IH [OF _ saved c(2) this] Cons.prems(1) obtain ran where
        "prefix ran (filter (\<lambda>m. mg_version m \<notin> applied) ms)" "exec_all E ran (db_data (mi_db st1)) = Inr (db_data (mi_db st'))"
        "db_table (mi_db st') = Some (t @ version_row m # map version_row ran)" "mi_saved st' = None"
        "\<forall>k. r = Inr k \<longrightarrow> k = n + 1 + length ran \<and> ran = filter (\<lambda>m. mg_version m \<notin> applied) ms"
        by auto
      then show ?thesis using False c(1) by (intro exI [of _ "m # ran"]) auto
    qed
  qed
qed auto

lemma run_loop_answered:
  assumes "mig_answered E" and "\<forall>m \<in> set ms. \<not> mx_implicit_commit E (mg_sql m)" and "mi_saved st = None"
    and "db_table (mi_db st) = Some t" and "distinct (map mg_version ms)"
    and "\<forall>m \<in> set ms. mg_version m \<notin> applied \<longrightarrow> mg_version m \<notin> fst ` set t"
    and "exec_all E (filter (\<lambda>m. mg_version m \<notin> applied) ms) (db_data (mi_db st)) = Inr d"
  shows "\<exists>k. fst (run_loop E applied ms n st) = Inr k"
  using assms(2-)
proof (induction ms arbitrary: n st t)
  case (Cons m ms)
  show ?case
  proof (cases "mg_version m \<in> applied")
    case True
    with Cons.IH [of st t n] Cons.prems show ?thesis by simp
  next
    case False
    then obtain d1 where d1: "mx_exec E (mg_sql m) (db_data (mi_db st)) = (Inr (), d1)"
      and rest: "exec_all E (filter (\<lambda>m. mg_version m \<notin> applied) ms) d1 = Inr d"
      using Cons.prems(6) by (auto split: prod.splits sum.splits)
    have fresh: "mg_version m \<notin> fst ` set t" using Cons.prems(5) False by simp
    obtain st1 where st1: "apply_migration E m st = (Inr (), st1)"
      using apply_migration_answered [OF assms(1) d1 Cons.prems(3) fresh] by (cases "apply_migration E m st") simp
    have st1': "mi_saved st1 = None" "db_table (mi_db st1) = Some (t @ [version_row m])" "db_data (mi_db st1) = d1"
      using apply_migration_cases [OF _ Cons.prems(2) st1] Cons.prems(1,3) d1 by (auto simp: committed_def recorded_def)
    have "\<forall>x \<in> set ms. mg_version x \<notin> applied \<longrightarrow> mg_version x \<notin> fst ` set (t @ [version_row m])"
      using Cons.prems(4,5) by (auto simp: image_iff)
    from Cons.IH [OF _ st1'(1,2) _ this, of "n + 1"] Cons.prems rest False st1 st1'(3) show ?thesis by simp
  qed
qed simp

text \<open>What comes before the loop: the table exists, and the versions read are the recorded ones.\<close>

lemma migrator_run_cases:
  assumes "migrator_run E ms st = (r, st')"
  obtains (stopped) e where "r = Inl e" "recorded (mi_db st') = recorded (mi_db st)"
      "db_data (mi_db st') = db_data (mi_db st)" "mi_saved st' = mi_saved st" "\<not> mig_answered E"
    | (looped) st1 where "db_table (mi_db st1) = Some (recorded (mi_db st))" "db_data (mi_db st1) = db_data (mi_db st)"
      "mi_saved st1 = mi_saved st" "run_loop E (fst ` set (recorded (mi_db st))) ms 0 st1 = (r, st')"
proof -
  let ?db = "(mi_db st)\<lparr>db_table := Some (recorded (mi_db st))\<rparr>"
  let ?st1 = "st\<lparr>mi_stmts := Suc (mi_stmts st), mi_db := ?db\<rparr>"
  have make: "snd (create_table (st\<lparr>mi_stmts := Suc (mi_stmts st)\<rparr>)) = ?st1"
    by (simp add: create_table_def recorded_def)
  show thesis
  proof (cases "mx_outcome E (mi_stmts st) = Answered \<and> mx_outcome E (Suc (mi_stmts st)) = Answered")
    case True
    then have "run_loop E (fst ` set (recorded (mi_db st))) ms 0 (?st1\<lparr>mi_stmts := Suc (Suc (mi_stmts st))\<rparr>) = (r, st')"
      using assms
      by (simp add: migrator_run_def mig_bind_def ensure_table_def fetch_versions_def mig_stmt_def create_table_def
          recorded_def [symmetric])
    then show thesis by (rule looped [rotated 3]) simp_all
  next
    case False
    with assms make show thesis
      by (intro stopped [of "projl r"])
        (auto simp: migrator_run_def mig_bind_def ensure_table_def fetch_versions_def mig_stmt_def create_table_def
          mig_answered_def recorded_def Let_def split: stmt_outcome.splits)
  qed
qed

lemma migrator_run_spec:
  assumes "\<forall>m \<in> set ms. \<not> mx_implicit_commit E (mg_sql m)" and "mi_saved st = None" and "migrator_run E ms st = (r, st')"
  shows "\<exists>ran. prefix ran (pending ms (mi_db st)) \<and> exec_all E ran (db_data (mi_db st)) = Inr (db_data (mi_db st'))
    \<and> recorded (mi_db st') = recorded (mi_db st) @ map version_row ran \<and> mi_saved st' = None
    \<and> (\<forall>k. r = Inr k \<longrightarrow> k = length ran \<and> ran = pending ms (mi_db st))"
  using assms(3)
proof (cases rule: migrator_run_cases)
  case (stopped e)
  then show ?thesis using assms(2) by (intro exI [of _ "[]"]) simp
next
  case (looped st1)
  from run_loop_spec [OF assms(1) looped(3) [unfolded assms(2)] looped(1,4)]
  show ?thesis unfolding pending_def [symmetric] looped(2)
    by (elim ex_forward) (auto simp: recorded_def)
qed

lemma pending_after:
  assumes "distinct (map mg_version ms)" and "prefix did (pending ms db)"
    and "recorded db' = recorded db @ map version_row did"
  shows "pending ms db' = drop (length did) (pending ms db)"
proof -
  obtain rest where rest: "pending ms db = did @ rest" using assms(2) by (auto simp: prefix_def)
  have "distinct (map mg_version (pending ms db))" using assms(1) by (simp add: pending_def distinct_map_filter)
  then have "filter (\<lambda>m. mg_version m \<notin> mg_version ` set did) (did @ rest) = rest"
    unfolding rest by (auto simp: filter_empty_conv intro!: filter_True)
  moreover have "pending ms db' = filter (\<lambda>m. mg_version m \<notin> mg_version ` set did) (pending ms db)"
    by (auto simp: pending_def assms(3) image_image image_Un intro: filter_cong)
  ultimately show ?thesis by (simp add: rest)
qed

text \<open>C25: migrations run in order, once, and all or nothing each, on an engine that keeps their SQL in the
  transaction. Let the database refuse or leave unanswered any statement of the run (the creation of
  the tracking table, the read of the versions, \<open>BEGIN\<close>, the SQL, the record, \<open>COMMIT\<close>), and let any
  migration's SQL fail halfway. The database then holds the work of a prefix of the pending migrations
  in ascending order of version, their records and nothing else, and exactly the others are still
  pending: an error leaves no migration half applied, unrecorded, or to be run twice. A run that
  answers has applied all that were pending and counts them, and another run after it, whatever the
  database does then, changes nothing and counts none unless it fails. When every statement is
  answered and the SQL of the pending migrations succeeds, the run does answer.\<close>

theorem migrations_run_once:
  assumes "migrator_new migrations = Inr ms" and "\<forall>m \<in> set ms. \<not> mx_implicit_commit E (mg_sql m)"
    and "mi_saved st = None" and run: "migrator_run E ms st = (r, st')"
  shows "\<exists>did. prefix did (pending ms (mi_db st)) \<and> sorted (map mg_version did) \<and> distinct (map mg_version did)
    \<and> exec_all E did (db_data (mi_db st)) = Inr (db_data (mi_db st'))
    \<and> recorded (mi_db st') = recorded (mi_db st) @ map version_row did
    \<and> pending ms (mi_db st') = drop (length did) (pending ms (mi_db st)) \<and> mi_saved st' = None
    \<and> (\<forall>n. r = Inr n \<longrightarrow> did = pending ms (mi_db st) \<and> n = length did
        \<and> (\<forall>E2 r2 st2. migrator_run E2 ms st' = (r2, st2) \<longrightarrow> recorded (mi_db st2) = recorded (mi_db st')
            \<and> db_data (mi_db st2) = db_data (mi_db st') \<and> (r2 = Inr 0 \<or> (\<exists>e. r2 = Inl e))))
    \<and> (mig_answered E \<and> (\<exists>d. exec_all E (pending ms (mi_db st)) (db_data (mi_db st)) = Inr d) \<longrightarrow> (\<exists>n. r = Inr n))"
proof -
  have ms: "sorted (map mg_version ms)" "distinct (map mg_version ms)"
    using assms(1) by (auto simp: migrator_new_spec distinct_sort_key)
  obtain did where did: "prefix did (pending ms (mi_db st))" "exec_all E did (db_data (mi_db st)) = Inr (db_data (mi_db st'))"
    "recorded (mi_db st') = recorded (mi_db st) @ map version_row did" "mi_saved st' = None"
    "\<forall>k. r = Inr k \<longrightarrow> k = length did \<and> did = pending ms (mi_db st)"
    using migrator_run_spec [OF assms(2,3) run] by blast
  have "sorted (map mg_version (pending ms (mi_db st)))" "distinct (map mg_version (pending ms (mi_db st)))"
    using ms by (auto simp: pending_def sorted_filter distinct_map_filter)
  then have sd: "sorted (map mg_version did)" "distinct (map mg_version did)"
    using did(1) by (auto simp: prefix_def sorted_append)
  note left = pending_after [OF ms(2) did(1,3)]
  have skip: "\<forall>m \<in> set us. mg_version m \<in> A \<Longrightarrow> run_loop E2 A us n s = (Inr n, s)" for E2 :: "'a mig_env" and us A n s
    by (induction us) auto
  have again: "recorded (mi_db st2) = recorded (mi_db st') \<and> db_data (mi_db st2) = db_data (mi_db st') \<and> (r2 = Inr 0 \<or> (\<exists>e. r2 = Inl e))"
    if "did = pending ms (mi_db st)" and run2: "migrator_run E2 ms st' = (r2, st2)" for E2 r2 st2
  proof -
    have all: "\<forall>m \<in> set ms. mg_version m \<in> fst ` set (recorded (mi_db st'))"
      using left that(1) by (auto simp: pending_def filter_empty_conv)
    from run2 show ?thesis
    proof (cases rule: migrator_run_cases)
      case (looped st1)
      then show ?thesis using skip [OF all, of E2 0 st1] by (auto simp: recorded_def)
    qed auto
  qed
  have "\<exists>n. r = Inr n" if "mig_answered E" and "exec_all E (pending ms (mi_db st)) (db_data (mi_db st)) = Inr d" for d
    using run
  proof (cases rule: migrator_run_cases)
    case (looped st1)
    from run_loop_answered [OF that(1) assms(2) looped(3) [unfolded assms(3)] looped(1) ms(2), of "fst ` set (recorded (mi_db st))" d 0]
    show ?thesis using that(2) looped(2,4) by (simp add: pending_def)
  qed (use that in simp)
  then show ?thesis using did sd left again by (intro exI [of _ did]) auto
qed

text \<open>The data is the list of texts executed; a text \<open>bad\<close> fails after having written something. In the run
  below the answer to the commit of the second migration (statement 9) is lost.\<close>

definition append_exec :: "string \<Rightarrow> string list \<Rightarrow> (string + unit) \<times> string list" where
  "append_exec sql d = (if sql = ''bad'' then (Inl ''syntax'', d @ [''half'']) else (Inr (), d @ [sql]))"

definition demo_mig_env :: "(nat \<Rightarrow> stmt_outcome) \<Rightarrow> string list mig_env" where
  "demo_mig_env out = \<lparr>mx_outcome = out, mx_exec = append_exec, mx_implicit_commit = (\<lambda>_. False),
     mx_no_table = ''no such table'', mx_duplicate = (\<lambda>_. ''duplicate version'')\<rparr>"

definition demo_migrations :: "migration list" where
  "demo_migrations = [\<lparr>mg_version = 3, mg_name = ''c'', mg_sql = ''three''\<rparr>, \<lparr>mg_version = 2, mg_name = ''b'', mg_sql = ''two''\<rparr>,
     \<lparr>mg_version = 1, mg_name = ''a'', mg_sql = ''one''\<rparr>]"

definition demo_mig_state :: "string list mig_state" where
  "demo_mig_state = \<lparr>mi_db = \<lparr>db_table = None, db_data = []\<rparr>, mi_saved = None, mi_stmts = 0\<rparr>"

theorem migrations_run_once_witness:
  "\<exists>st'. migrator_new demo_migrations = Inr (rev demo_migrations)
     \<and> migrator_run (demo_mig_env (\<lambda>k. if k = 9 then LostAnswer ''lost'' else Answered)) (rev demo_migrations) demo_mig_state
         = (Inl (DE_Sqlx ''lost''), st')
     \<and> recorded (mi_db st') = [(1, ''a''), (2, ''b'')] \<and> db_data (mi_db st') = [''one'', ''two'']
     \<and> pending (rev demo_migrations) (mi_db st') = [\<lparr>mg_version = 3, mg_name = ''c'', mg_sql = ''three''\<rparr>]"
proof -
  let ?E = "demo_mig_env (\<lambda>k. if k = 9 then LostAnswer ''lost'' else Answered)"
  let ?run = "migrator_run ?E (rev demo_migrations) demo_mig_state"
  have n: "migrator_new demo_migrations = Inr (rev demo_migrations)"
    by (simp add: migrator_new_def demo_migrations_def Let_def)
  have imp: "\<forall>m \<in> set (rev demo_migrations). \<not> mx_implicit_commit ?E (mg_sql m)" by (simp add: demo_mig_env_def)
  have sav: "mi_saved demo_mig_state = None" by (simp add: demo_mig_state_def)
  have f: "fst ?run = Inl (DE_Sqlx ''lost'')" by code_simp
  have rec: "recorded (mi_db (snd ?run)) = [(1, ''a''), (2, ''b'')]" by code_simp
  have dat: "db_data (mi_db (snd ?run)) = [''one'', ''two'']" by code_simp
  have all: "pending (rev demo_migrations) (mi_db demo_mig_state) = rev demo_migrations" by code_simp
  obtain did :: "migration list" where "recorded (mi_db (snd ?run)) = recorded (mi_db demo_mig_state) @ map version_row did"
    "pending (rev demo_migrations) (mi_db (snd ?run)) = drop (length did) (pending (rev demo_migrations) (mi_db demo_mig_state))"
    using migrations_run_once [OF n imp sav prod.collapse [symmetric]] by blast
  moreover from this(1) have "length did = 2" unfolding rec by (auto simp: demo_mig_state_def recorded_def Cons_eq_map_conv)
  ultimately have "pending (rev demo_migrations) (mi_db (snd ?run)) = [\<lparr>mg_version = 3, mg_name = ''c'', mg_sql = ''three''\<rparr>]"
    unfolding all by (simp add: demo_migrations_def)
  with n f rec dat show ?thesis by (intro exI [of _ "snd ?run"]) (simp only: prod_eq_iff fst_conv snd_conv simp_thms)
qed

end
