(* ===== verification/Oidc.thy ===== *)
theory Oidc
  imports ErrorKernel Instants Http
begin

text \<open>
  The relying-party side of OpenID Connect (\<open>klauthed-protocol/src\<close>): the claims of an ID token and
  their validation (\<open>oidc/claims.rs\<close>, \<open>oidc/validation.rs\<close>), JSON Web Keys and the selection of a
  verification key (\<open>jwks\<close>), and the errors (\<open>error/protocol_error.rs\<close>). Times are \<open>i64\<close>; sums and
  differences wrap, as they do where overflow checks are off.
\<close>

datatype protocol_error =
    PR_InvalidToken string
  | PR_Unsupported string
  | PR_MissingField string
  | PR_InvalidValue string string
  | PR_Malformed string
  | PR_IdTokenExpired int int int
  | PR_IdTokenNotYetValid int int int
  | PR_IssuerMismatch string string
  | PR_AudienceMismatch string
  | PR_NonceMismatch
  | PR_KeyNotFound string
  | PR_UnsupportedKeyType string

text \<open>The category and the code the derive attributes give each variant.\<close>

fun protocol_error_classify :: "protocol_error \<Rightarrow> error_category \<times> string" where
  "protocol_error_classify (PR_InvalidToken _) = (BadRequest, ''protocol.invalid_token'')"
| "protocol_error_classify (PR_Unsupported _) = (BadRequest, ''protocol.unsupported'')"
| "protocol_error_classify (PR_MissingField _) = (BadRequest, ''protocol.missing_field'')"
| "protocol_error_classify (PR_InvalidValue _ _) = (BadRequest, ''protocol.invalid_value'')"
| "protocol_error_classify (PR_Malformed _) = (BadRequest, ''protocol.malformed'')"
| "protocol_error_classify (PR_IdTokenExpired _ _ _) = (Unauthorized, ''protocol.id_token_expired'')"
| "protocol_error_classify (PR_IdTokenNotYetValid _ _ _) = (Unauthorized, ''protocol.id_token_not_yet_valid'')"
| "protocol_error_classify (PR_IssuerMismatch _ _) = (Unauthorized, ''protocol.issuer_mismatch'')"
| "protocol_error_classify (PR_AudienceMismatch _) = (Unauthorized, ''protocol.audience_mismatch'')"
| "protocol_error_classify PR_NonceMismatch = (Unauthorized, ''protocol.nonce_mismatch'')"
| "protocol_error_classify (PR_KeyNotFound _) = (BadRequest, ''protocol.key_not_found'')"
| "protocol_error_classify (PR_UnsupportedKeyType _) = (BadRequest, ''protocol.unsupported_key_type'')"

section \<open>ID tokens\<close>

datatype audience = Aud_One string | Aud_Many "string list"

definition audience_list :: "audience \<Rightarrow> string list" where
  "audience_list a = (case a of Aud_One s \<Rightarrow> [s] | Aud_Many v \<Rightarrow> v)"

definition audience_contains :: "audience \<Rightarrow> string \<Rightarrow> bool" where
  "audience_contains a candidate = list_ex (\<lambda>x. x = candidate) (audience_list a)"

text \<open>The fields of the claims that validation reads; the profile claims are carried along.\<close>

record 'p id_token_claims =
  it_iss :: string
  it_sub :: string
  it_aud :: audience
  it_exp :: int
  it_iat :: int
  it_auth_time :: "int option"
  it_nonce :: "string option"
  it_acr :: "string option"
  it_amr :: "string list"
  it_azp :: "string option"
  it_standard :: 'p

record id_token_validation =
  iv_expected_issuer :: string
  iv_expected_audience :: string
  iv_now :: int
  iv_expected_nonce :: "string option"
  iv_leeway :: int

definition validation_new :: "string \<Rightarrow> string \<Rightarrow> int \<Rightarrow> id_token_validation" where
  "validation_new iss aud now =
     \<lparr>iv_expected_issuer = iss, iv_expected_audience = aud, iv_now = now, iv_expected_nonce = None, iv_leeway = 0\<rparr>"

definition validation_with_nonce :: "string \<Rightarrow> id_token_validation \<Rightarrow> id_token_validation" where
  "validation_with_nonce n v = v\<lparr>iv_expected_nonce := Some n\<rparr>"

definition validation_with_leeway :: "int \<Rightarrow> id_token_validation \<Rightarrow> id_token_validation" where
  "validation_with_leeway l v = v\<lparr>iv_leeway := l\<rparr>"

definition validate_id_token :: "'p id_token_claims \<Rightarrow> id_token_validation \<Rightarrow> protocol_error + unit" where
  "validate_id_token c opts =
     (if it_iss c \<noteq> iv_expected_issuer opts
      then Inl (PR_IssuerMismatch (iv_expected_issuer opts) (it_iss c))
      else if \<not> audience_contains (it_aud c) (iv_expected_audience opts)
      then Inl (PR_AudienceMismatch (iv_expected_audience opts))
      else if it_exp c \<le> as_i64 (iv_now opts - iv_leeway opts)
      then Inl (PR_IdTokenExpired (it_exp c) (iv_now opts) (iv_leeway opts))
      else if it_iat c > as_i64 (iv_now opts + iv_leeway opts)
      then Inl (PR_IdTokenNotYetValid (it_iat c) (iv_now opts) (iv_leeway opts))
      else (case iv_expected_nonce opts of
              Some expected \<Rightarrow> if it_nonce c \<noteq> Some expected then Inl PR_NonceMismatch else Inr ()
            | None \<Rightarrow> Inr ()))"

section \<open>Key sets\<close>

datatype key_type = KeyRsa | KeyEc | KeyOct | KeyOkp
datatype public_key_use = Use_Signature | Use_Encryption

record json_web_key =
  jk_kty :: key_type
  jk_use :: "public_key_use option"
  jk_kid :: "string option"
  jk_alg :: "string option"
  jk_key_ops :: "string list"
  jk_n :: "string option"
  jk_e :: "string option"
  jk_crv :: "string option"
  jk_x :: "string option"
  jk_y :: "string option"
  jk_k :: "string option"
  jk_x5c :: "string list"
  jk_x5t :: "string option"
  jk_additional :: "(string \<times> json) list"

definition jwk_kind :: "json_web_key \<Rightarrow> key_type option" where
  "jwk_kind k = Some (jk_kty k)"

definition is_signing_key :: "json_web_key \<Rightarrow> bool" where
  "is_signing_key k = (jk_use k \<noteq> Some Use_Encryption)"

definition jwks_find :: "json_web_key list \<Rightarrow> string \<Rightarrow> json_web_key option" where
  "jwks_find keys kid = find (\<lambda>k. jk_kid k = Some kid) keys"

definition find_signing_keys :: "json_web_key list \<Rightarrow> json_web_key list" where
  "find_signing_keys keys = filter (\<lambda>k. is_signing_key k \<and> jk_kty k \<noteq> KeyOct) keys"

definition jwks_select :: "json_web_key list \<Rightarrow> string option \<Rightarrow> string option \<Rightarrow> json_web_key option" where
  "jwks_select keys kid alg =
     (case kid of
        Some i \<Rightarrow> jwks_find keys i
      | None \<Rightarrow>
          find (\<lambda>k. case alg of
                      Some a \<Rightarrow> (case jk_alg k of None \<Rightarrow> True | Some b \<Rightarrow> b = a)
                    | None \<Rightarrow> True) (find_signing_keys keys))"

definition jwks_require :: "json_web_key list \<Rightarrow> string \<Rightarrow> protocol_error + json_web_key" where
  "jwks_require keys kid = ok_or (PR_KeyNotFound kid) (jwks_find keys kid)"

section \<open>What an accepted token guarantees\<close>

text \<open>C13: an ID token is accepted exactly when every claim checks out. With a clock and a leeway whose sum
  and difference fit 64 bits, validation succeeds exactly when the issuer is the expected one, the
  audience contains the client, the expiry lies strictly after now less the leeway, the issue time is
  not after now plus the leeway, and an expected nonce is present and equal; every failure is an
  authentication error.\<close>

theorem id_token_accepted_iff:
  assumes "- (2 ^ 63) \<le> iv_now opts - iv_leeway opts" and "iv_now opts - iv_leeway opts < 2 ^ 63"
    and "- (2 ^ 63) \<le> iv_now opts + iv_leeway opts" and "iv_now opts + iv_leeway opts < 2 ^ 63"
  shows "(validate_id_token c opts = Inr () \<longleftrightarrow>
       it_iss c = iv_expected_issuer opts
       \<and> iv_expected_audience opts \<in> set (audience_list (it_aud c))
       \<and> iv_now opts - iv_leeway opts < it_exp c
       \<and> it_iat c \<le> iv_now opts + iv_leeway opts
       \<and> (\<forall>n. iv_expected_nonce opts = Some n \<longrightarrow> it_nonce c = Some n))
     \<and> (\<forall>e. validate_id_token c opts = Inl e \<longrightarrow> fst (protocol_error_classify e) = Unauthorized)"
proof -
  have "as_i64 (iv_now opts - iv_leeway opts) = iv_now opts - iv_leeway opts"
    "as_i64 (iv_now opts + iv_leeway opts) = iv_now opts + iv_leeway opts"
    using assms by (simp_all add: as_i64_def)
  then show ?thesis
    by (auto simp: validate_id_token_def audience_contains_def list_ex_iff split: option.splits)
qed

definition demo_id_token :: "unit id_token_claims" where
  "demo_id_token = \<lparr>it_iss = ''https://op'', it_sub = ''u1'', it_aud = Aud_Many [''other'', ''app''], it_exp = 1100,
     it_iat = 1000, it_auth_time = None, it_nonce = Some ''n'', it_acr = None, it_amr = [], it_azp = None, it_standard = ()\<rparr>"

theorem id_token_accepted_iff_witness:
  "validate_id_token demo_id_token (validation_with_leeway 5 (validation_with_nonce ''n'' (validation_new ''https://op'' ''app'' 1104)))
     = Inr ()"
  using id_token_accepted_iff [of "validation_with_leeway 5 (validation_with_nonce ''n'' (validation_new ''https://op'' ''app'' 1104))"
      demo_id_token]
  by (simp add: validation_with_leeway_def validation_with_nonce_def validation_new_def demo_id_token_def audience_list_def)

text \<open>A key chosen without a key id is never a symmetric or an encryption key and fits the algorithm; a
  key id is honoured as it stands, whatever the use of the key it names.\<close>

lemma find_sound: "find P xs = Some x \<Longrightarrow> x \<in> set xs \<and> P x"
  by (induction xs) (auto split: if_splits)

lemma jwks_select_signing:
  assumes "jwks_select keys None alg = Some k"
  shows "k \<in> set keys \<and> is_signing_key k \<and> jk_kty k \<noteq> KeyOct
    \<and> (\<forall>a b. alg = Some a \<longrightarrow> jk_alg k = Some b \<longrightarrow> b = a)"
  using assms
  by (auto simp: jwks_select_def find_signing_keys_def split: option.splits dest!: find_sound)

lemma jwks_select_kid: "jwks_select keys (Some i) alg = jwks_find keys i"
  by (simp add: jwks_select_def)

end
