(* ===== verification/SqlJobs.thy ===== *)
theory SqlJobs
  imports Jobs SqlStore Decimal
begin

text \<open>
  The durable job queue over a relational table (\<open>klauthed-platform/src/jobs/sql.rs\<close>). A row holds
  texts and 64-bit integers; instants are stored as milliseconds. The formats of job ids and of JSON
  payloads are the \<open>uuid\<close> and \<open>serde_json\<close> crates': fields of \<open>job_codec\<close>. The theorems relate the
  table to the in-memory queue, operation by operation and along histories.
\<close>

record job_codec =
  jid_show :: "nat \<Rightarrow> string"
  jid_parse :: "string \<Rightarrow> string + nat"
  payload_show :: "json \<Rightarrow> string + string"
  payload_parse :: "string \<Rightarrow> string + json"

text \<open>What the code relies on: ids are read back as printed and the hyphenated form of a UUID sorts like
  the UUID; a payload prints and is read back.\<close>

definition job_codec_ok :: "job_codec \<Rightarrow> bool" where
  "job_codec_ok K \<longleftrightarrow>
     (\<forall>i. jid_parse K (jid_show K i) = Inr i) \<and>
     (\<forall>i j. jid_show K i \<le> jid_show K j \<longleftrightarrow> i \<le> j)"

definition payload_ok :: "job_codec \<Rightarrow> json \<Rightarrow> bool" where
  "payload_ok K v = (case payload_show K v of Inl _ \<Rightarrow> False | Inr s \<Rightarrow> payload_parse K s = Inr v)"

datatype sql_dialect = Sql_Question | Sql_Dollar

definition db_err :: "string \<Rightarrow> platform_error" where
  "db_err m = PE_Backend (''job queue: '' @ m)"

fun status_str :: "job_status \<Rightarrow> string" where
  "status_str Queued = ''queued''"
| "status_str Running = ''running''"
| "status_str Succeeded = ''succeeded''"
| "status_str Failed = ''failed''"

definition quoted :: "string \<Rightarrow> string" where
  "quoted s = [CHR 0x27] @ s @ [CHR 0x27]"

definition parse_status :: "string \<Rightarrow> platform_error + job_status" where
  "parse_status s =
     (if s = ''queued'' then Inr Queued
      else if s = ''running'' then Inr Running
      else if s = ''succeeded'' then Inr Succeeded
      else if s = ''failed'' then Inr Failed
      else Inl (PE_Backend (''unknown job status '' @ quoted s)))"

record job_row =
  jr_id :: string
  jr_kind :: string
  jr_payload :: string
  jr_run_at :: int
  jr_attempts :: int
  jr_max_attempts :: int
  jr_status :: string
  jr_created_at :: int
  jr_last_error :: "string option"

text \<open>\<open>u32::try_from(n).unwrap_or(u32::MAX)\<close>.\<close>

definition u32_or_max :: "int \<Rightarrow> u32" where
  "u32_or_max n = (if 0 \<le> n \<and> n < 2 ^ 32 then word_of_int n else - 1)"

definition row_to_job :: "job_codec \<Rightarrow> time_range \<Rightarrow> job_row \<Rightarrow> platform_error + enqueued_job" where
  "row_to_job K R row =
     (case jid_parse K (jr_id row) of
        Inl e \<Rightarrow> Inl (PE_Backend (''invalid job id '' @ quoted (jr_id row) @ '': '' @ e))
      | Inr i \<Rightarrow>
          (case payload_parse K (jr_payload row) of
             Inl e \<Rightarrow> Inl (PE_Backend (''invalid job payload json: '' @ e))
           | Inr payload \<Rightarrow>
               (case parse_status (jr_status row) of
                  Inl e \<Rightarrow> Inl e
                | Inr status \<Rightarrow>
                    Inr \<lparr>ej_id = i, ej_kind = jr_kind row, ej_payload = payload,
                         ej_run_at = from_unix_millis R (jr_run_at row),
                         ej_attempts = u32_or_max (jr_attempts row),
                         ej_max_attempts = u32_or_max (jr_max_attempts row), ej_status = status,
                         ej_created_at = from_unix_millis R (jr_created_at row),
                         ej_last_error = jr_last_error row\<rparr>)))"

section \<open>The queue\<close>

record sql_job_queue =
  sq_default_max_attempts :: u32
  sq_table :: string
  sq_dialect :: sql_dialect

definition sql_jobs_new :: "string \<Rightarrow> sql_job_queue" where
  "sql_jobs_new scheme =
     \<lparr>sq_default_max_attempts = DEFAULT_MAX_ATTEMPTS, sq_table = ''jobs'',
      sq_dialect = (if take 8 scheme = ''postgres'' then Sql_Dollar else Sql_Question)\<rparr>"

definition sql_jobs_with_max_attempts :: "u32 \<Rightarrow> sql_job_queue \<Rightarrow> sql_job_queue" where
  "sql_jobs_with_max_attempts n s = s\<lparr>sq_default_max_attempts := max n 1\<rparr>"

text \<open>The loop of \<open>rewrite\<close>; the counter is a \<open>u32\<close>.\<close>

fun rewrite_loop :: "string \<Rightarrow> u32 \<Rightarrow> string" where
  "rewrite_loop [] n = []"
| "rewrite_loop (ch # cs) n =
     (if ch = CHR ''?'' then CHR ''$'' # show_nat (unat (n + 1)) @ rewrite_loop cs (n + 1)
      else ch # rewrite_loop cs n)"

definition rewrite :: "sql_job_queue \<Rightarrow> string \<Rightarrow> string" where
  "rewrite s sql = (case sq_dialect s of Sql_Question \<Rightarrow> sql | Sql_Dollar \<Rightarrow> rewrite_loop sql 0)"

type_synonym 'a job_db = "job_row sql_db \<Rightarrow> (platform_error + 'a) \<times> job_row sql_db"

definition sql_jobs_insert ::
  "job_codec \<Rightarrow> sql_env \<Rightarrow> sql_job_queue \<Rightarrow> nat \<Rightarrow> timestamp \<Rightarrow> string \<Rightarrow> json \<Rightarrow> timestamp \<Rightarrow> enqueued_job job_db" where
  "sql_jobs_insert K E s i now kind payload run_at db =
     (let job = \<lparr>ej_id = i, ej_kind = kind, ej_payload = payload, ej_run_at = run_at, ej_attempts = 0,
                 ej_max_attempts = sq_default_max_attempts s, ej_status = Queued, ej_created_at = now,
                 ej_last_error = None\<rparr>
      in case payload_show K (ej_payload job) of
           Inl e \<Rightarrow> (Inl (PE_Backend (''serialize job payload: '' @ e)), db)
         | Inr payload_str \<Rightarrow>
             db_bind (db_stmt E db_err (sql_insert E jr_id
                \<lparr>jr_id = jid_show K (ej_id job), jr_kind = ej_kind job, jr_payload = payload_str,
                 jr_run_at = unix_millis (ej_run_at job), jr_attempts = uint (ej_attempts job),
                 jr_max_attempts = uint (ej_max_attempts job), jr_status = status_str (ej_status job),
                 jr_created_at = unix_millis (ej_created_at job), jr_last_error = None\<rparr>))
               (\<lambda>_. db_return (Inr job)) db)"

definition sql_jobs_enqueue ::
  "job_codec \<Rightarrow> sql_env \<Rightarrow> sql_job_queue \<Rightarrow> nat \<Rightarrow> timestamp \<Rightarrow> timestamp \<Rightarrow> string \<Rightarrow> json \<Rightarrow> enqueued_job job_db" where
  "sql_jobs_enqueue K E s i now now' kind payload = sql_jobs_insert K E s i now' kind payload now"

definition sql_jobs_schedule ::
  "job_codec \<Rightarrow> sql_env \<Rightarrow> sql_job_queue \<Rightarrow> nat \<Rightarrow> timestamp \<Rightarrow> string \<Rightarrow> json \<Rightarrow> timestamp \<Rightarrow> enqueued_job job_db" where
  "sql_jobs_schedule K E s i now kind payload run_at = sql_jobs_insert K E s i now kind payload run_at"

definition set_running :: "job_row \<Rightarrow> job_row" where
  "set_running r = r\<lparr>jr_status := ''running'', jr_attempts := jr_attempts r + 1\<rparr>"

text \<open>The loop \<open>claim\<close> and \<open>dequeue_stalled\<close> run over the rows they selected: decode the row, send the
  update \<open>f\<close> for its id, and push the job with the same change \<open>g\<close>.\<close>

fun rows_loop ::
  "job_codec \<Rightarrow> time_range \<Rightarrow> sql_env \<Rightarrow> (job_row \<Rightarrow> job_row) \<Rightarrow> (enqueued_job \<Rightarrow> enqueued_job) \<Rightarrow> job_row list
   \<Rightarrow> enqueued_job list job_db" where
  "rows_loop K R E f g [] db = (Inr [], db)"
| "rows_loop K R E f g (row # rows) db =
     (case row_to_job K R row of
        Inl e \<Rightarrow> (Inl e, db)
      | Inr job \<Rightarrow>
          db_bind (db_stmt E db_err (sql_update (\<lambda>r. jr_id r = jid_show K (ej_id job)) f))
            (\<lambda>_. db_bind (rows_loop K R E f g rows) (\<lambda>done_jobs. db_return (Inr (g job # done_jobs)))) db)"

definition claim_rows :: "job_codec \<Rightarrow> time_range \<Rightarrow> sql_env \<Rightarrow> job_row list \<Rightarrow> enqueued_job list job_db" where
  "claim_rows K R E =
     rows_loop K R E set_running (\<lambda>job. job\<lparr>ej_status := Running, ej_attempts := ej_attempts job + 1\<rparr>)"

text \<open>\<open>ORDER BY run_at ASC, id ASC\<close> with the optional \<open>LIMIT\<close>.\<close>

definition due_rows :: "nat option \<Rightarrow> job_row list \<Rightarrow> job_row list" where
  "due_rows limit rows =
     (let sorted = sort_key (\<lambda>r. (jr_run_at r, jr_id r)) rows
      in case limit of None \<Rightarrow> sorted | Some n \<Rightarrow> take (min n (2 ^ 63 - 1)) sorted)"

text \<open>\<open>claim\<close>; \<open>FOR UPDATE SKIP LOCKED\<close> matters only between connections, so both claims are one
  definition here.\<close>

definition sql_jobs_claim ::
  "job_codec \<Rightarrow> time_range \<Rightarrow> sql_env \<Rightarrow> timestamp \<Rightarrow> nat option \<Rightarrow> enqueued_job list job_db" where
  "sql_jobs_claim K R E now limit =
     db_tx E db_err
       (db_bind (db_stmt E db_err (sql_select (\<lambda>r. jr_status r = ''queued'' \<and> jr_run_at r \<le> unix_millis now) (due_rows limit)))
          (claim_rows K R E))"

definition sql_jobs_dequeue_due ::
  "job_codec \<Rightarrow> time_range \<Rightarrow> sql_env \<Rightarrow> timestamp \<Rightarrow> nat option \<Rightarrow> enqueued_job list job_db" where
  "sql_jobs_dequeue_due K R E now limit = sql_jobs_claim K R E now limit"

definition sql_jobs_mark_succeeded :: "job_codec \<Rightarrow> sql_env \<Rightarrow> nat \<Rightarrow> unit job_db" where
  "sql_jobs_mark_succeeded K E i =
     db_bind (db_stmt E db_err (sql_update (\<lambda>r. jr_id r = jid_show K i)
                (\<lambda>r. r\<lparr>jr_status := ''succeeded'', jr_last_error := None\<rparr>)))
       (\<lambda>affected. db_return (if affected = 0 then Inl (PE_JobNotFound (jid_show K i)) else Inr ()))"

text \<open>The update \<open>mark_failed\<close> sends, given the row it read: terminal when no attempts are left, else
  queued again after the backoff.\<close>

definition fail_row :: "time_range \<Rightarrow> timestamp \<Rightarrow> string \<Rightarrow> job_row \<Rightarrow> job_row \<Rightarrow> job_row" where
  "fail_row R now reason row r =
     (if jr_max_attempts row \<le> jr_attempts row
      then r\<lparr>jr_status := ''failed'', jr_last_error := Some reason\<rparr>
      else (let delay = backoff_for_attempt (u32_or_max (jr_attempts row));
                new_run_at = unix_millis (case checked_add R now delay of None \<Rightarrow> now | Some t \<Rightarrow> t)
            in r\<lparr>jr_status := ''queued'', jr_run_at := new_run_at, jr_last_error := Some reason\<rparr>))"

definition sql_jobs_mark_failed ::
  "job_codec \<Rightarrow> time_range \<Rightarrow> sql_env \<Rightarrow> timestamp \<Rightarrow> nat \<Rightarrow> string \<Rightarrow> unit job_db" where
  "sql_jobs_mark_failed K R E now i reason =
     (let this = (\<lambda>r. jr_id r = jid_show K i)
      in db_tx E db_err
           (db_bind (db_stmt E db_err (sql_select this (\<lambda>rows. case rows of [] \<Rightarrow> None | r # _ \<Rightarrow> Some r)))
              (\<lambda>found. case found of
                 None \<Rightarrow> db_return (Inl (PE_JobNotFound (jid_show K i)))
               | Some row \<Rightarrow>
                   db_bind (db_stmt E db_err (sql_update this (fail_row R now reason row)))
                     (\<lambda>_. db_return (Inr ())))))"

definition recover_rows ::
  "job_codec \<Rightarrow> time_range \<Rightarrow> sql_env \<Rightarrow> timestamp \<Rightarrow> job_row list \<Rightarrow> enqueued_job list job_db" where
  "recover_rows K R E now =
     rows_loop K R E (\<lambda>r. r\<lparr>jr_status := ''queued'', jr_run_at := unix_millis now\<rparr>)
       (\<lambda>job. job\<lparr>ej_status := Queued, ej_run_at := now\<rparr>)"

text \<open>\<open>i64::saturating_sub\<close>, and \<open>i64::try_from(n).unwrap_or(i64::MAX)\<close>.\<close>

definition i64_saturating_sub :: "int \<Rightarrow> int \<Rightarrow> int" where
  "i64_saturating_sub a b = max (- (2 ^ 63)) (min (2 ^ 63 - 1) (a - b))"

definition i64_or_max :: "int \<Rightarrow> int" where
  "i64_or_max n = (if - (2 ^ 63) \<le> n \<and> n < 2 ^ 63 then n else 2 ^ 63 - 1)"

definition sql_jobs_dequeue_stalled ::
  "job_codec \<Rightarrow> time_range \<Rightarrow> sql_env \<Rightarrow> timestamp \<Rightarrow> duration \<Rightarrow> enqueued_job list job_db" where
  "sql_jobs_dequeue_stalled K R E now stall_after =
     (let stall_ms = i64_or_max (whole_milliseconds stall_after);
          cutoff = i64_saturating_sub (unix_millis now) stall_ms
      in db_tx E db_err
           (db_bind (db_stmt E db_err (sql_select (\<lambda>r. jr_status r = ''running'' \<and> jr_run_at r < cutoff) (\<lambda>rows. rows)))
              (recover_rows K R E now)))"

section \<open>Rows and jobs\<close>

definition millis_exact :: "time_range \<Rightarrow> timestamp \<Rightarrow> bool" where
  "millis_exact R t = (t mod 1000000 = 0 \<and> in_range R t)"

lemma millis_exact:
  assumes "range_ok R" and "millis_exact R t"
  shows "unix_millis t * 1000000 = t" and "from_unix_millis R (unix_millis t) = t"
    and "- (2 ^ 63) \<le> unix_millis t" and "unix_millis t < 2 ^ 63"
proof -
  define m where "m = t div 1000000"
  have t: "t = m * 1000000"
    using assms(2) div_mult_mod_eq [of t 1000000] by (simp add: millis_exact_def m_def)
  with assms have r: "- (2 ^ 63) \<le> m \<and> m < 2 ^ 63" by (intro in_range_millis) (auto simp: millis_exact_def)
  then have u: "unix_millis t = m" by (simp add: t unix_millis_def as_i64_id)
  show "unix_millis t * 1000000 = t" "- (2 ^ 63) \<le> unix_millis t" "unix_millis t < 2 ^ 63"
    unfolding u using r by (simp_all add: t)
  show "from_unix_millis R (unix_millis t) = t"
    using assms(2) u t by (simp add: from_unix_millis_def from_unix_millis_opt_def millis_exact_def)
qed

lemma millis_exact_le:
  assumes "range_ok R" and "millis_exact R t" and "millis_exact R t'"
  shows "unix_millis t \<le> unix_millis t' \<longleftrightarrow> t \<le> t'"
  using millis_exact(1) [OF assms(1,2)] millis_exact(1) [OF assms(1,3)] by linarith

text \<open>The row \<open>insert\<close> writes for a job, at any later point of its life.\<close>

definition encode :: "job_codec \<Rightarrow> enqueued_job \<Rightarrow> job_row" where
  "encode K j = \<lparr>jr_id = jid_show K (ej_id j), jr_kind = ej_kind j, jr_payload = projr (payload_show K (ej_payload j)),
     jr_run_at = unix_millis (ej_run_at j), jr_attempts = uint (ej_attempts j), jr_max_attempts = uint (ej_max_attempts j),
     jr_status = status_str (ej_status j), jr_created_at = unix_millis (ej_created_at j), jr_last_error = ej_last_error j\<rparr>"

definition job_storable :: "job_codec \<Rightarrow> time_range \<Rightarrow> enqueued_job \<Rightarrow> bool" where
  "job_storable K R j =
     (millis_exact R (ej_run_at j) \<and> millis_exact R (ej_created_at j) \<and> payload_ok K (ej_payload j))"

lemma status_roundtrip: "parse_status (status_str s) = Inr s"
  by (cases s) (simp_all add: parse_status_def)

lemma status_str_inj [simp]: "status_str s = status_str s' \<longleftrightarrow> s = s'"
  by (metis status_roundtrip sum.inject(2))

lemma u32_or_max_uint [simp]: "u32_or_max (uint (w :: u32)) = w"
  using uint_lt2p [of w] by (simp add: u32_or_max_def)

lemma row_roundtrip:
  assumes "job_codec_ok K" and "range_ok R" and "job_storable K R j"
  shows "row_to_job K R (encode K j) = Inr j"
  using assms millis_exact(2) [OF assms(2)]
  by (auto simp: row_to_job_def encode_def job_codec_ok_def status_roundtrip job_storable_def payload_ok_def split: sum.splits)

lemma jid_show_eq: "job_codec_ok K \<Longrightarrow> jid_show K i = jid_show K j \<longleftrightarrow> i = j"
  unfolding job_codec_ok_def by (metis sum.inject(2))

lemma update_encoded:
  assumes "job_codec_ok K" and "\<forall>j \<in> set js. ej_id j = i \<longrightarrow> f (encode K j) = encode K (g j)"
  shows "sql_update (\<lambda>r. jr_id r = jid_show K i) f (map (encode K) js) =
    Inr (length (filter (\<lambda>j. ej_id j = i) js), map (encode K) (map (\<lambda>j. if ej_id j = i then g j else j) js))"
  using assms(2) by (auto simp: sql_update_def encode_def jid_show_eq [OF assms(1)] filter_map comp_def)

lemma rows_loop_effect:
  assumes "fault_free E" and "job_codec_ok K" and "range_ok R" and "\<And>j. ej_id (g j) = ej_id j"
  shows "\<lbrakk>\<forall>j \<in> set cs. job_storable K R j; distinct (map ej_id cs);
     \<forall>j \<in> set js. ej_id j \<in> ej_id ` set cs \<longrightarrow> f (encode K j) = encode K (g j); db_rows db = map (encode K) js\<rbrakk> \<Longrightarrow>
   db_effect (rows_loop K R E f g (map (encode K) cs) db) =
     (Inr (map g cs), map (encode K) (map (\<lambda>j. if ej_id j \<in> ej_id ` set cs then g j else j) js))"
proof (induction cs arbitrary: js db)
  case (Cons c cs)
  let ?js = "map (\<lambda>j. if ej_id j = ej_id c then g j else j) js"
  let ?db = "db\<lparr>db_stmts := Suc (db_stmts db), db_rows := map (encode K) ?js\<rparr>"
  have stmt: "db_stmt E db_err (sql_update (\<lambda>r. jr_id r = jid_show K (ej_id c)) f) db
      = (Inr (length (filter (\<lambda>j. ej_id j = ej_id c) js)), ?db)"
    using Cons.prems(3) unfolding Cons.prems(4)
    by (intro db_stmt_ok [OF assms(1)]) (simp only: Cons.prems(4), rule update_encoded [OF assms(2)], auto)
  have IH: "db_effect (rows_loop K R E f g (map (encode K) cs) ?db) =
      (Inr (map g cs), map (encode K) (map (\<lambda>j. if ej_id j \<in> ej_id ` set cs then g j else j) ?js))"
    using Cons.prems by (intro Cons.IH) (auto simp: assms(4))
  have "map (\<lambda>j. if ej_id j \<in> ej_id ` set cs then g j else j) ?js
      = map (\<lambda>j. if ej_id j \<in> ej_id ` set (c # cs) then g j else j) js"
    using Cons.prems(2) by (auto simp: assms(4))
  with IH show ?case
    using Cons.prems(1) row_roundtrip [OF assms(2,3), of c]
    by (cases "rows_loop K R E f g (map (encode K) cs) ?db") (simp add: db_bind_def stmt db_return_def db_effect_def)
qed (simp add: db_effect_def)

section \<open>The table simulates the in-memory queue\<close>

definition table_rel :: "job_codec \<Rightarrow> time_range \<Rightarrow> sql_job_queue \<Rightarrow> job_row list \<Rightarrow> job_queue \<Rightarrow> bool" where
  "table_rel K R s rows q \<longleftrightarrow>
     rows = map (encode K) (jq_jobs q) \<and> queue_ok q \<and>
     sq_default_max_attempts s = jq_default_max_attempts q \<and> (\<forall>j \<in> set (jq_jobs q). job_storable K R j)"

lemma sort_key_cong_order:
  "(\<And>x y. x \<in> set xs \<Longrightarrow> y \<in> set xs \<Longrightarrow> f x \<le> f y \<longleftrightarrow> g x \<le> g y) \<Longrightarrow> sort_key f xs = sort_key g xs"
proof (induction xs)
  case (Cons a xs)
  have "(\<And>y. y \<in> set ys \<Longrightarrow> f a \<le> f y \<longleftrightarrow> g a \<le> g y) \<Longrightarrow> insort_key f a ys = insort_key g a ys" for ys
    by (induction ys) auto
  from this [of "sort_key g xs"] Cons show ?case by simp
qed simp

lemma sort_key_map: "sort_key f (map h xs) = map h (sort_key (f \<circ> h) xs)"
proof (induction xs)
  case (Cons a xs)
  have "insort_key f (h a) (map h ys) = map h (insort_key (f \<circ> h) a ys)" for ys
    by (induction ys) auto
  with Cons show ?case by (simp add: comp_def)
qed simp

lemma firsts_map: "firsts limit (map f xs) = map f (firsts limit xs)"
  by (simp add: firsts_def take_map split: option.splits)

definition due_jobs :: "timestamp \<Rightarrow> nat option \<Rightarrow> enqueued_job list \<Rightarrow> enqueued_job list" where
  "due_jobs now limit js = firsts limit (sort_key due_order (filter (is_due now) js))"

lemma due_ids_jobs: "due_ids now limit js = map ej_id (due_jobs now limit js)"
proof -
  have "sort (map due_order xs) = map due_order (sort_key due_order xs)" for xs
    by (simp add: sort_key_map comp_def)
  then show ?thesis by (simp add: due_ids_firsts firsts_map due_jobs_def due_order_def comp_def)
qed

lemma due_jobs_subset: "set (due_jobs now limit js) \<subseteq> set js"
  by (auto simp: due_jobs_def firsts_def dest: in_set_takeD split: option.splits)

lemma status_queued [simp]: "status_str st = ''queued'' \<longleftrightarrow> st = Queued"
  by (cases st) simp_all

lemma status_running [simp]: "status_str st = ''running'' \<longleftrightarrow> st = Running"
  by (cases st) simp_all

lemma row_order:
  assumes "job_codec_ok K" and "range_ok R" and "job_storable K R x" and "job_storable K R y"
  shows "(unix_millis (ej_run_at x), jid_show K (ej_id x)) \<le> (unix_millis (ej_run_at y), jid_show K (ej_id y))
    \<longleftrightarrow> due_order x \<le> due_order y"
  using assms(3,4,1) millis_exact_le [OF assms(2), of "ej_run_at x" "ej_run_at y"]
    millis_exact_le [OF assms(2), of "ej_run_at y" "ej_run_at x"]
  by (auto simp: due_order_def less_eq_prod_def job_storable_def job_codec_ok_def not_le [symmetric])

lemma due_rows_encoded:
  assumes "job_codec_ok K" and "range_ok R" and "millis_exact R now" and "\<forall>j \<in> set js. job_storable K R j"
    and "\<forall>n. limit = Some n \<longrightarrow> n < 2 ^ 63"
  shows "due_rows limit (filter (\<lambda>r. jr_status r = ''queued'' \<and> jr_run_at r \<le> unix_millis now) (map (encode K) js))
    = map (encode K) (due_jobs now limit js)"
proof -
  have "filter (\<lambda>r. jr_status r = ''queued'' \<and> jr_run_at r \<le> unix_millis now) (map (encode K) js)
      = map (encode K) (filter (is_due now) js)"
    using assms(4) millis_exact_le [OF assms(2) _ assms(3)]
    by (auto simp: filter_map comp_def encode_def is_due_def job_storable_def intro!: arg_cong [where f = "map (encode K)"] filter_cong)
  moreover have "sort_key (\<lambda>r. (jr_run_at r, jr_id r)) (map (encode K) (filter (is_due now) js))
      = map (encode K) (sort_key due_order (filter (is_due now) js))"
    using assms(4) row_order [OF assms(1,2)] unfolding sort_key_map
    by (intro arg_cong [where f = "map (encode K)"] sort_key_cong_order) (auto simp: encode_def)
  ultimately show ?thesis
    using assms(5) by (auto simp: due_rows_def due_jobs_def firsts_def take_map min_def split: option.splits)
qed

lemma uint_next: "(w :: u32) \<noteq> - 1 \<Longrightarrow> uint (w + 1) = uint w + 1"
proof -
  assume "w \<noteq> - 1"
  then have "1 + w \<noteq> 0" by (metis add_eq_0_iff)
  from unatSuc [OF this] have "int (unat (1 + w)) = int (unat w) + 1" by simp
  then show ?thesis unfolding uint_nat by (simp only: add.commute [of w 1])
qed

lemma set_running_encoded: "ej_attempts j \<noteq> - 1 \<Longrightarrow> set_running (encode K j) = encode K (claim j)"
  by (simp add: set_running_def encode_def claim_def uint_next)

lemma sim_claim:
  assumes "fault_free E" and "job_codec_ok K" and "range_ok R" and rel: "table_rel K R s (db_rows db) q"
    and "millis_exact R now" and "\<forall>n. limit = Some n \<longrightarrow> n < 2 ^ 63" and "\<forall>j \<in> set (jq_jobs q). ej_attempts j \<noteq> - 1"
  shows "\<exists>jobs q'. dequeue_due now limit q = Some (Inr jobs, q') \<and>
    db_effect (sql_jobs_dequeue_due K R E now limit db) = (Inr jobs, map (encode K) (jq_jobs q')) \<and>
    table_rel K R s (map (encode K) (jq_jobs q')) q'"
proof -
  let ?js = "jq_jobs q" and ?ids = "due_ids now limit (jq_jobs q)" and ?due = "due_jobs now limit (jq_jobs q)"
  let ?js' = "map (\<lambda>j. if ej_id j \<in> set ?ids then claim j else j) ?js"
  have q: "db_rows db = map (encode K) ?js" "queue_ok q" "\<forall>j \<in> set ?js. job_storable K R j"
    using rel by (auto simp: table_rel_def)
  have ids: "set ?ids = ej_id ` set ?due" by (simp add: due_ids_jobs)
  have "the (jobs_get (ej_id j) q) = j" if "j \<in> set ?due" for j
    using that due_jobs_subset [of now limit ?js] queue_ok_get [OF q(2), of j] by auto
  then have mem: "dequeue_due now limit q = Some (Inr (map claim ?due), q\<lparr>jq_jobs := ?js'\<rparr>)"
    unfolding dequeue_due_result [OF q(2) refl] by (simp add: due_ids_jobs comp_def cong: map_cong)
  have "distinct (map ej_id ?due)"
    using due_ids_props(1) [of ?js now limit] q(2) by (simp add: queue_ok_def due_ids_jobs)
  then have "db_effect (claim_rows K R E (map (encode K) ?due) d) = (Inr (map claim ?due), map (encode K) ?js')"
    if "db_rows d = map (encode K) ?js" for d
    unfolding ids claim_rows_def claim_def [symmetric] using that q(3) due_jobs_subset [of now limit ?js] assms(7)
    by (intro rows_loop_effect [OF assms(1-3)]) (auto simp: set_running_encoded)
  then have "db_effect (db_bind (db_stmt E db_err (sql_select (\<lambda>r. jr_status r = ''queued'' \<and> jr_run_at r \<le> unix_millis now)
        (due_rows limit))) (claim_rows K R E) (db\<lparr>db_stmts := n\<rparr>)) = (Inr (map claim ?due), map (encode K) ?js')" for n
    using assms(1) q due_rows_encoded [OF assms(2,3,5) q(3) assms(6)]
    by (simp add: db_bind_def db_stmt_def fault_free_def sql_select_def)
  then have "db_effect (sql_jobs_dequeue_due K R E now limit db) = (Inr (map claim ?due), map (encode K) ?js')"
    unfolding sql_jobs_dequeue_due_def sql_jobs_claim_def by (rule db_tx_ok [OF assms(1)])
  moreover have "table_rel K R s (map (encode K) ?js') (q\<lparr>jq_jobs := ?js'\<rparr>)"
    using rel by (auto simp: table_rel_def job_storable_def claim_def queue_ok_map)
  ultimately show ?thesis using mem by simp
qed

lemma sim_schedule:
  assumes "fault_free E" and "job_codec_ok K" and rel: "table_rel K R s (db_rows db) q"
    and "millis_exact R now" and "millis_exact R run_at" and pay: "payload_ok K payload" and fresh: "i \<notin> ej_id ` set (jq_jobs q)"
    and step: "jobs_schedule i now kind payload run_at q = (ans, q')"
  shows "db_effect (sql_jobs_schedule K E s i now kind payload run_at db) = (ans, map (encode K) (jq_jobs q')) \<and>
    table_rel K R s (map (encode K) (jq_jobs q')) q'"
proof -
  obtain p where p: "payload_show K payload = Inr p" using pay by (auto simp: payload_ok_def split: sum.splits)
  have "\<not> list_ex (\<lambda>r. jr_id r = jid_show K i) (db_rows db)"
    using rel fresh by (auto simp: table_rel_def list_ex_iff encode_def jid_show_eq [OF assms(2)])
  then have "db_effect (sql_jobs_schedule K E s i now kind payload run_at db) = (ans, map (encode K) (jq_jobs q'))"
    using assms(1) rel step fresh
    by (auto simp: sql_jobs_schedule_def sql_jobs_insert_def p db_bind_def db_stmt_def fault_free_def sql_insert_def
        db_return_def db_effect_def jobs_schedule_def jobs_insert_def table_rel_def encode_def Let_def)
  moreover have "table_rel K R s (map (encode K) (jq_jobs q')) q'"
    using assms(4,5) pay rel step fresh unfolding table_rel_def
    by (auto simp: jobs_schedule_def jobs_insert_def queue_ok_def job_storable_def Let_def)
  ultimately show ?thesis ..
qed

lemma job_put_at:
  assumes "distinct (map ej_id js)" and "\<And>j. ej_id (g j) = ej_id j"
  shows "(case job_find i js of None \<Rightarrow> x | Some j \<Rightarrow> f (job_put (g j) js))
    = (if i \<in> ej_id ` set js then f (map (\<lambda>j. if ej_id j = i then g j else j) js) else x)"
proof (cases "job_find i js")
  case None
  then have "i \<notin> ej_id ` set js" by simp
  then show ?thesis by (simp only: None option.case if_False)
next
  case (Some j)
  then have "job_put (g j) js = map (\<lambda>j. if ej_id j = i then g j else j) js" "i \<in> ej_id ` set js"
    using assms job_find_Some [OF Some] by (auto simp: job_put_def distinct_map inj_on_def)
  with Some show ?thesis by simp
qed

lemma update_absent: "i \<notin> ej_id ` set js \<Longrightarrow> map (\<lambda>j. if ej_id j = i then g j else j) js = js"
  by (intro map_idI) auto

lemma sim_succeed:
  assumes "fault_free E" and "job_codec_ok K" and rel: "table_rel K R s (db_rows db) q"
    and step: "mark_succeeded (jid_show K) i q = (ans, q')"
  shows "db_effect (sql_jobs_mark_succeeded K E i db) = (ans, map (encode K) (jq_jobs q')) \<and>
    table_rel K R s (map (encode K) (jq_jobs q')) q'"
proof -
  let ?g = "\<lambda>j. j\<lparr>ej_status := Succeeded, ej_last_error := None\<rparr>"
  let ?js' = "map (\<lambda>j. if ej_id j = i then ?g j else j) (jq_jobs q)"
  have q: "db_rows db = map (encode K) (jq_jobs q)" "distinct (map ej_id (jq_jobs q))"
    using rel by (auto simp: table_rel_def queue_ok_def)
  have "(ans, q') = (if i \<in> ej_id ` set (jq_jobs q) then (Inr (), q\<lparr>jq_jobs := ?js'\<rparr>)
      else (Inl (PE_JobNotFound (jid_show K i)), q))"
    unfolding step [symmetric] mark_succeeded_def
    by (rule job_put_at [OF q(2), where g = ?g and f = "\<lambda>js. (Inr (), q\<lparr>jq_jobs := js\<rparr>)"]) simp
  moreover have "length (filter (\<lambda>j. ej_id j = i) (jq_jobs q)) = 0 \<longleftrightarrow> i \<notin> ej_id ` set (jq_jobs q)"
    by (auto simp: filter_empty_conv)
  moreover have "sql_update (\<lambda>r. jr_id r = jid_show K i) (\<lambda>r. r\<lparr>jr_status := ''succeeded'', jr_last_error := None\<rparr>) (map (encode K) (jq_jobs q))
      = Inr (length (filter (\<lambda>j. ej_id j = i) (jq_jobs q)), map (encode K) ?js')"
    by (rule update_encoded [OF assms(2)]) (simp add: encode_def)
  ultimately have "db_effect (sql_jobs_mark_succeeded K E i db) = (ans, map (encode K) (jq_jobs q'))"
    using assms(1) update_absent [of i "jq_jobs q" ?g]
    by (auto simp: sql_jobs_mark_succeeded_def db_bind_def db_stmt_def fault_free_def db_return_def db_effect_def q(1)
        simp del: map_map split: if_splits)
  moreover have "table_rel K R s (map (encode K) (jq_jobs q')) q'"
    using rel \<open>(ans, q') = _\<close> by (auto simp: table_rel_def job_storable_def queue_ok_map split: if_splits)
  ultimately show ?thesis ..
qed

lemma backoff_millis: "backoff_for_attempt a mod 1000000 = 0"
  by (simp add: backoff_for_attempt_def Let_def seconds_def mod_mult_right_eq [symmetric])

lemma requeue_exact:
  assumes "millis_exact R now"
  shows "millis_exact R (case checked_add R now (backoff_for_attempt a) of None \<Rightarrow> now | Some t \<Rightarrow> t)"
  using assms backoff_millis [of a]
  by (auto simp: millis_exact_def checked_add_def mod_add_eq [of now, symmetric] split: option.splits if_splits)

lemma filter_one: "distinct (map ej_id js) \<Longrightarrow> j \<in> set js \<Longrightarrow> filter (\<lambda>x. ej_id x = ej_id j) js = [j]"
  by (induction js) (auto simp: filter_empty_conv image_iff)

lemma fail_row_encoded: "fail_row R now reason (encode K j) (encode K j) = encode K (fail_job R now reason j)"
  by (simp add: fail_row_def encode_def fail_job_def Let_def word_le_def)

lemma sim_fail:
  assumes "fault_free E" and "job_codec_ok K" and rel: "table_rel K R s (db_rows db) q"
    and "millis_exact R now" and step: "mark_failed (jid_show K) R now i reason q = (ans, q')"
  shows "db_effect (sql_jobs_mark_failed K R E now i reason db) = (ans, map (encode K) (jq_jobs q')) \<and>
    table_rel K R s (map (encode K) (jq_jobs q')) q'"
proof -
  let ?g = "fail_job R now reason" and ?js = "jq_jobs q" and ?mine = "\<lambda>r. jr_id r = jid_show K i"
  let ?js' = "map (\<lambda>j. if ej_id j = i then ?g j else j) ?js"
  have q: "db_rows db = map (encode K) ?js" "distinct (map ej_id ?js)"
    using rel by (auto simp: table_rel_def queue_ok_def)
  have mem: "(ans, q') = (if i \<in> ej_id ` set ?js then (Inr (), q\<lparr>jq_jobs := ?js'\<rparr>)
      else (Inl (PE_JobNotFound (jid_show K i)), q))"
    unfolding step [symmetric] mark_failed_def
    by (rule job_put_at [OF q(2), where g = ?g and f = "\<lambda>js. (Inr (), q\<lparr>jq_jobs := js\<rparr>)"]) simp
  have rows: "filter ?mine (map (encode K) ?js) = map (encode K) (filter (\<lambda>j. ej_id j = i) ?js)"
    by (simp add: filter_map comp_def encode_def jid_show_eq [OF assms(2)])
  have "db_effect (sql_jobs_mark_failed K R E now i reason db) = (ans, map (encode K) (jq_jobs q'))"
  proof (cases "i \<in> ej_id ` set ?js")
    case False
    then have none: "filter (\<lambda>j. ej_id j = i) ?js = []" by (auto simp: filter_empty_conv)
    from False mem have "ans = Inl (PE_JobNotFound (jid_show K i))" "q' = q" by simp_all
    then show ?thesis
      unfolding sql_jobs_mark_failed_def Let_def
      using assms(1) q(1) none rows
      by (subst db_tx_err [OF assms(1), of _ db _ "map (encode K) ?js"])
        (simp_all add: db_bind_def db_stmt_def fault_free_def sql_select_def db_return_def db_effect_def)
  next
    case True
    then obtain j where j: "j \<in> set ?js" "ej_id j = i" by auto
    have one: "filter (\<lambda>j. ej_id j = i) ?js = [j]" using filter_one [OF q(2) j(1)] j(2) by simp
    have "sql_update ?mine (fail_row R now reason (encode K j)) (map (encode K) ?js)
        = Inr (length (filter (\<lambda>j. ej_id j = i) ?js), map (encode K) ?js')"
    proof (intro update_encoded [OF assms(2)] ballI impI)
      fix x assume "x \<in> set ?js" "ej_id x = i"
      then have "x = j" using job_find_in [OF q(2), of x] job_find_in [OF q(2) j(1)] j(2) by simp
      then show "fail_row R now reason (encode K j) (encode K x) = encode K (?g x)" by (simp add: fail_row_encoded)
    qed
    with True mem show ?thesis
      unfolding sql_jobs_mark_failed_def Let_def 
      using assms(1) q(1) one rows
      by (subst db_tx_ok [OF assms(1), of _ db "()" "map (encode K) ?js'"])
        (simp_all add: db_bind_def db_stmt_def fault_free_def sql_select_def db_return_def db_effect_def)
  qed
  moreover have "table_rel K R s (map (encode K) (jq_jobs q')) q'"
    using rel mem assms(4) requeue_exact [OF assms(4)]
    by (auto simp: table_rel_def job_storable_def queue_ok_map fail_job_def Let_def split: if_splits)
  ultimately show ?thesis ..
qed

lemma stalled_cutoff:
  assumes "range_ok R" and "millis_exact R now" and "millis_exact R t" and "0 \<le> d" and "whole_milliseconds d < 2 ^ 63"
  shows "unix_millis t < i64_saturating_sub (unix_millis now) (i64_or_max (whole_milliseconds d)) \<longleftrightarrow> d < duration_since now t"
proof -
  define n m where "n = unix_millis now" and "m = unix_millis t"
  have t: "now = n * 1000000" "t = m * 1000000" "- (2 ^ 63) \<le> m" "n < 2 ^ 63"
    using millis_exact [OF assms(1,2)] millis_exact [OF assms(1,3)] by (auto simp: n_def m_def)
  have w: "whole_milliseconds d = d div 1000000"
    using assms(4) by (simp add: whole_milliseconds_def trunc_div_nonneg)
  have "0 \<le> d div 1000000" using assms(4) by (simp add: pos_imp_zdiv_nonneg_iff)
  then have "unix_millis t < i64_saturating_sub (unix_millis now) (i64_or_max (whole_milliseconds d)) \<longleftrightarrow> m < n - d div 1000000"
    using t assms(5) unfolding w n_def [symmetric] m_def [symmetric] by (auto simp: i64_saturating_sub_def i64_or_max_def)
  also have "\<dots> \<longleftrightarrow> d div 1000000 < n - m" by auto
  also have "\<dots> \<longleftrightarrow> d < (n - m) * 1000000"
  proof -
    define k r where "k = d div 1000000" and "r = d mod 1000000"
    then have "d = k * 1000000 + r" "0 \<le> r" "r < 1000000" by simp_all
    then show ?thesis unfolding k_def [symmetric] by auto
  qed
  finally show ?thesis by (simp add: duration_since_def t left_diff_distrib)
qed

lemma sim_stalled:
  assumes "fault_free E" and "job_codec_ok K" and "range_ok R" and rel: "table_rel K R s (db_rows db) q"
    and "millis_exact R now" and "0 \<le> d" and "whole_milliseconds d < 2 ^ 63"
    and step: "dequeue_stalled now d q = (ans, q')"
  shows "db_effect (sql_jobs_dequeue_stalled K R E now d db) = (ans, map (encode K) (jq_jobs q')) \<and>
    table_rel K R s (map (encode K) (jq_jobs q')) q'"
proof -
  let ?js = "jq_jobs q" and ?st = "filter (is_stalled now d) (jq_jobs q)"
  let ?p = "\<lambda>r. jr_status r = ''running'' \<and> jr_run_at r < i64_saturating_sub (unix_millis now) (i64_or_max (whole_milliseconds d))"
  let ?js' = "map (\<lambda>j. if is_stalled now d j then recover now j else j) ?js"
  have q: "db_rows db = map (encode K) ?js" "distinct (map ej_id ?js)" "\<forall>j \<in> set ?js. job_storable K R j"
    using rel by (auto simp: table_rel_def queue_ok_def)
  have rows: "filter ?p (map (encode K) ?js) = map (encode K) ?st"
    using q(3) stalled_cutoff [OF assms(3,5) _ assms(6,7)]
    by (auto simp: filter_map comp_def encode_def is_stalled_def job_storable_def intro!: arg_cong [where f = "map (encode K)"] filter_cong)
  have "ej_id j \<in> ej_id ` set ?st \<longleftrightarrow> is_stalled now d j" if "j \<in> set ?js" for j
    using q(2) that by (auto simp: distinct_map inj_on_def)
  then have js': "map (\<lambda>j. if ej_id j \<in> ej_id ` set ?st then recover now j else j) ?js = ?js'" by simp
  have "distinct (map ej_id ?st)" using q(2) by (simp add: distinct_map inj_on_def)
  then have "db_effect (recover_rows K R E now (map (encode K) ?st) d1) = (Inr (map (recover now) ?st), map (encode K) ?js')"
    if "db_rows d1 = map (encode K) ?js" for d1
    unfolding js' [symmetric] recover_rows_def recover_def [symmetric] using that q(3)
    by (intro rows_loop_effect [OF assms(1-3)]) (auto simp: recover_def encode_def)
  then have "db_effect (db_bind (db_stmt E db_err (sql_select ?p (\<lambda>rows. rows))) (recover_rows K R E now) (db\<lparr>db_stmts := n\<rparr>))
      = (Inr (map (recover now) ?st), map (encode K) ?js')" for n
    using assms(1) q(1) rows by (simp add: db_bind_def db_stmt_def fault_free_def sql_select_def)
  then have "db_effect (sql_jobs_dequeue_stalled K R E now d db) = (Inr (map (recover now) ?st), map (encode K) ?js')"
    unfolding sql_jobs_dequeue_stalled_def Let_def by (rule db_tx_ok [OF assms(1)])
  moreover have "ans = Inr (map (recover now) ?st)" "q' = q\<lparr>jq_jobs := ?js'\<rparr>"
    using step by (simp_all add: dequeue_stalled_def)
  moreover have "table_rel K R s (map (encode K) ?js') (q\<lparr>jq_jobs := ?js'\<rparr>)"
    using rel assms(5) by (auto simp: table_rel_def job_storable_def recover_def queue_ok_map)
  ultimately show ?thesis by simp
qed

section \<open>Histories\<close>

text \<open>An answer is the error or the jobs an operation returns. A panic of the in-memory claim would be
  an error here; it does not happen on a queue with distinct ids.\<close>

definition answer_map :: "('a \<Rightarrow> 'b) \<Rightarrow> ('e + 'a) \<times> 's \<Rightarrow> ('e + 'b) \<times> 's" where
  "answer_map f x = (map_sum id f (fst x), snd x)"

lemma answer_mapE:
  assumes "answer_map f x = (b, s)"
  obtains a where "x = (a, s)" "b = map_sum id f a"
  using assms by (cases x) (simp add: answer_map_def)

fun mem_answer :: "(nat \<Rightarrow> string) \<Rightarrow> time_range \<Rightarrow> job_op \<Rightarrow> job_queue \<Rightarrow> (platform_error + enqueued_job list) \<times> job_queue" where
  "mem_answer fmt R (JSchedule i now kind payload run_at) q = answer_map (\<lambda>j. [j]) (jobs_schedule i now kind payload run_at q)"
| "mem_answer fmt R (JDequeue now limit) q =
     (case dequeue_due now limit q of Some r \<Rightarrow> r | None \<Rightarrow> (Inl (PE_Backend ''panic''), q))"
| "mem_answer fmt R (JSucceed i) q = answer_map (\<lambda>_. []) (mark_succeeded fmt i q)"
| "mem_answer fmt R (JFail now i reason) q = answer_map (\<lambda>_. []) (mark_failed fmt R now i reason q)"
| "mem_answer fmt R (JStalled now d) q = dequeue_stalled now d q"

fun sql_answer :: "job_codec \<Rightarrow> time_range \<Rightarrow> sql_env \<Rightarrow> sql_job_queue \<Rightarrow> job_op \<Rightarrow> enqueued_job list job_db" where
  "sql_answer K R E s (JSchedule i now kind payload run_at) db =
     answer_map (\<lambda>j. [j]) (sql_jobs_schedule K E s i now kind payload run_at db)"
| "sql_answer K R E s (JDequeue now limit) db = sql_jobs_dequeue_due K R E now limit db"
| "sql_answer K R E s (JSucceed i) db = answer_map (\<lambda>_. []) (sql_jobs_mark_succeeded K E i db)"
| "sql_answer K R E s (JFail now i reason) db = answer_map (\<lambda>_. []) (sql_jobs_mark_failed K R E now i reason db)"
| "sql_answer K R E s (JStalled now d) db = sql_jobs_dequeue_stalled K R E now d db"

fun answers :: "('o \<Rightarrow> 's \<Rightarrow> 'a \<times> 's) \<Rightarrow> 'o list \<Rightarrow> 's \<Rightarrow> 'a list" where
  "answers step [] s = []"
| "answers step (op # ops) s = (case step op s of (a, s') \<Rightarrow> a # answers step ops s')"

fun final_state :: "('o \<Rightarrow> 's \<Rightarrow> 'a \<times> 's) \<Rightarrow> 'o list \<Rightarrow> 's \<Rightarrow> 's" where
  "final_state step [] s = s"
| "final_state step (op # ops) s = final_state step ops (snd (step op s))"

text \<open>The operations on which the two queues agree: instants in whole milliseconds, fresh ids, limits
  and stall times in range, and no attempt counter about to wrap.\<close>

fun op_ok :: "job_codec \<Rightarrow> time_range \<Rightarrow> job_op \<Rightarrow> job_queue \<Rightarrow> bool" where
  "op_ok K R (JSchedule i now kind payload run_at) q \<longleftrightarrow>
     millis_exact R now \<and> millis_exact R run_at \<and> payload_ok K payload \<and> i \<notin> ej_id ` set (jq_jobs q)"
| "op_ok K R (JDequeue now limit) q \<longleftrightarrow>
     millis_exact R now \<and> (case limit of None \<Rightarrow> True | Some n \<Rightarrow> n < 2 ^ 63) \<and> list_all (\<lambda>j. ej_attempts j \<noteq> - 1) (jq_jobs q)"
| "op_ok K R (JSucceed i) q \<longleftrightarrow> True"
| "op_ok K R (JFail now i reason) q \<longleftrightarrow> millis_exact R now"
| "op_ok K R (JStalled now d) q \<longleftrightarrow> millis_exact R now \<and> 0 \<le> d \<and> whole_milliseconds d < 2 ^ 63"

fun ops_ok :: "job_codec \<Rightarrow> time_range \<Rightarrow> job_op list \<Rightarrow> job_queue \<Rightarrow> bool" where
  "ops_ok K R [] q \<longleftrightarrow> True"
| "ops_ok K R (op # ops) q \<longleftrightarrow> op_ok K R op q \<and> ops_ok K R ops (snd (mem_answer (jid_show K) R op q))"

lemma sim_step:
  assumes "fault_free E" and "job_codec_ok K" and "range_ok R" and rel: "table_rel K R s (db_rows db) q"
    and "op_ok K R op q" and "mem_answer (jid_show K) R op q = (ans, q')"
  shows "\<exists>db'. sql_answer K R E s op db = (ans, db') \<and> table_rel K R s (db_rows db') q'"
proof (cases op)
  case (JSchedule i now kind payload run_at)
  obtain a where a: "jobs_schedule i now kind payload run_at q = (a, q')" "ans = map_sum id (\<lambda>j. [j]) a"
    using assms(6) JSchedule by (auto elim: answer_mapE)
  from sim_schedule [OF assms(1,2) rel _ _ _ _ a(1)] assms(5) JSchedule a(2) show ?thesis
    by (cases "sql_jobs_schedule K E s i now kind payload run_at db") (auto simp: db_effect_def answer_map_def)
next
  case (JDequeue now limit)
  from sim_claim [OF assms(1-3) rel, of now limit] assms(5,6) JDequeue show ?thesis
    by (cases "sql_jobs_dequeue_due K R E now limit db") (auto simp: db_effect_def list_all_iff split: option.splits)
next
  case (JSucceed i)
  obtain a where a: "mark_succeeded (jid_show K) i q = (a, q')" "ans = map_sum id (\<lambda>_. []) a"
    using assms(6) JSucceed by (auto elim: answer_mapE)
  from sim_succeed [OF assms(1,2) rel a(1)] JSucceed a(2) show ?thesis
    by (cases "sql_jobs_mark_succeeded K E i db") (auto simp: db_effect_def answer_map_def)
next
  case (JFail now i reason)
  obtain a where a: "mark_failed (jid_show K) R now i reason q = (a, q')" "ans = map_sum id (\<lambda>_. []) a"
    using assms(6) JFail by (auto elim: answer_mapE)
  from sim_fail [OF assms(1,2) rel _ a(1)] assms(5) JFail a(2) show ?thesis
    by (cases "sql_jobs_mark_failed K R E now i reason db") (auto simp: db_effect_def answer_map_def)
next
  case (JStalled now d)
  from sim_stalled [OF assms(1-3) rel, of now d ans q'] assms(5,6) JStalled show ?thesis
    by (cases "sql_jobs_dequeue_stalled K R E now d db") (auto simp: db_effect_def)
qed


definition demo_job_codec :: job_codec where
  "demo_job_codec = \<lparr>jid_show = (\<lambda>i. replicate i CHR ''a''), jid_parse = (\<lambda>s. Inr (length s)),
     payload_show = (\<lambda>v. if v = JNull then Inr ''null'' else Inl ''unsupported''),
     payload_parse = (\<lambda>s. if s = ''null'' then Inr JNull else Inl ''bad json'')\<rparr>"

lemma demo_job_codec_ok: "job_codec_ok demo_job_codec"
proof -
  have "replicate i c \<le> replicate j c \<longleftrightarrow> i \<le> j" for i j and c :: char
  proof (induction i arbitrary: j)
    case (Suc i)
    then show ?case by (cases j) auto
  qed simp
  then show ?thesis by (simp add: job_codec_ok_def demo_job_codec_def)
qed

definition demo_job_ops :: "job_op list" where
  "demo_job_ops = [JSchedule 2 0 ''mail'' JNull 1000000, JDequeue 2000000 (Some 5), JFail 3000000 2 ''boom'', JSucceed 7]"


section \<open>Over a database that fails\<close>

lemma rows_loop_exact [db_exacts]: "db_exact (rows_loop K R E f g rows) (rows_loop K R (answering E) f g rows)"
proof (induction rows)
  case Nil
  then show ?case by (simp add: db_exact_def db_effect_def)
next
  case (Cons row rows)
  show ?case
  proof (cases "row_to_job K R row")
    case (Inl e)
    then show ?thesis by (simp add: db_exact_def)
  next
    case (Inr job)
    let ?stmt = "\<lambda>E. db_stmt E db_err (sql_update (\<lambda>r. jr_id r = jid_show K (ej_id job)) f)"
    have "rows_loop K R E f g (row # rows) =
        db_bind (?stmt E) (\<lambda>_. db_bind (rows_loop K R E f g rows) (\<lambda>js. db_return (Inr (g job # js))))" for E
      by (intro ext) (simp add: Inr)
    then show ?thesis by (simp only:) (intro db_exacts Cons.IH)
  qed
qed

lemma all_or_nothing_answer_map:
  fixes f :: "'a \<Rightarrow> 'b" and m m0 :: "'r sql_db \<Rightarrow> ('e + 'a) \<times> 'r sql_db"
  assumes "all_or_nothing m m0"
  shows "all_or_nothing (\<lambda>db. answer_map f (m db)) (\<lambda>db. answer_map f (m0 db))"
proof -
  have eff: "db_effect (answer_map f x) = (map_sum id f (fst (db_effect x)), snd (db_effect x))"
    and rows: "snd (answer_map f x) = snd x" for x :: "('e + 'a) \<times> 'r sql_db"
    by (simp_all add: db_effect_def answer_map_def)
  show ?thesis unfolding all_or_nothing_def eff rows
  proof (intro allI)
    fix db
    show "(map_sum id f (fst (db_effect (m db))), snd (db_effect (m db))) =
          (map_sum id f (fst (db_effect (m0 db))), snd (db_effect (m0 db))) \<or>
        (\<exists>e. (map_sum id f (fst (db_effect (m db))), snd (db_effect (m db)))
          \<in> {(Inl e, db_rows db), (Inl e, db_rows (snd (m0 db)))})"
      using assms [unfolded all_or_nothing_def, rule_format, of db] by auto
  qed
qed

lemma insert_all_or_nothing:
  "all_or_nothing (sql_jobs_insert K E s i now kind payload run_at) (sql_jobs_insert K (answering E) s i now kind payload run_at)"
proof (cases "payload_show K payload")
  case (Inr p)
  then show ?thesis
    unfolding sql_jobs_insert_def Let_def enqueued_job.select_convs sum.case sql_insert_answering by (simp only: sum.case) (rule all_or_nothing_stmt)
qed (simp add: all_or_nothing_def sql_jobs_insert_def)

lemma sql_answer_all_or_nothing: "all_or_nothing (sql_answer K R E s op) (sql_answer K R (answering E) s op)"
proof (cases op)
  case (JSchedule i now kind payload run_at)
  then show ?thesis
    using all_or_nothing_answer_map [OF insert_all_or_nothing] by (simp add: all_or_nothing_def sql_jobs_schedule_def)
next
  case (JSucceed i)
  have "all_or_nothing (sql_jobs_mark_succeeded K E i) (sql_jobs_mark_succeeded K (answering E) i)"
    unfolding sql_jobs_mark_succeeded_def by (rule all_or_nothing_stmt)
  from all_or_nothing_answer_map [OF this] JSucceed show ?thesis by (simp add: all_or_nothing_def)
next
  case (JFail now i reason)
  have "all_or_nothing (sql_jobs_mark_failed K R E now i reason) (sql_jobs_mark_failed K R (answering E) now i reason)"
    unfolding sql_jobs_mark_failed_def Let_def
    by (intro all_or_nothing_tx db_exacts) (simp add: db_exacts split: option.split)
  from all_or_nothing_answer_map [OF this] JFail show ?thesis by (simp add: all_or_nothing_def)
next
  case (JDequeue now limit)
  have "all_or_nothing (sql_jobs_dequeue_due K R E now limit) (sql_jobs_dequeue_due K R (answering E) now limit)"
    unfolding sql_jobs_dequeue_due_def sql_jobs_claim_def claim_rows_def by (intro all_or_nothing_tx db_exacts)
  with JDequeue show ?thesis by (simp add: all_or_nothing_def)
next
  case (JStalled now d)
  have "all_or_nothing (sql_jobs_dequeue_stalled K R E now d) (sql_jobs_dequeue_stalled K R (answering E) now d)"
    unfolding sql_jobs_dequeue_stalled_def recover_rows_def Let_def by (intro all_or_nothing_tx db_exacts)
  with JStalled show ?thesis by (simp add: all_or_nothing_def)
qed

text \<open>C31: no operation is left half done. Let the database refuse or lose the answer of any statement, of
  \<open>BEGIN\<close> or of \<open>COMMIT\<close>. From a table that holds the jobs of an in-memory queue, an operation that is
  in order either answers as the in-memory queue does, and the table then holds the jobs of that
  queue after the operation; or it answers an error, and the table holds the jobs of the in-memory
  queue before the operation or after the whole of it: never a claim, a failure or a recovery that
  reached some of its rows.\<close>

theorem sql_job_queue_atomic:
  assumes "job_codec_ok K" and "range_ok R" and rel: "table_rel K R s (db_rows db) q" and "op_ok K R op q"
    and mem: "mem_answer (jid_show K) R op q = (ans, q')" and sql: "sql_answer K R E s op db = (r, db')"
  shows "r = ans \<and> table_rel K R s (db_rows db') q' \<or>
    (\<exists>e. r = Inl e) \<and> (table_rel K R s (db_rows db') q \<or> table_rel K R s (db_rows db') q')"
proof -
  obtain db0 where db0: "sql_answer K R (answering E) s op db = (ans, db0)" "table_rel K R s (db_rows db0) q'"
    using sim_step [OF fault_free_answering assms(1,2) rel assms(4) mem] by blast
  have "db_effect (r, db') = db_effect (ans, db0) \<or>
      (\<exists>e. db_effect (r, db') \<in> {(Inl e, db_rows db), (Inl e, db_rows db0)})"
    using sql_answer_all_or_nothing [of K R E s op] sql db0(1) unfolding all_or_nothing_def by (metis snd_conv)
  with db0(2) rel show ?thesis by (auto simp: db_effect_def)
qed

definition demo_due_job :: enqueued_job where
  "demo_due_job = \<lparr>ej_id = 2, ej_kind = ''mail'', ej_payload = JNull, ej_run_at = 1000000, ej_attempts = 0,
     ej_max_attempts = 5, ej_status = Queued, ej_created_at = 0, ej_last_error = None\<rparr>"

definition demo_due_queue :: job_queue where
  "demo_due_queue = jobs_new\<lparr>jq_jobs := [demo_due_job]\<rparr>"

text \<open>A claim whose commit (statement 3, after \<open>BEGIN\<close>, the select and one update) is carried out but not
  answered: the caller gets an error and the job is claimed.\<close>

definition demo_lost_commit :: sql_env where
  "demo_lost_commit = calm_env\<lparr>se_outcome := (\<lambda>k. if k = 3 then LostAnswer ''lost'' else Answered)\<rparr>"

theorem sql_job_queue_atomic_witness:
  "\<exists>db'. sql_answer demo_job_codec demo_range demo_lost_commit (sql_jobs_new ''sqlite'') (JDequeue 2000000 None)
       \<lparr>db_rows = [encode demo_job_codec demo_due_job], db_stmts = 0\<rparr> = (Inl (db_err ''lost''), db')
   \<and> map jr_status (db_rows db') = [''running'']
   \<and> (table_rel demo_job_codec demo_range (sql_jobs_new ''sqlite'') (db_rows db') demo_due_queue \<or>
      table_rel demo_job_codec demo_range (sql_jobs_new ''sqlite'') (db_rows db')
        (snd (mem_answer (jid_show demo_job_codec) demo_range (JDequeue 2000000 None) demo_due_queue)))"
proof -
  let ?db = "\<lparr>db_rows = [encode demo_job_codec demo_due_job], db_stmts = 0\<rparr>" and ?s = "sql_jobs_new ''sqlite''"
  let ?sql = "sql_answer demo_job_codec demo_range demo_lost_commit ?s (JDequeue 2000000 None) ?db"
  let ?mem = "mem_answer (jid_show demo_job_codec) demo_range (JDequeue 2000000 None) demo_due_queue"
  have rel: "table_rel demo_job_codec demo_range ?s (db_rows ?db) demo_due_queue"
    by (simp add: table_rel_def demo_due_queue_def demo_due_job_def sql_jobs_new_def jobs_new_def jobs_with_max_attempts_def
        queue_ok_def DEFAULT_MAX_ATTEMPTS_def job_storable_def millis_exact_def in_range_def demo_range_def payload_ok_def
        demo_job_codec_def)
  have ok: "op_ok demo_job_codec demo_range (JDequeue 2000000 None) demo_due_queue"
    by (simp add: demo_due_queue_def demo_due_job_def millis_exact_def in_range_def demo_range_def)
  have f: "fst ?sql = Inl (db_err ''lost'')" by code_simp
  have r: "map jr_status (db_rows (snd ?sql)) = [''running'']" by code_simp
  from sql_job_queue_atomic [OF demo_job_codec_ok range_ok_demo rel ok, of "fst ?mem" "snd ?mem" demo_lost_commit "fst ?sql" "snd ?sql"]
  have "table_rel demo_job_codec demo_range ?s (db_rows (snd ?sql)) demo_due_queue \<or>
      table_rel demo_job_codec demo_range ?s (db_rows (snd ?sql)) (snd ?mem)"
    by (simp only: prod.collapse simp_thms) blast
  with f r show ?thesis by (intro exI [of _ "snd ?sql"]) (simp only: prod_eq_iff fst_conv snd_conv simp_thms)
qed

end
