(* ===== verification/SqlOutbox.thy ===== *)
theory SqlOutbox
  imports Outbox SqlStore "HOL-Library.Multiset"
begin

text \<open>
  The outbox over a relational table (\<open>klauthed-data/src/outbox/sql.rs\<close>). Instants are stored as
  RFC 3339 texts and sequence numbers as \<open>i64\<close>; the formats of ids, JSON payloads and instants are
  the fields of \<open>entry_codec\<close>. The table is an outbox store in the sense the relay needs, so the
  delivery guarantees hold for it; the order in which it delivers is another one than the in-memory
  outbox's.
\<close>

record entry_codec =
  oid_show :: "nat \<Rightarrow> string"
  oid_parse :: "string \<Rightarrow> string + nat"
  body_show :: "json \<Rightarrow> string + string"
  body_parse :: "string \<Rightarrow> string + json"
  ts_show :: "timestamp \<Rightarrow> string"
  ts_parse :: "string \<Rightarrow> string + timestamp"

text \<open>What the code relies on: printed ids are read back.\<close>

definition entry_codec_ok :: "entry_codec \<Rightarrow> bool" where
  "entry_codec_ok K \<longleftrightarrow> (\<forall>i. oid_parse K (oid_show K i) = Inr i)"

record entry_row =
  er_id :: string
  er_aggregate_type :: string
  er_aggregate_id :: string
  er_event_type :: string
  er_sequence :: int
  er_payload :: string
  er_occurred_at :: string
  er_published :: int
  er_published_at :: "string option"

definition in_quotes :: "string \<Rightarrow> string" where
  "in_quotes s = [CHR 0x27] @ s @ [CHR 0x27]"

definition parse_timestamp :: "entry_codec \<Rightarrow> string \<Rightarrow> data_error + timestamp" where
  "parse_timestamp K s =
     (case ts_parse K s of
        Inl e \<Rightarrow> Inl (DE_Outbox (''invalid stored timestamp '' @ in_quotes s @ '': '' @ e))
      | Inr t \<Rightarrow> Inr t)"

text \<open>\<open>sequence as u64\<close> of an \<open>i64\<close>.\<close>

definition i64_as_u64 :: "int \<Rightarrow> nat" where
  "i64_as_u64 n = nat (n mod 2 ^ 64)"

definition row_to_entry :: "entry_codec \<Rightarrow> entry_row \<Rightarrow> data_error + outbox_entry" where
  "row_to_entry K row =
     (case oid_parse K (er_id row) of
        Inl e \<Rightarrow> Inl (DE_Outbox (''invalid outbox id '' @ in_quotes (er_id row) @ '': '' @ e))
      | Inr i \<Rightarrow>
          (case body_parse K (er_payload row) of
             Inl e \<Rightarrow> Inl (DE_Outbox (''invalid stored payload json: '' @ e))
           | Inr payload \<Rightarrow>
               (case parse_timestamp K (er_occurred_at row) of
                  Inl e \<Rightarrow> Inl e
                | Inr occurred_at \<Rightarrow>
                    (case (case er_published_at row of
                             Some s \<Rightarrow> map_sum id Some (parse_timestamp K s)
                           | None \<Rightarrow> Inr None) of
                       Inl e \<Rightarrow> Inl e
                     | Inr published_at \<Rightarrow>
                         Inr \<lparr>oe_id = i, oe_aggregate_type = er_aggregate_type row, oe_aggregate_id = er_aggregate_id row,
                              oe_event_type = er_event_type row, oe_sequence = i64_as_u64 (er_sequence row),
                              oe_payload = payload, oe_occurred_at = occurred_at, oe_published = (er_published row \<noteq> 0),
                              oe_published_at = published_at\<rparr>))))"

section \<open>Operations\<close>

type_synonym 'a entry_db = "entry_row sql_db \<Rightarrow> (data_error + 'a) \<times> entry_row sql_db"

text \<open>The conversion of \<open>sqlx::Error\<close>.\<close>

definition sqlx_err :: "string \<Rightarrow> data_error" where
  "sqlx_err m = DE_Sqlx m"

definition entry_to_row :: "entry_codec \<Rightarrow> string \<Rightarrow> outbox_entry \<Rightarrow> entry_row" where
  "entry_to_row K payload e =
     \<lparr>er_id = oid_show K (oe_id e), er_aggregate_type = oe_aggregate_type e, er_aggregate_id = oe_aggregate_id e,
      er_event_type = oe_event_type e, er_sequence = as_i64 (int (oe_sequence e)), er_payload = payload,
      er_occurred_at = ts_show K (oe_occurred_at e), er_published = of_bool (oe_published e),
      er_published_at = map_option (ts_show K) (oe_published_at e)\<rparr>"

fun insert_entries :: "entry_codec \<Rightarrow> sql_env \<Rightarrow> outbox_entry list \<Rightarrow> unit entry_db" where
  "insert_entries K E [] db = (Inr (), db)"
| "insert_entries K E (e # es) db =
     (case body_show K (oe_payload e) of
        Inl m \<Rightarrow> (Inl (DE_Outbox (''failed to serialize outbox payload: '' @ m)), db)
      | Inr payload \<Rightarrow>
          db_bind (db_stmt E sqlx_err (sql_insert E er_id (entry_to_row K payload e)))
            (\<lambda>_. insert_entries K E es) db)"

definition sql_outbox_enqueue :: "entry_codec \<Rightarrow> sql_env \<Rightarrow> outbox_entry list \<Rightarrow> unit entry_db" where
  "sql_outbox_enqueue K E entries db =
     (if entries = [] then (Inr (), db) else db_tx E sqlx_err (insert_entries K E entries) db)"

text \<open>\<open>rows.iter().map(row_to_entry).collect()\<close> stops at the first row that does not decode.\<close>

fun decode_rows :: "entry_codec \<Rightarrow> entry_row list \<Rightarrow> data_error + outbox_entry list" where
  "decode_rows K [] = Inr []"
| "decode_rows K (r # rs) =
     (case row_to_entry K r of
        Inl e \<Rightarrow> Inl e
      | Inr x \<Rightarrow> (case decode_rows K rs of Inl e \<Rightarrow> Inl e | Inr xs \<Rightarrow> Inr (x # xs)))"

text \<open>\<open>LIMIT\<close> takes the limit as an \<open>i64\<close>. A limit that turns negative is read as none, which is what
  SQLite does with it.\<close>

definition limit_rows :: "nat \<Rightarrow> 'a list \<Rightarrow> 'a list" where
  "limit_rows limit rows = (let n = as_i64 (int limit) in if n < 0 then rows else take (nat n) rows)"

definition sql_outbox_fetch :: "entry_codec \<Rightarrow> sql_env \<Rightarrow> nat \<Rightarrow> outbox_entry list entry_db" where
  "sql_outbox_fetch K E limit =
     db_bind (db_stmt E sqlx_err (sql_select (\<lambda>r. er_published r = 0) (\<lambda>rows. limit_rows limit (sort_key er_sequence rows))))
       (\<lambda>rows. db_return (decode_rows K rows))"

fun mark_rows :: "entry_codec \<Rightarrow> sql_env \<Rightarrow> string \<Rightarrow> nat list \<Rightarrow> unit entry_db" where
  "mark_rows K E now [] db = (Inr (), db)"
| "mark_rows K E now (i # is) db =
     db_bind (db_stmt E sqlx_err (sql_update (\<lambda>r. er_id r = oid_show K i \<and> er_published r = 0)
         (\<lambda>r. r\<lparr>er_published := 1, er_published_at := Some now\<rparr>)))
       (\<lambda>_. mark_rows K E now is) db"

definition sql_outbox_mark :: "entry_codec \<Rightarrow> sql_env \<Rightarrow> timestamp \<Rightarrow> nat list \<Rightarrow> unit entry_db" where
  "sql_outbox_mark K E now ids db =
     (if ids = [] then (Inr (), db) else db_tx E sqlx_err (mark_rows K E (ts_show K now) ids) db)"

section \<open>The table is an outbox store\<close>

text \<open>The rows still to publish decode, under the id they were stored with.\<close>

definition row_ok :: "entry_codec \<Rightarrow> entry_row \<Rightarrow> bool" where
  "row_ok K r = (case row_to_entry K r of Inl _ \<Rightarrow> False | Inr e \<Rightarrow> er_id r = oid_show K (oe_id e))"

definition sql_outbox_ok :: "entry_codec \<Rightarrow> entry_row sql_db \<Rightarrow> bool" where
  "sql_outbox_ok K db \<longleftrightarrow> distinct (map er_id (db_rows db)) \<and> (\<forall>r \<in> set (db_rows db). er_published r = 0 \<longrightarrow> row_ok K r)"

definition sql_unpublished :: "entry_codec \<Rightarrow> entry_row sql_db \<Rightarrow> nat set" where
  "sql_unpublished K db = (\<lambda>r. oe_id (projr (row_to_entry K r))) ` {r \<in> set (db_rows db). er_published r = 0}"

lemma row_okD: "row_ok K r \<Longrightarrow> row_to_entry K r = Inr (projr (row_to_entry K r)) \<and> er_id r = oid_show K (oe_id (projr (row_to_entry K r)))"
  by (auto simp: row_ok_def split: sum.splits)

lemma decode_ok: "\<forall>r \<in> set rs. row_ok K r \<Longrightarrow> decode_rows K rs = Inr (map (\<lambda>r. projr (row_to_entry K r)) rs)"
proof (induction rs)
  case (Cons r rs)
  then show ?case using row_okD [of K r] by (cases "row_to_entry K r") auto
qed simp

lemma fetched_distinct:
  assumes "\<forall>r \<in> set rs. row_ok K r" and "distinct (map er_id rs)"
  shows "distinct (map (\<lambda>r. oe_id (projr (row_to_entry K r))) rs)"
proof -
  have "map er_id rs = map (oid_show K) (map (\<lambda>r. oe_id (projr (row_to_entry K r))) rs)"
    using assms(1) row_okD by auto
  with assms(2) show ?thesis using distinct_map by metis
qed

lemma as_i64_nat: "n < 2 ^ 63 \<Longrightarrow> as_i64 (int n) = int n"
proof (rule as_i64_id)
  assume "n < 2 ^ 63"
  then have "int n < int (2 ^ 63)" by (simp only: of_nat_less_iff)
  then show "int n < 2 ^ 63" by (simp only: of_nat_power of_nat_numeral)
qed simp

lemma sql_fetch_spec:
  assumes "fault_free E" and ok: "sql_outbox_ok K db" and limit: "limit < 2 ^ 63"
  shows "\<exists>es db'. sql_outbox_fetch K E limit db = (Inr es, db') \<and> sql_outbox_ok K db' \<and> sql_unpublished K db' = sql_unpublished K db
    \<and> distinct (map oe_id es) \<and> oe_id ` set es \<subseteq> sql_unpublished K db \<and> length es = min limit (card (sql_unpublished K db))"
proof -
  let ?sel = "filter (\<lambda>r. er_published r = 0) (db_rows db)" and ?i = "\<lambda>r. oe_id (projr (row_to_entry K r))"
  let ?rs = "take limit (sort_key er_sequence ?sel)"
  have sel: "\<forall>r \<in> set ?sel. row_ok K r" "distinct (map er_id ?sel)"
    using ok by (auto simp: sql_outbox_ok_def distinct_map_filter)
  then have d: "distinct (map ?i ?sel)" by (rule fetched_distinct)
  have unpub: "sql_unpublished K db = set (map ?i ?sel)" by (simp add: sql_unpublished_def)
  have "length ?sel = card (sql_unpublished K db)" unfolding unpub using distinct_card [OF d] by simp
  then have len: "length ?rs = min limit (card (sql_unpublished K db))" by simp
  have sub: "set ?rs \<subseteq> set ?sel" by (auto dest: in_set_takeD)
  have "mset (map ?i (sort_key er_sequence ?sel)) = mset (map ?i ?sel)" by (simp only: mset_map mset_sort)
  then have "distinct (map ?i ?rs)"
    using d by (metis distinct_take mset_eq_imp_distinct_iff take_map)
  moreover have "decode_rows K ?rs = Inr (map (\<lambda>r. projr (row_to_entry K r)) ?rs)"
    by (rule decode_ok) (use sel(1) sub in blast)
  moreover have "limit_rows limit (sort_key er_sequence ?sel) = ?rs"
    using as_i64_nat [OF limit] by (simp add: limit_rows_def)
  ultimately show ?thesis
    using assms(1) ok len sub unfolding sql_outbox_fetch_def
    by (intro exI [of _ "map (\<lambda>r. projr (row_to_entry K r)) ?rs"] exI [of _ "db\<lparr>db_stmts := Suc (db_stmts db)\<rparr>"])
      (auto simp: db_bind_def db_stmt_def fault_free_def sql_select_def db_return_def sql_outbox_ok_def sql_unpublished_def comp_def)
qed

definition mark_row :: "entry_codec \<Rightarrow> string \<Rightarrow> nat list \<Rightarrow> entry_row \<Rightarrow> entry_row" where
  "mark_row K now ids r =
     (if er_published r = 0 \<and> er_id r \<in> oid_show K ` set ids then r\<lparr>er_published := 1, er_published_at := Some now\<rparr> else r)"

lemma filter_mark_row:
  "filter (\<lambda>r. er_published r = 0) (map (mark_row K now ids) rows)
   = filter (\<lambda>r. er_published r = 0 \<and> er_id r \<notin> oid_show K ` set ids) rows"
  by (induction rows) (auto simp: mark_row_def)

lemma mark_rows_effect:
  "fault_free E \<Longrightarrow> db_effect (mark_rows K E now ids db) = (Inr (), map (mark_row K now ids) (db_rows db))"
proof (induction ids arbitrary: db)
  case Nil
  then show ?case by (simp add: db_effect_def mark_row_def map_idI)
next
  case (Cons i ids)
  let ?db = "db\<lparr>db_stmts := Suc (db_stmts db), db_rows := map (mark_row K now [i]) (db_rows db)\<rparr>"
  have "db_stmt E sqlx_err (sql_update (\<lambda>r. er_id r = oid_show K i \<and> er_published r = 0)
      (\<lambda>r. r\<lparr>er_published := 1, er_published_at := Some now\<rparr>)) db
    = (Inr (length (filter (\<lambda>r. er_id r = oid_show K i \<and> er_published r = 0) (db_rows db))), ?db)"
    using Cons.prems by (auto simp: db_stmt_def fault_free_def sql_update_def mark_row_def)
  moreover have "map (mark_row K now ids) (map (mark_row K now [i]) (db_rows db)) = map (mark_row K now (i # ids)) (db_rows db)"
    by (auto simp: mark_row_def)
  ultimately show ?case using Cons.IH [OF Cons.prems, of ?db] by (simp add: db_bind_def)
qed

lemma sql_mark_spec:
  assumes "fault_free E" and "entry_codec_ok K" and ok: "sql_outbox_ok K db"
  shows "\<exists>db'. sql_outbox_mark K E now ids db = (Inr (), db') \<and> sql_outbox_ok K db'
    \<and> sql_unpublished K db' = sql_unpublished K db - set ids"
proof -
  let ?rows = "map (mark_row K (ts_show K now) ids) (db_rows db)"
  have "db_effect (sql_outbox_mark K E now ids db) = (Inr (), ?rows)"
  proof (cases "ids = []")
    case True
    then show ?thesis by (simp add: sql_outbox_mark_def db_effect_def mark_row_def map_idI)
  next
    case False
    then show ?thesis
      using mark_rows_effect [OF assms(1)] unfolding sql_outbox_mark_def
      by (simp only: if_False) (rule db_tx_ok [OF assms(1)], simp)
  qed
  then obtain db' where db': "sql_outbox_mark K E now ids db = (Inr (), db')" "db_rows db' = ?rows"
    by (cases "sql_outbox_mark K E now ids db") (simp add: db_effect_def)
  have ids: "map er_id ?rows = map er_id (db_rows db)" by (simp add: mark_row_def)
  have keep: "mark_row K (ts_show K now) ids r = r" if "er_published (mark_row K (ts_show K now) ids r) = 0" for r
    using that by (auto simp: mark_row_def split: if_splits)
  have inj: "oid_show K i = oid_show K j \<longleftrightarrow> i = j" for i j
    using assms(2) unfolding entry_codec_ok_def by (metis sum.inject(2))
  have "sql_outbox_ok K db'"
    using ok ids keep unfolding sql_outbox_ok_def db'(2) by (metis (no_types, lifting) image_iff set_map)
  moreover have "sql_unpublished K db' = sql_unpublished K db - set ids"
  proof -
    have "{r \<in> set ?rows. er_published r = 0} = {r \<in> set (db_rows db). er_published r = 0 \<and> er_id r \<notin> oid_show K ` set ids}"
      using arg_cong [OF filter_mark_row, of set K "ts_show K now" ids "db_rows db"] by simp
    moreover have "er_id r \<in> oid_show K ` set ids \<longleftrightarrow> oe_id (projr (row_to_entry K r)) \<in> set ids"
      if "r \<in> set (db_rows db)" "er_published r = 0" for r
      using that ok row_okD [of K r] by (auto simp: sql_outbox_ok_def inj image_iff)
    ultimately show ?thesis unfolding sql_unpublished_def db'(2) by auto
  qed
  ultimately show ?thesis using db'(1) by blast
qed

interpretation sql_outbox: outbox_store "sql_outbox_fetch K E" "sql_outbox_mark K E"
  "\<lambda>db. fault_free E \<and> entry_codec_ok K \<and> sql_outbox_ok K db" "sql_unpublished K" for K E
proof
  fix db limit now ids
  assume ok: "fault_free E \<and> entry_codec_ok K \<and> sql_outbox_ok K db"
  show "\<exists>db'. sql_outbox_mark K E now ids db = (Inr (), db') \<and> (fault_free E \<and> entry_codec_ok K \<and> sql_outbox_ok K db')
      \<and> sql_unpublished K db' = sql_unpublished K db - set ids"
    using ok sql_mark_spec [of E K db now ids] by blast
  show "\<exists>es db'. sql_outbox_fetch K E limit db = (Inr es, db') \<and> (fault_free E \<and> entry_codec_ok K \<and> sql_outbox_ok K db')
      \<and> sql_unpublished K db' = sql_unpublished K db \<and> distinct (map oe_id es) \<and> oe_id ` set es \<subseteq> sql_unpublished K db
      \<and> length es = min limit (card (sql_unpublished K db))" if "limit < 2 ^ 63"
    using ok sql_fetch_spec [OF _ _ that, of E K db] by blast
qed (simp add: sql_unpublished_def)

section \<open>Enqueueing\<close>

text \<open>Entries as \<open>from_envelope\<close> makes them, whose payload and instant survive their text form.\<close>

definition entry_storable :: "entry_codec \<Rightarrow> outbox_entry \<Rightarrow> bool" where
  "entry_storable K e =
     (case body_show K (oe_payload e) of
        Inl _ \<Rightarrow> False
      | Inr p \<Rightarrow> \<not> oe_published e \<and> oe_published_at e = None \<and> body_parse K p = Inr (oe_payload e)
          \<and> ts_parse K (ts_show K (oe_occurred_at e)) = Inr (oe_occurred_at e) \<and> oe_sequence e < 2 ^ 64)"

definition stored_row :: "entry_codec \<Rightarrow> outbox_entry \<Rightarrow> entry_row" where
  "stored_row K e = entry_to_row K (projr (body_show K (oe_payload e))) e"

lemma sequence_roundtrip: "n < 2 ^ 64 \<Longrightarrow> i64_as_u64 (as_i64 (int n)) = n"
proof -
  assume "n < 2 ^ 64"
  then have "int n < int (2 ^ 64)" by (simp only: of_nat_less_iff)
  then have n: "int n < 2 ^ 64" by (simp only: of_nat_power of_nat_numeral)
  have "as_i64 (int n) mod 2 ^ 64 = int n mod 2 ^ 64" by (simp add: as_i64_def mod_diff_left_eq)
  with n show ?thesis by (simp add: i64_as_u64_def)
qed

lemma stored_roundtrip:
  assumes "entry_codec_ok K" and "entry_storable K e"
  shows "row_to_entry K (stored_row K e) = Inr e" and "row_ok K (stored_row K e)"
    and "er_published (stored_row K e) = 0" and "er_id (stored_row K e) = oid_show K (oe_id e)"
proof -
  show r: "row_to_entry K (stored_row K e) = Inr e"
    using assms
    by (auto simp: entry_storable_def entry_codec_ok_def row_to_entry_def stored_row_def entry_to_row_def parse_timestamp_def
        sequence_roundtrip split: sum.splits)
  show "er_id (stored_row K e) = oid_show K (oe_id e)" by (simp add: stored_row_def entry_to_row_def)
  with r show "row_ok K (stored_row K e)" by (simp add: row_ok_def)
  show "er_published (stored_row K e) = 0"
    using assms(2) by (auto simp: entry_storable_def stored_row_def entry_to_row_def split: sum.splits)
qed

lemma insert_entries_effect:
  assumes "fault_free E" and "entry_codec_ok K"
  shows "\<lbrakk>\<forall>e \<in> set es. entry_storable K e; distinct (map oe_id es);
    \<forall>e \<in> set es. oid_show K (oe_id e) \<notin> er_id ` set (db_rows db)\<rbrakk> \<Longrightarrow>
    db_effect (insert_entries K E es db) = (Inr (), rev (map (stored_row K) es) @ db_rows db)"
proof (induction es arbitrary: db)
  case (Cons e es)
  let ?db = "db\<lparr>db_stmts := Suc (db_stmts db), db_rows := stored_row K e # db_rows db\<rparr>"
  have inj: "oid_show K i = oid_show K j \<longleftrightarrow> i = j" for i j
    using assms(2) unfolding entry_codec_ok_def by (metis sum.inject(2))
  obtain p where p: "body_show K (oe_payload e) = Inr p"
    using Cons.prems(1) by (auto simp: entry_storable_def split: sum.splits)
  have row: "entry_to_row K p e = stored_row K e" by (simp add: stored_row_def p)
  have id: "er_id (stored_row K e) = oid_show K (oe_id e)" by (simp add: stored_row_def entry_to_row_def)
  have "db_stmt E sqlx_err (sql_insert E er_id (entry_to_row K p e)) db = (Inr (), ?db)"
    using assms(1) Cons.prems(3) unfolding row
    by (auto simp: db_stmt_def fault_free_def sql_insert_def list_ex_iff id image_iff)
  moreover have "db_effect (insert_entries K E es ?db) = (Inr (), rev (map (stored_row K) es) @ db_rows ?db)"
    using Cons.prems by (intro Cons.IH) (auto simp: id inj image_iff)
  ultimately show ?case by (simp add: p db_bind_def)
qed (simp add: db_effect_def)

lemma sql_enqueue_spec:
  assumes "fault_free E" and "entry_codec_ok K" and ok: "sql_outbox_ok K db"
    and "\<forall>e \<in> set es. entry_storable K e" and "distinct (map oe_id es)"
    and "\<forall>e \<in> set es. oid_show K (oe_id e) \<notin> er_id ` set (db_rows db)"
  shows "\<exists>db'. sql_outbox_enqueue K E es db = (Inr (), db') \<and> sql_outbox_ok K db'
    \<and> sql_unpublished K db' = sql_unpublished K db \<union> oe_id ` set es"
proof -
  let ?rows = "rev (map (stored_row K) es) @ db_rows db"
  have "db_effect (sql_outbox_enqueue K E es db) = (Inr (), ?rows)"
  proof (cases "es = []")
    case False
    then show ?thesis
      unfolding sql_outbox_enqueue_def using insert_entries_effect [OF assms(1,2,4,5)] assms(6)
      by (simp only: if_False) (rule db_tx_ok [OF assms(1)], simp)
  qed (simp add: sql_outbox_enqueue_def db_effect_def)
  then obtain db' where db': "sql_outbox_enqueue K E es db = (Inr (), db')" "db_rows db' = ?rows"
    by (cases "sql_outbox_enqueue K E es db") (simp add: db_effect_def)
  have st: "row_ok K (stored_row K e)" "er_published (stored_row K e) = 0" "row_to_entry K (stored_row K e) = Inr e"
    if "e \<in> set es" for e using that assms(4) stored_roundtrip [OF assms(2)] by auto
  have ids: "map er_id (map (stored_row K) es) = map (oid_show K) (map oe_id es)"
    by (simp add: stored_row_def entry_to_row_def)
  have "inj (oid_show K)"
    using assms(2) unfolding entry_codec_ok_def by (intro injI) (metis sum.inject(2))
  then have "distinct (map er_id (map (stored_row K) es))"
    unfolding ids using assms(5) by (subst distinct_map) (auto intro: inj_on_subset)
  moreover have "er_id ` stored_row K ` set es \<inter> er_id ` set (db_rows db) = {}"
    using assms(6) stored_roundtrip(4) [OF assms(2)] assms(4) by force
  ultimately have "sql_outbox_ok K db'"
    using ok st unfolding sql_outbox_ok_def db'(2) by (auto simp: rev_map [symmetric])
  moreover have "{r \<in> set ?rows. er_published r = 0} = stored_row K ` set es \<union> {r \<in> set (db_rows db). er_published r = 0}"
    using st(2) by auto
  then have "sql_unpublished K db' = sql_unpublished K db \<union> oe_id ` set es"
    unfolding sql_unpublished_def db'(2) using st(3) by (auto simp: image_Un image_image)
  ultimately show ?thesis using db'(1) by blast
qed

text \<open>C24: what is enqueued in the SQL outbox is delivered, exactly once. Over a database that answers, a
  batch of fresh entries enqueued next to whatever is pending is, after as many drains as there are
  batches through a publisher that accepts, delivered together with it: every pending id once, none
  twice, nothing else, and nothing remains pending.\<close>

theorem sql_outbox_exactly_once:
  assumes "fault_free E" and "entry_codec_ok K" and "sql_outbox_ok K db"
    and "\<forall>e \<in> set es. entry_storable K e \<and> oid_show K (oe_id e) \<notin> er_id ` set (db_rows db)" and "distinct (map oe_id es)"
    and "0 < or_batch_size r" and "or_batch_size r < 2 ^ 63" and "card (sql_unpublished K db \<union> oe_id ` set es) \<le> k * or_batch_size r"
  shows "\<exists>db1 db2 sent. sql_outbox_enqueue K E es db = (Inr (), db1)
    \<and> deliver_with (sql_outbox_fetch K E) (sql_outbox_mark K E) k r now db1 [] = (db2, sent)
    \<and> distinct sent \<and> set sent = sql_unpublished K db \<union> oe_id ` set es \<and> sql_unpublished K db2 = {}"
proof -
  obtain db1 where db1: "sql_outbox_enqueue K E es db = (Inr (), db1)" "sql_outbox_ok K db1"
    "sql_unpublished K db1 = sql_unpublished K db \<union> oe_id ` set es"
    using sql_enqueue_spec [OF assms(1-3), of es] assms(4,5) by blast
  with sql_outbox.deliver_exactly_once [of E K db1 r k now "[]"] assms(1,2,6-8) show ?thesis by auto
qed

text \<open>A batch is enqueued or marked whole or not at all, whatever statement the database refuses or leaves
  unanswered.\<close>

lemma insert_entries_exact: "db_exact (insert_entries K E es) (insert_entries K (answering E) es)"
proof (induction es)
  case (Cons e es)
  show ?case
  proof (cases "body_show K (oe_payload e)")
    case (Inr payload)
    have "insert_entries K E (e # es) =
        db_bind (db_stmt E sqlx_err (sql_insert E er_id (entry_to_row K payload e))) (\<lambda>_. insert_entries K E es)" for E
      by (intro ext) (simp add: Inr)
    then show ?thesis by (simp only: sql_insert_answering) (intro db_exacts Cons.IH)
  qed (simp add: db_exact_def)
qed (simp add: db_exact_def db_effect_def)

lemma mark_rows_exact: "db_exact (mark_rows K E now ids) (mark_rows K (answering E) now ids)"
proof (induction ids)
  case (Cons i ids)
  have "mark_rows K E now (i # ids) =
      db_bind (db_stmt E sqlx_err (sql_update (\<lambda>r. er_id r = oid_show K i \<and> er_published r = 0)
        (\<lambda>r. r\<lparr>er_published := 1, er_published_at := Some now\<rparr>))) (\<lambda>_. mark_rows K E now ids)" for E
    by (intro ext) simp
  then show ?case by (simp only:) (intro db_exacts Cons.IH)
qed (simp add: db_exact_def db_effect_def)

lemma sql_outbox_all_or_nothing:
  "all_or_nothing (sql_outbox_enqueue K E es) (sql_outbox_enqueue K (answering E) es)"
  "all_or_nothing (sql_outbox_mark K E now ids) (sql_outbox_mark K (answering E) now ids)"
  using all_or_nothing_tx [OF insert_entries_exact [of K E es], of E sqlx_err]
    all_or_nothing_tx [OF mark_rows_exact [of K E "ts_show K now" ids], of E sqlx_err]
  by (simp_all add: all_or_nothing_def sql_outbox_enqueue_def sql_outbox_mark_def)

definition demo_entry_codec :: entry_codec where
  "demo_entry_codec = \<lparr>oid_show = (\<lambda>i. replicate i CHR ''a''), oid_parse = (\<lambda>s. Inr (length s)),
     body_show = (\<lambda>v. if v = JNull then Inr ''null'' else Inl ''unsupported''),
     body_parse = (\<lambda>s. if s = ''null'' then Inr JNull else Inl ''bad json''),
     ts_show = (\<lambda>t. replicate (nat t) CHR ''a''), ts_parse = (\<lambda>s. Inr (int (length s)))\<rparr>"

lemma demo_entry_codec_ok: "entry_codec_ok demo_entry_codec"
  by (simp add: entry_codec_ok_def demo_entry_codec_def)

theorem sql_outbox_exactly_once_witness:
  "\<exists>db1 db2 sent. sql_outbox_enqueue demo_entry_codec calm_env [demo_entry 3, demo_entry 1, demo_entry 2] \<lparr>db_rows = [], db_stmts = 0\<rparr> = (Inr (), db1)
    \<and> deliver_with (sql_outbox_fetch demo_entry_codec calm_env) (sql_outbox_mark demo_entry_codec calm_env) 2 \<lparr>or_batch_size = 2\<rparr> 9 db1 [] = (db2, sent)
    \<and> distinct sent \<and> set sent = {1, 2, 3} \<and> sql_unpublished demo_entry_codec db2 = {}"
proof -
  let ?db = "\<lparr>db_rows = [], db_stmts = 0\<rparr> :: entry_row sql_db" and ?es = "[demo_entry 3, demo_entry 1, demo_entry 2]"
  have u: "sql_unpublished demo_entry_codec ?db \<union> oe_id ` set ?es = {1, 2, 3}"
    by (auto simp: sql_unpublished_def demo_entry_def)
  show ?thesis
    using sql_outbox_exactly_once [OF fault_free_calm demo_entry_codec_ok, of ?db ?es "\<lparr>or_batch_size = 2\<rparr>" 2 9]
    unfolding u by (auto simp: sql_outbox_ok_def entry_storable_def demo_entry_codec_def demo_entry_def)
qed

text \<open>The order is the sequence number's, which counts per aggregate: an older entry of a long-lived
  aggregate waits behind the first entry of a new one, where the in-memory outbox delivers the older
  one first.\<close>

lemma sql_outbox_not_oldest_first:
  defines "old \<equiv> (demo_entry 1)\<lparr>oe_sequence := 9\<rparr>" and "young \<equiv> (demo_entry 2)\<lparr>oe_sequence := 1, oe_aggregate_id := ''o2''\<rparr>"
  shows "map_sum id (map oe_id) (fst (fetch_unpublished 1 [old, young])) = Inr [1]"
    and "map_sum id (map oe_id) (fst (sql_outbox_fetch demo_entry_codec calm_env 1
       \<lparr>db_rows = [stored_row demo_entry_codec young, stored_row demo_entry_codec old], db_stmts = 0\<rparr>)) = Inr [2]"
  unfolding old_def young_def by code_simp+

end
