(* ===== verification/SealedBox.thy ===== *)
theory SealedBox
  imports Envelope
begin

text \<open>
  Sealed boxes (\<open>klauthed-security/src/aead/asymmetric.rs\<close>) and the key derivation under them
  (\<open>klauthed-security/src/kdf/hkdf.rs\<close>). X25519 and HKDF-SHA-256 are parameters, the fields of
  \<open>dh_lib\<close>; \<open>dh_ok\<close> is what the code relies on: both sides of an exchange compute the same secret, and
  public keys have 32 bytes.
\<close>

record dh_lib =
  x_public :: "bytes \<Rightarrow> bytes"
  x_dh :: "bytes \<Rightarrow> bytes \<Rightarrow> bytes"
  hkdf_expand :: "bytes \<Rightarrow> bytes \<Rightarrow> bytes \<Rightarrow> nat \<Rightarrow> bytes option"

definition dh_ok :: "dh_lib \<Rightarrow> bool" where
  "dh_ok D \<longleftrightarrow>
     (\<forall>a b. x_dh D a (x_public D b) = x_dh D b (x_public D a)) \<and> (\<forall>a. length (x_public D a) = KEY_LEN)
     \<and> (\<forall>ikm salt info n out. hkdf_expand D ikm salt info n = Some out \<longrightarrow> length out = n)"

section \<open>Key derivation\<close>

definition hkdf_derive_key :: "dh_lib \<Rightarrow> bytes \<Rightarrow> bytes \<Rightarrow> bytes \<Rightarrow> nat \<Rightarrow> security_error + bytes" where
  "hkdf_derive_key D ikm salt info out_len = ok_or SE_KeyDerivation (hkdf_expand D ikm salt info out_len)"

definition derive_key_32 :: "dh_lib \<Rightarrow> bytes \<Rightarrow> bytes \<Rightarrow> bytes \<Rightarrow> security_error + bytes" where
  "derive_key_32 D ikm salt info = hkdf_derive_key D ikm salt info 32"

section \<open>Keys\<close>

definition SEALED_INFO :: bytes where
  "SEALED_INFO = as_bytes ''klauthed.aead.sealed.v1''"

type_synonym public_key = bytes
type_synonym secret_key = bytes

definition secret_generate :: "crypto \<Rightarrow> nat \<Rightarrow> (security_error + secret_key) \<times> nat" where
  "secret_generate C i = random_bytes C KEY_LEN i"

definition public_key_of :: "dh_lib \<Rightarrow> secret_key \<Rightarrow> public_key" where
  "public_key_of D sk = x_public D sk"

record key_pair =
  kp_secret :: secret_key
  kp_public :: public_key

definition key_pair_generate :: "crypto \<Rightarrow> dh_lib \<Rightarrow> nat \<Rightarrow> (security_error + key_pair) \<times> nat" where
  "key_pair_generate C D i =
     (case secret_generate C i of
        (Inl e, i') \<Rightarrow> (Inl e, i')
      | (Inr sk, i') \<Rightarrow> (Inr \<lparr>kp_secret = sk, kp_public = public_key_of D sk\<rparr>, i'))"

section \<open>Sealing\<close>

definition sealed_derive_key :: "dh_lib \<Rightarrow> bytes \<Rightarrow> public_key \<Rightarrow> public_key \<Rightarrow> security_error + encryption_key" where
  "sealed_derive_key D shared ephemeral_pub recipient_pub =
     derive_key_32 D shared (ephemeral_pub @ recipient_pub) SEALED_INFO"

definition seal_to ::
  "crypto \<Rightarrow> aead_lib \<Rightarrow> dh_lib \<Rightarrow> public_key \<Rightarrow> bytes \<Rightarrow> bytes \<Rightarrow> nat \<Rightarrow> (security_error + bytes) \<times> nat" where
  "seal_to C A D recipient plaintext aad i =
     (case random_bytes C KEY_LEN i of
        (Inl e, i1) \<Rightarrow> (Inl e, i1)
      | (Inr ephemeral_secret, i1) \<Rightarrow>
          (let ephemeral_pub = x_public D ephemeral_secret;
               shared = x_dh D ephemeral_secret recipient
           in case sealed_derive_key D shared ephemeral_pub recipient of
                Inl e \<Rightarrow> (Inl e, i1)
              | Inr key \<Rightarrow>
                  (case encrypt C A key plaintext aad i1 of
                     (Inl e, i2) \<Rightarrow> (Inl e, i2)
                   | (Inr blob, i2) \<Rightarrow> (Inr (ephemeral_pub @ blob), i2))))"

definition sealed_open :: "aead_lib \<Rightarrow> dh_lib \<Rightarrow> secret_key \<Rightarrow> bytes \<Rightarrow> bytes \<Rightarrow> security_error + bytes" where
  "sealed_open A D recipient sealed aad =
     (if length sealed < KEY_LEN then Inl SE_Decryption
      else (let ephemeral_pub = take KEY_LEN sealed; blob = drop KEY_LEN sealed;
                recipient_pub = x_public D recipient;
                shared = x_dh D recipient ephemeral_pub
            in case sealed_derive_key D shared ephemeral_pub recipient_pub of
                 Inl e \<Rightarrow> Inl e
               | Inr key \<Rightarrow> decrypt A key blob aad))"

text \<open>What is sealed to a public key, the holder of the secret key opens: the box starts with the
  ephemeral public key, and opening it with the same associated data gives the plaintext. Anything
  shorter than a public key is refused.\<close>

theorem sealed_box_opens:
  assumes "aead_ok A" and "fill_ok C" and "dh_ok D"
    and "seal_to C A D (public_key_of D sk) p aad i = (Inr sealed, i')"
  shows "sealed_open A D sk sealed aad = Inr p \<and> KEY_LEN \<le> length sealed"
proof -
  obtain e i1 key blob where s: "random_bytes C KEY_LEN i = (Inr e, i1)"
    "sealed_derive_key D (x_dh D e (x_public D sk)) (x_public D e) (x_public D sk) = Inr key"
    "encrypt C A key p aad i1 = (Inr blob, i')" "sealed = x_public D e @ blob"
    using assms(4) by (auto simp: seal_to_def public_key_of_def Let_def split: prod.splits sum.splits)
  have len: "length (x_public D e) = KEY_LEN" and dh: "x_dh D sk (x_public D e) = x_dh D e (x_public D sk)"
    using assms(3) by (auto simp: dh_ok_def)
  show ?thesis
    using s len decrypt_encrypt [OF assms(1,2) s(3)] by (simp add: sealed_open_def dh)
qed

definition toy_dh :: dh_lib where
  "toy_dh = \<lparr>x_public = (\<lambda>a. replicate 32 (sum_list a)), x_dh = (\<lambda>a b. [sum_list a * hd b]),
     hkdf_expand = (\<lambda>ikm salt info n. Some (replicate n (sum_list ikm + sum_list salt + sum_list info)))\<rparr>"

lemma toy_dh_ok: "dh_ok toy_dh"
  by (simp add: dh_ok_def toy_dh_def KEY_LEN_def)

theorem sealed_box_opens_witness:
  "\<exists>sealed i. seal_to toy_crypto toy_aead toy_dh (public_key_of toy_dh [5]) [1, 2] [3] 7 = (Inr sealed, i)
    \<and> sealed_open toy_aead toy_dh [5] sealed [3] = Inr [1, 2]"
proof -
  obtain sealed i where s: "seal_to toy_crypto toy_aead toy_dh (public_key_of toy_dh [5]) [1, 2] [3] 7 = (Inr sealed, i)"
    by (simp add: seal_to_def random_bytes_def toy_crypto_def toy_aead_def toy_dh_def sealed_derive_key_def derive_key_32_def
        hkdf_derive_key_def encrypt_def KEY_LEN_def NONCE_LEN_def Let_def)
  with sealed_box_opens [OF toy_aead_ok toy_fill_ok toy_dh_ok s] show ?thesis by blast
qed

end
