(* ===== verification/Passkeys.thy ===== *)
theory Passkeys
  imports Tokens Http
begin

text \<open>
  Passkeys: the credential store (\<open>klauthed-security/src/passkey/store.rs\<close>), the relying party
  (\<open>passkey/authenticator.rs\<close>) and the HTTP ceremonies (\<open>klauthed-web/src/passkey.rs\<close>). The
  ceremonies of the \<open>webauthn-rs\<close> crate and the JSON form of their parked state are the fields of
  \<open>webauthn\<close>; its values are opaque texts. The display text of a security error is the parameter
  \<open>disp\<close>.
\<close>

section \<open>Credential store\<close>

type_synonym uuid = "128 word"
type_synonym passkey = string

type_synonym passkey_store = "uuid \<rightharpoonup> passkey list"

definition passkeys_new :: passkey_store where
  "passkeys_new = Map.empty"

definition passkeys_list :: "uuid \<Rightarrow> passkey_store \<Rightarrow> passkey list" where
  "passkeys_list u s = (case s u of None \<Rightarrow> [] | Some ps \<Rightarrow> ps)"

definition passkeys_add :: "uuid \<Rightarrow> passkey \<Rightarrow> passkey_store \<Rightarrow> passkey_store" where
  "passkeys_add u p s = s(u \<mapsto> passkeys_list u s @ [p])"

text \<open>Replace the first stored credential with the same credential id.\<close>

fun replace_first :: "('a \<Rightarrow> bool) \<Rightarrow> 'a \<Rightarrow> 'a list \<Rightarrow> ('a list) option" where
  "replace_first P y [] = None"
| "replace_first P y (x # xs) = (if P x then Some (y # xs) else map_option ((#) x) (replace_first P y xs))"

definition passkeys_update :: "(passkey \<Rightarrow> string) \<Rightarrow> uuid \<Rightarrow> passkey \<Rightarrow> passkey_store \<Rightarrow> bool \<times> passkey_store" where
  "passkeys_update cred_id u p s =
     (case s u of
        None \<Rightarrow> (False, s)
      | Some ps \<Rightarrow>
          (case replace_first (\<lambda>stored. cred_id stored = cred_id p) p ps of
             None \<Rightarrow> (False, s)
           | Some ps' \<Rightarrow> (True, s(u \<mapsto> ps'))))"

section \<open>Relying party\<close>

record webauthn =
  wa_cred_id :: "passkey \<Rightarrow> string"
  wa_start_registration :: "uuid \<Rightarrow> string \<Rightarrow> string \<Rightarrow> string list option \<Rightarrow> string + string \<times> string"
  wa_finish_registration :: "string \<Rightarrow> string \<Rightarrow> string + passkey"
  wa_start_authentication :: "passkey list \<Rightarrow> string + string \<times> string"
  wa_finish_authentication :: "string \<Rightarrow> string \<Rightarrow> string + string"
  wa_result_cred_id :: "string \<Rightarrow> string"
  wa_update_credential :: "passkey \<Rightarrow> string \<Rightarrow> bool option \<times> passkey"
  park_registration :: "uuid \<times> string \<Rightarrow> string + string"
  unpark_registration :: "string \<Rightarrow> string + uuid \<times> string"
  park_authentication :: "uuid \<times> string \<Rightarrow> string + string"
  unpark_authentication :: "string \<Rightarrow> string + uuid \<times> string"

text \<open>What the handlers rely on: a parked authentication is read back, and the text of a parked
  registration is not the text of an authentication.\<close>

definition webauthn_ok :: "webauthn \<Rightarrow> bool" where
  "webauthn_ok W \<longleftrightarrow>
     (\<forall>x t. park_authentication W x = Inr t \<longrightarrow> unpark_authentication W t = Inr x) \<and>
     (\<forall>x t y. park_registration W x = Inr t \<longrightarrow> unpark_authentication W t \<noteq> Inr y)"

definition map_err :: "string + 'a \<Rightarrow> security_error + 'a" where
  "map_err r = map_sum SE_Webauthn id r"

lemma map_err_Inr [simp]: "map_err r = Inr x \<longleftrightarrow> r = Inr x"
  by (cases r) (simp_all add: map_err_def)

definition start_registration ::
  "webauthn \<Rightarrow> uuid \<Rightarrow> string \<Rightarrow> string \<Rightarrow> passkey list \<Rightarrow> security_error + string \<times> string" where
  "start_registration W u name display exclude =
     map_err (wa_start_registration W u name display (if exclude = [] then None else Some (map (wa_cred_id W) exclude)))"

definition finish_registration :: "webauthn \<Rightarrow> string \<Rightarrow> string \<Rightarrow> security_error + passkey" where
  "finish_registration W response state = map_err (wa_finish_registration W response state)"

definition start_authentication :: "webauthn \<Rightarrow> passkey list \<Rightarrow> security_error + string \<times> string" where
  "start_authentication W credentials = map_err (wa_start_authentication W credentials)"

definition finish_authentication :: "webauthn \<Rightarrow> string \<Rightarrow> string \<Rightarrow> security_error + string" where
  "finish_authentication W response state = map_err (wa_finish_authentication W response state)"

section \<open>Ceremonies over HTTP\<close>

type_synonym ceremony_store = "string \<rightharpoonup> string"

definition ceremony_put :: "string \<Rightarrow> string \<Rightarrow> ceremony_store \<Rightarrow> ceremony_store" where
  "ceremony_put i v s = s(i \<mapsto> v)"

definition ceremony_take :: "string \<Rightarrow> ceremony_store \<Rightarrow> string option \<times> ceremony_store" where
  "ceremony_take i s = (s i, s(i := None))"

record passkey_api =
  pa_credentials :: passkey_store
  pa_ceremonies :: ceremony_store
  pa_draws :: nat

definition app_err :: "(security_error \<Rightarrow> string) \<Rightarrow> security_error \<Rightarrow> app_error" where
  "app_err disp e = from_domain (security_error_classify e) (disp e)"

definition parked :: "string + 'a \<Rightarrow> app_error + 'a" where
  "parked r = map_sum (\<lambda>e. internal (''serialize ceremony: '' @ e)) id r"

definition unpark :: "string + 'a \<Rightarrow> app_error + 'a" where
  "unpark r = map_sum (\<lambda>e. internal (''deserialize ceremony: '' @ e)) id r"

lemma park_Inr [simp]: "parked r = Inr x \<longleftrightarrow> r = Inr x" "unpark r = Inr x \<longleftrightarrow> r = Inr x"
  by (cases r; simp add: parked_def unpark_def)+

text \<open>Draw the ceremony id, then serialize and park the state: the common end of both \<open>start\<close>
  handlers.\<close>

definition park_state ::
  "crypto \<Rightarrow> (security_error \<Rightarrow> string) \<Rightarrow> string + string \<Rightarrow> passkey_api \<Rightarrow> (app_error + string) \<times> passkey_api" where
  "park_state C disp state s =
     (case random_token C 16 (pa_draws s) of
        (Inl e, i') \<Rightarrow> (Inl (app_err disp e), s\<lparr>pa_draws := i'\<rparr>)
      | (Inr ceremony_id, i') \<Rightarrow>
          (case parked state of
             Inl e \<Rightarrow> (Inl e, s\<lparr>pa_draws := i'\<rparr>)
           | Inr text \<Rightarrow>
               (Inr ceremony_id, s\<lparr>pa_draws := i', pa_ceremonies := ceremony_put ceremony_id text (pa_ceremonies s)\<rparr>)))"

text \<open>\<open>fresh\<close> is the random user id for a request that names none.\<close>

definition register_start ::
  "crypto \<Rightarrow> webauthn \<Rightarrow> (security_error \<Rightarrow> string) \<Rightarrow> uuid \<Rightarrow> uuid option \<Rightarrow> string \<Rightarrow> string \<Rightarrow> passkey_api
   \<Rightarrow> (app_error + string \<times> uuid \<times> string) \<times> passkey_api" where
  "register_start C W disp fresh user name display s =
     (let user_id = (case user of Some u \<Rightarrow> u | None \<Rightarrow> fresh);
          existing = passkeys_list user_id (pa_credentials s)
      in case start_registration W user_id name display existing of
           Inl e \<Rightarrow> (Inl (app_err disp e), s)
         | Inr (challenge, state) \<Rightarrow>
             (case park_state C disp (park_registration W (user_id, state)) s of
                (Inl e, s') \<Rightarrow> (Inl e, s')
              | (Inr ceremony_id, s') \<Rightarrow> (Inr (ceremony_id, user_id, challenge), s')))"

definition register_finish ::
  "webauthn \<Rightarrow> (security_error \<Rightarrow> string) \<Rightarrow> string \<Rightarrow> string \<Rightarrow> passkey_api \<Rightarrow> (app_error + uuid) \<times> passkey_api" where
  "register_finish W disp ceremony_id credential s =
     (let s1 = s\<lparr>pa_ceremonies := snd (ceremony_take ceremony_id (pa_ceremonies s))\<rparr>
      in case fst (ceremony_take ceremony_id (pa_ceremonies s)) of
           None \<Rightarrow> (Inl (bad_request ''unknown or expired ceremony''), s1)
         | Some raw \<Rightarrow>
             (case unpark (unpark_registration W raw) of
                Inl e \<Rightarrow> (Inl e, s1)
              | Inr (user_id, state) \<Rightarrow>
                  (case finish_registration W credential state of
                     Inl e \<Rightarrow> (Inl (app_err disp e), s1)
                   | Inr passkey \<Rightarrow>
                       (Inr user_id, s1\<lparr>pa_credentials := passkeys_add user_id passkey (pa_credentials s1)\<rparr>))))"

definition login_start ::
  "crypto \<Rightarrow> webauthn \<Rightarrow> (security_error \<Rightarrow> string) \<Rightarrow> uuid \<Rightarrow> passkey_api \<Rightarrow> (app_error + string \<times> string) \<times> passkey_api" where
  "login_start C W disp user_id s =
     (let creds = passkeys_list user_id (pa_credentials s)
      in if creds = [] then (Inl (not_found ''no passkeys registered for user''), s)
         else (case start_authentication W creds of
                 Inl e \<Rightarrow> (Inl (app_err disp e), s)
               | Inr (challenge, state) \<Rightarrow>
                   (case park_state C disp (park_authentication W (user_id, state)) s of
                      (Inl e, s') \<Rightarrow> (Inl e, s')
                    | (Inr ceremony_id, s') \<Rightarrow> (Inr (ceremony_id, challenge), s'))))"

text \<open>Persist the signature counter of the asserted credential.\<close>

definition store_counter :: "webauthn \<Rightarrow> uuid \<Rightarrow> string \<Rightarrow> passkey_store \<Rightarrow> passkey_store" where
  "store_counter W user_id result creds =
     (case find (\<lambda>c. wa_cred_id W c = wa_result_cred_id W result) (passkeys_list user_id creds) of
        None \<Rightarrow> creds
      | Some credential \<Rightarrow>
          (case wa_update_credential W credential result of
             (None, _) \<Rightarrow> creds
           | (Some _, credential') \<Rightarrow> snd (passkeys_update (wa_cred_id W) user_id credential' creds)))"

definition login_finish ::
  "webauthn \<Rightarrow> (security_error \<Rightarrow> string) \<Rightarrow> string \<Rightarrow> string \<Rightarrow> passkey_api \<Rightarrow> (app_error + uuid) \<times> passkey_api" where
  "login_finish W disp ceremony_id credential s =
     (let s1 = s\<lparr>pa_ceremonies := snd (ceremony_take ceremony_id (pa_ceremonies s))\<rparr>
      in case fst (ceremony_take ceremony_id (pa_ceremonies s)) of
           None \<Rightarrow> (Inl (bad_request ''unknown or expired ceremony''), s1)
         | Some raw \<Rightarrow>
             (case unpark (unpark_authentication W raw) of
                Inl e \<Rightarrow> (Inl e, s1)
              | Inr (user_id, state) \<Rightarrow>
                  (case finish_authentication W credential state of
                     Inl e \<Rightarrow> (Inl (app_err disp e), s1)
                   | Inr result \<Rightarrow>
                       (Inr user_id, s1\<lparr>pa_credentials := store_counter W user_id result (pa_credentials s1)\<rparr>))))"

section \<open>Histories\<close>

datatype passkey_event =
    Register_Start uuid "uuid option" string string
  | Register_Finish string string
  | Login_Start uuid
  | Login_Finish string string

text \<open>A step answers the user a successful \<open>login/finish\<close> vouches for.\<close>

fun passkey_step ::
  "crypto \<Rightarrow> webauthn \<Rightarrow> (security_error \<Rightarrow> string) \<Rightarrow> passkey_event \<Rightarrow> passkey_api \<Rightarrow> uuid option \<times> passkey_api" where
  "passkey_step C W disp (Register_Start fresh u n d) s = (None, snd (register_start C W disp fresh u n d s))"
| "passkey_step C W disp (Register_Finish i c) s = (None, snd (register_finish W disp i c s))"
| "passkey_step C W disp (Login_Start u) s = (None, snd (login_start C W disp u s))"
| "passkey_step C W disp (Login_Finish i c) s =
     (case login_finish W disp i c s of (Inl _, s') \<Rightarrow> (None, s') | (Inr u, s') \<Rightarrow> (Some u, s'))"

fun passkey_run ::
  "crypto \<Rightarrow> webauthn \<Rightarrow> (security_error \<Rightarrow> string) \<Rightarrow> passkey_event list \<Rightarrow> passkey_api \<Rightarrow> passkey_api" where
  "passkey_run C W disp [] s = s"
| "passkey_run C W disp (ev # evs) s = passkey_run C W disp evs (snd (passkey_step C W disp ev s))"

definition passkey_api_new :: passkey_api where
  "passkey_api_new = \<lparr>pa_credentials = passkeys_new, pa_ceremonies = Map.empty, pa_draws = 0\<rparr>"

lemma passkey_run_append: "passkey_run C W disp (xs @ ys) s = passkey_run C W disp ys (passkey_run C W disp xs s)"
  by (induction xs arbitrary: s) auto

text \<open>Where a parked text comes from: a login challenge for credentials a user had registered at that
  point of the history, or a registration.\<close>

definition challenged :: "crypto \<Rightarrow> webauthn \<Rightarrow> (security_error \<Rightarrow> string) \<Rightarrow> passkey_event list \<Rightarrow> uuid \<Rightarrow> string \<Rightarrow> bool" where
  "challenged C W disp evs u state \<longleftrightarrow>
     (\<exists>pre post challenge. evs = pre @ Login_Start u # post \<and>
        (let creds = passkeys_list u (pa_credentials (passkey_run C W disp pre passkey_api_new))
         in creds \<noteq> [] \<and> wa_start_authentication W creds = Inr (challenge, state)))"

definition parked_ok :: "crypto \<Rightarrow> webauthn \<Rightarrow> (security_error \<Rightarrow> string) \<Rightarrow> passkey_event list \<Rightarrow> string \<Rightarrow> bool" where
  "parked_ok C W disp evs raw \<longleftrightarrow>
     (\<exists>u state. park_authentication W (u, state) = Inr raw \<and> challenged C W disp evs u state)
     \<or> (\<exists>x. park_registration W x = Inr raw)"

lemma challenged_mono: "challenged C W disp evs u state \<Longrightarrow> challenged C W disp (evs @ evs') u state"
  unfolding challenged_def by (metis append.assoc append_Cons)

lemma parked_mono: "parked_ok C W disp evs raw \<Longrightarrow> parked_ok C W disp (evs @ evs') raw"
  unfolding parked_ok_def using challenged_mono by blast

lemma park_state_ceremonies:
  assumes "park_state C disp state s = (r, s')" and "pa_ceremonies s' i = Some raw"
  shows "pa_ceremonies s i = Some raw \<or> state = Inr raw"
  using assms by (cases state) (auto simp: park_state_def ceremony_put_def split: prod.splits sum.splits if_splits)

lemma step_parked:
  assumes inv: "\<forall>i raw. pa_ceremonies (passkey_run C W disp evs passkey_api_new) i = Some raw \<longrightarrow> parked_ok C W disp evs raw"
    and "pa_ceremonies (snd (passkey_step C W disp ev (passkey_run C W disp evs passkey_api_new))) i = Some raw"
  shows "parked_ok C W disp (evs @ [ev]) raw"
proof -
  let ?s = "passkey_run C W disp evs passkey_api_new"
  have old: "parked_ok C W disp (evs @ [ev]) raw" if "pa_ceremonies ?s i = Some raw"
    using inv that parked_mono by blast
  show ?thesis
  proof (cases ev)
    case (Register_Start fresh u n d)
    with assms(2) old show ?thesis
      by (auto simp: register_start_def Let_def parked_ok_def split: sum.splits prod.splits dest!: park_state_ceremonies)
  next
    case (Register_Finish k c)
    with assms(2) old show ?thesis
      by (auto simp: register_finish_def Let_def ceremony_take_def split: sum.splits prod.splits option.splits if_splits)
  next
    case (Login_Start u)
    let ?creds = "passkeys_list u (pa_credentials ?s)"
    have ch: "challenged C W disp (evs @ [ev]) u state" if "?creds \<noteq> []" "wa_start_authentication W ?creds = Inr (challenge, state)"
      for challenge state
      unfolding challenged_def
      by (rule exI [of _ evs], rule exI [of _ "[]"], rule exI [of _ challenge]) (use that Login_Start in \<open>simp add: Let_def\<close>)
    from assms(2) old Login_Start show ?thesis
      by (auto simp: login_start_def Let_def start_authentication_def parked_ok_def
          split: sum.splits prod.splits if_splits dest!: park_state_ceremonies ch)
  next
    case (Login_Finish k c)
    with assms(2) old show ?thesis
      by (auto simp: login_finish_def Let_def ceremony_take_def split: sum.splits prod.splits option.splits if_splits)
  qed
qed

lemma reachable_parked:
  "pa_ceremonies (passkey_run C W disp evs passkey_api_new) i = Some raw \<Longrightarrow> parked_ok C W disp evs raw"
proof (induction evs arbitrary: i raw rule: rev_induct)
  case (snoc ev evs)
  then show ?case using step_parked [of C W disp evs ev i raw] by (simp add: passkey_run_append)
qed (simp add: passkey_api_new_def)

lemma login_finish_take:
  "login_finish W disp i c s = (r, s') \<Longrightarrow> pa_ceremonies s' i = None"
  by (auto simp: login_finish_def Let_def ceremony_take_def split: sum.splits prod.splits option.splits)

lemma login_finish_absent: "pa_ceremonies s i = None \<Longrightarrow> fst (login_finish W disp i c s) = Inl (bad_request ''unknown or expired ceremony'')"
  by (simp add: login_finish_def ceremony_take_def)

text \<open>C14: a login vouches for the right user, once. Over any history of ceremonies, of both kinds and any
  number of users, when \<open>login/finish\<close> answers a user, a \<open>login/start\<close> for that user came before it, it
  challenged the credentials that user had registered by then, and the assertion was verified against
  that very challenge; and whatever a finished ceremony answered, its id is refused the next time.\<close>

theorem passkey_login_sound:
  assumes "webauthn_ok W" and "login_finish W disp i credential (passkey_run C W disp evs passkey_api_new) = (Inr u, s')"
  shows "\<exists>state result. challenged C W disp evs u state \<and> wa_finish_authentication W credential state = Inr result
    \<and> fst (login_finish W disp i c' s') = Inl (bad_request ''unknown or expired ceremony'')"
proof -
  let ?s = "passkey_run C W disp evs passkey_api_new"
  obtain raw state result where r: "pa_ceremonies ?s i = Some raw" "unpark_authentication W raw = Inr (u, state)"
    "wa_finish_authentication W credential state = Inr result"
    using assms(2)
    by (auto simp: login_finish_def Let_def ceremony_take_def finish_authentication_def
        split: sum.splits prod.splits option.splits)
  from reachable_parked [OF r(1)] r(2) assms(1) have "challenged C W disp evs u state"
    unfolding parked_ok_def webauthn_ok_def by (metis Pair_inject sum.inject(2))
  with r(3) login_finish_absent [OF login_finish_take [OF assms(2)]] show ?thesis by blast
qed

section \<open>A concrete relying party\<close>

definition tagged :: "char \<Rightarrow> uuid \<times> string \<Rightarrow> string" where
  "tagged c x = c # replicate (unat (fst x)) CHR ''a'' @ CHR '':'' # snd x"

definition untag :: "char \<Rightarrow> string \<Rightarrow> string + uuid \<times> string" where
  "untag c t = (if t \<noteq> [] \<and> hd t = c
     then Inr (word_of_nat (length (takeWhile (\<lambda>d. d = CHR ''a'') (tl t))), tl (dropWhile (\<lambda>d. d = CHR ''a'') (tl t)))
     else Inl ''wrong kind'')"

definition toy_webauthn :: webauthn where
  "toy_webauthn =
     \<lparr>wa_cred_id = (\<lambda>p. p), wa_start_registration = (\<lambda>u n d ex. Inr (''create'', n)),
      wa_finish_registration = (\<lambda>response state. Inr response),
      wa_start_authentication = (\<lambda>creds. Inr (''get'', concat creds)),
      wa_finish_authentication = (\<lambda>response state. if response = state then Inr response else Inl ''bad assertion''),
      wa_result_cred_id = (\<lambda>r. r), wa_update_credential = (\<lambda>p r. (Some False, p)),
      park_registration = (\<lambda>x. Inr (tagged CHR ''R'' x)), unpark_registration = untag CHR ''R'',
      park_authentication = (\<lambda>x. Inr (tagged CHR ''A'' x)), unpark_authentication = untag CHR ''A''\<rparr>"

lemma untag_tagged: "untag c (tagged c x) = Inr x"
proof -
  have "takeWhile (\<lambda>d. d = a) (replicate n a @ b # s) = replicate n a" "dropWhile (\<lambda>d. d = a) (replicate n a @ b # s) = b # s"
    if "b \<noteq> a" for n and a b :: char and s using that by (induction n) auto
  then show ?thesis by (simp add: untag_def tagged_def)
qed

lemma toy_webauthn_ok: "webauthn_ok toy_webauthn"
  by (auto simp: webauthn_ok_def toy_webauthn_def untag_tagged) (simp add: untag_def tagged_def)

theorem passkey_login_sound_witness:
  "\<exists>i s'. login_finish toy_webauthn (\<lambda>_. []) i ''k''
      (passkey_run demo_crypto toy_webauthn (\<lambda>_. []) [Register_Start 7 (Some 1) ''ann'' ''Ann'', Register_Finish (base64url demo_crypto (the (fill demo_crypto 0 16))) ''k'', Login_Start 1]
         passkey_api_new) = (Inr 1, s')
    \<and> fst (login_finish toy_webauthn (\<lambda>_. []) i ''k'' s') = Inl (bad_request ''unknown or expired ceremony'')"
proof -
  let ?i = "base64url demo_crypto (the (fill demo_crypto 1 16))"
  let ?evs = "[Register_Start 7 (Some 1) ''ann'' ''Ann'', Register_Finish (base64url demo_crypto (the (fill demo_crypto 0 16))) ''k'', Login_Start 1]"
  obtain s' where s: "login_finish toy_webauthn (\<lambda>_. []) ?i ''k'' (passkey_run demo_crypto toy_webauthn (\<lambda>_. []) ?evs passkey_api_new) = (Inr 1, s')"
    by (simp add: register_start_def register_finish_def login_start_def login_finish_def passkey_api_new_def park_state_def
        random_token_def random_bytes_def demo_crypto_def ceremony_put_def ceremony_take_def start_registration_def
        finish_registration_def start_authentication_def finish_authentication_def map_err_def parked_def unpark_def
        passkeys_list_def passkeys_new_def passkeys_add_def toy_webauthn_def untag_tagged Let_def)
  with passkey_login_sound [OF toy_webauthn_ok s, of "''k''"] show ?thesis by blast
qed

end
