(* ===== verification/Paseto.thy ===== *)
theory Paseto
  imports Jwt Decimal
begin

text \<open>
  PASETO v4 tokens over the JWT claims (\<open>klauthed-security/src/paseto.rs\<close>). The \<open>pasetors\<close> crate is a
  parameter, the fields of \<open>paseto_lib\<close> over its opaque claims \<open>'c\<close> and keys \<open>'k\<close>; \<open>pl_view\<close> is the
  JSON object a claims value stands for. \<open>paseto_ok\<close> is the documented behaviour the code relies on.
\<close>

record ('k, 'c) paseto_lib =
  pl_new :: "string + 'c"
  pl_set :: "string \<Rightarrow> string \<Rightarrow> 'c \<Rightarrow> string + 'c"
  pl_non_expiring :: "'c \<Rightarrow> 'c"
  pl_add :: "string \<Rightarrow> json \<Rightarrow> 'c \<Rightarrow> string + 'c"
  pl_to_string :: "'c \<Rightarrow> string + string"
  pl_json_parse :: "string \<Rightarrow> string + json"
  pl_view :: "'c \<Rightarrow> (string \<rightharpoonup> json)"
  pl_rfc3339 :: "timestamp \<Rightarrow> string"
  pl_parse_rfc3339 :: "string \<Rightarrow> timestamp option"
  pl_sign :: "'k \<Rightarrow> 'c \<Rightarrow> string + string"
  pl_untrusted :: "string \<Rightarrow> string + string"
  pl_verify :: "'k \<Rightarrow> string \<Rightarrow> timestamp \<Rightarrow> string option \<Rightarrow> string option \<Rightarrow> string + 'c option"
  pl_valid :: "timestamp \<Rightarrow> string option \<Rightarrow> string option \<Rightarrow> (string \<rightharpoonup> json) \<Rightarrow> bool"

definition default_keys :: "string set" where
  "default_keys = {''iat'', ''nbf'', ''exp''}"

text \<open>New claims carry at most the three default times; a setter that succeeds sets its key to the text;
  \<open>non_expiring\<close> drops the expiry; a custom claim is set as given; the text of the claims parses to the
  object; whole seconds survive RFC 3339; and a token that was signed (or encrypted) verifies to its
  claims when they meet the rules.\<close>

definition paseto_ok :: "time_range \<Rightarrow> ('k, 'c) paseto_lib \<Rightarrow> bool" where
  "paseto_ok R L \<longleftrightarrow>
     (\<forall>c. pl_new L = Inr c \<longrightarrow> dom (pl_view L c) \<subseteq> default_keys) \<and>
     (\<forall>k v c c'. pl_set L k v c = Inr c' \<longrightarrow> pl_view L c' = (pl_view L c)(k \<mapsto> JString v)) \<and>
     (\<forall>c. pl_view L (pl_non_expiring L c) = (pl_view L c)(''exp'' := None)) \<and>
     (\<forall>k v c c'. pl_add L k v c = Inr c' \<longrightarrow> pl_view L c' = (pl_view L c)(k \<mapsto> v)) \<and>
     (\<forall>c. \<exists>t fs. pl_to_string L c = Inr t \<and> pl_json_parse L t = Inr (JObject fs) \<and> map_of fs = pl_view L c) \<and>
     (\<forall>s. in_range R (s * 1000000000) \<longrightarrow> pl_parse_rfc3339 L (pl_rfc3339 L (s * 1000000000)) = Some (s * 1000000000)) \<and>
     (\<forall>k c t now iss aud. pl_sign L k c = Inr t \<longrightarrow> pl_valid L now iss aud (pl_view L c) \<longrightarrow>
        (\<exists>u. pl_untrusted L t = Inr u \<and> pl_verify L k u now iss aud = Inr (Some c)))"

lemma paseto_text:
  "paseto_ok R L \<Longrightarrow> \<exists>t fs. pl_to_string L c = Inr t \<and> pl_json_parse L t = Inr (JObject fs) \<and> map_of fs = pl_view L c"
  unfolding paseto_ok_def by (elim conjE) (erule spec)

lemma paseto_verifies:
  "paseto_ok R L \<Longrightarrow> pl_sign L k c = Inr t \<Longrightarrow> pl_valid L now iss aud (pl_view L c) \<Longrightarrow>
   \<exists>u. pl_untrusted L t = Inr u \<and> pl_verify L k u now iss aud = Inr (Some c)"
  unfolding paseto_ok_def by (elim conjE) simp

section \<open>Claims\<close>

definition set_opt :: "('k, 'c) paseto_lib \<Rightarrow> string \<Rightarrow> string option \<Rightarrow> 'c \<Rightarrow> string + 'c" where
  "set_opt L k v c = (case v of None \<Rightarrow> Inr c | Some s \<Rightarrow> pl_set L k s c)"

definition try_bind :: "'e + 'a \<Rightarrow> ('a \<Rightarrow> 'e + 'b) \<Rightarrow> 'e + 'b" where
  "try_bind r f = (case r of Inl e \<Rightarrow> Inl e | Inr x \<Rightarrow> f x)"

lemma try_bind_Inr [simp]: "try_bind r f = Inr y \<longleftrightarrow> (\<exists>x. r = Inr x \<and> f x = Inr y)"
  by (cases r) (simp_all add: try_bind_def)

fun add_custom :: "('k, 'c) paseto_lib \<Rightarrow> (string \<times> json) list \<Rightarrow> 'c \<Rightarrow> string + 'c" where
  "add_custom L [] c = Inr c"
| "add_custom L ((k, v) # kvs) c = try_bind (pl_add L k v c) (add_custom L kvs)"

text \<open>\<open>custom\<close> lists the entries of the custom claims in the order the map iterates them.\<close>

definition to_paseto_claims ::
  "time_range \<Rightarrow> ('k, 'c) paseto_lib \<Rightarrow> (string \<times> json) list \<Rightarrow> claims \<Rightarrow> security_error + 'c" where
  "to_paseto_claims R L custom c =
     map_sum SE_Encode id
       (let rfc = (\<lambda>secs. pl_rfc3339 L (from_unix_seconds R secs))
        in try_bind (pl_new L) (\<lambda>c0.
           try_bind (case c_exp c of Some e \<Rightarrow> pl_set L ''exp'' (rfc e) c0 | None \<Rightarrow> Inr (pl_non_expiring L c0)) (\<lambda>c1.
           try_bind (set_opt L ''iat'' (map_option rfc (c_iat c)) c1) (\<lambda>c2.
           try_bind (set_opt L ''nbf'' (map_option rfc (c_nbf c)) c2) (\<lambda>c3.
           try_bind (set_opt L ''sub'' (c_sub c) c3) (\<lambda>c4.
           try_bind (set_opt L ''iss'' (c_iss c) c4) (\<lambda>c5.
           try_bind (set_opt L ''aud'' (c_aud c) c5) (\<lambda>c6.
           try_bind (set_opt L ''jti'' (c_jti c) c6) (\<lambda>c7.
           add_custom L custom c7)))))))))"

definition REGISTERED :: "string list" where
  "REGISTERED = [''sub'', ''iss'', ''aud'', ''exp'', ''iat'', ''nbf'', ''jti'']"

definition from_paseto_claims :: "('k, 'c) paseto_lib \<Rightarrow> 'c \<Rightarrow> security_error + claims" where
  "from_paseto_claims L payload =
     (case pl_to_string L payload of
        Inl e \<Rightarrow> Inl (SE_InvalidToken e)
      | Inr text \<Rightarrow>
          (case pl_json_parse L text of
             Inl e \<Rightarrow> Inl (SE_InvalidToken (''claims JSON: '' @ e))
           | Inr (JObject fs) \<Rightarrow>
               (let take_str = (\<lambda>k. Option.bind (map_of fs k) json_as_str);
                    take_secs = (\<lambda>k. map_option unix_seconds (Option.bind (take_str k) (pl_parse_rfc3339 L)))
                in Inr \<lparr>c_sub = take_str ''sub'', c_iss = take_str ''iss'', c_aud = take_str ''aud'', c_exp = take_secs ''exp'',
                        c_iat = take_secs ''iat'', c_nbf = take_secs ''nbf'', c_jti = take_str ''jti'',
                        c_custom = map_of (filter (\<lambda>(k, v). k \<notin> set REGISTERED) fs)\<rparr>)
           | Inr _ \<Rightarrow> Inl (SE_InvalidToken ''claims were not a JSON object'')))"

section \<open>Tokens\<close>

text \<open>Signer and verifier of v4.public, and the one key of v4.local, have the same text over their
  operations (\<open>sign\<close> and \<open>verify\<close>, \<open>encrypt\<close> and \<open>decrypt\<close>); \<open>pl_sign\<close> and \<open>pl_verify\<close> stand for either
  pair.\<close>

record 'k paseto_verifier =
  pv_key :: 'k
  pv_issuer :: "string option"
  pv_audience :: "string option"

definition paseto_verifier_new :: "'k \<Rightarrow> 'k paseto_verifier" where
  "paseto_verifier_new k = \<lparr>pv_key = k, pv_issuer = None, pv_audience = None\<rparr>"

definition paseto_expecting_issuer :: "string \<Rightarrow> 'k paseto_verifier \<Rightarrow> 'k paseto_verifier" where
  "paseto_expecting_issuer iss v = v\<lparr>pv_issuer := Some iss\<rparr>"

definition paseto_expecting_audience :: "string \<Rightarrow> 'k paseto_verifier \<Rightarrow> 'k paseto_verifier" where
  "paseto_expecting_audience aud v = v\<lparr>pv_audience := Some aud\<rparr>"

definition paseto_encode ::
  "time_range \<Rightarrow> ('k, 'c) paseto_lib \<Rightarrow> 'k \<Rightarrow> (string \<times> json) list \<Rightarrow> claims \<Rightarrow> security_error + string" where
  "paseto_encode R L k custom c =
     (case to_paseto_claims R L custom c of
        Inl e \<Rightarrow> Inl e
      | Inr payload \<Rightarrow> map_sum SE_Encode id (pl_sign L k payload))"

definition paseto_decode ::
  "('k, 'c) paseto_lib \<Rightarrow> 'k paseto_verifier \<Rightarrow> timestamp \<Rightarrow> string \<Rightarrow> security_error + claims" where
  "paseto_decode L v now token =
     (case pl_untrusted L token of
        Inl e \<Rightarrow> Inl (SE_MalformedToken e)
      | Inr untrusted \<Rightarrow>
          (case pl_verify L (pv_key v) untrusted now (pv_issuer v) (pv_audience v) of
             Inl e \<Rightarrow> Inl (SE_InvalidToken e)
           | Inr None \<Rightarrow> Inl (SE_InvalidToken ''token carried no claims'')
           | Inr (Some payload) \<Rightarrow> from_paseto_claims L payload))"

section \<open>Round trip\<close>

text \<open>Claims that a builder makes: both issue times set, times the \<open>time\<close> crate represents, and custom
  claims under names of their own.\<close>

definition paseto_claims_ok :: "time_range \<Rightarrow> (string \<times> json) list \<Rightarrow> claims \<Rightarrow> bool" where
  "paseto_claims_ok R custom c \<longleftrightarrow>
     c_iat c \<noteq> None \<and> c_nbf c \<noteq> None \<and>
     (\<forall>t. c_exp c = Some t \<or> c_iat c = Some t \<or> c_nbf c = Some t \<longrightarrow> in_range R (t * 1000000000)) \<and>
     distinct (map fst custom) \<and> map_of custom = c_custom c \<and> (\<forall>k \<in> fst ` set custom. k \<notin> set REGISTERED)"

lemma custom_unregistered:
  assumes "paseto_claims_ok R custom c" and "k \<in> set REGISTERED"
  shows "map_of custom k = None"
proof -
  have "k \<notin> fst ` set custom" using assms by (auto simp: paseto_claims_ok_def)
  then show ?thesis by (simp add: map_of_eq_None_iff)
qed

lemma map_sum_Inr [simp]: "map_sum f id r = Inr x \<longleftrightarrow> r = Inr x"
  by (cases r) simp_all

lemma set_opt_view:
  assumes "paseto_ok R L" and "set_opt L k v c = Inr c'"
  shows "pl_view L c' j = (if j = k \<and> v \<noteq> None then map_option JString v else pl_view L c j)"
  using assms by (auto simp: set_opt_def paseto_ok_def split: option.splits)

lemma add_custom_view:
  assumes "paseto_ok R L"
  shows "add_custom L kvs c = Inr c' \<Longrightarrow> distinct (map fst kvs) \<Longrightarrow>
    pl_view L c' = (\<lambda>k. case map_of kvs k of Some v \<Rightarrow> Some v | None \<Rightarrow> pl_view L c k)"
proof (induction kvs arbitrary: c)
  case (Cons kv kvs)
  obtain k v where kv: "kv = (k, v)" by fastforce
  from Cons.prems kv obtain c1 where c1: "pl_add L k v c = Inr c1" "add_custom L kvs c1 = Inr c'" by auto
  have "pl_view L c1 = (pl_view L c)(k \<mapsto> v)" using c1(1) assms by (simp add: paseto_ok_def)
  moreover have "map_of kvs k = None" using Cons.prems(2) kv by (simp add: map_of_eq_None_iff)
  ultimately show ?case using Cons.IH [OF c1(2)] Cons.prems(2) kv by (auto simp: fun_eq_iff split: option.splits)
qed simp

lemma to_paseto_view:
  assumes L: "paseto_ok R L" and c: "paseto_claims_ok R custom c" and "to_paseto_claims R L custom c = Inr p"
  defines "secs \<equiv> map_option (\<lambda>s. JString (pl_rfc3339 L (from_unix_seconds R s)))"
  shows "pl_view L p ''sub'' = map_option JString (c_sub c)" and "pl_view L p ''iss'' = map_option JString (c_iss c)"
    and "pl_view L p ''aud'' = map_option JString (c_aud c)" and "pl_view L p ''jti'' = map_option JString (c_jti c)"
    and "pl_view L p ''exp'' = secs (c_exp c)" and "pl_view L p ''iat'' = secs (c_iat c)" and "pl_view L p ''nbf'' = secs (c_nbf c)"
    and "k \<notin> set REGISTERED \<Longrightarrow> pl_view L p k = c_custom c k"
proof -
  let ?rfc = "\<lambda>secs. pl_rfc3339 L (from_unix_seconds R secs)"
  obtain c0 c1 c2 c3 c4 c5 c6 c7 where ch: "pl_new L = Inr c0"
    "(case c_exp c of Some e \<Rightarrow> pl_set L ''exp'' (?rfc e) c0 | None \<Rightarrow> Inr (pl_non_expiring L c0)) = Inr c1"
    "set_opt L ''iat'' (map_option ?rfc (c_iat c)) c1 = Inr c2" "set_opt L ''nbf'' (map_option ?rfc (c_nbf c)) c2 = Inr c3"
    "set_opt L ''sub'' (c_sub c) c3 = Inr c4" "set_opt L ''iss'' (c_iss c) c4 = Inr c5" "set_opt L ''aud'' (c_aud c) c5 = Inr c6"
    "set_opt L ''jti'' (c_jti c) c6 = Inr c7" "add_custom L custom c7 = Inr p"
    using assms(3) by (auto simp: to_paseto_claims_def Let_def)
  have v0: "pl_view L c0 j = None" if "j \<notin> default_keys" for j
    using L ch(1) that by (auto simp: paseto_ok_def)
  have v1: "pl_view L c1 = (pl_view L c0)(''exp'' := secs (c_exp c))"
    using ch(2) L by (auto simp: paseto_ok_def secs_def split: option.splits)
  note v = set_opt_view [OF L ch(3)] set_opt_view [OF L ch(4)] set_opt_view [OF L ch(5)] set_opt_view [OF L ch(6)]
    set_opt_view [OF L ch(7)] set_opt_view [OF L ch(8)]
  have p: "pl_view L p = (\<lambda>k. case map_of custom k of Some v \<Rightarrow> Some v | None \<Rightarrow> pl_view L c7 k)"
    using add_custom_view [OF L ch(9)] c by (simp add: paseto_claims_ok_def)
  have reg: "pl_view L p j = pl_view L c7 j" if "j \<in> set REGISTERED" for j
    using custom_unregistered [OF c that] by (simp add: p)
  have times: "c_iat c \<noteq> None" "c_nbf c \<noteq> None" using c by (simp_all add: paseto_claims_ok_def)
  note facts = reg REGISTERED_def v v1 v0 default_keys_def
  show "pl_view L p ''sub'' = map_option JString (c_sub c)" by (simp add: facts)
  show "pl_view L p ''iss'' = map_option JString (c_iss c)" by (simp add: facts)
  show "pl_view L p ''aud'' = map_option JString (c_aud c)" by (simp add: facts)
  show "pl_view L p ''jti'' = map_option JString (c_jti c)" by (simp add: facts)
  show "pl_view L p ''exp'' = secs (c_exp c)" by (simp add: facts)
  show "pl_view L p ''iat'' = secs (c_iat c)" using times by (simp add: facts secs_def option.map_comp comp_def)
  show "pl_view L p ''nbf'' = secs (c_nbf c)" using times by (simp add: facts secs_def option.map_comp comp_def)
  show "pl_view L p k = c_custom c k" if "k \<notin> set REGISTERED"
  proof -
    have "map_of custom = c_custom c" using c by (simp add: paseto_claims_ok_def)
    moreover have "pl_view L c7 k = None" using that by (simp add: v v1 v0 default_keys_def REGISTERED_def)
    ultimately show ?thesis by (simp add: p split: option.splits)
  qed
qed

lemma map_of_filter_keys: "map_of (filter (\<lambda>(k, v). P k) fs) k = (if P k then map_of fs k else None)"
  by (induction fs) auto

lemma seconds_roundtrip: "in_range R (s * 1000000000) \<Longrightarrow> from_unix_seconds R s = s * 1000000000 \<and> unix_seconds (s * 1000000000) = s"
  by (simp add: from_unix_seconds_def from_unix_seconds_opt_def unix_seconds_def)

lemma from_paseto_view:
  assumes L: "paseto_ok R L" and c: "paseto_claims_ok R custom c" and p: "to_paseto_claims R L custom c = Inr p"
  shows "from_paseto_claims L p = Inr c"
proof -
  obtain t fs where t: "pl_to_string L p = Inr t" "pl_json_parse L t = Inr (JObject fs)" "map_of fs = pl_view L p"
    using paseto_text [OF L] by blast
  note view = to_paseto_view [OF L c p]
  have str: "Option.bind (map_option JString x) json_as_str = x" for x
    by (cases x) (simp_all add: json_as_str_def)
  have secs: "map_option unix_seconds (Option.bind (map_option (\<lambda>s. JString (pl_rfc3339 L (from_unix_seconds R s))) x)
      (\<lambda>y. Option.bind (json_as_str y) (pl_parse_rfc3339 L))) = x" if "\<And>s. x = Some s \<Longrightarrow> in_range R (s * 1000000000)" for x
    using L that by (cases x) (auto simp: json_as_str_def seconds_roundtrip paseto_ok_def)
  have custom: "map_of (filter (\<lambda>(k, v). k \<notin> set REGISTERED) fs) = c_custom c"
  proof
    fix k
    have "c_custom c k = None" if "k \<in> set REGISTERED"
      using custom_unregistered [OF c that] c by (simp add: paseto_claims_ok_def)
    then show "map_of (filter (\<lambda>(k, v). k \<notin> set REGISTERED) fs) k = c_custom c k"
      using view(8) [of k] t(3) by (simp add: map_of_filter_keys)
  qed
  have "in_range R (s * 1000000000)" if "c_exp c = Some s \<or> c_iat c = Some s \<or> c_nbf c = Some s" for s
    using c that unfolding paseto_claims_ok_def by blast
  then show ?thesis
    by (simp add: from_paseto_claims_def t custom view(1-7) str secs)
qed

text \<open>C15: a PASETO carries the claims it was made from. Decoding a token that encodes claims with both issue
  times, at a time and under expectations its claims meet, gives back exactly those claims, the times to
  the second and the custom claims included.\<close>

theorem paseto_roundtrip:
  assumes "paseto_ok R L" and "paseto_claims_ok R custom c" and "paseto_encode R L (pv_key v) custom c = Inr token"
    and "\<And>p. to_paseto_claims R L custom c = Inr p \<Longrightarrow> pl_valid L now (pv_issuer v) (pv_audience v) (pl_view L p)"
  shows "paseto_decode L v now token = Inr c"
proof -
  obtain p where p: "to_paseto_claims R L custom c = Inr p" "pl_sign L (pv_key v) p = Inr token"
    using assms(3) by (auto simp: paseto_encode_def split: sum.splits)
  obtain u where "pl_untrusted L token = Inr u" "pl_verify L (pv_key v) u now (pv_issuer v) (pv_audience v) = Inr (Some p)"
    using paseto_verifies [OF assms(1) p(2) assms(4) [OF p(1)]] by blast
  with from_paseto_view [OF assms(1,2) p(1)] show ?thesis by (simp add: paseto_decode_def)
qed

section \<open>A concrete library\<close>

text \<open>A library that knows one set of claims: a value is how many of its fields have been set.\<close>

definition toy_rfc3339 :: "timestamp \<Rightarrow> string" where
  "toy_rfc3339 t = show_int (t div 1000000000)"

definition toy_fields :: "(string \<times> json) list" where
  "toy_fields = [(''iat'', JString (toy_rfc3339 5000000000)), (''nbf'', JString (toy_rfc3339 5000000000)),
     (''sub'', JString ''ann''), (''role'', JNull)]"

definition toy_put :: "string \<Rightarrow> json \<Rightarrow> nat \<Rightarrow> string + nat" where
  "toy_put k v n = (if n < 4 \<and> toy_fields ! n = (k, v) then Inr (Suc n) else Inl ''unsupported'')"

definition toy_paseto :: "(unit, nat) paseto_lib" where
  "toy_paseto =
     \<lparr>pl_new = Inr 0, pl_set = (\<lambda>k v. toy_put k (JString v)), pl_non_expiring = (\<lambda>n. n), pl_add = toy_put,
      pl_to_string = (\<lambda>n. Inr (replicate n CHR ''a'')), pl_json_parse = (\<lambda>t. Inr (JObject (take (length t) toy_fields))),
      pl_view = (\<lambda>n. map_of (take n toy_fields)),
      pl_rfc3339 = toy_rfc3339, pl_parse_rfc3339 = (\<lambda>s. map_option (\<lambda>n. n * 1000000000) (parse_i64 s)),
      pl_sign = (\<lambda>_ n. Inr (replicate n CHR ''a'')), pl_untrusted = Inr,
      pl_verify = (\<lambda>_ u _ _ _. Inr (Some (length u))), pl_valid = (\<lambda>_ _ _ _. True)\<rparr>"

lemma toy_put_view: "toy_put k v n = Inr m \<Longrightarrow> map_of (take m toy_fields) = (map_of (take n toy_fields))(k \<mapsto> v)"
proof -
  assume p: "toy_put k v n = Inr m"
  then have "n \<in> {0, 1, 2, 3}" "m = Suc n" "(k, v) = toy_fields ! n" by (auto simp: toy_put_def split: if_splits)
  then show ?thesis by (elim insertE emptyE) (auto simp: toy_fields_def fun_eq_iff)
qed

lemma toy_paseto_ok: "paseto_ok demo_range toy_paseto"
proof -
  have "map_of (take n toy_fields) ''exp'' = None" for n
    using set_take_subset [of n toy_fields] by (auto simp: map_of_eq_None_iff toy_fields_def)
  then have exp: "(map_of (take n toy_fields))(''exp'' := None) = map_of (take n toy_fields)" for n
    by (simp add: fun_eq_iff)
  moreover have "parse_i64 (show_int s) = Some s" if "in_range demo_range (s * 1000000000)" for s
    using that by (intro parse_show_i64) (simp add: in_range_def demo_range_def i64_range_def)
  ultimately show ?thesis
    by (auto simp: paseto_ok_def toy_paseto_def toy_rfc3339_def exp dest: toy_put_view)
qed

definition toy_claims :: claims where
  "toy_claims = \<lparr>c_sub = Some ''ann'', c_iss = None, c_aud = None, c_exp = None, c_iat = Some 5, c_nbf = Some 5, c_jti = None,
     c_custom = [''role'' \<mapsto> JNull]\<rparr>"

theorem paseto_roundtrip_witness:
  "\<exists>token. paseto_encode demo_range toy_paseto () [(''role'', JNull)] toy_claims = Inr token
    \<and> paseto_decode toy_paseto (paseto_verifier_new ()) 0 token = Inr toy_claims"
proof -
  have e: "paseto_encode demo_range toy_paseto (pv_key (paseto_verifier_new ())) [(''role'', JNull)] toy_claims = Inr ''aaaa''"
    by (simp add: paseto_encode_def to_paseto_claims_def toy_paseto_def toy_claims_def toy_put_def toy_fields_def try_bind_def
        set_opt_def from_unix_seconds_def from_unix_seconds_opt_def in_range_def demo_range_def)
  have "paseto_claims_ok demo_range [(''role'', JNull)] toy_claims"
    by (simp add: paseto_claims_ok_def toy_claims_def in_range_def demo_range_def REGISTERED_def)
  from paseto_roundtrip [OF toy_paseto_ok this e, of 0] e show ?thesis
    by (auto simp: toy_paseto_def paseto_verifier_new_def)
qed

end
