(* ===== verification/Credentials.thy ===== *)
theory Credentials
  imports Tokens Decimal
begin

text \<open>
  The breached-password lookup (\<open>klauthed-security/src/password/hibp.rs\<close>) and time-based one-time
  passwords (\<open>klauthed-security/src/mfa/totp.rs\<close>, \<open>mfa/secret.rs\<close>). SHA-1, the HTTP client and the
  \<open>totp-rs\<close> crate are parameters; the client acts on a world \<open>'w\<close> that stands for everything an
  observer of the network sees.
\<close>

section \<open>Breached passwords\<close>

text \<open>\<open>str::lines\<close>: split at line feeds, a final empty line dropped and a carriage return before the
  line feed removed.\<close>

definition strip_cr :: "string \<Rightarrow> string" where
  "strip_cr s = (if s \<noteq> [] \<and> last s = CHR 0x0D then butlast s else s)"

definition str_lines :: "string \<Rightarrow> string list" where
  "str_lines s =
     (let ps = str_split (CHR 0x0A) s in map strip_cr (butlast ps) @ (if last ps = [] then [] else [last ps]))"

definition eq_ignore_ascii_case :: "string \<Rightarrow> string \<Rightarrow> bool" where
  "eq_ignore_ascii_case a b = (to_lowercase a = to_lowercase b)"

fun count_lines :: "string list \<Rightarrow> string \<Rightarrow> nat" where
  "count_lines [] suffix = 0"
| "count_lines (line # ls) suffix =
     (case split_once (CHR '':'') (str_trim line) of
        None \<Rightarrow> count_lines ls suffix
      | Some (candidate, count) \<Rightarrow>
          if eq_ignore_ascii_case candidate suffix
          then (case parse_unsigned 64 (str_trim count) of None \<Rightarrow> 0 | Some n \<Rightarrow> n)
          else count_lines ls suffix)"

definition parse_count :: "string \<Rightarrow> string \<Rightarrow> nat" where
  "parse_count body suffix = count_lines (str_lines body) suffix"

record hibp_client =
  hc_base_url :: string

definition hibp_new :: hibp_client where
  "hibp_new = \<lparr>hc_base_url = ''https://api.pwnedpasswords.com''\<rparr>"

definition hibp_with_base_url :: "string \<Rightarrow> hibp_client \<Rightarrow> hibp_client" where
  "hibp_with_base_url url c = c\<lparr>hc_base_url := rev (dropWhile (\<lambda>ch. ch = CHR ''/'') (rev url))\<rparr>"

text \<open>An answer is a transport error, or a status with the result of reading the body.\<close>

type_synonym 'w http_get = "string \<Rightarrow> (string \<times> string) list \<Rightarrow> 'w \<Rightarrow> (string + nat \<times> (string + string)) \<times> 'w"

definition pwned_count ::
  "(bytes \<Rightarrow> string) \<Rightarrow> 'w http_get \<Rightarrow> hibp_client \<Rightarrow> string \<Rightarrow> 'w \<Rightarrow> (security_error + nat) \<times> 'w" where
  "pwned_count sha1_hex_upper http c password w =
     (let hash = sha1_hex_upper (as_bytes password); prefix = take 5 hash; suffix = drop 5 hash
      in case http (hc_base_url c @ ''/range/'' @ prefix) [(''Add-Padding'', ''true'')] w of
           (Inl e, w') \<Rightarrow> (Inl (SE_Hibp e), w')
         | (Inr (status, body), w') \<Rightarrow>
             (if \<not> (200 \<le> status \<and> status < 300) then (Inl (SE_Hibp (''range API returned '' @ show_nat status)), w')
              else (case body of Inl e \<Rightarrow> (Inl (SE_Hibp e), w') | Inr text \<Rightarrow> (Inr (parse_count text suffix), w'))))"

definition is_pwned ::
  "(bytes \<Rightarrow> string) \<Rightarrow> 'w http_get \<Rightarrow> hibp_client \<Rightarrow> string \<Rightarrow> 'w \<Rightarrow> (security_error + bool) \<times> 'w" where
  "is_pwned sha1_hex_upper http c password w =
     (case pwned_count sha1_hex_upper http c password w of
        (Inl e, w') \<Rightarrow> (Inl e, w') | (Inr n, w') \<Rightarrow> (Inr (0 < n), w'))"

section \<open>One-time passwords\<close>

type_synonym totp_secret = string

record 'i totp_lib =
  tl_decode :: "string \<Rightarrow> string + bytes"
  tl_new :: "nat \<Rightarrow> u8 \<Rightarrow> u64 \<Rightarrow> bytes \<Rightarrow> string \<Rightarrow> string \<Rightarrow> string + 'i"
  tl_generate :: "'i \<Rightarrow> u64 \<Rightarrow> string"
  tl_check :: "'i \<Rightarrow> string \<Rightarrow> u64 \<Rightarrow> bool"

definition totp_with_step ::
  "'i totp_lib \<Rightarrow> totp_secret \<Rightarrow> string \<Rightarrow> string \<Rightarrow> u64 \<Rightarrow> u8 \<Rightarrow> security_error + 'i" where
  "totp_with_step T secret issuer account step skew =
     (case tl_decode T secret of
        Inl e \<Rightarrow> Inl (SE_MfaConfig (''invalid base32 secret: '' @ e))
      | Inr bytes \<Rightarrow> map_sum SE_MfaConfig id (tl_new T 6 skew step bytes issuer account))"

definition totp_new :: "'i totp_lib \<Rightarrow> totp_secret \<Rightarrow> string \<Rightarrow> string \<Rightarrow> security_error + 'i" where
  "totp_new T secret issuer account = totp_with_step T secret issuer account 30 1"

text \<open>\<open>max(0).unsigned_abs()\<close>: instants before the epoch count as the epoch.\<close>

definition totp_unix_secs :: "timestamp \<Rightarrow> u64" where
  "totp_unix_secs now = word_of_int (max (unix_seconds now) 0)"

definition totp_generate :: "'i totp_lib \<Rightarrow> 'i \<Rightarrow> timestamp \<Rightarrow> string" where
  "totp_generate T inner now = tl_generate T inner (totp_unix_secs now)"

definition totp_verify :: "'i totp_lib \<Rightarrow> 'i \<Rightarrow> string \<Rightarrow> timestamp \<Rightarrow> bool" where
  "totp_verify T inner code now = tl_check T inner code (totp_unix_secs now)"

definition totp_verify_or_err :: "'i totp_lib \<Rightarrow> 'i \<Rightarrow> string \<Rightarrow> timestamp \<Rightarrow> security_error + unit" where
  "totp_verify_or_err T inner code now = (if totp_verify T inner code now then Inr () else Inl SE_InvalidMfaCode)"

section \<open>What the lookup reveals and finds\<close>

lemma count_lines_first:
  assumes "split_once (CHR '':'') (str_trim line) = Some (candidate, count)" and "eq_ignore_ascii_case candidate suffix"
    and "\<forall>l \<in> set before. \<forall>a b. split_once (CHR '':'') (str_trim l) = Some (a, b) \<longrightarrow> \<not> eq_ignore_ascii_case a suffix"
  shows "count_lines (before @ line # after) suffix = (case parse_unsigned 64 (str_trim count) of None \<Rightarrow> 0 | Some n \<Rightarrow> n)"
  using assms by (induction before) (auto split: option.splits)

lemma count_lines_absent:
  "\<forall>l \<in> set ls. \<forall>a b. split_once (CHR '':'') (str_trim l) = Some (a, b) \<longrightarrow> \<not> eq_ignore_ascii_case a suffix \<Longrightarrow>
   count_lines ls suffix = 0"
  by (induction ls) (auto split: option.splits)

text \<open>Only five characters of the hash leave the process. For passwords whose hashes agree on their first
  five characters the client sends the same request and leaves the same trace, and the two answers come
  from the same response; a suffix the response does not list counts zero.\<close>

theorem hibp_reveals_prefix_only:
  assumes "take 5 (h (as_bytes p)) = take 5 (h (as_bytes q))"
  shows "snd (pwned_count h http c p w) = snd (pwned_count h http c q w)
    \<and> (is_ok (fst (pwned_count h http c p w)) \<longleftrightarrow> is_ok (fst (pwned_count h http c q w)))"
  using assms by (auto simp: pwned_count_def Let_def is_ok_def split: prod.splits sum.splits)

text \<open>The clock before the epoch, and after it.\<close>

lemma totp_unix_secs_range: "unix_seconds now < 2 ^ 64 \<Longrightarrow> uint (totp_unix_secs now) = max (unix_seconds now) 0"
  by (simp add: totp_unix_secs_def uint_word_of_int)

end
