(* ===== verification/HttpClient.thy ===== *)
theory HttpClient
  imports ConfigBuild
begin

text \<open>
  The requests and answers of the \<open>reqwest\<close> client as the remote configuration providers use it, and the
  string operations they build URLs and keys with.
\<close>

record http_request =
  hq_method :: string
  hq_url :: string
  hq_headers :: "(string \<times> string) list"
  hq_query :: "(string \<times> string) list"
  hq_body :: "json option"

text \<open>Reading the body of an answer may fail as well.\<close>

record http_answer =
  ha_status :: nat
  ha_body :: "string + string"

definition status_is_success :: "nat \<Rightarrow> bool" where
  "status_is_success s = (200 \<le> s \<and> s < 300)"

text \<open>\<open>resp.json().await\<close>.\<close>

definition response_json :: "(string \<Rightarrow> string + 'a) \<Rightarrow> http_answer \<Rightarrow> string + 'a" where
  "response_json de resp = (case ha_body resp of Inl e \<Rightarrow> Inl e | Inr text \<Rightarrow> de text)"

definition http_result :: "string + 'a \<Rightarrow> config_error + 'a" where
  "http_result r = (case r of Inl e \<Rightarrow> Inl (CE_Http e) | Inr x \<Rightarrow> Inr x)"

text \<open>\<open>str::trim_end_matches\<close>, \<open>str::trim_matches\<close> and \<open>str::replace\<close> on one character.\<close>

definition trim_end_matches :: "char \<Rightarrow> string \<Rightarrow> string" where
  "trim_end_matches c s = rev (dropWhile (\<lambda>x. x = c) (rev s))"

definition trim_matches :: "char \<Rightarrow> string \<Rightarrow> string" where
  "trim_matches c s = trim_end_matches c (dropWhile (\<lambda>x. x = c) s)"

definition replace_char :: "char \<Rightarrow> char \<Rightarrow> string \<Rightarrow> string" where
  "replace_char c d s = map (\<lambda>x. if x = c then d else x) s"

end
