(* ===== verification/Vault.thy ===== *)
theory Vault
  imports HttpClient "HOL-Library.Multiset"
begin

text \<open>
  The HashiCorp Vault provider (\<open>klauthed-core/src/config/provider/vault.rs\<close>). The HTTP client with the
  server behind it is a parameter, the function \<open>vc_send\<close> from a request to the answer (its errors are
  texts); so are serde's reading of the three response bodies and the text of a status code. Within
  one load the server is taken as unchanging. The walk over the secret folders follows what the
  server lists and may go on forever, so it is a partial function, whose not returning is \<open>None\<close>.
\<close>

section \<open>The provider\<close>

record vault_client =
  vc_send :: "http_request \<Rightarrow> string + http_answer"
  vc_status_text :: "nat \<Rightarrow> string"
  vc_auth_response :: "string \<Rightarrow> string + string"
  vc_kv_response :: "string \<Rightarrow> string + config_map"
  vc_list_response :: "string \<Rightarrow> string + string list"

datatype vault_auth =
    VaultToken string
  | VaultAppRole string string string
  | VaultKubernetes string string string

fun method_name :: "vault_auth \<Rightarrow> string" where
  "method_name (VaultToken _) = ''token''"
| "method_name (VaultAppRole _ _ _) = ''approle''"
| "method_name (VaultKubernetes _ _ _) = ''kubernetes''"

record secret_mapping =
  sm_key :: string
  sm_path :: string

record vault_provider =
  vp_address :: string
  vp_namespace :: "string option"
  vp_kv_mount :: string
  vp_auth :: vault_auth
  vp_secrets :: "secret_mapping list"
  vp_base_path :: "string option"

definition vault_new :: "string \<Rightarrow> vault_auth \<Rightarrow> vault_provider" where
  "vault_new address auth =
     \<lparr>vp_address = trim_end_matches (CHR ''/'') address, vp_namespace = None, vp_kv_mount = ''secret'',
      vp_auth = auth, vp_secrets = [], vp_base_path = None\<rparr>"

definition vault_kv_mount :: "string \<Rightarrow> vault_provider \<Rightarrow> vault_provider" where
  "vault_kv_mount mount p = p\<lparr>vp_kv_mount := mount\<rparr>"

definition vault_namespace :: "string \<Rightarrow> vault_provider \<Rightarrow> vault_provider" where
  "vault_namespace ns p = p\<lparr>vp_namespace := Some ns\<rparr>"

definition with_secret :: "string \<Rightarrow> string \<Rightarrow> vault_provider \<Rightarrow> vault_provider" where
  "with_secret key path p = p\<lparr>vp_secrets := vp_secrets p @ [\<lparr>sm_key = key, sm_path = path\<rparr>]\<rparr>"

definition with_base_path :: "string \<Rightarrow> vault_provider \<Rightarrow> vault_provider" where
  "with_base_path base p = p\<lparr>vp_base_path := Some (trim_matches (CHR ''/'') base)\<rparr>"

definition or_default :: "string \<Rightarrow> string option \<Rightarrow> string" where
  "or_default d v = (case v of None \<Rightarrow> d | Some s \<Rightarrow> s)"

text \<open>The environment is the function \<open>var\<close>, \<open>read_file\<close> is \<open>std::fs::read_to_string\<close>.\<close>

definition auth_from_env ::
  "(string \<Rightarrow> string option) \<Rightarrow> (string \<Rightarrow> string + string) \<Rightarrow> config_error + vault_auth" where
  "auth_from_env var read_file =
     (case var ''VAULT_TOKEN'' of
        Some token \<Rightarrow> Inr (VaultToken token)
      | None \<Rightarrow>
          (case (var ''VAULT_ROLE_ID'', var ''VAULT_SECRET_ID'') of
             (Some role_id, Some secret_id) \<Rightarrow>
               Inr (VaultAppRole role_id secret_id (or_default ''approle'' (var ''VAULT_APPROLE_MOUNT'')))
           | _ \<Rightarrow>
               (case var ''VAULT_K8S_ROLE'' of
                  Some role \<Rightarrow>
                    (let jwt_path = or_default ''/var/run/secrets/kubernetes.io/serviceaccount/token'' (var ''VAULT_K8S_JWT_PATH'')
                     in case read_file jwt_path of
                          Inl e \<Rightarrow> Inl (CE_VaultAuth ''kubernetes''
                            (''could not read service-account JWT at '' @ [CHR 0x27] @ jwt_path @ [CHR 0x27] @ '': '' @ e))
                        | Inr jwt \<Rightarrow>
                            Inr (VaultKubernetes role (str_trim jwt) (or_default ''kubernetes'' (var ''VAULT_K8S_MOUNT''))))
                | None \<Rightarrow>
                    Inl (CE_VaultAuth ''auto''
                      (''no Vault auth configured (set VAULT_TOKEN, VAULT_ROLE_ID + '' @
                       ''VAULT_SECRET_ID, or VAULT_K8S_ROLE)'')))))"

definition vault_from_env ::
  "(string \<Rightarrow> string option) \<Rightarrow> (string \<Rightarrow> string + string) \<Rightarrow> config_error + vault_provider" where
  "vault_from_env var read_file =
     (case var ''VAULT_ADDR'' of
        None \<Rightarrow> Inl (CE_MissingEnv ''VAULT_ADDR'')
      | Some address \<Rightarrow>
          (case auth_from_env var read_file of
             Inl e \<Rightarrow> Inl e
           | Inr auth \<Rightarrow>
               (let p0 = vault_new address auth;
                    p1 = (case var ''VAULT_NAMESPACE'' of Some ns \<Rightarrow> vault_namespace ns p0 | None \<Rightarrow> p0);
                    p2 = (case var ''VAULT_KV_MOUNT'' of Some mount \<Rightarrow> vault_kv_mount mount p1 | None \<Rightarrow> p1)
                in Inr (case (case var ''APP_VAULT_PATH'' of Some b \<Rightarrow> Some b | None \<Rightarrow> var ''VAULT_KV_PATH'') of
                          Some base \<Rightarrow> with_base_path base p2
                        | None \<Rightarrow> p2))))"

definition vault_request :: "vault_provider \<Rightarrow> string \<Rightarrow> string \<Rightarrow> string option \<Rightarrow> http_request" where
  "vault_request p meth url token =
     \<lparr>hq_method = meth, hq_url = url,
      hq_headers = (case token of Some t \<Rightarrow> [(''X-Vault-Token'', t)] | None \<Rightarrow> []) @
                   (case vp_namespace p of Some ns \<Rightarrow> [(''X-Vault-Namespace'', ns)] | None \<Rightarrow> []),
      hq_query = [], hq_body = None\<rparr>"

definition login_request :: "vault_client \<Rightarrow> vault_provider \<Rightarrow> string \<Rightarrow> json \<Rightarrow> config_error + string" where
  "login_request V p url body =
     (case vc_send V ((vault_request p ''POST'' url None)\<lparr>hq_body := Some body\<rparr>) of
        Inl e \<Rightarrow> Inl (CE_Http e)
      | Inr resp \<Rightarrow>
          if \<not> status_is_success (ha_status resp)
          then (let detail = (case ha_body resp of Inl _ \<Rightarrow> [] | Inr text \<Rightarrow> text)
                in Inl (CE_VaultAuth (method_name (vp_auth p))
                     (''login returned HTTP '' @ vc_status_text V (ha_status resp) @ '': '' @ detail)))
          else http_result (response_json (vc_auth_response V) resp))"

definition login_url :: "vault_provider \<Rightarrow> string \<Rightarrow> string" where
  "login_url p mount = vp_address p @ ''/v1/auth/'' @ mount @ ''/login''"

fun vault_login_with :: "vault_client \<Rightarrow> vault_provider \<Rightarrow> vault_auth \<Rightarrow> config_error + string" where
  "vault_login_with V p (VaultToken token) = Inr token"
| "vault_login_with V p (VaultAppRole role_id secret_id mount) =
     login_request V p (login_url p mount)
       (JObject [(''role_id'', JString role_id), (''secret_id'', JString secret_id)])"
| "vault_login_with V p (VaultKubernetes role jwt mount) =
     login_request V p (login_url p mount) (JObject [(''jwt'', JString jwt), (''role'', JString role)])"

definition vault_login :: "vault_client \<Rightarrow> vault_provider \<Rightarrow> config_error + string" where
  "vault_login V p = vault_login_with V p (vp_auth p)"

definition read_secret :: "vault_client \<Rightarrow> vault_provider \<Rightarrow> string \<Rightarrow> string \<Rightarrow> config_error + config_map" where
  "read_secret V p token path =
     (let url = vp_address p @ ''/v1/'' @ vp_kv_mount p @ ''/data/'' @ path
      in case vc_send V (vault_request p ''GET'' url (Some token)) of
           Inl e \<Rightarrow> Inl (CE_Http e)
         | Inr resp \<Rightarrow>
             if ha_status resp = 404 then Inl (CE_VaultSecretNotFound path)
             else if \<not> status_is_success (ha_status resp)
             then Inl (CE_VaultRequest path (''HTTP '' @ vc_status_text V (ha_status resp)))
             else http_result (response_json (vc_kv_response V) resp))"

text \<open>One \<open>LIST\<close> of the loop of \<open>discover\<close>; \<open>None\<close> is the folder that does not exist.\<close>

definition list_folder :: "vault_client \<Rightarrow> vault_provider \<Rightarrow> string \<Rightarrow> string \<Rightarrow> config_error + string list option" where
  "list_folder V p token pre =
     (let url = vp_address p @ ''/v1/'' @ vp_kv_mount p @ ''/metadata/'' @ pre
      in case vc_send V ((vault_request p ''GET'' url (Some token))\<lparr>hq_query := [(''list'', ''true'')]\<rparr>) of
           Inl e \<Rightarrow> Inl (CE_Http e)
         | Inr resp \<Rightarrow>
             if ha_status resp = 404 then Inr None
             else if \<not> status_is_success (ha_status resp)
             then Inl (CE_VaultRequest pre (''LIST returned HTTP '' @ vc_status_text V (ha_status resp)))
             else (case http_result (response_json (vc_list_response V) resp) of
                     Inl e \<Rightarrow> Inl e
                   | Inr keys \<Rightarrow> Inr (Some keys)))"

text \<open>The body of the loop over the keys of one folder; the top of the stack is the head of the list.\<close>

definition sort_entry :: "string \<Rightarrow> string \<Rightarrow> string list \<times> string list \<Rightarrow> string list \<times> string list" where
  "sort_entry pre entry s =
     (let child = trim_end_matches (CHR ''/'') pre @ ''/'' @ trim_end_matches (CHR ''/'') entry
      in if entry \<noteq> [] \<and> last entry = CHR ''/'' then (child # fst s, snd s) else (fst s, snd s @ [child]))"

partial_function (option) discover_loop ::
  "vault_client \<Rightarrow> vault_provider \<Rightarrow> string \<Rightarrow> string list \<Rightarrow> string list \<Rightarrow> (config_error + string list) option" where
  "discover_loop V p token stack leaves =
     (case stack of
        [] \<Rightarrow> Some (Inr leaves)
      | pre # rest \<Rightarrow>
          (case list_folder V p token pre of
             Inl e \<Rightarrow> Some (Inl e)
           | Inr None \<Rightarrow> discover_loop V p token rest leaves
           | Inr (Some keys) \<Rightarrow>
               discover_loop V p token (fst (fold (sort_entry pre) keys (rest, leaves)))
                 (snd (fold (sort_entry pre) keys (rest, leaves)))))"

definition discover :: "vault_client \<Rightarrow> vault_provider \<Rightarrow> string \<Rightarrow> string \<Rightarrow> (config_error + string list) option" where
  "discover V p token base_path = discover_loop V p token [base_path] []"

definition key_for_leaf :: "string \<Rightarrow> string \<Rightarrow> string" where
  "key_for_leaf base_path leaf =
     replace_char (CHR ''/'') (CHR ''.'')
       (trim_matches (CHR ''/'') (case str_strip_prefix base_path leaf of None \<Rightarrow> leaf | Some r \<Rightarrow> r))"

fun load_mappings :: "vault_client \<Rightarrow> vault_provider \<Rightarrow> string \<Rightarrow> secret_mapping list \<Rightarrow> config_map \<Rightarrow> config_error + config_map" where
  "load_mappings V p token [] flat = Inr flat"
| "load_mappings V p token (m # ms) flat =
     (case read_secret V p token (sm_path m) of
        Inl e \<Rightarrow> Inl e
      | Inr data \<Rightarrow> load_mappings V p token ms (bt_insert (sm_key m) (JObject data) flat))"

fun load_leaves :: "vault_client \<Rightarrow> vault_provider \<Rightarrow> string \<Rightarrow> string \<Rightarrow> string list \<Rightarrow> config_map \<Rightarrow> config_error + config_map" where
  "load_leaves V p token base [] flat = Inr flat"
| "load_leaves V p token base (leaf # ls) flat =
     (let key = key_for_leaf base leaf
      in if key = [] then load_leaves V p token base ls flat
         else (case read_secret V p token leaf of
                 Inl e \<Rightarrow> Inl e
               | Inr data \<Rightarrow> load_leaves V p token base ls (bt_insert key (JObject data) flat)))"

text \<open>\<open>load\<close>; \<open>None\<close> when the walk over the folders does not end.\<close>

definition vault_load :: "vault_client \<Rightarrow> vault_provider \<Rightarrow> (config_error + config_map) option" where
  "vault_load V p =
     (case vault_login V p of
        Inl e \<Rightarrow> Some (Inl e)
      | Inr token \<Rightarrow>
          (case load_mappings V p token (vp_secrets p) [] of
             Inl e \<Rightarrow> Some (Inl e)
           | Inr flat \<Rightarrow>
               (case vp_base_path p of
                  None \<Rightarrow> Some (Inr (expand_dotted flat))
                | Some base \<Rightarrow>
                    (case discover V p token base of
                       None \<Rightarrow> None
                     | Some (Inl e) \<Rightarrow> Some (Inl e)
                     | Some (Inr leaves) \<Rightarrow>
                         (case load_leaves V p token base leaves flat of
                            Inl e \<Rightarrow> Some (Inl e)
                          | Inr flat' \<Rightarrow> Some (Inr (expand_dotted flat')))))))"

definition vault_name :: "vault_provider \<Rightarrow> string" where
  "vault_name p = ''vault:'' @ vp_address p"

section \<open>Trees of secrets\<close>

text \<open>What a KV v2 mount holds below a path: secrets with their data, and folders of named entries. A
  name may stand for a secret and for a folder at once, as Vault allows.\<close>

datatype vault_node = Secret config_map | Folder "(string \<times> vault_node) list"

definition entry_name :: "string \<times> vault_node \<Rightarrow> string" where
  "entry_name e = (case snd e of Secret _ \<Rightarrow> fst e | Folder _ \<Rightarrow> fst e @ ''/'')"

definition name_ok :: "string \<Rightarrow> bool" where
  "name_ok n = (n \<noteq> [] \<and> CHR ''/'' \<notin> set n)"

text \<open>The server serves a tree at a path: a secret is read with its data, a folder lists its entries,
  the folders among them with a slash at the end, and one without entries does not exist.\<close>

fun serves :: "vault_client \<Rightarrow> vault_provider \<Rightarrow> string \<Rightarrow> string \<Rightarrow> vault_node \<Rightarrow> bool" where
  "serves V p token path (Secret d) = (read_secret V p token path = Inr d)"
| "serves V p token path (Folder es) =
     (list_folder V p token path = Inr (if es = [] then None else Some (map entry_name es)) \<and>
      (\<forall>e \<in> set es. name_ok (fst e) \<and> serves V p token (path @ ''/'' @ fst e) (snd e)))"

fun secrets_of :: "vault_node \<Rightarrow> (string list \<times> config_map) list" where
  "secrets_of (Secret d) = [([], d)]"
| "secrets_of (Folder es) = concat (map (\<lambda>e. map (\<lambda>(ns, d). (fst e # ns, d)) (secrets_of (snd e))) es)"

definition path_of :: "string \<Rightarrow> string list \<Rightarrow> string" where
  "path_of base ns = base @ concat (map (\<lambda>n. CHR ''/'' # n) ns)"

lemma path_of_simps [simp]:
  "path_of base [] = base" "path_of base (n # ns) = path_of (base @ ''/'' @ n) ns"
  by (simp_all add: path_of_def)

fun node_count :: "vault_node \<Rightarrow> nat" where
  "node_count (Secret _) = 1"
| "node_count (Folder es) = Suc (sum_list (map (\<lambda>e. node_count (snd e)) es))"

definition paths_at :: "string \<Rightarrow> vault_node \<Rightarrow> string multiset" where
  "paths_at path t = mset (map (\<lambda>s. path_of path (fst s)) (secrets_of t))"

lemma paths_at_Secret: "paths_at path (Secret d) = {#path#}"
  by (simp add: paths_at_def)

lemma paths_at_Folder: "paths_at path (Folder es) = (\<Sum>e \<leftarrow> es. paths_at (path @ ''/'' @ fst e) (snd e))"
  by (induction es) (auto simp: paths_at_def case_prod_beta comp_def)

text \<open>A path the walk builds does not end in a slash.\<close>

definition no_end_slash :: "string \<Rightarrow> bool" where
  "no_end_slash s = (s = [] \<or> last s \<noteq> CHR ''/'')"

lemma trim_end_id: "no_end_slash s \<Longrightarrow> trim_end_matches (CHR ''/'') s = s"
  by (cases s rule: rev_cases) (auto simp: trim_end_matches_def no_end_slash_def)

lemma name_last: "name_ok n \<Longrightarrow> n \<noteq> [] \<and> last n \<noteq> CHR ''/''"
  by (metis last_in_set name_ok_def)

lemma name_no_end_slash: "name_ok n \<Longrightarrow> no_end_slash n"
  by (simp add: name_last no_end_slash_def)

lemma child_no_end_slash: "name_ok n \<Longrightarrow> no_end_slash (path @ ''/'' @ n)"
  by (simp add: name_last no_end_slash_def)

lemma sort_entry_named:
  assumes "no_end_slash pre" and "name_ok (fst e)"
  shows "sort_entry pre (entry_name e) s =
    (case snd e of Secret _ \<Rightarrow> (fst s, snd s @ [pre @ ''/'' @ fst e]) | Folder _ \<Rightarrow> ((pre @ ''/'' @ fst e) # fst s, snd s))"
proof -
  have "trim_end_matches (CHR ''/'') (fst e @ ''/'') = fst e"
    using trim_end_id [OF name_no_end_slash [OF assms(2)]] by (simp add: trim_end_matches_def)
  then show ?thesis
    using assms trim_end_id [OF assms(1)] trim_end_id [OF name_no_end_slash [OF assms(2)]]
    by (auto simp: sort_entry_def entry_name_def name_last Let_def split: vault_node.splits)
qed

text \<open>The folders and the secrets among the entries of one folder.\<close>

definition subfolders :: "string \<Rightarrow> (string \<times> vault_node) list \<Rightarrow> (string \<times> (string \<times> vault_node) list) list" where
  "subfolders path es = concat (map (\<lambda>e. case snd e of Secret _ \<Rightarrow> [] | Folder es' \<Rightarrow> [(path @ ''/'' @ fst e, es')]) es)"

definition own_secrets :: "string \<Rightarrow> (string \<times> vault_node) list \<Rightarrow> string list" where
  "own_secrets path es = concat (map (\<lambda>e. case snd e of Secret _ \<Rightarrow> [path @ ''/'' @ fst e] | Folder _ \<Rightarrow> []) es)"

lemma sort_entries:
  assumes "no_end_slash pre" and "\<forall>e \<in> set es. name_ok (fst e)"
  shows "fold (sort_entry pre) (map entry_name es) (st, ls) =
    (rev (map fst (subfolders pre es)) @ st, ls @ own_secrets pre es)"
  using assms(2)
proof (induction es arbitrary: st ls)
  case (Cons e es)
  then show ?case
    using sort_entry_named [OF assms(1), of e "(st, ls)"]
    by (cases "snd e") (auto simp: subfolders_def own_secrets_def)
qed (simp add: subfolders_def own_secrets_def)

definition stack_paths :: "(string \<times> (string \<times> vault_node) list) list \<Rightarrow> string multiset" where
  "stack_paths st = (\<Sum>f \<leftarrow> st. paths_at (fst f) (Folder (snd f)))"

lemma stack_paths_simps [simp]:
  "stack_paths [] = {#}" "stack_paths (f # st) = paths_at (fst f) (Folder (snd f)) + stack_paths st"
  "stack_paths (st @ st') = stack_paths st + stack_paths st'" "stack_paths (rev st) = stack_paths st"
  by (simp_all add: stack_paths_def rev_map [symmetric])

lemma folder_splits: "paths_at path (Folder es) = mset (own_secrets path es) + stack_paths (subfolders path es)"
proof (induction es)
  case (Cons e es)
  have "paths_at path (Folder (e # es)) = paths_at (path @ ''/'' @ fst e) (snd e) + paths_at path (Folder es)"
    by (simp add: paths_at_Folder)
  with Cons.IH show ?case
    by (cases "snd e") (simp_all add: subfolders_def own_secrets_def paths_at_Secret)
qed (simp add: paths_at_Folder subfolders_def own_secrets_def)

definition stack_count :: "(string \<times> (string \<times> vault_node) list) list \<Rightarrow> nat" where
  "stack_count st = (\<Sum>f \<leftarrow> st. node_count (Folder (snd f)))"

lemma subfolders_count: "stack_count (subfolders path es) \<le> sum_list (map (\<lambda>e. node_count (snd e)) es)"
  by (induction es) (auto simp: stack_count_def subfolders_def split: vault_node.splits)

lemma subfolders_served:
  "serves V p token path (Folder es) \<Longrightarrow> f \<in> set (subfolders path es) \<Longrightarrow>
   no_end_slash (fst f) \<and> serves V p token (fst f) (Folder (snd f))"
  by (fastforce simp: subfolders_def child_no_end_slash simp del: serves.simps(2) append_Cons append_Nil
      dest: iffD1 [OF serves.simps(2)] split: vault_node.splits)

text \<open>The walk ends on what the server serves as a finite tree, and finds every secret of it, each as
  often as it stands there.\<close>

lemma discover_loop_finds:
  assumes "\<forall>f \<in> set st. no_end_slash (fst f) \<and> serves V p token (fst f) (Folder (snd f))"
  shows "\<exists>r. discover_loop V p token (map fst st) leaves = Some (Inr r) \<and> mset r = mset leaves + stack_paths st"
  using assms
proof (induction "stack_count st" arbitrary: st leaves rule: less_induct)
  case less
  show ?case
  proof (cases st)
    case Nil
    then show ?thesis by (simp add: discover_loop.simps)
  next
    case (Cons f rest)
    obtain path es where f: "f = (path, es)" by fastforce
    have served: "no_end_slash path" "serves V p token path (Folder es)" using less.prems by (simp_all add: Cons f)
    then have names: "\<forall>e \<in> set es. name_ok (fst e)" by simp
    let ?st = "rev (subfolders path es) @ rest"
    have "stack_count ?st < stack_count st"
      using subfolders_count [of path es] by (simp add: Cons f stack_count_def rev_map [symmetric])
    moreover have "\<forall>g \<in> set ?st. no_end_slash (fst g) \<and> serves V p token (fst g) (Folder (snd g))"
      using subfolders_served [OF served(2)] less.prems by (auto simp: Cons simp del: serves.simps)
    ultimately obtain r where r: "discover_loop V p token (map fst ?st) (leaves @ own_secrets path es) = Some (Inr r)"
      "mset r = mset (leaves @ own_secrets path es) + stack_paths ?st"
      using less.hyps by blast
    have "discover_loop V p token (map fst st) leaves = discover_loop V p token (map fst ?st) (leaves @ own_secrets path es)"
      using served(2) sort_entries [OF served(1) names, of "map fst rest" leaves]
      by (subst discover_loop.simps) (auto simp: Cons f rev_map subfolders_def own_secrets_def)
    with r folder_splits [of path es] show ?thesis by (auto simp: Cons f ac_simps)
  qed
qed

section \<open>From paths to keys\<close>

lemma slashed_names: "ns \<noteq> [] \<Longrightarrow> concat (map (\<lambda>n. c # n) ns) = c # str_join [c] ns"
  by (induction "[c]" ns rule: str_join.induct) auto

lemma join_first: "name_ok n \<Longrightarrow> dropWhile (\<lambda>x. x = CHR ''/'') (str_join ''/'' (n # ns)) = str_join ''/'' (n # ns)"
  by (cases n; cases ns) (auto simp: name_ok_def)

lemma join_no_end_slash: "ns \<noteq> [] \<Longrightarrow> \<forall>n \<in> set ns. name_ok n \<Longrightarrow> str_join ''/'' ns \<noteq> [] \<and> no_end_slash (str_join ''/'' ns)"
  by (induction "''/''" ns rule: str_join.induct) (auto simp: name_last no_end_slash_def)

lemma join_dotted: "\<forall>n \<in> set ns. name_ok n \<Longrightarrow> replace_char (CHR ''/'') (CHR ''.'') (str_join ''/'' ns) = str_join ''.'' ns"
proof (induction "''/''" ns rule: str_join.induct)
  case (3 w v ws)
  have "replace_char (CHR ''/'') (CHR ''.'') w = w"
    using 3(2) by (auto simp: replace_char_def name_ok_def intro!: map_idI)
  with 3 show ?case by (simp add: replace_char_def)
qed (auto simp: replace_char_def name_ok_def intro!: map_idI)

lemma join_nonempty: "ns \<noteq> [] \<Longrightarrow> \<forall>n \<in> set ns. name_ok n \<Longrightarrow> str_join ''.'' ns \<noteq> []"
  by (induction "''.''" ns rule: str_join.induct) (auto simp: name_ok_def)

lemma key_for_path:
  assumes "ns \<noteq> []" and "\<forall>n \<in> set ns. name_ok n"
  shows "key_for_leaf base (path_of base ns) = str_join ''.'' ns"
proof -
  obtain n ns' where ns: "ns = n # ns'" using assms(1) by (cases ns) auto
  have "str_strip_prefix base (path_of base ns) = Some (CHR ''/'' # str_join ''/'' ns)"
    using slashed_names [OF assms(1), of "CHR ''/''"] by (simp add: str_strip_prefix_def path_of_def)
  then show ?thesis
    using join_first [of n ns'] join_no_end_slash [OF assms] join_dotted [OF assms(2)] assms(2)
    by (simp add: key_for_leaf_def trim_matches_def trim_end_id ns)
qed

lemma secret_names: "serves V p token path t \<Longrightarrow> (ns, d) \<in> set (secrets_of t) \<Longrightarrow>
  (\<forall>n \<in> set ns. name_ok n) \<and> read_secret V p token (path_of path ns) = Inr d"
proof (induction t arbitrary: path ns d)
  case (Folder es)
  then obtain e ns' where e: "e \<in> set es" "ns = fst e # ns'" "(ns', d) \<in> set (secrets_of (snd e))" by auto
  with Folder.prems(1) Folder.IH [of e "snd e" "path @ ''/'' @ fst e" ns' d] show ?case
    by (cases e) auto
qed simp

lemma secret_below: "(ns, d) \<in> set (secrets_of (Folder es)) \<Longrightarrow> ns \<noteq> []"
  by auto

section \<open>What a load returns\<close>

lemma load_mappings_reads:
  "\<forall>m \<in> set ms. read_secret V p token (sm_path m) = Inr (D (sm_path m)) \<Longrightarrow>
   load_mappings V p token ms flat = Inr (fold (\<lambda>m. bt_insert (sm_key m) (JObject (D (sm_path m)))) ms flat)"
  by (induction ms arbitrary: flat) auto

lemma load_leaves_reads:
  "\<forall>l \<in> set ls. key_for_leaf base l \<noteq> [] \<and> read_secret V p token l = Inr (D l) \<Longrightarrow>
   load_leaves V p token base ls flat = Inr (fold (\<lambda>l. bt_insert (key_for_leaf base l) (JObject (D l))) ls flat)"
  by (induction ls arbitrary: flat) (auto simp: Let_def)

lemma fold_bt_keys: "fst ` set (fold (\<lambda>l. bt_insert (f l) (g l)) ls m) = f ` set ls \<union> fst ` set m"
  by (induction ls arbitrary: m) (auto simp: keys_bt_insert)

lemma fold_bt_ok: "bt_ok m \<Longrightarrow> bt_ok (fold (\<lambda>l. bt_insert (f l) (g l)) ls m)"
  by (induction ls arbitrary: m) (auto simp: bt_ok_insert)

lemma fold_bt_get:
  "l \<in> set ls \<Longrightarrow> \<forall>l' \<in> set ls. f l' = f l \<longrightarrow> g l' = g l \<Longrightarrow> map_of (fold (\<lambda>l. bt_insert (f l) (g l)) ls m) (f l) = Some (g l)"
proof (induction ls rule: rev_induct)
  case (snoc a ls)
  show ?case
  proof (cases "f a = f l")
    case True
    then have "g a = g l" by (rule snoc.prems(2) [THEN bspec, THEN mp, rotated]) simp
    with True show ?thesis by simp
  next
    case False
    with snoc.prems(1) have "l \<in> set ls" by auto
    then have "map_of (fold (\<lambda>l. bt_insert (f l) (g l)) ls m) (f l) = Some (g l)"
      by (rule snoc.IH) (rule ballI, rule snoc.prems(2) [THEN bspec], simp)
    with False show ?thesis by simp
  qed
qed simp

lemma insert_path_fresh: "p \<noteq> [] \<Longrightarrow> get_path p t = None \<Longrightarrow> get_path p (insert_path p v t) = Some v"
proof (induction p arbitrary: t)
  case (Cons k ks)
  then show ?case
    by (cases "ks = []") (auto simp: value_get_fields get_path_empty split: option.splits)
qed simp

lemma dotted_entry_alone:
  assumes "distinct (map fst m)" and "(k, v) \<in> set m"
    and "\<forall>k' \<in> fst ` set m. k' \<noteq> k \<longrightarrow> unrelated (segments k') (segments k)"
  shows "get_raw (expand_dotted m) k = Some v"
proof -
  let ?ins = "\<lambda>(k, v) t. insert_path (segments k) v t"
  obtain m1 m2 where m: "m = m1 @ (k, v) # m2" using assms(2) by (meson split_list)
  have others: "\<forall>kv \<in> set (m1 @ m2). unrelated (segments (fst kv)) (segments k)"
  proof
    fix kv assume kv: "kv \<in> set (m1 @ m2)"
    with assms(1) have "fst kv \<noteq> k" by (auto simp: m rev_image_eqI)
    moreover have "fst kv \<in> fst ` set m" using kv by (auto simp: m)
    ultimately show "unrelated (segments (fst kv)) (segments k)" using assms(3) by blast
  qed
  let ?t1 = "fold ?ins m1 (JObject [])"
  have "get_path (segments k) ?t1 = None"
    using others by (subst fold_insert_frame) (auto simp: get_path_empty)
  then have "get_path (segments k) (insert_path (segments k) v ?t1) = Some v"
    by (simp add: insert_path_fresh)
  then have "get_path (segments k) (fold ?ins m (JObject [])) = Some v"
    using others fold_insert_frame [of m2 "segments k"] by (simp add: m)
  moreover have "\<forall>k \<in> fst ` set (expand_dotted m). CHR ''.'' \<notin> set k"
    using expanded_keys_plain [of "[]" _ m] unfolding expand_dotted_def by simp
  ultimately show ?thesis
    by (simp add: get_raw_path expand_dotted_def expand_dotted_fold)
qed

text \<open>The flat map a load expands holds the wired keys and the dotted paths of the tree.\<close>

lemma vault_load_flat:
  assumes login: "vault_login V p = Inr token"
    and wired: "\<forall>m \<in> set (vp_secrets p). read_secret V p token (sm_path m) = Inr (D (sm_path m))"
    and base: "vp_base_path p = Some base" "no_end_slash base"
    and served: "serves V p token base t" and t: "t = Folder es"
  shows "\<exists>m. vault_load V p = Some (Inr (expand_dotted m)) \<and> distinct (map fst m) \<and>
    fst ` set m = (\<lambda>s. str_join ''.'' (fst s)) ` set (secrets_of t) \<union> sm_key ` set (vp_secrets p) \<and>
    (\<forall>ns d. (ns, d) \<in> set (secrets_of t) \<longrightarrow>
       (\<forall>s \<in> set (secrets_of t). str_join ''.'' (fst s) = str_join ''.'' ns \<longrightarrow> fst s = ns) \<longrightarrow>
       (str_join ''.'' ns, JObject d) \<in> set m)"
proof -
  let ?data = "\<lambda>l. case read_secret V p token l of Inr d \<Rightarrow> d | Inl _ \<Rightarrow> []"
  let ?flat = "fold (\<lambda>m. bt_insert (sm_key m) (JObject (D (sm_path m)))) (vp_secrets p) []"
  obtain r where r: "discover V p token base = Some (Inr r)" "mset r = paths_at base t"
    using discover_loop_finds [of "[(base, es)]" V p token "[]"] base(2) served unfolding discover_def t
    by (auto simp del: serves.simps)
  have leaves: "set r = (\<lambda>s. path_of base (fst s)) ` set (secrets_of t)"
    using r(2) unfolding paths_at_def by (metis set_map set_mset_mset)
  have found: "key_for_leaf base (path_of base ns) = str_join ''.'' ns" "str_join ''.'' ns \<noteq> []"
    "read_secret V p token (path_of base ns) = Inr d" if "(ns, d) \<in> set (secrets_of t)" for ns d
    using secret_names [OF served that] secret_below [OF that [unfolded t]] key_for_path join_nonempty by auto
  let ?m = "fold (\<lambda>l. bt_insert (key_for_leaf base l) (JObject (?data l))) r ?flat"
  have "\<forall>l \<in> set r. key_for_leaf base l \<noteq> [] \<and> read_secret V p token l = Inr (?data l)"
    using found by (force simp: leaves)
  then have "load_leaves V p token base r ?flat = Inr ?m" by (rule load_leaves_reads)
  then have "vault_load V p = Some (Inr (expand_dotted ?m))"
    using load_mappings_reads [OF wired, of "[]"] by (simp add: vault_load_def login base(1) r(1))
  moreover have "bt_ok ?m" by (intro fold_bt_ok) (simp add: bt_ok_def)
  moreover have "key_for_leaf base ` set r = (\<lambda>s. str_join ''.'' (fst s)) ` set (secrets_of t)"
    unfolding leaves image_image by (rule image_cong [OF refl]) (metis found(1) prod.collapse)
  moreover have "(str_join ''.'' ns, JObject d) \<in> set ?m"
    if S: "(ns, d) \<in> set (secrets_of t)"
      and only: "\<forall>s \<in> set (secrets_of t). str_join ''.'' (fst s) = str_join ''.'' ns \<longrightarrow> fst s = ns" for ns d
  proof -
    have "\<forall>l' \<in> set r. key_for_leaf base l' = key_for_leaf base (path_of base ns) \<longrightarrow> l' = path_of base ns"
      using only found(1) S by (auto simp: leaves)
    moreover have "path_of base ns \<in> set r" using S unfolding leaves by (metis fst_conv imageI)
    ultimately have "map_of ?m (key_for_leaf base (path_of base ns)) = Some (JObject (?data (path_of base ns)))"
      by (intro fold_bt_get) auto
    then show ?thesis using found(1,3) [OF S] by (simp add: map_of_SomeD)
  qed
  ultimately show ?thesis by (intro exI [of _ ?m]) (auto simp: bt_ok_def fold_bt_keys)
qed

text \<open>C39: a Vault load is complete. Against a server that serves a finite tree of secrets below the base
  path and every explicitly wired secret, the load ends; and each secret of the tree is found in the
  configuration, with its data, under its path relative to the base with dots for slashes, provided no
  other secret and no wired key has a dotted key that equals it, lies above it or lies below it.\<close>

theorem vault_load_complete:
  assumes "vault_login V p = Inr token"
    and "\<forall>m \<in> set (vp_secrets p). read_secret V p token (sm_path m) = Inr (D (sm_path m))"
    and "vp_base_path p = Some base" and "no_end_slash base"
    and "serves V p token base (Folder es)"
  shows "\<exists>m. vault_load V p = Some (Inr m) \<and>
    (\<forall>ns d. (ns, d) \<in> set (secrets_of (Folder es)) \<longrightarrow>
       (\<forall>s \<in> set (secrets_of (Folder es)). fst s \<noteq> ns \<longrightarrow>
          unrelated (segments (str_join ''.'' (fst s))) (segments (str_join ''.'' ns))) \<longrightarrow>
       (\<forall>s \<in> set (vp_secrets p). unrelated (segments (sm_key s)) (segments (str_join ''.'' ns))) \<longrightarrow>
       get_raw m (str_join ''.'' ns) = Some (JObject d))"
proof -
  obtain m where m: "vault_load V p = Some (Inr (expand_dotted m))" "distinct (map fst m)"
    "fst ` set m = (\<lambda>s. str_join ''.'' (fst s)) ` set (secrets_of (Folder es)) \<union> sm_key ` set (vp_secrets p)"
    "\<And>ns d. (ns, d) \<in> set (secrets_of (Folder es)) \<Longrightarrow>
       \<forall>s \<in> set (secrets_of (Folder es)). str_join ''.'' (fst s) = str_join ''.'' ns \<longrightarrow> fst s = ns \<Longrightarrow>
       (str_join ''.'' ns, JObject d) \<in> set m"
    using vault_load_flat [OF assms refl] by blast
  have "get_raw (expand_dotted m) (str_join ''.'' ns) = Some (JObject d)"
    if S: "(ns, d) \<in> set (secrets_of (Folder es))"
      and apart: "\<forall>s \<in> set (secrets_of (Folder es)). fst s \<noteq> ns \<longrightarrow>
        unrelated (segments (str_join ''.'' (fst s))) (segments (str_join ''.'' ns))"
      and wired_apart: "\<forall>s \<in> set (vp_secrets p). unrelated (segments (sm_key s)) (segments (str_join ''.'' ns))" for ns d
  proof (rule dotted_entry_alone [OF m(2)])
    have "\<forall>s \<in> set (secrets_of (Folder es)). str_join ''.'' (fst s) = str_join ''.'' ns \<longrightarrow> fst s = ns"
      using apart by (metis prefix_order.refl unrelated_def)
    with m(4) [OF S] show "(str_join ''.'' ns, JObject d) \<in> set m" by blast
    show "\<forall>k' \<in> fst ` set m. k' \<noteq> str_join ''.'' ns \<longrightarrow> unrelated (segments k') (segments (str_join ''.'' ns))"
      using apart wired_apart unfolding m(3) by (auto simp del: secrets_of.simps)
  qed
  with m(1) show ?thesis by blast
qed

definition demo_send :: "http_request \<Rightarrow> string + http_answer" where
  "demo_send q =
     (if hq_url q = ''v/v1/secret/metadata/app'' \<and> hq_query q = [(''list'', ''true'')] then Inr \<lparr>ha_status = 200, ha_body = Inr ''L1''\<rparr>
      else if hq_url q = ''v/v1/secret/metadata/app/db'' \<and> hq_query q = [(''list'', ''true'')] then Inr \<lparr>ha_status = 200, ha_body = Inr ''L2''\<rparr>
      else if hq_url q = ''v/v1/secret/data/app/db/main'' then Inr \<lparr>ha_status = 200, ha_body = Inr ''D''\<rparr>
      else if hq_url q = ''v/v1/secret/data/app/name'' then Inr \<lparr>ha_status = 200, ha_body = Inr ''N''\<rparr>
      else Inr \<lparr>ha_status = 404, ha_body = Inr []\<rparr>)"

definition demo_vault :: vault_client where
  "demo_vault =
     \<lparr>vc_send = demo_send, vc_status_text = (\<lambda>_. []), vc_auth_response = (\<lambda>s. Inl s),
      vc_kv_response = (\<lambda>s. if s = ''D'' then Inr [(''url'', JString ''pg'')] else Inr [(''x'', JNull)]),
      vc_list_response = (\<lambda>s. if s = ''L1'' then Inr [''db/'', ''name''] else Inr [''main''])\<rparr>"

definition demo_tree :: "(string \<times> vault_node) list" where
  "demo_tree = [(''db'', Folder [(''main'', Secret [(''url'', JString ''pg'')])]), (''name'', Secret [(''x'', JNull)])]"

definition demo_provider :: vault_provider where
  "demo_provider = with_base_path ''/app/'' (vault_new ''v/'' (VaultToken ''t''))"

lemma demo_provider_eq: "demo_provider = \<lparr>vp_address = ''v'', vp_namespace = None, vp_kv_mount = ''secret'',
    vp_auth = VaultToken ''t'', vp_secrets = [], vp_base_path = Some ''app''\<rparr>"
  by (simp add: demo_provider_def with_base_path_def vault_new_def trim_matches_def trim_end_matches_def)

lemma demo_served: "serves demo_vault demo_provider ''t'' ''app'' (Folder demo_tree)"
  by (simp add: demo_tree_def demo_provider_eq demo_vault_def demo_send_def list_folder_def read_secret_def
      vault_request_def status_is_success_def response_json_def http_result_def entry_name_def name_ok_def)

theorem vault_load_complete_witness:
  "\<exists>m. vault_load demo_vault demo_provider = Some (Inr m) \<and> get_raw m ''db.main'' = Some (JObject [(''url'', JString ''pg'')])"
proof -
  obtain m where m: "vault_load demo_vault demo_provider = Some (Inr m)"
    "\<And>ns d. (ns, d) \<in> set (secrets_of (Folder demo_tree)) \<Longrightarrow>
       \<forall>s \<in> set (secrets_of (Folder demo_tree)). fst s \<noteq> ns \<longrightarrow>
          unrelated (segments (str_join ''.'' (fst s))) (segments (str_join ''.'' ns)) \<Longrightarrow>
       \<forall>s \<in> set (vp_secrets demo_provider). unrelated (segments (sm_key s)) (segments (str_join ''.'' ns)) \<Longrightarrow>
       get_raw m (str_join ''.'' ns) = Some (JObject d)"
    using vault_load_complete [OF _ _ _ _ demo_served, of "\<lambda>_. []"]
    by (auto simp: demo_provider_eq vault_login_def no_end_slash_def simp del: secrets_of.simps)
  have "get_raw m (str_join ''.'' [''db'', ''main'']) = Some (JObject [(''url'', JString ''pg'')])"
    by (rule m(2)) (simp_all add: demo_tree_def demo_provider_eq unrelated_def segments_def str_split_def)
  with m(1) show ?thesis by simp
qed

text \<open>Against a server whose listings never end the walk does not return.\<close>

lemma discover_diverges:
  assumes "\<And>pre. list_folder V p token pre = Inr (Some [''/''])"
  shows "discover V p token base = None"
proof -
  have "stack = []" if "discover_loop V p token stack leaves = Some y" for stack leaves y
  proof -
    have "V = V \<longrightarrow> p = p \<longrightarrow> token = token \<longrightarrow> stack = []"
      by (rule discover_loop.raw_induct [OF _ that, where P = "\<lambda>V' p' token' stack _ _. V' = V \<longrightarrow> p' = p \<longrightarrow> token' = token \<longrightarrow> stack = []"])
        (auto simp: assms sort_entry_def split: list.splits, blast)
    then show ?thesis by simp
  qed
  then show ?thesis unfolding discover_def by (metis not_Cons_self2 option.exhaust)
qed

end
