(* ===== verification/ConfigServer.thy ===== *)
theory ConfigServer
  imports HttpClient
begin

text \<open>
  Configuration served over HTTP: the provider of a client
  (\<open>klauthed-core/src/config/provider/config_server.rs\<close>), the in-memory provider
  (\<open>provider/memory.rs\<close>), and the server with its two sources (\<open>klauthed-web/src/config_server\<close>).
  The HTTP client, serde's reading and writing of the documents and the text of a status code are
  parameters; so is the file system under the directory source. URLs are plain text, as they are for
  names of unreserved characters.
\<close>

section \<open>The client\<close>

datatype config_server_format = FmtKlauthed | FmtSpringCloud | FmtRawJson

datatype server_auth = AuthBasic string string | AuthBearer string

record config_server_provider =
  csp_base_url :: string
  csp_application :: string
  csp_profile :: string
  csp_label :: "string option"
  csp_format :: config_server_format
  csp_auth :: "server_auth option"
  csp_optional :: bool

text \<open>\<open>cc_klauthed\<close> reads the \<open>config\<close> field of a \<open>KlauthedDocument\<close> (null when it is absent),
  \<open>cc_spring\<close> the \<open>source\<close> maps of a \<open>SpringCloudResponse\<close> in their order, \<open>cc_basic\<close> is the value of the
  basic authorization header.\<close>

record config_client =
  cc_send :: "http_request \<Rightarrow> string + http_answer"
  cc_status_text :: "nat \<Rightarrow> string"
  cc_basic :: "string \<Rightarrow> string \<Rightarrow> string"
  cc_klauthed :: "string \<Rightarrow> string + json"
  cc_spring :: "string \<Rightarrow> string + config_map list"
  cc_json :: "string \<Rightarrow> string + json"
  cc_show :: "json \<Rightarrow> string"

definition csp_new :: "string \<Rightarrow> string \<Rightarrow> config_server_provider" where
  "csp_new base_url application =
     \<lparr>csp_base_url = trim_end_matches (CHR ''/'') base_url, csp_application = application, csp_profile = ''default'',
      csp_label = None, csp_format = FmtKlauthed, csp_auth = None, csp_optional = False\<rparr>"

definition csp_with_profile :: "string \<Rightarrow> config_server_provider \<Rightarrow> config_server_provider" where
  "csp_with_profile profile p = p\<lparr>csp_profile := profile\<rparr>"

definition csp_with_label :: "string \<Rightarrow> config_server_provider \<Rightarrow> config_server_provider" where
  "csp_with_label label p = p\<lparr>csp_label := Some label\<rparr>"

definition csp_with_format :: "config_server_format \<Rightarrow> config_server_provider \<Rightarrow> config_server_provider" where
  "csp_with_format format p = p\<lparr>csp_format := format\<rparr>"

definition csp_basic_auth :: "string \<Rightarrow> string \<Rightarrow> config_server_provider \<Rightarrow> config_server_provider" where
  "csp_basic_auth username password p = p\<lparr>csp_auth := Some (AuthBasic username password)\<rparr>"

definition csp_bearer_auth :: "string \<Rightarrow> config_server_provider \<Rightarrow> config_server_provider" where
  "csp_bearer_auth token p = p\<lparr>csp_auth := Some (AuthBearer token)\<rparr>"

definition csp_set_optional :: "bool \<Rightarrow> config_server_provider \<Rightarrow> config_server_provider" where
  "csp_set_optional opt p = p\<lparr>csp_optional := opt\<rparr>"

definition csp_url :: "config_server_provider \<Rightarrow> string" where
  "csp_url p =
     (let path = csp_base_url p @ ''/'' @ csp_application p @ ''/'' @ csp_profile p
      in case csp_format p of
           FmtRawJson \<Rightarrow> csp_base_url p
         | _ \<Rightarrow> (case csp_label p of Some label \<Rightarrow> path @ ''/'' @ label | None \<Rightarrow> path))"

definition on_failure :: "config_server_provider \<Rightarrow> string \<Rightarrow> string \<Rightarrow> config_error + config_map" where
  "on_failure p url message = (if csp_optional p then Inr [] else Inl (CE_ConfigServer url message))"

text \<open>Collecting the fields of an object into a \<open>BTreeMap\<close>, and \<open>BTreeMap::extend\<close>.\<close>

definition bt_extend :: "config_map \<Rightarrow> config_map \<Rightarrow> config_map" where
  "bt_extend m fs = fold (\<lambda>(k, v) m. bt_insert k v m) fs m"

definition into_config_map :: "config_map list \<Rightarrow> config_map" where
  "into_config_map property_sources =
     expand_dotted (fold (\<lambda>source flat. bt_extend flat source) (rev property_sources) [])"

definition read_body :: "string \<Rightarrow> (string \<Rightarrow> string + 'a) \<Rightarrow> http_answer \<Rightarrow> config_error + 'a" where
  "read_body url de response =
     (case response_json de response of Inl e \<Rightarrow> Inl (CE_ConfigServer url e) | Inr x \<Rightarrow> Inr x)"

definition csp_request :: "config_client \<Rightarrow> config_server_provider \<Rightarrow> http_request" where
  "csp_request C p =
     \<lparr>hq_method = ''GET'', hq_url = csp_url p,
      hq_headers = (case csp_auth p of
                      Some (AuthBasic username password) \<Rightarrow> [(''Authorization'', cc_basic C username password)]
                    | Some (AuthBearer token) \<Rightarrow> [(''Authorization'', ''Bearer '' @ token)]
                    | None \<Rightarrow> []),
      hq_query = [], hq_body = None\<rparr>"

fun config_tree :: "config_client \<Rightarrow> string \<Rightarrow> json \<Rightarrow> config_error + config_map" where
  "config_tree C url (JObject fs) = Inr (bt_extend [] fs)"
| "config_tree C url JNull = Inr []"
| "config_tree C url other =
     Inl (CE_ConfigServer url (''expected `config` to be a JSON object, got '' @ cc_show C other))"

fun raw_tree :: "string \<Rightarrow> json \<Rightarrow> config_error + config_map" where
  "raw_tree url (JObject fs) = Inr (bt_extend [] fs)"
| "raw_tree url _ = Inl (CE_ConfigServer url ''expected a top-level JSON object'')"

definition csp_load :: "config_client \<Rightarrow> config_server_provider \<Rightarrow> config_error + config_map" where
  "csp_load C p =
     (let url = csp_url p
      in case cc_send C (csp_request C p) of
           Inl error \<Rightarrow> on_failure p url error
         | Inr response \<Rightarrow>
             if \<not> status_is_success (ha_status response)
             then on_failure p url (''HTTP '' @ cc_status_text C (ha_status response))
             else (case csp_format p of
                     FmtKlauthed \<Rightarrow>
                       (case read_body url (cc_klauthed C) response of
                          Inl e \<Rightarrow> Inl e | Inr config \<Rightarrow> config_tree C url config)
                   | FmtSpringCloud \<Rightarrow>
                       (case read_body url (cc_spring C) response of
                          Inl e \<Rightarrow> Inl e | Inr sources \<Rightarrow> Inr (into_config_map sources))
                   | FmtRawJson \<Rightarrow>
                       (case read_body url (cc_json C) response of
                          Inl e \<Rightarrow> Inl e | Inr value \<Rightarrow> raw_tree url value)))"

definition csp_provider :: "config_client \<Rightarrow> config_server_provider \<Rightarrow> config_provider" where
  "csp_provider C p = \<lparr>pv_name = ''config-server:'' @ csp_url p, pv_kind = KConfigServer, pv_load = csp_load C p\<rparr>"

section \<open>The in-memory provider\<close>

definition memory_set :: "string \<Rightarrow> json \<Rightarrow> config_map \<Rightarrow> config_map" where
  "memory_set key value values = bt_insert key value values"

definition memory_provider :: "config_map \<Rightarrow> config_provider" where
  "memory_provider values = \<lparr>pv_name = ''memory'', pv_kind = KMemory, pv_load = Inr values\<rparr>"

section \<open>The server\<close>

type_synonym config_source = "string \<Rightarrow> string \<Rightarrow> string option \<Rightarrow> string + config_map"

record config_document =
  cd_application :: string
  cd_profile :: string
  cd_label :: "string option"
  cd_config :: json

text \<open>An in-memory source is its map of entries. The directory source reads three stems with two
  extensions each below its root; \<open>Path::join\<close> with an absolute path is that path.\<close>

definition memory_source_with :: "string \<Rightarrow> string \<Rightarrow> config_map \<Rightarrow> (string \<times> string \<rightharpoonup> config_map) \<Rightarrow> (string \<times> string \<rightharpoonup> config_map)" where
  "memory_source_with application profile conf entries = entries((application, profile) \<mapsto> conf)"

definition memory_fetch :: "(string \<times> string \<rightharpoonup> config_map) \<Rightarrow> config_source" where
  "memory_fetch entries application profile label =
     Inr (case entries (application, profile) of None \<Rightarrow> [] | Some m \<Rightarrow> m)"

definition path_join :: "string \<Rightarrow> string \<Rightarrow> string" where
  "path_join root rel =
     (if rel \<noteq> [] \<and> hd rel = CHR ''/'' then rel
      else if root = [] \<or> last root = CHR ''/'' then root @ rel else root @ ''/'' @ rel)"

definition layer_files :: "string \<Rightarrow> string \<Rightarrow> string \<Rightarrow> string list" where
  "layer_files root application profile =
     concat (map (\<lambda>stem. map (\<lambda>ext. path_join root (stem @ ''.'' @ ext)) [''toml'', ''json''])
       [''application'', application, application @ ''-'' @ profile])"

text \<open>The files below the root: \<open>None\<close> is not a regular file, otherwise the answer of loading it with a
  \<open>FileProvider\<close>. \<open>show_error\<close> is the text of an error.\<close>

fun merge_layers :: "(config_error \<Rightarrow> string) \<Rightarrow> (string \<Rightarrow> (config_error + config_map) option) \<Rightarrow> string list \<Rightarrow> config_map \<Rightarrow> string + config_map" where
  "merge_layers show_error files [] merged = Inr merged"
| "merge_layers show_error files (path # paths) merged =
     (case files path of
        None \<Rightarrow> merge_layers show_error files paths merged
      | Some (Inl e) \<Rightarrow> Inl (show_error e)
      | Some (Inr loaded) \<Rightarrow> merge_layers show_error files paths (config_merge merged loaded))"

definition directory_fetch ::
  "(config_error \<Rightarrow> string) \<Rightarrow> (string \<Rightarrow> (config_error + config_map) option) \<Rightarrow> string \<Rightarrow> config_source" where
  "directory_fetch show_error files root application profile label =
     merge_layers show_error files (layer_files root application profile) []"

text \<open>\<open>respond\<close>; \<open>render\<close> is serde's writing of the document.\<close>

definition respond :: "(config_document \<Rightarrow> string) \<Rightarrow> config_source \<Rightarrow> string \<Rightarrow> string \<Rightarrow> string option \<Rightarrow> http_answer" where
  "respond render source application profile label =
     (case source application profile label of
        Inr m \<Rightarrow>
          \<lparr>ha_status = 200, ha_body = Inr (render
             \<lparr>cd_application = application, cd_profile = profile, cd_label = label, cd_config = JObject m\<rparr>)\<rparr>
      | Inl error \<Rightarrow> \<lparr>ha_status = 500, ha_body = Inr []\<rparr>)"

text \<open>The two routes, on the segments of the path; a path that matches neither is not found.\<close>

definition config_routes :: "(config_document \<Rightarrow> string) \<Rightarrow> config_source \<Rightarrow> string \<Rightarrow> http_answer" where
  "config_routes render source path =
     (case str_split (CHR ''/'') path of
        [e, application, profile] \<Rightarrow>
          if e = [] \<and> application \<noteq> [] \<and> profile \<noteq> [] then respond render source application profile None
          else \<lparr>ha_status = 404, ha_body = Inr []\<rparr>
      | [e, application, profile, label] \<Rightarrow>
          if e = [] \<and> application \<noteq> [] \<and> profile \<noteq> [] \<and> label \<noteq> []
          then respond render source application profile (Some label)
          else \<lparr>ha_status = 404, ha_body = Inr []\<rparr>
      | _ \<Rightarrow> \<lparr>ha_status = 404, ha_body = Inr []\<rparr>)"

section \<open>Served configuration\<close>

lemma bt_insert_last: "\<forall>k' \<in> fst ` set m. k' < k \<Longrightarrow> bt_insert k v m = m @ [(k, v)]"
  by (induction m) (auto simp: order.strict_iff_not)

lemma bt_extend_append: "bt_ok (m @ fs) \<Longrightarrow> bt_extend m fs = m @ fs"
proof (induction fs arbitrary: m)
  case (Cons kv fs)
  obtain k v where kv: "kv = (k, v)" by fastforce
  have "bt_insert k v m = m @ [(k, v)]"
    using Cons.prems by (intro bt_insert_last) (auto simp: bt_ok_def kv sorted_append order.strict_iff_order)
  with Cons.IH [of "m @ [(k, v)]"] Cons.prems show ?case by (simp add: bt_extend_def kv)
qed (simp add: bt_extend_def)

lemma bt_collect: "bt_ok fs \<Longrightarrow> bt_extend [] fs = fs"
  using bt_extend_append [of "[]" fs] by simp

text \<open>The layers of the directory source as a provider chain: the files that exist, in their order.\<close>

definition layer_chain :: "(string \<Rightarrow> (config_error + config_map) option) \<Rightarrow> string list \<Rightarrow> config_provider list" where
  "layer_chain files paths =
     concat (map (\<lambda>path. case files path of None \<Rightarrow> [] | Some r \<Rightarrow> [\<lparr>pv_name = ''file:'' @ path, pv_kind = KFile, pv_load = r\<rparr>]) paths)"

lemma merge_layers_chain:
  "merge_layers show_error files paths merged =
     (case load_all (layer_chain files paths) merged of Inl e \<Rightarrow> Inl (show_error e) | Inr m \<Rightarrow> Inr m)"
  by (induction paths arbitrary: merged) (auto simp: layer_chain_def split: option.splits sum.splits)

definition plain_name :: "string \<Rightarrow> bool" where
  "plain_name n = (n \<noteq> [] \<and> CHR ''/'' \<notin> set n)"

lemma split_name: "plain_name n \<Longrightarrow> str_split (CHR ''/'') (n @ CHR ''/'' # rest) = n # str_split (CHR ''/'') rest"
  using split_by_no_sep [of n "\<lambda>c. c = CHR ''/''"] by (auto simp: str_split_def plain_name_def split_by_append)

lemma split_last: "plain_name n \<Longrightarrow> str_split (CHR ''/'') n = [n]"
  unfolding str_split_def plain_name_def by (intro split_by_no_sep) auto

lemma routes_serve:
  assumes "plain_name a" and "plain_name pr" and "\<forall>l. label = Some l \<longrightarrow> plain_name l"
  shows "config_routes render source (''/'' @ a @ ''/'' @ pr @ (case label of None \<Rightarrow> [] | Some l \<Rightarrow> ''/'' @ l))
    = respond render source a pr label"
proof -
  have "str_split (CHR ''/'') (CHR ''/'' # s) = [] # str_split (CHR ''/'') s" for s
    using split_by_append [of "\<lambda>c. c = CHR ''/''" "CHR ''/''" "[]" s] by (simp add: str_split_def)
  moreover have "a \<noteq> []" "pr \<noteq> []" "\<And>l. label = Some l \<Longrightarrow> l \<noteq> []" using assms by (auto simp: plain_name_def)
  ultimately show ?thesis
    using assms by (auto simp: config_routes_def split_name split_last split: option.splits)
qed

text \<open>The client of the provider reaches the server, mounted at its base URL.\<close>

definition reaches :: "config_client \<Rightarrow> string \<Rightarrow> (config_document \<Rightarrow> string) \<Rightarrow> config_source \<Rightarrow> bool" where
  "reaches C base_url render source =
     (\<forall>q path. hq_method q = ''GET'' \<longrightarrow> hq_url q = base_url @ path \<longrightarrow> cc_send C q = Inr (config_routes render source path))"

definition document_for :: "config_server_provider \<Rightarrow> config_map \<Rightarrow> config_document" where
  "document_for p m = \<lparr>cd_application = csp_application p, cd_profile = csp_profile p, cd_label = csp_label p, cd_config = JObject m\<rparr>"

lemma load_from_server:
  assumes "reaches C (csp_base_url p) render source" and "csp_format p = FmtKlauthed"
    and "\<And>m. source (csp_application p) (csp_profile p) (csp_label p) = Inr m \<Longrightarrow> cc_klauthed C (render (document_for p m)) = Inr (JObject m)"
    and "plain_name (csp_application p)" and "plain_name (csp_profile p)" and "\<forall>l. csp_label p = Some l \<longrightarrow> plain_name l"
    and "\<And>m. source (csp_application p) (csp_profile p) (csp_label p) = Inr m \<Longrightarrow> bt_ok m"
  shows "csp_load C p = (case source (csp_application p) (csp_profile p) (csp_label p) of
    Inr m \<Rightarrow> Inr m | Inl e \<Rightarrow> on_failure p (csp_url p) (''HTTP '' @ cc_status_text C 500))"
proof -
  have "csp_url p = csp_base_url p @ (''/'' @ csp_application p @ ''/'' @ csp_profile p
      @ (case csp_label p of None \<Rightarrow> [] | Some l \<Rightarrow> ''/'' @ l))"
    using assms(2) by (simp add: csp_url_def split: option.splits)
  then have "cc_send C (csp_request C p) = Inr (respond render source (csp_application p) (csp_profile p) (csp_label p))"
    using assms(1) routes_serve [OF assms(4-6), of render source] by (simp add: reaches_def csp_request_def)
  then show ?thesis
    using assms(2,3,7)
    by (cases "source (csp_application p) (csp_profile p) (csp_label p)")
      (simp_all add: csp_load_def document_for_def respond_def status_is_success_def read_body_def response_json_def bt_collect)
qed

text \<open>C40: a service configured through a config server is configured as by the files behind it. A
  provider that speaks the native format to the server over a directory loads exactly what a chain
  of file providers over the shared, the application and the profile files, in this order, would
  load; when one of the files cannot be read, it fails, or contributes nothing if it is optional.\<close>

theorem config_server_equals_files:
  assumes "reaches C (csp_base_url p) render (directory_fetch show_error files root)" and "csp_format p = FmtKlauthed"
    and "\<And>m. directory_fetch show_error files root (csp_application p) (csp_profile p) (csp_label p) = Inr m \<Longrightarrow>
           cc_klauthed C (render (document_for p m)) = Inr (JObject m)"
    and "plain_name (csp_application p)" and "plain_name (csp_profile p)" and "\<forall>l. csp_label p = Some l \<longrightarrow> plain_name l"
    and "\<forall>path m. files path = Some (Inr m) \<longrightarrow> tree_ok (JObject m)"
  shows "csp_load C p =
    (case load_all (layer_chain files (layer_files root (csp_application p) (csp_profile p))) [] of
       Inr m \<Rightarrow> Inr m
     | Inl e \<Rightarrow> if csp_optional p then Inr [] else Inl (CE_ConfigServer (csp_url p) (''HTTP '' @ cc_status_text C 500)))"
proof -
  let ?chain = "layer_chain files (layer_files root (csp_application p) (csp_profile p))"
  have "tree_ok (JObject m)" if "load_all ?chain [] = Inr m" for m
  proof (rule load_all_tree_ok [OF that])
    show "tree_ok (JObject [])" by (simp add: bt_ok_def)
    show "\<forall>q \<in> set ?chain. \<forall>l. pv_load q = Inr l \<longrightarrow> tree_ok (JObject l)"
      using assms(7) by (auto simp: layer_chain_def simp del: tree_ok.simps split: option.splits)
  qed
  then have "bt_ok m" if "directory_fetch show_error files root (csp_application p) (csp_profile p) (csp_label p) = Inr m" for m
    using that by (auto simp: directory_fetch_def merge_layers_chain split: sum.splits)
  from load_from_server [OF assms(1-6) this] show ?thesis
    by (auto simp: directory_fetch_def merge_layers_chain on_failure_def split: sum.splits)
qed

definition demo_files :: "string \<Rightarrow> (config_error + config_map) option" where
  "demo_files path =
     (if path = ''repo/application.toml'' then Some (Inr [(''port'', JInt 80), (''shared'', JBool True)])
      else if path = ''repo/api-prod.toml'' then Some (Inr [(''port'', JInt 8443)])
      else None)"

definition demo_client :: config_client where
  "demo_client =
     \<lparr>cc_send = (\<lambda>q. Inr (config_routes (\<lambda>_. ''doc'') (directory_fetch (\<lambda>_. []) demo_files ''repo'') (drop 3 (hq_url q)))),
      cc_status_text = (\<lambda>_. []), cc_basic = (\<lambda>_ _. []),
      cc_klauthed = (\<lambda>_. Inr (JObject [(''port'', JInt 8443), (''shared'', JBool True)])),
      cc_spring = (\<lambda>_. Inr []), cc_json = (\<lambda>_. Inr JNull), cc_show = (\<lambda>_. [])\<rparr>"

definition demo_config_provider :: config_server_provider where
  "demo_config_provider = csp_with_profile ''prod'' (csp_new ''cfg/'' ''api'')"

lemma demo_layers:
  "load_all (layer_chain demo_files (layer_files ''repo'' ''api'' ''prod'')) [] = Inr [(''port'', JInt 8443), (''shared'', JBool True)]"
  by (simp add: layer_chain_def layer_files_def path_join_def demo_files_def config_merge_def)

theorem config_server_equals_files_witness:
  "csp_load demo_client demo_config_provider = Inr [(''port'', JInt 8443), (''shared'', JBool True)]"
proof -
  have p: "csp_base_url demo_config_provider = ''cfg''" "csp_application demo_config_provider = ''api''"
    "csp_profile demo_config_provider = ''prod''" "csp_label demo_config_provider = None"
    "csp_format demo_config_provider = FmtKlauthed"
    by (simp_all add: demo_config_provider_def csp_with_profile_def csp_new_def trim_end_matches_def)
  have "reaches demo_client (csp_base_url demo_config_provider) (\<lambda>_. ''doc'') (directory_fetch (\<lambda>_. []) demo_files ''repo'')"
    by (simp add: reaches_def demo_client_def p)
  from config_server_equals_files [OF this] show ?thesis
    by (simp add: p demo_layers plain_name_def directory_fetch_def merge_layers_chain demo_client_def bt_ok_def demo_files_def)
qed

text \<open>The application name reaches the file system as it is: an absolute one leaves the root.\<close>

lemma directory_fetch_escapes_root:
  "path_join root ''/etc/app.toml'' = ''/etc/app.toml'' \<and> ''/etc/app.toml'' \<in> set (layer_files root ''/etc/app'' profile)"
  by (simp add: layer_files_def path_join_def)

section \<open>Precedence of Spring property sources\<close>

lemma map_of_bt_extend: "distinct (map fst fs) \<Longrightarrow> map_of (bt_extend m fs) k = (case map_of fs k of None \<Rightarrow> map_of m k | Some v \<Rightarrow> Some v)"
  unfolding bt_extend_def
proof (induction fs arbitrary: m)
  case (Cons kv fs)
  obtain k' v where kv: "kv = (k', v)" by fastforce
  have "map_of fs k' = None" using Cons.prems by (simp add: kv map_of_eq_None_iff)
  with Cons kv show ?case by (cases "k = k'") (simp_all split: option.splits)
qed simp

text \<open>The flat map of a Spring answer takes each key from the first source that has it.\<close>

fun first_source :: "string \<Rightarrow> config_map list \<Rightarrow> json option" where
  "first_source k [] = None"
| "first_source k (s # ss) = (case map_of s k of Some v \<Rightarrow> Some v | None \<Rightarrow> first_source k ss)"

lemma spring_first_source_wins:
  "\<forall>s \<in> set sources. distinct (map fst s) \<Longrightarrow>
   map_of (fold (\<lambda>source flat. bt_extend flat source) (rev sources) []) k = first_source k sources"
  by (induction sources) (auto simp: map_of_bt_extend split: option.splits)

end
