(* ===== verification/RedisStore.thy ===== *)
theory RedisStore
  imports ErrorKernel
begin

text \<open>
  The part of a Redis server the Redis-backed stores use: keys with a value and an optional expiry,
  read by the millisecond clock of the server. A command, or a Lua script, runs atomically. A
  client may lose its request, which then has no effect, or the answer, after the effect; both are
  errors to it. A UUID is stored as its text, which names it: the value \<open>RId\<close>.
\<close>

datatype redis_value = RText string | RId nat | RNum int

type_synonym redis_keys = "string \<rightharpoonup> redis_value \<times> int option"

record 'k redis_conn =
  rd_keys :: 'k
  rd_cmds :: nat

type_synonym redis = "redis_keys redis_conn"

datatype redis_fault = Answers | RequestLost string | AnswerLost string

type_synonym redis_env = "nat \<Rightarrow> redis_fault"

text \<open>A command of a client that wraps errors with \<open>err\<close>.\<close>

definition redis_cmd_as ::
  "(string \<Rightarrow> 'e) \<Rightarrow> redis_env \<Rightarrow> ('k \<Rightarrow> (string + 'a) \<times> 'k) \<Rightarrow> 'k redis_conn \<Rightarrow> ('e + 'a) \<times> 'k redis_conn" where
  "redis_cmd_as err E f s =
     (let (r, keys) = f (rd_keys s); s1 = s\<lparr>rd_cmds := Suc (rd_cmds s)\<rparr>
      in case E (rd_cmds s) of
           Answers \<Rightarrow> (case r of Inl m \<Rightarrow> Inl (err m) | Inr x \<Rightarrow> Inr x, s1\<lparr>rd_keys := keys\<rparr>)
         | RequestLost m \<Rightarrow> (Inl (err m), s1)
         | AnswerLost m \<Rightarrow> (Inl (err m), s1\<lparr>rd_keys := keys\<rparr>))"

definition redis_cmd ::
  "redis_env \<Rightarrow> (redis_keys \<Rightarrow> (string + 'a) \<times> redis_keys) \<Rightarrow> redis \<Rightarrow> (data_error + 'a) \<times> redis" where
  "redis_cmd = redis_cmd_as DE_Redis"

definition redis_bind ::
  "('e + 'a) \<times> 's \<Rightarrow> ('a \<Rightarrow> 's \<Rightarrow> ('e + 'b) \<times> 's) \<Rightarrow> ('e + 'b) \<times> 's" where
  "redis_bind m f = (case m of (Inl e, s) \<Rightarrow> (Inl e, s) | (Inr x, s) \<Rightarrow> f x s)"

text \<open>A key past its expiry does not exist.\<close>

definition entry_live :: "int \<Rightarrow> redis_value \<times> int option \<Rightarrow> bool" where
  "entry_live now e = (case snd e of None \<Rightarrow> True | Some x \<Rightarrow> now < x)"

definition live_entry :: "int \<Rightarrow> string \<Rightarrow> redis_keys \<Rightarrow> (redis_value \<times> int option) option" where
  "live_entry now k db = (case db k of None \<Rightarrow> None | Some e \<Rightarrow> if entry_live now e then Some e else None)"

text \<open>\<open>GET\<close>, \<open>SET ... PX\<close>, \<open>SET ... NX PX\<close>, \<open>DEL\<close>; an expiry of zero or less is an error.\<close>

definition redis_get :: "int \<Rightarrow> string \<Rightarrow> redis_keys \<Rightarrow> (string + redis_value option) \<times> redis_keys" where
  "redis_get now k db = (Inr (map_option fst (live_entry now k db)), db)"

definition redis_set_px :: "int \<Rightarrow> string \<Rightarrow> redis_value \<Rightarrow> int \<Rightarrow> redis_keys \<Rightarrow> (string + unit) \<times> redis_keys" where
  "redis_set_px now k v ttl db =
     (if ttl \<le> 0 then (Inl ''ERR invalid expire time in 'set' command'', db) else (Inr (), db(k \<mapsto> (v, Some (now + ttl)))))"

definition redis_set_nx_px :: "int \<Rightarrow> string \<Rightarrow> redis_value \<Rightarrow> int \<Rightarrow> redis_keys \<Rightarrow> (string + bool) \<times> redis_keys" where
  "redis_set_nx_px now k v ttl db =
     (if ttl \<le> 0 then (Inl ''ERR invalid expire time in 'set' command'', db)
      else if live_entry now k db \<noteq> None then (Inr False, db)
      else (Inr True, db(k \<mapsto> (v, Some (now + ttl)))))"

text \<open>\<open>INCR\<close> keeps the expiry of a live key; \<open>PEXPIRE\<close> with a time that has passed deletes the key;
  \<open>PTTL\<close> answers \<open>-2\<close> for no key and \<open>-1\<close> for a key that does not expire.\<close>

definition redis_incr :: "int \<Rightarrow> string \<Rightarrow> redis_keys \<Rightarrow> (string + int) \<times> redis_keys" where
  "redis_incr now k db =
     (case live_entry now k db of
        None \<Rightarrow> (Inr 1, db(k \<mapsto> (RNum 1, None)))
      | Some (RNum n, e) \<Rightarrow>
          if n + 1 < 2 ^ 63 then (Inr (n + 1), db(k \<mapsto> (RNum (n + 1), e)))
          else (Inl ''ERR increment or decrement would overflow'', db)
      | Some _ \<Rightarrow> (Inl ''ERR value is not an integer or out of range'', db))"

definition redis_pexpire :: "int \<Rightarrow> string \<Rightarrow> int \<Rightarrow> redis_keys \<Rightarrow> redis_keys" where
  "redis_pexpire now k ms db =
     (case live_entry now k db of
        None \<Rightarrow> db
      | Some (v, _) \<Rightarrow> if ms \<le> 0 then db(k := None) else db(k \<mapsto> (v, Some (now + ms))))"

definition redis_pttl :: "int \<Rightarrow> string \<Rightarrow> redis_keys \<Rightarrow> int" where
  "redis_pttl now k db =
     (case live_entry now k db of None \<Rightarrow> - 2 | Some (_, None) \<Rightarrow> - 1 | Some (_, Some e) \<Rightarrow> e - now)"

definition redis_ok :: redis_env where
  "redis_ok = (\<lambda>_. Answers)"

lemma redis_cmd_as_ok: "redis_cmd_as err redis_ok f s =
  (case f (rd_keys s) of (r, keys) \<Rightarrow>
     (case r of Inl m \<Rightarrow> Inl (err m) | Inr x \<Rightarrow> Inr x, s\<lparr>rd_cmds := Suc (rd_cmds s), rd_keys := keys\<rparr>))"
  by (simp add: redis_cmd_as_def redis_ok_def split: prod.splits)

lemma redis_cmd_ok: "redis_cmd redis_ok f s =
  (case f (rd_keys s) of (r, keys) \<Rightarrow>
     (case r of Inl m \<Rightarrow> Inl (DE_Redis m) | Inr x \<Rightarrow> Inr x, s\<lparr>rd_cmds := Suc (rd_cmds s), rd_keys := keys\<rparr>))"
  by (simp add: redis_cmd_def redis_cmd_as_ok)

text \<open>Whatever is lost on the way, a command leaves the keys as they were or as it should.\<close>

lemma redis_cmd_as_keys:
  "rd_keys (snd (redis_cmd_as err E f s)) = rd_keys s \<or> rd_keys (snd (redis_cmd_as err E f s)) = snd (f (rd_keys s))"
  by (auto simp: redis_cmd_as_def Let_def split: prod.splits redis_fault.splits)

lemma redis_cmd_as_answer:
  "fst (redis_cmd_as err E f s) = Inr x \<Longrightarrow>
   fst (f (rd_keys s)) = Inr x \<and> rd_keys (snd (redis_cmd_as err E f s)) = snd (f (rd_keys s))"
  by (auto simp: redis_cmd_as_def Let_def split: prod.splits redis_fault.splits sum.splits)

lemma redis_cmd_keys: "rd_keys (snd (redis_cmd E f s)) = rd_keys s \<or> rd_keys (snd (redis_cmd E f s)) = snd (f (rd_keys s))"
  unfolding redis_cmd_def by (rule redis_cmd_as_keys)

lemma redis_cmd_answer:
  "fst (redis_cmd E f s) = Inr x \<Longrightarrow> fst (f (rd_keys s)) = Inr x \<and> rd_keys (snd (redis_cmd E f s)) = snd (f (rd_keys s))"
  unfolding redis_cmd_def by (rule redis_cmd_as_answer)

end
