(* ===== verification/RedisBackends.thy ===== *)
theory RedisBackends
  imports RedisStore Locks Idempotency RateLimit
begin

text \<open>
  The Redis-backed lock manager (\<open>klauthed-data/src/locks/redis.rs\<close>), idempotency store
  (\<open>idempotency/redis.rs\<close>) and fixed-window rate limiter (\<open>rate_limit/redis.rs\<close>; its token bucket
  computes with floating point and is not modelled). Instants are those of the server, in
  milliseconds; an operation that sends two commands takes two of them, and other clients may act in
  between.
\<close>

section \<open>Locks\<close>

text \<open>The release script: compare and delete.\<close>

definition release_script :: "int \<Rightarrow> string \<Rightarrow> lock_token \<Rightarrow> redis_keys \<Rightarrow> (string + int) \<times> redis_keys" where
  "release_script now key token db =
     (if map_option fst (live_entry now key db) = Some (RId token) then (Inr 1, db(key := None)) else (Inr 0, db))"

definition redis_release_token :: "redis_env \<Rightarrow> int \<Rightarrow> string \<Rightarrow> lock_token \<Rightarrow> redis \<Rightarrow> (data_error + bool) \<times> redis" where
  "redis_release_token E now key token s =
     redis_bind (redis_cmd E (release_script now key token) s) (\<lambda>deleted s. (Inr (deleted = 1), s))"

text \<open>\<open>u64::try_from\<close> of the whole milliseconds refuses what does not fit; the client draws its token
  from the generator before it sends the command.\<close>

definition redis_acquire ::
  "redis_env \<Rightarrow> (nat \<Rightarrow> lock_token) \<Rightarrow> int \<Rightarrow> string \<Rightarrow> duration \<Rightarrow> redis \<times> nat
   \<Rightarrow> (data_error + lock_guard option) \<times> redis \<times> nat" where
  "redis_acquire E new_token now key ttl st =
     (case st of (s, n) \<Rightarrow>
        (let ttl_ms = whole_milliseconds ttl
         in if ttl_ms < 0 \<or> 2 ^ 64 \<le> ttl_ms
            then (Inl (DE_LockHeld (''invalid (non-positive) TTL for lock '' @ [CHR 0x27] @ key @ [CHR 0x27])), s, n)
            else if ttl_ms = 0
            then (Inl (DE_LockHeld (''invalid (zero) TTL for lock '' @ [CHR 0x27] @ key @ [CHR 0x27])), s, n)
            else (let token = new_token n
                  in case redis_cmd E (redis_set_nx_px now key (RId token) ttl_ms) s of
                       (Inl e, s1) \<Rightarrow> (Inl e, s1, Suc n)
                     | (Inr claimed, s1) \<Rightarrow>
                         (Inr (if claimed then Some \<lparr>lg_key = key, lg_token = token, lg_released = False\<rparr> else None), s1, Suc n))))"

text \<open>\<open>LockGuard::release\<close> with this backend, and its \<open>drop\<close>, which leaves the key to its expiry.\<close>

definition redis_guard_release :: "redis_env \<Rightarrow> int \<Rightarrow> lock_guard \<Rightarrow> redis \<Rightarrow> (data_error + unit) \<times> redis" where
  "redis_guard_release E now g s =
     (if lg_released g then (Inr (), s)
      else redis_bind (redis_release_token E now (lg_key g) (lg_token g) s) (\<lambda>_ s. (Inr (), s)))"

definition redis_guard_drop :: "lock_guard \<Rightarrow> redis \<Rightarrow> redis" where
  "redis_guard_drop g s = s"

definition redis_holds :: "redis \<times> nat \<Rightarrow> string \<Rightarrow> lock_token \<Rightarrow> int \<Rightarrow> bool" where
  "redis_holds st k tok e = (rd_keys (fst st) k = Some (RId tok, Some e))"

definition redis_release :: "redis_env \<Rightarrow> int \<Rightarrow> string \<Rightarrow> lock_token \<Rightarrow> redis \<times> nat \<Rightarrow> redis \<times> nat" where
  "redis_release E now k tok st = (snd (redis_release_token E now k tok (fst st)), snd st)"

lemma release_token_keys:
  "rd_keys (snd (redis_release_token E now k tok s)) = rd_keys s
   \<or> rd_keys (snd (redis_release_token E now k tok s)) = snd (release_script now k tok (rd_keys s))"
  using redis_cmd_keys [of E "release_script now k tok" s]
  by (auto simp: redis_release_token_def redis_bind_def split: prod.splits sum.splits)

lemma redis_acquire_keys:
  "rd_keys (fst (snd (redis_acquire E new_token now k ttl st))) = rd_keys (fst st)
   \<or> rd_keys (fst (snd (redis_acquire E new_token now k ttl st)))
       = snd (redis_set_nx_px now k (RId (new_token (snd st))) (whole_milliseconds ttl) (rd_keys (fst st)))"
  using redis_cmd_keys [of E "redis_set_nx_px now k (RId (new_token (snd st))) (whole_milliseconds ttl)" "fst st"]
  by (auto simp: redis_acquire_def Let_def split: prod.splits sum.splits)

lemma redis_acquire_granted:
  assumes "redis_acquire E new_token now k ttl st = (Inr (Some g), st')"
  shows "lg_key g = k \<and> \<not> lg_released g \<and> redis_holds st' k (lg_token g) (now + whole_milliseconds ttl)
    \<and> live_entry now k (rd_keys (fst st)) = None"
proof -
  obtain s n where st: "st = (s, n)" by fastforce
  let ?f = "redis_set_nx_px now k (RId (new_token n)) (whole_milliseconds ttl)"
  from assms obtain s1 where c: "redis_cmd E ?f s = (Inr True, s1)" "st' = (s1, Suc n)"
    "g = \<lparr>lg_key = k, lg_token = new_token n, lg_released = False\<rparr>"
    by (auto simp: redis_acquire_def st Let_def split: if_splits prod.splits sum.splits)
  with redis_cmd_answer [of E ?f s True] show ?thesis
    by (cases "live_entry now k (rd_keys s)") (auto simp: st redis_holds_def redis_set_nx_px_def split: if_splits)
qed

lemma redis_acquire_refused:
  assumes "redis_holds st k tok e" and "now < e"
  shows "fst (redis_acquire E new_token now k ttl st) \<noteq> Inr (Some g) \<and> redis_holds (snd (redis_acquire E new_token now k ttl st)) k tok e"
proof -
  have live: "live_entry now k (rd_keys (fst st)) \<noteq> None"
    using assms by (simp add: redis_holds_def live_entry_def entry_live_def)
  then have "fst (redis_acquire E new_token now k ttl st) \<noteq> Inr (Some g)"
    using redis_acquire_granted [of E new_token now k ttl st g] by (metis surjective_pairing)
  moreover have "snd (redis_set_nx_px now k v d (rd_keys (fst st))) = rd_keys (fst st)" for v d
    using live by (simp add: redis_set_nx_px_def)
  ultimately show ?thesis
    using assms(1) redis_acquire_keys [of E new_token now k ttl st] by (auto simp: redis_holds_def)
qed

interpretation redis_locks: lock_backend "redis_acquire E new_token" "redis_release E" redis_holds "\<lambda>t e. t < e"
  "\<lambda>t d. t + whole_milliseconds d"
proof
  fix t k d s g s'
  show "redis_acquire E new_token t k d s = (Inr (Some g), s') \<Longrightarrow> redis_holds s' k (lg_token g) (t + whole_milliseconds d)"
    by (simp add: redis_acquire_granted)
next
  fix s k tok e t d g
  show "redis_holds s k tok e \<Longrightarrow> t < e \<Longrightarrow>
    fst (redis_acquire E new_token t k d s) \<noteq> Inr (Some g) \<and> redis_holds (snd (redis_acquire E new_token t k d s)) k tok e"
    by (rule redis_acquire_refused)
next
  fix k' k s tok e t d
  assume "k' \<noteq> k" "redis_holds s k tok e"
  then show "redis_holds (snd (redis_acquire E new_token t k' d s)) k tok e"
    using redis_acquire_keys [of E new_token t k' d s] by (auto simp: redis_holds_def redis_set_nx_px_def split: if_splits)
next
  fix k' k tok' tok s e t
  assume "k' \<noteq> k \<or> tok' \<noteq> tok" "redis_holds s k tok e"
  then show "redis_holds (redis_release E t k' tok' s) k tok e"
    using release_token_keys [of E t k' tok' "fst s"]
    by (auto simp: redis_holds_def redis_release_def release_script_def live_entry_def split: option.splits if_splits)
qed

text \<open>Mutual exclusion of the Redis lock, whatever the network loses. Once a key was granted, and until
  its lifetime is over by the clock of the server, it stays with that token through any acquisitions
  and releases of others, commands whose request or answer is lost included, and nobody else is
  granted it; an answered release with the token frees it at once.\<close>

theorem redis_lock_exclusion:
  assumes "redis_acquire E new_token now key ttl st = (Inr (Some g), st1)"
    and "(others (redis_acquire E new_token) (redis_release E) (\<lambda>t e. t < e) key (lg_token g) (now + whole_milliseconds ttl))\<^sup>*\<^sup>* st1 st2"
    and "now' < now + whole_milliseconds ttl"
  shows "fst (redis_acquire E new_token now' key ttl' st2) \<noteq> Inr (Some g')
    \<and> (fst (redis_guard_release E now' g (fst st2)) = Inr () \<longrightarrow>
         rd_keys (snd (redis_guard_release E now' g (fst st2))) key = None)"
proof -
  have held: "redis_holds st2 key (lg_token g) (now + whole_milliseconds ttl)"
    and "fst (redis_acquire E new_token now' key ttl' st2) \<noteq> Inr (Some g')"
    using redis_locks.exclusion [OF assms(1,2,3)] by blast+
  moreover have g: "lg_key g = key" "\<not> lg_released g" using redis_acquire_granted [OF assms(1)] by simp_all
  moreover have "rd_keys (snd (redis_release_token E now' key (lg_token g) (fst st2))) key = None"
    if "fst (redis_release_token E now' key (lg_token g) (fst st2)) = Inr b" for b
    using that held assms(3) redis_cmd_answer [of E "release_script now' key (lg_token g)" "fst st2"]
    by (auto simp: redis_release_token_def redis_bind_def redis_holds_def release_script_def live_entry_def entry_live_def
        split: prod.splits sum.splits)
  ultimately show ?thesis
    by (auto simp: redis_guard_release_def redis_bind_def split: prod.splits sum.splits)
qed

theorem redis_lock_exclusion_witness:
  "\<exists>g st1. redis_acquire redis_ok (\<lambda>n. n) 0 ''k'' 5000000 (\<lparr>rd_keys = Map.empty, rd_cmds = 0\<rparr>, 0) = (Inr (Some g), st1)
     \<and> (\<forall>g'. fst (redis_acquire redis_ok (\<lambda>n. n) 4 ''k'' 5000000 st1) \<noteq> Inr (Some g'))"
proof -
  obtain g st1 where acq: "redis_acquire redis_ok (\<lambda>n. n) 0 ''k'' 5000000 (\<lparr>rd_keys = Map.empty, rd_cmds = 0\<rparr>, 0) = (Inr (Some g), st1)"
    by (simp add: redis_acquire_def redis_cmd_ok redis_set_nx_px_def live_entry_def whole_milliseconds_def trunc_div_nonneg Let_def)
  have "4 < 0 + whole_milliseconds 5000000" by (simp add: whole_milliseconds_def trunc_div_nonneg)
  with redis_lock_exclusion [OF acq rtranclp.rtrancl_refl, of 4 5000000] acq show ?thesis by blast
qed

section \<open>Rate limiter\<close>

text \<open>The check script: count the request, arm the expiry with the first one of a window, and read the
  time that is left.\<close>

definition check_script :: "int \<Rightarrow> string \<Rightarrow> int \<Rightarrow> redis_keys \<Rightarrow> (string + int \<times> int) \<times> redis_keys" where
  "check_script now key window_ms db =
     (case redis_incr now key db of
        (Inl m, db1) \<Rightarrow> (Inl m, db1)
      | (Inr current, db1) \<Rightarrow>
          (let db2 = (if current = 1 then redis_pexpire now key window_ms db1 else db1)
           in (Inr (current, redis_pttl now key db2), db2)))"

definition redis_rl_check ::
  "redis_env \<Rightarrow> string \<Rightarrow> int \<Rightarrow> string \<Rightarrow> u32 \<Rightarrow> nat \<Rightarrow> redis \<Rightarrow> (data_error + rate_limit_outcome) \<times> redis" where
  "redis_rl_check E pre now key maximum window s =
     (let mx = max maximum 1;
          window_ms = min (int (window div 1000000)) (2 ^ 63 - 1)
      in redis_bind (redis_cmd E (check_script now (pre @ key) window_ms) s)
           (\<lambda>(count, pttl_ms) s.
              if count \<le> uint mx then (Inr (Allowed (of_int (max (uint mx - count) 0))), s)
              else (Inr (Limited (nat (if 0 < pttl_ms then pttl_ms else max window_ms 0))), s)))"

text \<open>The answers of the two limiters along one history of checks with one limit and one window; the
  memory one reads the same instants in nanoseconds.\<close>

fun redis_rl_answers :: "redis_env \<Rightarrow> string \<Rightarrow> u32 \<Rightarrow> nat \<Rightarrow> (int \<times> string) list \<Rightarrow> redis \<Rightarrow> (data_error + rate_limit_outcome) list" where
  "redis_rl_answers E pre mx window [] s = []"
| "redis_rl_answers E pre mx window ((t, k) # cs) s =
     (case redis_rl_check E pre t k mx window s of (r, s') \<Rightarrow> r # redis_rl_answers E pre mx window cs s')"

fun rl_answers :: "u32 \<Rightarrow> nat \<Rightarrow> (int \<times> string) list \<Rightarrow> rate_limiter \<Rightarrow> (data_error + rate_limit_outcome) list" where
  "rl_answers mx window [] m = []"
| "rl_answers mx window ((t, k) # cs) m =
     (case rl_check (t * 1000000) k mx window m of (r, m') \<Rightarrow> r # rl_answers mx window cs m')"

text \<open>A counter of the server and a window in memory say the same; the counter goes on counting what it
  refuses.\<close>

definition window_rel :: "nat \<Rightarrow> int \<Rightarrow> int \<Rightarrow> (redis_value \<times> int option) option \<Rightarrow> rl_window option \<Rightarrow> bool" where
  "window_rel lim w n entry win =
     (case (entry, win) of
        (None, None) \<Rightarrow> True
      | (Some (RNum c, Some e), Some x) \<Rightarrow>
          1 \<le> c \<and> c \<le> n \<and> (e - w) * 1000000 = win_started x \<and> unat (win_count x) = min (nat c) lim
      | _ \<Rightarrow> False)"

definition limiter_rel :: "u32 \<Rightarrow> int \<Rightarrow> int \<Rightarrow> string \<Rightarrow> redis \<Rightarrow> rate_limiter \<Rightarrow> bool" where
  "limiter_rel mx w n pre s m = (\<forall>k. window_rel (limit mx) w n (rd_keys s (pre @ k)) (m k))"

definition window_millis :: "nat \<Rightarrow> int" where
  "window_millis window = min (int (window div 1000000)) (2 ^ 63 - 1)"

lemma window_core_millis: "window_core window = window_millis window * 1000000"
  by (simp add: window_core_def window_millis_def milliseconds_def)

lemma whole_millis_exact: "0 \<le> x \<Longrightarrow> whole_milliseconds (x * 1000000) = x"
  by (simp add: whole_milliseconds_def trunc_div_nonneg)

text \<open>A check in a fresh window.\<close>

lemma memory_check_fresh:
  assumes "0 < w" and "window_core window = w * 1000000"
    and "\<forall>x. m k = Some x \<longrightarrow> win_started x + w * 1000000 \<le> t * 1000000"
  shows "rl_check (t * 1000000) k mx window m =
    (Inr (Allowed (max mx 1 - 1)), m(k \<mapsto> \<lparr>win_started = t * 1000000, win_count = 1\<rparr>))"
proof -
  have "current_window (t * 1000000) (w * 1000000) (m k) = \<lparr>win_started = t * 1000000, win_count = 0\<rparr>"
    using assms(1,3) by (auto simp: current_window_def duration_since_def Let_def split: option.splits)
  moreover have "\<not> max mx 1 \<le> (0 :: u32)" by (simp add: max_def word_le_nat_alt)
  ultimately show ?thesis by (simp add: rl_check_def assms(2) Let_def)
qed

text \<open>A check in a window that is still running.\<close>

lemma memory_check_running:
  assumes "window_core window = w * 1000000" and "m k = Some x" and "win_started x = (e - w) * 1000000"
    and "t < e" and "unat (win_count x) = min (nat c) (limit mx)" and "1 \<le> c"
  shows "rl_check (t * 1000000) k mx window m =
    (if nat c < limit mx
     then (Inr (Allowed (max mx 1 - (win_count x + 1))), m(k \<mapsto> x\<lparr>win_count := win_count x + 1\<rparr>))
     else (Inr (Limited (nat (e - t))), m(k \<mapsto> x)))"
proof -
  have cur: "current_window (t * 1000000) (w * 1000000) (m k) = x"
    using assms(2-4) by (simp add: current_window_def duration_since_def Let_def)
  have full: "max mx 1 \<le> win_count x \<longleftrightarrow> \<not> nat c < limit mx"
    unfolding word_le_nat_alt unat_max_1 assms(5) by auto
  have "w * 1000000 - duration_since (t * 1000000) (win_started x) = (e - t) * 1000000"
    by (simp add: assms(3) duration_since_def algebra_simps)
  then have "whole_milliseconds (w * 1000000 - duration_since (t * 1000000) (win_started x)) = e - t"
    using whole_millis_exact [of "e - t"] assms(4) by simp
  then show ?thesis using full cur assms(4) by (simp add: rl_check_def assms(1) Let_def)
qed

lemma redis_incr_live:
  "live_entry now k db = Some (RNum c, e) \<Longrightarrow> c + 1 < 2 ^ 63 \<Longrightarrow> redis_incr now k db = (Inr (c + 1), db(k \<mapsto> (RNum (c + 1), e)))"
  by (simp add: redis_incr_def)

lemma check_script_fresh:
  assumes "live_entry now k db = None" and "0 < w"
  shows "check_script now k w db = (Inr (1, w), db(k \<mapsto> (RNum 1, Some (now + w))))"
  using assms by (simp add: check_script_def redis_incr_def redis_pexpire_def redis_pttl_def live_entry_def entry_live_def)

lemma check_script_running:
  assumes "db k = Some (RNum c, Some e)" and "now < e" and "1 \<le> c" and "c + 1 < 2 ^ 63"
  shows "check_script now k w db = (Inr (c + 1, e - now), db(k \<mapsto> (RNum (c + 1), Some e)))"
  using assms by (simp add: check_script_def redis_incr_def redis_pttl_def live_entry_def entry_live_def)

lemma u32_of_difference:
  fixes mx :: u32
  assumes "0 \<le> c" and "c \<le> uint mx"
  shows "(of_int (max (uint mx - c) 0) :: u32) = mx - of_int c"
proof -
  have "max (uint mx - c) 0 = uint mx - c" using assms(2) by simp
  then show ?thesis by simp
qed

lemma uint_max_1: "uint (max mx 1 :: u32) = int (limit mx)"
  by (simp only: unat_max_1 [symmetric] uint_nat)

lemma redis_check_fresh:
  assumes "live_entry t (pre @ k) (rd_keys s) = None" and "0 < window_millis window"
  shows "redis_rl_check redis_ok pre t k mx window s = (Inr (Allowed (max mx 1 - 1)),
    s\<lparr>rd_cmds := Suc (rd_cmds s), rd_keys := (rd_keys s)(pre @ k \<mapsto> (RNum 1, Some (t + window_millis window)))\<rparr>)"
proof -
  have "1 \<le> limit mx" by (simp add: limit_def)
  then show ?thesis
    using check_script_fresh [OF assms] uint_max_1 [of mx] u32_of_difference [of 1 "max mx 1"]
    by (simp add: redis_rl_check_def redis_bind_def redis_cmd_ok window_millis_def Let_def)
qed

lemma redis_check_running:
  assumes "rd_keys s (pre @ k) = Some (RNum c, Some e)" and "t < e" and "1 \<le> c" and "c + 1 < 2 ^ 63"
  shows "redis_rl_check redis_ok pre t k mx window s =
    (Inr (if nat c < limit mx then Allowed (max mx 1 - of_int (c + 1)) else Limited (nat (e - t))),
     s\<lparr>rd_cmds := Suc (rd_cmds s), rd_keys := (rd_keys s)(pre @ k \<mapsto> (RNum (c + 1), Some e))\<rparr>)"
  using check_script_running [of "rd_keys s" "pre @ k", OF assms] assms(2,3) uint_max_1 [of mx]
    u32_of_difference [of "c + 1" "max mx 1"]
  by (auto simp: redis_rl_check_def redis_bind_def redis_cmd_ok Let_def)

text \<open>The related entries of a key, live ones and others.\<close>

lemma window_rel_dead:
  "window_rel lim w n (db k) win \<Longrightarrow> live_entry t k db = None \<Longrightarrow> \<forall>x. win = Some x \<longrightarrow> win_started x + w * 1000000 \<le> t * 1000000"
  by (auto simp: window_rel_def live_entry_def entry_live_def algebra_simps
      split: option.splits prod.splits redis_value.splits if_splits)

lemma window_rel_live:
  assumes "window_rel lim w n (db k) win" and "live_entry t k db = Some en"
  shows "\<exists>c e x. db k = Some (RNum c, Some e) \<and> win = Some x \<and> t < e \<and> 1 \<le> c \<and> c \<le> n
    \<and> win_started x = (e - w) * 1000000 \<and> unat (win_count x) = min (nat c) lim"
  using assms by (auto simp: window_rel_def live_entry_def entry_live_def
      split: option.splits prod.splits redis_value.splits if_splits)

lemma limiter_step:
  assumes rel: "limiter_rel mx w n pre s m" and w: "w = window_millis window" "0 < w" and n: "0 \<le> n" "n + 1 < 2 ^ 63"
  shows "\<exists>r s' m'. redis_rl_check redis_ok pre t k mx window s = (r, s') \<and> rl_check (t * 1000000) k mx window m = (r, m')
    \<and> limiter_rel mx w (n + 1) pre s' m'"
proof -
  let ?key = "pre @ k"
  have wr: "window_rel (limit mx) w n (rd_keys s ?key) (m k)" using rel by (simp add: limiter_rel_def)
  have core: "window_core window = w * 1000000" using w(1) by (simp add: window_core_millis)
  have others: "window_rel (limit mx) w (n + 1) (rd_keys s (pre @ j)) (m j)" for j
    using rel [unfolded limiter_rel_def, rule_format, of j]
    by (auto simp: window_rel_def split: option.splits prod.splits redis_value.splits)
  show ?thesis
  proof (cases "live_entry t ?key (rd_keys s)")
    case None
    note mem = memory_check_fresh [of w window m k t mx, OF w(2) core window_rel_dead [OF wr None]]
    have "window_rel (limit mx) w (n + 1) (Some (RNum 1, Some (t + w))) (Some \<lparr>win_started = t * 1000000, win_count = 1\<rparr>)"
      using n(1) by (simp add: window_rel_def limit_def min_def)
    with mem redis_check_fresh [OF None w(2) [unfolded w(1)], of mx] w(1) others show ?thesis
      by (auto simp: limiter_rel_def)
  next
    case (Some en)
    from window_rel_live [OF wr Some] obtain c e x where en: "rd_keys s ?key = Some (RNum c, Some e)" "m k = Some x"
      "t < e" "1 \<le> c" "c \<le> n" "win_started x = (e - w) * 1000000" "unat (win_count x) = min (nat c) (limit mx)" by blast
    note mem = memory_check_running [of window w m k, OF core en(2,6,3,7,4)]
    have "c + 1 < 2 ^ 63" using en(5) n(2) by simp
    note red = redis_check_running [OF en(1,3,4) this, of mx window]
    show ?thesis
    proof (cases "nat c < limit mx")
      case True
      then have "win_count x < max mx 1" using en(7) by (simp only: word_less_nat_alt unat_max_1)
      note inc = u32_increment [OF this]
      have "unat (win_count x) = nat c" using True en(7) by simp
      then have "uint (win_count x) = c" using en(4) by (simp add: uint_nat)
      then have "win_count x = of_int c" by (metis word_of_int_uint)
      moreover have "window_rel (limit mx) w (n + 1) (Some (RNum (c + 1), Some e)) (Some (x\<lparr>win_count := win_count x + 1\<rparr>))"
        using en True inc(1) by (simp add: window_rel_def)
      ultimately show ?thesis using mem red True others by (auto simp: limiter_rel_def)
    next
      case False
      then have "window_rel (limit mx) w (n + 1) (Some (RNum (c + 1), Some e)) (Some x)"
        using en by (simp add: window_rel_def)
      with mem red False others show ?thesis by (auto simp: limiter_rel_def)
    qed
  qed
qed



section \<open>Idempotency keys\<close>

record stored_record =
  sr_status :: idempotency_status
  sr_response :: "json option"
  sr_created_at :: timestamp
  sr_updated_at :: timestamp

text \<open>serde's writing and reading of a record are parameters. Reading gives back the status and the
  response; a response that is null may read back as none.\<close>

record record_codec =
  rc_show :: "stored_record \<Rightarrow> string + string"
  rc_parse :: "string \<Rightarrow> string + stored_record"

definition or_null :: "json option \<Rightarrow> json" where
  "or_null v = (case v of None \<Rightarrow> JNull | Some x \<Rightarrow> x)"

definition record_codec_ok :: "record_codec \<Rightarrow> bool" where
  "record_codec_ok K \<longleftrightarrow> (\<forall>r text. rc_show K r = Inr text \<longrightarrow>
     (\<exists>r'. rc_parse K text = Inr r' \<and> sr_status r' = sr_status r \<and> or_null (sr_response r') = or_null (sr_response r)))"

definition serialised :: "string + 'a \<Rightarrow> data_error + 'a" where
  "serialised r = (case r of Inl e \<Rightarrow> Inl (DE_Idempotency (''serialisation failed: '' @ e)) | Inr x \<Rightarrow> Inr x)"

definition corrupt :: "string \<Rightarrow> string \<Rightarrow> data_error" where
  "corrupt key e = DE_Idempotency (''corrupt idempotency record for '' @ [CHR 0x27] @ key @ [CHR 0x27] @ '': '' @ e)"

text \<open>The text of a value as \<open>GET\<close> returns it; the stores keep nothing but text under their keys.\<close>

definition value_text :: "redis_value \<Rightarrow> string" where
  "value_text v = (case v of RText s \<Rightarrow> s | _ \<Rightarrow> [])"

text \<open>\<open>begin\<close> in its two commands: the claim, and, when the key was taken, the look at its record.\<close>

definition idem_claim :: "redis_env \<Rightarrow> record_codec \<Rightarrow> int \<Rightarrow> int \<Rightarrow> timestamp \<Rightarrow> string \<Rightarrow> redis \<Rightarrow> (data_error + bool) \<times> redis" where
  "idem_claim E K ttl_ms t now key s =
     (case serialised (rc_show K \<lparr>sr_status = ISInProgress, sr_response = None, sr_created_at = now, sr_updated_at = now\<rparr>) of
        Inl e \<Rightarrow> (Inl e, s)
      | Inr initial \<Rightarrow> redis_cmd E (redis_set_nx_px t key (RText initial) ttl_ms) s)"

definition outcome_of :: "record_codec \<Rightarrow> string \<Rightarrow> redis_value option \<Rightarrow> data_error + outcome" where
  "outcome_of K key raw =
     (case raw of
        None \<Rightarrow> Inr New
      | Some v \<Rightarrow>
          (case rc_parse K (value_text v) of
             Inl e \<Rightarrow> Inl (corrupt key e)
           | Inr rec \<Rightarrow>
               (case sr_status rec of
                  ISInProgress \<Rightarrow> Inr InProgress
                | ISCompleted \<Rightarrow> Inr (Completed (or_null (sr_response rec))))))"

definition idem_inspect :: "redis_env \<Rightarrow> record_codec \<Rightarrow> int \<Rightarrow> string \<Rightarrow> redis \<Rightarrow> (data_error + outcome) \<times> redis" where
  "idem_inspect E K t key s = redis_bind (redis_cmd E (redis_get t key) s) (\<lambda>raw s. (outcome_of K key raw, s))"

definition redis_idem_begin ::
  "redis_env \<Rightarrow> record_codec \<Rightarrow> int \<Rightarrow> int \<Rightarrow> int \<Rightarrow> timestamp \<Rightarrow> string \<Rightarrow> redis \<Rightarrow> (data_error + outcome) \<times> redis" where
  "redis_idem_begin E K ttl_ms t1 t2 now key s =
     redis_bind (idem_claim E K ttl_ms t1 now key s)
       (\<lambda>claimed s. if claimed then (Inr New, s) else idem_inspect E K t2 key s)"

text \<open>\<open>complete\<close>: read the record for its time of creation, then overwrite it.\<close>

definition created_at_of :: "record_codec \<Rightarrow> timestamp \<Rightarrow> redis_value \<Rightarrow> timestamp" where
  "created_at_of K now v = (case rc_parse K (value_text v) of Inl _ \<Rightarrow> now | Inr r \<Rightarrow> sr_created_at r)"

definition idem_finish ::
  "redis_env \<Rightarrow> record_codec \<Rightarrow> int \<Rightarrow> int \<Rightarrow> timestamp \<Rightarrow> timestamp \<Rightarrow> string \<Rightarrow> json \<Rightarrow> redis \<Rightarrow> (data_error + unit) \<times> redis" where
  "idem_finish E K ttl_ms t created_at now key response s =
     (case serialised (rc_show K \<lparr>sr_status = ISCompleted, sr_response = Some response, sr_created_at = created_at, sr_updated_at = now\<rparr>) of
        Inl e \<Rightarrow> (Inl e, s)
      | Inr completed \<Rightarrow> redis_cmd E (redis_set_px t key (RText completed) ttl_ms) s)"

definition redis_idem_complete ::
  "redis_env \<Rightarrow> record_codec \<Rightarrow> int \<Rightarrow> int \<Rightarrow> int \<Rightarrow> timestamp \<Rightarrow> string \<Rightarrow> json \<Rightarrow> redis \<Rightarrow> (data_error + unit) \<times> redis" where
  "redis_idem_complete E K ttl_ms t1 t2 now key response s =
     redis_bind (redis_cmd E (redis_get t1 key) s)
       (\<lambda>raw s. case raw of
          None \<Rightarrow> (Inl (DE_Idempotency (''cannot complete unknown idempotency key '' @ [CHR 0x27] @ key @ [CHR 0x27])), s)
        | Some v \<Rightarrow> idem_finish E K ttl_ms t2 (created_at_of K now v) now key response s)"

definition redis_idem_get :: "redis_env \<Rightarrow> record_codec \<Rightarrow> int \<Rightarrow> string \<Rightarrow> redis \<Rightarrow> (data_error + idempotency_record option) \<times> redis" where
  "redis_idem_get E K t key s =
     redis_bind (redis_cmd E (redis_get t key) s)
       (\<lambda>raw s. (case raw of
          None \<Rightarrow> Inr None
        | Some v \<Rightarrow>
            (case rc_parse K (value_text v) of
               Inl e \<Rightarrow> Inl (corrupt key e)
             | Inr r \<Rightarrow> Inr (Some \<lparr>ik_key = key, ik_status = sr_status r, ik_response = sr_response r,
                               ik_created_at = sr_created_at r, ik_updated_at = sr_updated_at r\<rparr>)), s))"

text \<open>The commands of any number of clients, one after the other, each with the instant at which the
  server runs it: claims and looks (the halves of \<open>begin\<close>) and overwrites (the second half of
  \<open>complete\<close>; the first half only reads).\<close>

datatype idem_event =
    EClaim int timestamp string
  | EInspect int string
  | EFinish int timestamp timestamp string json

fun event_time :: "idem_event \<Rightarrow> int" where
  "event_time (EClaim t now k) = t"
| "event_time (EInspect t k) = t"
| "event_time (EFinish t created now k v) = t"

fun event_step :: "redis_env \<Rightarrow> record_codec \<Rightarrow> int \<Rightarrow> idem_event \<Rightarrow> redis \<Rightarrow> redis" where
  "event_step E K ttl (EClaim t now k) s = snd (idem_claim E K ttl t now k s)"
| "event_step E K ttl (EInspect t k) s = snd (idem_inspect E K t k s)"
| "event_step E K ttl (EFinish t created now k v) s = snd (idem_finish E K ttl t created now k v s)"

fun told_new :: "redis_env \<Rightarrow> record_codec \<Rightarrow> int \<Rightarrow> string \<Rightarrow> idem_event \<Rightarrow> redis \<Rightarrow> bool" where
  "told_new E K ttl k (EClaim t now j) s = (j = k \<and> fst (idem_claim E K ttl t now j s) = Inr True)"
| "told_new E K ttl k (EInspect t j) s = (j = k \<and> fst (idem_inspect E K t j s) = Inr New)"
| "told_new E K ttl k (EFinish t created now j v) s = False"

fun redis_news :: "redis_env \<Rightarrow> record_codec \<Rightarrow> int \<Rightarrow> string \<Rightarrow> idem_event list \<Rightarrow> redis \<Rightarrow> nat" where
  "redis_news E K ttl k [] s = 0"
| "redis_news E K ttl k (ev # evs) s =
     (if told_new E K ttl k ev s then 1 else 0) + redis_news E K ttl k evs (event_step E K ttl ev s)"

fun finishes :: "string \<Rightarrow> idem_event \<Rightarrow> bool" where
  "finishes k (EFinish t created now j v) = (j = k)"
| "finishes k _ = False"

text \<open>The key carries a readable record, at least until \<open>T\<close>, about which \<open>P\<close> holds.\<close>

definition key_taken :: "record_codec \<Rightarrow> (stored_record \<Rightarrow> bool) \<Rightarrow> string \<Rightarrow> int \<Rightarrow> redis \<Rightarrow> bool" where
  "key_taken K P k T s =
     (\<exists>text e r. rd_keys s k = Some (RText text, Some e) \<and> T \<le> e \<and> rc_parse K text = Inr r \<and> P r)"

lemma claim_on_taken:
  assumes "key_taken K P k T s" and "t < T"
  shows "fst (idem_claim E K ttl t now k s) \<noteq> Inr True" and "rd_keys (snd (idem_claim E K ttl t now k s)) = rd_keys s"
proof -
  let ?f = "\<lambda>init. redis_set_nx_px t k (RText init) ttl"
  have live: "live_entry t k (rd_keys s) \<noteq> None"
    using assms by (auto simp: key_taken_def live_entry_def entry_live_def)
  then have f: "fst (?f init (rd_keys s)) \<noteq> Inr True" "snd (?f init (rd_keys s)) = rd_keys s" for init
    by (auto simp: redis_set_nx_px_def)
  show "fst (idem_claim E K ttl t now k s) \<noteq> Inr True"
    using f(1) redis_cmd_answer [of E _ s True] by (auto simp: idem_claim_def split: sum.splits)
  show "rd_keys (snd (idem_claim E K ttl t now k s)) = rd_keys s"
    using f(2) redis_cmd_keys [of E "?f _" s] by (auto simp: idem_claim_def split: sum.splits)
qed

lemma inspect_keys: "rd_keys (snd (idem_inspect E K t k s)) = rd_keys s"
  using redis_cmd_keys [of E "redis_get t k" s]
  by (auto simp: idem_inspect_def redis_bind_def redis_get_def split: prod.splits sum.splits)

lemma inspect_taken:
  assumes "key_taken K P k T s" and "t < T" and "fst (idem_inspect E K t k s) = Inr x"
  shows "\<exists>r. P r \<and>
    x = (case sr_status r of ISInProgress \<Rightarrow> InProgress | ISCompleted \<Rightarrow> Completed (or_null (sr_response r)))"
proof -
  obtain raw e r where k: "rd_keys s k = Some (RText raw, Some e)" "T \<le> e" "rc_parse K raw = Inr r" "P r"
    using assms(1) by (auto simp: key_taken_def)
  then have "redis_get t k (rd_keys s) = (Inr (Some (RText raw)), rd_keys s)"
    using assms(2) by (simp add: redis_get_def live_entry_def entry_live_def)
  with assms(3) redis_cmd_answer [of E "redis_get t k" s] have "outcome_of K k (Some (RText raw)) = Inr x"
    by (fastforce simp: idem_inspect_def redis_bind_def split: prod.splits sum.splits)
  with k(3,4) show ?thesis by (auto simp: outcome_of_def value_text_def split: idempotency_status.splits)
qed

lemma claim_other_key: "j \<noteq> k \<Longrightarrow> rd_keys (snd (idem_claim E K ttl t now j s)) k = rd_keys s k"
proof (cases "serialised (rc_show K \<lparr>sr_status = ISInProgress, sr_response = None, sr_created_at = now, sr_updated_at = now\<rparr>)")
  case (Inr init)
  assume "j \<noteq> k"
  then have "snd (redis_set_nx_px t j (RText init) ttl (rd_keys s)) k = rd_keys s k" by (simp add: redis_set_nx_px_def)
  with redis_cmd_keys [of E "redis_set_nx_px t j (RText init) ttl" s] Inr show ?thesis by (auto simp: idem_claim_def)
qed (simp add: idem_claim_def)

lemma finish_keys:
  "rd_keys (snd (idem_finish E K ttl t c now j v s)) = rd_keys s \<or>
   (\<exists>raw. rc_show K \<lparr>sr_status = ISCompleted, sr_response = Some v, sr_created_at = c, sr_updated_at = now\<rparr> = Inr raw \<and>
      rd_keys (snd (idem_finish E K ttl t c now j v s)) = (rd_keys s)(j \<mapsto> (RText raw, Some (t + ttl))))"
proof (cases "rc_show K \<lparr>sr_status = ISCompleted, sr_response = Some v, sr_created_at = c, sr_updated_at = now\<rparr>")
  case (Inr init)
  with redis_cmd_keys [of E "redis_set_px t j (RText init) ttl" s] show ?thesis
    by (auto simp: idem_finish_def serialised_def redis_set_px_def split: if_splits)
qed (simp add: idem_finish_def serialised_def)

lemma finish_answered:
  assumes "idem_finish E K ttl t c now k v s = (Inr (), s')" and "record_codec_ok K"
  shows "key_taken K (\<lambda>r. sr_status r = ISCompleted \<and> or_null (sr_response r) = v) k (t + ttl) s'"
proof -
  let ?r = "\<lparr>sr_status = ISCompleted, sr_response = Some v, sr_created_at = c, sr_updated_at = now\<rparr>"
  obtain raw where raw: "rc_show K ?r = Inr raw" "redis_cmd E (redis_set_px t k (RText raw) ttl) s = (Inr (), s')"
    using assms(1) by (auto simp: idem_finish_def serialised_def split: sum.splits)
  with redis_cmd_answer [of E "redis_set_px t k (RText raw) ttl" s "()"] have
    "rd_keys s' k = Some (RText raw, Some (t + ttl))" by (auto simp: redis_set_px_def split: if_splits)
  moreover obtain r' where "rc_parse K raw = Inr r'" "sr_status r' = ISCompleted" "or_null (sr_response r') = v"
    using assms(2) raw(1) unfolding record_codec_ok_def by (fastforce simp: or_null_def)
  ultimately show ?thesis by (auto simp: key_taken_def)
qed

text \<open>A taken key stays taken; what its record says changes only by an overwrite.\<close>

lemma event_keeps:
  assumes "key_taken K P k (t0 + ttl) s" and "t0 \<le> event_time ev" and "event_time ev < t0 + ttl" and "record_codec_ok K"
    and "finishes k ev \<Longrightarrow> P = (\<lambda>_. True)"
  shows "key_taken K P k (t0 + ttl) (event_step E K ttl ev s) \<and> \<not> told_new E K ttl k ev s"
proof (cases ev)
  case (EClaim t now j)
  with assms claim_on_taken [OF assms(1), of t E ttl now] claim_other_key [of j k E K ttl t now s] show ?thesis
    by (cases "j = k") (auto simp: key_taken_def)
next
  case (EInspect t j)
  then have "fst (idem_inspect E K t k s) \<noteq> Inr New"
    using inspect_taken [OF assms(1), of t E New] assms(3)
    by (auto split: idempotency_status.splits) (metis idempotency_status.exhaust)
  with EInspect assms(1) inspect_keys [of E K t j s] show ?thesis by (auto simp: key_taken_def)
next
  case (EFinish t c now j v)
  show ?thesis
  proof (cases "j = k")
    case True
    with EFinish assms(5) have P: "P = (\<lambda>_. True)" by simp
    from finish_keys [of E K ttl t c now j v s] show ?thesis
    proof (elim disjE exE conjE)
      fix raw assume raw: "rc_show K \<lparr>sr_status = ISCompleted, sr_response = Some v, sr_created_at = c, sr_updated_at = now\<rparr> = Inr raw"
        "rd_keys (snd (idem_finish E K ttl t c now j v s)) = (rd_keys s)(j \<mapsto> (RText raw, Some (t + ttl)))"
      moreover obtain r' where "rc_parse K raw = Inr r'"
        using assms(4) raw(1) unfolding record_codec_ok_def by fastforce
      ultimately show ?thesis using EFinish True P assms(2) by (auto simp: key_taken_def)
    qed (use EFinish assms(1) in \<open>auto simp: key_taken_def\<close>)
  next
    case False
    with EFinish assms(1) finish_keys [of E K ttl t c now j v s] show ?thesis by (auto simp: key_taken_def)
  qed
qed

lemma events_keep:
  assumes "key_taken K P k (t0 + ttl) s" and "\<forall>ev \<in> set evs. t0 \<le> event_time ev \<and> event_time ev < t0 + ttl"
    and "record_codec_ok K" and "(\<exists>ev \<in> set evs. finishes k ev) \<Longrightarrow> P = (\<lambda>_. True)"
  shows "key_taken K P k (t0 + ttl) (fold (event_step E K ttl) evs s) \<and> redis_news E K ttl k evs s = 0"
  using assms
proof (induction evs arbitrary: s)
  case (Cons ev evs)
  then have "key_taken K P k (t0 + ttl) (event_step E K ttl ev s) \<and> \<not> told_new E K ttl k ev s"
    by (intro event_keeps) auto
  with Cons show ?case by auto
qed simp

lemma claim_takes:
  assumes "idem_claim E K ttl t0 now k s = (Inr True, s1)" and "record_codec_ok K"
  shows "key_taken K (\<lambda>_. True) k (t0 + ttl) s1"
proof -
  obtain init where init: "rc_show K \<lparr>sr_status = ISInProgress, sr_response = None, sr_created_at = now, sr_updated_at = now\<rparr> = Inr init"
    "redis_cmd E (redis_set_nx_px t0 k (RText init) ttl) s = (Inr True, s1)"
    using assms(1) by (auto simp: idem_claim_def serialised_def split: sum.splits)
  with redis_cmd_answer [of E "redis_set_nx_px t0 k (RText init) ttl" s True] have
    "rd_keys s1 k = Some (RText init, Some (t0 + ttl))" by (auto simp: redis_set_nx_px_def split: if_splits)
  moreover obtain r' where "rc_parse K init = Inr r'"
    using assms(2) init(1) unfolding record_codec_ok_def by fastforce
  ultimately show ?thesis by (auto simp: key_taken_def)
qed

text \<open>C22: across replicas a key is claimed once and its response is replayed. After one claim was told that
  the key is new, the commands of any number of clients, interleaved in any order while the lifetime
  of the claim lasts and lost or answered as the network will, never tell another caller so; and once
  an overwrite with a response was answered, whoever then looks at the key before that lifetime is
  over, is told that response, if nobody overwrites it again.\<close>

theorem redis_idempotency_once:
  assumes "record_codec_ok K" and "idem_claim E K ttl t0 now k s = (Inr True, s1)"
    and "\<forall>ev \<in> set (evs @ later). t0 \<le> event_time ev \<and> event_time ev < t0 + ttl"
    and "t0 \<le> t" and "idem_finish E K ttl t created upd k v (fold (event_step E K ttl) evs s1) = (Inr (), s2)"
    and "\<forall>ev \<in> set later. \<not> finishes k ev" and "t' < t0 + ttl"
  shows "redis_news E K ttl k evs s1 = 0 \<and> redis_news E K ttl k later s2 = 0
    \<and> (\<forall>x. fst (idem_inspect E K t' k (fold (event_step E K ttl) later s2)) = Inr x \<longrightarrow> x = Completed v)"
proof -
  let ?P = "\<lambda>r. sr_status r = ISCompleted \<and> or_null (sr_response r) = v"
  have first: "redis_news E K ttl k evs s1 = 0"
    using events_keep [OF claim_takes [OF assms(2,1)], of evs E] assms(1,3) by simp
  have "key_taken K ?P k (t + ttl) s2" using finish_answered [OF assms(5,1)] .
  then have "key_taken K ?P k (t0 + ttl) s2" using assms(4) by (force simp: key_taken_def)
  from events_keep [OF this, of later E] assms(1,3,6) have
    later: "key_taken K ?P k (t0 + ttl) (fold (event_step E K ttl) later s2)" "redis_news E K ttl k later s2 = 0" by auto
  have "x = Completed v" if "fst (idem_inspect E K t' k (fold (event_step E K ttl) later s2)) = Inr x" for x
    using inspect_taken [OF later(1) assms(7) that] by auto
  with first later(2) show ?thesis by blast
qed

definition demo_record_codec :: record_codec where
  "demo_record_codec =
     \<lparr>rc_show = (\<lambda>r. if sr_status r = ISInProgress \<and> sr_response r = None then Inr ''p''
                 else if sr_status r = ISCompleted \<and> sr_response r = Some (JBool True) then Inr ''c'' else Inl ''unsupported''),
      rc_parse = (\<lambda>s. if s = ''p'' then Inr \<lparr>sr_status = ISInProgress, sr_response = None, sr_created_at = 0, sr_updated_at = 0\<rparr>
                 else Inr \<lparr>sr_status = ISCompleted, sr_response = Some (JBool True), sr_created_at = 0, sr_updated_at = 0\<rparr>)\<rparr>"

lemma demo_record_codec_ok: "record_codec_ok demo_record_codec"
  by (auto simp: record_codec_ok_def demo_record_codec_def split: if_splits)

lemmas redis_idem_simps = idem_claim_def idem_finish_def idem_inspect_def serialised_def redis_bind_def redis_cmd_ok
  redis_set_nx_px_def redis_set_px_def redis_get_def live_entry_def entry_live_def demo_record_codec_def

theorem redis_idempotency_once_witness:
  "\<exists>s1 s2. idem_claim redis_ok demo_record_codec 10 0 0 ''k'' \<lparr>rd_keys = Map.empty, rd_cmds = 0\<rparr> = (Inr True, s1)
     \<and> idem_finish redis_ok demo_record_codec 10 2 0 0 ''k'' (JBool True)
         (fold (event_step redis_ok demo_record_codec 10) [EClaim 1 0 ''k'', EInspect 1 ''k''] s1) = (Inr (), s2)
     \<and> redis_news redis_ok demo_record_codec 10 ''k'' [EClaim 1 0 ''k'', EInspect 1 ''k''] s1 = 0
     \<and> fst (idem_inspect redis_ok demo_record_codec 9 ''k'' s2) = Inr (Completed (JBool True))"
proof -
  let ?evs = "[EClaim 1 0 ''k'', EInspect 1 ''k'']"
  obtain s1 where s1: "idem_claim redis_ok demo_record_codec 10 0 0 ''k'' \<lparr>rd_keys = Map.empty, rd_cmds = 0\<rparr> = (Inr True, s1)"
    by (simp add: redis_idem_simps)
  obtain s2 where s2: "idem_finish redis_ok demo_record_codec 10 2 0 0 ''k'' (JBool True)
      (fold (event_step redis_ok demo_record_codec 10) ?evs s1) = (Inr (), s2)"
    by (simp add: redis_idem_simps)
  obtain x where x: "fst (idem_inspect redis_ok demo_record_codec 9 ''k'' s2) = Inr x"
    using s1 s2 by (auto simp: redis_idem_simps outcome_of_def value_text_def)
  have "\<forall>ev \<in> set (?evs @ []). 0 \<le> event_time ev \<and> event_time ev < 0 + 10" by simp
  from redis_idempotency_once [OF demo_record_codec_ok s1 this _ s2, of 9] s1 s2 x show ?thesis by auto
qed

text \<open>A caller that loses the claim and looks when the key has just expired is told that the key is new,
  but leaves no claim behind: the next caller is told the same.\<close>

lemma redis_begin_expired_race:
  "\<exists>s. redis_idem_begin redis_ok demo_record_codec 10 9 10 0 ''k'' \<lparr>rd_keys = [''k'' \<mapsto> (RText ''p'', Some 10)], rd_cmds = 0\<rparr> = (Inr New, s)
     \<and> fst (redis_idem_begin redis_ok demo_record_codec 10 11 11 0 ''k'' s) = Inr New"
  by (simp add: redis_idem_begin_def redis_idem_simps outcome_of_def)

end
