(* ===== verification/MongoBackends.thy ===== *)
theory MongoBackends
  imports Locks Idempotency OrderedMap
begin

text \<open>
  The MongoDB-backed lock manager (\<open>klauthed-data/src/locks/mongo.rs\<close>) and idempotency store
  (\<open>idempotency/mongo.rs\<close>). A collection is a map from ids to documents and a command on one document
  is atomic; the driver may lose a request or an answer. Timestamps are stored as their RFC 3339 text
  and compared as text; their writer and reader, BSON and the texts of the errors are parameters. The
  idempotency store puts a TTL index on its expiry field. MongoDB documents that such an index removes
  documents whose field holds a date, and this field holds text; the module says that the index
  expires keys. The model takes no side: before any command the server may, or may not, have removed
  any documents that are past their expiry.
\<close>

section \<open>Collections\<close>

record 's mongo =
  mg_docs :: 's
  mg_cmds :: nat

type_synonym 'd collection = "(string \<rightharpoonup> 'd) mongo"

datatype mongo_fault = Replies | Unsent string | Unheard string

record mongo_env =
  me_fault :: "nat \<Rightarrow> mongo_fault"
  me_duplicate :: "string \<Rightarrow> string"

definition mongo_cmd ::
  "mongo_env \<Rightarrow> ('s \<Rightarrow> (string + 'a) \<times> 's) \<Rightarrow> 's mongo \<Rightarrow> (string + 'a) \<times> 's mongo" where
  "mongo_cmd E f c =
     (let (r, docs) = f (mg_docs c); c1 = c\<lparr>mg_cmds := Suc (mg_cmds c)\<rparr>
      in case me_fault E (mg_cmds c) of
           Replies \<Rightarrow> (r, c1\<lparr>mg_docs := docs\<rparr>)
         | Unsent m \<Rightarrow> (Inl m, c1)
         | Unheard m \<Rightarrow> (Inl m, c1\<lparr>mg_docs := docs\<rparr>))"

lemma mongo_cmd_docs: "mg_docs (snd (mongo_cmd E f c)) = mg_docs c \<or> mg_docs (snd (mongo_cmd E f c)) = snd (f (mg_docs c))"
  by (auto simp: mongo_cmd_def Let_def split: prod.splits mongo_fault.splits)

lemma mongo_cmd_reply:
  "fst (mongo_cmd E f c) = Inr x \<Longrightarrow> fst (f (mg_docs c)) = Inr x \<and> mg_docs (snd (mongo_cmd E f c)) = snd (f (mg_docs c))"
  by (auto simp: mongo_cmd_def Let_def split: prod.splits mongo_fault.splits)

definition mongo_calm :: "mongo_env \<Rightarrow> bool" where
  "mongo_calm E = (\<forall>n. me_fault E n = Replies)"

lemma mongo_cmd_calm:
  "mongo_calm E \<Longrightarrow> mongo_cmd E f c = (fst (f (mg_docs c)), c\<lparr>mg_cmds := Suc (mg_cmds c), mg_docs := snd (f (mg_docs c))\<rparr>)"
  by (simp add: mongo_cmd_def mongo_calm_def split: prod.splits)

text \<open>\<open>str::contains\<close>.\<close>

fun str_contains :: "string \<Rightarrow> string \<Rightarrow> bool" where
  "str_contains [] pat = (pat = [])"
| "str_contains (c # cs) pat = (take (length pat) (c # cs) = pat \<or> str_contains cs pat)"

section \<open>Locks\<close>

record lock_doc =
  ld_token :: lock_token
  ld_expires_at :: string

text \<open>\<open>find_one_and_update\<close> with \<open>upsert\<close> and \<open>ReturnDocument::After\<close>: a document of the key that is past its
  expiry is updated; if there is none at all one is inserted; if there is one that does not match,
  the insert meets the existing id.\<close>

definition upsert_lock :: "mongo_env \<Rightarrow> string \<Rightarrow> string \<Rightarrow> lock_doc \<Rightarrow> (string \<rightharpoonup> lock_doc) \<Rightarrow> (string + lock_doc option) \<times> (string \<rightharpoonup> lock_doc)" where
  "upsert_lock E key now_str new docs =
     (case docs key of
        Some d \<Rightarrow> if ld_expires_at d \<le> now_str then (Inr (Some new), docs(key \<mapsto> new)) else (Inl (me_duplicate E key), docs)
      | None \<Rightarrow> (Inr (Some new), docs(key \<mapsto> new)))"

definition mongo_acquire ::
  "mongo_env \<Rightarrow> time_range \<Rightarrow> (timestamp \<Rightarrow> string) \<Rightarrow> (nat \<Rightarrow> lock_token) \<Rightarrow> timestamp \<Rightarrow> string \<Rightarrow> duration
   \<Rightarrow> lock_doc collection \<times> nat \<Rightarrow> (data_error + lock_guard option) \<times> lock_doc collection \<times> nat" where
  "mongo_acquire E R rfc new_token now key ttl st =
     (case st of (c, n) \<Rightarrow>
        (case checked_add R now ttl of
           None \<Rightarrow> (Inl (DE_LockHeld (''invalid TTL for lock '' @ [CHR 0x27] @ key @ [CHR 0x27])), c, n)
         | Some expires_at \<Rightarrow>
             (let token = new_token n
              in case mongo_cmd E (upsert_lock E key (rfc now) \<lparr>ld_token = token, ld_expires_at = rfc expires_at\<rparr>) c of
                   (Inr (Some d), c1) \<Rightarrow>
                     (Inr (if ld_token d = token then Some \<lparr>lg_key = key, lg_token = token, lg_released = False\<rparr> else None), c1, Suc n)
                 | (Inr None, c1) \<Rightarrow> (Inr None, c1, Suc n)
                 | (Inl e, c1) \<Rightarrow>
                     (if str_contains e ''11000'' \<or> str_contains e ''DuplicateKey'' then Inr None
                      else Inl (DE_LockHeld (''mongo find_one_and_update failed: '' @ e)), c1, Suc n))))"

definition delete_lock :: "string \<Rightarrow> lock_token \<Rightarrow> (string \<rightharpoonup> lock_doc) \<Rightarrow> (string + nat) \<times> (string \<rightharpoonup> lock_doc)" where
  "delete_lock key token docs =
     (case docs key of
        Some d \<Rightarrow> if ld_token d = token then (Inr 1, docs(key := None)) else (Inr 0, docs)
      | None \<Rightarrow> (Inr 0, docs))"

definition mongo_release_token :: "mongo_env \<Rightarrow> string \<Rightarrow> lock_token \<Rightarrow> lock_doc collection \<Rightarrow> (data_error + bool) \<times> lock_doc collection" where
  "mongo_release_token E key token c =
     (case mongo_cmd E (delete_lock key token) c of
        (Inl e, c1) \<Rightarrow> (Inl (DE_LockHeld (''mongo delete_one failed: '' @ e)), c1)
      | (Inr deleted_count, c1) \<Rightarrow> (Inr (0 < deleted_count), c1))"

definition mongo_holds :: "lock_doc collection \<times> nat \<Rightarrow> string \<Rightarrow> lock_token \<Rightarrow> string \<Rightarrow> bool" where
  "mongo_holds st k tok e = (mg_docs (fst st) k = Some \<lparr>ld_token = tok, ld_expires_at = e\<rparr>)"

definition mongo_release :: "mongo_env \<Rightarrow> timestamp \<Rightarrow> string \<Rightarrow> lock_token \<Rightarrow> lock_doc collection \<times> nat \<Rightarrow> lock_doc collection \<times> nat" where
  "mongo_release E now k tok st = (snd (mongo_release_token E k tok (fst st)), snd st)"

lemma mongo_acquire_docs:
  "mg_docs (fst (snd (mongo_acquire E R rfc new_token now k ttl st))) = mg_docs (fst st)
   \<or> mg_docs (fst (snd (mongo_acquire E R rfc new_token now k ttl st)))
       = snd (upsert_lock E k (rfc now) \<lparr>ld_token = new_token (snd st), ld_expires_at = rfc (now + ttl)\<rparr> (mg_docs (fst st)))"
  using mongo_cmd_docs [of E "upsert_lock E k (rfc now) \<lparr>ld_token = new_token (snd st), ld_expires_at = rfc (now + ttl)\<rparr>" "fst st"]
  by (auto simp: mongo_acquire_def checked_add_def Let_def split: prod.splits sum.splits option.splits if_splits)

lemma mongo_acquire_granted:
  assumes "mongo_acquire E R rfc new_token now k ttl st = (Inr (Some g), st')"
  shows "mongo_holds st' k (lg_token g) (rfc (now + ttl)) \<and> (\<forall>d. mg_docs (fst st) k = Some d \<longrightarrow> ld_expires_at d \<le> rfc now)"
proof -
  obtain c n where st: "st = (c, n)" by fastforce
  let ?new = "\<lparr>ld_token = new_token n, ld_expires_at = rfc (now + ttl)\<rparr>"
  from assms obtain d c1 where c: "mongo_cmd E (upsert_lock E k (rfc now) ?new) c = (Inr (Some d), c1)" "st' = (c1, Suc n)"
    "g = \<lparr>lg_key = k, lg_token = new_token n, lg_released = False\<rparr>"
    by (auto simp: mongo_acquire_def st checked_add_def Let_def split: if_splits prod.splits sum.splits option.splits)
  with mongo_cmd_reply [of E "upsert_lock E k (rfc now) ?new" c "Some d"] show ?thesis
    by (auto simp: st mongo_holds_def upsert_lock_def split: if_splits option.splits)
qed

lemma mongo_release_docs:
  "mg_docs (fst (mongo_release E now k tok st)) = mg_docs (fst st)
   \<or> mg_docs (fst (mongo_release E now k tok st)) = snd (delete_lock k tok (mg_docs (fst st)))"
  using mongo_cmd_docs [of E "delete_lock k tok" "fst st"]
  by (auto simp: mongo_release_def mongo_release_token_def split: prod.splits sum.splits)

interpretation mongo_locks: lock_backend "mongo_acquire E R rfc new_token" "mongo_release E" mongo_holds
  "\<lambda>t e. \<not> e \<le> rfc t" "\<lambda>t d. rfc (t + d)"
proof
  fix t k d s g s'
  show "mongo_acquire E R rfc new_token t k d s = (Inr (Some g), s') \<Longrightarrow> mongo_holds s' k (lg_token g) (rfc (t + d))"
    by (simp add: mongo_acquire_granted)
next
  fix s k tok e t d g
  assume held: "mongo_holds s k tok e" "\<not> e \<le> rfc t"
  then have "fst (mongo_acquire E R rfc new_token t k d s) \<noteq> Inr (Some g)"
    using mongo_acquire_granted [of E R rfc new_token t k d s g] by (auto simp: mongo_holds_def) (metis lock_doc.select_convs(2) surjective_pairing)
  moreover have "mongo_holds (snd (mongo_acquire E R rfc new_token t k d s)) k tok e"
    using held mongo_acquire_docs [of E R rfc new_token t k d s] by (auto simp: mongo_holds_def upsert_lock_def)
  ultimately show "fst (mongo_acquire E R rfc new_token t k d s) \<noteq> Inr (Some g)
      \<and> mongo_holds (snd (mongo_acquire E R rfc new_token t k d s)) k tok e" ..
next
  fix k' k s tok e t d
  assume "k' \<noteq> k" "mongo_holds s k tok e"
  then show "mongo_holds (snd (mongo_acquire E R rfc new_token t k' d s)) k tok e"
    using mongo_acquire_docs [of E R rfc new_token t k' d s]
    by (auto simp: mongo_holds_def upsert_lock_def split: option.splits if_splits)
next
  fix k' k tok' tok s e t
  assume "k' \<noteq> k \<or> tok' \<noteq> tok" "mongo_holds s k tok e"
  then show "mongo_holds (mongo_release E t k' tok' s) k tok e"
    using mongo_release_docs [of E t k' tok' s]
    by (auto simp: mongo_holds_def delete_lock_def split: option.splits if_splits)
qed

text \<open>Mutual exclusion of the MongoDB lock. With timestamps whose text is ordered like their whole
  milliseconds, a granted key stays with its token until the millisecond its lifetime ends in,
  whatever others acquire and release meanwhile and whatever the driver loses; nobody else is
  granted it before.\<close>

theorem mongo_lock_exclusion:
  assumes "\<And>a b. in_range R a \<Longrightarrow> in_range R b \<Longrightarrow> rfc a \<le> rfc b \<longleftrightarrow> a div 1000000 \<le> b div 1000000"
    and "mongo_acquire E R rfc new_token now key ttl st = (Inr (Some g), st1)"
    and "(others (mongo_acquire E R rfc new_token) (mongo_release E) (\<lambda>t e. \<not> e \<le> rfc t) key (lg_token g) (rfc (now + ttl)))\<^sup>*\<^sup>* st1 st2"
    and "in_range R now'" and "now' div 1000000 < (now + ttl) div 1000000"
  shows "mg_docs (fst st2) key = Some \<lparr>ld_token = lg_token g, ld_expires_at = rfc (now + ttl)\<rparr>
    \<and> fst (mongo_acquire E R rfc new_token now' key ttl' st2) \<noteq> Inr (Some g')"
proof -
  have "in_range R (now + ttl)"
    using assms(2) by (auto simp: mongo_acquire_def checked_add_def split: prod.splits option.splits if_splits)
  then have "\<not> rfc (now + ttl) \<le> rfc now'" using assms(1) [of "now + ttl" now'] assms(4,5) by simp
  from mongo_locks.exclusion [OF assms(2,3) this] show ?thesis by (auto simp: mongo_holds_def)
qed

definition two_millis :: time_range where
  "two_millis = \<lparr>dt_min = 0, dt_max = 1999999\<rparr>"

definition demo_mongo :: mongo_env where
  "demo_mongo = \<lparr>me_fault = (\<lambda>_. Replies), me_duplicate = (\<lambda>k. ''E11000 duplicate key error: '' @ k)\<rparr>"

theorem mongo_lock_exclusion_witness:
  "\<exists>g st1. mongo_acquire demo_mongo two_millis (\<lambda>t. if t < 1000000 then ''a'' else ''b'') (\<lambda>n. n) 0 ''k'' 1500000
       (\<lparr>mg_docs = Map.empty, mg_cmds = 0\<rparr>, 0) = (Inr (Some g), st1)
     \<and> (\<forall>g'. fst (mongo_acquire demo_mongo two_millis (\<lambda>t. if t < 1000000 then ''a'' else ''b'') (\<lambda>n. n) 900000 ''k'' 1000 st1)
          \<noteq> Inr (Some g'))"
proof -
  let ?rfc = "\<lambda>t :: timestamp. if t < 1000000 then ''a'' else ''b''"
  have law: "?rfc a \<le> ?rfc b \<longleftrightarrow> a div 1000000 \<le> b div 1000000" if "in_range two_millis a" "in_range two_millis b" for a b
  proof -
    have "t div 1000000 = (if t < 1000000 then 0 else 1)" if "in_range two_millis t" for t
      using that zdiv_mono1 [of t 1999999 1000000] zdiv_mono1 [of 1000000 t 1000000]
      by (auto simp: in_range_def two_millis_def intro: div_pos_pos_trivial)
    with that show ?thesis by (simp add: less_le_not_le)
  qed
  obtain g st1 where acq: "mongo_acquire demo_mongo two_millis ?rfc (\<lambda>n. n) 0 ''k'' 1500000
      (\<lparr>mg_docs = Map.empty, mg_cmds = 0\<rparr>, 0) = (Inr (Some g), st1)"
    by (simp add: mongo_acquire_def mongo_cmd_def demo_mongo_def upsert_lock_def checked_add_def in_range_def two_millis_def)
  have "in_range two_millis 900000" by (simp add: in_range_def two_millis_def)
  with mongo_lock_exclusion [OF law acq rtranclp.rtrancl_refl, of 900000 1000] acq show ?thesis by auto
qed

section \<open>Idempotency keys\<close>

record 'b idem_doc =
  id_status :: string
  id_response :: 'b
  id_created_at :: string
  id_updated_at :: string
  id_expires_at :: string

text \<open>BSON and the text of timestamps: \<open>bc_null\<close> is \<open>Bson::Null\<close>.\<close>

record 'b bson_codec =
  bc_to :: "json \<Rightarrow> string + 'b"
  bc_from :: "'b \<Rightarrow> string + json"
  bc_null :: 'b
  bc_rfc :: "timestamp \<Rightarrow> string"
  bc_parse_time :: "string \<Rightarrow> string + timestamp"

definition bson_codec_ok :: "'b bson_codec \<Rightarrow> bool" where
  "bson_codec_ok B \<longleftrightarrow>
     (\<forall>v b. bc_to B v = Inr b \<longrightarrow> (b = bc_null B \<longleftrightarrow> v = JNull) \<and> bc_from B b = Inr v) \<and>
     (\<forall>t. \<exists>t'. bc_parse_time B (bc_rfc B t) = Inr t')"

fun status_to_str :: "idempotency_status \<Rightarrow> string" where
  "status_to_str ISInProgress = ''in_progress''"
| "status_to_str ISCompleted = ''completed''"

definition str_to_status :: "string \<Rightarrow> data_error + idempotency_status" where
  "str_to_status s =
     (if s = ''in_progress'' then Inr ISInProgress
      else if s = ''completed'' then Inr ISCompleted
      else Inl (DE_Idempotency (''unknown idempotency status '' @ [CHR 0x27] @ s @ [CHR 0x27])))"

definition idem_timestamp :: "'b bson_codec \<Rightarrow> string \<Rightarrow> data_error + timestamp" where
  "idem_timestamp B s =
     (case bc_parse_time B s of
        Inl e \<Rightarrow> Inl (DE_Idempotency (''invalid timestamp '' @ [CHR 0x27] @ s @ [CHR 0x27] @ '': '' @ e))
      | Inr t \<Rightarrow> Inr t)"

text \<open>Every document of the collection was written by this store, so its fields are there. (The arrow of the
  messages is written in ASCII.)\<close>

definition doc_to_record :: "'b bson_codec \<Rightarrow> string \<Rightarrow> 'b idem_doc \<Rightarrow> data_error + idempotency_record" where
  "doc_to_record B key d =
     (case str_to_status (id_status d) of
        Inl e \<Rightarrow> Inl e
      | Inr status \<Rightarrow>
          (case (if id_response d = bc_null B then Inr None
                 else (case bc_from B (id_response d) of
                         Inl e \<Rightarrow> Inl (DE_Idempotency (''response bson->json: '' @ e))
                       | Inr v \<Rightarrow> Inr (Some v))) of
             Inl e \<Rightarrow> Inl e
           | Inr response \<Rightarrow>
               (case idem_timestamp B (id_created_at d) of
                  Inl e \<Rightarrow> Inl e
                | Inr created \<Rightarrow>
                    (case idem_timestamp B (id_updated_at d) of
                       Inl e \<Rightarrow> Inl e
                     | Inr updated \<Rightarrow>
                         Inr \<lparr>ik_key = key, ik_status = status, ik_response = response,
                              ik_created_at = created, ik_updated_at = updated\<rparr>))))"

definition mongo_expires_at :: "time_range \<Rightarrow> u64 \<Rightarrow> timestamp \<Rightarrow> data_error + timestamp" where
  "mongo_expires_at R ttl_secs now =
     (case checked_add R now (sint ttl_secs * 1000000000) of
        None \<Rightarrow> Inl (DE_Idempotency ''TTL overflow'')
      | Some t \<Rightarrow> Inr t)"

text \<open>\<open>find_one_and_update\<close> with \<open>$setOnInsert\<close>, \<open>upsert\<close> and \<open>ReturnDocument::Before\<close>.\<close>

definition set_on_insert :: "string \<Rightarrow> 'b idem_doc \<Rightarrow> (string \<rightharpoonup> 'b idem_doc) \<Rightarrow> (string + 'b idem_doc option) \<times> (string \<rightharpoonup> 'b idem_doc)" where
  "set_on_insert key new docs = (case docs key of None \<Rightarrow> (Inr None, docs(key \<mapsto> new)) | Some d \<Rightarrow> (Inr (Some d), docs))"

definition mongo_idem_begin ::
  "mongo_env \<Rightarrow> 'b bson_codec \<Rightarrow> time_range \<Rightarrow> u64 \<Rightarrow> timestamp \<Rightarrow> string \<Rightarrow> 'b idem_doc collection \<Rightarrow> (data_error + outcome) \<times> 'b idem_doc collection" where
  "mongo_idem_begin E B R ttl_secs now key c =
     (case mongo_expires_at R ttl_secs now of
        Inl e \<Rightarrow> (Inl e, c)
      | Inr expires_at \<Rightarrow>
          (case mongo_cmd E (set_on_insert key
                  \<lparr>id_status = status_to_str ISInProgress, id_response = bc_null B, id_created_at = bc_rfc B now,
                   id_updated_at = bc_rfc B now, id_expires_at = bc_rfc B expires_at\<rparr>) c of
             (Inl e, c1) \<Rightarrow> (Inl (DE_Idempotency (''mongo find_one_and_update failed: '' @ e)), c1)
           | (Inr None, c1) \<Rightarrow> (Inr New, c1)
           | (Inr (Some d), c1) \<Rightarrow>
               (case doc_to_record B key d of
                  Inl e \<Rightarrow> Inl e
                | Inr rec \<Rightarrow>
                    (case ik_status rec of
                       ISInProgress \<Rightarrow> Inr InProgress
                     | ISCompleted \<Rightarrow> Inr (Completed (case ik_response rec of None \<Rightarrow> JNull | Some v \<Rightarrow> v))), c1)))"

definition update_idem :: "string \<Rightarrow> ('b idem_doc \<Rightarrow> 'b idem_doc) \<Rightarrow> (string \<rightharpoonup> 'b idem_doc) \<Rightarrow> (string + nat) \<times> (string \<rightharpoonup> 'b idem_doc)" where
  "update_idem key f docs = (case docs key of None \<Rightarrow> (Inr 0, docs) | Some d \<Rightarrow> (Inr 1, docs(key \<mapsto> f d)))"

definition mongo_idem_complete ::
  "mongo_env \<Rightarrow> 'b bson_codec \<Rightarrow> timestamp \<Rightarrow> string \<Rightarrow> json \<Rightarrow> 'b idem_doc collection \<Rightarrow> (data_error + unit) \<times> 'b idem_doc collection" where
  "mongo_idem_complete E B now key response c =
     (case bc_to B response of
        Inl e \<Rightarrow> (Inl (DE_Idempotency (''json->bson failed: '' @ e)), c)
      | Inr b \<Rightarrow>
          (case mongo_cmd E (update_idem key (\<lambda>d. d\<lparr>id_status := status_to_str ISCompleted, id_response := b, id_updated_at := bc_rfc B now\<rparr>)) c of
             (Inl e, c1) \<Rightarrow> (Inl (DE_Idempotency (''mongo update_one failed: '' @ e)), c1)
           | (Inr matched_count, c1) \<Rightarrow>
               (if matched_count = 0
                then Inl (DE_Idempotency (''cannot complete unknown idempotency key '' @ [CHR 0x27] @ key @ [CHR 0x27]))
                else Inr (), c1)))"

definition mongo_idem_get ::
  "mongo_env \<Rightarrow> 'b bson_codec \<Rightarrow> string \<Rightarrow> 'b idem_doc collection \<Rightarrow> (data_error + idempotency_record option) \<times> 'b idem_doc collection" where
  "mongo_idem_get E B key c =
     (case mongo_cmd E (\<lambda>docs. (Inr (docs key), docs)) c of
        (Inl e, c1) \<Rightarrow> (Inl (DE_Idempotency (''mongo find_one failed: '' @ e)), c1)
      | (Inr None, c1) \<Rightarrow> (Inr None, c1)
      | (Inr (Some d), c1) \<Rightarrow> (case doc_to_record B key d of Inl e \<Rightarrow> Inl e | Inr r \<Rightarrow> Inr (Some r), c1))"

text \<open>The TTL monitor: \<open>gone\<close> says which of the expired documents it has removed.\<close>

definition reap :: "'b bson_codec \<Rightarrow> (string \<Rightarrow> bool) \<Rightarrow> timestamp \<Rightarrow> (string \<rightharpoonup> 'b idem_doc) \<Rightarrow> (string \<rightharpoonup> 'b idem_doc)" where
  "reap B gone now docs =
     (\<lambda>k. case docs k of
        None \<Rightarrow> None
      | Some d \<Rightarrow> if gone k \<and> id_expires_at d \<le> bc_rfc B now then None else Some d)"

text \<open>The answers of the two stores along one history. Of a record that is read, its status and response
  are compared; a stored null reads as no response, and timestamps are stored in milliseconds.\<close>

datatype idem_answer = ABegin "data_error + outcome" | AComplete "data_error + unit"
  | AGet "data_error + (idempotency_status \<times> json) option"

definition record_view :: "idempotency_record \<Rightarrow> idempotency_status \<times> json" where
  "record_view r = (ik_status r, case ik_response r of None \<Rightarrow> JNull | Some v \<Rightarrow> v)"

fun op_time :: "idem_op \<Rightarrow> timestamp" where
  "op_time (Begin t k) = t"
| "op_time (Complete t k v) = t"
| "op_time (Get t k) = t"

fun mongo_answer :: "mongo_env \<Rightarrow> 'b bson_codec \<Rightarrow> time_range \<Rightarrow> u64 \<Rightarrow> idem_op \<Rightarrow> 'b idem_doc collection
  \<Rightarrow> idem_answer \<times> 'b idem_doc collection" where
  "mongo_answer E B R ttl (Begin t k) c = map_prod ABegin id (mongo_idem_begin E B R ttl t k c)"
| "mongo_answer E B R ttl (Complete t k v) c = map_prod AComplete id (mongo_idem_complete E B t k v c)"
| "mongo_answer E B R ttl (Get t k) c = map_prod (\<lambda>a. AGet (map_sum id (map_option record_view) a)) id (mongo_idem_get E B k c)"

definition reaped_answer :: "mongo_env \<Rightarrow> 'b bson_codec \<Rightarrow> time_range \<Rightarrow> u64 \<Rightarrow> (nat \<Rightarrow> string \<Rightarrow> bool) \<Rightarrow> idem_op
  \<Rightarrow> 'b idem_doc collection \<Rightarrow> idem_answer \<times> 'b idem_doc collection" where
  "reaped_answer E B R ttl gone x c =
     mongo_answer E B R ttl x (c\<lparr>mg_docs := reap B (gone (mg_cmds c)) (op_time x) (mg_docs c)\<rparr>)"

fun memory_answer :: "idem_op \<Rightarrow> idempotency_store \<Rightarrow> idem_answer \<times> idempotency_store" where
  "memory_answer (Begin t k) m = map_prod ABegin id (idem_begin t k m)"
| "memory_answer (Complete t k v) m = map_prod AComplete id (idem_complete t k v m)"
| "memory_answer (Get t k) m = map_prod (\<lambda>a. AGet (map_sum id (map_option record_view) a)) id (idem_get k m)"

fun answers_of :: "('o \<Rightarrow> 's \<Rightarrow> 'a \<times> 's) \<Rightarrow> 'o list \<Rightarrow> 's \<Rightarrow> 'a list" where
  "answers_of f [] s = []"
| "answers_of f (x # xs) s = (case f x s of (a, s') \<Rightarrow> a # answers_of f xs s')"

text \<open>The operation can be carried out: its instant and the expiry are in range, the response can be written.\<close>

definition key_expiry :: "u64 \<Rightarrow> timestamp \<Rightarrow> timestamp" where
  "key_expiry ttl t = t + sint ttl * 1000000000"

fun idem_op_ok :: "'b bson_codec \<Rightarrow> time_range \<Rightarrow> u64 \<Rightarrow> idem_op \<Rightarrow> bool" where
  "idem_op_ok B R ttl (Begin t k) \<longleftrightarrow> in_range R t \<and> in_range R (key_expiry ttl t)"
| "idem_op_ok B R ttl (Complete t k v) \<longleftrightarrow> in_range R t \<and> (case bc_to B v of Inl _ \<Rightarrow> False | Inr _ \<Rightarrow> True)"
| "idem_op_ok B R ttl (Get t k) \<longleftrightarrow> in_range R t"

definition doc_rel :: "'b bson_codec \<Rightarrow> string \<Rightarrow> 'b idem_doc option \<Rightarrow> idempotency_record option \<Rightarrow> bool" where
  "doc_rel B k d r =
     (case (d, r) of
        (None, None) \<Rightarrow> True
      | (Some d, Some r) \<Rightarrow>
          (\<exists>r'. doc_to_record B k d = Inr r' \<and> ik_status r' = ik_status r
             \<and> (case ik_response r' of None \<Rightarrow> JNull | Some v \<Rightarrow> v) = (case ik_response r of None \<Rightarrow> JNull | Some v \<Rightarrow> v))
      | _ \<Rightarrow> False)"

definition store_rel :: "'b bson_codec \<Rightarrow> 'b idem_doc collection \<Rightarrow> idempotency_store \<Rightarrow> bool" where
  "store_rel B c m = (\<forall>k. doc_rel B k (mg_docs c k) (m k))"

lemma idem_status_roundtrip [simp]: "str_to_status (status_to_str s) = Inr s"
  by (cases s) (simp_all add: str_to_status_def)

lemma time_reads: "bson_codec_ok B \<Longrightarrow> \<exists>t'. idem_timestamp B (bc_rfc B t) = Inr t'"
  unfolding bson_codec_ok_def idem_timestamp_def by (metis sum.case(2))

lemma fresh_doc_rel:
  assumes "bson_codec_ok B"
  shows "doc_rel B k (Some \<lparr>id_status = status_to_str ISInProgress, id_response = bc_null B, id_created_at = bc_rfc B t,
      id_updated_at = bc_rfc B t, id_expires_at = x\<rparr>)
    (Some \<lparr>ik_key = k, ik_status = ISInProgress, ik_response = None, ik_created_at = t, ik_updated_at = t\<rparr>)"
proof -
  obtain t' where "idem_timestamp B (bc_rfc B t) = Inr t'" using time_reads [OF assms] by blast
  then show ?thesis
    using idem_status_roundtrip [of ISInProgress] by (simp add: doc_rel_def doc_to_record_def del: status_to_str.simps)
qed

lemma completed_doc_rel:
  assumes "bson_codec_ok B" and "bc_to B v = Inr b" and "doc_rel B k (Some d) (Some r)"
  shows "doc_rel B k (Some (d\<lparr>id_status := status_to_str ISCompleted, id_response := b, id_updated_at := bc_rfc B t\<rparr>))
    (Some (r\<lparr>ik_status := ISCompleted, ik_response := Some v, ik_updated_at := t\<rparr>))"
proof -
  obtain t' where t': "idem_timestamp B (bc_rfc B t) = Inr t'" using time_reads [OF assms(1)] by blast
  obtain created where c: "idem_timestamp B (id_created_at d) = Inr created"
    using assms(3) by (auto simp: doc_rel_def doc_to_record_def split: sum.splits if_splits)
  have "b = bc_null B \<longleftrightarrow> v = JNull" "bc_from B b = Inr v" using assms(1,2) by (auto simp: bson_codec_ok_def)
  with t' c idem_status_roundtrip [of ISCompleted] show ?thesis
    by (simp add: doc_rel_def doc_to_record_def del: status_to_str.simps)
qed

lemma idem_simulation:
  assumes "mongo_calm E" and "bson_codec_ok B" and "idem_op_ok B R ttl x" and "store_rel B c m"
    and "mongo_answer E B R ttl x c = (a, c')" and "memory_answer x m = (a', m')"
  shows "a = a' \<and> store_rel B c' m'"
proof (cases x)
  case (Begin t k)
  let ?new = "\<lparr>id_status = status_to_str ISInProgress, id_response = bc_null B, id_created_at = bc_rfc B t,
      id_updated_at = bc_rfc B t, id_expires_at = bc_rfc B (t + sint ttl * 1000000000)\<rparr>"
  have rel: "doc_rel B k (mg_docs c k) (m k)" using assms(4) by (simp add: store_rel_def)
  have exp: "mongo_expires_at R ttl t = Inr (t + sint ttl * 1000000000)"
    using assms(3) Begin by (simp add: mongo_expires_at_def checked_add_def key_expiry_def)
  show ?thesis
  proof (cases "mg_docs c k")
    case None
    then have "m k = None" using rel by (auto simp: doc_rel_def split: option.splits)
    with None assms fresh_doc_rel [OF assms(2), of k t] exp Begin show ?thesis
      by (auto simp: mongo_idem_begin_def mongo_cmd_calm set_on_insert_def idem_begin_def store_rel_def simp del: status_to_str.simps)
  next
    case (Some d)
    then obtain r r' where r: "m k = Some r" "doc_to_record B k d = Inr r'" "ik_status r' = ik_status r"
      "(case ik_response r' of None \<Rightarrow> JNull | Some v \<Rightarrow> v) = (case ik_response r of None \<Rightarrow> JNull | Some v \<Rightarrow> v)"
      using rel by (auto simp: doc_rel_def split: option.splits)
    with Some assms exp Begin show ?thesis
      by (cases "ik_status r") (auto simp: mongo_idem_begin_def mongo_cmd_calm set_on_insert_def idem_begin_def store_rel_def)
  qed
next
  case (Complete t k v)
  then obtain b where b: "bc_to B v = Inr b" using assms(3) by (auto split: sum.splits)
  have rel: "doc_rel B k (mg_docs c k) (m k)" using assms(4) by (simp add: store_rel_def)
  show ?thesis
  proof (cases "mg_docs c k")
    case None
    then have "m k = None" using rel by (auto simp: doc_rel_def split: option.splits)
    with None assms b Complete show ?thesis
      by (auto simp: mongo_idem_complete_def mongo_cmd_calm update_idem_def idem_complete_def store_rel_def)
  next
    case (Some d)
    then obtain r where r: "m k = Some r" using rel by (auto simp: doc_rel_def split: option.splits)
    with completed_doc_rel [OF assms(2) b, of k d r t] rel Some assms b Complete show ?thesis
      by (auto simp: mongo_idem_complete_def mongo_cmd_calm update_idem_def idem_complete_def store_rel_def simp del: status_to_str.simps)
  qed
next
  case (Get t k)
  have rel: "doc_rel B k (mg_docs c k) (m k)" using assms(4) by (simp add: store_rel_def)
  have same: "c' = c\<lparr>mg_cmds := Suc (mg_cmds c)\<rparr>" "m' = m"
    using assms(1,5,6) Get
    by (auto simp: mongo_idem_get_def mongo_cmd_calm idem_get_def split: option.splits)
  have "a = a'"
    using rel assms(1,5,6) Get
    by (cases "mg_docs c k"; cases "m k")
      (auto simp: mongo_idem_get_def mongo_cmd_calm idem_get_def doc_rel_def record_view_def)
  with same assms(4) show ?thesis by (simp add: store_rel_def)
qed

text \<open>The expiries on record are those of the claims made so far, so within the lifetime of all of them the
  TTL monitor has nothing to remove.\<close>

lemma mongo_answer_expiry:
  assumes "mongo_calm E" and "idem_op_ok B R ttl x" and "mg_docs (snd (mongo_answer E B R ttl x c)) k = Some d"
  shows "(\<exists>d0. mg_docs c k = Some d0 \<and> id_expires_at d = id_expires_at d0) \<or>
    (in_range R (key_expiry ttl (op_time x)) \<and> id_expires_at d = bc_rfc B (key_expiry ttl (op_time x)))"
proof (cases x)
  case (Begin t j)
  with assms show ?thesis
    by (auto simp: mongo_idem_begin_def mongo_cmd_calm set_on_insert_def mongo_expires_at_def checked_add_def key_expiry_def
        split: option.splits if_splits)
next
  case (Complete t j v)
  with assms show ?thesis
    by (auto simp: mongo_idem_complete_def mongo_cmd_calm update_idem_def split: option.splits if_splits sum.splits)
next
  case (Get t j)
  with assms show ?thesis by (auto simp: mongo_idem_get_def mongo_cmd_calm split: option.splits)
qed

lemma reap_alive:
  "\<forall>k d. docs k = Some d \<longrightarrow> \<not> id_expires_at d \<le> bc_rfc B now \<Longrightarrow> reap B gone now docs = docs"
  by (auto simp: reap_def split: option.splits)


text \<open>Instants of two seconds, written in unary, and an eager monitor.\<close>

definition two_seconds :: time_range where
  "two_seconds = \<lparr>dt_min = 0, dt_max = 2000000000\<rparr>"

definition demo_bson :: "json bson_codec" where
  "demo_bson = \<lparr>bc_to = Inr, bc_from = Inr, bc_null = JNull, bc_rfc = (\<lambda>t. replicate (nat (t div 1000000)) CHR ''a''),
     bc_parse_time = (\<lambda>_. Inr 0)\<rparr>"

lemma replicate_le: "replicate i c \<le> replicate j c \<longleftrightarrow> i \<le> j" for c :: char
proof (induction i arbitrary: j)
  case (Suc i)
  then show ?case by (cases j) auto
qed simp


end
