(* ===== verification/MongoOutbox.thy ===== *)
theory MongoOutbox
  imports MongoBackends SqlOutbox
begin

text \<open>
  The outbox over a MongoDB collection (\<open>klauthed-data/src/outbox/mongo.rs\<close>). A document has the fields
  of a row of the SQL outbox, its Boolean \<open>published\<close> as 0 or 1 and its BSON payload as text;
  \<open>insert_many\<close> inserts in order and stops at the first id it meets, \<open>update_many\<close> is one command. It is
  an outbox store in the sense the relay needs, by the lemmas of the SQL one.
\<close>

definition doc_to_entry :: "entry_codec \<Rightarrow> entry_row \<Rightarrow> data_error + outbox_entry" where
  "doc_to_entry K d =
     (case oid_parse K (er_id d) of
        Inl e \<Rightarrow> Inl (DE_Outbox (''invalid outbox id '' @ in_quotes (er_id d) @ '': '' @ e))
      | Inr i \<Rightarrow>
          (case parse_timestamp K (er_occurred_at d) of
             Inl e \<Rightarrow> Inl e
           | Inr occurred_at \<Rightarrow>
               (case (case er_published_at d of
                        Some s \<Rightarrow> map_sum id Some (parse_timestamp K s)
                      | None \<Rightarrow> Inr None) of
                  Inl e \<Rightarrow> Inl e
                | Inr published_at \<Rightarrow>
                    (case body_parse K (er_payload d) of
                       Inl e \<Rightarrow> Inl (DE_Outbox (''bson payload to json failed: '' @ e))
                     | Inr payload \<Rightarrow>
                         Inr \<lparr>oe_id = i, oe_aggregate_type = er_aggregate_type d, oe_aggregate_id = er_aggregate_id d,
                              oe_event_type = er_event_type d, oe_sequence = i64_as_u64 (er_sequence d),
                              oe_payload = payload, oe_occurred_at = occurred_at, oe_published = (er_published d \<noteq> 0),
                              oe_published_at = published_at\<rparr>))))"

definition entry_to_doc :: "entry_codec \<Rightarrow> outbox_entry \<Rightarrow> data_error + entry_row" where
  "entry_to_doc K e =
     (case body_show K (oe_payload e) of
        Inl m \<Rightarrow> Inl (DE_Outbox (''bson serialization of payload failed: '' @ m))
      | Inr payload \<Rightarrow> Inr (entry_to_row K payload e))"

text \<open>\<open>collect\<close> into a \<open>Result\<close>.\<close>

fun collect_results :: "('e + 'a) list \<Rightarrow> 'e + 'a list" where
  "collect_results [] = Inr []"
| "collect_results (r # rs) =
     (case r of Inl e \<Rightarrow> Inl e
      | Inr x \<Rightarrow> (case collect_results rs of Inl e \<Rightarrow> Inl e | Inr xs \<Rightarrow> Inr (x # xs)))"

fun insert_many :: "mongo_env \<Rightarrow> entry_row list \<Rightarrow> entry_row list \<Rightarrow> (string + unit) \<times> entry_row list" where
  "insert_many E [] docs = (Inr (), docs)"
| "insert_many E (d # ds) docs =
     (if list_ex (\<lambda>x. er_id x = er_id d) docs then (Inl (me_duplicate E (er_id d)), docs) else insert_many E ds (docs @ [d]))"

definition outbox_err :: "string \<Rightarrow> (string + 'a) \<times> 's \<Rightarrow> (data_error + 'a) \<times> 's" where
  "outbox_err what r = map_prod (map_sum (\<lambda>e. DE_Outbox (what @ e)) id) id r"

definition mongo_outbox_enqueue ::
  "entry_codec \<Rightarrow> mongo_env \<Rightarrow> outbox_entry list \<Rightarrow> entry_row list mongo \<Rightarrow> (data_error + unit) \<times> entry_row list mongo" where
  "mongo_outbox_enqueue K E entries c =
     (if entries = [] then (Inr (), c)
      else (case collect_results (map (entry_to_doc K) entries) of
              Inl e \<Rightarrow> (Inl e, c)
            | Inr docs \<Rightarrow> outbox_err ''mongo insert_many failed: '' (mongo_cmd E (insert_many E docs) c)))"

text \<open>The limit of a find: zero is none, and a negative one is its absolute value.\<close>

definition find_limit :: "nat \<Rightarrow> 'a list \<Rightarrow> 'a list" where
  "find_limit limit docs = (let n = as_i64 (int limit) in if n = 0 then docs else take (nat \<bar>n\<bar>) docs)"

definition mongo_outbox_fetch ::
  "entry_codec \<Rightarrow> mongo_env \<Rightarrow> nat \<Rightarrow> entry_row list mongo \<Rightarrow> (data_error + outbox_entry list) \<times> entry_row list mongo" where
  "mongo_outbox_fetch K E limit c =
     (case outbox_err ''mongo find failed: ''
             (mongo_cmd E (\<lambda>docs. (Inr (find_limit limit (sort_key er_sequence (filter (\<lambda>d. er_published d = 0) docs))), docs)) c) of
        (Inl e, c1) \<Rightarrow> (Inl e, c1)
      | (Inr docs, c1) \<Rightarrow> (collect_results (map (doc_to_entry K) docs), c1))"

definition set_published :: "entry_codec \<Rightarrow> string \<Rightarrow> nat list \<Rightarrow> entry_row \<Rightarrow> entry_row" where
  "set_published K now ids d =
     (if er_id d \<in> set (map (oid_show K) ids) then d\<lparr>er_published := 1, er_published_at := Some now\<rparr> else d)"

definition mongo_outbox_mark ::
  "entry_codec \<Rightarrow> mongo_env \<Rightarrow> timestamp \<Rightarrow> nat list \<Rightarrow> entry_row list mongo \<Rightarrow> (data_error + unit) \<times> entry_row list mongo" where
  "mongo_outbox_mark K E now ids c =
     (if ids = [] then (Inr (), c)
      else outbox_err ''mongo update_many failed: ''
             (mongo_cmd E (\<lambda>docs. (Inr (), map (set_published K (ts_show K now) ids) docs)) c))"

section \<open>The collection is an outbox store\<close>

text \<open>The table with the same rows, of which the lemmas of the SQL outbox speak.\<close>

definition as_table :: "entry_row list mongo \<Rightarrow> entry_row sql_db" where
  "as_table c = \<lparr>db_rows = mg_docs c, db_stmts = 0\<rparr>"

lemma rows_as_table [simp]: "db_rows (as_table c) = mg_docs c"
  by (simp add: as_table_def)

lemma doc_to_entry_row: "row_ok K d \<Longrightarrow> doc_to_entry K d = row_to_entry K d"
  by (auto simp: row_ok_def row_to_entry_def doc_to_entry_def split: sum.splits)

lemma collect_decoded: "\<forall>d \<in> set ds. row_ok K d \<Longrightarrow> collect_results (map (doc_to_entry K) ds) = decode_rows K ds"
  by (induction ds) (auto simp: doc_to_entry_row split: sum.splits)

lemma mongo_fetch_spec:
  assumes "mongo_calm E" and ok: "sql_outbox_ok K (as_table c)" and limit: "0 < limit" "limit < 2 ^ 63"
  shows "\<exists>es c'. mongo_outbox_fetch K E limit c = (Inr es, c') \<and> sql_outbox_ok K (as_table c')
    \<and> sql_unpublished K (as_table c') = sql_unpublished K (as_table c) \<and> distinct (map oe_id es)
    \<and> oe_id ` set es \<subseteq> sql_unpublished K (as_table c) \<and> length es = min limit (card (sql_unpublished K (as_table c)))"
proof -
  let ?ds = "sort_key er_sequence (filter (\<lambda>d. er_published d = 0) (mg_docs c))"
  have lim: "find_limit limit ?ds = take limit ?ds" "limit_rows limit ?ds = take limit ?ds"
    using as_i64_nat [OF limit(2)] limit(1) by (simp_all add: find_limit_def limit_rows_def)
  obtain es db' where es: "sql_outbox_fetch K calm_env limit (as_table c) = (Inr es, db')" "distinct (map oe_id es)"
    "oe_id ` set es \<subseteq> sql_unpublished K (as_table c)" "length es = min limit (card (sql_unpublished K (as_table c)))"
    using sql_fetch_spec [OF fault_free_calm ok limit(2)] by blast
  have "decode_rows K (take limit ?ds) = Inr es"
    using es(1) lim(2) by (simp add: sql_outbox_fetch_def db_bind_def db_stmt_def calm_env_def sql_select_def db_return_def)
  moreover have "\<forall>d \<in> set (take limit ?ds). row_ok K d"
    using ok by (auto simp: sql_outbox_ok_def dest: in_set_takeD)
  ultimately have "collect_results (map (doc_to_entry K) (take limit ?ds)) = Inr es" by (simp add: collect_decoded)
  then have "mongo_outbox_fetch K E limit c = (Inr es, c\<lparr>mg_cmds := Suc (mg_cmds c)\<rparr>)"
    using assms(1) lim(1) by (simp add: mongo_outbox_fetch_def mongo_cmd_calm outbox_err_def)
  with es(2-4) ok show ?thesis by (intro exI [of _ es]) (simp add: as_table_def)
qed

lemma filter_set_published:
  "filter (\<lambda>d. er_published d = 0) (map (set_published K now ids) docs)
   = filter (\<lambda>d. er_published d = 0 \<and> er_id d \<notin> oid_show K ` set ids) docs"
  by (induction docs) (auto simp: set_published_def)

lemma table_same:
  assumes "map er_id (db_rows db) = map er_id (db_rows db')"
    and "{r \<in> set (db_rows db). er_published r = 0} = {r \<in> set (db_rows db'). er_published r = 0}"
  shows "sql_outbox_ok K db = sql_outbox_ok K db'" and "sql_unpublished K db = sql_unpublished K db'"
proof -
  have "sql_outbox_ok K d \<longleftrightarrow> distinct (map er_id (db_rows d)) \<and> (\<forall>r \<in> {r \<in> set (db_rows d). er_published r = 0}. row_ok K r)" for d
    by (auto simp: sql_outbox_ok_def)
  then show "sql_outbox_ok K db = sql_outbox_ok K db'" using assms by (simp only:)
  show "sql_unpublished K db = sql_unpublished K db'" using assms(2) by (simp add: sql_unpublished_def)
qed

lemma mongo_mark_spec:
  assumes "mongo_calm E" and "entry_codec_ok K" and ok: "sql_outbox_ok K (as_table c)"
  shows "\<exists>c'. mongo_outbox_mark K E now ids c = (Inr (), c') \<and> sql_outbox_ok K (as_table c')
    \<and> sql_unpublished K (as_table c') = sql_unpublished K (as_table c) - set ids"
proof -
  let ?docs = "map (set_published K (ts_show K now) ids) (mg_docs c)"
  let ?rows = "map (mark_row K (ts_show K now) ids) (mg_docs c)"
  obtain db' where db': "sql_outbox_mark K calm_env now ids (as_table c) = (Inr (), db')" "sql_outbox_ok K db'"
    "sql_unpublished K db' = sql_unpublished K (as_table c) - set ids"
    using sql_mark_spec [OF fault_free_calm assms(2) ok] by blast
  have rows: "db_rows db' = ?rows"
  proof (cases "ids = []")
    case True
    with db'(1) show ?thesis by (auto simp: sql_outbox_mark_def mark_row_def map_idI)
  next
    case False
    then have "db_effect (sql_outbox_mark K calm_env now ids (as_table c)) = (Inr (), ?rows)"
      using mark_rows_effect [OF fault_free_calm] unfolding sql_outbox_mark_def
      by (simp only: if_False) (rule db_tx_ok [OF fault_free_calm], simp)
    with db'(1) show ?thesis by (simp add: db_effect_def)
  qed
  have same: "map er_id ?docs = map er_id ?rows" "filter (\<lambda>d. er_published d = 0) ?docs = filter (\<lambda>d. er_published d = 0) ?rows"
    by (simp add: set_published_def mark_row_def) (unfold filter_mark_row filter_set_published, rule refl)
  have "mongo_outbox_mark K E now ids c = (Inr (), c\<lparr>mg_cmds := mg_cmds c + of_bool (ids \<noteq> []), mg_docs := ?docs\<rparr>)"
    using assms(1) by (cases "ids = []") (simp_all add: mongo_outbox_mark_def mongo_cmd_calm outbox_err_def set_published_def map_idI)
  moreover have "{d \<in> set ?docs. er_published d = 0} = {d \<in> set ?rows. er_published d = 0}"
    using arg_cong [OF same(2), of set] by simp
  ultimately show ?thesis
    using db'(2,3) table_same [of "as_table (c\<lparr>mg_cmds := mg_cmds c + of_bool (ids \<noteq> []), mg_docs := ?docs\<rparr>)" db' K] same(1)
    by (simp add: rows)
qed

interpretation mongo_outbox: outbox_store "mongo_outbox_fetch K E" "mongo_outbox_mark K E"
  "\<lambda>c. mongo_calm E \<and> entry_codec_ok K \<and> sql_outbox_ok K (as_table c)" "\<lambda>c. sql_unpublished K (as_table c)" for K E
proof
  fix c limit now ids
  assume ok: "mongo_calm E \<and> entry_codec_ok K \<and> sql_outbox_ok K (as_table c)"
  then show "\<exists>c'. mongo_outbox_mark K E now ids c = (Inr (), c') \<and> (mongo_calm E \<and> entry_codec_ok K \<and> sql_outbox_ok K (as_table c'))
      \<and> sql_unpublished K (as_table c') = sql_unpublished K (as_table c) - set ids"
    using mongo_mark_spec [of E K c now ids] by blast
  show "\<exists>es c'. mongo_outbox_fetch K E limit c = (Inr es, c') \<and> (mongo_calm E \<and> entry_codec_ok K \<and> sql_outbox_ok K (as_table c'))
      \<and> sql_unpublished K (as_table c') = sql_unpublished K (as_table c) \<and> distinct (map oe_id es)
      \<and> oe_id ` set es \<subseteq> sql_unpublished K (as_table c) \<and> length es = min limit (card (sql_unpublished K (as_table c)))"
    if "0 < limit" "limit < 2 ^ 63"
    using ok mongo_fetch_spec [OF _ _ that, of E K c] by blast
qed (simp add: sql_unpublished_def)

text \<open>The MongoDB outbox delivers exactly once too. As many drains as there are batches, through a
  publisher that accepts, deliver every pending entry once, none twice, nothing else.\<close>

theorem mongo_outbox_exactly_once:
  assumes "mongo_calm E" and "entry_codec_ok K" and "sql_outbox_ok K (as_table c)"
    and "0 < or_batch_size r" and "or_batch_size r < 2 ^ 63" and "card (sql_unpublished K (as_table c)) \<le> k * or_batch_size r"
  shows "\<exists>c' sent. deliver_with (mongo_outbox_fetch K E) (mongo_outbox_mark K E) k r now c [] = (c', sent)
    \<and> distinct sent \<and> set sent = sql_unpublished K (as_table c) \<and> sql_unpublished K (as_table c') = {}"
  using mongo_outbox.deliver_exactly_once [of E K c r k now "[]"] assms by auto

theorem mongo_outbox_exactly_once_witness:
  "\<exists>c' sent. deliver_with (mongo_outbox_fetch demo_entry_codec demo_mongo) (mongo_outbox_mark demo_entry_codec demo_mongo) 1
       \<lparr>or_batch_size = 2\<rparr> 9 \<lparr>mg_docs = [stored_row demo_entry_codec (demo_entry 1)], mg_cmds = 0\<rparr> [] = (c', sent)
     \<and> distinct sent \<and> set sent = {1}"
proof -
  let ?c = "\<lparr>mg_docs = [stored_row demo_entry_codec (demo_entry 1)], mg_cmds = 0\<rparr>"
  have "entry_storable demo_entry_codec (demo_entry 1)"
    by (simp add: entry_storable_def demo_entry_codec_def demo_entry_def)
  note st = stored_roundtrip [OF demo_entry_codec_ok this]
  have "sql_outbox_ok demo_entry_codec (as_table ?c)" using st by (simp add: sql_outbox_ok_def)
  moreover have u: "sql_unpublished demo_entry_codec (as_table ?c) = {1}"
  proof -
    have "{r \<in> set (db_rows (as_table ?c)). er_published r = 0} = {stored_row demo_entry_codec (demo_entry 1)}" using st(3) by auto
    then have "sql_unpublished demo_entry_codec (as_table ?c) = {oe_id (demo_entry 1)}"
      unfolding sql_unpublished_def by (simp only: image_insert image_empty st(1) sum.sel)
    then show ?thesis by (simp add: demo_entry_def)
  qed
  moreover have "mongo_calm demo_mongo" by (simp add: mongo_calm_def demo_mongo_def)
  ultimately show ?thesis
    using mongo_outbox_exactly_once [of demo_mongo demo_entry_codec ?c "\<lparr>or_batch_size = 2\<rparr>" 1 9] demo_entry_codec_ok
    by (simp del: deliver_with.simps) blast
qed

text \<open>Marking is not a no-op for an entry that is published already, its time of publication changes; and a
  batch that meets a known id has stored what came before it.\<close>

lemma mongo_mark_restamps:
  "mg_docs (snd (mongo_outbox_mark demo_entry_codec demo_mongo 7 [1]
     \<lparr>mg_docs = [(stored_row demo_entry_codec (demo_entry 1))\<lparr>er_published := 1, er_published_at := Some ''a''\<rparr>], mg_cmds = 0\<rparr>))
   = [(stored_row demo_entry_codec (demo_entry 1))\<lparr>er_published := 1, er_published_at := Some ''aaaaaaa''\<rparr>]"
  by code_simp

lemma mongo_enqueue_not_atomic:
  "fst (mongo_outbox_enqueue demo_entry_codec demo_mongo [demo_entry 2, demo_entry 1]
     \<lparr>mg_docs = [stored_row demo_entry_codec (demo_entry 1)], mg_cmds = 0\<rparr>) \<noteq> Inr ()"
  "mg_docs (snd (mongo_outbox_enqueue demo_entry_codec demo_mongo [demo_entry 2, demo_entry 1]
     \<lparr>mg_docs = [stored_row demo_entry_codec (demo_entry 1)], mg_cmds = 0\<rparr>))
   = [stored_row demo_entry_codec (demo_entry 1), stored_row demo_entry_codec (demo_entry 2)]"
  by code_simp+

end
