(* ===== verification/RemoteDiscovery.thy ===== *)
theory RemoteDiscovery
  imports Discovery HttpClient
begin

text \<open>
  The registries behind HTTP APIs (\<open>klauthed-discovery/src\<close>: \<open>consul.rs\<close>, \<open>eureka.rs\<close>, \<open>kubernetes.rs\<close>). The
  server is a parameter, a function \<open>send\<close> on requests and its state \<open>'s\<close>; a request carries the record
  its JSON body is written from, and reading the JSON of an answer is a parameter as well. What a
  registry keeps of an instance is compared with what it reports of it.
\<close>

record 'b api_request =
  aq_method :: string
  aq_url :: string
  aq_headers :: "(string \<times> string) list"
  aq_query :: "(string \<times> string) list"
  aq_body :: "'b option"

type_synonym ('b, 's) api_server = "'b api_request \<Rightarrow> 's \<Rightarrow> (string + http_answer) \<times> 's"

definition api_request :: "string \<Rightarrow> string \<Rightarrow> 'b option \<Rightarrow> 'b api_request" where
  "api_request meth url body = \<lparr>aq_method = meth, aq_url = url, aq_headers = [], aq_query = [], aq_body = body\<rparr>"

definition body_text :: "http_answer \<Rightarrow> string" where
  "body_text r = (case ha_body r of Inl _ \<Rightarrow> [] | Inr s \<Rightarrow> s)"

text \<open>Send a request; a failure of the transport is a backend error.\<close>

definition api_call ::
  "('b, 's) api_server \<Rightarrow> 'b api_request \<Rightarrow> (http_answer \<Rightarrow> discovery_error + 'a) \<Rightarrow> 's \<Rightarrow> (discovery_error + 'a) \<times> 's" where
  "api_call send q k s =
     (case send q s of
        (Inl e, s') \<Rightarrow> (Inl (DiscoveryBackend e), s')
      | (Inr resp, s') \<Rightarrow> (k resp, s'))"

definition decode_json :: "(string \<Rightarrow> string + 'a) \<Rightarrow> http_answer \<Rightarrow> discovery_error + 'a" where
  "decode_json de resp = (case response_json de resp of Inl e \<Rightarrow> Inl (DiscoveryDecode e) | Inr x \<Rightarrow> Inr x)"

section \<open>Consul\<close>

definition SECURE_META_KEY :: string where
  "SECURE_META_KEY = ''klauthed_secure''"

record consul_check =
  cc_check_id :: string
  cc_ttl :: string
  cc_deregister_after :: string

record consul_body =
  cb_id :: string
  cb_name :: string
  cb_address :: string
  cb_port :: u16
  cb_meta :: "string \<rightharpoonup> string"
  cb_check :: consul_check

record consul_registry =
  cr_base_url :: string
  cr_ttl_secs :: u64

definition consul_new :: "string \<Rightarrow> consul_registry" where
  "consul_new agent_url = \<lparr>cr_base_url = trim_end_matches (CHR ''/'') agent_url, cr_ttl_secs = 30\<rparr>"

definition consul_ttl_seconds :: "u64 \<Rightarrow> consul_registry \<Rightarrow> consul_registry" where
  "consul_ttl_seconds ttl c = c\<lparr>cr_ttl_secs := max ttl 1\<rparr>"

definition consul_check_id :: "string \<Rightarrow> string" where
  "consul_check_id instance_id = ''service:'' @ instance_id"

definition show_bool :: "bool \<Rightarrow> string" where
  "show_bool b = (if b then ''true'' else ''false'')"

definition consul_ensure_success :: "(nat \<Rightarrow> string) \<Rightarrow> string \<Rightarrow> http_answer \<Rightarrow> discovery_error + unit" where
  "consul_ensure_success status_text op resp =
     (if status_is_success (ha_status resp) then Inr ()
      else Inl (DiscoveryRegistration (''consul '' @ op @ '' returned '' @ status_text (ha_status resp) @ '': '' @ body_text resp)))"

definition consul_registration :: "consul_registry \<Rightarrow> service_instance \<Rightarrow> consul_body" where
  "consul_registration c inst =
     \<lparr>cb_id = si_instance_id inst, cb_name = si_service_name inst, cb_address = si_host inst, cb_port = si_port inst,
      cb_meta = (si_metadata inst)(SECURE_META_KEY \<mapsto> show_bool (si_secure inst)),
      cb_check = \<lparr>cc_check_id = consul_check_id (si_instance_id inst), cc_ttl = show_nat (unat (cr_ttl_secs c)) @ ''s'',
                  cc_deregister_after = ''1m''\<rparr>\<rparr>"

definition consul_register ::
  "(nat \<Rightarrow> string) \<Rightarrow> (consul_body, 's) api_server \<Rightarrow> consul_registry \<Rightarrow> service_instance \<Rightarrow> 's \<Rightarrow> (discovery_error + unit) \<times> 's" where
  "consul_register status_text send c inst =
     api_call send (api_request ''PUT'' (cr_base_url c @ ''/v1/agent/service/register'') (Some (consul_registration c inst)))
       (consul_ensure_success status_text ''register'')"

definition consul_deregister ::
  "(nat \<Rightarrow> string) \<Rightarrow> (consul_body, 's) api_server \<Rightarrow> consul_registry \<Rightarrow> string \<Rightarrow> string \<Rightarrow> 's \<Rightarrow> (discovery_error + unit) \<times> 's" where
  "consul_deregister status_text send c service_name instance_id =
     api_call send (api_request ''PUT'' (cr_base_url c @ ''/v1/agent/service/deregister/'' @ instance_id) None)
       (consul_ensure_success status_text ''deregister'')"

definition consul_heartbeat ::
  "(nat \<Rightarrow> string) \<Rightarrow> (consul_body, 's) api_server \<Rightarrow> consul_registry \<Rightarrow> string \<Rightarrow> string \<Rightarrow> 's \<Rightarrow> (discovery_error + unit) \<times> 's" where
  "consul_heartbeat status_text send c service_name instance_id =
     api_call send (api_request ''PUT'' (cr_base_url c @ ''/v1/agent/check/pass/'' @ consul_check_id instance_id) None)
       (consul_ensure_success status_text ''heartbeat'')"

record health_entry =
  he_node_address :: string
  he_id :: string
  he_address :: string
  he_port :: u16
  he_meta :: "string \<rightharpoonup> string"

definition consul_into_instance :: "string \<Rightarrow> health_entry \<Rightarrow> service_instance" where
  "consul_into_instance service_name e =
     \<lparr>si_service_name = service_name, si_instance_id = he_id e,
      si_host = (if he_address e = [] then he_node_address e else he_address e), si_port = he_port e,
      si_secure = (he_meta e SECURE_META_KEY = Some ''true''), si_metadata = (he_meta e)(SECURE_META_KEY := None)\<rparr>"

definition consul_instances ::
  "(nat \<Rightarrow> string) \<Rightarrow> (string \<Rightarrow> string + health_entry list) \<Rightarrow> (consul_body, 's) api_server \<Rightarrow> consul_registry \<Rightarrow> string \<Rightarrow> 's
   \<Rightarrow> (discovery_error + service_instance list) \<times> 's" where
  "consul_instances status_text de send c service_name =
     api_call send ((api_request ''GET'' (cr_base_url c @ ''/v1/health/service/'' @ service_name) None)\<lparr>aq_query := [(''passing'', ''true'')]\<rparr>)
       (\<lambda>resp. if \<not> status_is_success (ha_status resp)
               then Inl (DiscoveryBackend (''consul instances returned '' @ status_text (ha_status resp)))
               else map_sum id (map (consul_into_instance service_name)) (decode_json de resp))"

section \<open>Eureka\<close>

record port_info =
  pi_value :: u16
  pi_enabled :: string

record eureka_instance =
  ei_instance_id :: string
  ei_host_name :: string
  ei_app :: string
  ei_ip_addr :: string
  ei_status :: string
  ei_port :: port_info
  ei_secure_port :: port_info
  ei_metadata :: "string \<rightharpoonup> string"

definition eureka_new :: "string \<Rightarrow> string" where
  "eureka_new url = trim_end_matches (CHR ''/'') url"

definition eureka_ensure_success :: "(nat \<Rightarrow> string) \<Rightarrow> string \<Rightarrow> http_answer \<Rightarrow> discovery_error + unit" where
  "eureka_ensure_success status_text op resp =
     (if status_is_success (ha_status resp) then Inr ()
      else Inl (DiscoveryRegistration (''eureka '' @ op @ '' returned '' @ status_text (ha_status resp))))"

text \<open>The fields of the body that a lookup reads back; the VIP addresses and the data centre are constant
  or repeat the service name.\<close>

definition eureka_registration :: "service_instance \<Rightarrow> eureka_instance" where
  "eureka_registration inst =
     (let (plain, secure) = (if si_secure inst then (''false'', ''true'') else (''true'', ''false''))
      in \<lparr>ei_instance_id = si_instance_id inst, ei_host_name = si_host inst, ei_app = si_service_name inst,
          ei_ip_addr = si_host inst, ei_status = ''UP'', ei_port = \<lparr>pi_value = si_port inst, pi_enabled = plain\<rparr>,
          ei_secure_port = \<lparr>pi_value = si_port inst, pi_enabled = secure\<rparr>, ei_metadata = si_metadata inst\<rparr>)"

definition eureka_register ::
  "(nat \<Rightarrow> string) \<Rightarrow> (eureka_instance, 's) api_server \<Rightarrow> string \<Rightarrow> service_instance \<Rightarrow> 's \<Rightarrow> (discovery_error + unit) \<times> 's" where
  "eureka_register status_text send base inst =
     api_call send (api_request ''POST'' (base @ ''/eureka/apps/'' @ si_service_name inst) (Some (eureka_registration inst)))
       (eureka_ensure_success status_text ''register'')"

definition eureka_deregister ::
  "(nat \<Rightarrow> string) \<Rightarrow> (eureka_instance, 's) api_server \<Rightarrow> string \<Rightarrow> string \<Rightarrow> string \<Rightarrow> 's \<Rightarrow> (discovery_error + unit) \<times> 's" where
  "eureka_deregister status_text send base service_name instance_id =
     api_call send (api_request ''DELETE'' (base @ ''/eureka/apps/'' @ service_name @ ''/'' @ instance_id) None)
       (eureka_ensure_success status_text ''deregister'')"

definition eureka_heartbeat ::
  "(nat \<Rightarrow> string) \<Rightarrow> (eureka_instance, 's) api_server \<Rightarrow> string \<Rightarrow> string \<Rightarrow> string \<Rightarrow> 's \<Rightarrow> (discovery_error + unit) \<times> 's" where
  "eureka_heartbeat status_text send base service_name instance_id =
     api_call send (api_request ''PUT'' (base @ ''/eureka/apps/'' @ service_name @ ''/'' @ instance_id) None)
       (eureka_ensure_success status_text ''heartbeat'')"

definition ignore_case_eq :: "string \<Rightarrow> string \<Rightarrow> bool" where
  "ignore_case_eq a b = (to_lowercase a = to_lowercase b)"

definition port_enabled :: "port_info \<Rightarrow> bool" where
  "port_enabled p = ignore_case_eq (pi_enabled p) ''true''"

definition eureka_into_instance :: "string \<Rightarrow> eureka_instance \<Rightarrow> service_instance" where
  "eureka_into_instance service_name e =
     (let secure = port_enabled (ei_secure_port e);
          port = (if secure then pi_value (ei_secure_port e) else pi_value (ei_port e));
          host = (if ei_ip_addr e = [] then ei_host_name e else ei_ip_addr e)
      in \<lparr>si_service_name = service_name,
          si_instance_id = (if ei_instance_id e = [] then host @ '':'' @ show_nat (unat port) else ei_instance_id e),
          si_host = host, si_port = port, si_secure = secure, si_metadata = ei_metadata e\<rparr>)"

text \<open>\<open>de\<close> reads the instances of the application, one or many.\<close>

definition eureka_instances ::
  "(nat \<Rightarrow> string) \<Rightarrow> (string \<Rightarrow> string + eureka_instance list) \<Rightarrow> (eureka_instance, 's) api_server \<Rightarrow> string \<Rightarrow> string \<Rightarrow> 's
   \<Rightarrow> (discovery_error + service_instance list) \<times> 's" where
  "eureka_instances status_text de send base service_name =
     api_call send ((api_request ''GET'' (base @ ''/eureka/apps/'' @ service_name) None)\<lparr>aq_headers := [(''accept'', ''application/json'')]\<rparr>)
       (\<lambda>resp. if ha_status resp = 404 then Inr []
               else if \<not> status_is_success (ha_status resp)
               then Inl (DiscoveryBackend (''eureka instances returned '' @ status_text (ha_status resp)))
               else map_sum id (\<lambda>es. map (eureka_into_instance service_name) (filter (\<lambda>e. ignore_case_eq (ei_status e) ''UP'') es))
                      (decode_json de resp))"

section \<open>Kubernetes\<close>

record endpoint_port =
  ep_name :: "string option"
  ep_port :: u16

record endpoint_subset =
  es_addresses :: "string list"
  es_ports :: "endpoint_port list"

record kube_registry =
  kr_base_url :: string
  kr_namespace :: string
  kr_token :: "string option"
  kr_port_name :: "string option"

definition kube_new :: "string \<Rightarrow> kube_registry" where
  "kube_new url = \<lparr>kr_base_url = trim_end_matches (CHR ''/'') url, kr_namespace = ''default'', kr_token = None, kr_port_name = None\<rparr>"

definition kube_namespace :: "string \<Rightarrow> kube_registry \<Rightarrow> kube_registry" where
  "kube_namespace ns k = k\<lparr>kr_namespace := ns\<rparr>"

definition kube_with_token :: "string \<Rightarrow> kube_registry \<Rightarrow> kube_registry" where
  "kube_with_token token k = k\<lparr>kr_token := Some token\<rparr>"

definition kube_port_name :: "string \<Rightarrow> kube_registry \<Rightarrow> kube_registry" where
  "kube_port_name name k = k\<lparr>kr_port_name := Some name\<rparr>"

definition read_only :: "string \<Rightarrow> discovery_error" where
  "read_only op = DiscoveryRegistration
     (''kubernetes discovery is read-only; cannot '' @ op @ '' (the platform manages pod lifecycle)'')"

definition select_port :: "kube_registry \<Rightarrow> endpoint_port list \<Rightarrow> endpoint_port option" where
  "select_port k ports =
     (case kr_port_name k of
        Some name \<Rightarrow> List.find (\<lambda>p. ep_name p = Some name) ports
      | None \<Rightarrow> (case ports of [] \<Rightarrow> None | p # _ \<Rightarrow> Some p))"

definition subset_instances :: "kube_registry \<Rightarrow> string \<Rightarrow> endpoint_subset \<Rightarrow> service_instance list" where
  "subset_instances k service_name subs =
     (case select_port k (es_ports subs) of
        None \<Rightarrow> []
      | Some port \<Rightarrow>
          map (\<lambda>ip. instance_secure (ep_name port = Some ''https'')
                 (with_instance_id (ip @ '':'' @ show_nat (unat (ep_port port))) (instance_new service_name ip (ep_port port))))
            (es_addresses subs))"

definition map_endpoints :: "kube_registry \<Rightarrow> string \<Rightarrow> endpoint_subset list \<Rightarrow> service_instance list" where
  "map_endpoints k service_name subsets = concat (map (subset_instances k service_name) subsets)"

definition kube_register :: "service_instance \<Rightarrow> discovery_error + unit" where
  "kube_register inst = Inl (read_only ''register'')"

definition kube_deregister :: "string \<Rightarrow> string \<Rightarrow> discovery_error + unit" where
  "kube_deregister service_name instance_id = Inl (read_only ''deregister'')"

definition kube_heartbeat :: "string \<Rightarrow> string \<Rightarrow> discovery_error + unit" where
  "kube_heartbeat service_name instance_id = Inl (read_only ''heartbeat'')"

definition kube_instances ::
  "(nat \<Rightarrow> string) \<Rightarrow> (string \<Rightarrow> string + endpoint_subset list) \<Rightarrow> (unit, 's) api_server \<Rightarrow> kube_registry \<Rightarrow> string \<Rightarrow> 's
   \<Rightarrow> (discovery_error + service_instance list) \<times> 's" where
  "kube_instances status_text de send k service_name =
     api_call send
       ((api_request ''GET'' (kr_base_url k @ ''/api/v1/namespaces/'' @ kr_namespace k @ ''/endpoints/'' @ service_name) None)
          \<lparr>aq_headers := (case kr_token k of None \<Rightarrow> [] | Some token \<Rightarrow> [(''Authorization'', ''Bearer '' @ token)])\<rparr>)
       (\<lambda>resp. if ha_status resp = 404 then Inr []
               else if \<not> status_is_success (ha_status resp)
               then Inl (DiscoveryBackend (''kubernetes endpoints lookup returned '' @ status_text (ha_status resp)))
               else map_sum id (map_endpoints k service_name) (decode_json de resp))"

section \<open>What is registered is what is reported\<close>

text \<open>The health entry an agent reports for a registration.\<close>

definition consul_entry :: "string \<Rightarrow> consul_body \<Rightarrow> health_entry" where
  "consul_entry node b = \<lparr>he_node_address = node, he_id = cb_id b, he_address = cb_address b, he_port = cb_port b, he_meta = cb_meta b\<rparr>"

text \<open>An instance reads back from Consul as it was registered, its scheme included, when it names its host
  and does not itself use the metadata key that carries the scheme; an agent that knows no address of
  the service reports the one of the node.\<close>

theorem consul_roundtrip:
  assumes "si_host inst \<noteq> []" and "si_metadata inst SECURE_META_KEY = None"
  shows "consul_into_instance (si_service_name inst) (consul_entry node (consul_registration c inst)) = inst"
proof -
  have "(si_metadata inst)(SECURE_META_KEY := None) = si_metadata inst" using assms(2) by (simp add: fun_upd_idem)
  with assms(1) show ?thesis
    by (cases inst) (simp add: consul_into_instance_def consul_entry_def consul_registration_def show_bool_def)
qed

text \<open>Eureka reports every registration of an instance with an id back; the port is the one of the scheme
  in use.\<close>

theorem eureka_roundtrip:
  assumes "si_instance_id inst \<noteq> []"
  shows "eureka_into_instance (si_service_name inst) (eureka_registration inst) = inst
    \<and> ignore_case_eq (ei_status (eureka_registration inst)) ''UP''"
proof -
  have "ignore_case_eq ''true'' ''true''" "\<not> ignore_case_eq ''false'' ''true''" by code_simp+
  then show ?thesis
    using assms by (cases inst) (simp add: eureka_into_instance_def eureka_registration_def port_enabled_def ignore_case_eq_def Let_def)
qed

text \<open>A Kubernetes lookup reports one instance per address of every subset that has the selected port.\<close>

lemma in_subset_instances:
  "inst \<in> set (subset_instances k name subs) \<longleftrightarrow>
   (\<exists>port ip. select_port k (es_ports subs) = Some port \<and> ip \<in> set (es_addresses subs)
      \<and> inst = \<lparr>si_service_name = name, si_instance_id = ip @ '':'' @ show_nat (unat (ep_port port)), si_host = ip,
                si_port = ep_port port, si_secure = (ep_name port = Some ''https''), si_metadata = Map.empty\<rparr>)"
  by (cases "select_port k (es_ports subs)")
    (auto simp: subset_instances_def instance_secure_def with_instance_id_def instance_new_def)

theorem kube_reports_addresses:
  "inst \<in> set (map_endpoints k name subsets) \<longleftrightarrow>
   (\<exists>subs \<in> set subsets. \<exists>port ip. select_port k (es_ports subs) = Some port \<and> ip \<in> set (es_addresses subs)
      \<and> inst = \<lparr>si_service_name = name, si_instance_id = ip @ '':'' @ show_nat (unat (ep_port port)), si_host = ip,
                si_port = ep_port port, si_secure = (ep_name port = Some ''https''), si_metadata = Map.empty\<rparr>)"
  by (simp add: map_endpoints_def in_subset_instances)

text \<open>The metadata key that carries the scheme is taken from an instance that uses it.\<close>

lemma consul_drops_secure_key:
  "si_metadata (consul_into_instance ''s'' (consul_entry [] (consul_registration c
     (with_metadata SECURE_META_KEY ''mine'' (instance_new ''s'' ''h'' 80))))) = Map.empty"
  by (simp add: consul_into_instance_def consul_entry_def consul_registration_def with_metadata_def instance_new_def)

end
