(* ===== verification/RedisJobs.thy ===== *)
theory RedisJobs
  imports SqlJobs RedisStore "HOL-Library.AList"
begin

text \<open>
  The job queue over Redis (\<open>klauthed-platform/src/jobs/redis.rs\<close>): a hash per job and two sorted sets,
  and four Lua scripts, each of which the server runs atomically. A hash is an association list, a
  sorted set a list of members with scores; a missing key reads as empty. Scores are
  milliseconds, which a double holds exactly within the range of a timestamp. The formats of job ids
  and payloads are the \<open>job_codec\<close> of the SQL queue; the text of a number parser's error is a
  parameter.
\<close>

type_synonym zset = "(string \<times> int) list"

record job_keys =
  jk_hash :: "string \<Rightarrow> (string \<times> string) list"
  jk_zset :: "string \<Rightarrow> zset"

section \<open>Redis commands\<close>

definition zadd :: "string \<Rightarrow> string \<Rightarrow> int \<Rightarrow> job_keys \<Rightarrow> job_keys" where
  "zadd k m score db = db\<lparr>jk_zset := (jk_zset db)(k := (m, score) # filter (\<lambda>p. fst p \<noteq> m) (jk_zset db k))\<rparr>"

definition zrem :: "string \<Rightarrow> string \<Rightarrow> job_keys \<Rightarrow> job_keys" where
  "zrem k m db = db\<lparr>jk_zset := (jk_zset db)(k := filter (\<lambda>p. fst p \<noteq> m) (jk_zset db k))\<rparr>"

text \<open>\<open>ZRANGEBYSCORE ... WITHSCORES\<close>: by score, then by member.\<close>

definition zrangebyscore :: "string \<Rightarrow> (int \<Rightarrow> bool) \<Rightarrow> job_keys \<Rightarrow> (int \<times> string) list" where
  "zrangebyscore k p db = sort (map prod.swap (filter (\<lambda>x. p (snd x)) (jk_zset db k)))"

definition hset :: "string \<Rightarrow> string \<Rightarrow> string \<Rightarrow> job_keys \<Rightarrow> job_keys" where
  "hset k f v db = db\<lparr>jk_hash := (jk_hash db)(k := AList.update f v (jk_hash db k))\<rparr>"

definition hdel :: "string \<Rightarrow> string \<Rightarrow> job_keys \<Rightarrow> job_keys" where
  "hdel k f db = db\<lparr>jk_hash := (jk_hash db)(k := AList.delete f (jk_hash db k))\<rparr>"

definition hincrby :: "string \<Rightarrow> string \<Rightarrow> int \<Rightarrow> job_keys \<Rightarrow> (string + int) \<times> job_keys" where
  "hincrby k f n db =
     (case (case map_of (jk_hash db k) f of None \<Rightarrow> Some 0 | Some v \<Rightarrow> parse_i64 v) of
        None \<Rightarrow> (Inl ''ERR hash value is not an integer'', db)
      | Some v \<Rightarrow>
          if - (2 ^ 63) \<le> v + n \<and> v + n < 2 ^ 63 then (Inr (v + n), hset k f (show_int (v + n)) db)
          else (Inl ''ERR increment or decrement would overflow'', db))"

text \<open>\<open>tonumber\<close> on what \<open>HGET\<close> answers; the fields it reads hold decimal integers.\<close>

definition lua_number :: "string option \<Rightarrow> int option" where
  "lua_number v = Option.bind v parse_i64"

section \<open>The scripts\<close>

fun claim_items ::
  "string \<Rightarrow> string \<Rightarrow> string \<Rightarrow> (int \<times> string) list \<Rightarrow> job_keys \<Rightarrow> (string + string list) \<times> job_keys" where
  "claim_items due run pre [] db = (Inr [], db)"
| "claim_items due run pre ((score, i) # items) db =
     (let db1 = hset (pre @ i) ''status'' ''running'' (zadd run i score (zrem due i db))
      in case hincrby (pre @ i) ''attempts'' 1 db1 of
           (Inl e, db2) \<Rightarrow> (Inl e, db2)
         | (Inr _, db2) \<Rightarrow>
             (case claim_items due run pre items db2 of
                (Inl e, db3) \<Rightarrow> (Inl e, db3)
              | (Inr claimed, db3) \<Rightarrow> (Inr (i # claimed), db3)))"

text \<open>A Lua number is a double; the server hands it to a command with 17 significant digits, so a limit from
  \<open>10^17\<close> on arrives in scientific notation and is refused before anything is claimed. (Versions of the
  server differ in when they change the notation; the histories below keep to small limits.)\<close>

definition CLAIM_SCRIPT :: "string \<Rightarrow> string \<Rightarrow> int \<Rightarrow> int \<Rightarrow> string \<Rightarrow> job_keys \<Rightarrow> (string + string list) \<times> job_keys" where
  "CLAIM_SCRIPT due run now limit pre db =
     (let items = zrangebyscore due (\<lambda>score. score \<le> now) db
      in if 10 ^ 17 \<le> limit then (Inl ''ERR value is not an integer or out of range'', db)
         else claim_items due run pre (if limit < 0 then items else take (nat limit) items) db)"

definition SUCCEED_SCRIPT :: "string \<Rightarrow> string \<Rightarrow> string \<Rightarrow> job_keys \<Rightarrow> (string + int) \<times> job_keys" where
  "SUCCEED_SCRIPT run jk i db =
     (if jk_hash db jk = [] then (Inr 0, db)
      else (Inr 1, zrem run i (hdel jk ''last_error'' (hset jk ''status'' ''succeeded'' db))))"

text \<open>\<open>math.min(2 ^ math.min(attempts - 1, 12), 3600) * 1000\<close>; Lua numbers are doubles, so the power has
  a half at no attempts.\<close>

definition backoff_millis :: "int \<Rightarrow> int" where
  "backoff_millis attempts =
     (if attempts \<le> 0 then 1000 div 2 ^ nat (1 - attempts) else min (2 ^ nat (min (attempts - 1) 12)) 3600 * 1000)"

definition FAIL_SCRIPT ::
  "string \<Rightarrow> string \<Rightarrow> string \<Rightarrow> string \<Rightarrow> int \<Rightarrow> string \<Rightarrow> job_keys \<Rightarrow> (string + int) \<times> job_keys" where
  "FAIL_SCRIPT due run jk i now reason db =
     (if jk_hash db jk = [] then (Inr 0, db)
      else (let attempts = lua_number (map_of (jk_hash db jk) ''attempts'');
                max_attempts = lua_number (map_of (jk_hash db jk) ''max_attempts'');
                db1 = zrem run i (hset jk ''last_error'' reason db)
            in case (attempts, max_attempts) of
                 (Some a, Some m) \<Rightarrow>
                   (Inr 1, if m \<le> a then hset jk ''status'' ''failed'' db1
                           else zadd due i (now + backoff_millis a) (hset jk ''status'' ''queued'' db1))
               | _ \<Rightarrow> (Inl ''ERR attempt to compare nil with number'', db1)))"

fun recover_items :: "string \<Rightarrow> string \<Rightarrow> int \<Rightarrow> string \<Rightarrow> string list \<Rightarrow> job_keys \<Rightarrow> job_keys" where
  "recover_items run due now pre [] db = db"
| "recover_items run due now pre (i # ids) db =
     recover_items run due now pre ids
       (hset (pre @ i) ''run_at'' (show_int now) (hset (pre @ i) ''status'' ''queued'' (zadd due i now (zrem run i db))))"

definition RECOVER_SCRIPT :: "string \<Rightarrow> string \<Rightarrow> int \<Rightarrow> int \<Rightarrow> string \<Rightarrow> job_keys \<Rightarrow> (string + string list) \<times> job_keys" where
  "RECOVER_SCRIPT run due cutoff now pre db =
     (let ids = map snd (zrangebyscore run (\<lambda>score. score < cutoff) db)
      in (Inr ids, recover_items run due now pre ids db))"

section \<open>The queue\<close>

definition redis_err :: "string \<Rightarrow> platform_error" where
  "redis_err m = PE_Backend (''job queue (redis): '' @ m)"

record redis_job_queue =
  rq_default_max_attempts :: u32
  rq_prefix :: string

definition redis_jobs_new :: redis_job_queue where
  "redis_jobs_new = \<lparr>rq_default_max_attempts = DEFAULT_MAX_ATTEMPTS, rq_prefix = ''klauthed:jobs''\<rparr>"

definition redis_jobs_with_prefix :: "string \<Rightarrow> redis_job_queue \<Rightarrow> redis_job_queue" where
  "redis_jobs_with_prefix p s = s\<lparr>rq_prefix := p\<rparr>"

definition redis_jobs_with_max_attempts :: "u32 \<Rightarrow> redis_job_queue \<Rightarrow> redis_job_queue" where
  "redis_jobs_with_max_attempts n s = s\<lparr>rq_default_max_attempts := max n 1\<rparr>"

definition due_key :: "redis_job_queue \<Rightarrow> string" where
  "due_key s = rq_prefix s @ '':due''"

definition run_key :: "redis_job_queue \<Rightarrow> string" where
  "run_key s = rq_prefix s @ '':run''"

definition job_prefix :: "redis_job_queue \<Rightarrow> string" where
  "job_prefix s = rq_prefix s @ '':j:''"

definition job_key :: "job_codec \<Rightarrow> redis_job_queue \<Rightarrow> nat \<Rightarrow> string" where
  "job_key K s i = job_prefix s @ jid_show K i"

type_synonym 'a redis_jobs = "job_keys redis_conn \<Rightarrow> (platform_error + 'a) \<times> job_keys redis_conn"

definition job_fields_of :: "enqueued_job \<Rightarrow> string \<Rightarrow> (string \<times> string) list" where
  "job_fields_of job payload_str =
     [(''kind'', ej_kind job), (''payload'', payload_str), (''run_at'', show_int (unix_millis (ej_run_at job))),
      (''attempts'', ''0''), (''max_attempts'', show_nat (unat (ej_max_attempts job))), (''status'', ''queued''),
      (''created_at'', show_int (unix_millis (ej_created_at job)))]"

text \<open>The atomic pipeline of \<open>HSET\<close> and \<open>ZADD\<close>.\<close>

definition insert_pipe :: "string \<Rightarrow> string \<Rightarrow> (string \<times> string) list \<Rightarrow> string \<Rightarrow> int \<Rightarrow> job_keys \<Rightarrow> (string + unit) \<times> job_keys" where
  "insert_pipe jk due fvs i score db = (Inr (), zadd due i score (fold (\<lambda>(f, v). hset jk f v) fvs db))"

definition redis_jobs_insert ::
  "job_codec \<Rightarrow> redis_env \<Rightarrow> redis_job_queue \<Rightarrow> nat \<Rightarrow> timestamp \<Rightarrow> string \<Rightarrow> json \<Rightarrow> timestamp \<Rightarrow> enqueued_job redis_jobs" where
  "redis_jobs_insert K E s i now kind payload run_at conn =
     (let job = \<lparr>ej_id = i, ej_kind = kind, ej_payload = payload, ej_run_at = run_at, ej_attempts = 0,
                 ej_max_attempts = rq_default_max_attempts s, ej_status = Queued, ej_created_at = now,
                 ej_last_error = None\<rparr>
      in case payload_show K (ej_payload job) of
           Inl e \<Rightarrow> (Inl (PE_Backend (''serialize job payload: '' @ e)), conn)
         | Inr payload_str \<Rightarrow>
             redis_bind (redis_cmd_as redis_err E
                 (insert_pipe (job_key K s (ej_id job)) (due_key s) (job_fields_of job payload_str)
                    (jid_show K (ej_id job)) (unix_millis (ej_run_at job))) conn)
               (\<lambda>_ conn1. (Inr job, conn1)))"

definition hash_field :: "string \<Rightarrow> (string \<times> string) list \<Rightarrow> string \<Rightarrow> platform_error + string" where
  "hash_field i h name =
     (case map_of h name of
        None \<Rightarrow> Inl (PE_Backend (''job '' @ i @ '' missing field '' @ quoted name))
      | Some v \<Rightarrow> Inr v)"

definition hash_num :: "(string \<Rightarrow> string) \<Rightarrow> string \<Rightarrow> (string \<times> string) list \<Rightarrow> string \<Rightarrow> platform_error + int" where
  "hash_num int_err i h name =
     (case hash_field i h name of
        Inl e \<Rightarrow> Inl e
      | Inr v \<Rightarrow>
          (case parse_i64 v of
             None \<Rightarrow> Inl (PE_Backend (''job '' @ i @ '' field '' @ quoted name @ '' not an integer: '' @ int_err v))
           | Some n \<Rightarrow> Inr n))"

definition sum_bind :: "'e + 'a \<Rightarrow> ('a \<Rightarrow> 'e + 'b) \<Rightarrow> 'e + 'b" where
  "sum_bind x f = (case x of Inl e \<Rightarrow> Inl e | Inr a \<Rightarrow> f a)"

definition hash_to_job ::
  "job_codec \<Rightarrow> (string \<Rightarrow> string) \<Rightarrow> time_range \<Rightarrow> string \<Rightarrow> (string \<times> string) list \<Rightarrow> platform_error + enqueued_job" where
  "hash_to_job K int_err R i h =
     (case jid_parse K i of
        Inl e \<Rightarrow> Inl (PE_Backend (''invalid job id '' @ quoted i @ '': '' @ e))
      | Inr id_parsed \<Rightarrow>
          sum_bind (hash_field i h ''payload'') (\<lambda>text.
            case payload_parse K text of
              Inl e \<Rightarrow> Inl (PE_Backend (''invalid job payload json: '' @ e))
            | Inr payload \<Rightarrow>
                sum_bind (hash_field i h ''status'') (\<lambda>st. sum_bind (parse_status st) (\<lambda>status.
                sum_bind (hash_field i h ''kind'') (\<lambda>kind.
                sum_bind (hash_num int_err i h ''run_at'') (\<lambda>run_at.
                sum_bind (hash_num int_err i h ''attempts'') (\<lambda>attempts.
                sum_bind (hash_num int_err i h ''max_attempts'') (\<lambda>max_attempts.
                sum_bind (hash_num int_err i h ''created_at'') (\<lambda>created_at.
                  Inr \<lparr>ej_id = id_parsed, ej_kind = kind, ej_payload = payload,
                       ej_run_at = from_unix_millis R run_at, ej_attempts = u32_or_max attempts,
                       ej_max_attempts = u32_or_max max_attempts, ej_status = status,
                       ej_created_at = from_unix_millis R created_at,
                       ej_last_error = map_of h ''last_error''\<rparr>)))))))))"

fun load_jobs ::
  "job_codec \<Rightarrow> (string \<Rightarrow> string) \<Rightarrow> time_range \<Rightarrow> redis_env \<Rightarrow> redis_job_queue \<Rightarrow> string list \<Rightarrow> enqueued_job list redis_jobs" where
  "load_jobs K int_err R E s [] conn = (Inr [], conn)"
| "load_jobs K int_err R E s (i # ids) conn =
     redis_bind (redis_cmd_as redis_err E (\<lambda>db. (Inr (jk_hash db (job_prefix s @ i)), db)) conn)
       (\<lambda>h conn1. case hash_to_job K int_err R i h of
          Inl e \<Rightarrow> (Inl e, conn1)
        | Inr job \<Rightarrow> redis_bind (load_jobs K int_err R E s ids conn1) (\<lambda>jobs conn2. (Inr (job # jobs), conn2)))"

definition redis_jobs_enqueue ::
  "job_codec \<Rightarrow> redis_env \<Rightarrow> redis_job_queue \<Rightarrow> nat \<Rightarrow> timestamp \<Rightarrow> timestamp \<Rightarrow> string \<Rightarrow> json \<Rightarrow> enqueued_job redis_jobs" where
  "redis_jobs_enqueue K E s i now now' kind payload = redis_jobs_insert K E s i now' kind payload now"

definition redis_jobs_schedule ::
  "job_codec \<Rightarrow> redis_env \<Rightarrow> redis_job_queue \<Rightarrow> nat \<Rightarrow> timestamp \<Rightarrow> string \<Rightarrow> json \<Rightarrow> timestamp \<Rightarrow> enqueued_job redis_jobs" where
  "redis_jobs_schedule K E s i now kind payload run_at = redis_jobs_insert K E s i now kind payload run_at"

definition claim_limit :: "nat option \<Rightarrow> int" where
  "claim_limit limit = (case limit of None \<Rightarrow> - 1 | Some n \<Rightarrow> i64_or_max (int n))"

definition redis_jobs_dequeue_due ::
  "job_codec \<Rightarrow> (string \<Rightarrow> string) \<Rightarrow> time_range \<Rightarrow> redis_env \<Rightarrow> redis_job_queue \<Rightarrow> timestamp \<Rightarrow> nat option \<Rightarrow> enqueued_job list redis_jobs" where
  "redis_jobs_dequeue_due K int_err R E s now limit conn =
     redis_bind (redis_cmd_as redis_err E
         (CLAIM_SCRIPT (due_key s) (run_key s) (unix_millis now) (claim_limit limit) (job_prefix s)) conn)
       (load_jobs K int_err R E s)"

definition redis_jobs_mark_succeeded :: "job_codec \<Rightarrow> redis_env \<Rightarrow> redis_job_queue \<Rightarrow> nat \<Rightarrow> unit redis_jobs" where
  "redis_jobs_mark_succeeded K E s i conn =
     redis_bind (redis_cmd_as redis_err E (SUCCEED_SCRIPT (run_key s) (job_key K s i) (jid_show K i)) conn)
       (\<lambda>existed conn1. (if existed = 0 then Inl (PE_JobNotFound (jid_show K i)) else Inr (), conn1))"

definition redis_jobs_mark_failed ::
  "job_codec \<Rightarrow> redis_env \<Rightarrow> redis_job_queue \<Rightarrow> timestamp \<Rightarrow> nat \<Rightarrow> string \<Rightarrow> unit redis_jobs" where
  "redis_jobs_mark_failed K E s now i reason conn =
     redis_bind (redis_cmd_as redis_err E
         (FAIL_SCRIPT (due_key s) (run_key s) (job_key K s i) (jid_show K i) (unix_millis now) reason) conn)
       (\<lambda>existed conn1. (if existed = 0 then Inl (PE_JobNotFound (jid_show K i)) else Inr (), conn1))"

definition redis_jobs_dequeue_stalled ::
  "job_codec \<Rightarrow> (string \<Rightarrow> string) \<Rightarrow> time_range \<Rightarrow> redis_env \<Rightarrow> redis_job_queue \<Rightarrow> timestamp \<Rightarrow> duration \<Rightarrow> enqueued_job list redis_jobs" where
  "redis_jobs_dequeue_stalled K int_err R E s now stall_after conn =
     (let stall_ms = i64_or_max (whole_milliseconds stall_after);
          cutoff = i64_saturating_sub (unix_millis now) stall_ms
      in redis_bind (redis_cmd_as redis_err E
             (RECOVER_SCRIPT (run_key s) (due_key s) cutoff (unix_millis now) (job_prefix s)) conn)
           (load_jobs K int_err R E s))"

fun redis_answer ::
  "job_codec \<Rightarrow> (string \<Rightarrow> string) \<Rightarrow> time_range \<Rightarrow> redis_env \<Rightarrow> redis_job_queue \<Rightarrow> job_op \<Rightarrow> enqueued_job list redis_jobs" where
  "redis_answer K int_err R E s (JSchedule i now kind payload run_at) conn =
     answer_map (\<lambda>j. [j]) (redis_jobs_schedule K E s i now kind payload run_at conn)"
| "redis_answer K int_err R E s (JDequeue now limit) conn = redis_jobs_dequeue_due K int_err R E s now limit conn"
| "redis_answer K int_err R E s (JSucceed i) conn = answer_map (\<lambda>_. []) (redis_jobs_mark_succeeded K E s i conn)"
| "redis_answer K int_err R E s (JFail now i reason) conn = answer_map (\<lambda>_. []) (redis_jobs_mark_failed K E s now i reason conn)"
| "redis_answer K int_err R E s (JStalled now d) conn = redis_jobs_dequeue_stalled K int_err R E s now d conn"

section \<open>One owner per claim\<close>

text \<open>What the server sees of any number of clients: the commands that change the keys, in some order.
  A request that is lost is none of them; an answer that is lost is one nobody reads.\<close>

datatype job_cmd = CmdInsert "(string \<times> string) list" string int | CmdClaim int int | CmdSucceed string
  | CmdFail string int string | CmdRecover int int

fun run_cmd :: "redis_job_queue \<Rightarrow> job_cmd \<Rightarrow> job_keys \<Rightarrow> (string + string list) \<times> job_keys" where
  "run_cmd s (CmdInsert fvs i score) db = answer_map (\<lambda>_. []) (insert_pipe (job_prefix s @ i) (due_key s) fvs i score db)"
| "run_cmd s (CmdClaim now limit) db = CLAIM_SCRIPT (due_key s) (run_key s) now limit (job_prefix s) db"
| "run_cmd s (CmdSucceed i) db = answer_map (\<lambda>_. []) (SUCCEED_SCRIPT (run_key s) (job_prefix s @ i) i db)"
| "run_cmd s (CmdFail i now reason) db =
     answer_map (\<lambda>_. []) (FAIL_SCRIPT (due_key s) (run_key s) (job_prefix s @ i) i now reason db)"
| "run_cmd s (CmdRecover cutoff now) db = RECOVER_SCRIPT (run_key s) (due_key s) cutoff now (job_prefix s) db"

fun requeues :: "string \<Rightarrow> job_cmd \<Rightarrow> bool" where
  "requeues i (CmdInsert fvs j score) \<longleftrightarrow> j = i"
| "requeues i (CmdFail j now reason) \<longleftrightarrow> j = i"
| "requeues i _ \<longleftrightarrow> False"

fun is_claim :: "job_cmd \<Rightarrow> bool" where
  "is_claim (CmdClaim now limit) \<longleftrightarrow> True"
| "is_claim _ \<longleftrightarrow> False"

fun is_recovery :: "job_cmd \<Rightarrow> bool" where
  "is_recovery (CmdRecover cutoff now) \<longleftrightarrow> True"
| "is_recovery _ \<longleftrightarrow> False"

definition answered :: "string \<Rightarrow> string + string list \<Rightarrow> bool" where
  "answered i a = (case a of Inl _ \<Rightarrow> False | Inr ids \<Rightarrow> i \<in> set ids)"

definition members :: "string \<Rightarrow> job_keys \<Rightarrow> string set" where
  "members k db = fst ` set (jk_zset db k)"

lemma due_not_run [simp]: "due_key s \<noteq> run_key s" "run_key s \<noteq> due_key s"
  by (simp_all add: due_key_def run_key_def)

lemma zset_simps [simp]:
  "jk_zset (hset k f v db) = jk_zset db" "jk_zset (hdel k f db) = jk_zset db"
  "jk_zset (snd (hincrby k f n db)) = jk_zset db"
  "jk_zset (zadd k m score db) k' = (if k' = k then (m, score) # filter (\<lambda>p. fst p \<noteq> m) (jk_zset db k) else jk_zset db k')"
  "jk_zset (zrem k m db) k' = (if k' = k then filter (\<lambda>p. fst p \<noteq> m) (jk_zset db k) else jk_zset db k')"
  by (auto simp: hset_def hdel_def hincrby_def zadd_def zrem_def split: option.splits)

lemma hash_simps [simp]:
  "jk_hash (zadd k m score db) = jk_hash db" "jk_hash (zrem k m db) = jk_hash db"
  "jk_hash (hset k f v db) k' = (if k' = k then AList.update f v (jk_hash db k) else jk_hash db k')"
  "jk_hash (hdel k f db) k' = (if k' = k then AList.delete f (jk_hash db k) else jk_hash db k')"
  by (simp_all add: zadd_def zrem_def hset_def hdel_def)

lemma zset_fold_hset [simp]: "jk_zset (fold (\<lambda>(f, v). hset k f v) fvs db) = jk_zset db"
  by (induction fvs arbitrary: db) auto

lemma members_simps [simp]:
  "members k (hset jk f v db) = members k db" "members k (hdel jk f db) = members k db"
  "members k (snd (hincrby jk f n db)) = members k db"
  "members k (fold (\<lambda>(f, v). hset jk f v) fvs db) = members k db"
  "members k (zadd k' m score db) = (if k = k' then insert m (members k db) else members k db)"
  "members k (zrem k' m db) = (if k = k' then members k db - {m} else members k db)"
  by (auto simp: members_def)

lemma claim_items_members:
  "claim_items due run pre items db = (a, db') \<Longrightarrow> due \<noteq> run \<Longrightarrow>
    members due db' \<subseteq> members due db \<and> (\<forall>ids. a = Inr ids \<longrightarrow> ids = map snd items \<and> members due db' \<inter> set ids = {})"
proof (induction due run pre items db arbitrary: a db' rule: claim_items.induct)
  case (2 due run pre score i items db)
  let ?db = "hset (pre @ i) ''status'' ''running'' (zadd run i score (zrem due i db))"
  obtain n db2 where h: "hincrby (pre @ i) ''attempts'' 1 ?db = (n, db2)" by fastforce
  have "members due db2 = members due (snd (hincrby (pre @ i) ''attempts'' 1 ?db))" by (simp only: h snd_conv)
  with 2(3) have m: "members due db2 = members due db - {i}" by simp
  show ?case
  proof (cases n)
    case (Inl e)
    with 2 h m show ?thesis by (auto simp: Let_def)
  next
    case (Inr v)
    obtain b db3 where c: "claim_items due run pre items db2 = (b, db3)" by fastforce
    from 2(1) [OF refl h [symmetric] Inr c 2(3)] 2(2) h Inr c m show ?thesis
      by (cases b) (auto simp: Let_def disjoint_iff dest: subsetD)
  qed
qed simp

lemma claim_members:
  assumes "CLAIM_SCRIPT due run now limit pre db = (a, db')" and "due \<noteq> run"
  shows "members due db' \<subseteq> members due db"
    and "answered i a \<Longrightarrow> i \<in> members due db \<and> i \<notin> members due db'"
proof -
  let ?all = "zrangebyscore due (\<lambda>score. score \<le> now) db"
  let ?items = "if limit < 0 then ?all else take (nat limit) ?all"
  have c: "claim_items due run pre ?items db = (a, db') \<or> (\<exists>e. a = Inl e) \<and> db' = db"
    using assms(1) by (auto simp: CLAIM_SCRIPT_def Let_def split: if_splits)
  have m: "members due db' \<subseteq> members due db \<and> (\<forall>ids. a = Inr ids \<longrightarrow> ids = map snd ?items \<and> members due db' \<inter> set ids = {})"
    using c claim_items_members [of due run pre ?items db a db'] assms(2) by auto
  then show "members due db' \<subseteq> members due db" by simp
  have "snd ` set ?items \<subseteq> members due db"
    by (force simp: zrangebyscore_def members_def prod.swap_def dest!: in_set_takeD split: if_splits)
  then show "answered i a \<Longrightarrow> i \<in> members due db \<and> i \<notin> members due db'"
    using m by (auto simp: answered_def split: sum.splits)
qed

lemma recover_items_members:
  "due \<noteq> run \<Longrightarrow> members due (recover_items run due now pre ids db) = members due db \<union> set ids"
  by (induction ids arbitrary: db) auto

lemma not_due_step:
  assumes "run_cmd s c db = (a, db')" and "i \<notin> members (due_key s) db" and "\<not> requeues i c"
    and "is_recovery c \<Longrightarrow> \<not> answered i a"
  shows "i \<notin> members (due_key s) db' \<and> (is_claim c \<longrightarrow> \<not> answered i a)"
proof (cases c)
  case (CmdClaim now limit)
  with claim_members [of "due_key s" "run_key s" now limit "job_prefix s" db a db'] assms(1,2) show ?thesis by auto
next
  case (CmdRecover cutoff now)
  with assms show ?thesis by (auto simp: RECOVER_SCRIPT_def Let_def recover_items_members answered_def)
qed (use assms in \<open>auto simp: answer_map_def insert_pipe_def SUCCEED_SCRIPT_def FAIL_SCRIPT_def Let_def split: if_splits option.splits\<close>)

lemma not_due_run:
  assumes "i \<notin> members (due_key s) db" and "\<forall>c \<in> set cmds. \<not> requeues i c"
    and "\<forall>(c, a) \<in> set (zip cmds (answers (run_cmd s) cmds db)). is_recovery c \<longrightarrow> \<not> answered i a"
  shows "\<forall>(c, a) \<in> set (zip cmds (answers (run_cmd s) cmds db)). is_claim c \<longrightarrow> \<not> answered i a"
  using assms
proof (induction cmds arbitrary: db)
  case (Cons c cmds)
  obtain a db' where r: "run_cmd s c db = (a, db')" by fastforce
  with Cons.prems not_due_step [OF r Cons.prems(1)]
  have step: "i \<notin> members (due_key s) db'" "is_claim c \<longrightarrow> \<not> answered i a" by auto
  from Cons.IH [OF step(1)] Cons.prems r step(2) show ?case by auto
qed simp

text \<open>C28: a job claimed from Redis has one owner. Once a claim has answered a job, no claim of any client
  answers it again, whatever commands the server runs in whatever order and whatever requests and
  answers are lost, until the job is reported failed, recovered from a stall or inserted again.\<close>

theorem redis_job_claim_exclusive:
  assumes "run_cmd s (CmdClaim now limit) db = (Inr ids, db')" and "i \<in> set ids"
    and "\<forall>c \<in> set cmds. \<not> requeues i c"
    and "\<forall>(c, a) \<in> set (zip cmds (answers (run_cmd s) cmds db')). is_recovery c \<longrightarrow> \<not> answered i a"
  shows "\<forall>(c, a) \<in> set (zip cmds (answers (run_cmd s) cmds db')). is_claim c \<longrightarrow> \<not> answered i a"
proof -
  have "i \<notin> members (due_key s) db'"
    using claim_members(2) [of "due_key s" "run_key s" now limit "job_prefix s" db "Inr ids" db' i] assms(1,2)
    by (simp add: answered_def)
  then show ?thesis by (rule not_due_run [OF _ assms(3,4)])
qed

definition empty_keys :: job_keys where
  "empty_keys = \<lparr>jk_hash = (\<lambda>_. []), jk_zset = (\<lambda>_. [])\<rparr>"

theorem redis_job_claim_exclusive_witness:
  "\<exists>db'. run_cmd redis_jobs_new (CmdClaim 5 (-1))
      (snd (run_cmd redis_jobs_new (CmdInsert [(''attempts'', ''0'')] ''a'' 3) empty_keys)) = (Inr [''a''], db')
   \<and> (\<forall>(c, a) \<in> set (zip [CmdSucceed ''b'', CmdClaim 9 4] (answers (run_cmd redis_jobs_new) [CmdSucceed ''b'', CmdClaim 9 4] db')).
        is_claim c \<longrightarrow> \<not> answered ''a'' a)"
proof -
  let ?r = "run_cmd redis_jobs_new (CmdClaim 5 (-1))
      (snd (run_cmd redis_jobs_new (CmdInsert [(''attempts'', ''0'')] ''a'' 3) empty_keys))"
  have "parse_i64 ''0'' = Some 0" by (simp add: parse_i64_def parse_unsigned_def strip_plus_def is_digit_def digits_value_def)
  then have "fst ?r = Inr [''a'']"
    by (simp add: CLAIM_SCRIPT_def zrangebyscore_def insert_pipe_def answer_map_def empty_keys_def hincrby_def)
  then have r: "?r = (Inr [''a''], snd ?r)" by (simp only: prod_eq_iff fst_conv snd_conv simp_thms)
  let ?cmds = "[CmdSucceed ''b'', CmdClaim 9 4]"
  have "\<forall>(c, a) \<in> set (zip ?cmds as). is_recovery c \<longrightarrow> \<not> answered ''a'' a" for as
    by (fastforce dest: set_zip_leftD)
  moreover have "\<forall>c \<in> set ?cmds. \<not> requeues ''a'' c" by simp
  ultimately have "\<forall>(c, a) \<in> set (zip ?cmds (answers (run_cmd redis_jobs_new) ?cmds (snd ?r))). is_claim c \<longrightarrow> \<not> answered ''a'' a"
    by (intro redis_job_claim_exclusive [OF r]) simp_all
  with r show ?thesis by blast
qed

text \<open>Reporting success takes a job out of the running set only. A job that was recovered from a stall while
  its first worker was still at it stays due after that worker's success, and is handed out again.\<close>

lemma succeed_keeps_due: "jk_zset (snd (run_cmd s (CmdSucceed i) db)) (due_key s) = jk_zset db (due_key s)"
  by (simp add: answer_map_def SUCCEED_SCRIPT_def)

theorem redis_succeeded_job_runs_again:
  "answers (run_cmd redis_jobs_new)
     [CmdInsert [(''attempts'', ''0'')] ''a'' 0, CmdClaim 0 (-1), CmdRecover 5 9, CmdSucceed ''a'', CmdClaim 9 (-1)] empty_keys
   = [Inr [], Inr [''a''], Inr [''a''], Inr [], Inr [''a'']]"
proof -
  have "parse_i64 ''0'' = Some 0" by (simp add: parse_i64_def parse_unsigned_def strip_plus_def is_digit_def digits_value_def)
  moreover have "parse_i64 (show_int 1) = Some 1" by (simp add: parse_show_i64 i64_range_def)
  ultimately show ?thesis
    by (simp add: CLAIM_SCRIPT_def RECOVER_SCRIPT_def SUCCEED_SCRIPT_def zrangebyscore_def insert_pipe_def answer_map_def
        empty_keys_def hincrby_def update_conv delete_conv)
qed

section \<open>The keys simulate the in-memory queue\<close>

definition hash_matches :: "job_codec \<Rightarrow> time_range \<Rightarrow> enqueued_job \<Rightarrow> (string \<times> string) list \<Rightarrow> bool" where
  "hash_matches K R j h \<longleftrightarrow>
     map_of h ''kind'' = Some (ej_kind j) \<and> map_of h ''payload'' = Some (projr (payload_show K (ej_payload j))) \<and>
     map_of h ''attempts'' = Some (show_int (uint (ej_attempts j))) \<and>
     map_of h ''max_attempts'' = Some (show_int (uint (ej_max_attempts j))) \<and>
     map_of h ''status'' = Some (status_str (ej_status j)) \<and>
     map_of h ''created_at'' = Some (show_int (unix_millis (ej_created_at j))) \<and>
     map_of h ''last_error'' = ej_last_error j \<and>
     (\<exists>t. millis_exact R t \<and> map_of h ''run_at'' = Some (show_int (unix_millis t)))"

definition zset_of :: "job_codec \<Rightarrow> job_status \<Rightarrow> enqueued_job list \<Rightarrow> zset \<Rightarrow> bool" where
  "zset_of K st js z \<longleftrightarrow> distinct (map fst z) \<and>
     set z = (\<lambda>j. (jid_show K (ej_id j), unix_millis (ej_run_at j))) ` {j \<in> set js. ej_status j = st}"

definition keys_rel :: "job_codec \<Rightarrow> time_range \<Rightarrow> redis_job_queue \<Rightarrow> job_keys \<Rightarrow> job_queue \<Rightarrow> bool" where
  "keys_rel K R s db q \<longleftrightarrow>
     queue_ok q \<and> rq_default_max_attempts s = jq_default_max_attempts q \<and>
     (\<forall>j \<in> set (jq_jobs q). job_storable K R j \<and> (ej_status j = Running \<longrightarrow> ej_attempts j \<noteq> 0) \<and>
        hash_matches K R j (jk_hash db (job_key K s (ej_id j)))) \<and>
     (\<forall>i. i \<notin> ej_id ` set (jq_jobs q) \<longrightarrow> jk_hash db (job_key K s i) = []) \<and>
     zset_of K Queued (jq_jobs q) (jk_zset db (due_key s)) \<and> zset_of K Running (jq_jobs q) (jk_zset db (run_key s))"

text \<open>A claim answers a job with the run time its hash was given by the last insert or recovery; a retry
  moves the job in the sorted set only. The comparison leaves that field out.\<close>

definition unrun :: "enqueued_job \<Rightarrow> enqueued_job" where
  "unrun j = j\<lparr>ej_run_at := 0\<rparr>"

lemma uint_i64: "i64_range (uint (w :: u32))"
  using uint_lt2p [of w] by (auto simp: i64_range_def intro: order_trans [OF _ uint_ge_0])

lemma millis_i64: "range_ok R \<Longrightarrow> millis_exact R t \<Longrightarrow> i64_range (unix_millis t)"
  using millis_exact(3,4) by (simp add: i64_range_def)

lemma hash_decodes:
  assumes "job_codec_ok K" and "range_ok R" and "job_storable K R j" and "hash_matches K R j h"
  shows "\<exists>t. hash_to_job K int_err R (jid_show K (ej_id j)) h = Inr (j\<lparr>ej_run_at := t\<rparr>)"
proof -
  obtain t where t: "millis_exact R t" "map_of h ''run_at'' = Some (show_int (unix_millis t))"
    using assms(4) by (auto simp: hash_matches_def)
  note parse = parse_show_i64 [OF uint_i64] parse_show_i64 [OF millis_i64 [OF assms(2)]]
  have "payload_parse K (projr (payload_show K (ej_payload j))) = Inr (ej_payload j)"
    using assms(3) by (auto simp: job_storable_def payload_ok_def split: sum.splits)
  then show ?thesis
    using assms t millis_exact(2) [OF assms(2)]
    by (auto simp: hash_matches_def hash_to_job_def job_codec_ok_def hash_num_def hash_field_def sum_bind_def parse
        status_roundtrip job_storable_def intro!: exI [of _ t])
qed

lemma job_key_eq: "job_codec_ok K \<Longrightarrow> job_key K s i = job_key K s j \<longleftrightarrow> i = j"
  by (simp add: job_key_def jid_show_eq)

definition zput :: "bool \<Rightarrow> string \<Rightarrow> int \<Rightarrow> zset \<Rightarrow> zset" where
  "zput b m score z = (if b then (m, score) # filter (\<lambda>p. fst p \<noteq> m) z else filter (\<lambda>p. fst p \<noteq> m) z)"

lemma zset_of_put:
  assumes "job_codec_ok K" and "zset_of K st js z" and "distinct (map ej_id js)" and "j \<in> set js" and "ej_id j' = ej_id j"
  shows "zset_of K st (job_put j' js) (zput (ej_status j' = st) (jid_show K (ej_id j)) (unix_millis (ej_run_at j')) z)"
proof -
  have put: "set (job_put j' js) = insert j' {x \<in> set js. ej_id x \<noteq> ej_id j}"
    using assms(3-5) by (auto simp: job_put_def)
  have "distinct (map fst (filter p z))" for p
    using assms(2) by (simp add: zset_of_def distinct_map inj_on_def)
  then show ?thesis
    using assms(2,5) unfolding zset_of_def put zput_def
    by (auto simp: jid_show_eq [OF assms(1)] intro: rev_image_eqI [where x = j'])
qed

lemma keys_rel_put:
  assumes "job_codec_ok K" and rel: "keys_rel K R s db q" and "j \<in> set (jq_jobs q)" and "ej_id j' = ej_id j"
    and "job_storable K R j'" and "ej_status j' = Running \<longrightarrow> ej_attempts j' \<noteq> 0"
    and "hash_matches K R j' (jk_hash db' (job_key K s (ej_id j)))"
    and "\<And>k. k \<noteq> job_key K s (ej_id j) \<Longrightarrow> jk_hash db' k = jk_hash db k"
    and "jk_zset db' (due_key s) =
      zput (ej_status j' = Queued) (jid_show K (ej_id j)) (unix_millis (ej_run_at j')) (jk_zset db (due_key s))"
    and "jk_zset db' (run_key s) =
      zput (ej_status j' = Running) (jid_show K (ej_id j)) (unix_millis (ej_run_at j')) (jk_zset db (run_key s))"
  shows "keys_rel K R s db' (q\<lparr>jq_jobs := job_put j' (jq_jobs q)\<rparr>)"
proof -
  have d: "distinct (map ej_id (jq_jobs q))" using rel by (simp add: keys_rel_def queue_ok_def)
  have put: "set (job_put j' (jq_jobs q)) = insert j' {x \<in> set (jq_jobs q). ej_id x \<noteq> ej_id j}"
    using assms(3,4) by (auto simp: job_put_def)
  have "jk_hash db' (job_key K s (ej_id x)) = jk_hash db (job_key K s (ej_id x))" if "ej_id x \<noteq> ej_id j" for x :: enqueued_job
    using that by (intro assms(8)) (simp add: job_key_eq [OF assms(1)])
  then have "\<forall>x \<in> set (job_put j' (jq_jobs q)). job_storable K R x \<and> (ej_status x = Running \<longrightarrow> ej_attempts x \<noteq> 0) \<and>
      hash_matches K R x (jk_hash db' (job_key K s (ej_id x)))"
    using rel assms(4-7) by (auto simp: keys_rel_def put)
  moreover have "jk_hash db' (job_key K s i) = []" if "i \<notin> ej_id ` set (jq_jobs q)" for i
  proof -
    have "job_key K s i \<noteq> job_key K s (ej_id j)" using that assms(3) by (auto simp: job_key_eq [OF assms(1)])
    with assms(8) have "jk_hash db' (job_key K s i) = jk_hash db (job_key K s i)" .
    with that rel show ?thesis by (simp add: keys_rel_def)
  qed
  moreover have "zset_of K st (job_put j' (jq_jobs q)) (zput (ej_status j' = st) (jid_show K (ej_id j)) (unix_millis (ej_run_at j')) z)"
    if "zset_of K st (jq_jobs q) z" for st z
    by (rule zset_of_put [OF assms(1) that d assms(3,4)])
  ultimately show ?thesis
    using rel assms(9,10) by (simp add: keys_rel_def queue_ok_def)
qed

lemma zset_member:
  "zset_of K st js z \<Longrightarrow> p \<in> set z \<Longrightarrow> \<exists>x \<in> set js. ej_status x = st \<and> fst p = jid_show K (ej_id x)"
  by (auto simp: zset_of_def)

lemma zset_of_Cons:
  assumes "zset_of K st js z" and "\<forall>p \<in> set z. fst p \<noteq> jid_show K (ej_id job)"
  shows "zset_of K st (job # js) (if ej_status job = st then (jid_show K (ej_id job), unix_millis (ej_run_at job)) # z else z)"
proof -
  have "{j \<in> set (job # js). ej_status j = st}
      = (if ej_status job = st then insert job {j \<in> set js. ej_status j = st} else {j \<in> set js. ej_status j = st})" by auto
  with assms show ?thesis unfolding zset_of_def by force
qed

text \<open>A member that is not in a sorted set.\<close>

lemma zput_absent:
  assumes "job_codec_ok K" and "zset_of K st js z" and "distinct (map ej_id js)" and "j \<in> set js" and "ej_status j \<noteq> st"
  shows "zput False (jid_show K (ej_id j)) score z = z"
proof -
  have "fst p \<noteq> jid_show K (ej_id j)" if p: "p \<in> set z" for p
  proof -
    obtain x where x: "x \<in> set js" "ej_status x = st" "fst p = jid_show K (ej_id x)"
      using zset_member [OF assms(2) p] by blast
    then have "x \<noteq> j" using assms(5) by auto
    then have "ej_id x \<noteq> ej_id j" using x(1) assms(3,4) by (auto simp: distinct_map dest: inj_onD)
    with x(3) show ?thesis by (simp add: jid_show_eq [OF assms(1)])
  qed
  then show ?thesis by (simp add: zput_def filter_id_conv)
qed

lemma hash_matches_nonempty: "hash_matches K R j h \<Longrightarrow> h \<noteq> []"
  by (auto simp: hash_matches_def)

lemma show_int_uint: "show_nat (unat w) = show_int (uint w)"
  by (simp add: show_int_def)

lemma show_int_zero: "show_int 0 = ''0''"
proof -
  have "digit_char 0 = CHR ''0''" by code_simp
  then show ?thesis by (simp add: show_int_def show_nat.simps [of 0])
qed

lemmas keys_relD = iffD1 [OF keys_rel_def, THEN conjunct1]
  iffD1 [OF keys_rel_def, THEN conjunct2, THEN conjunct2, THEN conjunct1, rule_format]

lemma sim_insert:
  assumes "job_codec_ok K" and "keys_rel K R s db q" and "millis_exact R now" and "millis_exact R run_at"
    and "payload_ok K payload" and "i \<notin> ej_id ` set (jq_jobs q)"
    and "jobs_insert i now kind payload run_at q = (job, q')"
  shows "keys_rel K R s (snd (insert_pipe (job_key K s i) (due_key s) (job_fields_of job (projr (payload_show K payload)))
      (jid_show K i) (unix_millis run_at) db)) q'"
proof -
  let ?db = "snd (insert_pipe (job_key K s i) (due_key s) (job_fields_of job (projr (payload_show K payload)))
      (jid_show K i) (unix_millis run_at) db)"
  have job: "job = \<lparr>ej_id = i, ej_kind = kind, ej_payload = payload, ej_run_at = run_at, ej_attempts = 0,
      ej_max_attempts = jq_default_max_attempts q, ej_status = Queued, ej_created_at = now, ej_last_error = None\<rparr>"
    and q': "q' = q\<lparr>jq_jobs := job # jq_jobs q\<rparr>"
    using assms(6,7) by (auto simp: jobs_insert_def Let_def)
  have empty: "jk_hash db (job_key K s i) = []" using assms(2,6) by (simp add: keys_rel_def)
  have new: "hash_matches K R job (jk_hash ?db (job_key K s i))"
    using assms(4) by (auto simp: insert_pipe_def job_fields_of_def empty hash_matches_def job show_int_uint show_int_zero update_conv)
  have other: "jk_hash ?db k = jk_hash db k" if "k \<noteq> job_key K s i" for k
    using that by (simp add: insert_pipe_def job_fields_of_def)
  have due: "zset_of K Queued (jq_jobs q') (jk_zset ?db (due_key s))"
  proof -
    have z: "zset_of K Queued (jq_jobs q) (jk_zset db (due_key s))" using assms(2) by (simp add: keys_rel_def)
    have new: "\<forall>p \<in> set (jk_zset db (due_key s)). fst p \<noteq> jid_show K (ej_id job)"
    proof
      fix p assume "p \<in> set (jk_zset db (due_key s))"
      from zset_member [OF z this] assms(6) show "fst p \<noteq> jid_show K (ej_id job)"
        by (auto simp: job jid_show_eq [OF assms(1)])
    qed
    then have "filter (\<lambda>p. fst p \<noteq> jid_show K i) (jk_zset db (due_key s)) = jk_zset db (due_key s)"
      by (simp add: filter_id_conv job)
    with zset_of_Cons [OF z new] show ?thesis by (simp add: q' insert_pipe_def job)
  qed
  have "{j \<in> set (jq_jobs q'). ej_status j = Running} = {j \<in> set (jq_jobs q). ej_status j = Running}"
    by (auto simp: q' job)
  then have run: "zset_of K Running (jq_jobs q') (jk_zset ?db (run_key s))"
    using assms(2) by (simp add: insert_pipe_def keys_rel_def zset_of_def)
  have "\<forall>j \<in> set (jq_jobs q'). job_storable K R j \<and> (ej_status j = Running \<longrightarrow> ej_attempts j \<noteq> 0) \<and>
      hash_matches K R j (jk_hash ?db (job_key K s (ej_id j)))"
  proof
    fix j assume "j \<in> set (jq_jobs q')"
    then consider "j = job" | "j \<in> set (jq_jobs q)" "ej_id j \<noteq> i" using assms(6) by (auto simp: q')
    then show "job_storable K R j \<and> (ej_status j = Running \<longrightarrow> ej_attempts j \<noteq> 0) \<and>
        hash_matches K R j (jk_hash ?db (job_key K s (ej_id j)))"
    proof cases
      case 1
      with new assms(3-5) show ?thesis by (simp add: job job_storable_def)
    next
      case 2
      with other [of "job_key K s (ej_id j)"] assms(2) show ?thesis by (simp add: keys_rel_def job_key_eq [OF assms(1)])
    qed
  qed
  moreover have "\<forall>k. k \<notin> ej_id ` set (jq_jobs q') \<longrightarrow> jk_hash ?db (job_key K s k) = []"
  proof (intro allI impI)
    fix k assume k: "k \<notin> ej_id ` set (jq_jobs q')"
    with other [of "job_key K s k"] assms(2) show "jk_hash ?db (job_key K s k) = []"
      by (auto simp: q' job keys_rel_def job_key_eq [OF assms(1)])
  qed
  moreover have "queue_ok q'" using assms(2,6) by (simp add: q' job keys_rel_def queue_ok_def)
  ultimately show ?thesis using assms(2) due run by (simp add: keys_rel_def q')
qed

section \<open>Simulation of the scripts\<close>

lemma set_job_put: "j \<in> set js \<Longrightarrow> ej_id j' = ej_id j \<Longrightarrow> set (job_put j' js) = insert j' {x \<in> set js. ej_id x \<noteq> ej_id j}"
  by (auto simp: job_put_def)

lemma rest_in_put:
  "\<lbrakk>distinct (map ej_id (c # cs)); set (c # cs) \<subseteq> set js; ej_id j' = ej_id c\<rbrakk> \<Longrightarrow> set cs \<subseteq> set (job_put j' js)"
  by (force simp: set_job_put [of c] image_iff)

lemma fold_job_put:
  assumes "\<And>c. ej_id (g c) = ej_id c"
  shows "\<lbrakk>distinct (map ej_id js); distinct (map ej_id cs); set cs \<subseteq> set js\<rbrakk> \<Longrightarrow>
    fold (\<lambda>c. job_put (g c)) cs js = map (\<lambda>j. if ej_id j \<in> ej_id ` set cs then g j else j) js"
proof (induction cs arbitrary: js)
  case (Cons c cs)
  have put: "job_put (g c) js = map (\<lambda>x. if x = c then g c else x) js"
    using Cons.prems by (intro job_put_map) (auto simp: assms)
  have sub: "set cs \<subseteq> set (job_put (g c) js)"
    using Cons.prems by (intro rest_in_put) (simp_all add: assms)
  have "fold (\<lambda>c. job_put (g c)) cs (job_put (g c) js)
      = map (\<lambda>j. if ej_id j \<in> ej_id ` set cs then g j else j) (job_put (g c) js)"
    using Cons.prems sub by (intro Cons.IH) simp_all
  also have "\<dots> = map (\<lambda>j. if ej_id j \<in> ej_id ` set (c # cs) then g j else j) js"
    using Cons.prems unfolding put by (auto simp: assms distinct_map inj_on_def)
  finally show ?case by simp
qed simp

text \<open>The loops of the claim and recovery scripts: one job at a time.\<close>

lemma keys_rel_steps:
  assumes codec: "job_codec_ok K" and id: "\<And>c. ej_id (g c) = ej_id c"
    and step: "\<And>c db q. keys_rel K R s db q \<Longrightarrow> c \<in> set (jq_jobs q) \<Longrightarrow> ok c \<Longrightarrow>
      keys_rel K R s (f c db) (q\<lparr>jq_jobs := job_put (g c) (jq_jobs q)\<rparr>)"
  shows "\<lbrakk>keys_rel K R s db q; distinct (map ej_id cs); set cs \<subseteq> set (jq_jobs q); \<forall>c \<in> set cs. ok c\<rbrakk> \<Longrightarrow>
    keys_rel K R s (fold f cs db) (q\<lparr>jq_jobs := fold (\<lambda>c. job_put (g c)) cs (jq_jobs q)\<rparr>)"
proof (induction cs arbitrary: db q)
  case (Cons c cs)
  have "keys_rel K R s (f c db) (q\<lparr>jq_jobs := job_put (g c) (jq_jobs q)\<rparr>)" using Cons.prems by (intro step) auto
  moreover have "set cs \<subseteq> set (job_put (g c) (jq_jobs q))"
    using Cons.prems by (intro rest_in_put) (simp_all add: id)
  ultimately show ?case using Cons.IH [of "f c db" "q\<lparr>jq_jobs := job_put (g c) (jq_jobs q)\<rparr>"] Cons.prems by simp
qed simp

definition claim_one :: "job_codec \<Rightarrow> redis_job_queue \<Rightarrow> enqueued_job \<Rightarrow> job_keys \<Rightarrow> job_keys" where
  "claim_one K s j db = hset (job_key K s (ej_id j)) ''attempts'' (show_int (uint (ej_attempts j) + 1))
     (hset (job_key K s (ej_id j)) ''status'' ''running''
       (zadd (run_key s) (jid_show K (ej_id j)) (unix_millis (ej_run_at j)) (zrem (due_key s) (jid_show K (ej_id j)) db)))"

lemma sim_claim_one:
  assumes "job_codec_ok K" and rel: "keys_rel K R s db q" and j: "j \<in> set (jq_jobs q)" and "ej_attempts j \<noteq> - 1"
  shows "keys_rel K R s (claim_one K s j db) (q\<lparr>jq_jobs := job_put (claim j) (jq_jobs q)\<rparr>)"
proof (rule keys_rel_put [OF assms(1) rel j])
  have m: "job_storable K R j" "hash_matches K R j (jk_hash db (job_key K s (ej_id j)))"
    using rel j by (auto simp: keys_rel_def)
  show "job_storable K R (claim j)" using m(1) by (simp add: job_storable_def claim_def)
  show "hash_matches K R (claim j) (jk_hash (claim_one K s j db) (job_key K s (ej_id j)))"
    using m(2) by (simp add: hash_matches_def claim_one_def claim_def update_conv uint_next [OF assms(4)])
  have "ej_attempts j + 1 \<noteq> 0" using assms(4) by (metis add_eq_0_iff2)
  then show "ej_status (claim j) = Running \<longrightarrow> ej_attempts (claim j) \<noteq> 0" by simp
qed (simp_all add: claim_one_def zput_def)

lemma claim_items_fold:
  assumes "job_codec_ok K"
  shows "\<lbrakk>keys_rel K R s db q; distinct (map ej_id cs); set cs \<subseteq> set (jq_jobs q); \<forall>c \<in> set cs. ej_attempts c \<noteq> - 1\<rbrakk> \<Longrightarrow>
    claim_items (due_key s) (run_key s) (job_prefix s) (map (\<lambda>j. (unix_millis (ej_run_at j), jid_show K (ej_id j))) cs) db
      = (Inr (map (\<lambda>j. jid_show K (ej_id j)) cs), fold (claim_one K s) cs db)"
proof (induction cs arbitrary: db q)
  case (Cons c cs)
  let ?q = "q\<lparr>jq_jobs := job_put (claim c) (jq_jobs q)\<rparr>"
  have c: "map_of (jk_hash db (job_key K s (ej_id c))) ''attempts'' = Some (show_int (uint (ej_attempts c)))"
    using Cons.prems(1,3) by (simp add: keys_rel_def hash_matches_def)
  have i64: "i64_range (uint (ej_attempts c) + 1)"
    using uint_i64 [of "ej_attempts c + 1"] Cons.prems(4) by (simp add: uint_next)
  have "keys_rel K R s (claim_one K s c db) ?q" using Cons.prems by (intro sim_claim_one [OF assms]) auto
  moreover have "set cs \<subseteq> set (jq_jobs ?q)" using Cons.prems rest_in_put [of c cs "jq_jobs q" "claim c"] by simp
  ultimately have IH: "claim_items (due_key s) (run_key s) (job_prefix s)
      (map (\<lambda>j. (unix_millis (ej_run_at j), jid_show K (ej_id j))) cs) (claim_one K s c db)
      = (Inr (map (\<lambda>j. jid_show K (ej_id j)) cs), fold (claim_one K s) cs (claim_one K s c db))"
    using Cons.prems by (intro Cons.IH) auto
  have "hincrby (job_key K s (ej_id c)) ''attempts'' 1 (hset (job_key K s (ej_id c)) ''status'' ''running''
      (zadd (run_key s) (jid_show K (ej_id c)) (unix_millis (ej_run_at c)) (zrem (due_key s) (jid_show K (ej_id c)) db)))
      = (Inr (uint (ej_attempts c) + 1), claim_one K s c db)"
    using c i64 by (simp add: hincrby_def claim_one_def update_conv parse_show_i64 [OF uint_i64] i64_range_def)
  then show ?case using IH by (simp add: Let_def job_key_def)
qed simp

lemma sort_distinct_cong: "distinct xs \<Longrightarrow> distinct ys \<Longrightarrow> set xs = set ys \<Longrightarrow> sort xs = sort ys"
  by (intro sorted_distinct_set_unique) simp_all

lemma zrange_jobs:
  assumes "job_codec_ok K" and "range_ok R" and z: "zset_of K st js (jk_zset db k)" and d: "distinct (map ej_id js)"
    and "\<forall>j \<in> set js. job_storable K R j"
  shows "zrangebyscore k p db = map (\<lambda>j. (unix_millis (ej_run_at j), jid_show K (ej_id j)))
    (sort_key due_order (filter (\<lambda>j. ej_status j = st \<and> p (unix_millis (ej_run_at j))) js))"
proof -
  let ?item = "\<lambda>j :: enqueued_job. (unix_millis (ej_run_at j), jid_show K (ej_id j))"
  let ?xs = "filter (\<lambda>j. ej_status j = st \<and> p (unix_millis (ej_run_at j))) js"
  let ?z = "filter (\<lambda>x. p (snd x)) (jk_zset db k)"
  have "distinct ?z" using z by (simp add: zset_of_def distinct_map)
  then have "distinct (map prod.swap ?z)" by (simp add: distinct_map)
  moreover have "distinct (map ?item ?xs)"
    using d by (auto simp: distinct_map inj_on_def jid_show_eq [OF assms(1)])
  moreover have "set (map prod.swap ?z) = set (map ?item ?xs)"
  proof -
    have "set ?z = {x \<in> set (jk_zset db k). p (snd x)}" by simp
    also have "\<dots> = (\<lambda>j. (jid_show K (ej_id j), unix_millis (ej_run_at j))) ` set ?xs"
      using z unfolding zset_of_def by auto
    finally show ?thesis by (simp add: image_image)
  qed
  ultimately have "zrangebyscore k p db = sort (map ?item ?xs)"
    unfolding zrangebyscore_def by (rule sort_distinct_cong)
  also have "\<dots> = map ?item (sort_key ?item ?xs)" by (simp add: sort_key_map comp_def)
  also have "sort_key ?item ?xs = sort_key due_order ?xs"
    using assms(5) row_order [OF assms(1,2)] by (intro sort_key_cong_order) auto
  finally show ?thesis .
qed

lemma keys_rel_facts:
  assumes "keys_rel K R s db q"
  shows "queue_ok q" and "distinct (map ej_id (jq_jobs q))" and "\<forall>j \<in> set (jq_jobs q). job_storable K R j"
    and "zset_of K Queued (jq_jobs q) (jk_zset db (due_key s))" and "zset_of K Running (jq_jobs q) (jk_zset db (run_key s))"
  using assms by (simp_all add: keys_rel_def queue_ok_def)

lemma sim_claim_script:
  assumes "job_codec_ok K" and "range_ok R" and rel: "keys_rel K R s db q" and now: "millis_exact R now"
    and "\<forall>n. limit = Some n \<longrightarrow> n < 10 ^ 7" and "\<forall>j \<in> set (jq_jobs q). ej_attempts j \<noteq> - 1"
  shows "\<exists>db' q'. dequeue_due now limit q = Some (Inr (map claim (due_jobs now limit (jq_jobs q))), q')
    \<and> CLAIM_SCRIPT (due_key s) (run_key s) (unix_millis now) (claim_limit limit) (job_prefix s) db
        = (Inr (map (\<lambda>j. jid_show K (ej_id j)) (due_jobs now limit (jq_jobs q))), db')
    \<and> keys_rel K R s db' q'"
proof -
  note f = keys_rel_facts [OF rel]
  let ?js = "jq_jobs q" and ?cs = "due_jobs now limit (jq_jobs q)"
  have cs: "set ?cs \<subseteq> set ?js" by (rule due_jobs_subset)
  have dc: "distinct (map ej_id ?cs)" using due_ids_props(1) [OF f(2), of now limit] by (simp add: due_ids_jobs)
  have "filter (\<lambda>j. ej_status j = Queued \<and> unix_millis (ej_run_at j) \<le> unix_millis now) ?js = filter (is_due now) ?js"
    using f(3) millis_exact_le [OF assms(2) _ now] by (intro filter_cong) (auto simp: is_due_def job_storable_def)
  then have items: "zrangebyscore (due_key s) (\<lambda>score. score \<le> unix_millis now) db
      = map (\<lambda>j. (unix_millis (ej_run_at j), jid_show K (ej_id j))) (sort_key due_order (filter (is_due now) ?js))"
    using zrange_jobs [OF assms(1,2) f(4,2,3), of "\<lambda>score. score \<le> unix_millis now"] by simp
  have script: "CLAIM_SCRIPT (due_key s) (run_key s) (unix_millis now) (claim_limit limit) (job_prefix s) db
      = claim_items (due_key s) (run_key s) (job_prefix s) (map (\<lambda>j. (unix_millis (ej_run_at j), jid_show K (ej_id j))) ?cs) db"
    using assms(5) unfolding CLAIM_SCRIPT_def items
    by (auto simp: Let_def claim_limit_def due_jobs_def firsts_def take_map i64_or_max_def split: option.splits)
  have run: "claim_items (due_key s) (run_key s) (job_prefix s) (map (\<lambda>j. (unix_millis (ej_run_at j), jid_show K (ej_id j))) ?cs) db
      = (Inr (map (\<lambda>j. jid_show K (ej_id j)) ?cs), fold (claim_one K s) ?cs db)"
    using cs assms(6) by (intro claim_items_fold [OF assms(1) rel dc]) auto
  have "keys_rel K R s (fold (claim_one K s) ?cs db) (q\<lparr>jq_jobs := fold (\<lambda>c. job_put (claim c)) ?cs ?js\<rparr>)"
    using cs assms(6)
    by (intro keys_rel_steps [OF assms(1) _ _ rel dc, where ok = "\<lambda>c. ej_attempts c \<noteq> - 1"] sim_claim_one [OF assms(1)]) auto
  moreover have "fold (\<lambda>c. job_put (claim c)) ?cs ?js = map (\<lambda>j. if ej_id j \<in> ej_id ` set ?cs then claim j else j) ?js"
    by (rule fold_job_put [OF _ f(2) dc cs]) simp
  moreover have "the (jobs_get (ej_id j) q) = j" if "j \<in> set ?cs" for j
    using that cs queue_ok_get [OF f(1), of j] by auto
  then have "dequeue_due now limit q = Some (Inr (map claim ?cs),
      q\<lparr>jq_jobs := map (\<lambda>j. if ej_id j \<in> ej_id ` set ?cs then claim j else j) ?js\<rparr>)"
    unfolding dequeue_due_result [OF f(1) refl] by (simp add: due_ids_jobs comp_def cong: map_cong)
  ultimately show ?thesis using script run by auto
qed

lemma job_find_jobs:
  assumes "job_find i js = Some j"
  shows "j \<in> set js" and "ej_id j = i"
  using job_find_Some [OF assms] by simp_all

lemma sim_succeed_script:
  assumes "job_codec_ok K" and rel: "keys_rel K R s db q" and "mark_succeeded (jid_show K) i q = (a, q')"
    and "\<forall>j. job_find i (jq_jobs q) = Some j \<longrightarrow> ej_status j = Running"
  shows "\<exists>n db'. SUCCEED_SCRIPT (run_key s) (job_key K s i) (jid_show K i) db = (Inr n, db') \<and> keys_rel K R s db' q' \<and>
    a = (if n = 0 then Inl (PE_JobNotFound (jid_show K i)) else Inr ())"
proof (cases "job_find i (jq_jobs q)")
  case None
  then have "jk_hash db (job_key K s i) = []" using rel by (simp add: keys_rel_def)
  moreover have "a = Inl (PE_JobNotFound (jid_show K i))" "q' = q"
    using assms(3) unfolding mark_succeeded_def None by simp_all
  ultimately show ?thesis using rel by (simp add: SUCCEED_SCRIPT_def)
next
  case (Some j)
  let ?j = "j\<lparr>ej_status := Succeeded, ej_last_error := None\<rparr>"
  let ?db = "zrem (run_key s) (jid_show K i) (hdel (job_key K s i) ''last_error'' (hset (job_key K s i) ''status'' ''succeeded'' db))"
  note j = job_find_jobs [OF Some]
  have m: "job_storable K R j" "hash_matches K R j (jk_hash db (job_key K s (ej_id j)))"
    using rel j(1) by (auto simp: keys_rel_def)
  have st: "ej_status j \<noteq> Queued" using assms(4) Some by simp
  have "keys_rel K R s ?db (q\<lparr>jq_jobs := job_put ?j (jq_jobs q)\<rparr>)"
  proof (rule keys_rel_put [OF assms(1) rel j(1)])
    show "hash_matches K R ?j (jk_hash ?db (job_key K s (ej_id j)))"
      using m(2) by (simp add: hash_matches_def j(2) update_conv delete_conv)
    show "jk_zset ?db (due_key s) = zput (ej_status ?j = Queued) (jid_show K (ej_id j)) (unix_millis (ej_run_at ?j)) (jk_zset db (due_key s))"
      using zput_absent [OF assms(1) keys_rel_facts(4,2) [OF rel] j(1) st] by simp
  qed (use m(1) in \<open>auto simp: job_storable_def j(2) zput_def\<close>)
  then show ?thesis
    using hash_matches_nonempty [OF m(2)] assms(3) Some by (auto simp: SUCCEED_SCRIPT_def mark_succeeded_def j(2))
qed

lemma retry_time:
  assumes "range_ok R" and "millis_exact R now" and "in_range R (now + seconds 3600)" and "(w :: u32) \<noteq> 0"
  shows "\<exists>t. checked_add R now (backoff_for_attempt w) = Some t \<and> millis_exact R t \<and>
    unix_millis t = unix_millis now + backoff_millis (uint w)"
proof -
  define e where "e = min (unat w - 1) 12"
  define b :: int where "b = min (2 ^ e) 3600"
  have "0 < uint w" using assms(4) by (metis uint_ge_0 order_le_less uint_0_iff)
  moreover have "nat (min (uint w - 1) 12) = e"
  proof -
    define n where "n = unat w"
    then have "uint w = int n" by simp
    then show ?thesis unfolding e_def n_def [symmetric] by auto
  qed
  ultimately have millis: "backoff_millis (uint w) = b * 1000" by (simp add: backoff_millis_def b_def)
  have delay: "backoff_for_attempt w = b * 1000000000" by (simp add: backoff_for_attempt_def Let_def seconds_def b_def e_def)
  have b: "1 \<le> b" "b \<le> 3600" by (simp_all add: b_def)
  then have r: "in_range R (now + b * 1000000000)"
    using assms(2,3) by (auto simp: in_range_def millis_exact_def seconds_def)
  have "(now + b * 1000000000) mod 1000000 = (now + (b * 1000) * 1000000) mod 1000000" by (simp add: mult.commute)
  also have "\<dots> = 0" using assms(2) unfolding mod_mult_self1 by (simp add: millis_exact_def)
  finally have e: "millis_exact R (now + b * 1000000000)" using r by (simp add: millis_exact_def)
  have "unix_millis (now + b * 1000000000) = unix_millis now + b * 1000"
    using millis_exact(1) [OF assms(1) e] millis_exact(1) [OF assms(1,2)] by linarith
  with r e show ?thesis by (simp add: delay millis)
qed

lemma sim_fail_script:
  assumes "job_codec_ok K" and "range_ok R" and rel: "keys_rel K R s db q" and "mark_failed (jid_show K) R now i reason q = (a, q')"
    and "\<forall>j. job_find i (jq_jobs q) = Some j \<longrightarrow> ej_status j = Running"
    and "millis_exact R now" and "in_range R (now + seconds 3600)"
  shows "\<exists>n db'. FAIL_SCRIPT (due_key s) (run_key s) (job_key K s i) (jid_show K i) (unix_millis now) reason db = (Inr n, db')
    \<and> keys_rel K R s db' q' \<and> a = (if n = 0 then Inl (PE_JobNotFound (jid_show K i)) else Inr ())"
proof (cases "job_find i (jq_jobs q)")
  case None
  then have "jk_hash db (job_key K s i) = []" using rel by (simp add: keys_rel_def)
  moreover have "a = Inl (PE_JobNotFound (jid_show K i))" "q' = q"
    using assms(4) unfolding mark_failed_def None by simp_all
  ultimately show ?thesis using rel by (simp add: FAIL_SCRIPT_def)
next
  case (Some j)
  note j = job_find_jobs [OF Some]
  let ?k = "job_key K s i" and ?j = "fail_job R now reason j"
  let ?db1 = "zrem (run_key s) (jid_show K i) (hset ?k ''last_error'' reason db)"
  let ?db = "if ej_max_attempts j \<le> ej_attempts j then hset ?k ''status'' ''failed'' ?db1
    else zadd (due_key s) (jid_show K i) (unix_millis now + backoff_millis (uint (ej_attempts j))) (hset ?k ''status'' ''queued'' ?db1)"
  have m: "job_storable K R j" "hash_matches K R j (jk_hash db (job_key K s (ej_id j)))"
    using rel j(1) by (auto simp: keys_rel_def)
  have st: "ej_status j = Running" "ej_status j \<noteq> Queued" using assms(5) Some by simp_all
  have "ej_attempts j \<noteq> 0" using rel j(1) st(1) by (simp add: keys_rel_def)
  then obtain t where t: "checked_add R now (backoff_for_attempt (ej_attempts j)) = Some t" "millis_exact R t"
      "unix_millis t = unix_millis now + backoff_millis (uint (ej_attempts j))"
    using retry_time [OF assms(2,6,7)] by blast
  have run: "FAIL_SCRIPT (due_key s) (run_key s) ?k (jid_show K i) (unix_millis now) reason db = (Inr 1, ?db)"
    using m(2) hash_matches_nonempty [OF m(2)]
    by (simp add: FAIL_SCRIPT_def hash_matches_def j(2) lua_number_def parse_show_i64 [OF uint_i64] word_le_def)
  have rel': "keys_rel K R s ?db (q\<lparr>jq_jobs := job_put ?j (jq_jobs q)\<rparr>)"
  proof (rule keys_rel_put [OF assms(1) rel j(1)])
    show "job_storable K R ?j"
      using m(1) t(1,2) by (simp add: fail_job_def Let_def job_storable_def del: checked_add_Some)
    show "hash_matches K R ?j (jk_hash ?db (job_key K s (ej_id j)))"
      using m(2) by (simp add: hash_matches_def j(2) update_conv fail_job_def Let_def)
    show "jk_zset ?db (due_key s) = zput (ej_status ?j = Queued) (jid_show K (ej_id j)) (unix_millis (ej_run_at ?j)) (jk_zset db (due_key s))"
      using zput_absent [OF assms(1) keys_rel_facts(4,2) [OF rel] j(1) st(2)] t(1,3)
      by (simp add: j(2) fail_job_def Let_def zput_def del: checked_add_Some)
    show "ej_status ?j = Running \<longrightarrow> ej_attempts ?j \<noteq> 0" by (simp add: fail_job_status)
    show "jk_zset ?db (run_key s) = zput (ej_status ?j = Running) (jid_show K (ej_id j)) (unix_millis (ej_run_at ?j)) (jk_zset db (run_key s))"
      by (simp add: fail_job_status j(2) zput_def)
  qed (simp_all add: j(2))
  have "a = Inr ()" "q' = q\<lparr>jq_jobs := job_put ?j (jq_jobs q)\<rparr>"
    using assms(4) unfolding mark_failed_def Some by simp_all
  then show ?thesis using run rel' by (intro exI [of _ 1] exI [of _ ?db]) simp
qed

definition recover_one :: "job_codec \<Rightarrow> redis_job_queue \<Rightarrow> timestamp \<Rightarrow> enqueued_job \<Rightarrow> job_keys \<Rightarrow> job_keys" where
  "recover_one K s now j db = hset (job_key K s (ej_id j)) ''run_at'' (show_int (unix_millis now))
     (hset (job_key K s (ej_id j)) ''status'' ''queued''
       (zadd (due_key s) (jid_show K (ej_id j)) (unix_millis now) (zrem (run_key s) (jid_show K (ej_id j)) db)))"

lemma recover_items_fold:
  "recover_items (run_key s) (due_key s) (unix_millis now) (job_prefix s) (map (\<lambda>j. jid_show K (ej_id j)) cs) db
   = fold (recover_one K s now) cs db"
  by (induction cs arbitrary: db) (simp_all add: recover_one_def job_key_def)

lemma sim_recover_one:
  assumes "job_codec_ok K" and "millis_exact R now" and rel: "keys_rel K R s db q" and j: "j \<in> set (jq_jobs q)"
  shows "keys_rel K R s (recover_one K s now j db) (q\<lparr>jq_jobs := job_put (recover now j) (jq_jobs q)\<rparr>)"
proof (rule keys_rel_put [OF assms(1) rel j])
  have m: "job_storable K R j" "hash_matches K R j (jk_hash db (job_key K s (ej_id j)))"
    using rel j by (auto simp: keys_rel_def)
  show "job_storable K R (recover now j)" using m(1) assms(2) by (simp add: job_storable_def recover_def)
  show "hash_matches K R (recover now j) (jk_hash (recover_one K s now j db) (job_key K s (ej_id j)))"
    using m(2) assms(2) by (auto simp: hash_matches_def recover_one_def recover_def update_conv)
qed (simp_all add: recover_one_def zput_def recover_def)

lemma sim_recover_script:
  assumes "job_codec_ok K" and "range_ok R" and rel: "keys_rel K R s db q" and now: "millis_exact R now"
    and "0 \<le> d" and "whole_milliseconds d < 2 ^ 63"
  shows "\<exists>cs db' q'. dequeue_stalled now d q = (Inr (map (recover now) (filter (is_stalled now d) (jq_jobs q))), q')
    \<and> mset cs = mset (filter (is_stalled now d) (jq_jobs q))
    \<and> RECOVER_SCRIPT (run_key s) (due_key s) (i64_saturating_sub (unix_millis now) (i64_or_max (whole_milliseconds d)))
        (unix_millis now) (job_prefix s) db = (Inr (map (\<lambda>j. jid_show K (ej_id j)) cs), db')
    \<and> keys_rel K R s db' q' \<and> (\<forall>c \<in> set cs. recover now c \<in> set (jq_jobs q'))"
proof -
  note f = keys_rel_facts [OF rel]
  let ?js = "jq_jobs q" and ?st = "filter (is_stalled now d) (jq_jobs q)"
  let ?cutoff = "i64_saturating_sub (unix_millis now) (i64_or_max (whole_milliseconds d))"
  define cs where "cs = sort_key due_order ?st"
  have "filter (\<lambda>j. ej_status j = Running \<and> unix_millis (ej_run_at j) < ?cutoff) ?js = ?st"
    using f(3) stalled_cutoff [OF assms(2) now _ assms(5,6)] by (intro filter_cong) (auto simp: is_stalled_def job_storable_def)
  then have "map snd (zrangebyscore (run_key s) (\<lambda>score. score < ?cutoff) db) = map (\<lambda>j. jid_show K (ej_id j)) cs"
    using zrange_jobs [OF assms(1,2) f(5,2,3), of "\<lambda>score. score < ?cutoff"] by (simp add: cs_def comp_def)
  then have script: "RECOVER_SCRIPT (run_key s) (due_key s) ?cutoff (unix_millis now) (job_prefix s) db
      = (Inr (map (\<lambda>j. jid_show K (ej_id j)) cs), fold (recover_one K s now) cs db)"
    by (simp add: RECOVER_SCRIPT_def recover_items_fold)
  have ms: "mset cs = mset ?st" by (simp add: cs_def)
  have cs: "set cs \<subseteq> set ?js" by (auto simp: cs_def)
  have "distinct (map ej_id ?st)" using f(2) by (simp add: distinct_map inj_on_def)
  then have dc: "distinct (map ej_id cs)" using ms by (metis mset_map mset_eq_imp_distinct_iff)
  have "keys_rel K R s (fold (recover_one K s now) cs db) (q\<lparr>jq_jobs := fold (\<lambda>c. job_put (recover now c)) cs ?js\<rparr>)"
    using cs by (intro keys_rel_steps [OF assms(1) _ _ rel dc, where ok = "\<lambda>_. True"] sim_recover_one [OF assms(1) now]) auto
  moreover have js: "fold (\<lambda>c. job_put (recover now c)) cs ?js = map (\<lambda>j. if ej_id j \<in> ej_id ` set cs then recover now j else j) ?js"
    by (rule fold_job_put [OF _ f(2) dc cs]) simp
  moreover have "ej_id j \<in> ej_id ` set cs \<longleftrightarrow> is_stalled now d j" if "j \<in> set ?js" for j
    using f(2) that by (auto simp: cs_def distinct_map inj_on_def)
  ultimately have "keys_rel K R s (fold (recover_one K s now) cs db) (snd (dequeue_stalled now d q))"
    by (simp add: dequeue_stalled_def cong: map_cong)
  moreover have "\<forall>c \<in> set cs. recover now c \<in> set (jq_jobs (snd (dequeue_stalled now d q)))"
    by (force simp: cs_def dequeue_stalled_def)
  ultimately show ?thesis using script ms by (intro exI [of _ cs]) (auto simp: dequeue_stalled_def)
qed

lemma unrun_run_at [simp]: "unrun (j\<lparr>ej_run_at := t\<rparr>) = unrun j"
  by (simp add: unrun_def)

lemma load_jobs_stored:
  assumes "job_codec_ok K" and "range_ok R"
  shows "\<lbrakk>keys_rel K R s (rd_keys conn) q; set cs \<subseteq> set (jq_jobs q)\<rbrakk> \<Longrightarrow>
    \<exists>jobs conn'. load_jobs K int_err R redis_ok s (map (\<lambda>j. jid_show K (ej_id j)) cs) conn = (Inr jobs, conn')
      \<and> map unrun jobs = map unrun cs \<and> rd_keys conn' = rd_keys conn"
proof (induction cs arbitrary: conn)
  case (Cons c cs)
  let ?conn = "conn\<lparr>rd_cmds := Suc (rd_cmds conn), rd_keys := rd_keys conn\<rparr>"
  have "job_storable K R c" "hash_matches K R c (jk_hash (rd_keys conn) (job_key K s (ej_id c)))"
    using Cons.prems by (auto simp: keys_rel_def)
  then obtain t where t: "hash_to_job K int_err R (jid_show K (ej_id c)) (jk_hash (rd_keys conn) (job_key K s (ej_id c)))
      = Inr (c\<lparr>ej_run_at := t\<rparr>)"
    using hash_decodes [OF assms] by blast
  obtain jobs conn' where "load_jobs K int_err R redis_ok s (map (\<lambda>j. jid_show K (ej_id j)) cs) ?conn = (Inr jobs, conn')"
      "map unrun jobs = map unrun cs" "rd_keys conn' = rd_keys conn"
    using Cons.IH [of ?conn] Cons.prems by auto
  then show ?case using t by (simp add: redis_cmd_as_ok redis_bind_def job_key_def)
qed simp

section \<open>Histories over Redis\<close>

text \<open>What workers do: they report only jobs that are running (or that the queue does not know), at an
  instant the longest backoff can be added to, and claim less than ten million jobs at a time (or
  without a limit), a number every version of the server takes as it is.\<close>

fun disciplined :: "time_range \<Rightarrow> job_op \<Rightarrow> job_queue \<Rightarrow> bool" where
  "disciplined R (JSucceed i) q \<longleftrightarrow> (case job_find i (jq_jobs q) of None \<Rightarrow> True | Some j \<Rightarrow> ej_status j = Running)"
| "disciplined R (JFail now i reason) q \<longleftrightarrow>
     in_range R (now + seconds 3600) \<and> (case job_find i (jq_jobs q) of None \<Rightarrow> True | Some j \<Rightarrow> ej_status j = Running)"
| "disciplined R (JDequeue now limit) q \<longleftrightarrow> (case limit of None \<Rightarrow> True | Some n \<Rightarrow> n < 10 ^ 7)"
| "disciplined R _ q \<longleftrightarrow> True"

fun all_disciplined :: "job_codec \<Rightarrow> time_range \<Rightarrow> job_op list \<Rightarrow> job_queue \<Rightarrow> bool" where
  "all_disciplined K R [] q \<longleftrightarrow> True"
| "all_disciplined K R (op # ops) q \<longleftrightarrow> disciplined R op q \<and> all_disciplined K R ops (snd (mem_answer (jid_show K) R op q))"

text \<open>The same answer: the same error, or the same jobs up to the run time; a recovery may list them in
  another order.\<close>

fun same_answer :: "job_op \<Rightarrow> platform_error + enqueued_job list \<Rightarrow> platform_error + enqueued_job list \<Rightarrow> bool" where
  "same_answer (JStalled now d) (Inr xs) (Inr ys) \<longleftrightarrow> mset (map unrun xs) = mset (map unrun ys)"
| "same_answer op a b \<longleftrightarrow> map_sum id (map unrun) a = map_sum id (map unrun) b"

lemma same_answer_refl: "same_answer op a a"
  by (cases "(op, a, a)" rule: same_answer.cases) simp_all

lemma option_caseD: "(case x of None \<Rightarrow> True | Some y \<Rightarrow> P y) \<Longrightarrow> \<forall>y. x = Some y \<longrightarrow> P y"
  by (simp split: option.splits)

lemma redis_sim_report:
  assumes "f (rd_keys conn) = (Inr n, db')" and "a = (if n = (0 :: int) then Inl e else Inr ())"
  shows "\<exists>conn'. redis_bind (redis_cmd_as redis_err redis_ok f conn) (\<lambda>existed conn1. (if existed = 0 then Inl e else Inr (), conn1))
      = (a, conn') \<and> rd_keys conn' = db'"
  using assms by (simp add: redis_cmd_as_ok redis_bind_def)

lemma redis_sim_step:
  assumes "job_codec_ok K" and "range_ok R" and rel: "keys_rel K R s (rd_keys conn) q"
    and ok: "op_ok K R op q" "disciplined R op q" and mem: "mem_answer (jid_show K) R op q = (ans, q')"
  shows "\<exists>ans' conn'. redis_answer K int_err R redis_ok s op conn = (ans', conn') \<and> same_answer op ans' ans \<and>
    keys_rel K R s (rd_keys conn') q'"
proof (cases op)
  case (JSchedule i now kind payload run_at)
  obtain job where job: "jobs_insert i now kind payload run_at q = (job, q')" "ans = Inr [job]"
    using mem JSchedule by (auto simp: jobs_schedule_def answer_map_def split: prod.splits)
  have "job = \<lparr>ej_id = i, ej_kind = kind, ej_payload = payload, ej_run_at = run_at, ej_attempts = 0,
      ej_max_attempts = rq_default_max_attempts s, ej_status = Queued, ej_created_at = now, ej_last_error = None\<rparr>"
    using job(1) rel by (auto simp: jobs_insert_def Let_def keys_rel_def)
  moreover obtain p where "payload_show K payload = Inr p"
    using ok(1) JSchedule by (auto simp: payload_ok_def split: sum.splits)
  moreover have "keys_rel K R s (snd (insert_pipe (job_key K s i) (due_key s) (job_fields_of job (projr (payload_show K payload)))
      (jid_show K i) (unix_millis run_at) (rd_keys conn))) q'"
    using ok(1) JSchedule by (intro sim_insert [OF assms(1) rel _ _ _ _ job(1)]) auto
  ultimately show ?thesis
    using job(2) JSchedule
    by (simp add: redis_jobs_schedule_def redis_jobs_insert_def Let_def redis_cmd_as_ok redis_bind_def answer_map_def insert_pipe_def)
next
  case (JDequeue now limit)
  obtain db' where d: "dequeue_due now limit q = Some (Inr (map claim (due_jobs now limit (jq_jobs q))), q')"
      "CLAIM_SCRIPT (due_key s) (run_key s) (unix_millis now) (claim_limit limit) (job_prefix s) (rd_keys conn)
        = (Inr (map (\<lambda>j. jid_show K (ej_id j)) (due_jobs now limit (jq_jobs q))), db')" "keys_rel K R s db' q'"
    using sim_claim_script [OF assms(1,2) rel, of now limit] ok JDequeue mem
    by (auto simp: list_all_iff split: option.splits)
  let ?cs = "due_jobs now limit (jq_jobs q)"
  let ?conn = "conn\<lparr>rd_cmds := Suc (rd_cmds conn), rd_keys := db'\<rparr>"
  have "set (map claim ?cs) \<subseteq> set (jq_jobs q')"
  proof -
    have "q' = q\<lparr>jq_jobs := map (\<lambda>j. if ej_id j \<in> ej_id ` set ?cs then claim j else j) (jq_jobs q)\<rparr>"
      using d(1) dequeue_due_result [OF keys_rel_facts(1) [OF rel] refl, of now limit] by (simp add: due_ids_jobs)
    then show ?thesis using due_jobs_subset [of now limit "jq_jobs q"] by force
  qed
  from load_jobs_stored [OF assms(1,2), of s ?conn q' "map claim ?cs" int_err] this d(3)
  obtain jobs conn' where "load_jobs K int_err R redis_ok s (map (\<lambda>j. jid_show K (ej_id j)) ?cs) ?conn = (Inr jobs, conn')"
      "map unrun jobs = map unrun (map claim ?cs)" "rd_keys conn' = db'"
    by (auto simp: comp_def)
  then show ?thesis
    using d mem JDequeue by (auto simp: redis_jobs_dequeue_due_def redis_cmd_as_ok redis_bind_def)
next
  case (JSucceed i)
  obtain a where a: "mark_succeeded (jid_show K) i q = (a, q')" "ans = map_sum id (\<lambda>_. []) a"
    using mem JSucceed by (auto elim: answer_mapE)
  obtain n db' where run: "SUCCEED_SCRIPT (run_key s) (job_key K s i) (jid_show K i) (rd_keys conn) = (Inr n, db')"
      "a = (if n = 0 then Inl (PE_JobNotFound (jid_show K i)) else Inr ())" and rel': "keys_rel K R s db' q'"
    using sim_succeed_script [OF assms(1) rel a(1) option_caseD [where x = "job_find i (jq_jobs q)"]] ok(2) JSucceed by auto
  from redis_sim_report [of "SUCCEED_SCRIPT (run_key s) (job_key K s i) (jid_show K i)", OF run] a(2) JSucceed rel' same_answer_refl [of op ans] show ?thesis
    by (auto simp: redis_jobs_mark_succeeded_def answer_map_def)
next
  case (JFail now i reason)
  obtain a where a: "mark_failed (jid_show K) R now i reason q = (a, q')" "ans = map_sum id (\<lambda>_. []) a"
    using mem JFail by (auto elim: answer_mapE)
  obtain n db' where run: "FAIL_SCRIPT (due_key s) (run_key s) (job_key K s i) (jid_show K i) (unix_millis now) reason (rd_keys conn) = (Inr n, db')"
      "a = (if n = 0 then Inl (PE_JobNotFound (jid_show K i)) else Inr ())" and rel': "keys_rel K R s db' q'"
    using sim_fail_script [OF assms(1,2) rel a(1) option_caseD [where x = "job_find i (jq_jobs q)"]] ok JFail by auto
  from redis_sim_report [of "FAIL_SCRIPT (due_key s) (run_key s) (job_key K s i) (jid_show K i) (unix_millis now) reason", OF run] a(2) JFail rel' same_answer_refl [of op ans] show ?thesis
    by (auto simp: redis_jobs_mark_failed_def answer_map_def)
next
  case (JStalled now d)
  let ?st = "filter (is_stalled now d) (jq_jobs q)"
  obtain cs db' where r: "ans = Inr (map (recover now) ?st)" "mset cs = mset ?st" "keys_rel K R s db' q'"
      "RECOVER_SCRIPT (run_key s) (due_key s) (i64_saturating_sub (unix_millis now) (i64_or_max (whole_milliseconds d)))
        (unix_millis now) (job_prefix s) (rd_keys conn) = (Inr (map (\<lambda>j. jid_show K (ej_id j)) cs), db')"
      "set (map (recover now) cs) \<subseteq> set (jq_jobs q')"
    using sim_recover_script [OF assms(1,2) rel, of now d] ok(1) JStalled mem by auto
  let ?conn = "conn\<lparr>rd_cmds := Suc (rd_cmds conn), rd_keys := db'\<rparr>"
  from load_jobs_stored [OF assms(1,2), of s ?conn q' "map (recover now) cs" int_err] r(3,5)
  obtain jobs conn' where load: "load_jobs K int_err R redis_ok s (map (\<lambda>j. jid_show K (ej_id j)) cs) ?conn = (Inr jobs, conn')"
      "map unrun jobs = map unrun (map (recover now) cs)" "rd_keys conn' = db'"
    by (auto simp: comp_def)
  have "mset (map unrun jobs) = mset (map unrun (map (recover now) ?st))" unfolding load(2) by (simp add: r(2))
  then show ?thesis
    using r(1,3,4) load JStalled by (simp add: redis_jobs_dequeue_stalled_def redis_cmd_as_ok redis_bind_def)
qed

text \<open>C29: the Redis queue behaves like the in-memory one for workers that report what they run. Over a
  server that answers every command, from any keys that hold the jobs of an in-memory queue, every
  history of scheduling, claiming, completing, failing and stall recovery gets the same answers from
  Redis, errors included, up to the run time of a job and the order of a recovery. This is for
  operations that are in order (\<open>ops_ok\<close>: instants and run times in range and in whole milliseconds,
  payloads that can be read back, fresh ids, no attempt counter about to wrap) and disciplined (only
  running jobs are reported, claims are limited to less than ten million jobs or not at all).\<close>

theorem redis_job_queue_refines:
  assumes "job_codec_ok K" and "range_ok R" and "keys_rel K R s (rd_keys conn) q"
    and "ops_ok K R ops q" and "all_disciplined K R ops q"
  shows "list_all2 (\<lambda>op (a, b). same_answer op a b) ops
    (zip (answers (redis_answer K int_err R redis_ok s) ops conn) (answers (mem_answer (jid_show K) R) ops q))"
  using assms(3-5)
proof (induction ops arbitrary: conn q)
  case (Cons op ops)
  obtain ans q' where m: "mem_answer (jid_show K) R op q = (ans, q')" by fastforce
  with redis_sim_step [OF assms(1,2) Cons.prems(1) _ _ m, of int_err] Cons.prems(2,3)
  obtain ans' conn' where "redis_answer K int_err R redis_ok s op conn = (ans', conn')" "same_answer op ans' ans"
      "keys_rel K R s (rd_keys conn') q'" by auto
  with Cons m show ?case by simp
qed simp

theorem redis_job_queue_refines_witness:
  "list_all2 (\<lambda>op (a, b). same_answer op a b)
     [JSchedule 2 0 ''mail'' JNull 1000000, JDequeue 2000000 (Some 5), JSucceed 7]
     (zip (answers (redis_answer demo_job_codec (\<lambda>_. ''bad'') demo_range redis_ok redis_jobs_new)
             [JSchedule 2 0 ''mail'' JNull 1000000, JDequeue 2000000 (Some 5), JSucceed 7] \<lparr>rd_keys = empty_keys, rd_cmds = 0\<rparr>)
          (answers (mem_answer (jid_show demo_job_codec) demo_range)
             [JSchedule 2 0 ''mail'' JNull 1000000, JDequeue 2000000 (Some 5), JSucceed 7] jobs_new))"
proof (rule redis_job_queue_refines [OF demo_job_codec_ok range_ok_demo])
  let ?ops = "[JSchedule 2 0 ''mail'' JNull 1000000, JDequeue 2000000 (Some 5), JSucceed 7]"
  show "keys_rel demo_job_codec demo_range redis_jobs_new (rd_keys \<lparr>rd_keys = empty_keys, rd_cmds = 0\<rparr>) jobs_new"
    by (simp add: keys_rel_def zset_of_def empty_keys_def redis_jobs_new_def jobs_new_def jobs_with_max_attempts_def queue_ok_def
        DEFAULT_MAX_ATTEMPTS_def)
  show "ops_ok demo_job_codec demo_range ?ops jobs_new"
    by (simp add: jobs_new_def jobs_with_max_attempts_def millis_exact_def in_range_def demo_range_def payload_ok_def
        demo_job_codec_def jobs_schedule_def jobs_insert_def answer_map_def Let_def)
  show "all_disciplined demo_job_codec demo_range ?ops jobs_new"
    by (simp add: jobs_new_def jobs_with_max_attempts_def jobs_schedule_def jobs_insert_def answer_map_def Let_def
        dequeue_due_def due_ids_def is_due_def due_order_def job_put_def claim_def job_find_def)
qed

text \<open>A failed attempt moves the job in the due set; the run time in its hash stays.\<close>

lemma fail_keeps_hash_run_at:
  "map_of (jk_hash (snd (FAIL_SCRIPT due run jk i now reason db)) jk) ''run_at'' = map_of (jk_hash db jk) ''run_at''"
  by (auto simp: FAIL_SCRIPT_def Let_def update_conv split: option.splits)

end
