(* ===== verification/ConfigSchema.thy ===== *)
theory ConfigSchema
  imports ConfigBuild Decimal
begin

text \<open>
  The typed configuration sections (\<open>klauthed-core/src/config/schema\<close>): their data, defaults and the
  connection URLs they build. Deserialising a section is \<open>serde\<close>'s. The theorems state what a reader of
  the URL finds in it.
\<close>

section \<open>Databases\<close>

datatype db_system = Postgres | MySql | MariaDb | Sqlite | MongoDb

fun db_default_port :: "db_system \<Rightarrow> u16 option" where
  "db_default_port Postgres = Some 5432"
| "db_default_port MySql = Some 3306"
| "db_default_port MariaDb = Some 3306"
| "db_default_port MongoDb = Some 27017"
| "db_default_port Sqlite = None"

fun db_scheme :: "db_system \<Rightarrow> string" where
  "db_scheme Postgres = ''postgres''"
| "db_scheme MySql = ''mysql''"
| "db_scheme MariaDb = ''mysql''"
| "db_scheme Sqlite = ''sqlite''"
| "db_scheme MongoDb = ''mongodb''"

definition is_relational :: "db_system \<Rightarrow> bool" where
  "is_relational s = (s \<noteq> MongoDb)"

record pool_config =
  pc_max_connections :: u32
  pc_min_connections :: u32
  pc_acquire_timeout_secs :: u64
  pc_idle_timeout_secs :: "u64 option"
  pc_max_lifetime_secs :: "u64 option"

definition pool_default :: pool_config where
  "pool_default = \<lparr>pc_max_connections = 10, pc_min_connections = 0, pc_acquire_timeout_secs = 30,
     pc_idle_timeout_secs = None, pc_max_lifetime_secs = None\<rparr>"

record database_config =
  dc_system :: db_system
  dc_host :: string
  dc_port :: "u16 option"
  dc_database :: string
  dc_username :: "string option"
  dc_password :: "string option"
  dc_url :: "string option"
  dc_options :: "(string \<times> string) list"
  dc_pool :: pool_config

definition effective_port :: "database_config \<Rightarrow> u16 option" where
  "effective_port c = (case dc_port c of Some p \<Rightarrow> Some p | None \<Rightarrow> db_default_port (dc_system c))"

text \<open>The user part of the database and broker URLs: a password counts only beside a user name.\<close>

definition user_part :: "string option \<Rightarrow> string option \<Rightarrow> string" where
  "user_part user password =
     (case user of
        None \<Rightarrow> []
      | Some u \<Rightarrow> u @ (case password of None \<Rightarrow> [] | Some p \<Rightarrow> CHR '':'' # p) @ ''@'')"

definition db_connection_url :: "database_config \<Rightarrow> string" where
  "db_connection_url c =
     (case dc_url c of
        Some url \<Rightarrow> url
      | None \<Rightarrow>
          if dc_system c = Sqlite then db_scheme (dc_system c) @ ''://'' @ dc_database c
          else db_scheme (dc_system c) @ ''://'' @ user_part (dc_username c) (dc_password c) @ dc_host c
            @ (case effective_port c of None \<Rightarrow> [] | Some port \<Rightarrow> '':'' @ show_nat (unat port))
            @ ''/'' @ dc_database c
            @ (if dc_options c = [] then []
               else ''?'' @ str_join ''&'' (map (\<lambda>(k, v). k @ ''='' @ v) (dc_options c))))"

section \<open>Caches\<close>

datatype cache_backend = Redis | InMemory

record cache_config =
  cc_backend :: cache_backend
  cc_url :: "string option"
  cc_host :: string
  cc_port :: u16
  cc_db :: u32
  cc_username :: "string option"
  cc_password :: "string option"
  cc_tls :: bool
  cc_default_ttl_secs :: u64
  cc_max_entries :: u64
  cc_pool :: pool_config

definition cache_default :: cache_config where
  "cache_default = \<lparr>cc_backend = Redis, cc_url = None, cc_host = ''localhost'', cc_port = 6379, cc_db = 0,
     cc_username = None, cc_password = None, cc_tls = False, cc_default_ttl_secs = 300, cc_max_entries = 10000,
     cc_pool = pool_default\<rparr>"

definition cache_connection_url :: "cache_config \<Rightarrow> string option" where
  "cache_connection_url c =
     (if cc_backend c = InMemory then None
      else (case cc_url c of
              Some url \<Rightarrow> Some url
            | None \<Rightarrow>
                Some ((if cc_tls c then ''rediss'' else ''redis'') @ ''://''
                  @ (case (cc_username c, cc_password c) of
                       (Some user, Some pass) \<Rightarrow> user @ '':'' @ pass @ ''@''
                     | (None, Some pass) \<Rightarrow> '':'' @ pass @ ''@''
                     | _ \<Rightarrow> [])
                  @ cc_host c @ '':'' @ show_nat (unat (cc_port c)) @ ''/'' @ show_nat (unat (cc_db c)))))"

section \<open>Messaging\<close>

datatype nats_credentials = NatsNone | NatsToken string | NatsUserPassword string string | NatsCredsFile string | NatsNKey string

record nats_config =
  nc_urls :: "string list"
  nc_name :: "string option"
  nc_credentials :: nats_credentials
  nc_tls :: bool
  nc_connect_timeout_secs :: u64
  nc_max_reconnects :: u32
  nc_jetstream :: bool

definition nats_default :: nats_config where
  "nats_default = \<lparr>nc_urls = [''nats://localhost:4222''], nc_name = None, nc_credentials = NatsNone, nc_tls = False,
     nc_connect_timeout_secs = 10, nc_max_reconnects = 60, nc_jetstream = True\<rparr>"

record rabbitmq_config =
  mq_url :: "string option"
  mq_host :: string
  mq_port :: u16
  mq_vhost :: string
  mq_username :: "string option"
  mq_password :: "string option"
  mq_tls :: bool
  mq_connect_timeout_secs :: u64

definition rabbitmq_default :: rabbitmq_config where
  "rabbitmq_default = \<lparr>mq_url = None, mq_host = ''localhost'', mq_port = 5672, mq_vhost = ''/'', mq_username = None,
     mq_password = None, mq_tls = False, mq_connect_timeout_secs = 10\<rparr>"

definition rabbitmq_connection_url :: "rabbitmq_config \<Rightarrow> string" where
  "rabbitmq_connection_url c =
     (case mq_url c of
        Some url \<Rightarrow> url
      | None \<Rightarrow>
          (if mq_tls c then ''amqps'' else ''amqp'') @ ''://'' @ user_part (mq_username c) (mq_password c) @ mq_host c
          @ '':'' @ show_nat (unat (mq_port c)) @ ''/''
          @ (if mq_vhost c \<noteq> ''/'' then dropWhile (\<lambda>x. x = CHR ''/'') (mq_vhost c) else []))"

record kafka_sasl =
  ks_mechanism :: string
  ks_username :: string
  ks_password :: string

record kafka_config =
  kc_brokers :: "string list"
  kc_client_id :: "string option"
  kc_group_id :: "string option"
  kc_tls :: bool
  kc_sasl :: "kafka_sasl option"

definition kafka_default :: kafka_config where
  "kafka_default = \<lparr>kc_brokers = [''localhost:9092''], kc_client_id = None, kc_group_id = None, kc_tls = False, kc_sasl = None\<rparr>"

datatype messaging_config = Nats nats_config | RabbitMq rabbitmq_config | Kafka kafka_config

datatype messaging_backend = BackendNats | BackendRabbitMq | BackendKafka

definition messaging_default :: messaging_config where
  "messaging_default = Nats nats_default"

fun messaging_backend_of :: "messaging_config \<Rightarrow> messaging_backend" where
  "messaging_backend_of (Nats _) = BackendNats"
| "messaging_backend_of (RabbitMq _) = BackendRabbitMq"
| "messaging_backend_of (Kafka _) = BackendKafka"

section \<open>Storage and server\<close>

datatype storage_config =
    StorageLocal string
  | StorageS3 string string "string option" "string option" "string option" bool
  | StorageGcs string "string option"
  | StorageAzure string string "string option"

definition storage_default :: storage_config where
  "storage_default = StorageLocal ''./data''"

record server_config =
  sc_host :: string
  sc_port :: u16
  sc_workers :: "nat option"
  sc_request_timeout_secs :: u64
  sc_tls :: bool

definition server_default :: server_config where
  "server_default = \<lparr>sc_host = ''0.0.0.0'', sc_port = 8080, sc_workers = None, sc_request_timeout_secs = 30, sc_tls = False\<rparr>"

definition bind_address :: "server_config \<Rightarrow> string" where
  "bind_address c = sc_host c @ '':'' @ show_nat (unat (sc_port c))"

section \<open>What a reader finds in the URL\<close>

text \<open>The generic syntax of RFC 3986, without percent-decoding.\<close>

record url_parts =
  up_scheme :: string
  up_user :: "string option"
  up_password :: "string option"
  up_host :: string
  up_port :: "string option"
  up_path :: string
  up_query :: "string option"

definition cut :: "char \<Rightarrow> string \<Rightarrow> string \<times> string option" where
  "cut d s = (case split_once d s of None \<Rightarrow> (s, None) | Some (a, b) \<Rightarrow> (a, Some b))"

definition read_authority :: "string \<Rightarrow> string option \<times> string option \<times> string \<times> string option" where
  "read_authority auth =
     (case split_once (CHR ''@'') auth of
        None \<Rightarrow> (None, None, cut (CHR '':'') auth)
      | Some (ui, hp) \<Rightarrow> (case cut (CHR '':'') ui of (user, password) \<Rightarrow> (Some user, password, cut (CHR '':'') hp)))"

definition read_url :: "string \<Rightarrow> url_parts option" where
  "read_url u =
     (case split_once (CHR '':'') u of
        None \<Rightarrow> None
      | Some (scheme, rest) \<Rightarrow>
          if take 2 rest \<noteq> ''//'' then None
          else (case cut (CHR ''/'') (drop 2 rest) of (auth, tail) \<Rightarrow>
                case read_authority auth of (user, password, host, port) \<Rightarrow>
                case cut (CHR ''?'') (case tail of None \<Rightarrow> [] | Some t \<Rightarrow> t) of (path, query) \<Rightarrow>
                  Some \<lparr>up_scheme = scheme, up_user = user, up_password = password, up_host = host, up_port = port,
                        up_path = path, up_query = query\<rparr>))"

definition avoids :: "string \<Rightarrow> string \<Rightarrow> bool" where
  "avoids bad s = list_all (\<lambda>c. c \<notin> set bad) s"

definition opt_avoids :: "string \<Rightarrow> string option \<Rightarrow> bool" where
  "opt_avoids bad x = (case x of None \<Rightarrow> True | Some s \<Rightarrow> avoids bad s)"

lemma avoidsD: "avoids bad s \<Longrightarrow> c \<in> set bad \<Longrightarrow> c \<notin> set s"
  by (auto simp: avoids_def list_all_iff)

lemma cut_found [simp]: "d \<notin> set a \<Longrightarrow> cut d (a @ d # b) = (a, Some b)"
  by (simp add: cut_def split_once_append)

lemma cut_none: "d \<notin> set a \<Longrightarrow> cut d a = (a, None)"
  using split_once_None [of d a] by (simp add: cut_def)

lemma digits_avoid: "c \<in> set (show_nat n) \<Longrightarrow> is_digit c"
  using show_nat_digits [of n] by (simp add: list_all_iff)

lemma port_plain: "CHR '':'' \<notin> set (show_nat n)" "CHR ''@'' \<notin> set (show_nat n)" "CHR ''/'' \<notin> set (show_nat n)"
  "CHR ''?'' \<notin> set (show_nat n)"
  by (auto dest!: digits_avoid simp: is_digit_def)

lemma read_authority_built:
  assumes "opt_avoids '':@/'' user" and "opt_avoids ''@/'' password" and "avoids '':@/'' host"
  shows "read_authority (user_part user password @ host @ CHR '':'' # show_nat n) =
      (user, if user = None then None else password, host, Some (show_nat n))"
    and "CHR ''/'' \<notin> set (user_part user password @ host @ CHR '':'' # show_nat n)"
proof -
  have h: "CHR '':'' \<notin> set host" "CHR ''@'' \<notin> set host" "CHR ''/'' \<notin> set host" using avoidsD [OF assms(3)] by auto
  have none: "split_once (CHR ''@'') (host @ CHR '':'' # show_nat n) = None"
    using h port_plain by (simp add: split_once_None)
  show "CHR ''/'' \<notin> set (user_part user password @ host @ CHR '':'' # show_nat n)"
  proof -
    have "CHR ''/'' \<notin> set (user_part user password)"
      using assms(1,2) avoidsD [of "'':@/''" _ "CHR ''/''"] avoidsD [of "''@/''" _ "CHR ''/''"]
      by (cases user; cases password) (simp_all add: user_part_def opt_avoids_def)
    with h port_plain show ?thesis by simp
  qed
  show "read_authority (user_part user password @ host @ CHR '':'' # show_nat n) =
      (user, if user = None then None else password, host, Some (show_nat n))"
  proof (cases user)
    case None
    with none h show ?thesis by (simp add: read_authority_def user_part_def)
  next
    case (Some u)
    let ?ui = "u @ (case password of None \<Rightarrow> [] | Some p \<Rightarrow> CHR '':'' # p)"
    have u: "CHR '':'' \<notin> set u" "CHR ''@'' \<notin> set u" using assms(1) Some by (auto simp: opt_avoids_def dest: avoidsD)
    then have "CHR ''@'' \<notin> set ?ui" using assms(2) by (auto simp: opt_avoids_def dest: avoidsD split: option.splits)
    then have "split_once (CHR ''@'') (?ui @ CHR ''@'' # host @ CHR '':'' # show_nat n) = Some (?ui, host @ CHR '':'' # show_nat n)"
      by (rule split_once_append)
    moreover have "cut (CHR '':'') ?ui = (u, password)" using u by (cases password) (simp_all add: cut_none)
    ultimately show ?thesis using Some h by (simp add: read_authority_def user_part_def)
  qed
qed

lemma read_url_built:
  assumes "CHR '':'' \<notin> set scheme" and "opt_avoids '':@/'' user" and "opt_avoids ''@/'' password" and "avoids '':@/'' host"
  shows "read_url (scheme @ ''://'' @ user_part user password @ host @ CHR '':'' # show_nat n @ CHR ''/'' # tail) =
    Some \<lparr>up_scheme = scheme, up_user = user, up_password = (if user = None then None else password), up_host = host,
          up_port = Some (show_nat n), up_path = fst (cut (CHR ''?'') tail), up_query = snd (cut (CHR ''?'') tail)\<rparr>"
proof -
  let ?auth = "user_part user password @ host @ CHR '':'' # show_nat n"
  have "cut (CHR ''/'') (?auth @ CHR ''/'' # tail) = (?auth, Some tail)"
    using read_authority_built(2) [OF assms(2-4)] by (rule cut_found)
  then show ?thesis
    using read_authority_built(1) [OF assms(2-4)] split_once_append [OF assms(1)]
    by (simp add: read_url_def split: prod.splits)
qed

text \<open>A database URL says what the section says. For a networked database given by its components,
  none of which contains a character that delimits the next, a reader of the connection URL finds
  the scheme of the system, the user, the password if there is a user, the host, the effective
  port, the database, and in the query the options, each under its key.\<close>

theorem db_url_reads_back:
  assumes "dc_url c = None" and "dc_system c \<noteq> Sqlite"
    and "opt_avoids '':@/'' (dc_username c)" and "opt_avoids ''@/'' (dc_password c)" and "avoids '':@/'' (dc_host c)"
    and "avoids ''?'' (dc_database c)" and "\<forall>(k, v) \<in> set (dc_options c). avoids ''=&'' k \<and> avoids ''&'' v"
  shows "\<exists>port parts. effective_port c = Some port \<and> read_url (db_connection_url c) = Some parts
    \<and> up_scheme parts = db_scheme (dc_system c) \<and> up_user parts = dc_username c
    \<and> up_password parts = (if dc_username c = None then None else dc_password c)
    \<and> up_host parts = dc_host c \<and> up_port parts = Some (show_nat (unat port)) \<and> up_path parts = dc_database c
    \<and> (case up_query parts of None \<Rightarrow> [] | Some q \<Rightarrow> map (split_once (CHR ''='')) (str_split (CHR ''&'') q))
        = map Some (dc_options c)"
proof -
  obtain port where port: "effective_port c = Some port"
    using assms(2) by (cases "dc_system c"; cases "dc_port c") (auto simp: effective_port_def)
  let ?opts = "map (\<lambda>(k, v). k @ ''='' @ v) (dc_options c)"
  let ?tail = "dc_database c @ (if dc_options c = [] then [] else CHR ''?'' # str_join ''&'' ?opts)"
  have scheme: "CHR '':'' \<notin> set (db_scheme (dc_system c))" by (cases "dc_system c") simp_all
  have url: "db_connection_url c = db_scheme (dc_system c) @ ''://'' @ user_part (dc_username c) (dc_password c)
      @ dc_host c @ CHR '':'' # show_nat (unat port) @ CHR ''/'' # ?tail"
    using assms(1,2) port by (simp add: db_connection_url_def)
  have db: "CHR ''?'' \<notin> set (dc_database c)" using assms(6) avoidsD by simp
  have tail: "cut (CHR ''?'') ?tail = (dc_database c, if dc_options c = [] then None else Some (str_join ''&'' ?opts))"
    using db by (simp add: cut_none)
  have "str_split (CHR ''&'') (str_join ''&'' ?opts) = ?opts" if "dc_options c \<noteq> []"
    unfolding str_split_def
  proof (rule split_by_join)
    fix w ch assume w: "w \<in> set ?opts" and ch: "ch \<in> set w"
    then obtain k v where kv: "(k, v) \<in> set (dc_options c)" "w = k @ ''='' @ v" by auto
    then have "avoids ''=&'' k" "avoids ''&'' v" using bspec [OF assms(7) kv(1)] by simp_all
    then have "CHR ''&'' \<notin> set k" "CHR ''&'' \<notin> set v"
      using avoidsD [of "''=&''" k "CHR ''&''"] avoidsD [of "''&''" v "CHR ''&''"] by simp_all
    then have "CHR ''&'' \<notin> set w" by (simp add: kv(2))
    with ch show "ch \<noteq> CHR ''&''" by blast
  qed (use that in simp_all)
  moreover have "split_once (CHR ''='') (k @ CHR ''='' # v) = Some (k, v)" if "(k, v) \<in> set (dc_options c)" for k v
  proof (rule split_once_append)
    have "avoids ''=&'' k" using bspec [OF assms(7) that] by simp
    from avoidsD [OF this] show "CHR ''='' \<notin> set k" by simp
  qed
  then have "map (split_once (CHR ''='')) ?opts = map Some (dc_options c)" by (auto intro!: map_cong)
  ultimately show ?thesis
    using port tail read_url_built [OF scheme assms(3-5), of "unat port" ?tail]
    by (intro exI [of _ port]) (simp add: url)
qed

definition demo_database :: database_config where
  "demo_database = \<lparr>dc_system = Postgres, dc_host = ''db'', dc_port = None, dc_database = ''app'', dc_username = Some ''svc'',
     dc_password = Some ''p:w'', dc_url = None, dc_options = [(''sslmode'', ''require'')], dc_pool = pool_default\<rparr>"

theorem db_url_reads_back_witness:
  "\<exists>parts. read_url (db_connection_url demo_database) = Some parts \<and> up_host parts = ''db'' \<and> up_password parts = Some ''p:w''"
  using db_url_reads_back [of demo_database] by (simp add: demo_database_def opt_avoids_def avoids_def) fastforce

text \<open>A broker URL, with its virtual host as the path; the root virtual host is the empty path.\<close>

theorem rabbitmq_url_reads_back:
  assumes "mq_url c = None" and "opt_avoids '':@/'' (mq_username c)" and "opt_avoids ''@/'' (mq_password c)"
    and "avoids '':@/'' (mq_host c)" and "avoids ''/?'' (mq_vhost c) \<or> mq_vhost c = ''/''"
  shows "read_url (rabbitmq_connection_url c) = Some \<lparr>up_scheme = (if mq_tls c then ''amqps'' else ''amqp''),
    up_user = mq_username c, up_password = (if mq_username c = None then None else mq_password c), up_host = mq_host c,
    up_port = Some (show_nat (unat (mq_port c))), up_path = (if mq_vhost c = ''/'' then [] else mq_vhost c), up_query = None\<rparr>"
proof -
  have plain: "dropWhile (\<lambda>x. x = CHR ''/'') (mq_vhost c) = mq_vhost c \<and> CHR ''?'' \<notin> set (mq_vhost c)" if "mq_vhost c \<noteq> ''/''"
  proof -
    have "CHR ''/'' \<notin> set (mq_vhost c)" "CHR ''?'' \<notin> set (mq_vhost c)" using assms(5) that avoidsD by auto
    then show ?thesis by (cases "mq_vhost c") auto
  qed
  have scheme: "CHR '':'' \<notin> set (if mq_tls c then ''amqps'' else ''amqp'')" by simp
  define tail where "tail = (if mq_vhost c = ''/'' then [] else mq_vhost c)"
  have url: "rabbitmq_connection_url c = (if mq_tls c then ''amqps'' else ''amqp'') @ ''://''
      @ user_part (mq_username c) (mq_password c) @ mq_host c @ CHR '':'' # show_nat (unat (mq_port c)) @ CHR ''/'' # tail"
    using assms(1) plain by (auto simp: rabbitmq_connection_url_def tail_def)
  have "cut (CHR ''?'') tail = (tail, None)" using plain by (intro cut_none) (auto simp: tail_def)
  then show ?thesis
    unfolding url read_url_built [OF scheme assms(2-4)] by (simp add: tail_def)
qed

text \<open>Components are not escaped: a password with a slash ends the authority, and the reader takes the user
  name for the host.\<close>

lemma rabbitmq_reserved_password:
  "\<exists>parts. read_url (rabbitmq_connection_url (rabbitmq_default\<lparr>mq_username := Some ''svc'', mq_password := Some ''a/b''\<rparr>)) = Some parts
     \<and> up_host parts = ''svc''"
  by (simp add: rabbitmq_connection_url_def rabbitmq_default_def user_part_def read_url_def cut_def read_authority_def split: prod.splits option.splits)

text \<open>A user name without a password is left out of a cache URL.\<close>

lemma cache_user_without_password:
  "cc_password c = None \<Longrightarrow> cache_connection_url (c\<lparr>cc_username := u\<rparr>) = cache_connection_url (c\<lparr>cc_username := None\<rparr>)"
  by (simp add: cache_connection_url_def split: option.splits)

end
