(* ===== verification/Wiring.thy ===== *)
theory Wiring
  imports ConfigSchema
begin

text \<open>
  The application context and its starters (\<open>klauthed-core/src/wiring.rs\<close>), the relational connector
  and the data starter (\<open>klauthed-data/src/db/mod.rs\<close>, \<open>starter.rs\<close>). The context is keyed by type:
  components are one datatype, \<open>type_id\<close> their \<open>TypeId\<close>. Deserialising a section is \<open>serde\<close>'s and
  opening a pool is \<open>sqlx\<close>'s, which acts on a world \<open>'w\<close>: both are parameters.
\<close>

datatype ('p, 'o) component =
    CConfig config
  | CDatabase database_config
  | CCache cache_config
  | CMessaging messaging_config
  | CStorage storage_config
  | CServer server_config
  | CPool 'p
  | COther string 'o

fun type_id :: "('p, 'o) component \<Rightarrow> string" where
  "type_id (CConfig _) = ''Config''"
| "type_id (CDatabase _) = ''DatabaseConfig''"
| "type_id (CCache _) = ''CacheConfig''"
| "type_id (CMessaging _) = ''MessagingConfig''"
| "type_id (CStorage _) = ''StorageConfig''"
| "type_id (CServer _) = ''ServerConfig''"
| "type_id (CPool _) = ''AnyPool''"
| "type_id (COther t _) = ''other::'' @ t"

datatype wiring_error = MissingComponent string

definition wiring_error_text :: "wiring_error \<Rightarrow> string" where
  "wiring_error_text e = (case e of MissingComponent ty \<Rightarrow> ''no component of type `'' @ ty @ ''` is registered'')"

record ('p, 'o) app_context =
  ac_components :: "string \<rightharpoonup> ('p, 'o) component"

definition context_new :: "('p, 'o) app_context" where
  "context_new = \<lparr>ac_components = Map.empty\<rparr>"

definition ctx_register :: "('p, 'o) component \<Rightarrow> ('p, 'o) app_context \<Rightarrow> ('p, 'o) app_context" where
  "ctx_register c ctx = ctx\<lparr>ac_components := (ac_components ctx)(type_id c \<mapsto> c)\<rparr>"

definition register_from_config ::
  "(config \<Rightarrow> config_error + ('p, 'o) component) \<Rightarrow> config \<Rightarrow> ('p, 'o) app_context
   \<Rightarrow> (config_error + unit) \<times> ('p, 'o) app_context" where
  "register_from_config from_config config ctx =
     (case from_config config of Inl e \<Rightarrow> (Inl e, ctx) | Inr c \<Rightarrow> (Inr (), ctx_register c ctx))"

text \<open>\<open>downcast\<close> succeeds on a component of the wanted type.\<close>

definition ctx_get :: "string \<Rightarrow> ('p, 'o) app_context \<Rightarrow> ('p, 'o) component option" where
  "ctx_get t ctx =
     (case ac_components ctx t of None \<Rightarrow> None | Some c \<Rightarrow> if type_id c = t then Some c else None)"

definition ctx_require :: "string \<Rightarrow> ('p, 'o) app_context \<Rightarrow> wiring_error + ('p, 'o) component" where
  "ctx_require t ctx = (case ctx_get t ctx of None \<Rightarrow> Inl (MissingComponent t) | Some c \<Rightarrow> Inr c)"

definition ctx_contains :: "string \<Rightarrow> ('p, 'o) app_context \<Rightarrow> bool" where
  "ctx_contains t ctx = (ac_components ctx t \<noteq> None)"

section \<open>Starters\<close>

datatype starter_error = SE_Config config_error | SE_Data data_error | SE_Other string

type_synonym ('p, 'o, 'w) startup = "('p, 'o) app_context \<times> 'w"

record ('p, 'o, 'w) starter =
  st_name :: string
  st_configure :: "config \<Rightarrow> ('p, 'o, 'w) startup \<Rightarrow> (starter_error + unit) \<times> ('p, 'o, 'w) startup"

record ('p, 'o, 'w) app_builder =
  ab_config :: config
  ab_starters :: "('p, 'o, 'w) starter list"

definition app_new :: "config \<Rightarrow> ('p, 'o, 'w) app_builder" where
  "app_new config = \<lparr>ab_config = config, ab_starters = []\<rparr>"

definition with_starter :: "('p, 'o, 'w) starter \<Rightarrow> ('p, 'o, 'w) app_builder \<Rightarrow> ('p, 'o, 'w) app_builder" where
  "with_starter s b = b\<lparr>ab_starters := ab_starters b @ [s]\<rparr>"

fun run_starters ::
  "config \<Rightarrow> ('p, 'o, 'w) starter list \<Rightarrow> ('p, 'o, 'w) startup \<Rightarrow> (starter_error + ('p, 'o) app_context) \<times> 'w" where
  "run_starters config [] st = (Inr (fst st), snd st)"
| "run_starters config (s # ss) st =
     (case st_configure s config st of
        (Inl e, st1) \<Rightarrow> (Inl e, snd st1)
      | (Inr _, st1) \<Rightarrow> run_starters config ss st1)"

definition app_build :: "('p, 'o, 'w) app_builder \<Rightarrow> 'w \<Rightarrow> (starter_error + ('p, 'o) app_context) \<times> 'w" where
  "app_build b w = run_starters (ab_config b) (ab_starters b) (ctx_register (CConfig (ab_config b)) context_new, w)"

text \<open>The deserialisers of the sections.\<close>

record section_codec =
  de_database :: "json \<Rightarrow> string + database_config"
  de_cache :: "json \<Rightarrow> string + cache_config"
  de_messaging :: "json \<Rightarrow> string + messaging_config"
  de_storage :: "json \<Rightarrow> string + storage_config"
  de_server :: "json \<Rightarrow> string + server_config"

definition register_section ::
  "(json \<Rightarrow> string + 'a) \<Rightarrow> ('a \<Rightarrow> ('p, 'o) component) \<Rightarrow> string \<Rightarrow> config \<Rightarrow> ('p, 'o) app_context
   \<Rightarrow> (starter_error + unit) \<times> ('p, 'o) app_context" where
  "register_section de wrap key config ctx =
     (case config_get_optional de (cf_values config) key of
        Inl e \<Rightarrow> (Inl (SE_Config e), ctx)
      | Inr None \<Rightarrow> (Inr (), ctx)
      | Inr (Some s) \<Rightarrow> (Inr (), ctx_register (wrap s) ctx))"

definition then_register ::
  "(starter_error + unit) \<times> ('p, 'o) app_context \<Rightarrow> (('p, 'o) app_context \<Rightarrow> (starter_error + unit) \<times> ('p, 'o) app_context)
   \<Rightarrow> (starter_error + unit) \<times> ('p, 'o) app_context" where
  "then_register r f = (case r of (Inl e, ctx) \<Rightarrow> (Inl e, ctx) | (Inr _, ctx) \<Rightarrow> f ctx)"

definition config_sections ::
  "section_codec \<Rightarrow> config \<Rightarrow> ('p, 'o) app_context \<Rightarrow> (starter_error + unit) \<times> ('p, 'o) app_context" where
  "config_sections C config ctx =
     then_register (register_section (de_database C) CDatabase ''database'' config ctx) (\<lambda>ctx.
     then_register (register_section (de_cache C) CCache ''cache'' config ctx) (\<lambda>ctx.
     then_register (register_section (de_messaging C) CMessaging ''messaging'' config ctx) (\<lambda>ctx.
     then_register (register_section (de_storage C) CStorage ''storage'' config ctx)
       (register_section (de_server C) CServer ''server'' config))))"

definition ConfigSectionsStarter :: "section_codec \<Rightarrow> ('p, 'o, 'w) starter" where
  "ConfigSectionsStarter C = \<lparr>st_name = ''config-sections'',
     st_configure = (\<lambda>config (ctx, w). case config_sections C config ctx of (r, ctx1) \<Rightarrow> (r, (ctx1, w)))\<rparr>"

section \<open>The relational connector\<close>

record pool_options =
  po_max_connections :: u32
  po_min_connections :: u32
  po_acquire_timeout :: u64
  po_idle_timeout :: "u64 option"
  po_max_lifetime :: "u64 option"

text \<open>\<open>AnyPoolOptions\<close> keep the library's own default, here \<open>base\<close>, where the section sets nothing.\<close>

definition pool_options_of :: "pool_options \<Rightarrow> pool_config \<Rightarrow> pool_options" where
  "pool_options_of base pool =
     (let options = base\<lparr>po_max_connections := pc_max_connections pool, po_min_connections := pc_min_connections pool,
                         po_acquire_timeout := pc_acquire_timeout_secs pool\<rparr>;
          options = (case pc_idle_timeout_secs pool of None \<Rightarrow> options | Some idle \<Rightarrow> options\<lparr>po_idle_timeout := Some idle\<rparr>)
      in case pc_max_lifetime_secs pool of None \<Rightarrow> options | Some lifetime \<Rightarrow> options\<lparr>po_max_lifetime := Some lifetime\<rparr>)"

record ('p, 'w) sql_driver =
  sd_base :: pool_options
  sd_connect :: "pool_options \<Rightarrow> string \<Rightarrow> 'w \<Rightarrow> (string + 'p) \<times> 'w"
  sd_ping :: "'p \<Rightarrow> 'w \<Rightarrow> (string + unit) \<times> 'w"

fun db_debug :: "db_system \<Rightarrow> string" where
  "db_debug Postgres = ''Postgres''"
| "db_debug MySql = ''MySql''"
| "db_debug MariaDb = ''MariaDb''"
| "db_debug Sqlite = ''Sqlite''"
| "db_debug MongoDb = ''MongoDb''"

definition db_connect :: "('p, 'w) sql_driver \<Rightarrow> database_config \<Rightarrow> 'w \<Rightarrow> (data_error + 'p) \<times> 'w" where
  "db_connect D config w =
     (if \<not> is_relational (dc_system config) then (Inl (DE_UnsupportedSystem (db_debug (dc_system config))), w)
      else (case sd_connect D (pool_options_of (sd_base D) (dc_pool config)) (db_connection_url config) w of
              (Inl e, w1) \<Rightarrow> (Inl (DE_Sqlx e), w1)
            | (Inr pool, w1) \<Rightarrow> (Inr pool, w1)))"

definition db_ping :: "('p, 'w) sql_driver \<Rightarrow> 'p \<Rightarrow> 'w \<Rightarrow> (data_error + unit) \<times> 'w" where
  "db_ping D pool w = (case sd_ping D pool w of (Inl e, w1) \<Rightarrow> (Inl (DE_Sqlx e), w1) | (Inr _, w1) \<Rightarrow> (Inr (), w1))"

definition db_connect_verified :: "('p, 'w) sql_driver \<Rightarrow> database_config \<Rightarrow> 'w \<Rightarrow> (data_error + 'p) \<times> 'w" where
  "db_connect_verified D config w =
     (case db_connect D config w of
        (Inl e, w1) \<Rightarrow> (Inl e, w1)
      | (Inr pool, w1) \<Rightarrow>
          (case db_ping D pool w1 of (Inl e, w2) \<Rightarrow> (Inl e, w2) | (Inr _, w2) \<Rightarrow> (Inr pool, w2)))"

definition data_configure ::
  "section_codec \<Rightarrow> ('p, 'w) sql_driver \<Rightarrow> config \<Rightarrow> ('p, 'o, 'w) startup \<Rightarrow> (starter_error + unit) \<times> ('p, 'o, 'w) startup" where
  "data_configure C D config st =
     (case st of (ctx, w) \<Rightarrow>
        (case config_get_optional (de_database C) (cf_values config) ''database'' of
           Inl e \<Rightarrow> (Inl (SE_Config e), st)
         | Inr None \<Rightarrow> (Inr (), st)
         | Inr (Some database) \<Rightarrow>
             (case db_connect D database w of
                (Inl e, w1) \<Rightarrow> (Inl (SE_Data e), (ctx, w1))
              | (Inr pool, w1) \<Rightarrow> (Inr (), (ctx_register (CPool pool) ctx, w1)))))"

definition DataStarter :: "section_codec \<Rightarrow> ('p, 'w) sql_driver \<Rightarrow> ('p, 'o, 'w) starter" where
  "DataStarter C D = \<lparr>st_name = ''data'', st_configure = data_configure C D\<rparr>"

section \<open>What startup wires\<close>

lemma ctx_get_register [simp]: "ctx_get t (ctx_register c ctx) = (if t = type_id c then Some c else ctx_get t ctx)"
  by (simp add: ctx_get_def ctx_register_def)

lemma ctx_get_new [simp]: "ctx_get t context_new = None"
  by (simp add: ctx_get_def context_new_def)

lemma ctx_require_eq: "ctx_require t ctx = Inr c \<longleftrightarrow> ctx_get t ctx = Some c" "ctx_require t ctx = Inl e \<longleftrightarrow> ctx_get t ctx = None \<and> e = MissingComponent t"
  by (auto simp: ctx_require_def split: option.splits)

text \<open>A context that only \<open>register\<close> filled has no component under another type's key: \<open>downcast\<close> does not
  fail, and \<open>contains\<close> and \<open>get\<close> agree.\<close>

definition ctx_ok :: "('p, 'o) app_context \<Rightarrow> bool" where
  "ctx_ok ctx \<longleftrightarrow> (\<forall>t c. ac_components ctx t = Some c \<longrightarrow> type_id c = t)"

lemma ctx_ok_register: "ctx_ok context_new" "ctx_ok ctx \<Longrightarrow> ctx_ok (ctx_register c ctx)"
  by (auto simp: ctx_ok_def context_new_def ctx_register_def)

lemma ctx_contains_get: "ctx_ok ctx \<Longrightarrow> ctx_contains t ctx \<longleftrightarrow> ctx_get t ctx \<noteq> None"
  by (auto simp: ctx_ok_def ctx_contains_def ctx_get_def split: option.splits)

text \<open>The sections in the order they are registered: the key, the type, and the deserialiser into a component.\<close>

definition sections :: "section_codec \<Rightarrow> (string \<times> string \<times> (json \<Rightarrow> string + ('p, 'o) component)) list" where
  "sections C =
     [(''database'', ''DatabaseConfig'', \<lambda>v. map_sum id CDatabase (de_database C v)),
      (''cache'', ''CacheConfig'', \<lambda>v. map_sum id CCache (de_cache C v)),
      (''messaging'', ''MessagingConfig'', \<lambda>v. map_sum id CMessaging (de_messaging C v)),
      (''storage'', ''StorageConfig'', \<lambda>v. map_sum id CStorage (de_storage C v)),
      (''server'', ''ServerConfig'', \<lambda>v. map_sum id CServer (de_server C v))]"

fun register_all ::
  "(string \<times> string \<times> (json \<Rightarrow> string + ('p, 'o) component)) list \<Rightarrow> config \<Rightarrow> ('p, 'o) app_context
   \<Rightarrow> (starter_error + unit) \<times> ('p, 'o) app_context" where
  "register_all [] config ctx = (Inr (), ctx)"
| "register_all ((key, t, de) # ss) config ctx =
     then_register (register_section de (\<lambda>c. c) key config ctx) (register_all ss config)"

lemma register_section_wrap:
  "register_section de wrap key config ctx = register_section (\<lambda>v. map_sum id wrap (de v)) (\<lambda>c. c) key config ctx"
  by (simp add: register_section_def config_get_optional_def split: option.splits sum.splits)

lemma then_register_done: "then_register r (\<lambda>ctx. (Inr (), ctx)) = r"
  by (auto simp: then_register_def split: prod.splits sum.splits)

lemma register_all_fun:
  "register_all [] config = (\<lambda>ctx. (Inr (), ctx))"
  "register_all ((key, t, de) # ss) config = (\<lambda>ctx. then_register (register_section de (\<lambda>c. c) key config ctx) (register_all ss config))"
  by (rule ext, simp)+

lemma config_sections_all: "config_sections C config ctx = register_all (sections C) config ctx"
  unfolding config_sections_def sections_def register_section_wrap [of _ CDatabase] register_section_wrap [of _ CCache]
    register_section_wrap [of _ CMessaging] register_section_wrap [of _ CStorage] register_section_wrap [of _ CServer]
  by (simp only: register_all_fun then_register_done)

text \<open>A section is absent and not registered, or read and registered.\<close>

definition wired :: "string \<Rightarrow> string \<Rightarrow> (json \<Rightarrow> string + ('p, 'o) component) \<Rightarrow> config \<Rightarrow> ('p, 'o) app_context \<Rightarrow> bool" where
  "wired key t de config ctx \<longleftrightarrow>
     (case get_raw (cf_values config) key of
        None \<Rightarrow> ctx_require t ctx = Inl (MissingComponent t)
      | Some v \<Rightarrow> \<exists>c. de v = Inr c \<and> ctx_require t ctx = Inr c)"

definition malformed :: "string \<Rightarrow> (json \<Rightarrow> string + ('p, 'o) component) \<Rightarrow> config \<Rightarrow> bool" where
  "malformed key de config \<longleftrightarrow> (case get_raw (cf_values config) key of None \<Rightarrow> False | Some v \<Rightarrow> \<not> is_ok (de v))"

definition section_ok :: "string \<times> string \<times> (json \<Rightarrow> string + ('p, 'o) component) \<Rightarrow> bool" where
  "section_ok = (\<lambda>(key, t, de). \<forall>v c. de v = Inr c \<longrightarrow> type_id c = t)"

lemma section_step:
  assumes "register_section de (\<lambda>c. c) key config ctx = (r, ctx')" and "section_ok (key, t, de)" and "ctx_get t ctx = None"
  shows "if malformed key de config then \<exists>m. r = Inl (SE_Config (CE_Deserialization key m))
    else r = Inr () \<and> wired key t de config ctx' \<and> (\<forall>u. u \<noteq> t \<longrightarrow> ctx_get u ctx' = ctx_get u ctx)"
  using assms
  by (auto simp: register_section_def config_get_optional_def malformed_def wired_def ctx_require_eq is_ok_def section_ok_def
      split: option.splits sum.splits)

lemma wired_cong: "ctx_get t ctx' = ctx_get t ctx \<Longrightarrow> wired key t de config ctx' = wired key t de config ctx"
  by (simp add: wired_def ctx_require_def split: option.splits)

lemma register_all_outcome:
  assumes "\<forall>s \<in> set ss. section_ok s" and "distinct (map (fst \<circ> snd) ss)" and "\<forall>s \<in> set ss. ctx_get (fst (snd s)) ctx = None"
    and "register_all ss config ctx = (r, ctx')"
  shows "if \<exists>(key, t, de) \<in> set ss. malformed key de config then \<exists>k m. r = Inl (SE_Config (CE_Deserialization k m))
    else r = Inr () \<and> (\<forall>(key, t, de) \<in> set ss. wired key t de config ctx')
      \<and> (\<forall>u. u \<notin> (fst \<circ> snd) ` set ss \<longrightarrow> ctx_get u ctx' = ctx_get u ctx)"
  using assms
proof (induction ss arbitrary: ctx)
  case (Cons s ss)
  obtain key t de where s: "s = (key, t, de)" by (cases s)
  obtain r1 ctx1 where s1: "register_section de (\<lambda>c. c) key config ctx = (r1, ctx1)" by fastforce
  have step: "if malformed key de config then \<exists>m. r1 = Inl (SE_Config (CE_Deserialization key m))
    else r1 = Inr () \<and> wired key t de config ctx1 \<and> (\<forall>u. u \<noteq> t \<longrightarrow> ctx_get u ctx1 = ctx_get u ctx)"
    using Cons.prems s by (intro section_step [OF s1]) simp_all
  show ?case
  proof (cases "malformed key de config")
    case True
    with step Cons.prems(4) s s1 show ?thesis by (auto simp: then_register_def)
  next
    case False
    then have r1: "r1 = Inr ()" and w: "wired key t de config ctx1" and u: "\<forall>u. u \<noteq> t \<longrightarrow> ctx_get u ctx1 = ctx_get u ctx"
      using step by auto
    have nt: "t \<notin> (fst \<circ> snd) ` set ss" using Cons.prems(2) s by simp
    have fresh: "\<forall>s \<in> set ss. ctx_get (fst (snd s)) ctx1 = None"
    proof
      fix x assume x: "x \<in> set ss"
      then have "fst (snd x) \<noteq> t" using nt by force
      with u x Cons.prems(3) show "ctx_get (fst (snd x)) ctx1 = None" by simp
    qed
    have rest: "register_all ss config ctx1 = (r, ctx')" using Cons.prems(4) s s1 r1 by (simp add: then_register_def)
    note IH = Cons.IH [OF _ _ fresh rest]
    show ?thesis
    proof (cases "\<exists>(key, t, de) \<in> set ss. malformed key de config")
      case True
      then obtain x where "x \<in> set ss" "case x of (key, t, de) \<Rightarrow> malformed key de config" by blast
      then have "\<exists>(key, t, de) \<in> set (s # ss). malformed key de config" by (intro bexI [of _ x]) simp_all
      moreover have "\<exists>k m. r = Inl (SE_Config (CE_Deserialization k m))"
        using IH Cons.prems(1,2) unfolding if_P [OF True] by simp
      ultimately show ?thesis by (simp only: if_True)
    next
      case nomal: False
      then have r: "r = Inr ()" "\<forall>(key, t, de) \<in> set ss. wired key t de config ctx'"
          "\<forall>u. u \<notin> (fst \<circ> snd) ` set ss \<longrightarrow> ctx_get u ctx' = ctx_get u ctx1"
        using IH Cons.prems(1,2) unfolding if_not_P [OF nomal] by simp_all
      have "ctx_get t ctx' = ctx_get t ctx1" using r(3) nt by blast
      from wired_cong [OF this] w have "wired key t de config ctx'" by simp
      then have "\<forall>(key, t, de) \<in> set (s # ss). wired key t de config ctx'" using r(2) s by simp
      moreover have "\<not> (\<exists>(key, t, de) \<in> set (s # ss). malformed key de config)" using nomal False s by simp
      moreover have "\<forall>u. u \<notin> (fst \<circ> snd) ` set (s # ss) \<longrightarrow> ctx_get u ctx' = ctx_get u ctx"
      proof (intro allI impI)
        fix v assume "v \<notin> (fst \<circ> snd) ` set (s # ss)"
        then have "v \<noteq> t" "v \<notin> (fst \<circ> snd) ` set ss" using s by simp_all
        with r(3) u show "ctx_get v ctx' = ctx_get v ctx" by metis
      qed
      ultimately show ?thesis using r(1) by (simp only: if_False simp_thms)
    qed
  qed
qed simp

lemma map_sum_idE: "map_sum id f x = Inr c \<Longrightarrow> \<exists>y. x = Inr y \<and> c = f y"
  by (cases x) auto

lemma sections_ok: "\<forall>s \<in> set (sections C). section_ok s" "distinct (map (fst \<circ> snd) (sections C))"
  by (auto simp: sections_def section_ok_def dest: map_sum_idE)

lemma pool_from_config:
  assumes "data_configure C D config (ctx, w) = (Inr u, (ctx', w'))" and "ctx_get ''AnyPool'' ctx = None"
  shows "case get_raw (cf_values config) ''database'' of
      None \<Rightarrow> ctx' = ctx \<and> w' = w
    | Some v \<Rightarrow> \<exists>c pool. de_database C v = Inr c \<and> is_relational (dc_system c) \<and> ctx' = ctx_register (CPool pool) ctx
        \<and> sd_connect D (pool_options_of (sd_base D) (dc_pool c)) (db_connection_url c) w = (Inr pool, w')"
  using assms
  by (auto simp: data_configure_def config_get_optional_def db_connect_def split: option.splits sum.splits prod.splits if_splits)

definition web_app :: "section_codec \<Rightarrow> ('p, 'w) sql_driver \<Rightarrow> config \<Rightarrow> ('p, 'o, 'w) app_builder" where
  "web_app C D config = with_starter (DataStarter C D) (with_starter (ConfigSectionsStarter C) (app_new config))"

lemma web_app_build:
  "app_build (web_app C D config) w =
     (case config_sections C config (ctx_register (CConfig config) context_new) of
        (Inl e, ctx) \<Rightarrow> (Inl e, w)
      | (Inr _, ctx) \<Rightarrow>
          (case data_configure C D config (ctx, w) of (Inl e, st) \<Rightarrow> (Inl e, snd st) | (Inr _, st) \<Rightarrow> (Inr (fst st), snd st)))"
  by (simp add: app_build_def web_app_def with_starter_def app_new_def ConfigSectionsStarter_def DataStarter_def
      split: prod.splits sum.splits)

lemma web_app_sections:
  fixes ctx1 :: "('p, 'o) app_context"
  assumes "config_sections C config (ctx_register (CConfig config) context_new) = (r, ctx1)"
  shows "if \<exists>(key, t, de) \<in> set (sections C :: (string \<times> string \<times> (json \<Rightarrow> string + ('p, 'o) component)) list). malformed key de config
    then \<exists>k m. r = Inl (SE_Config (CE_Deserialization k m))
    else r = Inr () \<and> (\<forall>(key, t, de) \<in> set (sections C). wired key t de config ctx1)
      \<and> ctx_get ''Config'' ctx1 = Some (CConfig config) \<and> ctx_get ''AnyPool'' ctx1 = None"
proof -
  let ?ss = "sections C :: (string \<times> string \<times> (json \<Rightarrow> string + ('p, 'o) component)) list"
  have fresh: "\<forall>s \<in> set ?ss. ctx_get (fst (snd s)) (ctx_register (CConfig config) context_new :: ('p, 'o) app_context) = None"
    by (simp add: sections_def)
  note o = register_all_outcome [OF sections_ok fresh assms [unfolded config_sections_all]]
  have "''Config'' \<notin> (fst \<circ> snd) ` set ?ss" "''AnyPool'' \<notin> (fst \<circ> snd) ` set ?ss" by (simp_all add: sections_def)
  with o show ?thesis by (simp split: if_splits)
qed

text \<open>A malformed section stops startup with its error, before any connection is opened.\<close>

theorem startup_rejects_malformed:
  fixes ss :: "(string \<times> string \<times> (json \<Rightarrow> string + ('p, 'o) component)) list"
  assumes "ss = sections C" and "(key, t, de) \<in> set ss" and "malformed key de config"
  shows "\<exists>k m. app_build (web_app C D config) w = (Inl (SE_Config (CE_Deserialization k m)) :: starter_error + ('p, 'o) app_context, w)"
proof -
  obtain r and ctx1 :: "('p, 'o) app_context" where s: "config_sections C config (ctx_register (CConfig config) context_new) = (r, ctx1)"
    by fastforce
  have "\<exists>(key, t, de) \<in> set ss. malformed key de config" using assms(2,3) by blast
  then obtain k m where "r = Inl (SE_Config (CE_Deserialization k m))" using web_app_sections [OF s] assms(1) by auto
  with s show ?thesis by (simp add: web_app_build)
qed

text \<open>Startup wires what the configuration says. When startup with the section and data starters
  succeeds, the configuration can be required, every section that is present is required as it was
  read and an absent one is reported missing; and the pool is the one opened at the connection URL
  of the database section, with its limits, or there is none and nothing was connected.\<close>

theorem startup_wires_config:
  fixes ctx :: "('p, 'o) app_context"
  assumes "app_build (web_app C D config) w = (Inr ctx, w')"
  shows "ctx_require ''Config'' ctx = Inr (CConfig config)
     \<and> (\<forall>(key, t, de) \<in> set (sections C). wired key t de config ctx)
     \<and> (case get_raw (cf_values config) ''database'' of
          None \<Rightarrow> ctx_require ''AnyPool'' ctx = Inl (MissingComponent ''AnyPool'') \<and> w' = w
        | Some v \<Rightarrow> \<exists>c pool. de_database C v = Inr c \<and> is_relational (dc_system c) \<and> ctx_require ''AnyPool'' ctx = Inr (CPool pool)
            \<and> sd_connect D (pool_options_of (sd_base D) (dc_pool c)) (db_connection_url c) w = (Inr pool, w'))"
proof -
  obtain r and ctx1 :: "('p, 'o) app_context" where s: "config_sections C config (ctx_register (CConfig config) context_new) = (r, ctx1)"
    by fastforce
  with assms have "r = Inr ()" by (cases r) (simp_all add: web_app_build)
  with web_app_sections [OF s] have wired1: "\<forall>(key, t, de) \<in> set (sections C). wired key t de config ctx1"
    and keep: "ctx_get ''Config'' ctx1 = Some (CConfig config)" "ctx_get ''AnyPool'' ctx1 = None"
    by (simp_all split: if_splits)
  obtain u where d: "data_configure C D config (ctx1, w) = (Inr u, (ctx, w'))"
    using assms s \<open>r = Inr ()\<close> by (auto simp: web_app_build split: prod.splits sum.splits)
  note p = pool_from_config [OF d keep(2)]
  have same: "ctx_get t ctx = ctx_get t ctx1" if "t \<noteq> ''AnyPool''" for t
    using p that by (auto split: option.splits)
  have "\<forall>(key, t, de) \<in> set (sections C). wired key t de config ctx"
    using wired1 same by (simp add: sections_def wired_cong [of _ ctx ctx1])
  moreover have "ctx_require ''Config'' ctx = Inr (CConfig config)" using same keep(1) by (simp add: ctx_require_eq)
  moreover have "case get_raw (cf_values config) ''database'' of
          None \<Rightarrow> ctx_require ''AnyPool'' ctx = Inl (MissingComponent ''AnyPool'') \<and> w' = w
        | Some v \<Rightarrow> \<exists>c pool. de_database C v = Inr c \<and> is_relational (dc_system c) \<and> ctx_require ''AnyPool'' ctx = Inr (CPool pool)
            \<and> sd_connect D (pool_options_of (sd_base D) (dc_pool c)) (db_connection_url c) w = (Inr pool, w')"
    using p keep(2) by (auto simp: ctx_require_eq split: option.splits)
  ultimately show ?thesis by blast
qed

definition demo_sections :: section_codec where
  "demo_sections = \<lparr>de_database = (\<lambda>v. Inr demo_database), de_cache = (\<lambda>v. Inl ''no''), de_messaging = (\<lambda>v. Inl ''no''),
     de_storage = (\<lambda>v. Inl ''no''), de_server = (\<lambda>v. Inr server_default)\<rparr>"

definition demo_driver :: "(string, nat) sql_driver" where
  "demo_driver = \<lparr>sd_base = \<lparr>po_max_connections = 1, po_min_connections = 0, po_acquire_timeout = 30, po_idle_timeout = None, po_max_lifetime = None\<rparr>,
     sd_connect = (\<lambda>opts url n. (Inr url, Suc n)), sd_ping = (\<lambda>pool n. (Inr (), n))\<rparr>"

definition demo_config :: config where
  "demo_config = \<lparr>cf_profile = Local, cf_values = [(''database'', JObject [])]\<rparr>"

theorem startup_wires_config_witness:
  "\<exists>ctx :: (string, unit) app_context. app_build (web_app demo_sections demo_driver demo_config) 0 = (Inr ctx, 1)
     \<and> ctx_require ''AnyPool'' ctx = Inr (CPool (db_connection_url demo_database))
     \<and> ctx_require ''ServerConfig'' ctx = Inl (MissingComponent ''ServerConfig'')"
proof -
  have raw: "get_raw (cf_values demo_config) k = (if k = ''database'' then Some (JObject []) else None)"
    if "k \<in> {''database'', ''cache'', ''messaging'', ''storage'', ''server''}" for k
    using that by (auto simp: demo_config_def get_raw_def)
  obtain ctx :: "(string, unit) app_context" where b: "app_build (web_app demo_sections demo_driver demo_config) 0 = (Inr ctx, 1)"
    by (simp add: web_app_build config_sections_def then_register_def register_section_def config_get_optional_def raw
        data_configure_def db_connect_def demo_sections_def demo_driver_def is_relational_def demo_database_def)
  from startup_wires_config [OF b] have "ctx_require ''AnyPool'' ctx = Inr (CPool (db_connection_url demo_database))"
      "ctx_require ''ServerConfig'' ctx = Inl (MissingComponent ''ServerConfig'')"
    by (auto simp: raw demo_sections_def demo_driver_def sections_def wired_def)
  with b show ?thesis by blast
qed

end
