(* ===== verification/Scheduler.thy ===== *)
theory Scheduler
  imports Cron
begin

text \<open>
  The in-process scheduler (\<open>klauthed-platform/src/scheduler.rs\<close>). A cron task is a state machine:
  it reads the system clock and looks for the next occurrence, sleeps, runs the task or is stopped.
  How long a sleep takes and what the clock shows afterwards is the runtime's and the system's:
  the step relation admits every reading. An interval task reacts to ticks of the runtime's timer.
  A run that panics is isolated, so its outcome does not matter here.
\<close>

type_synonym period = nat

record 'z scheduler =
  sc_tasks :: "period list"
  sc_cron_tasks :: "'z cron list"

definition scheduler_new :: "'z scheduler" where
  "scheduler_new = \<lparr>sc_tasks = [], sc_cron_tasks = []\<rparr>"

definition scheduler_every :: "period \<Rightarrow> 'z scheduler \<Rightarrow> 'z scheduler" where
  "scheduler_every p s = s\<lparr>sc_tasks := sc_tasks s @ [p]\<rparr>"

definition scheduler_cron :: "'z cron \<Rightarrow> 'z scheduler \<Rightarrow> 'z scheduler" where
  "scheduler_cron c s = s\<lparr>sc_cron_tasks := sc_cron_tasks s @ [c]\<rparr>"

datatype 'z spawned = IntervalTask period | CronTask "'z cron"

definition scheduler_start :: "'z scheduler \<Rightarrow> 'z spawned list" where
  "scheduler_start s = map IntervalTask (sc_tasks s) @ map CronTask (sc_cron_tasks s)"

definition task_count :: "'z spawned list \<Rightarrow> nat" where
  "task_count handles = length handles"

section \<open>Cron tasks\<close>

datatype cron_phase = Planning | Waiting timestamp timestamp duration | Finished | Crashed

text \<open>A run: the clock when it was planned, the occurrence, the clock when it started.\<close>

record cron_task =
  ct_phase :: cron_phase
  ct_clock :: timestamp
  ct_runs :: "(timestamp \<times> timestamp \<times> timestamp) list"

definition cron_spawn :: "timestamp \<Rightarrow> cron_task" where
  "cron_spawn now = \<lparr>ct_phase = Planning, ct_clock = now, ct_runs = []\<rparr>"

definition sleep_time :: "timestamp \<Rightarrow> timestamp \<Rightarrow> duration" where
  "sleep_time now u = max 0 (u - now)"

inductive cron_step :: "time_range \<Rightarrow> 'z calendar \<Rightarrow> 'z cron \<Rightarrow> cron_task \<Rightarrow> cron_task \<Rightarrow> bool"
  for R :: time_range and K :: "'z calendar" and c :: "'z cron" where
  plan: "ct_phase s = Planning \<Longrightarrow> next_after R K c now = Some (Some u) \<Longrightarrow>
    cron_step R K c s (s\<lparr>ct_phase := Waiting now u (sleep_time now u), ct_clock := now\<rparr>)"
| never: "ct_phase s = Planning \<Longrightarrow> next_after R K c now = Some None \<Longrightarrow>
    cron_step R K c s (s\<lparr>ct_phase := Finished, ct_clock := now\<rparr>)"
| crash: "ct_phase s = Planning \<Longrightarrow> next_after R K c now = None \<Longrightarrow>
    cron_step R K c s (s\<lparr>ct_phase := Crashed, ct_clock := now\<rparr>)"
| fire: "ct_phase s = Waiting n u d \<Longrightarrow>
    cron_step R K c s (s\<lparr>ct_phase := Planning, ct_clock := now, ct_runs := ct_runs s @ [(n, u, now)]\<rparr>)"
| stop: "ct_phase s = Waiting n u d \<Longrightarrow> cron_step R K c s (s\<lparr>ct_phase := Finished, ct_clock := now\<rparr>)"

inductive_cases cron_stepE: "cron_step R K c s s'"

section \<open>Interval tasks\<close>

text \<open>What \<open>select!\<close> answers: a tick of the timer, or the stop signal. The first tick is consumed before the
  loop; runs are counted.\<close>

datatype interval_event = Tick | StopSignal

fun interval_loop :: "interval_event list \<Rightarrow> nat \<Rightarrow> nat \<times> bool" where
  "interval_loop [] runs = (runs, False)"
| "interval_loop (Tick # es) runs = interval_loop es (Suc runs)"
| "interval_loop (StopSignal # es) runs = (runs, True)"

definition spawn_task :: "interval_event list \<Rightarrow> nat \<times> bool" where
  "spawn_task es = (case es of Tick # es' \<Rightarrow> interval_loop es' 0 | _ \<Rightarrow> (0, False))"

lemma interval_loop_runs: "interval_loop es n = (n + length (takeWhile (\<lambda>e. e = Tick) es), StopSignal \<in> set es)"
  by (induction es n rule: interval_loop.induct) auto

section \<open>Each occurrence once\<close>

text \<open>A clock that is not set back, and a sleep that ends no earlier, on that clock, than the occurrence.\<close>

definition steady_step :: "time_range \<Rightarrow> 'z calendar \<Rightarrow> 'z cron \<Rightarrow> cron_task \<Rightarrow> cron_task \<Rightarrow> bool" where
  "steady_step R K c s s' \<longleftrightarrow> cron_step R K c s s' \<and> ct_clock s \<le> ct_clock s' \<and>
     (\<forall>n u d. ct_phase s = Waiting n u d \<and> ct_phase s' = Planning \<longrightarrow> u \<le> ct_clock s')"

definition planned_right :: "'z calendar \<Rightarrow> 'z cron \<Rightarrow> timestamp \<Rightarrow> timestamp \<Rightarrow> bool" where
  "planned_right K c n u \<longleftrightarrow> n < u \<and> u mod minutes 1 = 0 \<and> cron_matches K c u \<and>
     (\<forall>w. n < w \<and> w < u \<and> w mod minutes 1 = 0 \<longrightarrow> \<not> cron_matches K c w)"

definition task_inv :: "'z calendar \<Rightarrow> 'z cron \<Rightarrow> cron_task \<Rightarrow> bool" where
  "task_inv K c s \<longleftrightarrow>
     (\<forall>(n, u, t) \<in> set (ct_runs s). planned_right K c n u \<and> u \<le> t \<and> t \<le> ct_clock s) \<and>
     sorted_wrt (\<lambda>(n, u, t) (n', u', t'). t \<le> n') (ct_runs s) \<and>
     (\<forall>n u d. ct_phase s = Waiting n u d \<longrightarrow> planned_right K c n u \<and> n \<le> ct_clock s \<and> (\<forall>(n', u', t') \<in> set (ct_runs s). t' \<le> n))"

lemma task_inv_step:
  assumes "task_inv K c s" and "steady_step R K c s s'"
  shows "task_inv K c s'"
proof -
  have step: "cron_step R K c s s'" and clock: "ct_clock s \<le> ct_clock s'"
    and late: "\<And>n u d. ct_phase s = Waiting n u d \<Longrightarrow> ct_phase s' = Planning \<Longrightarrow> u \<le> ct_clock s'"
    using assms(2) by (auto simp: steady_step_def)
  have runs: "\<forall>(n, u, t) \<in> set (ct_runs s). planned_right K c n u \<and> u \<le> t \<and> t \<le> ct_clock s'"
    using assms(1) clock by (fastforce simp: task_inv_def)
  from step show ?thesis
  proof (cases rule: cron_step.cases)
    case (plan now u)
    then have "planned_right K c now u" using next_after_some [OF plan(3)] by (simp add: planned_right_def)
    with plan runs assms(1) clock show ?thesis by (fastforce simp: task_inv_def)
  next
    case (fire n u d now)
    then have "planned_right K c n u" "\<forall>(n', u', t') \<in> set (ct_runs s). t' \<le> n" using assms(1) by (auto simp: task_inv_def)
    moreover have "u \<le> now" using late [OF fire(2)] fire(1) by simp
    ultimately show ?thesis using fire runs assms(1) by (fastforce simp: task_inv_def sorted_wrt_append)
  qed (use runs assms(1) in \<open>auto simp: task_inv_def\<close>)
qed

lemma task_inv_reachable:
  "(steady_step R K c)\<^sup>*\<^sup>* (cron_spawn now) s \<Longrightarrow> task_inv K c s"
proof (induction rule: rtranclp_induct)
  case base
  show ?case by (simp add: cron_spawn_def task_inv_def)
next
  case (step y z)
  then show ?case by (blast intro: task_inv_step)
qed

text \<open>A cron task runs every occurrence once, on time and in order, on a clock that runs forward. Each
  run is for the first matching minute after the clock reading it was planned at; it starts no
  earlier than that minute; and the next run is planned at a reading no earlier than the start of
  the one before, so that no occurrence is run twice and none is skipped but those that passed
  during a run.\<close>

theorem cron_task_runs_once:
  assumes "(steady_step R K c)\<^sup>*\<^sup>* (cron_spawn now) s"
  shows "(\<forall>(n, u, t) \<in> set (ct_runs s). u \<le> t \<and> n < u \<and> cron_matches K c u \<and>
            (\<forall>w. n < w \<and> w < u \<and> w mod minutes 1 = 0 \<longrightarrow> \<not> cron_matches K c w))
    \<and> sorted_wrt (\<lambda>(n, u, t) (n', u', t'). t \<le> n' \<and> u < u') (ct_runs s) \<and> distinct (map (fst \<circ> snd) (ct_runs s))"
proof -
  have inv: "task_inv K c s" by (rule task_inv_reachable [OF assms])
  have runs: "planned_right K c n u \<and> u \<le> t" if "(n, u, t) \<in> set (ct_runs s)" for n u t
    using inv that by (auto simp: task_inv_def)
  have less: "u < u'" if "(n, u, t) \<in> set (ct_runs s)" "(n', u', t') \<in> set (ct_runs s)" "t \<le> n'" for n u t n' u' t'
    using runs [OF that(1)] runs [OF that(2)] that(3) by (simp add: planned_right_def)
  have order: "sorted_wrt (\<lambda>(n, u, t) (n', u', t'). t \<le> n') (ct_runs s)" using inv by (simp add: task_inv_def)
  have sorted: "sorted_wrt (\<lambda>(n, u, t) (n', u', t'). t \<le> n' \<and> u < u') (ct_runs s)"
  proof (rule sorted_wrt_mono_rel [OF _ order])
    fix x y :: "timestamp \<times> timestamp \<times> timestamp"
    assume a: "x \<in> set (ct_runs s)" "y \<in> set (ct_runs s)" "(case x of (n, u, t) \<Rightarrow> \<lambda>(n', u', t'). t \<le> n') y"
    obtain n u t n' u' t' where "x = (n, u, t)" "y = (n', u', t')" by (metis prod_cases3)
    with a less [of n u t n' u' t'] show "(case x of (n, u, t) \<Rightarrow> \<lambda>(n', u', t'). t \<le> n' \<and> u < u') y" by simp
  qed
  then have "sorted_wrt (<) (map (fst \<circ> snd) (ct_runs s))"
    unfolding sorted_wrt_map by (rule sorted_wrt_mono_rel [rotated]) auto
  then have "distinct (map (fst \<circ> snd) (ct_runs s))" by (simp add: strict_sorted_iff)
  moreover have "\<forall>(n, u, t) \<in> set (ct_runs s). u \<le> t \<and> n < u \<and> cron_matches K c u \<and>
      (\<forall>w. n < w \<and> w < u \<and> w mod minutes 1 = 0 \<longrightarrow> \<not> cron_matches K c w)"
    using runs by (auto simp: planned_right_def)
  ultimately show ?thesis using sorted by blast
qed

text \<open>The sleep is measured by another clock. When the system clock shows less than the occurrence after
  it, as it may when it is slewed or set back, the same occurrence is found and run again.\<close>

lemma next_demo:
  "next_after demo_range demo_calendar demo_cron now = Some (Some (minutes 1))" if "now \<in> {7, 8}" for now
proof -
  have "MAX_MINUTES = Suc 2635199" by (simp add: MAX_MINUTES_def)
  have loop: "next_loop demo_range demo_calendar demo_cron MAX_MINUTES (minutes 1) = Some (Some (minutes 1))"
    unfolding \<open>MAX_MINUTES = Suc 2635199\<close> next_loop.simps by (intro if_P demo_matches)
  have "checked_add demo_range (now - now mod minutes 1) (minutes 1) = Some (minutes 1)"
    using that by (auto simp: checked_add_def in_range_def demo_range_def minutes_def)
  then show ?thesis unfolding next_after_def by (simp only: option.case loop)
qed

theorem cron_task_early_wake_runs_twice:
  "\<exists>s. (cron_step demo_range demo_calendar demo_cron)\<^sup>*\<^sup>* (cron_spawn 0) s \<and> map (fst \<circ> snd) (ct_runs s) = [minutes 1, minutes 1]"
proof -
  let ?st = "cron_step demo_range demo_calendar demo_cron"
  let ?s = "\<lambda>ph t runs. \<lparr>ct_phase = ph, ct_clock = t, ct_runs = runs\<rparr> :: cron_task"
  have plan: "?st (?s Planning t runs) (?s (Waiting n (minutes 1) (sleep_time n (minutes 1))) n runs)" if "n \<in> {7, 8}" for t n runs
    using cron_step.plan [of "?s Planning t runs", OF _ next_demo [OF that]] by simp
  have fire: "?st (?s (Waiting n u d) t runs) (?s Planning 8 (runs @ [(n, u, 8)]))" for n u d t runs
    using cron_step.fire [of "?s (Waiting n u d) t runs" n u d demo_range demo_calendar demo_cron 8] by simp
  let ?wait = "\<lambda>n. Waiting n (minutes 1) (sleep_time n (minutes 1))"
  have "?st\<^sup>*\<^sup>* (?s Planning 0 []) (?s (?wait 7) 7 [])" by (rule r_into_rtranclp, rule plan) simp
  also have "?st (?s (?wait 7) 7 []) (?s Planning 8 ([] @ [(7, minutes 1, 8)]))" by (rule fire)
  also (rtranclp.rtrancl_into_rtrancl) have "?st (?s Planning 8 ([] @ [(7, minutes 1, 8)])) (?s (?wait 8) 8 ([] @ [(7, minutes 1, 8)]))"
    by (rule plan) simp
  also (rtranclp.rtrancl_into_rtrancl) have "?st (?s (?wait 8) 8 ([] @ [(7, minutes 1, 8)]))
      (?s Planning 8 (([] @ [(7, minutes 1, 8)]) @ [(8, minutes 1, 8)]))" by (rule fire)
  finally (rtranclp.rtrancl_into_rtrancl) have "?st\<^sup>*\<^sup>* (?s Planning 0 []) (?s Planning 8 (([] @ [(7, minutes 1, 8)]) @ [(8, minutes 1, 8)]))" .
  then show ?thesis unfolding cron_spawn_def by force
qed

theorem cron_task_runs_once_witness:
  "\<exists>s. (steady_step demo_range demo_calendar demo_cron)\<^sup>*\<^sup>* (cron_spawn 0) s \<and> map (fst \<circ> snd) (ct_runs s) = [minutes 1]
     \<and> distinct (map (fst \<circ> snd) (ct_runs s))"
proof -
  let ?st = "steady_step demo_range demo_calendar demo_cron"
  let ?w = "\<lparr>ct_phase = Waiting 7 (minutes 1) (sleep_time 7 (minutes 1)), ct_clock = 7, ct_runs = []\<rparr>"
  let ?f = "\<lparr>ct_phase = Planning, ct_clock = minutes 1, ct_runs = [(7, minutes 1, minutes 1)]\<rparr>"
  have "?st (cron_spawn 0) ?w"
    using cron_step.plan [of "cron_spawn 0", OF _ next_demo [of 7]] by (simp add: steady_step_def cron_spawn_def)
  moreover have "?st ?w ?f"
    using cron_step.fire [of ?w 7 "minutes 1" "sleep_time 7 (minutes 1)" demo_range demo_calendar demo_cron "minutes 1"]
    by (simp add: steady_step_def minutes_def)
  ultimately have r: "?st\<^sup>*\<^sup>* (cron_spawn 0) ?f" by (rule converse_rtranclp_into_rtranclp [OF _ r_into_rtranclp])
  from cron_task_runs_once [OF r] have "distinct (map (fst \<circ> snd) (ct_runs ?f))" by blast
  with r show ?thesis by (intro exI [of _ ?f]) simp
qed

end
