(* ===== verification/Extractors.thy ===== *)
theory Extractors
  imports Middleware Credentials
begin

text \<open>
  Structured validation (\<open>klauthed-core/src/validation\<close>) and the request body extractors of the web
  layer (\<open>klauthed-web/src/extract\<close>). Reading the body from the socket and parsing it as JSON into the
  handler's type are actix and serde: the first is the outcome \<open>body\<close>, the second the parameter
  \<open>parse\<close>. The type's own \<open>validate\<close> is the parameter of \<open>Validated\<close>.
\<close>

section \<open>Validation errors\<close>

record validation_error =
  ve_field :: "string option"
  ve_code :: string
  ve_message :: string

definition validation_error_new :: "string \<Rightarrow> string \<Rightarrow> string \<Rightarrow> validation_error" where
  "validation_error_new field code message = \<lparr>ve_field = Some field, ve_code = code, ve_message = message\<rparr>"

definition validation_error_global :: "string \<Rightarrow> string \<Rightarrow> validation_error" where
  "validation_error_global code message = \<lparr>ve_field = None, ve_code = code, ve_message = message\<rparr>"

definition validation_error_show :: "validation_error \<Rightarrow> string" where
  "validation_error_show e = (case ve_field e of Some field \<Rightarrow> field @ '': '' @ ve_message e | None \<Rightarrow> ve_message e)"

type_synonym validation_errors = "validation_error list"

definition validation_add :: "string \<Rightarrow> string \<Rightarrow> string \<Rightarrow> validation_errors \<Rightarrow> validation_errors" where
  "validation_add field code message es = es @ [validation_error_new field code message]"

definition validation_add_global :: "string \<Rightarrow> string \<Rightarrow> validation_errors \<Rightarrow> validation_errors" where
  "validation_add_global code message es = es @ [validation_error_global code message]"

definition validation_merge :: "validation_errors \<Rightarrow> validation_errors \<Rightarrow> validation_errors" where
  "validation_merge other es = es @ other"

definition into_result :: "validation_errors \<Rightarrow> validation_errors + unit" where
  "into_result es = (if es = [] then Inr () else Inl es)"

text \<open>The separator is a colon before the first error and a semicolon before every other.\<close>

fun show_errors :: "nat \<Rightarrow> validation_errors \<Rightarrow> string" where
  "show_errors i [] = []"
| "show_errors i (e # es) = (if i = 0 then '': '' else ''; '') @ validation_error_show e @ show_errors (Suc i) es"

definition validation_errors_show :: "validation_errors \<Rightarrow> string" where
  "validation_errors_show es = ''validation failed ('' @ show_nat (length es) @ '' error(s))'' @ show_errors 0 es"

definition validation_classify :: "error_category \<times> string" where
  "validation_classify = (UnprocessableEntity, ''validation.failed'')"

lemma show_errors_join:
  "show_errors 0 es = (if es = [] then [] else '': '' @ str_join ''; '' (map validation_error_show es))"
proof -
  have later: "show_errors (Suc i) es = concat (map (\<lambda>e. ''; '' @ validation_error_show e) es)" for i and es :: validation_errors
    by (induction es arbitrary: i) simp_all
  have join: "str_join ''; '' (w # ws) = w @ concat (map (\<lambda>v. ''; '' @ v) ws)" for w and ws :: "string list"
    by (induction ws arbitrary: w) simp_all
  show ?thesis by (cases es) (simp_all add: later join comp_def)
qed

section \<open>Extractors\<close>

text \<open>\<open>str::ends_with\<close>.\<close>

definition ends_with :: "string \<Rightarrow> string \<Rightarrow> bool" where
  "ends_with suf s = (length suf \<le> length s \<and> drop (length s - length suf) s = suf)"

definition is_json_content_type :: "string \<Rightarrow> bool" where
  "is_json_content_type v =
     (let essence = str_trim (hd (str_split (CHR '';'') v))
      in eq_ignore_ascii_case essence ''application/json'' \<or> ends_with ''+json'' (to_lowercase essence))"

text \<open>The body as read, or why it could not be; then its bytes as JSON.\<close>

definition parse_bytes :: "('y \<Rightarrow> string + 'a) \<Rightarrow> string + 'y \<Rightarrow> app_error + 'a" where
  "parse_bytes parse body =
     (case body of
        Inl e \<Rightarrow> Inl (bad_request (''could not read request body: '' @ e))
      | Inr bytes \<Rightarrow>
          (case parse bytes of
             Inl e \<Rightarrow> Inl (bad_request (''invalid JSON body: '' @ e))
           | Inr v \<Rightarrow> Inr v))"

definition parse_json ::
  "header_lib \<Rightarrow> ('y \<Rightarrow> string + 'a) \<Rightarrow> headers \<Rightarrow> string + 'y \<Rightarrow> app_error + 'a" where
  "parse_json H parse hs body =
     (case header_text H ''content-type'' hs of
        Some mime \<Rightarrow>
          if \<not> is_json_content_type mime
          then Inl (bad_request (''expected `application/json` content type, got `'' @ mime @ ''`''))
          else parse_bytes parse body
      | None \<Rightarrow> parse_bytes parse body)"

definition json_from_request ::
  "header_lib \<Rightarrow> ('y \<Rightarrow> string + 'a) \<Rightarrow> headers \<Rightarrow> string + 'y \<Rightarrow> app_error + 'a" where
  "json_from_request H parse hs body = parse_json H parse hs body"

definition validated_from_request ::
  "header_lib \<Rightarrow> ('y \<Rightarrow> string + 'a) \<Rightarrow> ('a \<Rightarrow> validation_errors + unit) \<Rightarrow> headers \<Rightarrow> string + 'y \<Rightarrow> app_error + 'a" where
  "validated_from_request H parse validate hs body =
     (case parse_json H parse hs body of
        Inl e \<Rightarrow> Inl e
      | Inr v \<Rightarrow>
          (case validate v of
             Inl es \<Rightarrow> Inl (from_domain validation_classify (validation_errors_show es))
           | Inr _ \<Rightarrow> Inr v))"

section \<open>Media types\<close>

text \<open>A media type, written in any case, with parameters and with blanks around it.\<close>

lemma trim_word: "w \<noteq> [] \<Longrightarrow> \<forall>c \<in> set w. \<not> is_ws c \<Longrightarrow> \<forall>c \<in> set p. is_ws c \<Longrightarrow> \<forall>c \<in> set q. is_ws c
  \<Longrightarrow> str_trim (p @ w @ q) = w"
proof -
  assume w: "w \<noteq> []" "\<forall>c \<in> set w. \<not> is_ws c" and p: "\<forall>c \<in> set p. is_ws c" and q: "\<forall>c \<in> set q. is_ws c"
  have front: "dropWhile is_ws (a @ w @ b) = w @ b" if "\<forall>c \<in> set a. is_ws c" for a b
    using that w by (induction a) (auto simp: neq_Nil_conv)
  have "dropWhile is_ws (rev q @ rev w @ []) = rev w"
    using q w by (subst dropWhile_append2) (auto simp: dropWhile_eq_self_iff hd_rev)
  then show ?thesis unfolding str_trim_def using front [OF p, of q] by simp
qed

lemma str_split_head: "d \<notin> set a \<Longrightarrow> hd (str_split d a) = a" "d \<notin> set a \<Longrightarrow> hd (str_split d (a @ d # b)) = a"
proof -
  assume d: "d \<notin> set a"
  have a: "split_by (\<lambda>c. c = d) a = [a]" by (rule split_by_no_sep) (use d in blast)
  then show "hd (str_split d a) = a" by (simp add: str_split_def)
  show "hd (str_split d (a @ d # b)) = a" using a split_by_append [of "\<lambda>c. c = d" d a b] by (simp add: str_split_def)
qed

lemma content_type_word:
  assumes "w \<noteq> []" and "\<forall>c \<in> set w. \<not> is_ws c \<and> c \<noteq> CHR '';''" and "ps = [] \<or> hd ps = CHR '';''"
  shows "is_json_content_type (w @ ps) \<longleftrightarrow> to_lowercase w = ''application/json'' \<or> ends_with ''+json'' (to_lowercase w)"
proof -
  have "hd (str_split (CHR '';'') (w @ ps)) = w"
    using assms str_split_head(1) [of "CHR '';''" w] str_split_head(2) [of "CHR '';''" w "tl ps"] by (cases ps) auto
  moreover have "str_trim w = w" using trim_word [of w "[]" "[]"] assms by simp
  moreover have "to_lowercase ''application/json'' = ''application/json''" by code_simp
  ultimately show ?thesis by (simp add: is_json_content_type_def eq_ignore_ascii_case_def)
qed

section \<open>What a handler receives\<close>

text \<open>A handler that takes a validated body runs on validated values only, and the caller is told
  which of the two went wrong. The extractor yields a value exactly when a content type, if one is
  readable, denotes JSON, the body was read, parses to that value, and the value passes its own
  validation; a request that fails before validation is answered 400; a well-formed body that
  fails validation is answered 422 with the code of a validation failure and a message that lists
  every recorded error in order.\<close>

theorem validated_body_guards_handler:
  assumes "(\<And>v. \<exists>es. validate v = into_result es)"
  shows "(validated_from_request H parse validate hs body = Inr v \<longleftrightarrow>
      (\<forall>mime. header_text H ''content-type'' hs = Some mime \<longrightarrow> is_json_content_type mime)
      \<and> (\<exists>b. body = Inr b \<and> parse b = Inr v) \<and> validate v = Inr ())"
    and "json_from_request H parse hs body = Inl e \<Longrightarrow>
      validated_from_request H parse validate hs body = Inl e \<and> status_code e = 400"
    and "json_from_request H parse hs body = Inr v \<Longrightarrow> validate v = Inl es \<Longrightarrow>
      \<exists>e. validated_from_request H parse validate hs body = Inl e \<and> status_code e = 422 \<and> ae_code e = ''validation.failed''
        \<and> ae_message e = ''validation failed ('' @ show_nat (length es) @ '' error(s)): ''
              @ str_join ''; '' (map validation_error_show es)"
proof -
  show "(validated_from_request H parse validate hs body = Inr v \<longleftrightarrow>
      (\<forall>mime. header_text H ''content-type'' hs = Some mime \<longrightarrow> is_json_content_type mime)
      \<and> (\<exists>b. body = Inr b \<and> parse b = Inr v) \<and> validate v = Inr ())"
    by (auto simp: validated_from_request_def parse_json_def parse_bytes_def split: option.splits sum.splits)
  show "validated_from_request H parse validate hs body = Inl e \<and> status_code e = 400"
    if "json_from_request H parse hs body = Inl e"
    using that by (auto simp: json_from_request_def validated_from_request_def parse_json_def parse_bytes_def status_code_def
        app_error_defs split: option.splits sum.splits if_splits)
  show "\<exists>e. validated_from_request H parse validate hs body = Inl e \<and> status_code e = 422 \<and> ae_code e = ''validation.failed''
        \<and> ae_message e = ''validation failed ('' @ show_nat (length es) @ '' error(s)): ''
              @ str_join ''; '' (map validation_error_show es)"
    if "json_from_request H parse hs body = Inr v" "validate v = Inl es"
  proof -
    have "es \<noteq> []" using assms [of v] that(2) by (auto simp: into_result_def split: if_splits)
    with that show ?thesis
      by (simp add: json_from_request_def validated_from_request_def from_domain_def validation_classify_def
          status_code_def validation_errors_show_def show_errors_join)
  qed
qed

end
