(* ===== verification/OAuthMetadata.thy ===== *)
theory OAuthMetadata
  imports OAuthSafety Oidc
begin

text \<open>
  The discovery document of the authorization server (\<open>klauthed-web/src/oauth/discovery.rs\<close> over the
  vocabulary of \<open>klauthed-protocol/src/oidc/metadata.rs\<close>) and its key set endpoint (\<open>jwks.rs\<close>). The
  document is what clients configure themselves from, so it is compared with what the token
  endpoint of the same configuration does.
\<close>

datatype subject_type = Subject_Public | Subject_Pairwise

datatype known_scope = KS_OpenId | KS_Profile | KS_Email | KS_Address | KS_Phone | KS_OfflineAccess

datatype oidc_scope = Scope_Known known_scope | Scope_Other string

fun scope_as_str :: "oidc_scope \<Rightarrow> string" where
  "scope_as_str (Scope_Known KS_OpenId) = ''openid''"
| "scope_as_str (Scope_Known KS_Profile) = ''profile''"
| "scope_as_str (Scope_Known KS_Email) = ''email''"
| "scope_as_str (Scope_Known KS_Address) = ''address''"
| "scope_as_str (Scope_Known KS_Phone) = ''phone''"
| "scope_as_str (Scope_Known KS_OfflineAccess) = ''offline_access''"
| "scope_as_str (Scope_Other s) = s"

record provider_metadata =
  pm_issuer :: string
  pm_authorization_endpoint :: "string option"
  pm_token_endpoint :: "string option"
  pm_userinfo_endpoint :: "string option"
  pm_jwks_uri :: "string option"
  pm_registration_endpoint :: "string option"
  pm_end_session_endpoint :: "string option"
  pm_response_types_supported :: "response_type list"
  pm_response_modes_supported :: "string list"
  pm_grant_types_supported :: "grant_type list"
  pm_subject_types_supported :: "subject_type list"
  pm_id_token_signing_alg_values_supported :: "string list"
  pm_userinfo_signing_alg_values_supported :: "string list"
  pm_request_object_signing_alg_values_supported :: "string list"
  pm_scopes_supported :: "oidc_scope list"
  pm_claims_supported :: "string list"
  pm_token_endpoint_auth_methods_supported :: "string list"
  pm_code_challenge_methods_supported :: "string list"
  pm_acr_values_supported :: "string list"
  pm_service_documentation :: "string option"
  pm_additional :: "(string \<times> json) list"

definition build_metadata :: "'s oauth_config \<Rightarrow> provider_metadata" where
  "build_metadata cfg =
     (let issuer = cfg_issuer cfg;
          grant_types = GT_AuthorizationCode # (if cfg_refresh_token_store cfg \<noteq> None then [GT_RefreshToken] else [])
      in \<lparr>pm_issuer = issuer,
          pm_authorization_endpoint = Some (issuer @ ''/oauth/authorize''),
          pm_token_endpoint = Some (issuer @ ''/oauth/token''),
          pm_userinfo_endpoint = None,
          pm_jwks_uri = None,
          pm_registration_endpoint = None,
          pm_end_session_endpoint = None,
          pm_response_types_supported = [RT_Code],
          pm_response_modes_supported = [],
          pm_grant_types_supported = grant_types,
          pm_subject_types_supported = [Subject_Public],
          pm_id_token_signing_alg_values_supported = [''HS256''],
          pm_userinfo_signing_alg_values_supported = [],
          pm_request_object_signing_alg_values_supported = [],
          pm_scopes_supported = map Scope_Known [KS_OpenId, KS_Email, KS_Profile, KS_OfflineAccess],
          pm_claims_supported = [''sub'', ''iss'', ''aud'', ''exp'', ''iat'', ''jti'', ''scope'', ''client_id''],
          pm_token_endpoint_auth_methods_supported = [''client_secret_basic'', ''client_secret_post'', ''none''],
          pm_code_challenge_methods_supported = [''S256'', ''plain''],
          pm_acr_values_supported = [],
          pm_service_documentation = None,
          pm_additional = []\<rparr>)"

definition discovery_handler :: "provider_metadata option \<Rightarrow> provider_metadata http_response" where
  "discovery_handler meta = (case meta of Some m \<Rightarrow> json_response 200 m | None \<Rightarrow> finish_response 404)"

definition jwks_handler :: "json_web_key list option \<Rightarrow> json_web_key list http_response" where
  "jwks_handler keys = (case keys of Some k \<Rightarrow> json_response 200 k | None \<Rightarrow> finish_response 404)"

section \<open>The document and the endpoints\<close>

text \<open>A request for the given grant, with every parameter the grant needs.\<close>

definition asks_grant :: "grant_type \<Rightarrow> token_request \<Rightarrow> bool" where
  "asks_grant g req \<longleftrightarrow> tr_grant_type req = g \<and> tr_code req \<noteq> None \<and> tr_refresh_token req \<noteq> None"

definition unsupported_grant :: "oauth_http \<Rightarrow> bool" where
  "unsupported_grant resp \<longleftrightarrow> (\<exists>d. resp = token_error UnsupportedGrantType d)"

lemma token_error_inject [simp]: "token_error c d = token_error c' d' \<longleftrightarrow> c = c' \<and> d = d'"
  by (simp add: token_error_def token_error_with_description_def)

definition bare_request :: "grant_type \<Rightarrow> token_request" where
  "bare_request g = \<lparr>tr_grant_type = g, tr_code = Some [], tr_redirect_uri = None, tr_client_id = None, tr_client_secret = None,
     tr_refresh_token = Some [], tr_code_verifier = None, tr_scope = None, tr_username = None, tr_password = None\<rparr>"

text \<open>The discovery document tells the truth about grants. A grant type is left out of it exactly when
  the token endpoint of the same configuration refuses every request for it, before any store is
  touched, as an unsupported grant type.\<close>

theorem metadata_grants_truthful:
  "g \<notin> set (pm_grant_types_supported (build_metadata cfg)) \<longleftrightarrow>
    (\<forall>req w. asks_grant g req \<longrightarrow>
      unsupported_grant (fst (token_endpoint E cfg req w)) \<and> snd (token_endpoint E cfg req w) = w)"
proof
  assume "g \<notin> set (pm_grant_types_supported (build_metadata cfg))"
  then show "\<forall>req w. asks_grant g req \<longrightarrow>
      unsupported_grant (fst (token_endpoint E cfg req w)) \<and> snd (token_endpoint E cfg req w) = w"
    by (cases g) (auto simp: build_metadata_def Let_def asks_grant_def unsupported_grant_def token_endpoint_def
        exchange_refresh_token_def split: if_splits option.splits)
next
  assume refused: "\<forall>req w. asks_grant g req \<longrightarrow>
      unsupported_grant (fst (token_endpoint E cfg req w)) \<and> snd (token_endpoint E cfg req w) = w"
  have "asks_grant g (bare_request g)" by (simp add: asks_grant_def bare_request_def)
  with refused have "unsupported_grant (fst (token_endpoint E cfg (bare_request g) undefined))" by blast
  then show "g \<notin> set (pm_grant_types_supported (build_metadata cfg))"
    by (auto simp: build_metadata_def Let_def unsupported_grant_def token_endpoint_def bare_request_def
        exchange_authorization_code_def exchange_refresh_token_def split: if_splits option.splits)
qed

text \<open>The document promises HTTP Basic authentication of clients, but the endpoint reads credentials from
  the form only: a confidential client that authenticates by header, so that the form has no
  secret, is refused.\<close>

lemma basic_authentication_refused:
  assumes "tr_grant_type req = GT_AuthorizationCode" and "tr_code req = Some code" and "tr_client_id req = Some cid"
    and "tr_client_secret req = None" and "fst (cfg_client_get cfg cid (w_store w)) = Inr (Some client)"
    and "cl_client_secret_hash client = Some h"
  shows "''client_secret_basic'' \<in> set (pm_token_endpoint_auth_methods_supported (build_metadata cfg))"
    and "fst (token_endpoint E cfg req w) = token_error InvalidClient ''client_secret is required for confidential clients''"
proof -
  show "''client_secret_basic'' \<in> set (pm_token_endpoint_auth_methods_supported (build_metadata cfg))"
    by (simp add: build_metadata_def Let_def)
  show "fst (token_endpoint E cfg req w) = token_error InvalidClient ''client_secret is required for confidential clients''"
    using assms by (cases "cfg_client_get cfg cid (w_store w)")
      (simp add: token_endpoint_def exchange_authorization_code_def authenticate_client_def on_store_def)
qed

section \<open>Two requests clients make\<close>

text \<open>A challenge sent without its method, which RFC 7636 reads as \<open>plain\<close>, is dropped: the code that is
  issued can be exchanged without any verifier.\<close>

lemma challenge_without_method_dropped:
  assumes "ar_code_challenge_method req = None" and "acb_build C R now ttl (code_request req subject uri) i = (Inr c, i')"
  shows "ac_pkce_challenge c = None" and "tr_redirect_uri treq = ac_redirect_uri c \<Longrightarrow> check_code_binding C treq (ac_client_id c) c = None"
proof -
  show none: "ac_pkce_challenge c = None"
    using assms(2) by (auto simp: acb_build_def code_request_def assms(1) Let_def acb_set_scope_def acb_set_redirect_uri_def
        acb_set_nonce_def acb_new_def split: option.splits prod.splits sum.splits)
  show "check_code_binding C treq (ac_client_id c) c = None" if "tr_redirect_uri treq = ac_redirect_uri c"
    using that by (auto simp: check_code_binding_def none split: option.splits)
qed

text \<open>A registered redirect URI with a query of its own gets a second question mark, so that its last
  parameter swallows the authorization code.\<close>

lemma redirect_url_second_query:
  "redirect_url ''https://app/cb?x=1'' [(''code'', ''abc'')] = ''https://app/cb?x=1?code=abc''"
  by code_simp

end
