(* ===== verification/Transactions.thy ===== *)
theory Transactions
  imports SqlOutbox
begin

text \<open>
  Units of work (\<open>klauthed-data/src/transaction\<close>): the sqlx and the MongoDB executor and the no-op
  one. A session keeps what the database has committed and the writes of the open transaction. The
  work runs on the session: statements issued on the handle are buffered there and seen by later
  reads of the same handle, anything the work does through the pool changes the committed state at
  once. What becomes of the \<open>k\<close>-th call of the driver is the parameter \<open>F\<close>: it is answered, refused
  without effect, or carried out with its answer lost, so that a commit may be durable although the
  executor sees it fail. A transaction that is dropped is rolled back.
\<close>

record 'd session =
  sn_committed :: 'd
  sn_pending :: "('d \<Rightarrow> 'd) list"
  sn_calls :: nat

type_synonym ('d, 'e, 'a) work = "'d session \<Rightarrow> ('e + 'a) \<times> 'd session"
type_synonym faults = "nat \<Rightarrow> stmt_outcome"

definition tx_view :: "'d session \<Rightarrow> 'd" where
  "tx_view s = fold (\<lambda>w. w) (sn_pending s) (sn_committed s)"

definition driver_call :: "faults \<Rightarrow> ('d session \<Rightarrow> 'd session) \<Rightarrow> 'd session \<Rightarrow> (string + unit) \<times> 'd session" where
  "driver_call F act s =
     (let s1 = s\<lparr>sn_calls := Suc (sn_calls s)\<rparr>
      in case F (sn_calls s) of
           Answered \<Rightarrow> (Inr (), act s1)
         | Refused m \<Rightarrow> (Inl m, s1)
         | LostAnswer m \<Rightarrow> (Inl m, act s1))"

definition tx_begin :: "'d session \<Rightarrow> 'd session" where
  "tx_begin s = s\<lparr>sn_pending := []\<rparr>"

definition tx_commit :: "'d session \<Rightarrow> 'd session" where
  "tx_commit s = s\<lparr>sn_committed := tx_view s, sn_pending := []\<rparr>"

definition tx_drop :: "'d session \<Rightarrow> 'd session" where
  "tx_drop s = s\<lparr>sn_pending := []\<rparr>"

text \<open>What a work may do on the handle: a write, and a read of its own view.\<close>

definition tx_execute :: "faults \<Rightarrow> (string \<Rightarrow> 'e) \<Rightarrow> ('d \<Rightarrow> 'd) \<Rightarrow> ('d, 'e, unit) work" where
  "tx_execute F err w s =
     (case driver_call F (\<lambda>s. s\<lparr>sn_pending := sn_pending s @ [w]\<rparr>) s of
        (Inl m, s1) \<Rightarrow> (Inl (err m), s1)
      | (Inr _, s1) \<Rightarrow> (Inr (), s1))"

definition tx_fetch :: "faults \<Rightarrow> (string \<Rightarrow> 'e) \<Rightarrow> ('d \<Rightarrow> 'a) \<Rightarrow> ('d, 'e, 'a) work" where
  "tx_fetch F err q s =
     (case driver_call F id s of
        (Inl m, s1) \<Rightarrow> (Inl (err m), s1)
      | (Inr _, s1) \<Rightarrow> (Inr (q (tx_view s1)), s1))"

definition work_bind :: "('d, 'e, 'a) work \<Rightarrow> ('a \<Rightarrow> ('d, 'e, 'b) work) \<Rightarrow> ('d, 'e, 'b) work" where
  "work_bind m f s = (case m s of (Inl e, s1) \<Rightarrow> (Inl e, s1) | (Inr x, s1) \<Rightarrow> f x s1)"

section \<open>Executors\<close>

text \<open>\<open>conv\<close> is the conversion \<open>E: From<DataError>\<close>.\<close>

definition sqlx_run :: "faults \<Rightarrow> (data_error \<Rightarrow> 'e) \<Rightarrow> ('d, 'e, 'a) work \<Rightarrow> ('d, 'e, 'a) work" where
  "sqlx_run F conv work s =
     (case driver_call F tx_begin s of
        (Inl m, s1) \<Rightarrow> (Inl (conv (DE_Sqlx m)), s1)
      | (Inr _, s1) \<Rightarrow>
          (case work s1 of
             (Inr v, s2) \<Rightarrow>
               (case driver_call F tx_commit s2 of
                  (Inl m, s3) \<Rightarrow> (Inl (conv (DE_Sqlx m)), tx_drop s3)
                | (Inr _, s3) \<Rightarrow> (Inr v, s3))
           | (Inl e, s2) \<Rightarrow> (Inl e, tx_drop (snd (driver_call F tx_drop s2)))))"

definition mongo_run :: "faults \<Rightarrow> (data_error \<Rightarrow> 'e) \<Rightarrow> ('d, 'e, 'a) work \<Rightarrow> ('d, 'e, 'a) work" where
  "mongo_run F conv work s =
     (case driver_call F id s of
        (Inl m, s1) \<Rightarrow> (Inl (conv (DE_Transaction (''start session: '' @ m))), s1)
      | (Inr _, s1) \<Rightarrow>
          (case driver_call F tx_begin s1 of
             (Inl m, s2) \<Rightarrow> (Inl (conv (DE_Transaction (''start transaction: '' @ m))), s2)
           | (Inr _, s2) \<Rightarrow>
               (case work s2 of
                  (Inr v, s3) \<Rightarrow>
                    (case driver_call F tx_commit s3 of
                       (Inl m, s4) \<Rightarrow> (Inl (conv (DE_Transaction (''commit: '' @ m))), tx_drop s4)
                     | (Inr _, s4) \<Rightarrow> (Inr v, s4))
                | (Inl e, s3) \<Rightarrow> (Inl e, tx_drop (snd (driver_call F tx_drop s3))))))"

definition noop_transact :: "('d, 'e, 'a) work \<Rightarrow> ('d, 'e, 'a) work" where
  "noop_transact f s = f s"

section \<open>The contract of an executor\<close>

text \<open>A work that stays on the handle changes nothing committed by itself.\<close>

definition on_handle :: "('d, 'e, 'a) work \<Rightarrow> bool" where
  "on_handle work \<longleftrightarrow> (\<forall>s. sn_committed (snd (work s)) = sn_committed s)"

text \<open>A work that answers leaves an invariant of the view as it found it; one that fails may leave it
  broken.\<close>

definition keeps_inv :: "('d \<Rightarrow> bool) \<Rightarrow> ('d, 'e, 'a) work \<Rightarrow> bool" where
  "keeps_inv I work \<longleftrightarrow> (\<forall>s v s'. I (tx_view s) \<longrightarrow> work s = (Inr v, s') \<longrightarrow> I (tx_view s'))"

lemma on_handle_execute [intro]: "on_handle (tx_execute F err w)"
  by (auto simp: on_handle_def tx_execute_def driver_call_def Let_def split: stmt_outcome.splits)

lemma on_handle_fetch [intro]: "on_handle (tx_fetch F err q)"
  by (auto simp: on_handle_def tx_fetch_def driver_call_def Let_def split: stmt_outcome.splits)

lemma on_handle_bind [intro]: "on_handle m \<Longrightarrow> (\<And>x. on_handle (f x)) \<Longrightarrow> on_handle (work_bind m f)"
  by (auto simp: on_handle_def work_bind_def split: prod.splits sum.splits) (metis snd_conv)+

text \<open>What an executor promises: the outcome of a run is the work's, and the committed state is what the
  work saw when it answered; or the run answers an error and nothing is committed, or all that an
  answering work saw (the commit went through, its answer did not).\<close>

fun run_all :: "(('d, 'e, 'a) work \<Rightarrow> ('d, 'e, 'a) work) \<Rightarrow> ('d, 'e, 'a) work list \<Rightarrow> 'd session \<Rightarrow> 'd session" where
  "run_all run [] s = s"
| "run_all run (w # ws) s = run_all run ws (snd (run w s))"

lemma tx_view_clean: "sn_pending s = [] \<Longrightarrow> tx_view s = sn_committed s"
  by (simp add: tx_view_def)

locale unit_of_work =
  fixes run :: "('d, 'e, 'a) work \<Rightarrow> ('d, 'e, 'a) work"
  assumes run_ok: "on_handle work \<Longrightarrow> run work s = (Inr v, s') \<Longrightarrow>
      \<exists>s1 s2. sn_committed s1 = sn_committed s \<and> sn_pending s1 = [] \<and> work s1 = (Inr v, s2) \<and> sn_committed s' = tx_view s2"
    and run_err: "on_handle work \<Longrightarrow> run work s = (Inl e, s') \<Longrightarrow> sn_committed s' = sn_committed s \<or>
      (\<exists>s1 v s2. sn_committed s1 = sn_committed s \<and> sn_pending s1 = [] \<and> work s1 = (Inr v, s2) \<and> sn_committed s' = tx_view s2)"
begin

text \<open>An invariant that every work re-establishes before it answers holds of the committed state after
  any sequence of units of work, whatever failed and however far a failed work had come.\<close>

lemma run_all_invariant:
  assumes "\<forall>work \<in> set ws. on_handle work \<and> keeps_inv I work" and "I (sn_committed s)"
  shows "I (sn_committed (run_all run ws s))"
  using assms
proof (induction ws arbitrary: s)
  case (Cons w ws)
  obtain r s' where r: "run w s = (r, s')" by (cases "run w s")
  have w: "on_handle w" "keeps_inv I w" using Cons.prems(1) by simp_all
  have "sn_committed s' = sn_committed s \<or>
      (\<exists>s1 v s2. sn_committed s1 = sn_committed s \<and> sn_pending s1 = [] \<and> w s1 = (Inr v, s2) \<and> sn_committed s' = tx_view s2)"
    using run_ok [OF w(1)] run_err [OF w(1)] r by (cases r) blast+
  moreover have "I (tx_view s2)" if "sn_committed s1 = sn_committed s" "sn_pending s1 = []" "w s1 = (Inr v, s2)" for s1 s2 v
    using w(2) that Cons.prems(2) unfolding keeps_inv_def by (metis tx_view_clean)
  ultimately have "I (sn_committed s')" using Cons.prems(2) by auto
  with Cons.IH [of s'] Cons.prems(1) show ?case by (simp add: r)
qed simp

end

lemmas tx_defs = driver_call_def tx_begin_def tx_commit_def tx_drop_def Let_def

lemma on_handleD: "on_handle work \<Longrightarrow> work s = (r, s') \<Longrightarrow> sn_committed s' = sn_committed s"
  unfolding on_handle_def by (metis snd_conv)

lemma tx_view_simps [simp]: "tx_view (s\<lparr>sn_calls := n\<rparr>) = tx_view s" "tx_view (s\<lparr>sn_pending := []\<rparr>) = sn_committed s"
  by (simp_all add: tx_view_def)

lemma driver_callE:
  assumes "driver_call F act s = (r, s')"
  obtains m where "r = Inl m" "s' = s\<lparr>sn_calls := Suc (sn_calls s)\<rparr>"
    | "s' = act (s\<lparr>sn_calls := Suc (sn_calls s)\<rparr>)"
  using assms by (auto simp: driver_call_def Let_def split: stmt_outcome.splits)

lemma driver_answered:
  "driver_call F act s = (Inr x, s') \<Longrightarrow> s' = act (s\<lparr>sn_calls := Suc (sn_calls s)\<rparr>)"
  by (auto simp: driver_call_def Let_def split: stmt_outcome.splits)

text \<open>Committing the work's transaction: all that it saw is durable if the call is carried out, nothing if
  it is refused, and nothing is left open.\<close>

lemma commit_cases:
  assumes "on_handle work" and "work s1 = (Inr v, s2)" and "driver_call F tx_commit s2 = (r, s3)"
  shows "sn_committed (tx_drop s3) = sn_committed s1 \<or> sn_committed (tx_drop s3) = tx_view s2"
    and "r = Inr () \<Longrightarrow> sn_committed s3 = tx_view s2"
  using on_handleD [OF assms(1,2)] assms(3)
  by (auto simp: tx_commit_def tx_drop_def dest!: driver_answered elim!: driver_callE)

lemma begin_clean:
  assumes "driver_call F act s = (r, s')" and "act = tx_begin \<or> act = tx_drop \<or> act = id"
  shows "sn_committed s' = sn_committed s"
    and "act = tx_begin \<Longrightarrow> r = Inr () \<Longrightarrow> sn_pending s' = []"
  using assms by (auto simp: tx_begin_def tx_drop_def dest: driver_answered elim!: driver_callE)

text \<open>The part both executors share, from the open transaction on.\<close>

definition finish_work :: "faults \<Rightarrow> (string \<Rightarrow> 'e) \<Rightarrow> ('d, 'e, 'a) work \<Rightarrow> ('d, 'e, 'a) work" where
  "finish_work F err work s1 =
     (case work s1 of
        (Inr v, s2) \<Rightarrow>
          (case driver_call F tx_commit s2 of
             (Inl m, s3) \<Rightarrow> (Inl (err m), tx_drop s3)
           | (Inr _, s3) \<Rightarrow> (Inr v, s3))
      | (Inl e, s2) \<Rightarrow> (Inl e, tx_drop (snd (driver_call F tx_drop s2))))"

lemma finish_cases:
  assumes "on_handle work" and "finish_work F err work s1 = (r, s')"
  shows "r = Inr v \<Longrightarrow> \<exists>s2. work s1 = (Inr v, s2) \<and> sn_committed s' = tx_view s2"
    and "r = Inl e \<Longrightarrow> sn_committed s' = sn_committed s1 \<or> (\<exists>v s2. work s1 = (Inr v, s2) \<and> sn_committed s' = tx_view s2)"
proof -
  have "(\<exists>v. r = Inr v \<and> (\<exists>s2. work s1 = (Inr v, s2) \<and> sn_committed s' = tx_view s2)) \<or>
      (\<exists>e. r = Inl e \<and> (sn_committed s' = sn_committed s1 \<or> (\<exists>v s2. work s1 = (Inr v, s2) \<and> sn_committed s' = tx_view s2)))"
  proof (cases "work s1")
    case (Pair x s2)
    show ?thesis
    proof (cases x)
      case (Inl e)
      then have "sn_committed s' = sn_committed s1"
        using assms(2) Pair on_handleD [OF assms(1) Pair] begin_clean(1) [of F tx_drop s2 "fst (driver_call F tx_drop s2)"]
        by (auto simp: finish_work_def tx_drop_def)
      with Inl assms(2) Pair show ?thesis by (auto simp: finish_work_def)
    next
      case (Inr v)
      obtain c s3 where c: "driver_call F tx_commit s2 = (c, s3)" by (cases "driver_call F tx_commit s2")
      from commit_cases [OF assms(1) _ c] Pair Inr c assms(2) show ?thesis
        by (cases c) (auto simp: finish_work_def)
    qed
  qed
  then show "r = Inr v \<Longrightarrow> \<exists>s2. work s1 = (Inr v, s2) \<and> sn_committed s' = tx_view s2"
    and "r = Inl e \<Longrightarrow> sn_committed s' = sn_committed s1 \<or> (\<exists>v s2. work s1 = (Inr v, s2) \<and> sn_committed s' = tx_view s2)"
    by auto
qed

lemma run_cases:
  assumes "on_handle work" and "(\<exists>e. r = Inl e) \<and> sn_committed s' = sn_committed s \<or>
     (\<exists>s1. sn_committed s1 = sn_committed s \<and> sn_pending s1 = [] \<and> finish_work F err work s1 = (r, s'))"
  shows "r = Inr v \<Longrightarrow>
      \<exists>s1 s2. sn_committed s1 = sn_committed s \<and> sn_pending s1 = [] \<and> work s1 = (Inr v, s2) \<and> sn_committed s' = tx_view s2"
    and "r = Inl e \<Longrightarrow> sn_committed s' = sn_committed s \<or>
      (\<exists>s1 v s2. sn_committed s1 = sn_committed s \<and> sn_pending s1 = [] \<and> work s1 = (Inr v, s2) \<and> sn_committed s' = tx_view s2)"
  using assms finish_cases [OF assms(1)] by (auto, metis+)

lemma sqlx_run_finish:
  assumes "sqlx_run F conv work s = (r, s')"
  shows "(\<exists>e. r = Inl e) \<and> sn_committed s' = sn_committed s \<or>
     (\<exists>s1. sn_committed s1 = sn_committed s \<and> sn_pending s1 = [] \<and> finish_work F (\<lambda>m. conv (DE_Sqlx m)) work s1 = (r, s'))"
proof -
  have run: "sqlx_run F conv work s =
      (case driver_call F tx_begin s of
         (Inl m, s1) \<Rightarrow> (Inl (conv (DE_Sqlx m)), s1) | (Inr _, s1) \<Rightarrow> finish_work F (\<lambda>m. conv (DE_Sqlx m)) work s1)"
    by (simp only: sqlx_run_def finish_work_def)
  obtain b s1 where b: "driver_call F tx_begin s = (b, s1)" by (cases "driver_call F tx_begin s")
  with begin_clean [OF b] assms [unfolded run] show ?thesis by (cases b) auto
qed

lemma mongo_run_finish:
  assumes "mongo_run F conv work s = (r, s')"
  shows "(\<exists>e. r = Inl e) \<and> sn_committed s' = sn_committed s \<or>
     (\<exists>s1. sn_committed s1 = sn_committed s \<and> sn_pending s1 = [] \<and>
        finish_work F (\<lambda>m. conv (DE_Transaction (''commit: '' @ m))) work s1 = (r, s'))"
proof -
  let ?finish = "finish_work F (\<lambda>m. conv (DE_Transaction (''commit: '' @ m))) work"
  have run: "mongo_run F conv work s =
      (case driver_call F id s of
         (Inl m, s1) \<Rightarrow> (Inl (conv (DE_Transaction (''start session: '' @ m))), s1)
       | (Inr _, s1) \<Rightarrow>
           (case driver_call F tx_begin s1 of
              (Inl m, s2) \<Rightarrow> (Inl (conv (DE_Transaction (''start transaction: '' @ m))), s2)
            | (Inr _, s2) \<Rightarrow> ?finish s2))"
    by (simp only: mongo_run_def finish_work_def)
  obtain c s0 where c: "driver_call F id s = (c, s0)" by (cases "driver_call F id s")
  obtain b s1 where b: "driver_call F tx_begin s0 = (b, s1)" by (cases "driver_call F tx_begin s0")
  have "sn_committed s0 = sn_committed s" "sn_committed s1 = sn_committed s0" "b = Inr () \<Longrightarrow> sn_pending s1 = []"
    using begin_clean [OF c] begin_clean [OF b] by simp_all
  with assms [unfolded run] c b show ?thesis by (cases c; cases b) auto
qed

interpretation sqlx: unit_of_work "sqlx_run F conv" for F conv
  by unfold_locales (erule run_cases [OF _ sqlx_run_finish refl], assumption)+

interpretation mongo: unit_of_work "mongo_run F conv" for F conv
  by unfold_locales (erule run_cases [OF _ mongo_run_finish refl], assumption)+

text \<open>C21: units of work are all or nothing. With either executor, and whatever calls of the driver are
  refused or carried out without an answer, the commit included, an invariant that each work
  re-establishes before it answers holds of the committed state after any sequence of units of work
  that stay on the handle; in particular a work that wrote half of its changes and then failed leaves
  no trace.\<close>

theorem units_of_work_keep_invariant:
  assumes "\<forall>work \<in> set ws. on_handle work \<and> keeps_inv I work" and "I (sn_committed s)"
  shows "I (sn_committed (run_all (sqlx_run F conv) ws s)) \<and> I (sn_committed (run_all (mongo_run F conv) ws s))"
  using sqlx.run_all_invariant [OF assms] mongo.run_all_invariant [OF assms] by blast

text \<open>A transfer between two accounts that keeps their sum: the debit and the credit are two statements.\<close>

definition demo_transfer :: "faults \<Rightarrow> int \<Rightarrow> (int \<times> int, data_error, unit) work" where
  "demo_transfer F n = work_bind (tx_execute F DE_Sqlx (\<lambda>(a, b). (a - n, b))) (\<lambda>_. tx_execute F DE_Sqlx (\<lambda>(a, b). (a, b + n)))"

lemma demo_transfer_ok: "on_handle (demo_transfer F n)" "keeps_inv (\<lambda>(a, b). a + b = 10) (demo_transfer F n)"
proof -
  show "on_handle (demo_transfer F n)" unfolding demo_transfer_def by (intro on_handle_bind on_handle_execute)
  show "keeps_inv (\<lambda>(a, b). a + b = 10) (demo_transfer F n)"
    by (auto simp: keeps_inv_def demo_transfer_def work_bind_def tx_execute_def driver_call_def tx_view_def Let_def
        split: stmt_outcome.splits prod.splits)
qed

definition demo_faults :: faults where
  "demo_faults k = (if k = 2 then Refused ''connection lost'' else if k = 7 then LostAnswer ''connection lost'' else Answered)"

definition demo_session :: "(int \<times> int) session" where
  "demo_session = \<lparr>sn_committed = (10, 0), sn_pending = [], sn_calls = 0\<rparr>"

theorem units_of_work_keep_invariant_witness:
  "(case sn_committed (run_all (sqlx_run demo_faults id) [demo_transfer demo_faults 3, demo_transfer demo_faults 4] demo_session) of
      (a, b) \<Rightarrow> a + b = 10)
   \<and> sn_committed (run_all (sqlx_run demo_faults id) [demo_transfer demo_faults 3, demo_transfer demo_faults 4] demo_session) = (6, 4)"
proof -
  have "(\<lambda>(a, b). a + b = 10)
      (sn_committed (run_all (sqlx_run demo_faults id) [demo_transfer demo_faults 3, demo_transfer demo_faults 4] demo_session))"
    by (rule conjunct1 [OF units_of_work_keep_invariant]) (simp_all add: demo_transfer_ok, simp add: demo_session_def)
  moreover have "sn_committed (run_all (sqlx_run demo_faults id) [demo_transfer demo_faults 3, demo_transfer demo_faults 4] demo_session)
      = (6, 4)" by code_simp
  ultimately show ?thesis by blast
qed

section \<open>The outbox beside a unit of work\<close>

text \<open>\<open>SqlOutbox::enqueue\<close> takes its connection from the pool and commits by itself: inside a work it acts
  on the committed state.\<close>

definition pool_enqueue ::
  "entry_codec \<Rightarrow> sql_env \<Rightarrow> outbox_entry list \<Rightarrow> ('b \<times> entry_row sql_db, data_error, unit) work" where
  "pool_enqueue K E es s =
     (case sql_outbox_enqueue K E es (snd (sn_committed s)) of
        (r, ob) \<Rightarrow> (r, s\<lparr>sn_committed := (fst (sn_committed s), ob)\<rparr>))"

text \<open>The events of a unit of work that is rolled back are published all the same: the change of state is
  undone, its events stay in the outbox.\<close>

lemma outbox_events_survive_rollback:
  assumes "fault_free E" and "entry_codec_ok K" and "sql_outbox_ok K (snd (sn_committed s))"
    and "\<forall>e \<in> set es. entry_storable K e" and "distinct (map oe_id es)"
    and "\<forall>e \<in> set es. oid_show K (oe_id e) \<notin> er_id ` set (db_rows (snd (sn_committed s)))"
    and "F = (\<lambda>_. Answered)"
    and "work = work_bind (tx_execute F DE_Sqlx (\<lambda>(b, ob). (change b, ob)))
      (\<lambda>_. work_bind (pool_enqueue K E es) (\<lambda>_ s. (Inl failure, s)))"
  obtains s' where "sqlx_run F id work s = (Inl failure, s')" and "fst (sn_committed s') = fst (sn_committed s)"
    and "sql_unpublished K (snd (sn_committed s')) = sql_unpublished K (snd (sn_committed s)) \<union> oe_id ` set es"
proof -
  obtain ob where ob: "sql_outbox_enqueue K E es (snd (sn_committed s)) = (Inr (), ob)"
    "sql_unpublished K ob = sql_unpublished K (snd (sn_committed s)) \<union> oe_id ` set es"
    using sql_enqueue_spec [OF assms(1-6)] by blast
  have "\<exists>s'. sqlx_run F id work s = (Inl failure, s') \<and> sn_committed s' = (fst (sn_committed s), ob)"
    using assms(7,8) ob(1)
    by (simp add: sqlx_run_def driver_call_def Let_def tx_begin_def tx_drop_def work_bind_def tx_execute_def pool_enqueue_def)
  then show ?thesis using that ob(2) by fastforce
qed

end
