(* ===== verification/AuditOutbox.thy ===== *)
theory AuditOutbox
  imports Platform SqlOutbox
begin

text \<open>
  The audit sink over the SQL outbox (\<open>klauthed-platform/src/audit/sink.rs\<close>), with the texts of the
  configuration and data errors (\<open>config_error.rs\<close>, \<open>data_error.rs\<close>) it passes on. The text of a
  wrapped library error is the one kept in the constructor. An event is serialised by serde into an
  object with sorted keys that leaves out absent fields; this cannot fail, so the sink's own
  serialisation error has no branch.
\<close>

section \<open>Error texts\<close>

fun config_error_show :: "config_error \<Rightarrow> string" where
  "config_error_show (CE_FileNotFound p) = ''config file not found: '' @ p"
| "config_error_show (CE_UnsupportedFormat p) =
     ''unsupported config file format for '' @ in_quotes p @ '' (expected .toml or .json)''"
| "config_error_show (CE_ParseError p m) = ''config parse error in '' @ in_quotes p @ '': '' @ m"
| "config_error_show (CE_MissingRequired k) = ''required config key is missing: '' @ k"
| "config_error_show (CE_VaultRequired k p) =
     ''secret '' @ in_quotes k @ '' must be sourced from Vault in profile '' @ in_quotes p @ '', not from files or environment''"
| "config_error_show (CE_InvalidProviderChain p m) = ''invalid provider chain for profile '' @ in_quotes p @ '': '' @ m"
| "config_error_show (CE_Deserialization k m) = ''deserialization error for key '' @ in_quotes k @ '': '' @ m"
| "config_error_show (CE_VaultAuth v m) = ''vault authentication failed via '' @ v @ '': '' @ m"
| "config_error_show (CE_VaultRequest p m) = ''vault request to '' @ in_quotes p @ '' failed: '' @ m"
| "config_error_show (CE_VaultSecretNotFound p) = ''vault secret not found at path: '' @ p"
| "config_error_show (CE_MissingEnv v) = ''missing required environment variable: '' @ v"
| "config_error_show (CE_Io m) = ''I/O error: '' @ m"
| "config_error_show (CE_Toml m) = ''TOML error: '' @ m"
| "config_error_show (CE_Json m) = ''JSON error: '' @ m"
| "config_error_show (CE_Http m) = ''HTTP transport error: '' @ m"
| "config_error_show (CE_ConfigServer u m) = ''config server request to '' @ in_quotes u @ '' failed: '' @ m"

fun data_error_show :: "data_error \<Rightarrow> string" where
  "data_error_show (DE_Config e) = ''configuration error: '' @ config_error_show e"
| "data_error_show (DE_UnsupportedSystem s) = ''database system '' @ in_quotes s @ '' is not supported by this connector''"
| "data_error_show (DE_UnsupportedCacheBackend s) = ''cache backend '' @ in_quotes s @ '' is not supported by this connector''"
| "data_error_show (DE_UnsupportedMessagingBackend s) =
     ''messaging backend '' @ in_quotes s @ '' is not supported by this connector''"
| "data_error_show (DE_MissingUrl s) = ''no connection URL could be derived for '' @ s"
| "data_error_show (DE_Messaging m) = ''messaging setup error: '' @ m"
| "data_error_show (DE_Outbox m) = ''transactional outbox error: '' @ m"
| "data_error_show (DE_Transaction m) = ''transaction error: '' @ m"
| "data_error_show (DE_Idempotency m) = ''idempotency store error: '' @ m"
| "data_error_show (DE_Migration m) = ''migration error: '' @ m"
| "data_error_show (DE_LockHeld k) = ''lock '' @ in_quotes k @ '' is already held''"
| "data_error_show (DE_FeatureDisabled f) = ''this backend requires the '' @ in_quotes f @ '' cargo feature to be enabled''"
| "data_error_show (DE_Io m) = ''I/O error: '' @ m"
| "data_error_show (DE_Sqlx m) = ''database error: '' @ m"
| "data_error_show (DE_Redis m) = ''redis error: '' @ m"
| "data_error_show (DE_Nats m) = ''nats connection error: '' @ m"
| "data_error_show (DE_RabbitMq m) = ''rabbitmq connection error: '' @ m"
| "data_error_show (DE_Kafka m) = ''kafka connection error: '' @ m"
| "data_error_show (DE_Storage m) = ''storage error: '' @ m"
| "data_error_show (DE_InvalidPage m) = ''invalid pagination request: '' @ m"
| "data_error_show (DE_InvalidCursor m) = ''invalid or corrupted cursor: '' @ m"

section \<open>The sink\<close>

definition put_opt :: "string \<Rightarrow> string option \<Rightarrow> (string \<times> json) list \<Rightarrow> (string \<times> json) list" where
  "put_opt k v m = (case v of None \<Rightarrow> m | Some x \<Rightarrow> bt_insert k (JString x) m)"

fun audit_outcome_str :: "audit_outcome \<Rightarrow> string" where
  "audit_outcome_str Audit_Success = ''success''"
| "audit_outcome_str Audit_Failure = ''failure''"

definition audit_to_json :: "id_codec \<Rightarrow> entry_codec \<Rightarrow> audit_event \<Rightarrow> json" where
  "audit_to_json IK K e =
     (let m = bt_insert ''id'' (JString (id_to_string IK (au_id e))) [];
          m = bt_insert ''occurred_at'' (JString (ts_show K (au_occurred_at e))) m;
          m = bt_insert ''action'' (JString (au_action e)) m;
          m = put_opt ''actor'' (au_actor e) m;
          m = put_opt ''tenant'' (au_tenant e) m;
          m = put_opt ''resource_type'' (au_resource_type e) m;
          m = put_opt ''resource_id'' (au_resource_id e) m;
          m = bt_insert ''outcome'' (JString (audit_outcome_str (au_outcome e))) m;
          m = (if au_metadata e = [] then m else bt_insert ''metadata'' (JObject (map (apsnd JString) (au_metadata e))) m)
      in JObject m)"

definition audit_entry :: "id_codec \<Rightarrow> entry_codec \<Rightarrow> nat \<Rightarrow> audit_event \<Rightarrow> outbox_entry" where
  "audit_entry IK K fresh e =
     \<lparr>oe_id = fresh, oe_aggregate_type = ''audit'',
      oe_aggregate_id = (case au_actor e of Some a \<Rightarrow> a | None \<Rightarrow> ''system''),
      oe_event_type = au_action e, oe_sequence = 0, oe_payload = audit_to_json IK K e,
      oe_occurred_at = au_occurred_at e, oe_published = False, oe_published_at = None\<rparr>"

definition outbox_audit_record ::
  "id_codec \<Rightarrow> entry_codec \<Rightarrow> sql_env \<Rightarrow> nat \<Rightarrow> audit_event \<Rightarrow> entry_row sql_db \<Rightarrow> (platform_error + unit) \<times> entry_row sql_db" where
  "outbox_audit_record IK K E fresh e db =
     (case sql_outbox_enqueue K E [audit_entry IK K fresh e] db of
        (Inl d, db1) \<Rightarrow> (Inl (PE_Backend (''outbox enqueue: '' @ data_error_show d)), db1)
      | (Inr _, db1) \<Rightarrow> (Inr (), db1))"

section \<open>What is recorded can be read\<close>

text \<open>What the stored document says of the event: no field of the event is lost, and two events with the
  same document agree on everything a reader of the trail can ask.\<close>

lemma put_opt_get: "map_of (put_opt k v m) k' = (if k' = k \<and> v \<noteq> None then map_option JString v else map_of m k')"
  by (auto simp: put_opt_def split: option.splits)

lemma audit_json_fields:
  assumes "audit_to_json IK K e = JObject m"
  shows "map_of m ''action'' = Some (JString (au_action e))"
    and "map_of m ''actor'' = map_option JString (au_actor e)"
    and "map_of m ''tenant'' = map_option JString (au_tenant e)"
    and "map_of m ''resource_type'' = map_option JString (au_resource_type e)"
    and "map_of m ''resource_id'' = map_option JString (au_resource_id e)"
    and "map_of m ''outcome'' = Some (JString (audit_outcome_str (au_outcome e)))"
    and "map_of m ''occurred_at'' = Some (JString (ts_show K (au_occurred_at e)))"
    and "map_of m ''id'' = Some (JString (id_to_string IK (au_id e)))"
    and "map_of m ''metadata'' = (if au_metadata e = [] then None else Some (JObject (map (apsnd JString) (au_metadata e))))"
  using assms by (auto simp: audit_to_json_def Let_def put_opt_get)

text \<open>An audit event that was recorded reaches the trail exactly once. One that the caller is told was not
  recorded is reported as an internal error; the table is as it was, or holds the event after all when
  only the answer of the commit was lost.\<close>

theorem audit_event_delivered:
  assumes "fault_free E" and "entry_codec_ok K" and "sql_outbox_ok K db" and "entry_storable K (audit_entry IK K fresh e)"
    and "oid_show K fresh \<notin> er_id ` set (db_rows db)"
    and "0 < or_batch_size r" and "or_batch_size r < 2 ^ 63" and "card (insert fresh (sql_unpublished K db)) \<le> k * or_batch_size r"
  shows "\<exists>db1 db2 sent. outbox_audit_record IK K E fresh e db = (Inr (), db1)
    \<and> (\<exists>row \<in> set (db_rows db1). row_to_entry K row = Inr (audit_entry IK K fresh e))
    \<and> deliver_with (sql_outbox_fetch K E) (sql_outbox_mark K E) k r now db1 [] = (db2, sent)
    \<and> distinct sent \<and> set sent = insert fresh (sql_unpublished K db)"
proof -
  let ?e = "audit_entry IK K fresh e"
  have id: "oe_id ?e = fresh" by (simp add: audit_entry_def)
  have "db_effect (sql_outbox_enqueue K E [?e] db) = (Inr (), stored_row K ?e # db_rows db)"
    unfolding sql_outbox_enqueue_def using insert_entries_effect [OF assms(1,2), of "[?e]"] assms(4,5)
    by (simp only: list.distinct if_False) (rule db_tx_ok [OF assms(1)], simp add: id)
  moreover obtain db1 where db1: "sql_outbox_enqueue K E [?e] db = (Inr (), db1)" "sql_outbox_ok K db1"
    "sql_unpublished K db1 = insert fresh (sql_unpublished K db)"
    using sql_enqueue_spec [OF assms(1-3), of "[?e]"] assms(4,5) by (auto simp: id)
  ultimately have "stored_row K ?e \<in> set (db_rows db1)" by (simp add: db_effect_def)
  moreover have "row_to_entry K (stored_row K ?e) = Inr ?e" by (rule stored_roundtrip(1) [OF assms(2,4)])
  moreover have "outbox_audit_record IK K E fresh e db = (Inr (), db1)" using db1(1) by (simp add: outbox_audit_record_def)
  ultimately show ?thesis
    using sql_outbox.deliver_exactly_once [of E K db1 r k now "[]"] assms(1,2,6-8) db1(2,3) by auto
qed

lemma audit_record_failure:
  assumes "outbox_audit_record IK K E fresh e db = (Inl err, db')"
  shows "platform_error_category err = Internal"
    and "db_rows db' = db_rows db \<or> db_rows db' = db_rows (snd (outbox_audit_record IK K (answering E) fresh e db))"
proof -
  let ?run = "\<lambda>E. sql_outbox_enqueue K E [audit_entry IK K fresh e] db"
  show "platform_error_category err = Internal"
    using assms by (auto simp: outbox_audit_record_def split: prod.splits sum.splits)
  have "snd (outbox_audit_record IK K E fresh e db) = snd (?run E)" for E
    by (simp add: outbox_audit_record_def split: prod.split sum.split)
  then show "db_rows db' = db_rows db \<or> db_rows db' = db_rows (snd (outbox_audit_record IK K (answering E) fresh e db))"
    using sql_outbox_all_or_nothing(1) [of K E "[audit_entry IK K fresh e]", unfolded all_or_nothing_def, rule_format, of db]
      arg_cong [OF assms, of snd]
    by (auto simp: db_effect_def)
qed

end
