(* ===== verification/Scaffold.thy ===== *)
theory Scaffold
  imports ConfigBuild Extractors Mfa
begin

text \<open>
  The project generator of the command line tool (\<open>klauthed-cli/src/scaffold.rs\<close>): validation of the
  service name, the conditional blocks and placeholders of the templates, and the writing of the
  files. The bundled templates and the crate version are parameters. The file system is the list of
  its files and of its directories; a path is the list of its components. Which operation fails on
  which path is the parameter \<open>F\<close>.
\<close>

section \<open>Names and options\<close>

datatype scaffold_error = SC_InvalidName string | SC_TargetExists "string list" | SC_Io "string list" string

datatype database = Db_Postgres | Db_Mysql | Db_Sqlite

fun database_feature :: "database \<Rightarrow> string" where
  "database_feature Db_Postgres = ''postgres''"
| "database_feature Db_Mysql = ''mysql''"
| "database_feature Db_Sqlite = ''sqlite''"

fun database_system :: "database \<Rightarrow> string" where
  "database_system Db_Postgres = ''postgres''"
| "database_system Db_Mysql = ''mysql''"
| "database_system Db_Sqlite = ''sqlite''"

fun sample_url :: "database \<Rightarrow> string \<Rightarrow> string" where
  "sample_url Db_Postgres name = ''postgres://localhost:5432/'' @ name"
| "sample_url Db_Mysql name = ''mysql://localhost:3306/'' @ name"
| "sample_url Db_Sqlite name = ''sqlite://'' @ name @ ''.db?mode=rwc''"

record scaffold_options =
  so_with_jwt :: bool
  so_database :: "database option"
  so_with_scheduler :: bool

definition feature_names :: "scaffold_options \<Rightarrow> string list" where
  "feature_names opts =
     [''core'', ''web'', ''observability''] @ (if so_with_jwt opts then [''security''] else [])
     @ (case so_database opts of Some db \<Rightarrow> [database_feature db] | None \<Rightarrow> [])
     @ (if so_with_scheduler opts then [''scheduler''] else [])"

definition feature_list :: "scaffold_options \<Rightarrow> string" where
  "feature_list opts = str_join '', '' (map (\<lambda>f. [CHR 0x22] @ f @ [CHR 0x22]) (feature_names opts))"

text \<open>\<open>env!("CARGO_PKG_VERSION")\<close> is the parameter \<open>version\<close>.\<close>

definition klauthed_req :: "string \<Rightarrow> string" where
  "klauthed_req version =
     (case str_split (CHR ''.'') version of
        major # minor # _ \<Rightarrow> major @ ''.'' @ minor
      | _ \<Rightarrow> version)"

definition is_ascii_alphabetic :: "char \<Rightarrow> bool" where
  "is_ascii_alphabetic c = (let b = (of_char c :: nat) in 65 \<le> b \<and> b \<le> 90 \<or> 97 \<le> b \<and> b \<le> 122)"

definition validate_name :: "string \<Rightarrow> scaffold_error + unit" where
  "validate_name name =
     (let starts_with_letter = (case name of c # _ \<Rightarrow> is_ascii_alphabetic c | [] \<Rightarrow> False);
          body_ok = list_all (\<lambda>c. is_ascii_alphanumeric c \<or> c = CHR ''-'' \<or> c = CHR ''_'') name
      in if starts_with_letter \<and> body_ok then Inr () else Inl (SC_InvalidName name))"

section \<open>Conditional blocks\<close>

definition strip_suffix :: "string \<Rightarrow> string \<Rightarrow> string option" where
  "strip_suffix suf s = (if ends_with suf s then Some (take (length s - length suf) s) else None)"

definition marker :: "string \<Rightarrow> string \<Rightarrow> string option" where
  "marker p line =
     (case str_strip_prefix p (str_trim line) of
        None \<Rightarrow> None
      | Some s \<Rightarrow> strip_suffix ''__'' s)"

type_synonym flags = "(string \<times> bool) list"

definition is_set :: "flags \<Rightarrow> string \<Rightarrow> bool" where
  "is_set flags name = (case find (\<lambda>(f, _). f = name) flags of Some (_, v) \<Rightarrow> v | None \<Rightarrow> False)"

definition cond_holds :: "flags \<Rightarrow> string \<Rightarrow> bool" where
  "cond_holds flags cond =
     (case str_strip_prefix ''!'' cond of
        Some name \<Rightarrow> \<not> is_set flags name
      | None \<Rightarrow> is_set flags cond)"

text \<open>The loop over the lines; the stack of open blocks has its top first.\<close>

fun cond_loop :: "flags \<Rightarrow> string list \<Rightarrow> bool list \<Rightarrow> string" where
  "cond_loop flags [] stack = []"
| "cond_loop flags (line # lines) stack =
     (case marker ''// __IF '' line of
        Some cond \<Rightarrow> cond_loop flags lines (cond_holds flags cond # stack)
      | None \<Rightarrow>
          (case marker ''// __END '' line of
             Some _ \<Rightarrow> cond_loop flags lines (tl stack)
           | None \<Rightarrow>
               (if list_all (\<lambda>inc. inc) stack then line @ [CHR 0x0A] else []) @ cond_loop flags lines stack))"

definition apply_conditionals :: "string \<Rightarrow> flags \<Rightarrow> string" where
  "apply_conditionals template flags = cond_loop flags (str_lines template) []"

section \<open>Placeholders\<close>

text \<open>\<open>str::replace\<close> with a non-empty pattern: the matches from the left, not overlapping.\<close>

function str_replace :: "string \<Rightarrow> string \<Rightarrow> string \<Rightarrow> string" where
  "str_replace pat rep s =
     (if s = [] \<or> pat = [] then s
      else if take (length pat) s = pat then rep @ str_replace pat rep (drop (length pat) s)
      else hd s # str_replace pat rep (tl s))"
  by pat_completeness auto
termination
  by (relation "measure (\<lambda>(_, _, s). length s)") auto

declare str_replace.simps [simp del]

definition option_flags :: "scaffold_options \<Rightarrow> flags" where
  "option_flags opts =
     [(''jwt'', so_with_jwt opts), (''db'', so_database opts \<noteq> None), (''scheduler'', so_with_scheduler opts)]"

definition render :: "string \<Rightarrow> string \<Rightarrow> string \<Rightarrow> scaffold_options \<Rightarrow> string" where
  "render version template name opts =
     (let (system, url) = (case so_database opts of
             Some db \<Rightarrow> (database_system db, sample_url db name)
           | None \<Rightarrow> ([], []));
          t = apply_conditionals template (option_flags opts);
          t = str_replace ''__NAME__'' name t;
          t = str_replace ''__KLAUTHED_REQ__'' (klauthed_req version) t;
          t = str_replace ''__FEATURES__'' (feature_list opts) t;
          t = str_replace ''__DB_SYSTEM__'' system t
      in str_replace ''__DB_URL__'' url t)"

record templates =
  tm_cargo :: string
  tm_main :: string
  tm_config :: string
  tm_gitignore :: string
  tm_readme :: string

definition scaffold_files :: "string \<Rightarrow> templates \<Rightarrow> string \<Rightarrow> scaffold_options \<Rightarrow> (string list \<times> string) list" where
  "scaffold_files version T name opts =
     [([''Cargo.toml''], render version (tm_cargo T) name opts),
      ([''src'', ''main.rs''], render version (tm_main T) name opts),
      ([''config'', ''default.toml''], render version (tm_config T) name opts),
      ([''.gitignore''], render version (tm_gitignore T) name opts),
      ([''README.md''], render version (tm_readme T) name opts)]"

section \<open>Writing the files\<close>

type_synonym path = "string list"

record file_system =
  fs_files :: "(path \<times> string) list"
  fs_dirs :: "path list"

text \<open>What \<open>read_dir\<close>, \<open>create_dir_all\<close> and \<open>write\<close> answer on a path when they fail.\<close>

datatype fs_call = Fs_ReadDir | Fs_CreateDirAll | Fs_Write

type_synonym fs_env = "fs_call \<Rightarrow> path \<Rightarrow> string option"

definition fs_exists :: "path \<Rightarrow> file_system \<Rightarrow> bool" where
  "fs_exists p fs = (p \<in> set (fs_dirs fs @ map fst (fs_files fs)))"

definition has_entries :: "path \<Rightarrow> file_system \<Rightarrow> bool" where
  "has_entries p fs = list_ex (\<lambda>q. length q = Suc (length p) \<and> take (length p) q = p) (fs_dirs fs @ map fst (fs_files fs))"

text \<open>Creating a directory with its parents, and writing a file.\<close>

definition fs_mkdirs :: "path \<Rightarrow> file_system \<Rightarrow> file_system" where
  "fs_mkdirs p fs = fs\<lparr>fs_dirs := fs_dirs fs @ map (\<lambda>n. take n p) [0..<Suc (length p)]\<rparr>"

definition fs_put :: "path \<Rightarrow> string \<Rightarrow> file_system \<Rightarrow> file_system" where
  "fs_put p contents fs = fs\<lparr>fs_files := (p, contents) # filter (\<lambda>(q, _). q \<noteq> p) (fs_files fs)\<rparr>"

definition write_file :: "fs_env \<Rightarrow> path \<Rightarrow> string \<Rightarrow> file_system \<Rightarrow> (scaffold_error + unit) \<times> file_system" where
  "write_file F p contents fs =
     (case F Fs_CreateDirAll (butlast p) of
        Some m \<Rightarrow> (Inl (SC_Io (butlast p) m), fs)
      | None \<Rightarrow>
          (let fs1 = fs_mkdirs (butlast p) fs
           in case F Fs_Write p of
                Some m \<Rightarrow> (Inl (SC_Io p m), fs1)
              | None \<Rightarrow> (Inr (), fs_put p contents fs1)))"

fun write_all :: "fs_env \<Rightarrow> path \<Rightarrow> (path \<times> string) list \<Rightarrow> path list \<Rightarrow> file_system \<Rightarrow> (scaffold_error + path list) \<times> file_system" where
  "write_all F dir [] written fs = (Inr written, fs)"
| "write_all F dir ((rel, contents) # fls) written fs =
     (case write_file F (dir @ rel) contents fs of
        (Inl e, fs1) \<Rightarrow> (Inl e, fs1)
      | (Inr _, fs1) \<Rightarrow> write_all F dir fls (written @ [rel]) fs1)"

definition scaffold ::
  "fs_env \<Rightarrow> string \<Rightarrow> templates \<Rightarrow> string \<Rightarrow> path \<Rightarrow> scaffold_options \<Rightarrow> file_system \<Rightarrow> (scaffold_error + path list) \<times> file_system" where
  "scaffold F version T name dir opts fs =
     (case validate_name name of
        Inl e \<Rightarrow> (Inl e, fs)
      | Inr _ \<Rightarrow>
          (if fs_exists dir fs
           then (case F Fs_ReadDir dir of
                   Some m \<Rightarrow> (Inl (SC_Io dir m), fs)
                 | None \<Rightarrow>
                     if has_entries dir fs then (Inl (SC_TargetExists dir), fs)
                     else write_all F dir (scaffold_files version T name opts) [] fs)
           else write_all F dir (scaffold_files version T name opts) [] fs))"

section \<open>Templates mean what they show\<close>

text \<open>A template as its author sees it: lines, and blocks that depend on a flag or on its absence, nested
  at will, their markers indented and their end labelled as one likes.\<close>

datatype tmpl = TLine string | TBlock string bool string "tmpl list" string

definition if_line :: "string \<Rightarrow> bool \<Rightarrow> string \<Rightarrow> string" where
  "if_line indent neg flag = indent @ ''// __IF '' @ (if neg then ''!'' else []) @ flag @ ''__''"

definition end_line :: "string \<Rightarrow> string \<Rightarrow> string" where
  "end_line indent label = indent @ ''// __END '' @ label @ ''__''"

fun tmpl_lines :: "tmpl \<Rightarrow> string list" where
  "tmpl_lines (TLine l) = [l]"
| "tmpl_lines (TBlock indent neg flag body label) =
     if_line indent neg flag # concat (map tmpl_lines body) @ [end_line indent label]"

text \<open>What it should render to: the lines of the blocks whose condition holds.\<close>

fun tmpl_meaning :: "flags \<Rightarrow> tmpl \<Rightarrow> string list" where
  "tmpl_meaning flags (TLine l) = [l]"
| "tmpl_meaning flags (TBlock indent neg flag body label) =
     (if neg \<noteq> is_set flags flag then concat (map (tmpl_meaning flags) body) else [])"

text \<open>Ordinary lines are not markers; flags are not written with an exclamation mark of their own; a line
  break or a final carriage return is no part of a line.\<close>

definition one_line :: "string \<Rightarrow> bool" where
  "one_line l \<longleftrightarrow> CHR 0x0A \<notin> set l \<and> (l = [] \<or> last l \<noteq> CHR 0x0D)"

fun tmpl_ok :: "tmpl \<Rightarrow> bool" where
  "tmpl_ok (TLine l) \<longleftrightarrow> one_line l \<and> marker ''// __IF '' l = None \<and> marker ''// __END '' l = None"
| "tmpl_ok (TBlock indent neg flag body label) \<longleftrightarrow>
     list_all is_ws indent \<and> CHR 0x0A \<notin> set (indent @ flag @ label) \<and> take 1 flag \<noteq> ''!'' \<and> list_all tmpl_ok body"

definition unlines :: "string list \<Rightarrow> string" where
  "unlines ls = concat (map (\<lambda>l. l @ [CHR 0x0A]) ls)"

lemma trim_indented: "w \<noteq> [] \<Longrightarrow> \<not> is_ws (hd w) \<Longrightarrow> \<not> is_ws (last w) \<Longrightarrow> list_all is_ws p \<Longrightarrow> str_trim (p @ w) = w"
proof -
  assume w: "w \<noteq> []" "\<not> is_ws (hd w)" "\<not> is_ws (last w)" and p: "list_all is_ws p"
  have "dropWhile is_ws (p @ w) = w"
    using p w by (subst dropWhile_append2) (auto simp: list_all_iff dropWhile_eq_self_iff)
  moreover have "dropWhile is_ws (rev w) = rev w" using w by (simp add: dropWhile_eq_self_iff hd_rev)
  ultimately show ?thesis by (simp add: str_trim_def)
qed

lemma marker_indented:
  assumes "list_all is_ws indent" and "p = ''// __IF '' \<or> p = ''// __END ''"
  shows "marker p (indent @ p @ x @ ''__'') = Some x"
proof -
  have "str_trim (indent @ p @ x @ ''__'') = p @ x @ ''__''"
    using assms by (intro trim_indented) (auto simp: is_ws_def)
  then show ?thesis by (simp add: marker_def str_strip_prefix_def strip_suffix_def ends_with_def)
qed

lemma end_line_marker:
  assumes "list_all is_ws indent"
  shows "marker ''// __IF '' (end_line indent label) = None" and "marker ''// __END '' (end_line indent label) = Some label"
proof -
  have "str_trim (end_line indent label) = ''// __END '' @ label @ ''__''"
    unfolding end_line_def using assms by (intro trim_indented) (auto simp: is_ws_def)
  then show "marker ''// __IF '' (end_line indent label) = None" by (simp add: marker_def str_strip_prefix_def)
  show "marker ''// __END '' (end_line indent label) = Some label"
    unfolding end_line_def by (rule marker_indented [OF assms]) simp
qed

lemma if_line_marker:
  assumes "list_all is_ws indent" and "take 1 flag \<noteq> ''!''"
  shows "marker ''// __IF '' (if_line indent neg flag) = Some ((if neg then ''!'' else []) @ flag)"
  unfolding if_line_def using marker_indented [OF assms(1), of "''// __IF ''" "(if neg then ''!'' else []) @ flag"]
  by (simp del: append.simps)

lemma cond_holds_flag: "take 1 flag \<noteq> ''!'' \<Longrightarrow> cond_holds flags ((if neg then ''!'' else []) @ flag) = (neg \<noteq> is_set flags flag)"
  by (simp add: cond_holds_def str_strip_prefix_def)

lemma cond_loop_template:
  "tmpl_ok t \<Longrightarrow> cond_loop flags (tmpl_lines t @ rest) stack =
     (if list_all (\<lambda>inc. inc) stack then unlines (tmpl_meaning flags t) else []) @ cond_loop flags rest stack"
proof (induction t arbitrary: rest stack rule: tmpl_lines.induct)
  case (1 l)
  then show ?case by (simp add: unlines_def)
next
  case (2 indent neg flag body label)
  have body: "cond_loop flags (concat (map tmpl_lines ts) @ rest) stack =
      (if list_all (\<lambda>inc. inc) stack then unlines (concat (map (tmpl_meaning flags) ts)) else []) @ cond_loop flags rest stack"
    if "set ts \<subseteq> set body" for ts rest stack
    using that
  proof (induction ts)
    case (Cons t ts)
    then show ?case using "2.IH" [of t] "2.prems" by (auto simp: unlines_def list_all_iff)
  qed (simp add: unlines_def)
  have ok: "list_all is_ws indent" "take 1 flag \<noteq> ''!''" using "2.prems" by simp_all
  have "cond_loop flags (tmpl_lines (TBlock indent neg flag body label) @ rest) stack =
      cond_loop flags (concat (map tmpl_lines body) @ end_line indent label # rest) ((neg \<noteq> is_set flags flag) # stack)"
    using if_line_marker [OF ok] by (simp add: cond_holds_flag [OF ok(2)])
  also have "\<dots> = (if list_all (\<lambda>inc. inc) ((neg \<noteq> is_set flags flag) # stack)
        then unlines (concat (map (tmpl_meaning flags) body)) else []) @ cond_loop flags rest stack"
    using end_line_marker [OF ok(1)] by (subst body [OF subset_refl]) simp
  also have "\<dots> = (if list_all (\<lambda>inc. inc) stack then unlines (tmpl_meaning flags (TBlock indent neg flag body label)) else [])
      @ cond_loop flags rest stack"
    by (simp add: unlines_def)
  finally show ?case .
qed

lemma split_unlines: "\<forall>l \<in> set ls. CHR 0x0A \<notin> set l \<Longrightarrow> str_split (CHR 0x0A) (unlines ls) = ls @ [[]]"
proof (induction ls)
  case (Cons l ls)
  have "split_by (\<lambda>c. c = CHR 0x0A) l = [l]" by (rule split_by_no_sep) (use Cons.prems in auto)
  moreover have "split_by (\<lambda>c. c = CHR 0x0A) (l @ CHR 0x0A # unlines ls)
      = split_by (\<lambda>c. c = CHR 0x0A) l @ split_by (\<lambda>c. c = CHR 0x0A) (unlines ls)"
    by (rule split_by_append) simp
  ultimately show ?case using Cons by (simp add: str_split_def unlines_def)
qed (simp add: str_split_def unlines_def)

lemma str_lines_unlines: "\<forall>l \<in> set ls. one_line l \<Longrightarrow> str_lines (unlines ls) = ls"
  using split_unlines [of ls] by (auto simp: str_lines_def one_line_def strip_cr_def intro!: map_idI)

lemma tmpl_one_line: "tmpl_ok t \<Longrightarrow> l \<in> set (tmpl_lines t) \<Longrightarrow> one_line l"
  by (induction t rule: tmpl_lines.induct) (auto simp: one_line_def if_line_def end_line_def list_all_iff)

text \<open>A generated file is the template its author wrote, with the blocks of the chosen options. Rendering
  a template built from lines and nested conditional blocks yields, in order, exactly the lines
  that stand in no block whose condition fails; no marker line survives.\<close>

theorem conditionals_render:
  assumes "\<forall>t \<in> set ts. tmpl_ok t"
  shows "apply_conditionals (unlines (concat (map tmpl_lines ts))) flags = unlines (concat (map (tmpl_meaning flags) ts))"
proof -
  have "\<forall>l \<in> set (concat (map tmpl_lines ts)). one_line l" using assms tmpl_one_line by auto
  moreover have "cond_loop flags (concat (map tmpl_lines ts)) [] = unlines (concat (map (tmpl_meaning flags) ts))"
    using assms
  proof (induction ts)
    case (Cons t ts)
    then show ?case using cond_loop_template [of t flags "concat (map tmpl_lines ts)" "[]"] by (simp add: unlines_def)
  qed (simp add: unlines_def)
  ultimately show ?thesis by (simp add: apply_conditionals_def str_lines_unlines)
qed

section \<open>The generator overwrites nothing\<close>

text \<open>Every ancestor of a path that exists is a directory that exists.\<close>

definition fs_ok :: "file_system \<Rightarrow> bool" where
  "fs_ok fs \<longleftrightarrow> (\<forall>p n. fs_exists p fs \<longrightarrow> n < length p \<longrightarrow> fs_exists (take n p) fs)"

definition fs_read :: "path \<Rightarrow> file_system \<Rightarrow> string option" where
  "fs_read p fs = map_of (fs_files fs) p"

lemma fs_read_put: "fs_read q (fs_put p c fs) = (if q = p then Some c else fs_read q fs)"
proof -
  have "map_of (filter (\<lambda>(q', _). q' \<noteq> p) m) q = map_of m q" if "q \<noteq> p" for m :: "(path \<times> string) list"
    using that by (induction m) auto
  then show ?thesis by (simp add: fs_read_def fs_put_def)
qed

lemma fs_read_mkdirs [simp]: "fs_read q (fs_mkdirs p fs) = fs_read q fs"
  by (simp add: fs_read_def fs_mkdirs_def)

lemma write_all_frame:
  "write_all F dir fls written fs = (r, fs') \<Longrightarrow> (\<forall>rel \<in> fst ` set fls. q \<noteq> dir @ rel) \<Longrightarrow> fs_read q fs' = fs_read q fs"
proof (induction F dir fls written fs arbitrary: fs' rule: write_all.induct)
  case (2 F dir rel contents fls written fs)
  then show ?case
    by (auto simp: write_file_def Let_def fs_read_put split: option.splits)
qed simp

lemma write_all_writes:
  assumes "write_all F dir fls written fs = (Inr ps, fs')" and "distinct (map fst fls)"
  shows "ps = written @ map fst fls \<and> (\<forall>(rel, c) \<in> set fls. fs_read (dir @ rel) fs' = Some c)"
  using assms
proof (induction F dir fls written fs arbitrary: fs' rule: write_all.induct)
  case (2 F dir rel contents fls written fs)
  then obtain fs1 where w: "write_file F (dir @ rel) contents fs = (Inr (), fs1)"
      "write_all F dir fls (written @ [rel]) fs1 = (Inr ps, fs')"
    by (auto split: prod.splits sum.splits)
  have "fs_read (dir @ rel) fs1 = Some contents"
    using w(1) by (auto simp: write_file_def Let_def fs_read_put split: option.splits)
  moreover have "fs_read (dir @ rel) fs' = fs_read (dir @ rel) fs1"
    by (rule write_all_frame [OF w(2)]) (use "2.prems"(2) in auto)
  moreover have "ps = (written @ [rel]) @ map fst fls \<and> (\<forall>(rel, c) \<in> set fls. fs_read (dir @ rel) fs' = Some c)"
    by (rule "2.IH" [OF w(1) [symmetric] _ w(2)]) (use "2.prems"(2) in auto)
  ultimately show ?case by auto
qed simp

text \<open>A path that exists strictly below the target makes the target a directory with entries.\<close>

lemma below_has_entries:
  assumes "fs_ok fs" and "fs_exists q fs" and "take (length dir) q = dir" and "length dir < length q"
  shows "fs_exists dir fs \<and> has_entries dir fs"
proof -
  have "fs_exists dir fs" using assms unfolding fs_ok_def by metis
  moreover have "fs_exists (take (Suc (length dir)) q) fs"
    using assms by (cases "Suc (length dir) = length q") (auto simp: fs_ok_def)
  moreover have "take (length dir) (take (Suc (length dir)) q) = dir" "length (take (Suc (length dir)) q) = Suc (length dir)"
    using assms(3,4) by (simp_all add: min_def)
  ultimately show ?thesis unfolding has_entries_def fs_exists_def list_ex_iff by blast
qed

text \<open>Generating a project overwrites nothing, whatever fails on the way; and when it succeeds the
  files it names are there with their contents, under a target that was absent or empty.\<close>

theorem scaffold_overwrites_nothing:
  assumes "fs_ok fs" and "scaffold F version T name dir opts fs = (r, fs')"
  shows "fs_read q fs = Some c \<Longrightarrow> fs_read q fs' = Some c"
    and "r = Inr ps \<Longrightarrow> ps = map fst (scaffold_files version T name opts)
      \<and> (\<forall>(rel, text) \<in> set (scaffold_files version T name opts). fs_read (dir @ rel) fs' = Some text)"
proof -
  have rels: "\<forall>rel \<in> fst ` set (scaffold_files version T name opts). rel \<noteq> []"
    and dist: "distinct (map fst (scaffold_files version T name opts))"
    by (simp_all add: scaffold_files_def)
  show "fs_read q fs' = Some c" if q: "fs_read q fs = Some c"
  proof (cases "fs' = fs")
    case False
    then have run: "write_all F dir (scaffold_files version T name opts) [] fs = (r, fs')"
      and empty: "\<not> (fs_exists dir fs \<and> has_entries dir fs)"
      using assms(2) by (auto simp: scaffold_def split: sum.splits if_splits option.splits)
    have "fs_exists q fs" using q by (auto simp: fs_read_def fs_exists_def dest!: map_of_SomeD intro: rev_image_eqI)
    then have "q \<noteq> dir @ rel" if "rel \<noteq> []" for rel
      using below_has_entries [OF assms(1), of q dir] empty that by auto
    then show ?thesis using write_all_frame [OF run, of q] rels q by auto
  qed (simp add: q)
  show "ps = map fst (scaffold_files version T name opts)
      \<and> (\<forall>(rel, text) \<in> set (scaffold_files version T name opts). fs_read (dir @ rel) fs' = Some text)" if "r = Inr ps"
  proof -
    have "write_all F dir (scaffold_files version T name opts) [] fs = (Inr ps, fs')"
      using assms(2) that by (auto simp: scaffold_def split: sum.splits if_splits option.splits)
    from write_all_writes [OF this dist] show ?thesis by simp
  qed
qed

end
