(* ===== verification/WebApp.thy ===== *)
theory WebApp
  imports Wiring Health
begin

text \<open>
  The components of a web application and its starter (\<open>klauthed-web/src/app/mod.rs\<close>, \<open>starter.rs\<close>)
  and the two ways to serve it (\<open>server/mod.rs\<close>), as far as they decide what the application is made
  of: its health registry and its application data. Binding the socket and running the workers is
  actix. A pool is probed by \<open>sd_ping\<close> of the driver (\<open>SELECT 1\<close>), a Redis connection by the
  parameter \<open>ping\<close>.
\<close>

text \<open>Application data is keyed by type, as in actix: a second value of a type replaces the first.\<close>

record ('p, 'c) app_data =
  ad_pool :: "'p option"
  ad_redis :: "'c option"

datatype ('p, 'c) data_fn = ProvidePool 'p | ProvideRedis 'c

record ('p, 'c, 'w) components =
  co_registry :: "'w health_registry"
  co_data_fns :: "('p, 'c) data_fn list"

definition components_new :: "('p, 'c, 'w) components" where
  "components_new = \<lparr>co_registry = [], co_data_fns = []\<rparr>"

definition components_check :: "'w health_check \<Rightarrow> ('p, 'c, 'w) components \<Rightarrow> ('p, 'c, 'w) components" where
  "components_check c cs = cs\<lparr>co_registry := health_register c (co_registry cs)\<rparr>"

definition components_pool ::
  "('p, 'w) sql_driver \<Rightarrow> string \<Rightarrow> 'p \<Rightarrow> ('p, 'c, 'w) components \<Rightarrow> ('p, 'c, 'w) components" where
  "components_pool D name pool cs =
     cs\<lparr>co_registry := health_register (probe_check name (sd_ping D pool)) (co_registry cs),
        co_data_fns := co_data_fns cs @ [ProvidePool pool]\<rparr>"

definition components_redis ::
  "('c \<Rightarrow> 'w \<Rightarrow> (string + string) \<times> 'w) \<Rightarrow> string \<Rightarrow> 'c \<Rightarrow> ('p, 'c, 'w) components \<Rightarrow> ('p, 'c, 'w) components" where
  "components_redis ping name conn cs =
     cs\<lparr>co_registry := health_register (probe_check name (ping conn)) (co_registry cs),
        co_data_fns := co_data_fns cs @ [ProvideRedis conn]\<rparr>"

definition check_count :: "('p, 'c, 'w) components \<Rightarrow> nat" where
  "check_count cs = length (co_registry cs)"

fun provide :: "('p, 'c) data_fn \<Rightarrow> ('p, 'c) app_data \<Rightarrow> ('p, 'c) app_data" where
  "provide (ProvidePool p) d = d\<lparr>ad_pool := Some p\<rparr>"
| "provide (ProvideRedis c) d = d\<lparr>ad_redis := Some c\<rparr>"

text \<open>The registry and the data an application ends up with.\<close>

definition components_configure ::
  "('p, 'c, 'w) components \<Rightarrow> ('p, 'c) app_data \<Rightarrow> 'w health_registry option \<times> ('p, 'c) app_data" where
  "components_configure cs d = (Some (co_registry cs), fold provide (co_data_fns cs) d)"

definition app_data_new :: "('p, 'c) app_data" where
  "app_data_new = \<lparr>ad_pool = None, ad_redis = None\<rparr>"

definition serve_with_defaults :: "'w health_registry option \<times> ('p, 'c) app_data" where
  "serve_with_defaults = (None, app_data_new)"

definition serve_with_components :: "('p, 'c, 'w) components \<Rightarrow> 'w health_registry option \<times> ('p, 'c) app_data" where
  "serve_with_components cs = components_configure cs app_data_new"

section \<open>The web starter\<close>

datatype ('p, 'c, 'w) web_item = ConnItem 'c | ComponentsItem "('p, 'c, 'w) components"

definition web_configure ::
  "('p, 'w) sql_driver \<Rightarrow> ('c \<Rightarrow> 'w \<Rightarrow> (string + string) \<times> 'w) \<Rightarrow> config \<Rightarrow> ('p, ('p, 'c, 'w) web_item, 'w) startup
   \<Rightarrow> (starter_error + unit) \<times> ('p, ('p, 'c, 'w) web_item, 'w) startup" where
  "web_configure D ping config st =
     (case st of (ctx, w) \<Rightarrow>
        (let cs = components_new;
             cs = (case ctx_get ''AnyPool'' ctx of Some (CPool pool) \<Rightarrow> components_pool D ''database'' pool cs | _ \<Rightarrow> cs);
             cs = (case ctx_get ''other::ConnectionManager'' ctx of
                     Some (COther _ (ConnItem conn)) \<Rightarrow> components_redis ping ''redis'' conn cs
                   | _ \<Rightarrow> cs)
         in (Inr (), (ctx_register (COther ''Components'' (ComponentsItem cs)) ctx, w))))"

definition WebStarter ::
  "('p, 'w) sql_driver \<Rightarrow> ('c \<Rightarrow> 'w \<Rightarrow> (string + string) \<times> 'w) \<Rightarrow> ('p, ('p, 'c, 'w) web_item, 'w) starter" where
  "WebStarter D ping = \<lparr>st_name = ''web'', st_configure = web_configure D ping\<rparr>"

section \<open>From configuration to readiness\<close>

lemma run_starters_append:
  "run_starters config (ss @ [s]) st =
     (case run_starters config ss st of
        (Inl e, w) \<Rightarrow> (Inl e, w)
      | (Inr ctx, w) \<Rightarrow> (case st_configure s config (ctx, w) of (Inl e, st1) \<Rightarrow> (Inl e, snd st1) | (Inr _, st1) \<Rightarrow> (Inr (fst st1), snd st1)))"
  by (induction ss arbitrary: st) (auto split: prod.splits sum.splits)

lemma app_build_with_starter:
  "app_build (with_starter s b) w =
     (case app_build b w of
        (Inl e, w1) \<Rightarrow> (Inl e, w1)
      | (Inr ctx, w1) \<Rightarrow>
          (case st_configure s (ab_config b) (ctx, w1) of (Inl e, st1) \<Rightarrow> (Inl e, snd st1) | (Inr _, st1) \<Rightarrow> (Inr (fst st1), snd st1)))"
  by (simp add: app_build_def with_starter_def run_starters_append)

lemma no_connection:
  "app_build (web_app C D config) w = (Inr ctx, w') \<Longrightarrow> ctx_get ''other::ConnectionManager'' ctx = None"
  by (auto simp: web_app_build config_sections_def then_register_def register_section_def data_configure_def
      split: prod.splits sum.splits option.splits)

text \<open>C37: an application built from its configuration is ready exactly when its database answers. When
  startup with the section, data and web starters succeeds, the components it registers make an
  application whose readiness probe asks the pool opened at the configured URL and nothing else,
  answering 200 when the query succeeds and 503 when it fails, and whose handlers are given that
  same pool; without a database section there is no pool and the application is always ready.\<close>

theorem configured_app_readiness:
  fixes ctx :: "('p, ('p, 'c, 'w) web_item) app_context"
  assumes "app_build (with_starter (WebStarter D ping) (web_app C D config)) w = (Inr ctx, w')"
  shows "\<exists>cs. ctx_require ''other::Components'' ctx = Inr (COther ''Components'' (ComponentsItem cs)) \<and>
    (case get_raw (cf_values config) ''database'' of
       None \<Rightarrow> ad_pool (snd (serve_with_components cs)) = None
         \<and> (\<forall>w2. wp_status (fst (readiness (fst (serve_with_components cs)) w2)) = 200)
     | Some v \<Rightarrow> \<exists>c pool. de_database C v = Inr c
         \<and> sd_connect D (pool_options_of (sd_base D) (dc_pool c)) (db_connection_url c) w = (Inr pool, w')
         \<and> ad_pool (snd (serve_with_components cs)) = Some pool
         \<and> (\<forall>w2. wp_status (fst (readiness (fst (serve_with_components cs)) w2)) = (if is_ok (fst (sd_ping D pool w2)) then 200 else 503)))"
proof -
  obtain ctx1 where b: "app_build (web_app C D config) w = (Inr ctx1, w')"
    and web: "web_configure D ping config (ctx1, w') = (Inr (), (ctx, w'))"
  proof (cases "app_build (web_app C D config) w :: (starter_error + ('p, ('p, 'c, 'w) web_item) app_context) \<times> 'w")
    case (Pair r w1)
    have "ab_config (web_app C D config :: ('p, ('p, 'c, 'w) web_item, 'w) app_builder) = config"
      by (simp add: web_app_def with_starter_def app_new_def)
    with Pair assms that show thesis
      by (cases r) (auto simp: app_build_with_starter WebStarter_def web_configure_def Let_def)
  qed
  note pool = conjunct2 [OF conjunct2 [OF startup_wires_config [OF b]]]
  show ?thesis
    using pool web no_connection [OF b]
    by (auto simp: web_configure_def Let_def ctx_require_eq serve_with_components_def components_configure_def components_new_def
        components_pool_def app_data_new_def readiness_def health_report_def health_register_def probe_check_def
        report_http_status_def health_is_ready_def is_ok_def split: option.splits prod.splits sum.splits)
qed

definition flaky_driver :: "(string, nat) sql_driver" where
  "flaky_driver = demo_driver\<lparr>sd_ping := (\<lambda>pool n. if n = 5 then (Inl ''connection refused'', n) else (Inr (), n))\<rparr>"

theorem configured_app_readiness_witness:
  "\<exists>(ctx :: (string, (string, unit, nat) web_item) app_context) cs.
     app_build (with_starter (WebStarter flaky_driver (\<lambda>_ n. (Inr [], n))) (web_app demo_sections flaky_driver demo_config)) 0 = (Inr ctx, 1)
   \<and> ctx_require ''other::Components'' ctx = Inr (COther ''Components'' (ComponentsItem cs))
   \<and> ad_pool (snd (serve_with_components cs)) = Some (db_connection_url demo_database)
   \<and> wp_status (fst (readiness (fst (serve_with_components cs)) 5)) = 503
   \<and> wp_status (fst (readiness (fst (serve_with_components cs)) 7)) = 200"
proof -
  have raw: "get_raw (cf_values demo_config) k = (if k = ''database'' then Some (JObject []) else None)"
    if "k \<in> {''database'', ''cache'', ''messaging'', ''storage'', ''server''}" for k
    using that by (auto simp: demo_config_def get_raw_def)
  obtain ctx :: "(string, (string, unit, nat) web_item) app_context" where
    b: "app_build (with_starter (WebStarter flaky_driver (\<lambda>_ n. (Inr [], n))) (web_app demo_sections flaky_driver demo_config)) 0 = (Inr ctx, 1)"
    unfolding app_build_with_starter
    by (simp add: WebStarter_def web_configure_def Let_def web_app_build config_sections_def then_register_def register_section_def
        config_get_optional_def raw data_configure_def db_connect_def demo_sections_def demo_driver_def flaky_driver_def is_relational_def
        demo_database_def)
  from configured_app_readiness [OF b] obtain cs c pool where
    cs: "ctx_require ''other::Components'' ctx = Inr (COther ''Components'' (ComponentsItem cs))"
      "de_database demo_sections (JObject []) = Inr c"
      "sd_connect flaky_driver (pool_options_of (sd_base flaky_driver) (dc_pool c)) (db_connection_url c) 0 = (Inr pool, 1)"
      "ad_pool (snd (serve_with_components cs)) = Some pool"
      "\<forall>w2. wp_status (fst (readiness (fst (serve_with_components cs)) w2)) = (if is_ok (fst (sd_ping flaky_driver pool w2)) then 200 else 503)"
    by (auto simp: raw)
  then have "pool = db_connection_url demo_database" by (simp add: demo_sections_def flaky_driver_def demo_driver_def)
  with b cs show ?thesis by (auto simp: flaky_driver_def demo_driver_def is_ok_def)
qed

end
