(* ===== verification/Spec2Isabelle.thy ===== *)
theory Spec2Isabelle
  imports OAuthMemory Sessions WebAuth Rbac Abac Mfa RateLimit Saga Idempotency Locks Outbox Pagination
    Jobs Cron Resilience Discovery ConfigBuild
    Webhooks Platform Csrf Cors WebRateLimit I18n Domain Health Envelope SqlData Migrations Oidc
    SqlJobs SqlOutbox SealedBox Passkeys Paseto Credentials Vault ConfigServer
    RedisBackends MongoOutbox RemoteDiscovery RedisJobs Wiring Scheduler
    Extractors OAuthMetadata Transactions AuditOutbox Scaffold WebApp
begin

text \<open>
  A verification library for the klauthed Rust libraries: identity, authorization, data access and
  service plumbing for web services. The repository is a workspace of crates; a service takes a
  configuration (\<open>klauthed-core\<close>), wires connections and stores from it (\<open>klauthed-core/src/wiring.rs\<close>,
  \<open>klauthed-data\<close>), secures its endpoints with tokens, sessions, policies and the OAuth 2.0
  authorization server (\<open>klauthed-security\<close>, \<open>klauthed-protocol\<close>, \<open>klauthed-web\<close>), and runs background
  work, webhooks and schedules on top of the stores (\<open>klauthed-platform\<close>, \<open>klauthed-discovery\<close>).

  \<^bold>\<open>Conventions.\<close> Structs are records, enums datatypes, trait objects records of their methods over
  a store state. \<open>Result\<close> is a sum with the error on the left, a panic is \<open>None\<close>, \<open>u8\<close> to \<open>u64\<close> are
  words where overflow matters and bounded integers elsewhere, instants and durations are integers
  of nanoseconds with the range of the time library as a parameter (\<open>Instants\<close>), strings are lists
  of bytes. An operation that changes state takes it and returns it updated. What the code takes
  from outside the repository is a parameter: cryptographic primitives, random bytes, clocks,
  parsers and printers (serde, TOML, RFC 3339, base64), HTTP clients and servers, the calendar, the
  databases. Their documented behaviour, where a theorem needs it, is a predicate in its
  hypotheses (\<open>crypto_ok\<close>, \<open>range_ok\<close>, \<open>entry_codec_ok\<close>, \<open>fault_free\<close> and others), and the theorem's
  witness shows concrete functions that satisfy it.

  \<^bold>\<open>Foundations.\<close>
  \<^item> \<open>Prelude\<close>: results, lists, strings (\<open>split\<close>, \<open>trim\<close>, \<open>join\<close>); \<open>OrderedMap\<close>: \<open>BTreeMap\<close> as a sorted
    association list; \<open>Decimal\<close>: printing and parsing of numbers; \<open>Instants\<close>: \<open>klauthed-core/src/time\<close>.
  \<^item> \<open>ErrorKernel\<close>: \<open>klauthed-error\<close> and the error enums of the crates with their classification;
    \<open>Http\<close>: \<open>AppError\<close> and its response, which leaks no internal message.
  \<^item> \<open>RequestCtx\<close>: typed ids and the request context; \<open>Domain\<close>: events, aggregates, buses, the
    repository of the testing crate (event numbers have no gaps); \<open>I18n\<close>: \<open>klauthed-i18n\<close>.

  \<^bold>\<open>Security.\<close>
  \<^item> \<open>Tokens\<close>, \<open>Credentials\<close>, \<open>Mfa\<close>, \<open>Passkeys\<close>: random tokens, password checks, breached passwords, TOTP,
    recovery codes, API keys, WebAuthn ceremonies. Recovery codes and ceremonies are used once.
  \<^item> \<open>AuthCode\<close>, \<open>RefreshToken\<close>: the code and refresh token stores, both interpretations of the locale
    \<open>single_use\<close> (\<open>SingleUse\<close>): what was redeemed is not redeemed again, whatever happens in between.
    A replayed refresh token kills its family.
  \<^item> \<open>Denylist\<close>, \<open>Sessions\<close>: interpretations of \<open>expiring_store\<close> (\<open>Expiring\<close>): an entry is seen exactly
    until its deadline.
  \<^item> \<open>Jwt\<close>, \<open>Paseto\<close>, \<open>Envelope\<close>, \<open>SealedBox\<close>, \<open>Oidc\<close>: claims and verification, the two token formats,
    encryption, ID token validation and key sets; round trips and acceptance conditions.
  \<^item> \<open>Rbac\<close>, \<open>Abac\<close>: role inheritance (equal to reachability, cycles included) and policies (deny
    overrides, in any order).
  \<^item> \<open>OAuthMessages\<close>, \<open>OAuthClient\<close>, \<open>OAuthServer\<close>: the four handlers of \<open>klauthed-web/src/oauth\<close> over
    arbitrary stores, error branches of the stores included. \<open>OAuthSafety\<close> has what holds for every
    store (bindings of codes and refresh tokens, redirects to registered URIs only); the locale
    \<open>oauth_backend\<close> (\<open>OAuthBackend\<close>) is the contract of the stores under which replay is refused, scopes
    stay confined and revocation is final, and \<open>OAuthMemory\<close> interprets it on the in-memory stores.
    \<open>OAuthMetadata\<close>: the discovery document agrees with the token endpoint.

  \<^bold>\<open>Web layer.\<close> \<open>Middleware\<close> (requests, headers, request context, security headers), \<open>WebAuth\<close>, \<open>Csrf\<close>,
  \<open>Cors\<close>, \<open>WebRateLimit\<close>, \<open>Resilience\<close> (circuit breaker and retry), \<open>Health\<close>, \<open>Extractors\<close> (validation and
  bodies), \<open>HttpClient\<close>: each middleware is a function of the wrapped service, and its theorem says
  exactly which requests reach the service and what the others are answered.

  \<^bold>\<open>Data layer.\<close>
  \<^item> \<open>Saga\<close>, \<open>Idempotency\<close>, \<open>Locks\<close>, \<open>Outbox\<close>, \<open>RateLimit\<close>, \<open>Pagination\<close>, \<open>SqlData\<close>, \<open>Migrations\<close>,
    \<open>Transactions\<close>: the modules of \<open>klauthed-data\<close> with their in-memory stores, SQL fragments, migrations
    (in order, once, all or nothing each) and units of work.
  \<^item> \<open>SqlStore\<close>, \<open>RedisStore\<close>, \<open>MongoBackends\<close>: models of the servers: tables with statements that are
    answered, refused, or carried out without an answer, commits included, and transactions that roll
    back; keys with expiry, atomic scripts, requests and answers that get lost; documents with atomic
    single-document updates and a TTL monitor that may or may not remove expired ones.
  \<^item> \<open>SqlOutbox\<close>, \<open>MongoOutbox\<close>, \<open>RedisBackends\<close>, \<open>MongoBackends\<close>: the durable stores. The locale \<open>lock_backend\<close>
    (\<open>Locks\<close>) is interpreted on the memory, Redis and MongoDB locks and gives mutual exclusion;
    \<open>outbox_store\<close> (\<open>Outbox\<close>) on the memory, SQL and MongoDB outboxes and gives delivery exactly once
    under an accepting publisher; \<open>unit_of_work\<close> on the sqlx and MongoDB executors. The Redis rate limiter and the MongoDB
    idempotency store refine the in-memory ones, within the conditions their theorems name.

  \<^bold>\<open>Platform.\<close>
  \<^item> \<open>Jobs\<close>, \<open>SqlJobs\<close>, \<open>RedisJobs\<close>: the job queue in memory, in a table and in Redis scripts. The SQL queue
    refines the in-memory one operation by operation over any history with instants in whole
    milliseconds, and over a failing database leaves each operation whole or undone; the Redis one
    refines it up to the differences its theorem names.
  \<^item> \<open>Cron\<close>, \<open>Scheduler\<close>: cron expressions (the next firing time is the least matching minute) and the
    task loops as a step relation with an invariant by rule induction.
  \<^item> \<open>Webhooks\<close>, \<open>Platform\<close> (tenants, flags, metering, audit, notifications), \<open>AuditOutbox\<close>, \<open>Discovery\<close> (the
    locale \<open>service_registry\<close>, interpreted on the in-memory registry), \<open>RemoteDiscovery\<close>, \<open>Scaffold\<close> (the
    project generator: its template language means what it shows, and it overwrites nothing).

  \<^bold>\<open>Configuration.\<close> \<open>ConfigTree\<close> (merge and dotted keys), \<open>ConfigBuild\<close> (providers, policy, precedence,
  reload), \<open>Vault\<close>, \<open>ConfigServer\<close>, \<open>ConfigSchema\<close> (sections and connection URLs), \<open>Wiring\<close> and \<open>WebApp\<close> (from
  a configuration to an application whose readiness is that of its database).

  \<^bold>\<open>Bounds.\<close> Loops are structural recursions or have a measure, with three exceptions. The step loop
  of a cron field (\<open>step_loop\<close>) takes fuel \<open>STEP_FUEL = 60\<close>: every pass within bounds advances by at
  least one and a field has at most 60 values, and \<open>cron_parse_total\<close> shows that the fuel is never
  exhausted, wrapped steps included. The search for the next occurrence has the bound of the code
  itself, \<open>MAX_MINUTES\<close>. The folder walk of the Vault provider (\<open>discover_loop\<close>) is a partial function,
  since a server may answer with an endless tree (\<open>discover_diverges\<close>); it ends for every finite tree
  (\<open>vault_load_complete\<close>).

  \<^bold>\<open>What the theorems do not cover.\<close> Operations run one after the other or, for Redis, interleave at
  commands; concurrent SQL connections, memory ordering and lock poisoning are not modelled. Floating
  point is not (the token buckets; the backoff of a retry is a parameter). Derived serialisation is
  modelled only where a store or an audit event depends on its form. Connectors to brokers, caches
  and object stores, logging, metrics, tracing, OpenAPI, the derive macros, the server's socket, the
  SCIM data types, test helpers, the facade crate and the sample programs make no decisions of their
  own beyond calls into libraries and are left out.
\<close>

end
